(* ===== verification/Prelude.thy ===== *)
theory Prelude
  imports Main "HOL-Library.Sublist" "HOL-Library.Char_ord" "HOL-Library.List_Lexorder" "HOL-Library.AList"
begin

text \<open>
  Shared ground of the development: the result type of fallible Rust code, the part of the
  standard library's \<^verbatim>\<open>str\<close> the program uses, decimal printing and parsing of
  machine integers, and the interfaces (locales) several components share.

  A Rust \<^verbatim>\<open>String\<close> is its UTF-8 bytes: a value of type \<^typ>\<open>string\<close>
  whose characters are bytes, so \<^verbatim>\<open>s.len()\<close> is \<^term>\<open>length s\<close>, slicing
  at a byte index is \<^term>\<open>take\<close> and \<^term>\<open>drop\<close>, and \<^verbatim>\<open>s.chars()\<close> is
  \<open>utf8_chars s\<close>, the list of byte groups of the code points.  Ordering of strings is
  lexicographic on bytes, as in Rust.
\<close>

named_theorems rust_str \<open>unfolding rules of the string functions\<close>
named_theorems result_simps \<open>rules of the result type\<close>

section \<open>Results\<close>

text \<open>\<^verbatim>\<open>Result<T, E>\<close> is \<open>'e + 'a\<close>; \<open>rbind\<close> is the question-mark operator.\<close>

type_synonym ('e, 'a) result = "'e + 'a"

definition rbind :: "'e + 'a \<Rightarrow> ('a \<Rightarrow> 'e + 'b) \<Rightarrow> 'e + 'b" where
  "rbind r f = (case r of Inl e \<Rightarrow> Inl e | Inr a \<Rightarrow> f a)"

definition ensure :: "bool \<Rightarrow> 'e \<Rightarrow> 'e + unit" where
  "ensure b e = (if b then Inr () else Inl e)"

definition ok_or :: "'a option \<Rightarrow> 'e \<Rightarrow> 'e + 'a" where
  "ok_or x e = (case x of None \<Rightarrow> Inl e | Some a \<Rightarrow> Inr a)"

fun is_ok :: "'e + 'a \<Rightarrow> bool" where
  "is_ok (Inr _) = True"
| "is_ok (Inl _) = False"

lemma rbind_simps [simp, result_simps]:
  "rbind (Inl e) f = Inl e" "rbind (Inr a) f = f a"
  by (simp_all add: rbind_def)

lemma rbind_Inr_iff [result_simps]:
  "rbind r f = Inr b \<longleftrightarrow> (\<exists>a. r = Inr a \<and> f a = Inr b)"
  by (cases r) auto

lemma rbind_InrE:
  assumes "rbind r f = Inr b"
  obtains a where "r = Inr a" "f a = Inr b"
  using assms by (cases r) auto

lemma rbind_Inl_iff:
  "rbind r f = Inl e \<longleftrightarrow> r = Inl e \<or> (\<exists>a. r = Inr a \<and> f a = Inl e)"
  by (cases r) auto

lemma rbind_split:
  "P (rbind r f) \<longleftrightarrow> (\<forall>e. r = Inl e \<longrightarrow> P (Inl e)) \<and> (\<forall>a. r = Inr a \<longrightarrow> P (f a))"
  by (cases r) auto

lemma ensure_simps [simp, result_simps]:
  "ensure b e = Inr u \<longleftrightarrow> b" "ensure b e = Inl e' \<longleftrightarrow> \<not> b \<and> e' = e"
  "ensure True e = Inr ()" "ensure False e = Inl e"
  by (auto simp: ensure_def)

lemma ok_or_simps [simp, result_simps]:
  "ok_or None e = Inl e" "ok_or (Some a) e = Inr a"
  "ok_or x e = Inr b \<longleftrightarrow> x = Some b"
  "ok_or x e = Inl e' \<longleftrightarrow> x = None \<and> e' = e"
  by (auto simp: ok_or_def split: option.splits)

text \<open>\<^verbatim>\<open>iter().map(f).collect::<Result<Vec<_>>>()\<close>: stops at the first error.\<close>

fun traverse :: "('a \<Rightarrow> 'e + 'b) \<Rightarrow> 'a list \<Rightarrow> 'e + 'b list" where
  "traverse f [] = Inr []"
| "traverse f (x # xs) = rbind (f x) (\<lambda>y. rbind (traverse f xs) (\<lambda>ys. Inr (y # ys)))"

lemma traverse_Inr_iff:
  "traverse f xs = Inr ys \<longleftrightarrow> list_all2 (\<lambda>x y. f x = Inr y) xs ys"
  by (induction xs arbitrary: ys) (auto simp: rbind_Inr_iff list_all2_Cons1)

lemma traverse_Inr_length: "traverse f xs = Inr ys \<Longrightarrow> length ys = length xs"
  by (auto simp: traverse_Inr_iff dest: list_all2_lengthD)

lemma traverse_Inr_set:
  "traverse f xs = Inr ys \<Longrightarrow> y \<in> set ys \<Longrightarrow> \<exists>x \<in> set xs. f x = Inr y"
  by (force simp: traverse_Inr_iff list_all2_conv_all_nth in_set_conv_nth)

text \<open>A loop whose body may fail: \<^verbatim>\<open>for x in xs { s = f(s, x)?; }\<close>.\<close>

fun foldm :: "('s \<Rightarrow> 'a \<Rightarrow> 'e + 's) \<Rightarrow> 's \<Rightarrow> 'a list \<Rightarrow> 'e + 's" where
  "foldm f s [] = Inr s"
| "foldm f s (x # xs) = rbind (f s x) (\<lambda>s'. foldm f s' xs)"

lemma foldm_append: "foldm f s (xs @ ys) = rbind (foldm f s xs) (\<lambda>s'. foldm f s' ys)"
  by (induction xs arbitrary: s) (auto simp: rbind_def split: sum.splits)

lemma foldm_invariant:
  assumes "foldm f s xs = Inr s'" and "I s"
    and "\<And>s x s'. x \<in> set xs \<Longrightarrow> I s \<Longrightarrow> f s x = Inr s' \<Longrightarrow> I s'"
  shows "I s'"
  using assms
proof (induction xs arbitrary: s)
  case Nil
  then show ?case by simp
next
  case (Cons x xs)
  from Cons.prems(1) obtain t where t: "f s x = Inr t" "foldm f t xs = Inr s'"
    by (auto simp: rbind_Inr_iff)
  moreover from t(1) Cons.prems(2,3) have "I t" by auto
  ultimately show ?case using Cons.IH Cons.prems(3) by auto
qed


section \<open>Bytes and UTF-8 characters\<close>

definition byte :: "char \<Rightarrow> nat" where
  "byte c = of_char c"

definition is_cont :: "char \<Rightarrow> bool" where
  "is_cont c \<longleftrightarrow> 128 \<le> byte c \<and> byte c < 192"

text \<open>The code points of a string, each as the bytes that encode it.\<close>

function utf8_chars :: "string \<Rightarrow> string list" where
  "utf8_chars [] = []"
| "utf8_chars (c # cs) = (c # takeWhile is_cont cs) # utf8_chars (dropWhile is_cont cs)"
  by pat_completeness auto
termination
  by (relation "measure length") (auto simp: le_imp_less_Suc length_dropWhile_le)

lemma concat_utf8_chars [simp]: "concat (utf8_chars s) = s"
  by (induction s rule: utf8_chars.induct) auto

lemma utf8_chars_nonempty: "g \<in> set (utf8_chars s) \<Longrightarrow> g \<noteq> []"
  by (induction s rule: utf8_chars.induct) auto

lemma utf8_chars_eq_Nil [simp]: "utf8_chars s = [] \<longleftrightarrow> s = []"
  by (cases s) auto

text \<open>The number of bytes of the encoded code point a string begins with, and \<^verbatim>\<open>str::from_utf8\<close>.\<close>

definition utf8_width :: "string \<Rightarrow> nat option" where
  "utf8_width s =
     (case map byte s of
        [] \<Rightarrow> None
      | a # rest \<Rightarrow>
          if a < 128 then Some 1
          else (let cont = (\<lambda>b. 128 \<le> b \<and> b < 192) in
                case rest of
                  [] \<Rightarrow> None
                | b # rest2 \<Rightarrow>
                    if 194 \<le> a \<and> a \<le> 223 then (if cont b then Some 2 else None)
                    else (case rest2 of
                            [] \<Rightarrow> None
                          | c # rest3 \<Rightarrow>
                              if 224 \<le> a \<and> a \<le> 239 then
                                (if cont b \<and> cont c \<and> (a = 224 \<longrightarrow> 160 \<le> b) \<and> (a = 237 \<longrightarrow> b < 160)
                                 then Some 3 else None)
                              else (case rest3 of
                                      [] \<Rightarrow> None
                                    | d # _ \<Rightarrow>
                                        if 240 \<le> a \<and> a \<le> 244 \<and> cont b \<and> cont c \<and> cont d \<and>
                                           (a = 240 \<longrightarrow> 144 \<le> b) \<and> (a = 244 \<longrightarrow> b < 144)
                                        then Some 4 else None))))"

lemma utf8_width_positive: "utf8_width s = Some n \<Longrightarrow> 0 < n \<and> n \<le> length s"
  by (auto simp: utf8_width_def Let_def split: list.splits if_splits)

function utf8_valid :: "string \<Rightarrow> bool" where
  "utf8_valid s =
     (s = [] \<or> (case utf8_width s of Some n \<Rightarrow> utf8_valid (drop n s) | None \<Rightarrow> False))"
  by pat_completeness auto
termination
  by (relation "measure length") (auto dest: utf8_width_positive)

declare utf8_valid.simps [simp del]

definition from_utf8 :: "string \<Rightarrow> string option" where
  "from_utf8 bytes = (if utf8_valid bytes then Some bytes else None)"

definition ascii :: "string \<Rightarrow> bool" where
  "ascii s \<longleftrightarrow> list_all (\<lambda>c. byte c < 128) s"

lemma ascii_simps [simp]:
  "ascii []" "ascii (c # s) \<longleftrightarrow> byte c < 128 \<and> ascii s" "ascii (s @ t) \<longleftrightarrow> ascii s \<and> ascii t"
  by (auto simp: ascii_def)

lemma utf8_chars_ascii: "ascii s \<Longrightarrow> utf8_chars s = map (\<lambda>c. [c]) s"
proof (induction s)
  case Nil
  then show ?case by simp
next
  case (Cons c s)
  then have "takeWhile is_cont s = []" "dropWhile is_cont s = s"
    by (cases s; simp add: is_cont_def)+
  with Cons show ?case by simp
qed

text \<open>\<^verbatim>\<open>char::is_whitespace\<close> (the Unicode property White\_Space) and
  \<^verbatim>\<open>char::is_control\<close> (category Cc), on the bytes of one code point.\<close>

definition unicode_spaces :: "string list" where
  "unicode_spaces =
     map (\<lambda>c. [c]) [CHR 0x09, CHR 0x0A, CHR 0x0B, CHR 0x0C, CHR 0x0D, CHR 0x20] @
     [[CHR 0xC2, CHR 0x85], [CHR 0xC2, CHR 0xA0], [CHR 0xE1, CHR 0x9A, CHR 0x80]] @
     map (\<lambda>c. [CHR 0xE2, CHR 0x80, c])
       [CHR 0x80, CHR 0x81, CHR 0x82, CHR 0x83, CHR 0x84, CHR 0x85, CHR 0x86, CHR 0x87,
        CHR 0x88, CHR 0x89, CHR 0x8A, CHR 0xA8, CHR 0xA9, CHR 0xAF] @
     [[CHR 0xE2, CHR 0x81, CHR 0x9F], [CHR 0xE3, CHR 0x80, CHR 0x80]]"

definition is_whitespace :: "string \<Rightarrow> bool" where
  "is_whitespace g \<longleftrightarrow> List.member unicode_spaces g"

definition is_control :: "string \<Rightarrow> bool" where
  "is_control g \<longleftrightarrow>
     (case g of
        [c] \<Rightarrow> byte c < 32 \<or> byte c = 127
      | [c, d] \<Rightarrow> byte c = 194 \<and> 128 \<le> byte d \<and> byte d < 160
      | _ \<Rightarrow> False)"

section \<open>The functions of str\<close>

definition trim_start :: "string \<Rightarrow> string" where
  "trim_start s = concat (dropWhile is_whitespace (utf8_chars s))"

definition trim_end :: "string \<Rightarrow> string" where
  "trim_end s = concat (rev (dropWhile is_whitespace (rev (utf8_chars s))))"

definition trim :: "string \<Rightarrow> string" where
  "trim s = concat (rev (dropWhile is_whitespace (rev (dropWhile is_whitespace (utf8_chars s)))))"

text \<open>\<^verbatim>\<open>trim_start_matches(c)\<close> and \<^verbatim>\<open>trim_end_matches(c)\<close> for ASCII characters.\<close>

definition trim_start_matches :: "char list \<Rightarrow> string \<Rightarrow> string" where
  "trim_start_matches cs s = dropWhile (\<lambda>c. List.member cs c) s"

definition trim_end_matches :: "char list \<Rightarrow> string \<Rightarrow> string" where
  "trim_end_matches cs s = rev (dropWhile (\<lambda>c. List.member cs c) (rev s))"

definition ascii_lower :: "char \<Rightarrow> char" where
  "ascii_lower c = (if 65 \<le> byte c \<and> byte c \<le> 90 then char_of (byte c + 32) else c)"

definition to_ascii_lowercase :: "string \<Rightarrow> string" where
  "to_ascii_lowercase s = map ascii_lower s"

definition eq_ignore_ascii_case :: "string \<Rightarrow> string \<Rightarrow> bool" where
  "eq_ignore_ascii_case s t \<longleftrightarrow> to_ascii_lowercase s = to_ascii_lowercase t"

fun starts_with :: "string \<Rightarrow> string \<Rightarrow> bool" where
  "starts_with s [] = True"
| "starts_with [] (p # ps) = False"
| "starts_with (c # s) (p # ps) = (c = p \<and> starts_with s ps)"

definition ends_with :: "string \<Rightarrow> string \<Rightarrow> bool" where
  "ends_with s p = starts_with (rev s) (rev p)"

definition strip_prefix :: "string \<Rightarrow> string \<Rightarrow> string option" where
  "strip_prefix p s = (if starts_with s p then Some (drop (length p) s) else None)"

text \<open>\<^verbatim>\<open>s.find(needle)\<close>: the byte index of the first occurrence.\<close>

fun str_find :: "string \<Rightarrow> string \<Rightarrow> nat option" where
  "str_find needle [] = (if needle = [] then Some 0 else None)"
| "str_find needle (c # s) =
     (if starts_with (c # s) needle then Some 0 else map_option Suc (str_find needle s))"

fun contains :: "string \<Rightarrow> string \<Rightarrow> bool" where
  "contains [] needle = (needle = [])"
| "contains (c # s) needle = (starts_with (c # s) needle \<or> contains s needle)"

text \<open>\<^verbatim>\<open>s.split(c)\<close> for a predicate on elements: always at least one part.\<close>

fun split_on :: "('a \<Rightarrow> bool) \<Rightarrow> 'a list \<Rightarrow> 'a list list" where
  "split_on p [] = [[]]"
| "split_on p (c # s) =
     (if p c then [] # split_on p s
      else (case split_on p s of [] \<Rightarrow> [[c]] | w # ws \<Rightarrow> (c # w) # ws))"

definition split_whitespace :: "string \<Rightarrow> string list" where
  "split_whitespace s =
     map concat (filter (\<lambda>w. w \<noteq> []) (split_on is_whitespace (utf8_chars s)))"

text \<open>\<^verbatim>\<open>s.split_once(c)\<close> and \<^verbatim>\<open>s.rsplit_once(c)\<close>.\<close>

fun split_once :: "char \<Rightarrow> string \<Rightarrow> (string \<times> string) option" where
  "split_once p [] = None"
| "split_once p (c # s) =
     (if c = p then Some ([], s) else map_option (\<lambda>(a, b). (c # a, b)) (split_once p s))"

definition rsplit_once :: "char \<Rightarrow> string \<Rightarrow> (string \<times> string) option" where
  "rsplit_once p s = map_option (\<lambda>(a, b). (rev b, rev a)) (split_once p (rev s))"

text \<open>\<^verbatim>\<open>parts.join(sep)\<close>.\<close>

fun join :: "string \<Rightarrow> string list \<Rightarrow> string" where
  "join sep [] = []"
| "join sep [w] = w"
| "join sep (w # v # ws) = w @ sep @ join sep (v # ws)"

text \<open>The pieces of a text between the occurrences of \<open>old\<close> that a search from the left finds, as \<^verbatim>\<open>str::split\<close> gives them:
  the number of matches is one less, and a replacement joins the pieces with the new text.\<close>

function pieces :: "string \<Rightarrow> string \<Rightarrow> string list" where
  "pieces old s =
     (case str_find old s of
        None \<Rightarrow> [s]
      | Some i \<Rightarrow> if old = [] then [s] else take i s # pieces old (drop (i + length old) s))"
  by pat_completeness auto
termination
proof (relation "measure (\<lambda>(_, s). length s)", goal_cases)
  case (2 old s i)
  then have "s \<noteq> []" by (cases s) auto
  with 2 show ?case by simp
qed simp

declare pieces.simps [simp del]

text \<open>\<^verbatim>\<open>s.replace(old, new)\<close> for a text \<open>old\<close> that is not empty, and \<^verbatim>\<open>s.lines()\<close>: the last line may lack its
  line feed, and one carriage return before a line feed belongs to the line end.\<close>

definition str_replace :: "string \<Rightarrow> string \<Rightarrow> string \<Rightarrow> string" where
  "str_replace old new s = join new (pieces old s)"

definition chop_return :: "string \<Rightarrow> string" where
  "chop_return l = (if l \<noteq> [] \<and> last l = CHR 0x0D then butlast l else l)"

definition str_lines :: "string \<Rightarrow> string list" where
  "str_lines s =
     (let parts = split_on ((=) (CHR 0x0A)) s in
      map chop_return (butlast parts) @ (if last parts = [] then [] else [last parts]))"

lemma starts_with_iff_prefix: "starts_with s p \<longleftrightarrow> prefix p s"
  by (induction s p rule: starts_with.induct) auto

lemma starts_with_append [simp]: "starts_with (p @ s) p"
  by (simp add: starts_with_iff_prefix)

lemma ends_with_iff_suffix: "ends_with s p \<longleftrightarrow> suffix p s"
  by (simp add: ends_with_def starts_with_iff_prefix suffix_to_prefix)

lemma contains_iff_sublist: "contains s n \<longleftrightarrow> sublist n s"
  by (induction s) (auto simp: starts_with_iff_prefix sublist_Cons_right)

lemma contains_append: "contains (a @ n @ b) n"
  by (auto simp: contains_iff_sublist)

lemma contains_mono: "contains s n \<Longrightarrow> contains (a @ s @ b) n"
proof -
  assume "contains s n"
  then obtain u v where "s = u @ n @ v" by (auto simp: contains_iff_sublist sublist_def)
  then have "a @ s @ b = (a @ u) @ n @ (v @ b)" by simp
  then show ?thesis by (metis contains_append)
qed

lemma contains_trans: "contains s n \<Longrightarrow> contains n m \<Longrightarrow> contains s m"
  by (auto simp: contains_iff_sublist)

lemma strip_prefix_Some: "strip_prefix p s = Some r \<longleftrightarrow> s = p @ r"
  by (auto simp: strip_prefix_def starts_with_iff_prefix prefix_def)

lemma strip_prefix_None: "strip_prefix p s = None \<longleftrightarrow> \<not> prefix p s"
  by (auto simp: strip_prefix_def starts_with_iff_prefix)

lemma str_find_Some: "str_find n s = Some i \<Longrightarrow> prefix n (drop i s) \<and> i \<le> length s"
  by (induction s arbitrary: i)
     (auto simp: starts_with_iff_prefix split: if_splits)

lemma str_find_first:
  "str_find n s = Some i \<Longrightarrow> j < i \<Longrightarrow> \<not> prefix n (drop j s)"
proof (induction s arbitrary: i j)
  case Nil
  then show ?case by (auto split: if_splits)
next
  case (Cons c s)
  then obtain k where k: "i = Suc k" "str_find n s = Some k" "\<not> prefix n (c # s)"
    by (auto simp: starts_with_iff_prefix split: if_splits)
  show ?case
  proof (cases j)
    case 0
    with k show ?thesis by simp
  next
    case (Suc j')
    with Cons.IH [OF k(2), of j'] Cons.prems k show ?thesis by simp
  qed
qed

lemma str_find_None: "str_find n s = None \<longleftrightarrow> \<not> contains s n"
  by (induction s) (auto simp: starts_with_iff_prefix)

lemma split_once_Some:
  "split_once p s = Some (a, b) \<longleftrightarrow> s = a @ p # b \<and> p \<notin> set a"
proof (induction s arbitrary: a)
  case Nil
  then show ?case by simp
next
  case (Cons c s)
  then show ?case by (cases a) (auto simp: split_paired_all)
qed

lemma split_once_None: "split_once p s = None \<longleftrightarrow> p \<notin> set s"
  by (induction s) auto

lemma rsplit_once_Some:
  "rsplit_once p s = Some (a, b) \<longleftrightarrow> s = a @ p # b \<and> p \<notin> set b"
proof -
  have "rsplit_once p s = Some (a, b) \<longleftrightarrow> split_once p (rev s) = Some (rev b, rev a)"
    by (cases "split_once p (rev s)") (auto simp: rsplit_once_def)
  also have "\<dots> \<longleftrightarrow> rev s = rev b @ p # rev a \<and> p \<notin> set b"
    by (simp add: split_once_Some)
  also have "rev s = rev b @ p # rev a \<longleftrightarrow> s = a @ p # b"
    by (metis append.assoc append_Cons append_Nil rev.simps(2) rev_append rev_rev_ident)
  finally show ?thesis .
qed

lemma split_on_nonempty [simp]: "split_on p s \<noteq> []"
  by (induction s) (auto split: list.splits)

lemma split_on_parts: "w \<in> set (split_on p s) \<Longrightarrow> c \<in> set w \<Longrightarrow> \<not> p c \<and> c \<in> set s"
proof (induction s arbitrary: w)
  case Nil
  then show ?case by simp
next
  case (Cons d s)
  then show ?case
    by (cases "split_on p s") (fastforce split: if_splits)+
qed

lemma split_on_no_sep: "(\<And>c. c \<in> set s \<Longrightarrow> \<not> p c) \<Longrightarrow> split_on p s = [s]"
  by (induction s) (auto)

lemma split_on_append_sep:
  "p c \<Longrightarrow> split_on p (a @ c # b) = split_on p a @ split_on p b"
  by (induction a) (auto split: list.splits)

lemma ascii_lower_idem [simp]: "ascii_lower (ascii_lower c) = ascii_lower c"
  by (auto simp: ascii_lower_def byte_def)

lemma to_ascii_lowercase_simps [simp]:
  "to_ascii_lowercase [] = []"
  "to_ascii_lowercase (s @ t) = to_ascii_lowercase s @ to_ascii_lowercase t"
  "length (to_ascii_lowercase s) = length s"
  "to_ascii_lowercase (to_ascii_lowercase s) = to_ascii_lowercase s"
  by (auto simp: to_ascii_lowercase_def)

lemma to_ascii_lowercase_eq_Nil [simp]: "to_ascii_lowercase s = [] \<longleftrightarrow> s = []"
  by (simp add: to_ascii_lowercase_def)


section \<open>Concatenation at a character boundary\<close>

definition at_boundary :: "string \<Rightarrow> bool" where
  "at_boundary b \<longleftrightarrow> (case b of [] \<Rightarrow> True | c # _ \<Rightarrow> \<not> is_cont c)"

lemma at_boundary_Nil [simp]: "at_boundary []"
  by (simp add: at_boundary_def)

lemma at_boundary_Cons [simp]: "at_boundary (c # b) \<longleftrightarrow> \<not> is_cont c"
  by (simp add: at_boundary_def)

lemma ascii_not_cont: "byte c < 128 \<Longrightarrow> \<not> is_cont c"
  by (simp add: is_cont_def)

lemma takeWhile_boundary:
  "at_boundary b \<Longrightarrow> takeWhile is_cont (a @ b) = takeWhile is_cont a"
  "at_boundary b \<Longrightarrow> dropWhile is_cont (a @ b) = dropWhile is_cont a @ b"
  by (induction a; cases b; simp)+

lemma utf8_chars_append:
  assumes "at_boundary b"
  shows "utf8_chars (a @ b) = utf8_chars a @ utf8_chars b"
proof (induction a rule: utf8_chars.induct)
  case 1
  show ?case by simp
next
  case (2 c cs)
  with assms show ?case by (simp add: takeWhile_boundary)
qed

lemma utf8_chars_Cons_ascii:
  "byte c < 128 \<Longrightarrow> utf8_chars (a @ c # b) = utf8_chars a @ utf8_chars (c # b)"
  by (simp add: utf8_chars_append ascii_not_cont)

lemma is_cont_ascii_lower [simp]: "is_cont (ascii_lower c) = is_cont c"
  by (auto simp: is_cont_def ascii_lower_def byte_def)

lemma utf8_chars_lower: "utf8_chars (to_ascii_lowercase s) = map to_ascii_lowercase (utf8_chars s)"
  by (induction s rule: utf8_chars.induct)
     (auto simp: to_ascii_lowercase_def takeWhile_map dropWhile_map comp_def)

lemma ascii_lower_eq_low: "byte d < 65 \<or> 122 < byte d \<Longrightarrow> ascii_lower c = d \<longleftrightarrow> c = d"
  by (auto simp: ascii_lower_def byte_def)

lemma map_ascii_lower_eq:
  "list_all (\<lambda>d. byte d < 65 \<or> 122 < byte d) u \<Longrightarrow> map ascii_lower g = u \<longleftrightarrow> g = u"
proof (induction u arbitrary: g)
  case Nil
  then show ?case by simp
next
  case (Cons d u)
  then show ?case by (cases g) (auto simp: ascii_lower_eq_low)
qed

lemma unicode_spaces_no_letters:
  "list_all (list_all (\<lambda>d. byte d < 65 \<or> 122 < byte d)) unicode_spaces"
  by (simp add: unicode_spaces_def byte_def)

lemma is_whitespace_lower [simp]: "is_whitespace (to_ascii_lowercase g) = is_whitespace g"
proof -
  have "to_ascii_lowercase g \<in> set unicode_spaces \<longleftrightarrow> g \<in> set unicode_spaces"
  proof
    assume "to_ascii_lowercase g \<in> set unicode_spaces"
    moreover from this have "list_all (\<lambda>d. byte d < 65 \<or> 122 < byte d) (to_ascii_lowercase g)"
      using unicode_spaces_no_letters by (auto simp: list_all_iff)
    then have "to_ascii_lowercase g = g"
      using map_ascii_lower_eq [of "to_ascii_lowercase g" g] by (simp add: to_ascii_lowercase_def)
    ultimately show "g \<in> set unicode_spaces" by simp
  next
    assume g: "g \<in> set unicode_spaces"
    then have "list_all (\<lambda>d. byte d < 65 \<or> 122 < byte d) g"
      using unicode_spaces_no_letters by (auto simp: list_all_iff)
    then have "to_ascii_lowercase g = g"
      using map_ascii_lower_eq [of g g] by (simp add: to_ascii_lowercase_def)
    with g show "to_ascii_lowercase g \<in> set unicode_spaces" by simp
  qed
  then show ?thesis by (simp add: is_whitespace_def)
qed

lemma concat_map_lower: "concat (map to_ascii_lowercase gs) = to_ascii_lowercase (concat gs)"
  by (induction gs) (auto simp: to_ascii_lowercase_def)

lemma trim_lower: "trim (to_ascii_lowercase s) = to_ascii_lowercase (trim s)"
proof -
  have "trim (to_ascii_lowercase s) =
      concat (map to_ascii_lowercase
        (rev (dropWhile is_whitespace (rev (dropWhile is_whitespace (utf8_chars s))))))"
    by (simp add: trim_def utf8_chars_lower dropWhile_map comp_def rev_map)
  also have "\<dots> = to_ascii_lowercase (trim s)"
    by (simp add: concat_map_lower trim_def)
  finally show ?thesis .
qed

section \<open>Words and padding\<close>

lemma utf8_chars_space: "at_boundary b \<Longrightarrow> utf8_chars (CHR '' '' # b) = '' '' # utf8_chars b"
  by (cases b) (auto)

lemma is_whitespace_space [simp]: "is_whitespace '' ''"
  by (simp add: is_whitespace_def unicode_spaces_def)

lemma split_whitespace_space:
  assumes "at_boundary b"
  shows "split_whitespace (a @ CHR '' '' # b) = split_whitespace a @ split_whitespace b"
proof -
  have "utf8_chars (a @ CHR '' '' # b) = utf8_chars a @ '' '' # utf8_chars b"
    using assms by (simp add: utf8_chars_append utf8_chars_space is_cont_def byte_def
        del: utf8_chars.simps)
  then show ?thesis by (simp add: split_whitespace_def split_on_append_sep)
qed

lemma list_ex_split_space:
  assumes "at_boundary b"
  shows "list_ex P (split_whitespace (a @ CHR '' '' # b)) \<longleftrightarrow>
    list_ex P (split_whitespace a) \<or> list_ex P (split_whitespace b)"
  using assms by (simp add: split_whitespace_space list_ex_iff Bex_def) blast

lemma dropWhile_all: "list_all p ws \<Longrightarrow> dropWhile p (ws @ xs) = dropWhile p xs"
  by (induction ws) auto

lemma trim_padding:
  assumes "list_all is_whitespace (utf8_chars u)" "list_all is_whitespace (utf8_chars v)"
    "at_boundary c" "at_boundary v"
  shows "trim (u @ c @ v) = trim c"
proof -
  have bd: "at_boundary (c @ v)" using assms(3,4) by (cases c) auto
  have e: "utf8_chars (u @ c @ v) = utf8_chars u @ utf8_chars c @ utf8_chars v"
    using assms(4) bd by (simp add: utf8_chars_append)
  let ?C = "utf8_chars c" let ?d = "\<lambda>xs. dropWhile is_whitespace xs"
  have "?d (rev (?d (?C @ utf8_chars v))) = ?d (rev (?d ?C))"
  proof (cases "list_all is_whitespace ?C")
    case True
    then have e1: "?d (?C @ utf8_chars v) = []" and e2: "?d ?C = []"
      using assms(2) unfolding dropWhile_eq_Nil_conv by (auto simp: list_all_iff)
    show ?thesis by (simp only: e1 e2)
  next
    case False
    then obtain g where "g \<in> set ?C" "\<not> is_whitespace g" by (auto simp: list_all_iff)
    then have "?d (?C @ utf8_chars v) = ?d ?C @ utf8_chars v" by (rule dropWhile_append1)
    moreover have "list_all is_whitespace (rev (utf8_chars v))"
      using assms(2) by (simp add: list_all_iff)
    ultimately show ?thesis by (simp add: dropWhile_all)
  qed
  with assms(1) e show ?thesis by (simp add: trim_def dropWhile_all)
qed

lemma at_boundary_lower [simp]: "at_boundary (to_ascii_lowercase s) = at_boundary s"
  by (cases s) (auto simp: to_ascii_lowercase_def)

section \<open>Well-formed characters\<close>

definition wf_char :: "string \<Rightarrow> bool" where
  "wf_char g \<longleftrightarrow> (case g of [] \<Rightarrow> False | c # cs \<Rightarrow> \<not> is_cont c \<and> list_all is_cont cs)"

lemma takeWhile_dropWhile_cont:
  "list_all is_cont cs \<Longrightarrow> at_boundary r \<Longrightarrow> takeWhile is_cont (cs @ r) = cs \<and> dropWhile is_cont (cs @ r) = r"
  by (induction cs) (cases r; simp)+

lemma utf8_chars_wf_Cons: "wf_char g \<Longrightarrow> at_boundary r \<Longrightarrow> utf8_chars (g @ r) = g # utf8_chars r"
  using takeWhile_dropWhile_cont by (auto simp: wf_char_def split: list.splits)

lemma at_boundary_concat: "list_all wf_char gs \<Longrightarrow> at_boundary (concat gs)"
  by (cases gs) (auto simp: wf_char_def split: list.splits)

lemma utf8_chars_concat: "list_all wf_char gs \<Longrightarrow> utf8_chars (concat gs) = gs"
  by (induction gs) (simp_all add: utf8_chars_wf_Cons at_boundary_concat)

lemma at_boundary_dropWhile: "at_boundary (dropWhile is_cont s)"
  by (induction s) auto

lemma wf_utf8_chars: "at_boundary s \<Longrightarrow> list_all wf_char (utf8_chars s)"
proof (induction s rule: utf8_chars.induct)
  case 1
  show ?case by simp
next
  case (2 c cs)
  moreover have "list_all is_cont (takeWhile is_cont cs)" by (auto simp: list_all_iff dest: set_takeWhileD)
  ultimately show ?case by (simp add: wf_char_def at_boundary_dropWhile)
qed

section \<open>Interfaces\<close>

text \<open>A \<open>HashMap\<close> as an association list.\<close>

lemma set_AList_update:
  "distinct (map fst xs) \<Longrightarrow> set (AList.update k v xs) = insert (k, v) {p \<in> set xs. fst p \<noteq> k}"
  by (induction xs) force+

text \<open>States reachable from an initial state of a step relation.\<close>

inductive reachable_from :: "('s \<Rightarrow> bool) \<Rightarrow> ('s \<Rightarrow> 's \<Rightarrow> bool) \<Rightarrow> 's \<Rightarrow> bool"
  for init :: "'s \<Rightarrow> bool" and step :: "'s \<Rightarrow> 's \<Rightarrow> bool" where
  start: "init s \<Longrightarrow> reachable_from init step s"
| next_state: "reachable_from init step s \<Longrightarrow> step s t \<Longrightarrow> reachable_from init step t"

text \<open>The contract of a transition system with an inductive invariant.\<close>

locale inductive_invariant =
  fixes init :: "'s \<Rightarrow> bool" and step :: "'s \<Rightarrow> 's \<Rightarrow> bool" and inv :: "'s \<Rightarrow> bool"
  assumes init_inv: "init s \<Longrightarrow> inv s"
    and step_inv: "inv s \<Longrightarrow> step s t \<Longrightarrow> inv t"
begin

lemma reachable_inv: "reachable_from init step s \<Longrightarrow> inv s"
  by (induction rule: reachable_from.induct) (auto intro: init_inv step_inv)

lemma steps_inv: "step\<^sup>*\<^sup>* s t \<Longrightarrow> inv s \<Longrightarrow> inv t"
  by (induction rule: rtranclp_induct) (auto intro: step_inv)

end

text \<open>The contract of a store of values under keys: what a lookup returns after an update.\<close>

locale kv_store =
  fixes get :: "'s \<Rightarrow> 'k \<Rightarrow> 'v option" and put :: "'s \<Rightarrow> 'k \<Rightarrow> 'v \<Rightarrow> 's"
  assumes get_put_same: "get (put s k v) k = Some v"
    and get_put_other: "k' \<noteq> k \<Longrightarrow> get (put s k v) k' = get s k'"
begin

lemma get_put: "get (put s k v) = (get s)(k \<mapsto> v)"
  by (rule ext) (auto simp: get_put_same get_put_other)

lemma get_put_put: "get (put (put s k v) k w) = (get s)(k \<mapsto> w)"
  by (simp add: get_put)

lemma put_comm_get: "k \<noteq> k' \<Longrightarrow> get (put (put s k v) k' w) = get (put (put s k' w) k v)"
  by (auto simp: get_put)

end

end
