(* ===== verification/Decimal.thy ===== *)
theory Decimal
  imports Prelude
begin

text \<open>
  Decimal printing and parsing of machine integers, as \<^verbatim>\<open>format!\<close> and
  \<^verbatim>\<open>str::parse\<close> do them: \<open>show_nat\<close> and \<open>show_int\<close> are \<^verbatim>\<open>{}\<close>, \<open>fmt_pad w\<close> is
  \<^verbatim>\<open>{:0w}\<close>, \<open>parse_i64\<close> and \<open>parse_u16\<close> accept an optional sign and reject an empty digit
  string and any value out of range.  The main facts: printing and parsing are inverse, and on
  digit strings of one length the byte order of strings is the order of their values.
\<close>

definition i64_max :: int where "i64_max = 9223372036854775807"
definition i64_min :: int where "i64_min = -9223372036854775808"

definition is_digit :: "char \<Rightarrow> bool" where
  "is_digit c \<longleftrightarrow> 48 \<le> byte c \<and> byte c \<le> 57"

definition digit :: "nat \<Rightarrow> char" where
  "digit d = char_of (48 + d)"

fun show_nat :: "nat \<Rightarrow> string" where
  "show_nat n = (if n < 10 then [digit n] else show_nat (n div 10) @ [digit (n mod 10)])"

declare show_nat.simps [simp del]

definition show_int :: "int \<Rightarrow> string" where
  "show_int m = (if m < 0 then CHR ''-'' # show_nat (nat (- m)) else show_nat (nat m))"

definition zero_pad :: "nat \<Rightarrow> string \<Rightarrow> string" where
  "zero_pad w s = replicate (w - length s) CHR ''0'' @ s"

definition fmt_pad :: "nat \<Rightarrow> int \<Rightarrow> string" where
  "fmt_pad w m =
     (if m < 0 then CHR ''-'' # zero_pad (w - 1) (show_nat (nat (- m)))
      else zero_pad w (show_nat (nat m)))"

definition digits_val :: "string \<Rightarrow> nat" where
  "digits_val s = foldl (\<lambda>a c. 10 * a + (byte c - 48)) 0 s"

definition parse_nat :: "string \<Rightarrow> nat option" where
  "parse_nat s = (if s \<noteq> [] \<and> list_all is_digit s then Some (digits_val s) else None)"

definition parse_i64 :: "string \<Rightarrow> int option" where
  "parse_i64 s =
     (case s of
        c # t \<Rightarrow>
          (if c = CHR ''-'' then
             (case parse_nat t of
                Some n \<Rightarrow> if i64_min \<le> - int n then Some (- int n) else None
              | None \<Rightarrow> None)
           else
             (case parse_nat (if c = CHR ''+'' then t else s) of
                Some n \<Rightarrow> if int n \<le> i64_max then Some (int n) else None
              | None \<Rightarrow> None))
      | [] \<Rightarrow> None)"

definition parse_u16 :: "string \<Rightarrow> nat option" where
  "parse_u16 s =
     (case parse_nat (case s of c # t \<Rightarrow> if c = CHR ''+'' then t else s | [] \<Rightarrow> []) of
        Some n \<Rightarrow> if n < 65536 then Some n else None
      | None \<Rightarrow> None)"

text \<open>\<^verbatim>\<open>parse::<usize>()\<close> on a 64-bit machine.\<close>

definition parse_usize :: "string \<Rightarrow> nat option" where
  "parse_usize s =
     (case parse_nat (case s of c # t \<Rightarrow> if c = CHR ''+'' then t else s | [] \<Rightarrow> []) of
        Some n \<Rightarrow> if n < 18446744073709551616 then Some n else None
      | None \<Rightarrow> None)"

section \<open>Digits and their values\<close>

lemma byte_digit: "d < 10 \<Longrightarrow> byte (digit d) = 48 + d"
  by (simp add: byte_def digit_def)

lemma is_digit_digit: "d < 10 \<Longrightarrow> is_digit (digit d)"
  by (simp add: is_digit_def byte_digit)

lemma byte_inject [simp]: "byte c = byte d \<longleftrightarrow> c = d"
  by (simp add: byte_def)

lemma byte_less_iff: "c < d \<longleftrightarrow> byte c < byte d"
  by (simp add: byte_def less_char_def)

lemma digits_val_Nil [simp]: "digits_val [] = 0"
  by (simp add: digits_val_def)

lemma digits_val_snoc [simp]: "digits_val (s @ [c]) = 10 * digits_val s + (byte c - 48)"
  by (simp add: digits_val_def)

lemma digits_val_append:
  "digits_val (s @ t) = digits_val s * 10 ^ length t + digits_val t"
  by (induction t rule: rev_induct)
     (simp_all flip: append_assoc add: algebra_simps)

lemma digits_val_Cons: "digits_val (c # t) = (byte c - 48) * 10 ^ length t + digits_val t"
  using digits_val_append [of "[c]" t] digits_val_snoc [of "[]" c] by simp

lemma digits_val_bound: "list_all is_digit s \<Longrightarrow> digits_val s < 10 ^ length s"
proof (induction s)
  case Nil
  then show ?case by simp
next
  case (Cons c s)
  then have "byte c - 48 \<le> 9" "digits_val s < 10 ^ length s" by (auto simp: is_digit_def)
  then have "(byte c - 48) * 10 ^ length s \<le> 9 * 10 ^ length s" by (intro mult_le_mono1)
  with \<open>digits_val s < 10 ^ length s\<close> show ?case
    unfolding digits_val_Cons length_Cons power_Suc by linarith
qed

lemma show_nat_nonempty [simp]: "show_nat n \<noteq> []"
  by (subst show_nat.simps) simp

lemma show_nat_digits: "list_all is_digit (show_nat n)"
proof (induction n rule: show_nat.induct)
  case (1 n)
  then show ?case by (subst show_nat.simps) (simp add: is_digit_digit)
qed

lemma digits_val_show_nat [simp]: "digits_val (show_nat n) = n"
proof (induction n rule: show_nat.induct)
  case (1 n)
  show ?case
  proof (cases "n < 10")
    case True
    then show ?thesis
      using digits_val_snoc [of "[]" "digit n"] by (simp add: show_nat.simps [of n] byte_digit)
  next
    case False
    with 1 show ?thesis by (simp add: show_nat.simps [of n] byte_digit)
  qed
qed

lemma parse_show_nat [simp]: "parse_nat (show_nat n) = Some n"
  by (simp add: parse_nat_def show_nat_digits)

lemma show_nat_length_le: "n < 10 ^ k \<Longrightarrow> 0 < k \<Longrightarrow> length (show_nat n) \<le> k"
proof (induction n arbitrary: k rule: show_nat.induct)
  case (1 n)
  show ?case
  proof (cases "n < 10")
    case True
    with 1 show ?thesis by (simp add: show_nat.simps [of n])
  next
    case False
    then obtain k' where k: "k = Suc k'" "0 < k'"
      using "1.prems" by (cases k; cases "k - 1") auto
    with "1.prems" have "n div 10 < 10 ^ k'" by (simp add: less_mult_imp_div_less mult.commute)
    with 1 k False show ?thesis by (simp add: show_nat.simps [of n])
  qed
qed

lemma show_nat_inject: "show_nat m = show_nat n \<longleftrightarrow> m = n"
  by (metis digits_val_show_nat)

lemma is_digit_not_sign: "is_digit c \<Longrightarrow> c \<noteq> CHR ''-'' \<and> c \<noteq> CHR ''+'' \<and> c \<noteq> CHR '':''"
  by (auto simp: is_digit_def byte_def)

lemma parse_i64_digits:
  assumes "list_all is_digit s" "s \<noteq> []"
  shows "parse_i64 s = (if int (digits_val s) \<le> i64_max then Some (int (digits_val s)) else None)"
proof -
  obtain c t where s: "s = c # t" using assms(2) by (cases s) auto
  with assms have "c \<noteq> CHR ''-''" "c \<noteq> CHR ''+''" using is_digit_not_sign by auto
  with assms s show ?thesis by (simp add: parse_i64_def parse_nat_def)
qed

lemma parse_i64_range: "parse_i64 s = Some m \<Longrightarrow> i64_min \<le> m \<and> m \<le> i64_max"
  by (auto simp: parse_i64_def i64_min_def i64_max_def split: list.splits if_splits option.splits)

lemma parse_show_int:
  assumes "i64_min \<le> m" "m \<le> i64_max"
  shows "parse_i64 (show_int m) = Some m"
proof (cases "m < 0")
  case True
  with assms show ?thesis by (simp add: show_int_def parse_i64_def)
next
  case False
  with assms show ?thesis by (simp add: show_int_def parse_i64_digits show_nat_digits)
qed

lemma zero_pad_digits: "list_all is_digit s \<Longrightarrow> list_all is_digit (zero_pad w s)"
  by (auto simp: zero_pad_def list_all_iff is_digit_def byte_def)

lemma digits_val_zero_pad [simp]: "digits_val (zero_pad w s) = digits_val s"
proof -
  have "digits_val (replicate n CHR ''0'') = 0" for n
    by (induction n) (auto simp: digits_val_Cons byte_def)
  then show ?thesis by (simp add: zero_pad_def digits_val_append)
qed

lemma length_zero_pad: "length s \<le> w \<Longrightarrow> length (zero_pad w s) = w"
  by (simp add: zero_pad_def)

text \<open>On digit strings of one length, the byte order is the order of the values.\<close>

lemma digits_order:
  assumes "length s = length t" "list_all is_digit s" "list_all is_digit t"
  shows "s < t \<longleftrightarrow> digits_val s < digits_val t"
  using assms
proof (induction s t rule: list_induct2)
  case Nil
  then show ?case by simp
next
  case (Cons c s d t)
  let ?p = "10 ^ length t :: nat"
  have len: "length s = length t" by fact
  have b: "digits_val s < ?p" "digits_val t < ?p"
    using Cons.prems digits_val_bound [of s] digits_val_bound [of t] len by auto
  have cd: "48 \<le> byte c" "48 \<le> byte d" using Cons.prems by (auto simp: is_digit_def)
  consider "c < d" | "c = d" | "d < c" by force
  then show ?case
  proof cases
    case 1
    then have "byte c - 48 + 1 \<le> byte d - 48" using cd by (simp add: byte_less_iff)
    then have "(byte c - 48 + 1) * ?p \<le> (byte d - 48) * ?p" by (intro mult_le_mono1)
    with b 1 show ?thesis by (simp add: digits_val_Cons len algebra_simps)
  next
    case 2
    with Cons show ?thesis by (simp add: digits_val_Cons)
  next
    case 3
    then have "byte d - 48 + 1 \<le> byte c - 48" using cd by (simp add: byte_less_iff)
    then have "(byte d - 48 + 1) * ?p \<le> (byte c - 48) * ?p" by (intro mult_le_mono1)
    with b have "digits_val (d # t) < digits_val (c # s)"
      by (simp add: digits_val_Cons len algebra_simps)
    with 3 show ?thesis by auto
  qed
qed

lemma parse_usize_show_nat: "n < 18446744073709551616 \<Longrightarrow> parse_usize (show_nat n) = Some n"
proof -
  assume n: "n < 18446744073709551616"
  obtain c t where s: "show_nat n = c # t" using show_nat_nonempty by (cases "show_nat n") auto
  then have "is_digit c" using show_nat_digits [of n] by simp
  then have "c \<noteq> CHR ''+''" by (simp add: is_digit_not_sign)
  with n s parse_show_nat [of n] show ?thesis by (simp add: parse_usize_def)
qed

end
