(* ===== verification/Command_Guard.thy ===== *)
theory Command_Guard
  imports Prelude
begin

text \<open>
  The command guard, \<^verbatim>\<open>src-tauri/src/mcp/guard.rs\<close> (classification half):
  the persisted configuration, the built-in rules and \<open>classify_command\<close>, which decides
  whether a command an agent wants to run needs the user's approval.  Every rule is one
  definition, in the order of the source.  The lemmas give a declarative reading of the word
  search \<open>has_command\<close> and of the flag scan of the \<^verbatim>\<open>rm\<close> rule, and characterise the decision.
\<close>

section \<open>Configuration and decision\<close>

record guard_config =
  gc_enabled :: bool
  gc_require_for_exec :: bool
  gc_custom_patterns :: "string list"
  gc_allow_patterns :: "string list"

definition default_guard_config :: guard_config where
  "default_guard_config =
     \<lparr>gc_enabled = True, gc_require_for_exec = True, gc_custom_patterns = [],
      gc_allow_patterns = []\<rparr>"

text \<open>The JSON decoder \<open>decode\<close> is serde's; an absent or undecodable setting is the default.\<close>

definition from_stored_json ::
    "(string \<Rightarrow> guard_config option) \<Rightarrow> string option \<Rightarrow> guard_config" where
  "from_stored_json decode json =
     (case Option.bind json decode of Some c \<Rightarrow> c | None \<Rightarrow> default_guard_config)"

record risk_decision =
  rd_requires_approval :: bool
  rd_reasons :: "string list"

definition safe_decision :: risk_decision where
  "safe_decision = \<lparr>rd_requires_approval = False, rd_reasons = []\<rparr>"

section \<open>Word search and the single rules\<close>

definition separators_before :: "char list" where
  "separators_before = [CHR '' '', CHR 0x09, CHR ''|'', CHR '';'', CHR ''&'', CHR ''('', CHR 0x0A, CHR 0x0D]"

definition separators_after :: "char list" where
  "separators_after = [CHR '' '', CHR 0x09, CHR ''|'', CHR '';'', CHR ''&'', CHR 0x0A, CHR 0x0D]"

definition prev_ok :: "string \<Rightarrow> nat \<Rightarrow> bool" where
  "prev_ok s start \<longleftrightarrow> start = 0 \<or> List.member separators_before (s ! (start - 1))"

definition next_ok :: "string \<Rightarrow> nat \<Rightarrow> bool" where
  "next_ok s stop \<longleftrightarrow> length s \<le> stop \<or> List.member separators_after (s ! stop)"

text \<open>
  The search loop of \<open>has_command\<close>; \<open>pos\<close> is \<^verbatim>\<open>search_from\<close>.  Every call site passes a
  nonempty literal name, which is what makes the loop advance.
\<close>

function has_command_from :: "string \<Rightarrow> string \<Rightarrow> nat \<Rightarrow> bool" where
  "has_command_from lower name pos =
     (if name = [] then False
      else case str_find name (drop pos lower) of
        None \<Rightarrow> False
      | Some rel \<Rightarrow>
          (let start = pos + rel; stop = start + length name
           in if prev_ok lower start \<and> next_ok lower stop then True
              else has_command_from lower name stop))"
  by pat_completeness auto
termination
proof (relation "measure (\<lambda>(lower, name, pos). length lower + 1 - pos)", goal_cases)
  case 1
  show ?case by simp
next
  case (2 lower name pos rel start stop)
  then have "prefix name (drop rel (drop pos lower))" "rel \<le> length (drop pos lower)"
    using str_find_Some by blast+
  with 2(1) have "rel < length (drop pos lower)"
    by (cases "rel = length (drop pos lower)") auto
  with 2 show ?case by (cases name) auto
qed

declare has_command_from.simps [simp del]

definition has_command :: "string \<Rightarrow> string \<Rightarrow> bool" where
  "has_command lower name = has_command_from lower name 0"

text \<open>One step of the flag scan of \<open>has_rm_recursive_force\<close> over the words of the command.\<close>

definition scan_rm_flag :: "bool \<times> bool \<Rightarrow> string \<Rightarrow> bool \<times> bool" where
  "scan_rm_flag rf token =
     (case rf of (recursive, force) \<Rightarrow>
       (case strip_prefix ''--'' token of
          Some flags \<Rightarrow>
            if flags = ''recursive'' then (True, force)
            else if flags = ''force'' then (recursive, True)
            else (recursive, force)
        | None \<Rightarrow>
            (case strip_prefix ''-'' token of
               Some flags \<Rightarrow>
                 (recursive \<or> CHR ''r'' \<in> set flags \<or> CHR ''R'' \<in> set flags,
                  force \<or> CHR ''f'' \<in> set flags)
             | None \<Rightarrow> (recursive, force))))"

definition has_rm_recursive_force :: "string \<Rightarrow> bool" where
  "has_rm_recursive_force lower =
     (if \<not> has_command lower ''rm'' then False
      else (case foldl scan_rm_flag (False, False) (split_whitespace lower) of
              (recursive, force) \<Rightarrow> recursive \<and> force))"

definition block_device_markers :: "string list" where
  "block_device_markers = [''/dev/sd'', ''/dev/nvme'', ''/dev/vd'', ''/dev/hd'', ''/dev/mmcblk'']"

definition writes_to_block_device :: "string \<Rightarrow> bool" where
  "writes_to_block_device lower =
     list_ex (\<lambda>marker.
        case str_find marker lower of
          Some idx \<Rightarrow>
            (let before = take idx lower
             in ends_with (trim_end before) ''>'' \<or> contains before ''of='')
        | None \<Rightarrow> False) block_device_markers"

definition is_power_state_change :: "string \<Rightarrow> bool" where
  "is_power_state_change lower =
     (has_command lower ''shutdown'' \<or> has_command lower ''reboot'' \<or> has_command lower ''halt'' \<or>
      has_command lower ''poweroff'' \<or> contains lower ''init 0'' \<or> contains lower ''init 6'')"

definition is_recursive_perm_change :: "string \<Rightarrow> bool" where
  "is_recursive_perm_change lower =
     (let recursive = contains lower ''-r'' \<or> contains lower ''--recursive''
      in if contains lower ''chmod'' \<and> recursive \<and>
            (contains lower ''777'' \<or> contains lower '' /'') then True
         else contains lower ''chown'' \<and> recursive \<and> contains lower '' /'')"

definition pipes_download_to_shell :: "string \<Rightarrow> bool" where
  "pipes_download_to_shell lower =
     (let downloads = contains lower ''curl'' \<or> contains lower ''wget'';
          piped_to_shell = contains lower ''| sh'' \<or> contains lower ''|sh'' \<or>
                           contains lower ''| bash'' \<or> contains lower ''|bash''
      in downloads \<and> piped_to_shell)"

definition overwrites_system_config :: "string \<Rightarrow> bool" where
  "overwrites_system_config lower = (contains lower ''> /etc/'' \<or> contains lower ''>/etc/'')"

definition collapse_whitespace :: "string \<Rightarrow> string" where
  "collapse_whitespace s = concat (filter (\<lambda>g. \<not> is_whitespace g) (utf8_chars s))"

definition builtin_reasons :: "string \<Rightarrow> (bool \<times> string) list" where
  "builtin_reasons lower =
     (let collapsed = collapse_whitespace lower in
      [(has_rm_recursive_force lower \<or> contains lower ''--no-preserve-root'',
        ''Recursive/forced file removal (rm -rf)''),
       (contains lower ''mkfs'', ''Filesystem creation (mkfs) destroys existing data''),
       (has_command lower ''dd'' \<and> contains lower ''of='', ''Raw disk write via dd''),
       (writes_to_block_device lower,
        ''Writes directly to a block device (/dev/sd*, /dev/nvme*, ...)''),
       (is_power_state_change lower, ''Changes system power state (shutdown/reboot/halt)''),
       (contains collapsed '':(){:|:&};:'', ''Fork bomb detected''),
       (is_recursive_perm_change lower, ''Recursive ownership/permission change on system paths''),
       (pipes_download_to_shell lower, ''Pipes a downloaded script straight into a shell''),
       (contains lower ''iptables'' \<and> (contains lower '' -f'' \<or> contains lower ''--flush''),
        ''Flushes firewall rules''),
       (contains lower ''systemctl'' \<and>
          (contains lower ''stop'' \<or> contains lower ''disable'' \<or> contains lower ''mask''),
        ''Stops, disables, or masks a system service''),
       (contains lower ''git reset --hard'' \<or> contains lower ''git clean -fd'',
        ''Destructive git operation discards changes''),
       (contains lower ''truncate -s'', ''Truncates a file''),
       (contains lower ''killall'' \<or> contains lower ''kill -9'', ''Forcefully terminates processes''),
       (overwrites_system_config lower, ''Overwrites a system configuration file under /etc'')])"

section \<open>Classification\<close>

definition pattern_matches :: "string \<Rightarrow> string \<Rightarrow> bool" where
  "pattern_matches lower_command pattern =
     (let needle = to_ascii_lowercase (trim pattern)
      in if needle = [] then False else contains lower_command needle)"

definition classify_command :: "string \<Rightarrow> guard_config \<Rightarrow> risk_decision" where
  "classify_command command cfg =
     (let trimmed = trim command in
      if trimmed = [] then safe_decision
      else
        (let lower = to_ascii_lowercase trimmed in
         if list_ex (pattern_matches lower) (gc_allow_patterns cfg) then safe_decision
         else
           (let reasons =
                  map snd (filter fst (builtin_reasons lower)) @
                  map (\<lambda>p. ''Matches custom rule: '' @ trim p)
                    (filter (pattern_matches lower) (gc_custom_patterns cfg))
            in \<lparr>rd_requires_approval = reasons \<noteq> [], rd_reasons = reasons\<rparr>)))"

text \<open>The command text that a payload executes, if it executes at all.\<close>

definition extract_executed_command :: "string \<Rightarrow> string list \<Rightarrow> bool \<Rightarrow> string option" where
  "extract_executed_command data keys append_enter =
     (let has_enter_key = list_ex (\<lambda>key. to_ascii_lowercase (trim key) = ''enter'') keys;
          data_has_newline = CHR 0x0D \<in> set data \<or> CHR 0x0A \<in> set data
      in if \<not> (append_enter \<or> has_enter_key \<or> data_has_newline) then None
         else
           (let command = trim (trim_end_matches [CHR 0x0D, CHR 0x0A] data)
            in if command = [] then None else Some command))"


section \<open>The word search, declaratively\<close>

text \<open>\<open>word_at s name i\<close>: \<open>name\<close> occurs in \<open>s\<close> at byte \<open>i\<close> as a command word.\<close>

definition word_at :: "string \<Rightarrow> string \<Rightarrow> nat \<Rightarrow> bool" where
  "word_at s name i \<longleftrightarrow>
     prefix name (drop i s) \<and> i \<le> length s \<and> prev_ok s i \<and> next_ok s (i + length name)"

definition plain_word :: "string \<Rightarrow> bool" where
  "plain_word name \<longleftrightarrow> name \<noteq> [] \<and> list_all (\<lambda>c. \<not> List.member separators_before c) name"

lemma prefix_drop_nth:
  assumes "prefix name (drop i s)" "k < length name"
  shows "i + k < length s \<and> s ! (i + k) = name ! k"
proof -
  obtain r where r: "drop i s = name @ r" using assms(1) by (auto simp: prefix_def)
  then have "length s - i = length name + length r" by (metis length_append length_drop)
  with assms(2) have lt: "i + k < length s" by simp
  have "s ! (i + k) = drop i s ! k" using lt by simp
  also have "\<dots> = name ! k" using r assms(2) by (simp add: nth_append)
  finally show ?thesis using lt by simp
qed

lemma has_command_from_sound:
  "has_command_from lower name pos \<Longrightarrow> \<exists>i\<ge>pos. word_at lower name i"
proof (induction lower name pos rule: has_command_from.induct)
  case (1 lower name pos)
  from "1.prems" obtain rel where ne: "name \<noteq> []" and rel: "str_find name (drop pos lower) = Some rel"
    by (auto simp: has_command_from.simps [of lower name pos] split: if_splits option.splits)
  then have pre: "prefix name (drop (pos + rel) lower)" "rel \<le> length lower - pos"
    using str_find_Some [OF rel] by (auto simp: add.commute)
  show ?case
  proof (cases "prev_ok lower (pos + rel) \<and> next_ok lower (pos + rel + length name)")
    case True
    have "pos + rel \<le> length lower"
      using prefix_drop_nth [OF pre(1), of 0] ne by auto
    with True pre show ?thesis by (intro exI [of _ "pos + rel"]) (simp add: word_at_def)
  next
    case False
    with "1.prems" ne rel have "has_command_from lower name (pos + rel + length name)"
      by (auto simp: has_command_from.simps [of lower name pos] Let_def split: if_splits)
    from "1.IH" [OF ne rel refl refl False this] show ?thesis by (meson add_leD1 le_add1 order_trans)
  qed
qed

lemma has_command_from_complete:
  "plain_word name \<Longrightarrow> pos \<le> i \<Longrightarrow> word_at lower name i \<Longrightarrow> has_command_from lower name pos"
proof (induction lower name pos rule: has_command_from.induct)
  case (1 lower name pos)
  have ne: "name \<noteq> []" using "1.prems"(1) by (simp add: plain_word_def)
  have occ: "prefix name (drop (i - pos) (drop pos lower))"
    using "1.prems" by (simp add: word_at_def)
  have "\<exists>rel. str_find name (drop pos lower) = Some rel"
  proof (rule ccontr)
    assume "\<nexists>rel. str_find name (drop pos lower) = Some rel"
    then have "\<not> contains (drop pos lower) name" by (simp add: str_find_None flip: not_None_eq)
    moreover have "sublist name (drop pos lower)"
      using occ by (meson prefix_imp_sublist sublist_drop sublist_order.order_trans)
    ultimately show False by (simp add: contains_iff_sublist)
  qed
  then obtain rel where rel: "str_find name (drop pos lower) = Some rel" by blast
  have le: "rel \<le> i - pos" using str_find_first [OF rel, of "i - pos"] occ by force
  show ?case
  proof (cases "prev_ok lower (pos + rel) \<and> next_ok lower (pos + rel + length name)")
    case True
    with ne rel show ?thesis by (simp add: has_command_from.simps [of lower name pos] Let_def)
  next
    case False
    have "pos + rel + length name \<le> i"
    proof (rule ccontr)
      assume "\<not> pos + rel + length name \<le> i"
      moreover have "pos + rel \<noteq> i" using False "1.prems" by (auto simp: word_at_def)
      ultimately have k: "i - 1 - (pos + rel) < length name" "0 < i" "pos + rel \<le> i - 1"
        using le "1.prems"(2) by auto
      have "prefix name (drop (pos + rel) lower)"
        using str_find_Some [OF rel] by (simp add: add.commute)
      moreover have "pos + rel + (i - 1 - (pos + rel)) = i - 1" using k(2,3) by simp
      ultimately have "lower ! (i - 1) = name ! (i - 1 - (pos + rel))"
        using prefix_drop_nth k(1) by metis
      moreover have "List.member separators_before (lower ! (i - 1))"
        using "1.prems" k(2) by (auto simp: word_at_def prev_ok_def)
      ultimately show False
        using "1.prems"(1) k(1) by (auto simp: plain_word_def list_all_length)
    qed
    from "1.IH" [OF ne rel refl refl False "1.prems"(1) this "1.prems"(3)]
    show ?thesis using ne rel by (simp add: has_command_from.simps [of lower name pos] Let_def)
  qed
qed

lemma has_command_iff:
  "plain_word name \<Longrightarrow> has_command lower name \<longleftrightarrow> (\<exists>i. word_at lower name i)"
  unfolding has_command_def
  using has_command_from_sound has_command_from_complete by blast

section \<open>The flag scan, declaratively\<close>

definition recursive_flag :: "string \<Rightarrow> bool" where
  "recursive_flag t \<longleftrightarrow>
     t = ''--recursive'' \<or>
     (\<exists>fl. t = ''-'' @ fl \<and> \<not> prefix ''--'' t \<and> (CHR ''r'' \<in> set fl \<or> CHR ''R'' \<in> set fl))"

definition force_flag :: "string \<Rightarrow> bool" where
  "force_flag t \<longleftrightarrow>
     t = ''--force'' \<or> (\<exists>fl. t = ''-'' @ fl \<and> \<not> prefix ''--'' t \<and> CHR ''f'' \<in> set fl)"

lemma scan_rm_flag_eq: "scan_rm_flag (r, f) t = (r \<or> recursive_flag t, f \<or> force_flag t)"
proof (cases "strip_prefix ''--'' t")
  case (Some fl)
  then have "t = ''--'' @ fl" by (simp add: strip_prefix_Some)
  then have "recursive_flag t \<longleftrightarrow> fl = ''recursive''" "force_flag t \<longleftrightarrow> fl = ''force''"
    by (auto simp: recursive_flag_def force_flag_def)
  with Some show ?thesis by (auto simp: scan_rm_flag_def)
next
  case None
  then show ?thesis
    by (auto simp: scan_rm_flag_def recursive_flag_def force_flag_def strip_prefix_Some
        strip_prefix_None split: option.splits)
qed

lemma foldl_scan_rm_flag:
  "foldl scan_rm_flag (r, f) ts = (r \<or> list_ex recursive_flag ts, f \<or> list_ex force_flag ts)"
  by (induction ts arbitrary: r f) (auto simp: scan_rm_flag_eq)

lemma plain_word_names:
  "plain_word ''rm''" "plain_word ''dd''" "plain_word ''shutdown''" "plain_word ''reboot''"
  "plain_word ''halt''" "plain_word ''poweroff''"
  by (simp_all add: plain_word_def separators_before_def)

lemma has_rm_recursive_force_iff:
  "has_rm_recursive_force lower \<longleftrightarrow>
     (\<exists>i. word_at lower ''rm'' i) \<and>
     list_ex recursive_flag (split_whitespace lower) \<and> list_ex force_flag (split_whitespace lower)"
  by (simp add: has_rm_recursive_force_def foldl_scan_rm_flag has_command_iff plain_word_names)

section \<open>Sequences, case and padding\<close>

lemma word_at_in_sequence:
  assumes "word_at s name i"
  shows "word_at (a @ '' '' @ s @ '' '' @ b) name (length a + 1 + i)"
proof -
  let ?t = "a @ '' '' @ s @ '' '' @ b"
  obtain r where r: "drop i s = name @ r" and i: "i \<le> length s"
    using assms by (auto simp: word_at_def prefix_def)
  have d: "drop (length a + 1 + i) ?t = drop i s @ '' '' @ b" using i by simp
  have "prefix name (drop (length a + 1 + i) ?t)" unfolding d r by simp
  moreover have "prev_ok ?t (length a + 1 + i)"
  proof (cases i)
    case 0
    then show ?thesis by (simp add: prev_ok_def nth_append separators_before_def)
  next
    case (Suc k)
    then have "?t ! (length a + 1 + i - 1) = s ! k"
      using i by (simp add: nth_append)
    with Suc assms show ?thesis by (simp add: prev_ok_def word_at_def)
  qed
  moreover have "next_ok ?t (length a + 1 + i + length name)"
  proof (cases "i + length name < length s")
    case True
    then have "?t ! (length a + 1 + i + length name) = s ! (i + length name)"
      by (simp add: nth_append)
    with True assms show ?thesis by (auto simp: next_ok_def word_at_def)
  next
    case False
    have "length s - i = length name + length r" using r by (metis length_append length_drop)
    with False i have "i + length name = length s" by simp
    then show ?thesis by (simp add: next_ok_def nth_append separators_after_def)
  qed
  ultimately show ?thesis using i by (simp add: word_at_def)
qed

lemma has_rm_in_sequence:
  assumes "has_rm_recursive_force s" "at_boundary s" "at_boundary b"
  shows "has_rm_recursive_force (a @ '' '' @ s @ '' '' @ b)"
proof -
  obtain i where i: "word_at s ''rm'' i" using assms(1) by (auto simp: has_rm_recursive_force_iff)
  have bd: "at_boundary (s @ '' '' @ b)" using assms(2) by (cases s) (auto simp: is_cont_def byte_def)
  have "list_ex recursive_flag (split_whitespace s)" "list_ex force_flag (split_whitespace s)"
    using assms(1) by (auto simp: has_rm_recursive_force_iff)
  then have "list_ex recursive_flag (split_whitespace (a @ CHR '' '' # (s @ CHR '' '' # b)))"
    "list_ex force_flag (split_whitespace (a @ CHR '' '' # (s @ CHR '' '' # b)))"
    using bd assms(3) by (simp_all add: list_ex_split_space)
  with word_at_in_sequence [OF i] show ?thesis by (auto simp: has_rm_recursive_force_iff)
qed

lemma rd_requires_approval_iff:
  "rd_requires_approval (classify_command command cfg) \<longleftrightarrow>
     trim command \<noteq> [] \<and>
     \<not> list_ex (pattern_matches (to_ascii_lowercase (trim command))) (gc_allow_patterns cfg) \<and>
     (list_ex fst (builtin_reasons (to_ascii_lowercase (trim command))) \<or>
      list_ex (pattern_matches (to_ascii_lowercase (trim command))) (gc_custom_patterns cfg))"
  by (simp add: classify_command_def Let_def safe_decision_def filter_empty_conv list_ex_iff)

lemma classify_depends_on_lower:
  assumes "to_ascii_lowercase (trim c) = to_ascii_lowercase (trim d)"
  shows "classify_command c cfg = classify_command d cfg"
proof -
  have "trim c = [] \<longleftrightarrow> trim d = []" by (metis assms to_ascii_lowercase_eq_Nil)
  with assms show ?thesis by (simp add: classify_command_def Let_def)
qed
section \<open>Properties\<close>

text \<open>Supporting result: the word search of the guard finds exactly the occurrences of a command name that
  stand between separators, whatever overlapping or partial occurrences come before them.\<close>

theorem has_command_finds_words:
  assumes "plain_word name"
  shows "has_command lower name \<longleftrightarrow>
    (\<exists>i. prefix name (drop i lower) \<and> i \<le> length lower \<and> prev_ok lower i \<and>
         next_ok lower (i + length name))"
  using has_command_iff [OF assms] by (simp add: word_at_def)

theorem has_command_finds_words_witness:
  "plain_word ''rm'' \<and> \<not> has_command ''farm; rmdir x'' ''rm'' \<and> has_command ''farm; rm -r x'' ''rm'' \<and>
   (\<exists>i. prefix ''rm'' (drop i ''farm; rm -r x'') \<and> i \<le> length ''farm; rm -r x'' \<and>
        prev_ok ''farm; rm -r x'' i \<and> next_ok ''farm; rm -r x'' (i + length ''rm''))"
proof -
  have w: "plain_word ''rm''" by (rule plain_word_names)
  have "has_command ''farm; rm -r x'' ''rm''" "\<not> has_command ''farm; rmdir x'' ''rm''"
    by code_simp+
  then show ?thesis using w has_command_finds_words [OF w, of "''farm; rm -r x''"] by blast
qed

text \<open>Supporting result: a recursive forced removal is caught anywhere in a command line: whatever text surrounds
  it, separated by blanks, the whole line needs approval unless an allow pattern is configured.\<close>

theorem rm_anywhere_needs_approval:
  assumes "has_rm_recursive_force (to_ascii_lowercase s)" "at_boundary s" "at_boundary b"
    and "trim (a @ '' '' @ s @ '' '' @ b) = a @ '' '' @ s @ '' '' @ b"
    and "gc_allow_patterns cfg = []"
  shows "rd_requires_approval (classify_command (a @ '' '' @ s @ '' '' @ b) cfg)"
proof -
  have "has_rm_recursive_force (to_ascii_lowercase (a @ '' '' @ s @ '' '' @ b))"
    using has_rm_in_sequence [OF assms(1), of "to_ascii_lowercase b" "to_ascii_lowercase a"] assms(2,3)
    by (simp add: at_boundary_lower) (simp add: to_ascii_lowercase_def ascii_lower_def byte_def)
  then show ?thesis
    using assms(4,5) by (simp add: rd_requires_approval_iff builtin_reasons_def Let_def)
qed

theorem rm_anywhere_needs_approval_witness:
  "rd_requires_approval (classify_command ''cd /srv && sudo RM -f --recursive data ; ls'' default_guard_config)"
proof -
  have "''cd /srv && sudo RM -f --recursive data ; ls'' =
      ''cd /srv && sudo'' @ '' '' @ ''RM -f --recursive data'' @ '' '' @ ''; ls''" by simp
  moreover have "has_rm_recursive_force (to_ascii_lowercase ''RM -f --recursive data'')" by code_simp
  moreover have "trim (''cd /srv && sudo'' @ '' '' @ ''RM -f --recursive data'' @ '' '' @ ''; ls'') =
      ''cd /srv && sudo'' @ '' '' @ ''RM -f --recursive data'' @ '' '' @ ''; ls''" by code_simp
  moreover have "at_boundary ''RM -f --recursive data''" "at_boundary ''; ls''" by code_simp+
  moreover have "gc_allow_patterns default_guard_config = []"
    by (simp add: default_guard_config_def)
  ultimately show ?thesis using rm_anywhere_needs_approval by metis
qed

text \<open>Supporting result: letter case and surrounding white space never change a decision: a command is classified
  as its trimmed lower-case form is, for every configuration.\<close>

theorem classify_ignores_case_and_padding:
  assumes "list_all is_whitespace (utf8_chars u)" "list_all is_whitespace (utf8_chars v)"
    and "at_boundary c" "at_boundary v" and "to_ascii_lowercase c = to_ascii_lowercase d"
  shows "classify_command (u @ c @ v) cfg = classify_command d cfg"
proof (rule classify_depends_on_lower)
  show "to_ascii_lowercase (trim (u @ c @ v)) = to_ascii_lowercase (trim d)"
    using trim_padding [OF assms(1-4)] assms(5) by (metis trim_lower)
qed

theorem classify_ignores_case_and_padding_witness:
  "classify_command (''  '' @ ''MKFS.ext4 /dev/sdb1'' @ [CHR 0x0A]) default_guard_config =
   classify_command ''mkfs.ext4 /dev/SDB1'' default_guard_config"
  by (rule classify_ignores_case_and_padding) code_simp+

text \<open>Supporting result: the decision in closed form: a command needs approval exactly when it is not blank, no
  allow pattern occurs in it, and a built-in rule or a custom pattern matches; a reason is given
  whenever approval is required, and only then.\<close>

theorem classify_decision:
  "(rd_requires_approval (classify_command command cfg) \<longleftrightarrow>
     trim command \<noteq> [] \<and>
     \<not> list_ex (pattern_matches (to_ascii_lowercase (trim command))) (gc_allow_patterns cfg) \<and>
     (list_ex fst (builtin_reasons (to_ascii_lowercase (trim command))) \<or>
      list_ex (pattern_matches (to_ascii_lowercase (trim command))) (gc_custom_patterns cfg))) \<and>
   (rd_reasons (classify_command command cfg) \<noteq> [] \<longleftrightarrow>
     rd_requires_approval (classify_command command cfg))"
  by (intro conjI rd_requires_approval_iff) (simp add: classify_command_def Let_def safe_decision_def)

text \<open>Supporting result: the block-device rule looks at the first occurrence of each device marker only, so a
  command that first reads one disk and then redirects onto another of the same family is run
  without approval, although the redirection alone is flagged.\<close>

theorem block_device_rule_first_occurrence_only:
  "\<not> rd_requires_approval (classify_command ''cat /dev/sda > /dev/sdb'' default_guard_config) \<and>
   rd_requires_approval (classify_command ''cat x > /dev/sdb'' default_guard_config)"
  by code_simp

end
