(* ===== verification/Input_Tracker.thy ===== *)
theory Input_Tracker
  imports Command_Guard
begin

text \<open>
  The agent input tracker, \<^verbatim>\<open>src-tauri/src/mcp/guard.rs\<close> (tracking half):
  \<open>AgentInputTracker\<close> reconstructs, from the bytes and named keys an agent sends to a shared
  terminal, the command lines that will be executed, across any number of calls.  The state is a
  map from session ids to the line typed so far and the set of sessions whose line is sensitive;
  \<open>observe\<close>, \<open>checkpoint\<close>, \<open>restore\<close> and \<open>checkpoint_and_observe_sensitive\<close> are its operations.
  The asynchronous lock around the tracker makes each operation one step.
\<close>

section \<open>State\<close>

definition max_tracked_command_bytes :: nat where
  "max_tracked_command_bytes = 65536"

record tracked_command =
  tc_command :: string
  tc_verifiable :: bool

record tracked_input =
  ti_buffer :: string
  ti_verifiable :: bool

definition default_input :: tracked_input where
  "default_input = \<lparr>ti_buffer = [], ti_verifiable = True\<rparr>"

record input_tracker =
  tr_buffers :: "string \<rightharpoonup> tracked_input"
  tr_sensitive :: "string set"

record input_checkpoint =
  cp_session :: string
  cp_input :: "tracked_input option"
  cp_sensitive :: bool

section \<open>Editing one line\<close>

text \<open>The loops work on the line being edited and the commands executed so far.\<close>

type_synonym line_state = "tracked_input \<times> tracked_command list"

definition reset_input :: "tracked_input \<Rightarrow> tracked_input" where
  "reset_input inp = \<lparr>ti_buffer = [], ti_verifiable = True\<rparr>"

definition unobservable_text :: string where
  "unobservable_text = ''Interactive shell command (final text is not observable)''"

definition finish_command :: "line_state \<Rightarrow> line_state" where
  "finish_command st =
     (case st of (inp, executed) \<Rightarrow>
       (let command = trim (ti_buffer inp);
            executed' =
              (if command \<noteq> [] \<or> \<not> ti_verifiable inp
               then executed @
                 [\<lparr>tc_command = (if command = [] then unobservable_text else command),
                   tc_verifiable = ti_verifiable inp\<rparr>]
               else executed)
        in (reset_input inp, executed')))"

definition pop_char :: "string \<Rightarrow> string" where
  "pop_char s = concat (butlast (utf8_chars s))"

definition trim_tracked_buffer :: "string \<Rightarrow> string" where
  "trim_tracked_buffer buf =
     (if length buf \<le> max_tracked_command_bytes then buf
      else dropWhile is_cont (drop (length buf - max_tracked_command_bytes) buf))"

text \<open>The two statements at the end of both loop bodies.\<close>

definition bound_line :: "line_state \<Rightarrow> line_state" where
  "bound_line st =
     (case st of (inp, executed) \<Rightarrow>
       (\<lparr>ti_buffer = trim_tracked_buffer (ti_buffer inp),
         ti_verifiable =
           (ti_verifiable inp \<and> length (ti_buffer inp) \<le> max_tracked_command_bytes)\<rparr>,
        executed))"

definition taint :: "line_state \<Rightarrow> line_state" where
  "taint st = (case st of (inp, executed) \<Rightarrow> (inp\<lparr>ti_verifiable := False\<rparr>, executed))"

definition observe_char :: "line_state \<Rightarrow> string \<Rightarrow> line_state" where
  "observe_char st ch = bound_line
     (case st of (inp, executed) \<Rightarrow>
       (if ch = [CHR 0x0D] \<or> ch = [CHR 0x0A] then finish_command st
        else if ch = [CHR 0x7F] \<or> ch = [CHR 0x08] then
          (inp\<lparr>ti_buffer := pop_char (ti_buffer inp)\<rparr>, executed)
        else if ch = [CHR 0x03] then (reset_input inp, executed)
        else if ch = [CHR 0x09] then taint st
        else if \<not> is_control ch then (inp\<lparr>ti_buffer := ti_buffer inp @ ch\<rparr>, executed)
        else taint st))"

definition observe_key :: "line_state \<Rightarrow> string \<Rightarrow> line_state" where
  "observe_key st raw_key = bound_line
     (case st of (inp, executed) \<Rightarrow>
       (let key = to_ascii_lowercase (trim raw_key) in
        if key = ''enter'' then finish_command st
        else if key = ''backspace'' then
          (inp\<lparr>ti_buffer := pop_char (ti_buffer inp)\<rparr>, executed)
        else if key = ''ctrl-c'' then (reset_input inp, executed)
        else if List.member [''tab'', ''escape'', ''esc'', ''up'', ''down'', ''right'', ''left''] key
          then taint st
        else if key = ''ctrl-d'' \<or> key = ''ctrl-z'' then st
        else taint st))"

section \<open>The operations of the tracker\<close>

definition observe_line :: "line_state \<Rightarrow> string \<Rightarrow> string list \<Rightarrow> bool \<Rightarrow> line_state" where
  "observe_line st data keys append_enter =
     (let st1 = foldl observe_char st (utf8_chars data);
          st2 = foldl observe_key st1 keys
      in if append_enter then finish_command st2 else st2)"

definition observe ::
    "input_tracker \<Rightarrow> string \<Rightarrow> string \<Rightarrow> string list \<Rightarrow> bool \<Rightarrow> input_tracker \<times> tracked_command list" where
  "observe t session_id data keys append_enter =
     (let inp = (case tr_buffers t session_id of Some i \<Rightarrow> i | None \<Rightarrow> default_input)
      in case observe_line (inp, []) data keys append_enter of
           (inp', executed) \<Rightarrow>
             (if ti_buffer inp' = [] \<and> ti_verifiable inp'
              then (t\<lparr>tr_buffers := (tr_buffers t)(session_id := None)\<rparr>, executed)
              else (t\<lparr>tr_buffers := (tr_buffers t)(session_id := Some inp')\<rparr>, executed)))"

definition checkpoint :: "input_tracker \<Rightarrow> string \<Rightarrow> input_checkpoint" where
  "checkpoint t session_id =
     \<lparr>cp_session = session_id, cp_input = tr_buffers t session_id,
      cp_sensitive = session_id \<in> tr_sensitive t\<rparr>"

definition restore :: "input_tracker \<Rightarrow> input_checkpoint \<Rightarrow> input_tracker" where
  "restore t cp =
     \<lparr>tr_buffers = (tr_buffers t)(cp_session cp := cp_input cp),
      tr_sensitive =
        (if cp_sensitive cp then insert (cp_session cp) (tr_sensitive t)
         else tr_sensitive t - {cp_session cp})\<rparr>"

definition checkpoint_and_observe_sensitive ::
    "input_tracker \<Rightarrow> string \<Rightarrow> string \<Rightarrow> string list \<Rightarrow> bool \<Rightarrow> bool \<Rightarrow>
     input_tracker \<times> input_checkpoint \<times> tracked_command list \<times> bool" where
  "checkpoint_and_observe_sensitive t session_id data keys append_enter sensitive =
     (let cp = checkpoint t session_id;
          t1 = (if sensitive then t\<lparr>tr_sensitive := insert session_id (tr_sensitive t)\<rparr> else t);
          redact = (session_id \<in> tr_sensitive t1)
      in case observe t1 session_id data keys append_enter of
           (t2, commands) \<Rightarrow>
             (let t3 = (if tr_buffers t2 session_id = None
                        then t2\<lparr>tr_sensitive := tr_sensitive t2 - {session_id}\<rparr> else t2)
              in (t3, cp, commands, redact)))"

definition checkpoint_and_observe ::
    "input_tracker \<Rightarrow> string \<Rightarrow> string \<Rightarrow> string list \<Rightarrow> bool \<Rightarrow>
     input_tracker \<times> input_checkpoint \<times> tracked_command list" where
  "checkpoint_and_observe t session_id data keys append_enter =
     (case checkpoint_and_observe_sensitive t session_id data keys append_enter False of
        (t', cp, commands, _) \<Rightarrow> (t', cp, commands))"

definition empty_tracker :: input_tracker where
  "empty_tracker = \<lparr>tr_buffers = Map.empty, tr_sensitive = {}\<rparr>"

section \<open>Evaluation\<close>

text \<open>Code equations that compare byte counts as integers.\<close>

lemma trim_tracked_buffer_code [code]:
  "trim_tracked_buffer buf =
     (if int (length buf) \<le> 65536 then buf
      else dropWhile is_cont (drop (length buf - max_tracked_command_bytes) buf))"
  by (simp add: trim_tracked_buffer_def max_tracked_command_bytes_def)

lemma bound_line_code [code]:
  "bound_line (inp, executed) =
     (\<lparr>ti_buffer = trim_tracked_buffer (ti_buffer inp),
       ti_verifiable = (ti_verifiable inp \<and> int (length (ti_buffer inp)) \<le> 65536)\<rparr>, executed)"
  by (simp add: bound_line_def max_tracked_command_bytes_def)

section \<open>The commands found so far are only appended to\<close>

lemmas line_step_defs = observe_char_def observe_key_def bound_line_def finish_command_def taint_def

lemma finish_command_acc: "finish_command (inp, ex) = apsnd ((@) ex) (finish_command (inp, []))"
  by (simp add: finish_command_def Let_def)

lemma observe_char_acc: "observe_char (inp, ex) ch = apsnd ((@) ex) (observe_char (inp, []) ch)"
  by (simp add: line_step_defs Let_def)

lemma observe_key_acc: "observe_key (inp, ex) k = apsnd ((@) ex) (observe_key (inp, []) k)"
  by (simp add: line_step_defs Let_def)

lemma foldl_acc:
  assumes "\<And>i ex x. f (i, ex) x = apsnd ((@) ex) (f (i, []) x)"
  shows "foldl f (i, ex) xs = apsnd ((@) ex) (foldl f (i, []) xs)"
proof (induction xs arbitrary: i ex)
  case Nil
  then show ?case by simp
next
  case (Cons x xs)
  obtain j e where "f (i, []) x = (j, e)" by fastforce
  then show ?case
    using assms [of i ex x] Cons.IH [of j "ex @ e"] Cons.IH [of j e] by (simp add: apsnd_def map_prod_def split: prod.splits)
qed

lemma observe_line_acc:
  "observe_line (i, ex) data keys ae = apsnd ((@) ex) (observe_line (i, []) data keys ae)"
proof -
  obtain j e where 1: "foldl observe_char (i, []) (utf8_chars data) = (j, e)" by fastforce
  obtain k e' where 2: "foldl observe_key (j, []) keys = (k, e')" by fastforce
  obtain l e'' where 3: "finish_command (k, []) = (l, e'')" by fastforce
  note acc = foldl_acc [of observe_char, OF observe_char_acc] foldl_acc [of observe_key, OF observe_key_acc]
  show ?thesis
    using acc(1) [of i ex "utf8_chars data"] acc(2) [of j "ex @ e" keys] acc(2) [of j e keys]
      finish_command_acc [of k "ex @ e @ e'"] finish_command_acc [of k "e @ e'"] 1 2 3
    by (simp add: observe_line_def Let_def)
qed

lemma observe_line_split:
  assumes "at_boundary d2"
  shows "observe_line (i, []) (d1 @ d2) (k1 @ k2) ae =
    (case observe_line (i, []) d1 [] False of (i1, e1) \<Rightarrow>
     case observe_line (i1, []) d2 k1 False of (i2, e2) \<Rightarrow>
     case observe_line (i2, []) [] k2 ae of (i3, e3) \<Rightarrow> (i3, e1 @ e2 @ e3))"
proof -
  let ?c1 = "utf8_chars d1" let ?c2 = "utf8_chars d2"
  obtain i1 e1 where 1: "foldl observe_char (i, []) ?c1 = (i1, e1)" by fastforce
  obtain j2 f2 where 2: "foldl observe_char (i1, []) ?c2 = (j2, f2)" by fastforce
  obtain i2 g2 where 3: "foldl observe_key (j2, []) k1 = (i2, g2)" by fastforce
  obtain j3 g3 where 4: "foldl observe_key (i2, []) k2 = (j3, g3)" by fastforce
  obtain i3 h3 where 5: "finish_command (j3, []) = (i3, h3)" by fastforce
  note acc = foldl_acc [of observe_char, OF observe_char_acc] foldl_acc [of observe_key, OF observe_key_acc]
  have "foldl observe_char (i, []) (?c1 @ ?c2) = (j2, e1 @ f2)"
    using acc(1) [of i1 e1 ?c2] 1 2 by simp
  moreover have "foldl observe_key (j2, e1 @ f2) (k1 @ k2) = (j3, e1 @ f2 @ g2 @ g3)"
    using acc(2) [of j2 "e1 @ f2" k1] acc(2) [of i2 "e1 @ f2 @ g2" k2] 3 4 by simp
  moreover have "foldl observe_key (j2, f2) k1 = (i2, f2 @ g2)"
    using acc(2) [of j2 f2 k1] 3 by simp
  moreover have "finish_command (j3, e1 @ f2 @ g2 @ g3) = (i3, e1 @ f2 @ g2 @ g3 @ h3)"
    "finish_command (j3, g3) = (i3, g3 @ h3)"
    using finish_command_acc [of j3 "e1 @ f2 @ g2 @ g3"] finish_command_acc [of j3 g3] 5 by simp_all
  ultimately show ?thesis
    using assms 1 2 4 by (simp add: observe_line_def utf8_chars_append Let_def)
qed

lemma observe_eq:
  "observe t s data keys ae =
     (case observe_line (case tr_buffers t s of Some i \<Rightarrow> i | None \<Rightarrow> default_input, []) data keys ae of
        (i, e) \<Rightarrow> (t\<lparr>tr_buffers := (tr_buffers t)(s := if i = default_input then None else Some i)\<rparr>, e))"
proof -
  have "ti_buffer i = [] \<and> ti_verifiable i \<longleftrightarrow> i = default_input" for i
    by (cases i) (auto simp: default_input_def)
  then show ?thesis by (auto simp: observe_def Let_def split: prod.splits option.splits)
qed

lemma observe_split:
  assumes "at_boundary d2"
  shows "observe t s (d1 @ d2) (k1 @ k2) ae =
    (case observe t s d1 [] False of (t1, e1) \<Rightarrow>
     case observe t1 s d2 k1 False of (t2, e2) \<Rightarrow>
     case observe t2 s [] k2 ae of (t3, e3) \<Rightarrow> (t3, e1 @ e2 @ e3))"
proof -
  have get: "(case (m(s := if i = default_input then None else Some i)) s of
      Some i \<Rightarrow> i | None \<Rightarrow> default_input) = i" for m :: "string \<rightharpoonup> tracked_input" and i
    by simp
  show ?thesis
    by (simp add: observe_eq observe_line_split [OF assms] get split: prod.splits)
qed

section \<open>Bounds and taint\<close>

definition line_ok :: "tracked_input \<Rightarrow> bool" where
  "line_ok i \<longleftrightarrow> length (ti_buffer i) \<le> max_tracked_command_bytes"

lemma length_trim_tracked_buffer [simp]:
  "length (trim_tracked_buffer b) \<le> max_tracked_command_bytes"
  by (auto simp: trim_tracked_buffer_def intro: order_trans [OF length_dropWhile_le])

lemma trim_tracked_buffer_short:
  "length b \<le> max_tracked_command_bytes \<Longrightarrow> trim_tracked_buffer b = b"
  by (simp add: trim_tracked_buffer_def)

lemma line_ok_bound_line [simp]: "line_ok (fst (bound_line st))"
  by (cases st) (simp add: bound_line_def line_ok_def)

lemma line_ok_observe_char [simp]: "line_ok (fst (observe_char st c))"
  unfolding observe_char_def by (rule line_ok_bound_line)

lemma line_ok_observe_key [simp]: "line_ok (fst (observe_key st k))"
  unfolding observe_key_def by (rule line_ok_bound_line)

lemma line_ok_foldl:
  assumes "\<And>st x. line_ok (fst (f st x))"
  shows "line_ok (fst st) \<Longrightarrow> line_ok (fst (foldl f st xs))"
  by (induction xs arbitrary: st) (auto simp: assms)

lemma line_ok_observe_line:
  "line_ok (fst st) \<Longrightarrow> line_ok (fst (observe_line st data keys ae))"
proof -
  assume "line_ok (fst st)"
  then have "line_ok (fst (foldl observe_key (foldl observe_char st (utf8_chars data)) keys))"
    by (intro line_ok_foldl) simp_all
  moreover have "line_ok (fst (finish_command st'))" for st'
    by (cases st') (simp add: finish_command_def Let_def reset_input_def line_ok_def)
  ultimately show ?thesis by (simp add: observe_line_def Let_def)
qed

section \<open>The tracker invariant, roll back\<close>

text \<open>Every stored line is bounded and different from the blank line a missing entry stands for;
  a session is sensitive only while such a line is pending.\<close>

definition tracker_ok :: "input_tracker \<Rightarrow> bool" where
  "tracker_ok t \<longleftrightarrow>
     (\<forall>s i. tr_buffers t s = Some i \<longrightarrow> line_ok i \<and> i \<noteq> default_input) \<and>
     tr_sensitive t \<subseteq> dom (tr_buffers t)"

lemma line_ok_default [simp]: "line_ok default_input"
  by (simp add: line_ok_def default_input_def)

lemma observe_tracker:
  assumes "observe t s data keys ae = (t', e)"
    and "\<forall>s i. tr_buffers t s = Some i \<longrightarrow> line_ok i \<and> i \<noteq> default_input"
  shows "\<forall>s i. tr_buffers t' s = Some i \<longrightarrow> line_ok i \<and> i \<noteq> default_input"
    and "tr_sensitive t' = tr_sensitive t" and "r \<noteq> s \<Longrightarrow> tr_buffers t' r = tr_buffers t r"
proof -
  let ?i = "case tr_buffers t s of Some i \<Rightarrow> i | None \<Rightarrow> default_input"
  obtain j where j: "observe_line (?i, []) data keys ae = (j, e)"
    and t': "t' = t\<lparr>tr_buffers := (tr_buffers t)(s := if j = default_input then None else Some j)\<rparr>"
    using assms(1) by (auto simp: observe_eq split: prod.splits)
  have "line_ok ?i" using assms(2) by (auto split: option.splits)
  then have "line_ok j" using line_ok_observe_line [of "(?i, [])" data keys ae] j by simp
  then show "\<forall>s i. tr_buffers t' s = Some i \<longrightarrow> line_ok i \<and> i \<noteq> default_input"
    using assms(2) t' by auto
  show "tr_sensitive t' = tr_sensitive t" "r \<noteq> s \<Longrightarrow> tr_buffers t' r = tr_buffers t r"
    using t' by auto
qed

lemma checkpoint_and_observe_sensitive_ok:
  assumes "checkpoint_and_observe_sensitive t s data keys ae sens = (t', cp, e, redact)"
    and "tracker_ok t"
  shows "tracker_ok t'"
proof -
  let ?t1 = "if sens then t\<lparr>tr_sensitive := insert s (tr_sensitive t)\<rparr> else t"
  obtain t2 where t2: "observe ?t1 s data keys ae = (t2, e)"
    and t': "t' = (if tr_buffers t2 s = None then t2\<lparr>tr_sensitive := tr_sensitive t2 - {s}\<rparr> else t2)"
    using assms(1)
    by (cases "observe ?t1 s data keys ae") (auto simp: checkpoint_and_observe_sensitive_def Let_def)
  have ok1: "\<forall>s i. tr_buffers ?t1 s = Some i \<longrightarrow> line_ok i \<and> i \<noteq> default_input"
    using assms(2) by (auto simp: tracker_ok_def)
  note o = observe_tracker [OF t2 ok1]
  have sub: "tr_sensitive t2 \<subseteq> insert s (dom (tr_buffers t))"
    using o(2) assms(2) by (auto simp: tracker_ok_def split: if_splits)
  have "dom (tr_buffers t) - {s} \<subseteq> dom (tr_buffers t2)"
    using o(3) by (auto simp: dom_def split: if_splits)
  with sub have rest: "tr_sensitive t2 - {s} \<subseteq> dom (tr_buffers t2)" by blast
  show ?thesis
  proof (cases "tr_buffers t2 s")
    case None
    with o(1) rest show ?thesis by (simp add: t' tracker_ok_def)
  next
    case (Some y)
    then have "s \<in> dom (tr_buffers t2)" by auto
    with rest have "tr_sensitive t2 \<subseteq> dom (tr_buffers t2)" by blast
    with Some o(1) show ?thesis by (simp add: t' tracker_ok_def)
  qed
qed

lemma restore_checkpoint:
  "restore t' (checkpoint t s) =
     t'\<lparr>tr_buffers := (tr_buffers t')(s := tr_buffers t s),
        tr_sensitive := (if s \<in> tr_sensitive t then insert s (tr_sensitive t')
                         else tr_sensitive t' - {s})\<rparr>"
  by (simp add: restore_def checkpoint_def)

lemma restore_after_observe:
  assumes "checkpoint_and_observe_sensitive t s data keys ae sens = (t', cp, e, redact)"
  shows "restore t' cp = t"
proof -
  let ?t1 = "if sens then t\<lparr>tr_sensitive := insert s (tr_sensitive t)\<rparr> else t"
  obtain t2 where t2: "observe ?t1 s data keys ae = (t2, e)"
    and t': "t' = (if tr_buffers t2 s = None then t2\<lparr>tr_sensitive := tr_sensitive t2 - {s}\<rparr> else t2)"
    and cp: "cp = checkpoint t s"
    using assms
    by (cases "observe ?t1 s data keys ae") (auto simp: checkpoint_and_observe_sensitive_def Let_def)
  obtain v where "t2 = ?t1\<lparr>tr_buffers := (tr_buffers ?t1)(s := v)\<rparr>"
    using t2 by (auto simp: observe_eq split: prod.splits)
  then show ?thesis unfolding t' cp restore_checkpoint
    by (cases t) (auto simp: fun_eq_iff split: if_splits)
qed

section \<open>A tainted line stays tainted\<close>

definition submits_char :: "string \<Rightarrow> bool" where
  "submits_char g \<longleftrightarrow> g = [CHR 0x0D] \<or> g = [CHR 0x0A] \<or> g = [CHR 0x03]"

definition submits_key :: "string \<Rightarrow> bool" where
  "submits_key k \<longleftrightarrow> to_ascii_lowercase (trim k) = ''enter'' \<or> to_ascii_lowercase (trim k) = ''ctrl-c''"

lemma observe_char_tainted:
  "\<not> ti_verifiable i \<Longrightarrow> \<not> submits_char g \<Longrightarrow>
   \<exists>j. observe_char (i, ex) g = (j, ex) \<and> \<not> ti_verifiable j"
  by (auto simp: observe_char_def bound_line_def taint_def submits_char_def)

lemma observe_key_tainted:
  "\<not> ti_verifiable i \<Longrightarrow> \<not> submits_key k \<Longrightarrow>
   \<exists>j. observe_key (i, ex) k = (j, ex) \<and> \<not> ti_verifiable j"
  by (auto simp: observe_key_def bound_line_def taint_def submits_key_def Let_def)

lemma foldl_tainted:
  assumes "\<And>i ex x. \<not> ti_verifiable i \<Longrightarrow> \<not> p x \<Longrightarrow> \<exists>j. f (i, ex) x = (j, ex) \<and> \<not> ti_verifiable j"
  shows "\<not> ti_verifiable i \<Longrightarrow> list_all (\<lambda>x. \<not> p x) xs \<Longrightarrow>
    \<exists>j. foldl f (i, ex) xs = (j, ex) \<and> \<not> ti_verifiable j"
proof (induction xs arbitrary: i)
  case Nil
  then show ?case by simp
next
  case (Cons x xs)
  obtain j where "f (i, ex) x = (j, ex)" "\<not> ti_verifiable j"
    using assms [of i x ex] Cons.prems by auto
  with Cons show ?case by simp
qed

lemma observe_line_tainted:
  assumes "\<not> ti_verifiable i" "list_all (\<lambda>g. \<not> submits_char g) (utf8_chars data)"
    "list_all (\<lambda>k. \<not> submits_key k) keys"
  obtains j where "observe_line (i, ex) data keys False = (j, ex)" "\<not> ti_verifiable j"
    "\<exists>c. observe_line (i, ex) data keys True = (default_input, ex @ [c]) \<and> \<not> tc_verifiable c"
proof -
  obtain i1 where 1: "foldl observe_char (i, ex) (utf8_chars data) = (i1, ex)" "\<not> ti_verifiable i1"
    using foldl_tainted [of submits_char observe_char, OF observe_char_tainted assms(1,2)] by blast
  obtain i2 where 2: "foldl observe_key (i1, ex) keys = (i2, ex)" "\<not> ti_verifiable i2"
    using foldl_tainted [of submits_key observe_key, OF observe_key_tainted 1(2) assms(3)] by blast
  show ?thesis
    by (rule that [of i2])
       (use 1 2 in \<open>auto simp: observe_line_def Let_def finish_command_def reset_input_def default_input_def\<close>)
qed

section \<open>The reference line editor\<close>

text \<open>What a terminal user means by a chunk of plain input: the lines between line ends, each with
  its back spaces carried out.\<close>

definition newline_char :: "string \<Rightarrow> bool" where
  "newline_char g \<longleftrightarrow> g = [CHR 0x0D] \<or> g = [CHR 0x0A]"

definition backspace_char :: "string \<Rightarrow> bool" where
  "backspace_char g \<longleftrightarrow> g = [CHR 0x7F] \<or> g = [CHR 0x08]"

definition plain_char :: "string \<Rightarrow> bool" where
  "plain_char g \<longleftrightarrow> newline_char g \<or> backspace_char g \<or> \<not> is_control g"

definition edit_step :: "string list \<Rightarrow> string \<Rightarrow> string list" where
  "edit_step line g = (if backspace_char g then butlast line else line @ [g])"

definition edited_line :: "string list \<Rightarrow> string" where
  "edited_line gs = trim (concat (foldl edit_step [] gs))"

definition entered_lines :: "string \<Rightarrow> string list" where
  "entered_lines data =
     filter (\<lambda>l. l \<noteq> []) (map edited_line (split_on newline_char (utf8_chars data)))"

definition verified :: "string \<Rightarrow> tracked_command" where
  "verified l = \<lparr>tc_command = l, tc_verifiable = True\<rparr>"

definition typed :: "string list \<Rightarrow> tracked_input" where
  "typed line = \<lparr>ti_buffer = concat line, ti_verifiable = True\<rparr>"

lemma finish_typed:
  "finish_command (typed line, ex) =
     (typed [], ex @ map verified (filter (\<lambda>l. l \<noteq> []) [trim (concat line)]))"
  by (simp add: finish_command_def typed_def verified_def reset_input_def Let_def)

lemma bound_typed:
  "length (concat line) \<le> max_tracked_command_bytes \<Longrightarrow> bound_line (typed line, ex) = (typed line, ex)"
  by (simp add: bound_line_def typed_def trim_tracked_buffer_short)

lemma butlast_sublist_length: "length (concat (butlast line)) \<le> length (concat line)"
  by (induction line) auto

lemma pop_typed: "list_all wf_char line \<Longrightarrow> pop_char (concat line) = concat (butlast line)"
  by (simp add: pop_char_def utf8_chars_concat)

lemma plain_char_cases:
  assumes "plain_char g"
  obtains "newline_char g"
  | "backspace_char g" "\<not> newline_char g"
  | "\<not> newline_char g" "\<not> backspace_char g" "\<not> is_control g" "g \<noteq> [CHR 0x03]" "g \<noteq> [CHR 0x09]"
proof -
  have "is_control [CHR 0x03]" "is_control [CHR 0x09]" by (simp_all add: is_control_def byte_def)
  then show ?thesis using assms that by (auto simp: plain_char_def)
qed

lemma observe_char_typed:
  assumes "list_all wf_char line" "plain_char g"
    and "length (concat line) + length g \<le> max_tracked_command_bytes"
  shows "observe_char (typed line, ex) g =
    (if newline_char g then finish_command (typed line, ex) else (typed (edit_step line g), ex))"
  using assms(2)
proof (cases rule: plain_char_cases)
  case 1
  then show ?thesis
    using bound_typed [of "[]"] by (auto simp: observe_char_def newline_char_def finish_typed)
next
  case 2
  have "(typed line)\<lparr>ti_buffer := concat (butlast line)\<rparr> = typed (butlast line)" by (simp add: typed_def)
  moreover have "length (concat (butlast line)) \<le> max_tracked_command_bytes"
    using butlast_sublist_length [of line] assms(3) by linarith
  ultimately show ?thesis
    using 2 bound_typed [of "butlast line"] pop_typed [OF assms(1)]
    by (auto simp: observe_char_def newline_char_def backspace_char_def edit_step_def) (auto simp: typed_def)
next
  case 3
  have "(typed line)\<lparr>ti_buffer := concat line @ g\<rparr> = typed (line @ [g])" by (simp add: typed_def)
  with 3 assms(3) bound_typed [of "line @ [g]"] show ?thesis
    by (auto simp: observe_char_def newline_char_def backspace_char_def edit_step_def) (auto simp: typed_def)
qed

lemma foldl_observe_typed:
  assumes "list_all wf_char line" "list_all wf_char gs" "list_all plain_char gs"
    and "length (concat line) + length (concat gs) \<le> max_tracked_command_bytes"
  shows "finish_command (foldl observe_char (typed line, ex) gs) =
    (typed [], ex @ map verified (filter (\<lambda>l. l \<noteq> [])
       (case split_on newline_char gs of [] \<Rightarrow> [] | w # ws \<Rightarrow>
          trim (concat (foldl edit_step line w)) # map edited_line ws)))"
  using assms
proof (induction gs arbitrary: line ex)
  case Nil
  then show ?case by (simp add: finish_typed)
next
  case (Cons g gs)
  obtain w ws where w: "split_on newline_char gs = w # ws" by (cases "split_on newline_char gs") auto
  have step: "observe_char (typed line, ex) g =
    (if newline_char g then finish_command (typed line, ex) else (typed (edit_step line g), ex))"
    using Cons.prems by (intro observe_char_typed) auto
  show ?case
  proof (cases "newline_char g")
    case True
    with step Cons.prems Cons.IH [of "[]"] w show ?thesis
      by (simp add: finish_typed edited_line_def)
  next
    case False
    have "list_all wf_char (edit_step line g)"
      using Cons.prems by (auto simp: edit_step_def list_all_iff dest: in_set_butlastD)
    moreover have "length (concat (edit_step line g)) \<le> length (concat line) + length g"
      using butlast_sublist_length [of line] by (auto simp: edit_step_def)
    ultimately show ?thesis
      using False step Cons.prems Cons.IH [of "edit_step line g"] w by simp
  qed
qed

lemma observe_plain_lines:
  assumes "tr_buffers t s = None" "at_boundary data" "list_all plain_char (utf8_chars data)"
    and "length data \<le> max_tracked_command_bytes"
  shows "observe t s data [] True = (t, map verified (entered_lines data))"
proof -
  obtain w ws where w: "split_on newline_char (utf8_chars data) = w # ws"
    by (cases "split_on newline_char (utf8_chars data)") auto
  have d: "default_input = typed []" by (simp add: default_input_def typed_def)
  have "finish_command (foldl observe_char (typed [], []) (utf8_chars data)) =
      (typed [], map verified (entered_lines data))"
    using foldl_observe_typed [of "[]" "utf8_chars data" "[]"] assms wf_utf8_chars w
    by (simp add: entered_lines_def edited_line_def)
  then have "observe_line (default_input, []) data [] True = (default_input, map verified (entered_lines data))"
    by (simp add: observe_line_def d)
  moreover have "(tr_buffers t)(s := None) = tr_buffers t" using assms(1) by auto
  ultimately show ?thesis by (simp add: observe_eq assms(1))
qed

section \<open>Properties\<close>

text \<open>C34: an agent cannot hide a command by cutting its input into several calls: observing a
  payload in one call finds the same commands, and leaves the same tracker, as observing its text
  in two calls, its keys in two and the final Enter last.\<close>

theorem observe_is_independent_of_chunking:
  assumes "at_boundary d2"
  shows "observe t s (d1 @ d2) (k1 @ k2) ae =
    (case observe t s d1 [] False of (t1, e1) \<Rightarrow>
     case observe t1 s d2 k1 False of (t2, e2) \<Rightarrow>
     case observe t2 s [] k2 ae of (t3, e3) \<Rightarrow> (t3, e1 @ e2 @ e3))"
  by (rule observe_split [OF assms])

theorem observe_is_independent_of_chunking_witness:
  "at_boundary '' -rf /tmp/x'' \<and>
   observe empty_tracker ''s1'' (''rm'' @ '' -rf /tmp/x'') ([] @ [''Enter'']) False =
    (case observe empty_tracker ''s1'' ''rm'' [] False of (t1, e1) \<Rightarrow>
     case observe t1 ''s1'' '' -rf /tmp/x'' [] False of (t2, e2) \<Rightarrow>
     case observe t2 ''s1'' [] [''Enter''] False of (t3, e3) \<Rightarrow> (t3, e1 @ e2 @ e3)) \<and>
   snd (observe empty_tracker ''s1'' ''rm -rf /tmp/x'' [''Enter''] False) =
     [\<lparr>tc_command = ''rm -rf /tmp/x'', tc_verifiable = True\<rparr>]"
proof -
  have b: "at_boundary '' -rf /tmp/x''" by code_simp
  have "snd (observe empty_tracker ''s1'' ''rm -rf /tmp/x'' [''Enter''] False) =
     [\<lparr>tc_command = ''rm -rf /tmp/x'', tc_verifiable = True\<rparr>]" by code_simp
  then show ?thesis using b observe_is_independent_of_chunking [OF b] by blast
qed

text \<open>C38: on plain input (printable characters, back spaces and line ends, within the size bound)
  the tracker agrees with the reference line editor: the commands it reports are the nonblank
  lines the user entered, with the back spaces carried out, all marked verifiable.\<close>

theorem observe_refines_line_editor:
  assumes "tr_buffers t s = None" "at_boundary data" "list_all plain_char (utf8_chars data)"
    and "length data \<le> max_tracked_command_bytes"
  shows "observe t s data [] True =
    (t, map (\<lambda>l. \<lparr>tc_command = l, tc_verifiable = True\<rparr>) (entered_lines data))"
  using observe_plain_lines [OF assms] by (simp add: verified_def cong: map_cong)

theorem observe_refines_line_editor_witness:
  "observe empty_tracker ''s1'' (''echp'' @ [CHR 0x7F] @ ''o one'' @ [CHR 0x0A] @ '' whoami'') [] True =
   (empty_tracker, [\<lparr>tc_command = ''echo one'', tc_verifiable = True\<rparr>,
                    \<lparr>tc_command = ''whoami'', tc_verifiable = True\<rparr>])"
proof -
  let ?d = "''echp'' @ [CHR 0x7F] @ ''o one'' @ [CHR 0x0A] @ '' whoami''"
  have "tr_buffers empty_tracker ''s1'' = None" by (simp add: empty_tracker_def)
  moreover have "at_boundary ?d" "list_all plain_char (utf8_chars ?d)" by code_simp+
  moreover have "length ?d \<le> max_tracked_command_bytes" by (simp add: max_tracked_command_bytes_def)
  ultimately have "observe empty_tracker ''s1'' ?d [] True =
      (empty_tracker, map (\<lambda>l. \<lparr>tc_command = l, tc_verifiable = True\<rparr>) (entered_lines ?d))"
    by (rule observe_refines_line_editor)
  moreover have "entered_lines ?d = [''echo one'', ''whoami'']" by code_simp
  ultimately show ?thesis by simp
qed

text \<open>Supporting result: once history, completion, cursor keys or an escape sequence have touched a line, the line
  stays unverifiable until it is submitted or interrupted, whatever else is typed, and submitting
  it reports exactly one command, marked unverifiable, so that approval is forced.\<close>

theorem tainted_line_is_reported_unverifiable:
  assumes "tr_buffers t s = Some i" "\<not> ti_verifiable i"
    and "list_all (\<lambda>g. \<not> submits_char g) (utf8_chars data)" "list_all (\<lambda>k. \<not> submits_key k) keys"
  shows "\<exists>c. snd (observe t s data keys True) = [c] \<and> \<not> tc_verifiable c \<and>
    snd (observe t s data keys False) = [] \<and>
    (\<exists>j. tr_buffers (fst (observe t s data keys False)) s = Some j \<and> \<not> ti_verifiable j)"
proof -
  obtain j c where
    "observe_line (i, []) data keys False = (j, [])" "\<not> ti_verifiable j"
    "observe_line (i, []) data keys True = (default_input, [] @ [c])" "\<not> tc_verifiable c"
    using observe_line_tainted [OF assms(2-4), of "[]"] by metis
  then show ?thesis using assms(1) by (auto simp: observe_eq default_input_def)
qed

theorem tainted_line_is_reported_unverifiable_witness:
  "\<exists>c. snd (observe (fst (observe empty_tracker ''s'' [] [''up''] False)) ''s'' ''x'' [''left''] True) = [c] \<and>
       \<not> tc_verifiable c"
proof -
  let ?t = "fst (observe empty_tracker ''s'' [] [''up''] False)"
  have i: "tr_buffers ?t ''s'' = Some \<lparr>ti_buffer = [], ti_verifiable = False\<rparr>" by code_simp
  have "\<not> ti_verifiable \<lparr>ti_buffer = [], ti_verifiable = False\<rparr>" by simp
  moreover have "list_all (\<lambda>g. \<not> submits_char g) (utf8_chars ''x'')" by code_simp
  moreover have "list_all (\<lambda>k. \<not> submits_key k) [''left'']" by code_simp
  ultimately show ?thesis using tainted_line_is_reported_unverifiable [OF i] by blast
qed

text \<open>Supporting result: a call whose approval is denied, or whose write fails, leaves no trace: restoring the
  checkpoint taken with the observation gives back the tracker as it was, line, taint and
  sensitivity included.\<close>

theorem rollback_restores_tracker:
  assumes "checkpoint_and_observe_sensitive t s data keys ae sens = (t', cp, commands, redact)"
  shows "restore t' cp = t"
  by (rule restore_after_observe [OF assms])

theorem rollback_restores_tracker_witness:
  "case checkpoint_and_observe_sensitive
      (fst (observe empty_tracker ''s'' ''rm -rf /'' [] False)) ''s'' [] [''enter''] False True of
     (t', cp, commands, redact) \<Rightarrow>
       restore t' cp = fst (observe empty_tracker ''s'' ''rm -rf /'' [] False) \<and> redact"
proof -
  let ?t = "fst (observe empty_tracker ''s'' ''rm -rf /'' [] False)"
  obtain t' cp e r where
    c: "checkpoint_and_observe_sensitive ?t ''s'' [] [''enter''] False True = (t', cp, e, r)"
    using prod_cases4 by blast
  have "r" using c by (auto simp: checkpoint_and_observe_sensitive_def Let_def split: prod.splits)
  with c rollback_restores_tracker [OF c] show ?thesis by simp
qed

text \<open>Supporting result: the tracker invariant: after any call every stored line is at most 64 KiB and differs from
  the blank line, and only a session with a pending line is sensitive, so no later unrelated
  command is redacted; other sessions keep their lines.\<close>

theorem tracker_invariant_preserved:
  assumes "tracker_ok t"
    and "checkpoint_and_observe_sensitive t s data keys ae sens = (t', cp, commands, redact)"
  shows "tracker_ok t' \<and> (redact \<longleftrightarrow> sens \<or> s \<in> tr_sensitive t) \<and>
    (\<forall>r. r = s \<or> tr_buffers t' r = tr_buffers t r)"
proof (intro conjI allI)
  show "tracker_ok t'" by (rule checkpoint_and_observe_sensitive_ok [OF assms(2,1)])
  show "redact \<longleftrightarrow> sens \<or> s \<in> tr_sensitive t"
    using assms(2) by (auto simp: checkpoint_and_observe_sensitive_def Let_def split: prod.splits if_splits)
  show "r = s \<or> tr_buffers t' r = tr_buffers t r" for r
    using assms(2)
    by (auto simp: checkpoint_and_observe_sensitive_def observe_eq Let_def split: prod.splits if_splits)
qed

theorem tracker_invariant_preserved_witness:
  "tracker_ok (fst (checkpoint_and_observe_sensitive empty_tracker ''s'' ''secret'' [] False True))"
proof -
  have "tracker_ok empty_tracker" by (simp add: tracker_ok_def empty_tracker_def)
  moreover obtain t' cp e r where
    c: "checkpoint_and_observe_sensitive empty_tracker ''s'' ''secret'' [] False True = (t', cp, e, r)"
    using prod_cases4 by blast
  ultimately show ?thesis using tracker_invariant_preserved [OF _ c] by simp
qed

end
