(* ===== verification/Approval.thy ===== *)
theory Approval
  imports Prelude Decimal "HOL-Library.Word" "HOL-Library.Product_Lexorder" "HOL-Library.Multiset"
begin

text \<open>
  The approval manager, \<^verbatim>\<open>src-tauri/src/mcp/approval.rs\<close>.  The first half models the
  state and each critical section of \<open>AgentApprovalManager\<close> as a function; the second half runs
  them as a transition system in which any number of gated commands, resolving users and the
  clock interleave between the critical sections, which is where the asynchronous code yields.

  A pending request owns the sending end of a one-shot channel; \<open>am_channel\<close> records what has been
  sent.  The \<open>HashMap\<close> of pending requests is an association list with distinct keys in arbitrary
  order.  Clock readings and fresh UUIDs are arguments.
\<close>

section \<open>Data\<close>

datatype approval_outcome = Approved | Denied string

record approval_request =
  ar_tool :: string
  ar_command :: string
  ar_reasons :: "string list"
  ar_session_id :: "string option"

record approval_request_event =
  re_id :: string
  re_sequence :: "64 word"
  re_tool :: string
  re_command :: string
  re_reasons :: "string list"
  re_session_id :: "string option"
  re_timestamp :: int

datatype approval_event =
    Request approval_request_event
  | Resolved string
  | StateChanged "int option"

record approval_manager =
  am_pending :: "(string \<times> approval_request_event) list"
  am_until :: "int option"
  am_timeout :: "nat option"
  am_next_sequence :: "64 word"
  am_channel :: "string \<rightharpoonup> approval_outcome"
  am_emitted :: "approval_event list"

record approval_status =
  as_until :: "int option"
  as_pending :: "approval_request_event list"

section \<open>The critical sections\<close>

definition saturating_add_i64 :: "int \<Rightarrow> int \<Rightarrow> int" where
  "saturating_add_i64 a b = max i64_min (min i64_max (a + b))"

definition filter_future :: "int \<Rightarrow> int option \<Rightarrow> int option" where
  "filter_future now until = (case until of Some u \<Rightarrow> if now < u then Some u else None | None \<Rightarrow> None)"

definition with_auto_approve_until :: "int option \<Rightarrow> int \<Rightarrow> approval_manager" where
  "with_auto_approve_until until now =
     \<lparr>am_pending = [], am_until = filter_future now until, am_timeout = None,
      am_next_sequence = 0, am_channel = Map.empty, am_emitted = []\<rparr>"

definition active_deadline :: "approval_manager \<Rightarrow> int \<Rightarrow> int option" where
  "active_deadline m now = filter_future now (am_until m)"

definition auto_approve_active :: "approval_manager \<Rightarrow> int \<Rightarrow> bool" where
  "auto_approve_active m now = (active_deadline m now \<noteq> None)"

definition emit :: "approval_manager \<Rightarrow> approval_event \<Rightarrow> approval_manager" where
  "emit m e = m\<lparr>am_emitted := am_emitted m @ [e]\<rparr>"

definition emit_state :: "approval_manager \<Rightarrow> int \<Rightarrow> approval_manager" where
  "emit_state m now = emit m (StateChanged (active_deadline m now))"

definition emit_resolved :: "approval_manager \<Rightarrow> string \<Rightarrow> approval_manager" where
  "emit_resolved m i = emit m (Resolved i)"

definition send :: "approval_manager \<Rightarrow> string \<Rightarrow> approval_outcome \<Rightarrow> approval_manager" where
  "send m i oc = m\<lparr>am_channel := (am_channel m)(i \<mapsto> oc)\<rparr>"

definition remove_pending ::
    "string \<Rightarrow> (string \<times> approval_request_event) list \<Rightarrow> (string \<times> approval_request_event) list" where
  "remove_pending i ps = filter (\<lambda>p. fst p \<noteq> i) ps"

text \<open>\<open>gate\<close> up to the point where it awaits: the new request is recorded and announced.\<close>

definition gate_register :: "approval_manager \<Rightarrow> approval_request \<Rightarrow> string \<Rightarrow> int \<Rightarrow> approval_manager" where
  "gate_register m req i now =
     (let event = \<lparr>re_id = i, re_sequence = am_next_sequence m, re_tool = ar_tool req,
                   re_command = ar_command req, re_reasons = ar_reasons req,
                   re_session_id = ar_session_id req, re_timestamp = now\<rparr>
      in emit (m\<lparr>am_next_sequence := am_next_sequence m + 1,
                 am_pending := remove_pending i (am_pending m) @ [(i, event)]\<rparr>)
              (Request event))"

definition remove_and_emit :: "approval_manager \<Rightarrow> string \<Rightarrow> approval_manager" where
  "remove_and_emit m i =
     (if map_of (am_pending m) i \<noteq> None
      then emit_resolved (m\<lparr>am_pending := remove_pending i (am_pending m)\<rparr>) i
      else m)"

text \<open>The ends of \<open>gate\<close>: the channel delivers an outcome or is closed, or the (test-only) timeout
  expires; the clean-up guard then removes a request that is still pending.\<close>

definition gate_received ::
    "approval_manager \<Rightarrow> string \<Rightarrow> approval_outcome option \<Rightarrow> approval_manager \<times> approval_outcome" where
  "gate_received m i received =
     (case received of
        Some outcome \<Rightarrow> (remove_and_emit m i, outcome)
      | None \<Rightarrow> (remove_and_emit (remove_and_emit m i) i, Denied ''approval channel closed''))"

definition gate_timed_out :: "approval_manager \<Rightarrow> string \<Rightarrow> nat \<Rightarrow> approval_manager \<times> approval_outcome" where
  "gate_timed_out m i secs =
     (remove_and_emit (remove_and_emit m i) i,
      Denied (''no response within '' @ show_nat secs @ ''s''))"

text \<open>\<open>resolve\<close>: the section under the lock of the pending map, then the rest.\<close>

definition opens_window :: "approval_outcome \<Rightarrow> int option \<Rightarrow> bool" where
  "opens_window outcome auto_approve_ms =
     (outcome = Approved \<and> (case auto_approve_ms of Some ms \<Rightarrow> 0 < ms | None \<Rightarrow> False))"

record resolve_frame =
  rf_id :: string
  rf_outcome :: approval_outcome
  rf_ms :: "int option"
  rf_queued :: "string list"

definition resolve_take ::
    "approval_manager \<Rightarrow> string \<Rightarrow> approval_outcome \<Rightarrow> int option \<Rightarrow> (approval_manager \<times> resolve_frame) option" where
  "resolve_take m i outcome ms =
     (case map_of (am_pending m) i of
        None \<Rightarrow> None
      | Some _ \<Rightarrow>
          (let rest = remove_pending i (am_pending m) in
           if opens_window outcome ms
           then Some (m\<lparr>am_pending := []\<rparr>,
                      \<lparr>rf_id = i, rf_outcome = outcome, rf_ms = ms, rf_queued = map fst rest\<rparr>)
           else Some (m\<lparr>am_pending := rest\<rparr>,
                      \<lparr>rf_id = i, rf_outcome = outcome, rf_ms = ms, rf_queued = []\<rparr>)))"

definition resolve_finish :: "approval_manager \<Rightarrow> resolve_frame \<Rightarrow> int \<Rightarrow> approval_manager" where
  "resolve_finish m fr now =
     (let m1 = (if opens_window (rf_outcome fr) (rf_ms fr)
                then emit_state
                  (m\<lparr>am_until := Some (saturating_add_i64 now (case rf_ms fr of Some ms \<Rightarrow> ms | None \<Rightarrow> 0))\<rparr>) now
                else m);
          m2 = emit_resolved (send m1 (rf_id fr) (rf_outcome fr)) (rf_id fr)
      in foldl (\<lambda>m q. emit_resolved (send m q Approved) q) m2 (rf_queued fr))"

definition resolve ::
    "approval_manager \<Rightarrow> string \<Rightarrow> approval_outcome \<Rightarrow> int option \<Rightarrow> int \<Rightarrow> approval_manager \<times> bool" where
  "resolve m i outcome ms now =
     (case resolve_take m i outcome ms of
        None \<Rightarrow> (m, False)
      | Some (m', fr) \<Rightarrow> (resolve_finish m' fr now, True))"

definition cancel_auto_approve :: "approval_manager \<Rightarrow> int \<Rightarrow> approval_manager" where
  "cancel_auto_approve m now = emit_state (m\<lparr>am_until := None\<rparr>) now"

definition status :: "approval_manager \<Rightarrow> int \<Rightarrow> approval_status" where
  "status m now =
     \<lparr>as_until = active_deadline m now,
      as_pending = sort_key (\<lambda>e. (re_timestamp e, re_sequence e)) (map snd (am_pending m))\<rparr>"

section \<open>Interleavings\<close>

text \<open>
  A gated command has passed the window check, waits on its request, or is done; when done it
  remembers its request, or \<open>None\<close> if the window let it through.  \<open>w_decisions\<close> is the history of the user
  decisions that took effect and \<open>w_issued\<close> of the request ids, both for stating properties.
\<close>

datatype gate_phase =
    GateChecked approval_request
  | GateWaiting string
  | GateDone "string option" approval_outcome

record approval_world =
  w_mgr :: approval_manager
  w_gates :: "nat \<rightharpoonup> gate_phase"
  w_resolvers :: "nat \<rightharpoonup> resolve_frame"
  w_now :: int
  w_decisions :: "(string \<times> approval_outcome \<times> int option) list"
  w_issued :: "string set"

definition approval_init :: "int option \<Rightarrow> approval_world \<Rightarrow> bool" where
  "approval_init restored w \<longleftrightarrow>
     (\<exists>now. w = \<lparr>w_mgr = with_auto_approve_until restored now, w_gates = Map.empty,
                 w_resolvers = Map.empty, w_now = now, w_decisions = [], w_issued = {}\<rparr>)"

inductive approval_step :: "approval_world \<Rightarrow> approval_world \<Rightarrow> bool" where
  tick: "w_now w \<le> t \<Longrightarrow> approval_step w (w\<lparr>w_now := t\<rparr>)"
| gate_bypass:
    "w_gates w g = None \<Longrightarrow> auto_approve_active (w_mgr w) (w_now w) \<Longrightarrow>
     approval_step w (w\<lparr>w_gates := (w_gates w)(g \<mapsto> GateDone None Approved)\<rparr>)"
| gate_check:
    "w_gates w g = None \<Longrightarrow> \<not> auto_approve_active (w_mgr w) (w_now w) \<Longrightarrow>
     approval_step w (w\<lparr>w_gates := (w_gates w)(g \<mapsto> GateChecked req)\<rparr>)"
| register:
    "w_gates w g = Some (GateChecked req) \<Longrightarrow> i \<notin> w_issued w \<Longrightarrow>
     approval_step w
       (w\<lparr>w_mgr := gate_register (w_mgr w) req i (w_now w),
          w_gates := (w_gates w)(g \<mapsto> GateWaiting i), w_issued := insert i (w_issued w)\<rparr>)"
| receive:
    "w_gates w g = Some (GateWaiting i) \<Longrightarrow> am_channel (w_mgr w) i = Some oc \<Longrightarrow>
     approval_step w
       (w\<lparr>w_mgr := fst (gate_received (w_mgr w) i (Some oc)),
          w_gates := (w_gates w)(g \<mapsto> GateDone (Some i) (snd (gate_received (w_mgr w) i (Some oc))))\<rparr>)"
| closed:
    "w_gates w g = Some (GateWaiting i) \<Longrightarrow> am_channel (w_mgr w) i = None \<Longrightarrow>
     map_of (am_pending (w_mgr w)) i = None \<Longrightarrow>
     (\<And>r fr. w_resolvers w r = Some fr \<Longrightarrow> i \<noteq> rf_id fr \<and> i \<notin> set (rf_queued fr)) \<Longrightarrow>
     approval_step w
       (w\<lparr>w_mgr := fst (gate_received (w_mgr w) i None),
          w_gates := (w_gates w)(g \<mapsto> GateDone (Some i) (snd (gate_received (w_mgr w) i None)))\<rparr>)"
| timeout:
    "w_gates w g = Some (GateWaiting i) \<Longrightarrow> am_timeout (w_mgr w) = Some secs \<Longrightarrow>
     approval_step w
       (w\<lparr>w_mgr := fst (gate_timed_out (w_mgr w) i secs),
          w_gates := (w_gates w)(g \<mapsto> GateDone (Some i) (snd (gate_timed_out (w_mgr w) i secs)))\<rparr>)"
| abandon:
    "w_gates w g = Some (GateWaiting i) \<Longrightarrow>
     approval_step w (w\<lparr>w_mgr := remove_and_emit (w_mgr w) i, w_gates := (w_gates w)(g := None)\<rparr>)"
| take:
    "w_resolvers w r = None \<Longrightarrow> resolve_take (w_mgr w) i oc ms = Some (m', fr) \<Longrightarrow>
     approval_step w
       (w\<lparr>w_mgr := m', w_resolvers := (w_resolvers w)(r \<mapsto> fr),
          w_decisions := w_decisions w @ [(i, oc, ms)]\<rparr>)"
| finish:
    "w_resolvers w r = Some fr \<Longrightarrow>
     approval_step w
       (w\<lparr>w_mgr := resolve_finish (w_mgr w) fr (w_now w), w_resolvers := (w_resolvers w)(r := None)\<rparr>)"
| cancel:
    "approval_step w (w\<lparr>w_mgr := cancel_auto_approve (w_mgr w) (w_now w)\<rparr>)"

section \<open>What each section changes\<close>

named_theorems approval_simps \<open>fields of the manager after each critical section\<close>

lemma emit_fields [approval_simps]:
  "am_pending (emit m e) = am_pending m" "am_until (emit m e) = am_until m"
  "am_timeout (emit m e) = am_timeout m" "am_channel (emit m e) = am_channel m"
  "am_next_sequence (emit m e) = am_next_sequence m"
  by (simp_all add: emit_def)

lemma emit_resolved_fields [approval_simps]:
  "am_pending (emit_resolved m i) = am_pending m" "am_until (emit_resolved m i) = am_until m"
  "am_timeout (emit_resolved m i) = am_timeout m" "am_channel (emit_resolved m i) = am_channel m"
  by (simp_all add: emit_resolved_def approval_simps)

lemma send_fields [approval_simps]:
  "am_pending (send m i oc) = am_pending m" "am_until (send m i oc) = am_until m"
  "am_timeout (send m i oc) = am_timeout m" "am_channel (send m i oc) = (am_channel m)(i \<mapsto> oc)"
  by (simp_all add: send_def)

lemma cancel_fields [approval_simps]:
  "am_pending (cancel_auto_approve m now) = am_pending m" "am_until (cancel_auto_approve m now) = None"
  "am_timeout (cancel_auto_approve m now) = am_timeout m"
  "am_channel (cancel_auto_approve m now) = am_channel m"
  by (simp_all add: cancel_auto_approve_def emit_state_def approval_simps)

lemma ids_remove_pending [simp]: "map fst (remove_pending i ps) = filter (\<lambda>j. j \<noteq> i) (map fst ps)"
  by (simp add: remove_pending_def filter_map comp_def)

lemma map_of_pending_iff: "map_of ps i = None \<longleftrightarrow> i \<notin> set (map fst ps)"
  by (simp add: map_of_eq_None_iff)

lemma gate_register_fields [approval_simps]:
  "map fst (am_pending (gate_register m req i now)) = filter (\<lambda>j. j \<noteq> i) (map fst (am_pending m)) @ [i]"
  "am_until (gate_register m req i now) = am_until m"
  "am_timeout (gate_register m req i now) = am_timeout m"
  "am_channel (gate_register m req i now) = am_channel m"
  by (simp_all add: gate_register_def approval_simps Let_def)

lemma remove_and_emit_fields [approval_simps]:
  "map fst (am_pending (remove_and_emit m i)) = filter (\<lambda>j. j \<noteq> i) (map fst (am_pending m))"
  "am_until (remove_and_emit m i) = am_until m" "am_timeout (remove_and_emit m i) = am_timeout m"
  "am_channel (remove_and_emit m i) = am_channel m"
proof -
  have "filter (\<lambda>j. j \<noteq> i) (map fst ps) = map fst ps" if "map_of ps i = None" for ps :: "(string \<times> approval_request_event) list"
    using that by (auto simp: map_of_pending_iff filter_id_conv)
  then show "map fst (am_pending (remove_and_emit m i)) = filter (\<lambda>j. j \<noteq> i) (map fst (am_pending m))"
    by (auto simp: remove_and_emit_def approval_simps)
qed (simp_all add: remove_and_emit_def approval_simps)

lemma resolve_finish_fields [approval_simps]:
  "am_pending (resolve_finish m fr now) = am_pending m"
  "am_timeout (resolve_finish m fr now) = am_timeout m"
  "am_until (resolve_finish m fr now) =
    (if opens_window (rf_outcome fr) (rf_ms fr)
     then Some (saturating_add_i64 now (case rf_ms fr of Some ms \<Rightarrow> ms | None \<Rightarrow> 0)) else am_until m)"
  "am_channel (resolve_finish m fr now) j =
    (if j \<in> set (rf_queued fr) then Some Approved
     else if j = rf_id fr then Some (rf_outcome fr) else am_channel m j)"
proof -
  have f: "am_pending (foldl (\<lambda>m q. emit_resolved (send m q Approved) q) m qs) = am_pending m"
    "am_timeout (foldl (\<lambda>m q. emit_resolved (send m q Approved) q) m qs) = am_timeout m"
    "am_until (foldl (\<lambda>m q. emit_resolved (send m q Approved) q) m qs) = am_until m"
    "am_channel (foldl (\<lambda>m q. emit_resolved (send m q Approved) q) m qs) j =
      (if j \<in> set qs then Some Approved else am_channel m j)" for m qs
    by (induction qs arbitrary: m) (auto simp: approval_simps)
  show "am_pending (resolve_finish m fr now) = am_pending m"
    "am_timeout (resolve_finish m fr now) = am_timeout m"
    "am_until (resolve_finish m fr now) =
      (if opens_window (rf_outcome fr) (rf_ms fr)
       then Some (saturating_add_i64 now (case rf_ms fr of Some ms \<Rightarrow> ms | None \<Rightarrow> 0)) else am_until m)"
    "am_channel (resolve_finish m fr now) j =
      (if j \<in> set (rf_queued fr) then Some Approved
       else if j = rf_id fr then Some (rf_outcome fr) else am_channel m j)"
    by (simp_all add: resolve_finish_def Let_def f emit_state_def approval_simps)
qed

lemma resolve_take_Some:
  assumes "resolve_take m i oc ms = Some (m', fr)"
  shows "i \<in> set (map fst (am_pending m))"
    and "fr = \<lparr>rf_id = i, rf_outcome = oc, rf_ms = ms,
        rf_queued = (if opens_window oc ms then filter (\<lambda>j. j \<noteq> i) (map fst (am_pending m)) else [])\<rparr>"
    and "map fst (am_pending m') =
        (if opens_window oc ms then [] else filter (\<lambda>j. j \<noteq> i) (map fst (am_pending m)))"
    and "am_until m' = am_until m" "am_timeout m' = am_timeout m" "am_channel m' = am_channel m"
  using assms
  by (auto simp: resolve_take_def Let_def map_of_pending_iff split: option.splits if_splits dest!: map_of_SomeD)
     (metis fst_conv image_eqI)+

section \<open>The invariant\<close>

definition pending_ids :: "approval_world \<Rightarrow> string set" where
  "pending_ids w = set (map fst (am_pending (w_mgr w)))"

definition frame_ids :: "resolve_frame \<Rightarrow> string set" where
  "frame_ids fr = insert (rf_id fr) (set (rf_queued fr))"

definition held_ids :: "approval_world \<Rightarrow> string set" where
  "held_ids w = {i. \<exists>r fr. w_resolvers w r = Some fr \<and> i \<in> frame_ids fr}"

definition window_opened :: "approval_world \<Rightarrow> bool" where
  "window_opened w \<longleftrightarrow> (\<exists>i ms. (i, Approved, Some ms) \<in> set (w_decisions w) \<and> 0 < ms)"

definition justified :: "approval_world \<Rightarrow> string \<Rightarrow> approval_outcome \<Rightarrow> bool" where
  "justified w i oc \<longleftrightarrow>
     (\<exists>ms. (i, oc, ms) \<in> set (w_decisions w)) \<or> (oc = Approved \<and> window_opened w)"

text \<open>A request id is in at most one place: pending, in the hands of one resolver, or answered.\<close>

definition routing_inv :: "approval_world \<Rightarrow> bool" where
  "routing_inv w \<longleftrightarrow>
     distinct (map fst (am_pending (w_mgr w))) \<and>
     pending_ids w \<union> held_ids w \<union> dom (am_channel (w_mgr w)) \<subseteq> w_issued w \<and>
     pending_ids w \<inter> held_ids w = {} \<and>
     (pending_ids w \<union> held_ids w) \<inter> dom (am_channel (w_mgr w)) = {} \<and>
     (\<forall>r fr s fr'. w_resolvers w r = Some fr \<and> w_resolvers w s = Some fr' \<and> r \<noteq> s \<longrightarrow>
        frame_ids fr \<inter> frame_ids fr' = {}) \<and>
     (\<forall>r fr. w_resolvers w r = Some fr \<longrightarrow> rf_id fr \<notin> set (rf_queued fr))"

text \<open>Every answer goes back to a user decision, and every user decision is the answer.\<close>

definition answer_inv :: "approval_world \<Rightarrow> bool" where
  "answer_inv w \<longleftrightarrow>
     (\<forall>i oc. am_channel (w_mgr w) i = Some oc \<longrightarrow> justified w i oc) \<and>
     (\<forall>r fr. w_resolvers w r = Some fr \<longrightarrow>
        (rf_id fr, rf_outcome fr, rf_ms fr) \<in> set (w_decisions w) \<and>
        (rf_queued fr \<noteq> [] \<longrightarrow> opens_window (rf_outcome fr) (rf_ms fr))) \<and>
     (\<forall>i oc ms. (i, oc, ms) \<in> set (w_decisions w) \<longrightarrow>
        i \<in> w_issued w \<and> i \<notin> pending_ids w \<and>
        (am_channel (w_mgr w) i = Some oc \<or>
         (\<exists>r fr. w_resolvers w r = Some fr \<and> rf_id fr = i \<and> rf_outcome fr = oc)))"

definition gates_inv :: "approval_world \<Rightarrow> bool" where
  "gates_inv w \<longleftrightarrow>
     (\<forall>g i. w_gates w g = Some (GateWaiting i) \<longrightarrow>
        i \<in> w_issued w \<and>
        i \<in> pending_ids w \<union> held_ids w \<union> dom (am_channel (w_mgr w))) \<and>
     (\<forall>g h i. w_gates w g = Some (GateWaiting i) \<and> w_gates w h = Some (GateWaiting i) \<longrightarrow> g = h) \<and>
     (\<forall>i. i \<in> pending_ids w \<longrightarrow> (\<exists>g. w_gates w g = Some (GateWaiting i))) \<and>
     (\<forall>g i oc. w_gates w g = Some (GateDone (Some i) oc) \<longrightarrow> am_channel (w_mgr w) i = Some oc)"

definition window_inv :: "bool \<Rightarrow> approval_world \<Rightarrow> bool" where
  "window_inv restored w \<longleftrightarrow>
     am_timeout (w_mgr w) = None \<and>
     (am_until (w_mgr w) \<noteq> None \<longrightarrow> restored \<or> window_opened w) \<and>
     (\<forall>g oc. w_gates w g = Some (GateDone None oc) \<longrightarrow> oc = Approved \<and> (restored \<or> window_opened w))"

definition approval_inv :: "bool \<Rightarrow> approval_world \<Rightarrow> bool" where
  "approval_inv restored w \<longleftrightarrow>
     routing_inv w \<and> answer_inv w \<and> gates_inv w \<and> window_inv restored w"

lemmas approval_inv_defs =
  approval_inv_def routing_inv_def answer_inv_def gates_inv_def window_inv_def

lemma approval_init_inv: "approval_init u w \<Longrightarrow> approval_inv (u \<noteq> None) w"
  by (auto simp: approval_init_def approval_inv_defs pending_ids_def held_ids_def
      with_auto_approve_until_def filter_future_def split: option.splits)

section \<open>Every step keeps the invariant\<close>

lemma justified_mono:
  "justified w i oc \<Longrightarrow> set (w_decisions w) \<subseteq> set (w_decisions w') \<Longrightarrow> justified w' i oc"
  by (auto simp: justified_def window_opened_def)

lemma approval_invD:
  assumes "approval_inv b w"
  shows "routing_inv w" "answer_inv w" "gates_inv w" "window_inv b w"
  using assms by (simp_all add: approval_inv_def)

lemma decision_issued: "answer_inv w \<Longrightarrow> i \<notin> w_issued w \<Longrightarrow> (i, oc, ms) \<notin> set (w_decisions w)"
  unfolding answer_inv_def by blast

text \<open>How the gate invariant survives a step that moves one gate.\<close>

lemma gates_inv_update:
  assumes "gates_inv w"
    and "\<And>h. h \<noteq> g \<Longrightarrow> w_gates w' h = w_gates w h"
    and "w_issued w \<subseteq> w_issued w'"
    and "dom (am_channel (w_mgr w)) \<subseteq> dom (am_channel (w_mgr w'))"
    and "\<And>j oc. am_channel (w_mgr w) j = Some oc \<Longrightarrow> am_channel (w_mgr w') j = Some oc"
    and "\<And>j h. h \<noteq> g \<Longrightarrow> w_gates w h = Some (GateWaiting j) \<Longrightarrow> j \<in> pending_ids w \<union> held_ids w \<Longrightarrow>
       j \<in> pending_ids w' \<union> held_ids w' \<union> dom (am_channel (w_mgr w'))"
    and "\<And>j. w_gates w' g = Some (GateWaiting j) \<Longrightarrow>
       j \<in> w_issued w' \<and> j \<in> pending_ids w' \<union> held_ids w' \<union> dom (am_channel (w_mgr w')) \<and>
       (\<forall>h. h \<noteq> g \<longrightarrow> w_gates w h \<noteq> Some (GateWaiting j))"
    and "\<And>j. j \<in> pending_ids w' \<Longrightarrow> w_gates w' g = Some (GateWaiting j) \<or>
       (j \<in> pending_ids w \<and> w_gates w g \<noteq> Some (GateWaiting j))"
    and "\<And>j oc. w_gates w' g = Some (GateDone (Some j) oc) \<Longrightarrow> am_channel (w_mgr w') j = Some oc"
  shows "gates_inv w'"
  unfolding gates_inv_def
proof (intro conjI allI impI)
  fix h j assume a: "w_gates w' h = Some (GateWaiting j)"
  have b: "w_gates w h = Some (GateWaiting j) \<Longrightarrow> j \<in> w_issued w \<and>
      j \<in> pending_ids w \<union> held_ids w \<union> dom (am_channel (w_mgr w))"
    using assms(1) unfolding gates_inv_def by blast
  show "j \<in> w_issued w'" "j \<in> pending_ids w' \<union> held_ids w' \<union> dom (am_channel (w_mgr w'))"
    using a b assms(2-4) assms(6) [of h j] assms(7) [of j] by (cases "h = g"; auto)+
next
  fix h k j assume "w_gates w' h = Some (GateWaiting j) \<and> w_gates w' k = Some (GateWaiting j)"
  moreover have "w_gates w h = Some (GateWaiting j) \<Longrightarrow> w_gates w k = Some (GateWaiting j) \<Longrightarrow> h = k"
    using assms(1) unfolding gates_inv_def by blast
  ultimately show "h = k" using assms(2) assms(7) [of j] by (cases "h = g"; cases "k = g") auto
next
  fix j assume "j \<in> pending_ids w'"
  then consider "w_gates w' g = Some (GateWaiting j)"
    | "j \<in> pending_ids w" "w_gates w g \<noteq> Some (GateWaiting j)" using assms(8) by blast
  then show "\<exists>h. w_gates w' h = Some (GateWaiting j)"
  proof cases
    case 2
    then obtain h where "w_gates w h = Some (GateWaiting j)"
      using assms(1) unfolding gates_inv_def by blast
    with 2 assms(2) [of h] show ?thesis by (cases "h = g") auto
  qed blast
next
  fix h j oc assume "w_gates w' h = Some (GateDone (Some j) oc)"
  moreover have "w_gates w h = Some (GateDone (Some j) oc) \<Longrightarrow> am_channel (w_mgr w) j = Some oc"
    using assms(1) unfolding gates_inv_def by blast
  ultimately show "am_channel (w_mgr w') j = Some oc"
    using assms(2,5,9) by (cases "h = g") auto
qed

lemma inv_tick: "approval_inv b w \<Longrightarrow> approval_inv b (w\<lparr>w_now := t\<rparr>)"
  by (simp add: approval_inv_defs pending_ids_def held_ids_def justified_def window_opened_def)

lemma inv_gate_bypass:
  assumes "approval_inv b w" "w_gates w g = None" "auto_approve_active (w_mgr w) (w_now w)"
  shows "approval_inv b (w\<lparr>w_gates := (w_gates w)(g \<mapsto> GateDone None Approved)\<rparr>)"
proof -
  have "am_until (w_mgr w) \<noteq> None"
    using assms(3) by (auto simp: auto_approve_active_def active_deadline_def filter_future_def split: option.splits)
  then show ?thesis using assms(1,2)
    unfolding approval_inv_defs pending_ids_def held_ids_def justified_def window_opened_def
    by simp (metis option.distinct(1))
qed

lemma inv_gate_check:
  assumes "approval_inv b w" "w_gates w g = None"
  shows "approval_inv b (w\<lparr>w_gates := (w_gates w)(g \<mapsto> GateChecked req)\<rparr>)"
  using assms
  unfolding approval_inv_defs pending_ids_def held_ids_def justified_def window_opened_def
  by simp (metis option.distinct(1))

lemma inv_cancel:
  assumes "approval_inv b w"
  shows "approval_inv b (w\<lparr>w_mgr := cancel_auto_approve (w_mgr w) (w_now w)\<rparr>)"
  using assms
  by (simp add: approval_inv_defs pending_ids_def held_ids_def justified_def window_opened_def approval_simps)

lemma inv_register:
  assumes inv: "approval_inv b w" and g: "w_gates w g = Some (GateChecked req)" and i: "i \<notin> w_issued w"
  shows "approval_inv b (w\<lparr>w_mgr := gate_register (w_mgr w) req i (w_now w),
          w_gates := (w_gates w)(g \<mapsto> GateWaiting i), w_issued := insert i (w_issued w)\<rparr>)"
    (is "approval_inv b ?w")
proof -
  note I = approval_invD [OF inv]
  have new: "i \<notin> pending_ids w" "i \<notin> held_ids w" "am_channel (w_mgr w) i = None"
    using I(1) i by (auto simp: routing_inv_def)
  have nw: "w_gates w h \<noteq> Some (GateWaiting i)" for h using I(3) i by (auto simp: gates_inv_def)
  have ids: "pending_ids ?w = insert i (pending_ids w)" "held_ids ?w = held_ids w"
    using new(1) by (auto simp: pending_ids_def held_ids_def approval_simps)
  have "distinct (map fst (am_pending (w_mgr ?w)))"
    using I(1) by (auto simp: routing_inv_def approval_simps)
  with I(1) new i have "routing_inv ?w"
    unfolding routing_inv_def ids by (auto simp: approval_simps)
  moreover have "answer_inv ?w"
    using I(2) decision_issued [OF I(2) i] unfolding answer_inv_def ids
    by (simp add: approval_simps justified_def window_opened_def) blast
  moreover have "gates_inv ?w"
    by (rule gates_inv_update [OF I(3), of g]) (use nw g ids in \<open>auto simp: approval_simps\<close>)
  moreover have "window_inv b ?w"
    using I(4) unfolding window_inv_def by (auto simp: approval_simps window_opened_def)
  ultimately show ?thesis by (simp add: approval_inv_def)
qed

lemma inv_receive:
  assumes inv: "approval_inv b w" and g: "w_gates w g = Some (GateWaiting i)"
    and c: "am_channel (w_mgr w) i = Some oc"
  shows "approval_inv b (w\<lparr>w_mgr := fst (gate_received (w_mgr w) i (Some oc)),
          w_gates := (w_gates w)(g \<mapsto> GateDone (Some i) (snd (gate_received (w_mgr w) i (Some oc))))\<rparr>)"
    (is "approval_inv b ?w")
proof -
  note I = approval_invD [OF inv]
  have np: "i \<notin> pending_ids w" using I(1) c by (auto simp: routing_inv_def)
  have m: "fst (gate_received (w_mgr w) i (Some oc)) = w_mgr w"
    using np by (simp add: gate_received_def remove_and_emit_def map_of_pending_iff pending_ids_def)
  have ids: "pending_ids ?w = pending_ids w" "held_ids ?w = held_ids w"
    by (simp_all add: pending_ids_def held_ids_def m)
  have "routing_inv ?w" using I(1) unfolding routing_inv_def ids by (simp add: m)
  moreover have "answer_inv ?w"
    using I(2) unfolding answer_inv_def ids by (simp add: m justified_def window_opened_def)
  moreover have "gates_inv ?w"
    by (rule gates_inv_update [OF I(3), of g]) (use np g c ids in \<open>auto simp: m gate_received_def approval_simps\<close>)
  moreover have "window_inv b ?w"
    using I(4) unfolding window_inv_def by (auto simp: m window_opened_def)
  ultimately show ?thesis by (simp add: approval_inv_def)
qed

lemma inv_abandon:
  assumes inv: "approval_inv b w" and g: "w_gates w g = Some (GateWaiting i)"
  shows "approval_inv b (w\<lparr>w_mgr := remove_and_emit (w_mgr w) i, w_gates := (w_gates w)(g := None)\<rparr>)"
    (is "approval_inv b ?w")
proof -
  note I = approval_invD [OF inv]
  have ids: "pending_ids ?w = pending_ids w - {i}" "held_ids ?w = held_ids w"
    by (auto simp: pending_ids_def held_ids_def approval_simps simp del: set_map list.set_map)
  have uniq: "w_gates w h \<noteq> Some (GateWaiting i)" if "h \<noteq> g" for h
    using I(3) g that unfolding gates_inv_def by blast
  have "routing_inv ?w" using I(1) unfolding routing_inv_def ids by (simp add: approval_simps) blast
  moreover have "answer_inv ?w"
    using I(2) unfolding answer_inv_def ids
    by (simp add: approval_simps justified_def window_opened_def)
  moreover have "gates_inv ?w"
    by (rule gates_inv_update [OF I(3), of g])
       (use uniq g ids in \<open>auto simp: approval_simps\<close>)
  moreover have "window_inv b ?w"
    using I(4) unfolding window_inv_def by (auto simp: approval_simps window_opened_def)
  ultimately show ?thesis by (simp add: approval_inv_def)
qed

lemma not_closed:
  assumes "approval_inv b w" "w_gates w g = Some (GateWaiting i)" "am_channel (w_mgr w) i = None"
    "map_of (am_pending (w_mgr w)) i = None"
    "\<And>r fr. w_resolvers w r = Some fr \<Longrightarrow> i \<noteq> rf_id fr \<and> i \<notin> set (rf_queued fr)"
  shows False
proof -
  have "i \<in> pending_ids w \<union> held_ids w \<union> dom (am_channel (w_mgr w))"
    using assms(1,2) by (auto simp: approval_inv_def gates_inv_def)
  with assms(3-5) show False
    by (auto simp: pending_ids_def held_ids_def frame_ids_def map_of_pending_iff)
qed

lemma inv_take:
  assumes inv: "approval_inv b w" and r: "w_resolvers w r = None"
    and t: "resolve_take (w_mgr w) i oc ms = Some (m', fr)"
  shows "approval_inv b (w\<lparr>w_mgr := m', w_resolvers := (w_resolvers w)(r \<mapsto> fr),
          w_decisions := w_decisions w @ [(i, oc, ms)]\<rparr>)"
    (is "approval_inv b ?w")
proof -
  note I = approval_invD [OF inv] and T = resolve_take_Some [OF t]
  have frm: "frame_ids fr \<subseteq> pending_ids w" "i \<in> frame_ids fr" "rf_id fr = i" "rf_outcome fr = oc" "rf_ms fr = ms"
    "i \<notin> set (rf_queued fr)" "rf_queued fr \<noteq> [] \<Longrightarrow> opens_window oc ms"
    using T(1) by (auto simp: T(2) frame_ids_def pending_ids_def split: if_splits)
  have pend: "pending_ids ?w = pending_ids w - frame_ids fr"
    using T(1) by (auto simp: pending_ids_def T(3) simp del: set_map list.set_map)
      (auto simp: T(2) frame_ids_def simp del: set_map list.set_map)
  have held: "held_ids ?w = held_ids w \<union> frame_ids fr"
    using r by (auto simp: held_ids_def) (metis option.distinct(1))
  have dist: "distinct (map fst (am_pending m'))" using I(1) by (auto simp: routing_inv_def T(3))
  have disj: "frame_ids fr \<inter> held_ids w = {}" "frame_ids fr \<inter> dom (am_channel (w_mgr w)) = {}"
    "frame_ids fr \<subseteq> w_issued w"
    using I(1) frm(1) unfolding routing_inv_def by blast+
  have sep: "frame_ids fr \<inter> frame_ids f = {}" if "w_resolvers w s = Some f" for s f
    using disj(1) that by (auto simp: held_ids_def)
  have "routing_inv ?w"
    unfolding routing_inv_def pend held
  proof (intro conjI allI impI)
    show "frame_ids f \<inter> frame_ids f' = {}"
      if "w_resolvers ?w s = Some f \<and> w_resolvers ?w s' = Some f' \<and> s \<noteq> s'" for s f s' f'
    proof (cases "s = r \<or> s' = r")
      case True
      with that sep [of s f] sep [of s' f'] show ?thesis by (auto simp: Int_commute)
    next
      case False
      with that have "w_resolvers w s = Some f" "w_resolvers w s' = Some f'" "s \<noteq> s'" by auto
      with I(1) show ?thesis unfolding routing_inv_def by blast
    qed
    show "rf_id f \<notin> set (rf_queued f)" if "w_resolvers ?w s = Some f" for s f
      using that frm(3,6) I(1) by (cases "s = r") (auto simp: routing_inv_def)
  qed (use I(1) disj dist T(6) in \<open>auto simp: routing_inv_def\<close>)
  moreover have "answer_inv ?w"
    unfolding answer_inv_def pend
  proof (intro conjI allI impI)
    show "justified ?w j oc'" if "am_channel (w_mgr ?w) j = Some oc'" for j oc'
      using I(2) that T(6) justified_mono [of w j oc' ?w] by (auto simp: answer_inv_def)
    show "(rf_id f, rf_outcome f, rf_ms f) \<in> set (w_decisions ?w)"
      "rf_queued f \<noteq> [] \<Longrightarrow> opens_window (rf_outcome f) (rf_ms f)" if "w_resolvers ?w s = Some f" for s f
      using I(2) that frm by (auto simp: answer_inv_def split: if_splits)
    fix j oc' ms' assume d: "(j, oc', ms') \<in> set (w_decisions ?w)"
    consider (new) "j = i" "oc' = oc" | (old) "(j, oc', ms') \<in> set (w_decisions w)" using d by auto
    then have "j \<in> w_issued ?w \<and> j \<notin> pending_ids w - frame_ids fr \<and>
      (am_channel (w_mgr ?w) j = Some oc' \<or>
        (\<exists>s f. w_resolvers ?w s = Some f \<and> rf_id f = j \<and> rf_outcome f = oc'))"
    proof cases
      case new
      with frm(2-4) disj(3) show ?thesis by auto
    next
      case old
      then have "j \<in> w_issued w" "j \<notin> pending_ids w"
        and o: "am_channel (w_mgr w) j = Some oc' \<or>
          (\<exists>s f. w_resolvers w s = Some f \<and> rf_id f = j \<and> rf_outcome f = oc')"
        using I(2) unfolding answer_inv_def by blast+
      moreover have "w_resolvers ?w s = Some f" if "w_resolvers w s = Some f" for s f
        using that r by auto
      moreover have "am_channel (w_mgr ?w) = am_channel (w_mgr w)" "w_issued ?w = w_issued w"
        using T(6) by simp_all
      ultimately show ?thesis by (metis DiffD1)
    qed
    then show "j \<in> w_issued ?w" "j \<notin> pending_ids w - frame_ids fr"
      "am_channel (w_mgr ?w) j = Some oc' \<or>
        (\<exists>s f. w_resolvers ?w s = Some f \<and> rf_id f = j \<and> rf_outcome f = oc')"
      by blast+
  qed
  moreover have "gates_inv ?w"
    using I(3) T(6) unfolding gates_inv_def pend held by auto
  moreover have "window_inv b ?w"
  proof -
    have "window_opened w \<Longrightarrow> window_opened ?w" by (auto simp: window_opened_def)
    with I(4) T(4,5) show ?thesis unfolding window_inv_def by auto
  qed
  ultimately show ?thesis by (simp add: approval_inv_def)
qed

lemma opens_window_Some: "opens_window oc ms \<Longrightarrow> \<exists>k. ms = Some k \<and> 0 < k \<and> oc = Approved"
  by (auto simp: opens_window_def split: option.splits)

lemma inv_finish:
  assumes inv: "approval_inv b w" and r: "w_resolvers w r = Some fr"
  shows "approval_inv b
    (w\<lparr>w_mgr := resolve_finish (w_mgr w) fr (w_now w), w_resolvers := (w_resolvers w)(r := None)\<rparr>)"
    (is "approval_inv b ?w")
proof -
  note I = approval_invD [OF inv]
  let ?m = "w_mgr ?w"
  have pend: "pending_ids ?w = pending_ids w" by (simp add: pending_ids_def approval_simps)
  have others: "frame_ids fr \<inter> frame_ids f = {}" if "w_resolvers w s = Some f" "s \<noteq> r" for s f
    using I(1) r that unfolding routing_inv_def by blast
  have held: "held_ids ?w = held_ids w - frame_ids fr"
  proof (intro set_eqI iffI)
    fix x assume "x \<in> held_ids ?w"
    then obtain s f where "s \<noteq> r" "w_resolvers w s = Some f" "x \<in> frame_ids f"
      by (auto simp: held_ids_def split: if_splits)
    with others [of s f] show "x \<in> held_ids w - frame_ids fr" by (auto simp: held_ids_def)
  next
    fix x assume "x \<in> held_ids w - frame_ids fr"
    then obtain s f where f: "w_resolvers w s = Some f" "x \<in> frame_ids f" "x \<notin> frame_ids fr"
      by (auto simp: held_ids_def)
    with r have "s \<noteq> r" by auto
    with f show "x \<in> held_ids ?w" by (auto simp: held_ids_def)
  qed
  have frm: "frame_ids fr \<subseteq> held_ids w" using r by (auto simp: held_ids_def)
  have chan: "am_channel (resolve_finish (w_mgr w) fr (w_now w)) j = (if j \<in> frame_ids fr then
      Some (if j = rf_id fr then rf_outcome fr else Approved) else am_channel (w_mgr w) j)" for j
    using I(1) r by (auto simp: approval_simps frame_ids_def routing_inv_def)
  have domc: "dom (am_channel ?m) = dom (am_channel (w_mgr w)) \<union> frame_ids fr"
    by (auto simp: dom_def chan)
  have fresh: "frame_ids fr \<inter> dom (am_channel (w_mgr w)) = {}" "frame_ids fr \<inter> pending_ids w = {}"
    using I(1) frm unfolding routing_inv_def by blast+
  have dec: "(rf_id fr, rf_outcome fr, rf_ms fr) \<in> set (w_decisions w)"
    "rf_queued fr \<noteq> [] \<Longrightarrow> opens_window (rf_outcome fr) (rf_ms fr)"
    using I(2) r unfolding answer_inv_def by blast+
  have opened: "opens_window (rf_outcome fr) (rf_ms fr) \<Longrightarrow> window_opened w"
    using dec(1) opens_window_Some unfolding window_opened_def by metis
  have "routing_inv ?w"
    using I(1) frm fresh unfolding routing_inv_def pend held domc
    by (simp add: approval_simps) blast
  moreover have "answer_inv ?w"
    unfolding answer_inv_def pend
  proof (intro conjI allI impI)
    show "justified ?w j oc'" if "am_channel (w_mgr ?w) j = Some oc'" for j oc'
    proof (cases "j \<in> frame_ids fr")
      case True
      show ?thesis
      proof (cases "j = rf_id fr")
        case True
        with that dec(1) \<open>j \<in> frame_ids fr\<close> have "justified w j oc'" by (auto simp: chan justified_def)
        then show ?thesis by (rule justified_mono) simp
      next
        case False
        with True that have "oc' = Approved" "rf_queued fr \<noteq> []" by (auto simp: chan frame_ids_def)
        with dec(2) opened have "justified w j oc'" by (simp add: justified_def)
        then show ?thesis by (rule justified_mono) simp
      qed
    next
      case False
      with that I(2) have "justified w j oc'" by (auto simp: chan answer_inv_def)
      then show ?thesis by (rule justified_mono) simp
    qed
    show "(rf_id f, rf_outcome f, rf_ms f) \<in> set (w_decisions ?w)"
      "rf_queued f \<noteq> [] \<Longrightarrow> opens_window (rf_outcome f) (rf_ms f)" if "w_resolvers ?w s = Some f" for s f
      using I(2) that by (auto simp: answer_inv_def split: if_splits)
    fix j oc' ms' assume d: "(j, oc', ms') \<in> set (w_decisions ?w)"
    then have old: "j \<in> w_issued w" "j \<notin> pending_ids w"
      "am_channel (w_mgr w) j = Some oc' \<or>
        (\<exists>s f. w_resolvers w s = Some f \<and> rf_id f = j \<and> rf_outcome f = oc')"
      using I(2) unfolding answer_inv_def by simp_all blast+
    then show "j \<in> w_issued ?w" "j \<notin> pending_ids w" by simp_all
    show "am_channel (w_mgr ?w) j = Some oc' \<or>
        (\<exists>s f. w_resolvers ?w s = Some f \<and> rf_id f = j \<and> rf_outcome f = oc')"
      using old(3)
    proof (elim disjE exE)
      assume "am_channel (w_mgr w) j = Some oc'"
      with fresh(1) show ?thesis by (auto simp: chan)
    next
      fix s f assume f: "w_resolvers w s = Some f \<and> rf_id f = j \<and> rf_outcome f = oc'"
      show ?thesis
      proof (cases "s = r")
        case True
        with f r have "j = rf_id fr" "oc' = rf_outcome fr" by auto
        then show ?thesis by (simp add: chan frame_ids_def)
      next
        case False
        with f show ?thesis by auto
      qed
    qed
  qed
  moreover have "gates_inv ?w"
    using I(3) fresh(1) unfolding gates_inv_def pend held domc
    by (auto simp: chan)
  moreover have "window_inv b ?w"
    using I(4) opened unfolding window_inv_def by (auto simp: approval_simps window_opened_def)
  ultimately show ?thesis by (simp add: approval_inv_def)
qed

lemma approval_step_inv:
  assumes "approval_inv b w" "approval_step w w'"
  shows "approval_inv b w'"
  using assms(2)
proof (cases rule: approval_step.cases)
  case (tick t)
  with assms(1) show ?thesis by (simp add: inv_tick)
next
  case (gate_bypass g)
  with assms(1) show ?thesis by (simp add: inv_gate_bypass)
next
  case (gate_check g req)
  with assms(1) show ?thesis by (simp add: inv_gate_check)
next
  case (register g req i)
  with assms(1) show ?thesis by (simp add: inv_register)
next
  case (receive g i oc)
  with assms(1) show ?thesis using inv_receive by simp
next
  case (closed g i)
  then show ?thesis using not_closed [OF assms(1)] by blast
next
  case (timeout g i secs)
  with assms(1) show ?thesis by (simp add: approval_inv_def window_inv_def)
next
  case (abandon g i)
  with assms(1) show ?thesis by (simp add: inv_abandon)
next
  case (take r i oc ms m' fr)
  with assms(1) show ?thesis by (simp add: inv_take)
next
  case (finish r fr)
  with assms(1) show ?thesis by (simp add: inv_finish)
next
  case cancel
  with assms(1) show ?thesis by (simp add: inv_cancel)
qed

text \<open>The contract of the invariant, discharged by the model for both ways of starting.\<close>

interpretation approvals: inductive_invariant
  "approval_init restored" approval_step "approval_inv (restored \<noteq> None)"
  for restored
  by unfold_locales (rule approval_init_inv, assumption, rule approval_step_inv)

section \<open>What the approval gate guarantees\<close>

lemmas reachable_approval = approvals.reachable_inv

lemma done_answered:
  assumes "approval_inv b w" "w_gates w g = Some (GateDone (Some i) oc)"
  shows "am_channel (w_mgr w) i = Some oc"
  using assms unfolding approval_inv_def gates_inv_def by blast

lemma done_justified:
  assumes "approval_inv b w" "w_gates w g = Some (GateDone (Some i) oc)"
  shows "justified w i oc"
  using done_answered [OF assms] assms(1) unfolding approval_inv_def answer_inv_def by blast

definition sample_request :: approval_request where
  "sample_request = \<lparr>ar_tool = ''exec'', ar_command = ''rm -r x'', ar_reasons = [], ar_session_id = None\<rparr>"

lemma reach_step:
  "reachable_from init approval_step s \<Longrightarrow> approval_step s t \<Longrightarrow> t = u \<Longrightarrow>
   reachable_from init approval_step u"
  by (auto intro: next_state)

text \<open>A complete exchange: one command is gated, the user answers, the gate returns.\<close>

lemma answered_exchange:
  "\<exists>w v. reachable_from (approval_init None) approval_step w \<and> approval_step w v \<and>
     w_gates w 0 = Some (GateWaiting ''a'') \<and>
     w_decisions v = [(''a'', oc, ms)] \<and> w_gates v 0 = Some (GateDone (Some ''a'') oc)"
proof -
  let ?A = "reachable_from (approval_init None) approval_step"
  let ?m0 = "with_auto_approve_until None 0"
  let ?w0 = "\<lparr>w_mgr = ?m0, w_gates = Map.empty, w_resolvers = Map.empty, w_now = 0,
     w_decisions = [], w_issued = {}\<rparr>"
  let ?m1 = "gate_register ?m0 sample_request ''a'' 0"
  let ?fr = "\<lparr>rf_id = ''a'', rf_outcome = oc, rf_ms = ms, rf_queued = []\<rparr>"
  let ?m2 = "resolve_finish (?m1\<lparr>am_pending := []\<rparr>) ?fr 0"
  let ?w1 = "?w0\<lparr>w_gates := [0 \<mapsto> GateChecked sample_request]\<rparr>"
  let ?w3 = "?w0\<lparr>w_mgr := ?m1, w_gates := [0 \<mapsto> GateWaiting ''a''], w_issued := {''a''}\<rparr>"
  let ?w4 = "?w3\<lparr>w_mgr := ?m1\<lparr>am_pending := []\<rparr>, w_resolvers := [0 \<mapsto> ?fr], w_decisions := [(''a'', oc, ms)]\<rparr>"
  let ?w5 = "?w3\<lparr>w_mgr := ?m2, w_decisions := [(''a'', oc, ms)]\<rparr>"
  note defs = with_auto_approve_until_def filter_future_def auto_approve_active_def active_deadline_def
  have r: "?A ?w0" by (rule start) (auto simp: approval_init_def)
  have off: "\<not> auto_approve_active ?m0 0" by (simp add: defs)
  have r: "?A ?w1" by (rule reach_step [OF r gate_check [of _ 0 sample_request]]) (simp_all add: off)
  have r: "?A ?w3" by (rule reach_step [OF r register [of _ 0 sample_request "''a''"]]) simp_all
  have t: "resolve_take ?m1 ''a'' oc ms = Some (?m1\<lparr>am_pending := []\<rparr>, ?fr)"
    by (simp add: resolve_take_def gate_register_def emit_def Let_def defs remove_pending_def)
  have r: "?A ?w4"
    by (rule reach_step [OF r take [of _ 0 "''a''" oc ms "?m1\<lparr>am_pending := []\<rparr>" ?fr]]) (simp_all add: t)
  have r: "?A ?w5" by (rule reach_step [OF r finish [of _ 0 ?fr]]) simp_all
  have "approval_step ?w5 (?w5\<lparr>w_mgr := fst (gate_received (w_mgr ?w5) ''a'' (Some oc)),
      w_gates := (w_gates ?w5)(0 \<mapsto> GateDone (Some ''a'') (snd (gate_received (w_mgr ?w5) ''a'' (Some oc))))\<rparr>)"
    (is "approval_step _ ?w6")
    by (rule receive) (simp_all add: approval_simps)
  with r show ?thesis
    by (intro exI [of _ ?w5] exI [of _ ?w6] conjI) (simp_all add: gate_received_def)
qed

text \<open>C7: A gated command gets through only on the user's word: in every interleaving, a gate
  that returned \<open>Approved\<close> was either answered by a decision of the user for that very request,
  or the user opened an auto-approve window with some approval (or one was restored at start).\<close>

theorem approval_needs_user:
  assumes "reachable_from (approval_init restored) approval_step w"
    and "w_gates w g = Some (GateDone rid Approved)"
  shows "(\<exists>i ms. rid = Some i \<and> (i, Approved, ms) \<in> set (w_decisions w)) \<or>
    (\<exists>i ms. (i, Approved, Some ms) \<in> set (w_decisions w) \<and> 0 < ms) \<or> (restored \<noteq> None \<and> rid = None)"
proof (cases rid)
  case None
  then show ?thesis
    using reachable_approval [OF assms(1)] assms(2)
    unfolding approval_inv_def window_inv_def window_opened_def by blast
next
  case (Some i)
  then show ?thesis
    using done_justified [OF reachable_approval [OF assms(1)]] assms(2)
    by (auto simp: justified_def window_opened_def)
qed

theorem approval_needs_user_witness:
  "\<exists>w. reachable_from (approval_init None) approval_step w \<and>
     w_gates w 0 = Some (GateDone (Some ''a'') Approved) \<and> (''a'', Approved, None) \<in> set (w_decisions w)"
proof -
  obtain u w where "reachable_from (approval_init None) approval_step u" "approval_step u w"
    and w: "w_decisions w = [(''a'', Approved, None)]" "w_gates w 0 = Some (GateDone (Some ''a'') Approved)"
    using answered_exchange [of Approved None] by blast
  then have r: "reachable_from (approval_init None) approval_step w" by (blast intro: reach_step)
  from approval_needs_user [OF r w(2)] w r show ?thesis by auto
qed

text \<open>Supporting result: A denial is final: once the user has denied a request, no interleaving (a concurrent
  approval, a window opening) lets that request through, and a request whose gate has been told
  something else was never denied.\<close>

theorem denial_is_final:
  assumes "reachable_from (approval_init restored) approval_step w"
    and "(i, Denied reason, ms) \<in> set (w_decisions w)"
    and "w_gates w g = Some (GateDone (Some i) oc)"
  shows "oc = Denied reason"
proof -
  note inv = reachable_approval [OF assms(1)]
  have c: "am_channel (w_mgr w) i = Some oc" using done_answered [OF inv assms(3)] .
  have "am_channel (w_mgr w) i = Some (Denied reason) \<or>
      (\<exists>r fr. w_resolvers w r = Some fr \<and> rf_id fr = i \<and> rf_outcome fr = Denied reason)"
    using inv assms(2) unfolding approval_inv_def answer_inv_def by blast
  moreover have "\<nexists>r fr. w_resolvers w r = Some fr \<and> rf_id fr = i"
    using inv c unfolding approval_inv_def routing_inv_def held_ids_def frame_ids_def by fastforce
  ultimately show ?thesis using c by auto
qed

theorem denial_is_final_witness:
  "\<exists>w oc. reachable_from (approval_init None) approval_step w \<and>
     w_decisions w = [(''a'', Denied ''no'', None)] \<and>
     w_gates w 0 = Some (GateDone (Some ''a'') oc) \<and> oc = Denied ''no''"
proof -
  obtain u w where "reachable_from (approval_init None) approval_step u" "approval_step u w"
    and w: "w_decisions w = [(''a'', Denied ''no'', None)]"
      "w_gates w 0 = Some (GateDone (Some ''a'') (Denied ''no''))"
    using answered_exchange [of "Denied ''no''" None] by blast
  then have r: "reachable_from (approval_init None) approval_step w" by (blast intro: reach_step)
  have "(''a'', Denied ''no'', None) \<in> set (w_decisions w)" using w(1) by simp
  from denial_is_final [OF r this w(2)] r w show ?thesis by blast
qed

text \<open>Supporting result: No request is lost: the id of a waiting gate is pending (so the user can still
  resolve it), or in the hands of a resolver that is about to answer it, or answered.\<close>

theorem waiting_request_routed:
  assumes "reachable_from (approval_init restored) approval_step w"
    and "w_gates w g = Some (GateWaiting i)"
  shows "(\<exists>e. (i, e) \<in> set (am_pending (w_mgr w))) \<or>
    (\<exists>r fr. w_resolvers w r = Some fr \<and> (i = rf_id fr \<or> i \<in> set (rf_queued fr))) \<or>
    (\<exists>oc. am_channel (w_mgr w) i = Some oc)"
proof -
  have "i \<in> pending_ids w \<union> held_ids w \<union> dom (am_channel (w_mgr w))"
    using reachable_approval [OF assms(1)] assms(2) unfolding approval_inv_def gates_inv_def by blast
  then show ?thesis by (auto simp: pending_ids_def held_ids_def frame_ids_def)
qed

theorem waiting_request_routed_witness:
  "\<exists>w. reachable_from (approval_init None) approval_step w \<and> w_gates w 0 = Some (GateWaiting ''a'') \<and>
    ((\<exists>e. (''a'', e) \<in> set (am_pending (w_mgr w))) \<or>
     (\<exists>r fr. w_resolvers w r = Some fr \<and> (''a'' = rf_id fr \<or> ''a'' \<in> set (rf_queued fr))) \<or>
     (\<exists>oc. am_channel (w_mgr w) ''a'' = Some oc))"
proof -
  obtain w where w: "reachable_from (approval_init None) approval_step w" "w_gates w 0 = Some (GateWaiting ''a'')"
    using answered_exchange by blast
  from waiting_request_routed [OF w] w show ?thesis by blast
qed

text \<open>Supporting result: A decision answers exactly what it should: after an uninterrupted \<open>resolve\<close> of a
  pending request its channel holds the decision; with an approval that opens a window every other
  pending request has been answered \<open>Approved\<close>, nothing is left pending and the window ends at
  now plus the duration, saturating; otherwise the other requests stay pending, unanswered and the
  window is unchanged.  Answers sent earlier to other requests never change.\<close>

theorem resolve_answers:
  assumes "map_of (am_pending m) i = Some e"
    and "resolve m i oc ms now = (m', found)"
  shows "found \<and>
    set (map fst (am_pending m')) =
      (if opens_window oc ms then {} else set (map fst (am_pending m)) - {i}) \<and>
    (\<forall>j. am_channel m' j =
      (if j = i then Some oc
       else if opens_window oc ms \<and> j \<in> set (map fst (am_pending m)) then Some Approved
       else am_channel m j)) \<and>
    am_until m' = (if opens_window oc ms then Some (saturating_add_i64 now (the ms)) else am_until m)"
proof -
  obtain m1 fr where t: "resolve_take m i oc ms = Some (m1, fr)"
    using assms(1) by (cases "opens_window oc ms") (auto simp: resolve_take_def Let_def)
  note T = resolve_take_Some [OF t]
  have r: "m' = resolve_finish m1 fr now" "found" using assms(2) by (simp_all add: resolve_def t)
  have ms: "opens_window oc ms \<Longrightarrow> \<exists>k. ms = Some k" by (auto simp: opens_window_def split: option.splits)
  show ?thesis
    unfolding r(1) using T r(2) ms
    by (auto simp: approval_simps simp del: set_map list.set_map)
qed

theorem resolve_answers_witness:
  "\<exists>m' found. resolve ((gate_register (gate_register (with_auto_approve_until None 0)
      \<lparr>ar_tool = ''exec'', ar_command = ''rm -r x'', ar_reasons = [], ar_session_id = None\<rparr> ''a'' 1)
      \<lparr>ar_tool = ''exec'', ar_command = ''reboot'', ar_reasons = [], ar_session_id = None\<rparr> ''b'' 2))
      ''a'' Approved (Some 60000) 3 = (m', found) \<and> found \<and>
    am_channel m' ''b'' = Some Approved \<and> am_pending m' = []"
proof -
  let ?m = "gate_register (gate_register (with_auto_approve_until None 0)
      \<lparr>ar_tool = ''exec'', ar_command = ''rm -r x'', ar_reasons = [], ar_session_id = None\<rparr> ''a'' 1)
      \<lparr>ar_tool = ''exec'', ar_command = ''reboot'', ar_reasons = [], ar_session_id = None\<rparr> ''b'' 2"
  obtain m' f where r: "resolve ?m ''a'' Approved (Some 60000) 3 = (m', f)" by fastforce
  have "\<exists>e. map_of (am_pending ?m) ''a'' = Some e"
    by (simp add: gate_register_def emit_def Let_def with_auto_approve_until_def remove_pending_def)
  then obtain e where e: "map_of (am_pending ?m) ''a'' = Some e" by blast
  have "''b'' \<in> set (map fst (am_pending ?m))" "opens_window Approved (Some 60000)"
    by (simp_all add: gate_register_def emit_def Let_def with_auto_approve_until_def opens_window_def)
  then show ?thesis using resolve_answers [OF e r] r by auto
qed

text \<open>Supporting result: The snapshot sent to the user does not depend on the iteration order of the
  \<open>HashMap\<close>: two enumerations of the same pending requests, whose (timestamp, sequence) stamps are
  distinct, give the same status.\<close>

theorem status_order_independent:
  assumes "mset (am_pending m) = mset (am_pending m')" "am_until m = am_until m'"
    and "distinct (map (\<lambda>(i, e). (re_timestamp e, re_sequence e)) (am_pending m))"
  shows "status m now = status m' now"
proof -
  let ?k = "\<lambda>e. (re_timestamp e, re_sequence e)"
  have "mset (map snd (am_pending m)) = mset (map snd (am_pending m'))"
    using assms(1) by (metis mset_map)
  moreover have inj: "inj_on ?k (set (map snd (am_pending m)))"
    using assms(3) by (auto simp: distinct_map inj_on_def split: prod.splits) 
  ultimately have "sort_key ?k (map snd (am_pending m)) = sort_key ?k (map snd (am_pending m'))"
    by (intro sort_key_inj_key_eq) auto
  then show ?thesis by (simp add: status_def active_deadline_def assms(2))
qed

theorem status_order_independent_witness:
  "\<exists>m m'. am_pending m \<noteq> am_pending m' \<and> status m 5 = status m' 5 \<and> length (as_pending (status m 5)) = 2"
proof -
  let ?m = "gate_register (gate_register (with_auto_approve_until None 0) sample_request ''a'' 1) sample_request ''b'' 1"
  let ?m' = "?m\<lparr>am_pending := rev (am_pending ?m)\<rparr>"
  have "status ?m 5 = status ?m' 5"
    by (rule status_order_independent)
       (simp_all add: gate_register_def emit_def Let_def with_auto_approve_until_def remove_pending_def)
  then show ?thesis
    by (intro exI [of _ ?m] exI [of _ ?m'] conjI)
       (simp_all add: gate_register_def emit_def Let_def with_auto_approve_until_def remove_pending_def
          status_def sample_request_def)
qed

section \<open>The window and the queue can cross\<close>

text \<open>Supporting result: The comment in \<open>resolve\<close> says that opening a window releases the queued requests so that
  the user is not asked about work inside the window.  The window check of \<open>gate\<close> and its
  insertion into the map are separate critical sections, so this can fail: there is an interleaving
  after which the window is active, no resolver is at work, and a request is still pending.\<close>

theorem pending_inside_window:
  "\<exists>w. reachable_from (approval_init None) approval_step w \<and>
     auto_approve_active (w_mgr w) (w_now w) \<and> w_resolvers w = Map.empty \<and>
     (\<exists>g i. w_gates w g = Some (GateWaiting i) \<and> i \<in> fst ` set (am_pending (w_mgr w)))"
proof -
  let ?A = "reachable_from (approval_init None) approval_step"
  let ?m0 = "with_auto_approve_until None 0"
  let ?w0 = "\<lparr>w_mgr = ?m0, w_gates = Map.empty, w_resolvers = Map.empty, w_now = 0,
     w_decisions = [], w_issued = {}\<rparr>"
  let ?g1 = "[0::nat \<mapsto> GateChecked sample_request, 1 \<mapsto> GateChecked sample_request]"
  let ?m1 = "gate_register ?m0 sample_request ''a'' 0"
  let ?fr = "\<lparr>rf_id = ''a'', rf_outcome = Approved, rf_ms = Some 60000, rf_queued = []\<rparr>"
  let ?m2 = "resolve_finish (?m1\<lparr>am_pending := []\<rparr>) ?fr 0"
  let ?d = "[(''a'', Approved, Some 60000)]"
  note defs = with_auto_approve_until_def filter_future_def auto_approve_active_def active_deadline_def
  let ?w1 = "?w0\<lparr>w_gates := [0 \<mapsto> GateChecked sample_request]\<rparr>"
  let ?w2 = "?w0\<lparr>w_gates := ?g1\<rparr>"
  let ?w3 = "?w0\<lparr>w_mgr := ?m1, w_gates := ?g1(0 \<mapsto> GateWaiting ''a''), w_issued := {''a''}\<rparr>"
  let ?w4 = "?w3\<lparr>w_mgr := ?m1\<lparr>am_pending := []\<rparr>, w_resolvers := [0 \<mapsto> ?fr], w_decisions := ?d\<rparr>"
  let ?w5 = "?w3\<lparr>w_mgr := ?m2, w_decisions := ?d\<rparr>"
  let ?m3 = "gate_register ?m2 sample_request ''b'' 0"
  let ?w6 = "?w5\<lparr>w_mgr := ?m3, w_gates := ?g1(0 \<mapsto> GateWaiting ''a'', 1 \<mapsto> GateWaiting ''b''),
     w_issued := {''b'', ''a''}\<rparr>"
  have r: "?A ?w0" by (rule start) (auto simp: approval_init_def)
  have off: "\<not> auto_approve_active ?m0 0" by (simp add: defs)
  have r: "?A ?w1" by (rule reach_step [OF r gate_check [of _ 0 sample_request]]) (simp_all add: off)
  have r: "?A ?w2" by (rule reach_step [OF r gate_check [of _ 1 sample_request]]) (simp_all add: off)
  have r: "?A ?w3" by (rule reach_step [OF r register [of _ 0 sample_request "''a''"]]) simp_all
  have t: "resolve_take ?m1 ''a'' Approved (Some 60000) = Some (?m1\<lparr>am_pending := []\<rparr>, ?fr)"
    by (simp add: resolve_take_def gate_register_def emit_def Let_def defs opens_window_def remove_pending_def)
  have r: "?A ?w4"
    by (rule reach_step [OF r take [of _ 0 "''a''" Approved "Some 60000" "?m1\<lparr>am_pending := []\<rparr>" ?fr]])
       (simp_all add: t)
  have r: "?A ?w5"
    by (rule reach_step [OF r finish [of _ 0 ?fr]]) simp_all
  have "?A ?w6" by (rule reach_step [OF r register [of _ 1 sample_request "''b''"]]) simp_all
  moreover have "auto_approve_active ?m3 0"
    by (simp add: auto_approve_active_def active_deadline_def filter_future_def approval_simps
        opens_window_def saturating_add_i64_def i64_max_def i64_min_def)
  moreover have "''b'' \<in> fst ` set (am_pending ?m3)"
    by (simp add: approval_simps flip: set_map)
  ultimately show ?thesis by (intro exI [of _ ?w6]) auto
qed

end
