(* ===== verification/Gateway.thy ===== *)
theory Gateway
  imports Input_Tracker Approval
begin

text \<open>
  The agent gateway, \<^verbatim>\<open>src-tauri/src/mcp/server.rs\<close>: authorisation of a
  request, the handlers that write to a shared terminal (\<open>tool_session_send_input\<close>) or run a command
  beside it (\<open>tool_exec\<close>), and the reading and resizing handlers.  A handler is a function of its
  arguments, of the answers of the outside world during the call (\<open>gateway_env\<close>: the session lookup,
  the approval outcomes, the database and the SSH channel) and of the state: the input tracker and the
  list of effects so far, in order.  \<open>ge_config\<close> is what \<open>load_guard_config\<close> returned for the call;
  an \<open>Activity\<close> is a row recorded in the database (and sent to the emitter, when there is one), a
  \<open>TerminalInput\<close> an event handed to the terminal emitter.  Ids and timestamps of events are left out.
  The lock a handler holds on its session makes the calls for one session sequential.

  The lemmas describe a call by what it adds to the effects (\<open>send_to_session_cases\<close>); the
  invariant \<open>gateway_inv\<close> of a sequence of calls ties the bytes written to the terminal to the line the
  tracker holds and to the approvals given, through the line editor of \<open>Input_Tracker\<close>.
\<close>

section \<open>Authorisation\<close>

definition bearer_authorized :: "string \<Rightarrow> string option \<Rightarrow> bool" where
  "bearer_authorized expected authorization =
     (case Option.bind authorization (strip_prefix ''Bearer '') of
        Some token \<Rightarrow> token = expected
      | None \<Rightarrow> False)"

record http_response =
  hr_status :: nat
  hr_body :: string
  hr_headers :: "(string \<times> string) list"

definition require_bearer_token ::
    "string \<Rightarrow> ('r \<Rightarrow> http_response) \<Rightarrow> string option \<Rightarrow> 'r \<Rightarrow> http_response" where
  "require_bearer_token expected next_handler authorization request =
     (if \<not> bearer_authorized expected authorization
      then \<lparr>hr_status = 401, hr_body = ''Unauthorized'',
            hr_headers = [(''cache-control'', ''no-store''), (''www-authenticate'', ''Bearer'')]\<rparr>
      else (let response = next_handler request in
            response\<lparr>hr_headers := (''cache-control'', ''no-store'') #
              filter (\<lambda>h. fst h \<noteq> ''cache-control'') (hr_headers response)\<rparr>))"

section \<open>Effects and environment\<close>

datatype activity_status = Started | Succeeded | Failed

datatype terminal_input_kind = KindInput | KindTyping | KindExec

datatype effect =
    Asked approval_request approval_outcome
  | Activity string string activity_status string
  | TerminalInput string string terminal_input_kind
  | Wrote string string
  | Executed string string

record gateway_env =
  ge_config :: guard_config
  ge_resolve :: "string \<Rightarrow> string + string"
  ge_approvals :: "(nat \<Rightarrow> approval_outcome) option"
  ge_record_activity :: "nat \<Rightarrow> string + unit"
  ge_write :: "string + unit"
  ge_exec :: "string + string"
  ge_replay :: "string list"
  ge_from_utf8_lossy :: "string \<Rightarrow> string"
  ge_resize :: "string + unit"

record gateway_state =
  gs_tracker :: input_tracker
  gs_effects :: "effect list"

definition perform :: "effect \<Rightarrow> gateway_state \<Rightarrow> gateway_state" where
  "perform e st = st\<lparr>gs_effects := gs_effects st @ [e]\<rparr>"

text \<open>The configuration is read from the settings table; a failing read is an absent setting.\<close>

definition load_guard_config :: "(string \<Rightarrow> guard_config option) \<Rightarrow> string + string option \<Rightarrow> guard_config" where
  "load_guard_config decode setting =
     from_stored_json decode (case setting of Inr json \<Rightarrow> json | Inl _ \<Rightarrow> None)"

text \<open>\<open>n\<close> numbers the questions asked during one call.\<close>

definition require_approval ::
    "gateway_env \<Rightarrow> nat \<Rightarrow> string \<Rightarrow> string option \<Rightarrow> string \<Rightarrow> string list \<Rightarrow> gateway_state \<Rightarrow>
     gateway_state \<times> (string + unit)" where
  "require_approval env n tool session_id command reasons st =
     (case ge_approvals env of
        None \<Rightarrow> (st, Inl ''Command requires user approval, but no approval UI is available.'')
      | Some gate \<Rightarrow>
          (let st' = perform (Asked \<lparr>ar_tool = tool, ar_command = command, ar_reasons = reasons,
                                     ar_session_id = session_id\<rparr> (gate n)) st
           in case gate n of
                Approved \<Rightarrow> (st', Inr ())
              | Denied reason \<Rightarrow>
                  (st', Inl (''Command requires user approval and was not granted ('' @ reason @ '').''))))"

definition emit_activity ::
    "gateway_env \<Rightarrow> nat \<Rightarrow> string \<Rightarrow> string \<Rightarrow> activity_status \<Rightarrow> string \<Rightarrow> gateway_state \<Rightarrow>
     gateway_state \<times> (string + unit)" where
  "emit_activity env n tool summary progress session_id st =
     (case ge_record_activity env n of
        Inl error \<Rightarrow> (st, Inl (''Agent activity could not be recorded: '' @ error))
      | Inr _ \<Rightarrow> (perform (Activity tool summary progress session_id) st, Inr ()))"

section \<open>Sending input to a session\<close>

record send_args =
  sa_session_id :: "string option"
  sa_data :: "string option"
  sa_keys :: "string option list option"
  sa_append_enter :: "bool option"
  sa_sensitive :: "bool option"

definition named_key_bytes :: "string \<Rightarrow> string + string" where
  "named_key_bytes key =
     (let k = to_ascii_lowercase key in
      if k = ''enter'' then Inr [CHR 0x0D]
      else if k = ''tab'' then Inr [CHR 0x09]
      else if k = ''escape'' \<or> k = ''esc'' then Inr [CHR 0x1B]
      else if k = ''backspace'' then Inr [CHR 0x7F]
      else if k = ''ctrl-c'' then Inr [CHR 0x03]
      else if k = ''ctrl-d'' then Inr [CHR 0x04]
      else if k = ''ctrl-z'' then Inr [CHR 0x1A]
      else if k = ''up'' then Inr (CHR 0x1B # ''[A'')
      else if k = ''down'' then Inr (CHR 0x1B # ''[B'')
      else if k = ''right'' then Inr (CHR 0x1B # ''[C'')
      else if k = ''left'' then Inr (CHR 0x1B # ''[D'')
      else Inl (''Unsupported named key: '' @ key))"

definition parse_keys :: "string option list option \<Rightarrow> string + string list" where
  "parse_keys keys =
     (case keys of
        None \<Rightarrow> Inr []
      | Some ks \<Rightarrow> traverse (\<lambda>k. ok_or k ''keys must contain strings'') ks)"

definition input_bytes :: "string \<Rightarrow> string list \<Rightarrow> bool \<Rightarrow> string + string" where
  "input_bytes data keys append_enter =
     rbind (traverse named_key_bytes keys) (\<lambda>bs.
       Inr (data @ concat bs @ (if append_enter then [CHR 0x0D] else [])))"

definition hidden_text_reason :: string where
  "hidden_text_reason = ''Shell history, completion, or cursor editing hides the final command text''"

definition command_decision :: "guard_config \<Rightarrow> tracked_command \<Rightarrow> risk_decision" where
  "command_decision cfg c =
     (let decision = classify_command (tc_command c) cfg in
      if tc_verifiable c then decision
      else decision\<lparr>rd_requires_approval := True, rd_reasons := rd_reasons decision @ [hidden_text_reason]\<rparr>)"

definition redacted :: "bool \<Rightarrow> string \<Rightarrow> string" where
  "redacted redact text = (if redact then ''[sensitive input omitted]'' else text)"

fun gate_commands ::
    "gateway_env \<Rightarrow> string \<Rightarrow> bool \<Rightarrow> nat \<Rightarrow> tracked_command list \<Rightarrow> gateway_state \<Rightarrow>
     gateway_state \<times> (string + unit)" where
  "gate_commands env session_id redact n [] st = (st, Inr ())"
| "gate_commands env session_id redact n (c # cs) st =
     (if gc_enabled (ge_config env) \<and> rd_requires_approval (command_decision (ge_config env) c)
      then (case require_approval env n ''session_send_input'' (Some session_id)
                   (redacted redact (tc_command c)) (rd_reasons (command_decision (ge_config env) c)) st of
              (st', Inl error) \<Rightarrow> (st', Inl error)
            | (st', Inr _) \<Rightarrow> gate_commands env session_id redact (n + 1) cs st')
      else gate_commands env session_id redact n cs st)"

fun announce_commands ::
    "gateway_env \<Rightarrow> string \<Rightarrow> bool \<Rightarrow> nat \<Rightarrow> tracked_command list \<Rightarrow> gateway_state \<Rightarrow>
     gateway_state \<times> (string + string list)" where
  "announce_commands env session_id redact n [] st = (st, Inr [])"
| "announce_commands env session_id redact n (c # cs) st =
     (let summary = redacted redact (tc_command c) in
      case emit_activity env n ''mcp.input'' summary Started session_id st of
        (st', Inl error) \<Rightarrow> (st', Inl error)
      | (st', Inr _) \<Rightarrow>
          (case announce_commands env session_id redact (n + 1) cs st' of
             (st'', Inl error) \<Rightarrow> (st'', Inl error)
           | (st'', Inr summaries) \<Rightarrow> (st'', Inr (summary # summaries))))"

text \<open>After the write; a failing record is only logged.\<close>

fun complete_commands ::
    "gateway_env \<Rightarrow> string \<Rightarrow> bool \<Rightarrow> nat \<Rightarrow> string list \<Rightarrow> gateway_state \<Rightarrow> gateway_state" where
  "complete_commands env session_id written n [] st = st"
| "complete_commands env session_id written n (summary # rest) st =
     (let st1 = (if written then perform (TerminalInput session_id summary KindInput) st else st);
          st2 = fst (emit_activity env n ''mcp.input'' summary (if written then Succeeded else Failed) session_id st1)
      in complete_commands env session_id written (n + 1) rest st2)"

definition show_typing :: "string \<Rightarrow> bool \<Rightarrow> string \<Rightarrow> gateway_state \<Rightarrow> gateway_state" where
  "show_typing session_id redact data st =
     (let typing_text = trim_end_matches [CHR 0x0D, CHR 0x0A] data in
      if \<not> redact \<and> typing_text \<noteq> [] \<and>
         list_all (\<lambda>ch. \<not> is_control ch \<or> ch = [CHR 0x0D] \<or> ch = [CHR 0x0A]) (utf8_chars typing_text)
      then perform (TerminalInput session_id typing_text KindTyping) st else st)"

text \<open>The handler once the arguments are decoded and the session is found.\<close>

definition send_to_session ::
    "gateway_env \<Rightarrow> string \<Rightarrow> string \<Rightarrow> string \<Rightarrow> string list \<Rightarrow> bool \<Rightarrow> bool \<Rightarrow> string \<Rightarrow> gateway_state \<Rightarrow>
     gateway_state \<times> (string + string)" where
  "send_to_session env reference session_id data keys append_enter sensitive bytes st =
     (case checkpoint_and_observe_sensitive (gs_tracker st) session_id data keys append_enter sensitive of
        (tracker, cp, commands, redact) \<Rightarrow>
          (let rollback = (\<lambda>s. s\<lparr>gs_tracker := restore (gs_tracker s) cp\<rparr>) in
           case gate_commands env session_id redact 0 commands (st\<lparr>gs_tracker := tracker\<rparr>) of
             (st1, Inl error) \<Rightarrow> (rollback st1, Inl error)
           | (st1, Inr _) \<Rightarrow>
               (case announce_commands env session_id redact 0 commands st1 of
                  (st2, Inl error) \<Rightarrow> (rollback st2, Inl error)
                | (st2, Inr summaries) \<Rightarrow>
                    (let st3 = show_typing session_id redact data st2 in
                     case ge_write env of
                       Inr _ \<Rightarrow>
                         (complete_commands env session_id True (length commands) summaries
                            (perform (Wrote session_id bytes) st3),
                          Inr (''Sent '' @ show_nat (length bytes) @ '' byte(s) to session '' @ [CHR 0x27] @
                               reference @ [CHR 0x27]))
                     | Inl error \<Rightarrow>
                         (rollback (complete_commands env session_id False (length commands) summaries st3),
                          Inl (''Failed to send terminal input: '' @ error))))))"

definition tool_session_send_input ::
    "gateway_env \<Rightarrow> send_args \<Rightarrow> gateway_state \<Rightarrow> gateway_state \<times> (string + string)" where
  "tool_session_send_input env args st =
     (let data = (case sa_data args of Some d \<Rightarrow> d | None \<Rightarrow> []);
          append_enter = (sa_append_enter args = Some True);
          prepared =
            rbind (ok_or (sa_session_id args) ''Missing required field: session_id'') (\<lambda>reference.
            rbind (parse_keys (sa_keys args)) (\<lambda>keys.
            rbind (input_bytes data keys append_enter) (\<lambda>bytes.
            rbind (ensure (bytes \<noteq> []) ''Provide data, keys, or append_enter=true'') (\<lambda>_.
            rbind (ge_resolve env reference) (\<lambda>session_id.
            Inr (reference, session_id, keys, bytes))))))
      in case prepared of
           Inl error \<Rightarrow> (st, Inl error)
         | Inr (reference, session_id, keys, bytes) \<Rightarrow>
             send_to_session env reference session_id data keys append_enter (sa_sensitive args = Some True) bytes st)"

section \<open>Running a command beside the terminal\<close>

record exec_args =
  ea_session_id :: "string option"
  ea_command :: "string option"
  ea_timeout_ms :: "nat option"

text \<open>\<open>ge_exec\<close> is the outcome of the SSH channel; \<open>timed_out\<close> tells whether the timeout
  of the arguments (30 seconds by default) expired first.\<close>

definition tool_exec ::
    "gateway_env \<Rightarrow> (nat \<Rightarrow> bool) \<Rightarrow> exec_args \<Rightarrow> gateway_state \<Rightarrow> gateway_state \<times> (string + string)" where
  "tool_exec env timed_out args st =
     (case rbind (ok_or (ea_session_id args) ''Missing required field: session_id'') (\<lambda>reference.
           rbind (ok_or (ea_command args) ''Missing required field: command'') (\<lambda>command.
           rbind (ge_resolve env reference) (\<lambda>session_id. Inr (session_id, command)))) of
        Inl error \<Rightarrow> (st, Inl error)
      | Inr (session_id, command) \<Rightarrow>
          (let timeout_ms = (case ea_timeout_ms args of Some t \<Rightarrow> t | None \<Rightarrow> 30000);
               cfg = ge_config env;
               decision = classify_command command cfg in
           case (if gc_enabled cfg \<and> gc_require_for_exec cfg \<and> rd_requires_approval decision
                 then require_approval env 0 ''exec'' (Some session_id) command (rd_reasons decision) st
                 else (st, Inr ())) of
             (st1, Inl error) \<Rightarrow> (st1, Inl error)
           | (st1, Inr _) \<Rightarrow>
               (let st2 = perform (Executed session_id command)
                            (perform (TerminalInput session_id command KindExec) st1) in
                if timed_out timeout_ms
                then (st2, Inl (''Command timed out after '' @ show_nat timeout_ms @ ''ms''))
                else (case ge_exec env of
                        Inl error \<Rightarrow> (st2, Inl (''Command execution failed: '' @ error))
                      | Inr output \<Rightarrow> (st2, Inr output)))))"

section \<open>Reading and resizing\<close>

definition tool_session_read :: "gateway_env \<Rightarrow> string option \<Rightarrow> nat option \<Rightarrow> string + string" where
  "tool_session_read env session_id max_bytes_arg =
     rbind (ok_or session_id ''Missing required field: session_id'') (\<lambda>reference.
     let max_bytes = max 1 (min 65536 (case max_bytes_arg of Some n \<Rightarrow> n | None \<Rightarrow> 65536)) in
     rbind (ge_resolve env reference) (\<lambda>_.
     let output = concat (ge_replay env) in
     Inr (ge_from_utf8_lossy env (drop (length output - max_bytes) output))))"

text \<open>\<open>as u32\<close> keeps the low 32 bits.\<close>

definition tool_session_resize ::
    "gateway_env \<Rightarrow> string option \<Rightarrow> 64 word option \<Rightarrow> 64 word option \<Rightarrow> string + string" where
  "tool_session_resize env session_id cols_arg rows_arg =
     rbind (ok_or session_id ''Missing required field: session_id'') (\<lambda>reference.
     rbind (ok_or cols_arg ''Missing required field: cols'') (\<lambda>c.
     rbind (ok_or rows_arg ''Missing required field: rows'') (\<lambda>r.
     let cols = ucast c :: 32 word; rows = ucast r :: 32 word in
     if cols = 0 \<or> rows = 0 then Inl ''cols and rows must be greater than zero''
     else
       rbind (ge_resolve env reference) (\<lambda>_.
       case ge_resize env of
         Inl error \<Rightarrow> Inl (''Failed to resize terminal: '' @ error)
       | Inr _ \<Rightarrow> Inr (''Resized session '' @ [CHR 0x27] @ reference @ [CHR 0x27] @ '' to '' @
           show_nat (unat cols) @ ''x'' @ show_nat (unat rows))))))"

section \<open>The order of effects\<close>

text \<open>What an effect list says about approvals: the questions that were answered \<open>Approved\<close>, and
  whether anything was written.\<close>

definition approved_texts :: "effect list \<Rightarrow> string set" where
  "approved_texts es = {ar_command r | r. Asked r Approved \<in> set es}"

definition is_write :: "effect \<Rightarrow> bool" where
  "is_write e \<longleftrightarrow> (case e of Wrote _ _ \<Rightarrow> True | Executed _ _ \<Rightarrow> True | _ \<Rightarrow> False)"

lemma perform_simps [simp]:
  "gs_tracker (perform e st) = gs_tracker st" "gs_effects (perform e st) = gs_effects st @ [e]"
  by (simp_all add: perform_def)

lemma require_approval_cases:
  assumes "require_approval env n tool sid cmd reasons st = (st', r)"
  shows "gs_tracker st' = gs_tracker st \<and>
    (\<exists>es. gs_effects st' = gs_effects st @ es \<and> list_all (\<lambda>e. \<not> is_write e) es \<and>
      (r = Inr () \<longrightarrow> es = [Asked \<lparr>ar_tool = tool, ar_command = cmd, ar_reasons = reasons, ar_session_id = sid\<rparr> Approved]))"
  using assms by (auto simp: require_approval_def Let_def is_write_def split: option.splits approval_outcome.splits)

lemma gate_commands_cases:
  assumes "gate_commands env sid redact n cs st = (st', r)"
  shows "gs_tracker st' = gs_tracker st \<and>
    (\<exists>es. gs_effects st' = gs_effects st @ es \<and> list_all (\<lambda>e. \<not> is_write e) es \<and>
      (r = Inr () \<longrightarrow> (\<forall>c \<in> set cs. gc_enabled (ge_config env) \<and> rd_requires_approval (command_decision (ge_config env) c) \<longrightarrow>
         Asked \<lparr>ar_tool = ''session_send_input'', ar_command = redacted redact (tc_command c),
                ar_reasons = rd_reasons (command_decision (ge_config env) c), ar_session_id = Some sid\<rparr> Approved \<in> set es)))"
  using assms
proof (induction cs arbitrary: n st)
  case Nil
  then show ?case by simp
next
  case (Cons c cs)
  show ?case
  proof (cases "gc_enabled (ge_config env) \<and> rd_requires_approval (command_decision (ge_config env) c)")
    case False
    with Cons.prems have "gate_commands env sid redact n cs st = (st', r)" by simp
    from Cons.IH [OF this] False show ?thesis by auto
  next
    case True
    obtain st1 r1 where 1: "require_approval env n ''session_send_input'' (Some sid) (redacted redact (tc_command c))
        (rd_reasons (command_decision (ge_config env) c)) st = (st1, r1)" by fastforce
    from require_approval_cases [OF 1] obtain es1 where e1: "gs_tracker st1 = gs_tracker st"
      "gs_effects st1 = gs_effects st @ es1" "list_all (\<lambda>e. \<not> is_write e) es1"
      "r1 = Inr () \<Longrightarrow> es1 = [Asked \<lparr>ar_tool = ''session_send_input'', ar_command = redacted redact (tc_command c),
         ar_reasons = rd_reasons (command_decision (ge_config env) c), ar_session_id = Some sid\<rparr> Approved]" by blast
    show ?thesis
    proof (cases r1)
      case (Inl e)
      with Cons.prems True 1 e1 show ?thesis by auto
    next
      case (Inr u)
      with Cons.prems True 1 have "gate_commands env sid redact (n + 1) cs st1 = (st', r)" by simp
      from Cons.IH [OF this] obtain es where "gs_tracker st' = gs_tracker st1" "gs_effects st' = gs_effects st1 @ es"
        "list_all (\<lambda>e. \<not> is_write e) es"
        "r = Inr () \<Longrightarrow> \<forall>c \<in> set cs. gc_enabled (ge_config env) \<and> rd_requires_approval (command_decision (ge_config env) c) \<longrightarrow>
         Asked \<lparr>ar_tool = ''session_send_input'', ar_command = redacted redact (tc_command c),
                ar_reasons = rd_reasons (command_decision (ge_config env) c), ar_session_id = Some sid\<rparr> Approved \<in> set es"
        by blast
      with e1 Inr show ?thesis by (intro conjI exI [of _ "es1 @ es"]) auto
    qed
  qed
qed

lemma emit_activity_cases:
  assumes "emit_activity env n tool summary act sid st = (st', r)"
  shows "gs_tracker st' = gs_tracker st \<and>
    (\<exists>es. gs_effects st' = gs_effects st @ es \<and> list_all (\<lambda>e. \<not> is_write e) es)"
  using assms by (auto simp: emit_activity_def is_write_def split: sum.splits)

lemma announce_commands_cases:
  assumes "announce_commands env sid redact n cs st = (st', r)"
  shows "gs_tracker st' = gs_tracker st \<and>
    (\<exists>es. gs_effects st' = gs_effects st @ es \<and> list_all (\<lambda>e. \<not> is_write e) es)"
  using assms
proof (induction cs arbitrary: n st r)
  case Nil
  then show ?case by simp
next
  case (Cons c cs)
  obtain st1 r1 where 1: "emit_activity env n ''mcp.input'' (redacted redact (tc_command c)) Started sid st = (st1, r1)"
    by fastforce
  note e = emit_activity_cases [OF 1]
  show ?case
  proof (cases r1)
    case (Inl x)
    with Cons.prems 1 e show ?thesis by auto
  next
    case (Inr x)
    obtain r2 where "announce_commands env sid redact (n + 1) cs st1 = (st', r2)"
      using Cons.prems 1 Inr by (auto simp: Let_def split: prod.splits sum.splits)
    from Cons.IH [OF this] e show ?thesis by auto
  qed
qed

lemma complete_commands_cases:
  "gs_tracker (complete_commands env sid w n ss st) = gs_tracker st \<and>
    (\<exists>es. gs_effects (complete_commands env sid w n ss st) = gs_effects st @ es \<and> list_all (\<lambda>e. \<not> is_write e) es)"
proof (induction ss arbitrary: n st)
  case Nil
  then show ?case by simp
next
  case (Cons s ss)
  let ?st1 = "if w then perform (TerminalInput sid s KindInput) st else st"
  obtain st2 r2 where 2: "emit_activity env n ''mcp.input'' s (if w then Succeeded else Failed) sid ?st1 = (st2, r2)"
    by fastforce
  from emit_activity_cases [OF 2] obtain es where "gs_tracker st2 = gs_tracker st"
    "gs_effects st2 = gs_effects ?st1 @ es" "list_all (\<lambda>e. \<not> is_write e) es" by (auto split: if_splits)
  moreover from Cons.IH [of "n + 1" st2] obtain es2 where
    "gs_tracker (complete_commands env sid w (n + 1) ss st2) = gs_tracker st2"
    "gs_effects (complete_commands env sid w (n + 1) ss st2) = gs_effects st2 @ es2" "list_all (\<lambda>e. \<not> is_write e) es2"
    by blast
  ultimately show ?case
    using 2 by (cases w) (auto simp: Let_def is_write_def intro!: exI [of _ "TerminalInput sid s KindInput # es @ es2"] exI [of _ "es @ es2"])
qed

lemma show_typing_cases:
  "gs_tracker (show_typing sid redact data st) = gs_tracker st \<and>
    (\<exists>es. gs_effects (show_typing sid redact data st) = gs_effects st @ es \<and> list_all (\<lambda>e. \<not> is_write e) es)"
  by (auto simp: show_typing_def Let_def is_write_def)

text \<open>One call on a found session: either nothing is written and the tracker is what it was, or
  the bytes are written once, after all approvals, and the tracker has observed the input.\<close>

lemma send_to_session_cases:
  assumes "send_to_session env reference sid data keys ae sens bytes st = (st', r)"
    and "checkpoint_and_observe_sensitive (gs_tracker st) sid data keys ae sens = (tracker, cp, cmds, redact)"
  obtains (refused) es e where "r = Inl e" "gs_tracker st' = gs_tracker st"
      "gs_effects st' = gs_effects st @ es" "list_all (\<lambda>e. \<not> is_write e) es"
  | (written) pre post m where "r = Inr m" "gs_tracker st' = tracker"
      "gs_effects st' = gs_effects st @ pre @ [Wrote sid bytes] @ post"
      "list_all (\<lambda>e. \<not> is_write e) pre" "list_all (\<lambda>e. \<not> is_write e) post"
      "\<forall>c \<in> set cmds. gc_enabled (ge_config env) \<and> rd_requires_approval (command_decision (ge_config env) c) \<longrightarrow>
         Asked \<lparr>ar_tool = ''session_send_input'', ar_command = redacted redact (tc_command c),
                ar_reasons = rd_reasons (command_decision (ge_config env) c), ar_session_id = Some sid\<rparr> Approved \<in> set pre"
proof -
  note rb = restore_after_observe [OF assms(2)]
  obtain st1 r1 where 1: "gate_commands env sid redact 0 cmds (st\<lparr>gs_tracker := tracker\<rparr>) = (st1, r1)" by fastforce
  from gate_commands_cases [OF 1] obtain es1 where e1: "gs_tracker st1 = tracker" "gs_effects st1 = gs_effects st @ es1"
    "list_all (\<lambda>e. \<not> is_write e) es1"
    "r1 = Inr () \<Longrightarrow> \<forall>c \<in> set cmds. gc_enabled (ge_config env) \<and> rd_requires_approval (command_decision (ge_config env) c) \<longrightarrow>
         Asked \<lparr>ar_tool = ''session_send_input'', ar_command = redacted redact (tc_command c),
                ar_reasons = rd_reasons (command_decision (ge_config env) c), ar_session_id = Some sid\<rparr> Approved \<in> set es1"
    by auto
  show thesis
  proof (cases r1)
    case (Inl e)
    with assms 1 have "st' = st1\<lparr>gs_tracker := restore (gs_tracker st1) cp\<rparr>" "r = Inl e"
      by (simp_all add: send_to_session_def Let_def)
    then show thesis using e1 rb by (intro refused [of e es1]) simp_all
  next
    case (Inr u)
    obtain st2 r2 where 2: "announce_commands env sid redact 0 cmds st1 = (st2, r2)" by fastforce
    from announce_commands_cases [OF 2] obtain es2 where e2: "gs_tracker st2 = tracker"
      "gs_effects st2 = gs_effects st @ es1 @ es2" "list_all (\<lambda>e. \<not> is_write e) es2" using e1 by auto
    show thesis
    proof (cases r2)
      case (Inl e)
      with assms 1 2 Inr have "st' = st2\<lparr>gs_tracker := restore (gs_tracker st2) cp\<rparr>" "r = Inl e"
        by (simp_all add: send_to_session_def Let_def)
      then show thesis using e1 e2 rb by (intro refused [of e "es1 @ es2"]) simp_all
    next
      case summaries: (Inr summaries)
      let ?st3 = "show_typing sid redact data st2"
      from show_typing_cases [of sid redact data st2] obtain es3 where e3: "gs_tracker ?st3 = tracker"
        "gs_effects ?st3 = gs_effects st @ es1 @ es2 @ es3" "list_all (\<lambda>e. \<not> is_write e) es3" using e2 by auto
      show thesis
      proof (cases "ge_write env")
        case (Inl e)
        let ?st4 = "complete_commands env sid False (length cmds) summaries ?st3"
        from complete_commands_cases [of env sid False "length cmds" summaries ?st3] obtain es4 where
          "gs_tracker ?st4 = tracker" "gs_effects ?st4 = gs_effects st @ es1 @ es2 @ es3 @ es4"
          "list_all (\<lambda>e. \<not> is_write e) es4" using e3 by auto
        moreover from assms 1 2 Inr summaries Inl have "st' = ?st4\<lparr>gs_tracker := restore (gs_tracker ?st4) cp\<rparr>"
          "r = Inl (''Failed to send terminal input: '' @ e)"
          by (simp_all add: send_to_session_def Let_def)
        ultimately show thesis using e1 e2 e3 rb
          by (intro refused [of "''Failed to send terminal input: '' @ e" "es1 @ es2 @ es3 @ es4"]) simp_all
      next
        case sent: (Inr x)
        let ?st4 = "complete_commands env sid True (length cmds) summaries (perform (Wrote sid bytes) ?st3)"
        from complete_commands_cases [of env sid True "length cmds" summaries "perform (Wrote sid bytes) ?st3"]
        obtain es4 where e4: "gs_tracker ?st4 = tracker"
          "gs_effects ?st4 = gs_effects st @ (es1 @ es2 @ es3) @ [Wrote sid bytes] @ es4"
          "list_all (\<lambda>e. \<not> is_write e) es4" using e3 by auto
        from assms 1 2 Inr summaries sent have "st' = ?st4" "\<exists>m. r = Inr m"
          by (auto simp: send_to_session_def Let_def)
        then obtain m where "r = Inr m" "st' = ?st4" by blast
        then show thesis using e1 e2 e3 e4 Inr by (intro written [of m "es1 @ es2 @ es3" es4]) auto
      qed
    qed
  qed
qed


lemma send_input_cases:
  assumes "tool_session_send_input env args st = (st', r)"
  obtains (invalid) e where "r = Inl e" "st' = st"
  | (sent) reference sid keys bytes where "sa_session_id args = Some reference" "ge_resolve env reference = Inr sid"
      "parse_keys (sa_keys args) = Inr keys"
      "input_bytes (case sa_data args of Some d \<Rightarrow> d | None \<Rightarrow> []) keys (sa_append_enter args = Some True) = Inr bytes"
      "bytes \<noteq> []"
      "send_to_session env reference sid (case sa_data args of Some d \<Rightarrow> d | None \<Rightarrow> []) keys
         (sa_append_enter args = Some True) (sa_sensitive args = Some True) bytes st = (st', r)"
proof -
  let ?d = "case sa_data args of Some d \<Rightarrow> d | None \<Rightarrow> []" and ?ae = "sa_append_enter args = Some True"
  let ?prepared = "rbind (ok_or (sa_session_id args) ''Missing required field: session_id'') (\<lambda>reference.
            rbind (parse_keys (sa_keys args)) (\<lambda>keys.
            rbind (input_bytes ?d keys ?ae) (\<lambda>bytes.
            rbind (ensure (bytes \<noteq> []) ''Provide data, keys, or append_enter=true'') (\<lambda>_.
            rbind (ge_resolve env reference) (\<lambda>session_id.
            Inr (reference, session_id, keys, bytes))))))"
  show thesis
  proof (cases ?prepared)
    case (Inl e)
    with assms show thesis by (intro invalid [of e]) (simp_all add: tool_session_send_input_def Let_def)
  next
    case (Inr q)
    obtain reference sid keys bytes where q: "q = (reference, sid, keys, bytes)" by (cases q)
    from Inr q assms have "send_to_session env reference sid ?d keys ?ae (sa_sensitive args = Some True) bytes st = (st', r)"
      by (simp add: tool_session_send_input_def Let_def)
    moreover from Inr q have "sa_session_id args = Some reference" "ge_resolve env reference = Inr sid"
      "parse_keys (sa_keys args) = Inr keys" "input_bytes ?d keys ?ae = Inr bytes" "bytes \<noteq> []"
      by (auto elim!: rbind_InrE)
    ultimately show thesis by (rule sent [rotated -1])
  qed
qed

section \<open>Sequences of calls\<close>

definition send_all :: "(gateway_env \<times> send_args) list \<Rightarrow> gateway_state \<Rightarrow> gateway_state" where
  "send_all calls st = foldl (\<lambda>st (env, args). fst (tool_session_send_input env args st)) st calls"

fun written_to :: "string \<Rightarrow> effect list \<Rightarrow> string" where
  "written_to sid [] = []"
| "written_to sid (Wrote s bytes # es) = (if s = sid then bytes @ written_to sid es else written_to sid es)"
| "written_to sid (_ # es) = written_to sid es"

lemma written_to_append [simp]: "written_to sid (xs @ ys) = written_to sid xs @ written_to sid ys"
  by (induction sid xs rule: written_to.induct) auto

lemma written_to_none: "list_all (\<lambda>e. \<not> is_write e) es \<Longrightarrow> written_to sid es = []"
  by (induction sid es rule: written_to.induct) (auto simp: is_write_def)

text \<open>Calls that send text, with or without a final Enter, to one session under one guard configuration.\<close>

definition text_call :: "string \<Rightarrow> guard_config \<Rightarrow> gateway_env \<times> send_args \<Rightarrow> bool" where
  "text_call sid cfg call \<longleftrightarrow>
     (case call of (env, args) \<Rightarrow>
       (\<forall>reference. sa_session_id args = Some reference \<longrightarrow> ge_resolve env reference \<in> {Inr sid} \<union> range Inl) \<and>
       ge_config env = cfg \<and> sa_keys args = None \<and>
       sa_sensitive args \<noteq> Some True \<and> (\<forall>d. sa_data args = Some d \<longrightarrow> at_boundary d))"

definition current_line :: "input_tracker \<Rightarrow> string \<Rightarrow> tracked_input" where
  "current_line t sid = (case tr_buffers t sid of Some i \<Rightarrow> i | None \<Rightarrow> default_input)"

definition gateway_inv :: "string \<Rightarrow> guard_config \<Rightarrow> gateway_state \<Rightarrow> bool" where
  "gateway_inv sid cfg st \<longleftrightarrow>
     sid \<notin> tr_sensitive (gs_tracker st) \<and> at_boundary (written_to sid (gs_effects st)) \<and>
     fst (observe_line (default_input, []) (written_to sid (gs_effects st)) [] False) = current_line (gs_tracker st) sid \<and>
     (\<forall>c \<in> set (snd (observe_line (default_input, []) (written_to sid (gs_effects st)) [] False)).
        gc_enabled cfg \<and> rd_requires_approval (command_decision cfg c) \<longrightarrow>
        tc_command c \<in> approved_texts (gs_effects st))"

lemma approved_texts_append [simp]: "approved_texts (xs @ ys) = approved_texts xs \<union> approved_texts ys"
  by (auto simp: approved_texts_def)

lemma observe_line_append:
  assumes "at_boundary d" "observe_line (default_input, []) w [] False = (i, E)" "observe_line (i, []) d [] False = (j, F)"
  shows "observe_line (default_input, []) (w @ d) [] False = (j, E @ F)"
  using observe_line_split [OF assms(1), of default_input w "[]" "[]" False] assms(2,3)
  by (simp add: observe_line_def)

definition enter_bytes :: "bool \<Rightarrow> string" where
  "enter_bytes append_enter = (if append_enter then [CHR 0x0D] else [])"

lemma at_boundary_enter: "at_boundary (enter_bytes ae)"
  by (simp add: enter_bytes_def is_cont_def byte_def)

lemma at_boundary_append: "at_boundary d \<Longrightarrow> at_boundary e \<Longrightarrow> at_boundary (d @ e)"
  by (cases d) auto

text \<open>The final Enter of a call is the carriage return it sends.\<close>

lemma observe_line_enter: "observe_line (i, []) d [] ae = observe_line (i, []) (d @ enter_bytes ae) [] False"
proof -
  have "bound_line (finish_command st) = finish_command st" for st
    by (cases st) (simp add: finish_command_def reset_input_def bound_line_def trim_tracked_buffer_def Let_def)
  then have "observe_char st [CHR 0x0D] = finish_command st" for st by (cases st) (simp add: observe_char_def)
  moreover have "utf8_chars [CHR 0x0D] = [[CHR 0x0D]]" by (simp add: utf8_chars.simps)
  ultimately show ?thesis
    using at_boundary_enter [of True]
    by (cases ae) (simp_all add: enter_bytes_def observe_line_def utf8_chars_append Let_def)
qed

lemma checkpoint_text:
  assumes "sid \<notin> tr_sensitive t" "observe_line (current_line t sid, []) (d @ enter_bytes ae) [] False = (j, F)"
  shows "\<exists>t' cp. checkpoint_and_observe_sensitive t sid d [] ae False = (t', cp, F, False) \<and>
    current_line t' sid = j \<and> sid \<notin> tr_sensitive t'"
proof -
  have "observe t sid d [] ae = (t\<lparr>tr_buffers := (tr_buffers t)(sid := if j = default_input then None else Some j)\<rparr>, F)"
    using assms(2) by (simp add: observe_eq current_line_def observe_line_enter [of _ d ae])
  then show ?thesis
    using assms(1) by (auto simp: checkpoint_and_observe_sensitive_def Let_def current_line_def)
qed

lemma gateway_inv_step:
  assumes "text_call sid cfg (env, args)" "gateway_inv sid cfg st"
  shows "gateway_inv sid cfg (fst (tool_session_send_input env args st))"
proof -
  let ?d = "case sa_data args of Some d \<Rightarrow> d | None \<Rightarrow> []"
  let ?ae = "sa_append_enter args = Some True" let ?de = "?d @ enter_bytes ?ae"
  obtain st' r where s: "tool_session_send_input env args st = (st', r)" by fastforce
  have call: "sa_keys args = None" "(sa_sensitive args = Some True) = False"
    "ge_config env = cfg" "at_boundary ?de"
    using assms(1) at_boundary_enter by (auto simp: text_call_def split: option.splits intro!: at_boundary_append)
  let ?w = "written_to sid (gs_effects st)"
  obtain E where E: "observe_line (default_input, []) ?w [] False = (current_line (gs_tracker st) sid, E)"
    "\<And>c. c \<in> set E \<Longrightarrow> gc_enabled cfg \<Longrightarrow> rd_requires_approval (command_decision cfg c) \<Longrightarrow>
       tc_command c \<in> approved_texts (gs_effects st)"
    using assms(2) unfolding gateway_inv_def by (metis prod.collapse)
  have ns: "sid \<notin> tr_sensitive (gs_tracker st)" "at_boundary ?w"
    using assms(2) by (simp_all add: gateway_inv_def)
  obtain j F where F: "observe_line (current_line (gs_tracker st) sid, []) ?de [] False = (j, F)" by fastforce
  from checkpoint_text [OF ns(1) F] obtain t' cp where
    cp: "checkpoint_and_observe_sensitive (gs_tracker st) sid ?d [] ?ae False = (t', cp, F, False)"
    "current_line t' sid = j" "sid \<notin> tr_sensitive t'" by blast
  from s show ?thesis
  proof (cases rule: send_input_cases)
    case (invalid e)
    with assms(2) s show ?thesis by simp
  next
    case (sent reference sid' keys bytes)
    have sid': "sid' = sid" using assms(1) sent(1,2) by (auto simp: text_call_def)
    have keys: "keys = []" using sent(3) call(1) by (simp add: parse_keys_def)
    have bytes: "bytes = ?de" using sent(4) keys by (auto simp: input_bytes_def enter_bytes_def)
    note to = sent(6) [unfolded keys sid' call(2)]
    from to cp(1) show ?thesis
    proof (cases rule: send_to_session_cases)
      case (refused es e)
      then have "gateway_inv sid cfg st'"
        using assms(2) written_to_none [of es sid] unfolding gateway_inv_def by auto
      then show ?thesis using s by simp
    next
      case (written pre post m)
      have w: "written_to sid (gs_effects st') = ?w @ ?de"
        using written(3-5) written_to_none by (simp add: bytes)
      have "tc_command c \<in> approved_texts pre"
        if "c \<in> set F" "gc_enabled cfg" "rd_requires_approval (command_decision cfg c)" for c
        using written(6) that call(3) by (force simp: approved_texts_def redacted_def)
      then have "\<forall>c \<in> set (E @ F). gc_enabled cfg \<and> rd_requires_approval (command_decision cfg c) \<longrightarrow>
          tc_command c \<in> approved_texts (gs_effects st')"
        using E(2) by (auto simp: written(3))
      then have "gateway_inv sid cfg st'"
        unfolding gateway_inv_def w observe_line_append [OF call(4) E(1) F] using written(2) cp(2,3) ns(2) call(4) by (simp add: at_boundary_append)
      then show ?thesis using s by simp
    qed
  qed
qed

lemma send_all_inv:
  assumes "list_all (text_call sid cfg) calls" "gateway_inv sid cfg st"
  shows "gateway_inv sid cfg (send_all calls st)"
  using assms
proof (induction calls arbitrary: st)
  case Nil
  then show ?case by (simp add: send_all_def)
next
  case (Cons call calls)
  obtain env args where "call = (env, args)" by (cases call)
  with Cons gateway_inv_step [of sid cfg env args st] show ?case by (simp add: send_all_def)
qed

section \<open>Completed lines\<close>

text \<open>The nonblank lines of a text that a line end has submitted.\<close>

definition completed_lines :: "string \<Rightarrow> string list" where
  "completed_lines data =
     filter (\<lambda>l. l \<noteq> []) (map edited_line (butlast (split_on newline_char (utf8_chars data))))"

lemma foldl_observe_completed:
  assumes "list_all wf_char line" "list_all wf_char gs" "list_all plain_char gs"
    and "length (concat line) + length (concat gs) \<le> max_tracked_command_bytes"
  shows "snd (foldl observe_char (typed line, ex) gs) =
    ex @ map verified (filter (\<lambda>l. l \<noteq> []) (butlast
       (case split_on newline_char gs of [] \<Rightarrow> [] | w # ws \<Rightarrow>
          trim (concat (foldl edit_step line w)) # map edited_line ws)))"
  using assms
proof (induction gs arbitrary: line ex)
  case Nil
  then show ?case by simp
next
  case (Cons g gs)
  obtain w ws where w: "split_on newline_char gs = w # ws" by (cases "split_on newline_char gs") auto
  have step: "observe_char (typed line, ex) g =
    (if newline_char g then finish_command (typed line, ex) else (typed (edit_step line g), ex))"
    using Cons.prems by (intro observe_char_typed) auto
  show ?case
  proof (cases "newline_char g")
    case True
    with step Cons.prems Cons.IH [of "[]"] w show ?thesis
      by (simp add: finish_typed edited_line_def)
  next
    case False
    have "list_all wf_char (edit_step line g)"
      using Cons.prems by (auto simp: edit_step_def list_all_iff dest: in_set_butlastD)
    moreover have "length (concat (edit_step line g)) \<le> length (concat line) + length g"
      using butlast_sublist_length [of line] by (auto simp: edit_step_def)
    ultimately show ?thesis
      using False step Cons.prems Cons.IH [of "edit_step line g"] w by simp
  qed
qed

lemma observe_completed_lines:
  assumes "at_boundary data" "list_all plain_char (utf8_chars data)" "length data \<le> max_tracked_command_bytes"
  shows "snd (observe_line (default_input, []) data [] False) = map verified (completed_lines data)"
proof -
  obtain w ws where w: "split_on newline_char (utf8_chars data) = w # ws"
    by (cases "split_on newline_char (utf8_chars data)") auto
  have "default_input = typed []" by (simp add: default_input_def typed_def)
  then show ?thesis
    using foldl_observe_completed [of "[]" "utf8_chars data" "[]"] assms wf_utf8_chars w
    by (simp add: completed_lines_def edited_line_def observe_line_def Let_def map_butlast split: list.split)
qed

lemma command_decision_verified [simp]: "command_decision cfg (verified l) = classify_command l cfg"
  by (simp add: command_decision_def verified_def)

definition initial_gateway :: gateway_state where
  "initial_gateway = \<lparr>gs_tracker = empty_tracker, gs_effects = []\<rparr>"

lemma gateway_inv_initial: "gateway_inv sid cfg initial_gateway"
  by (simp add: gateway_inv_def initial_gateway_def empty_tracker_def current_line_def observe_line_def)

section \<open>A concrete environment\<close>

definition approving_env :: gateway_env where
  "approving_env =
     \<lparr>ge_config = default_guard_config, ge_resolve = (\<lambda>_. Inr ''id-1''),
      ge_approvals = Some (\<lambda>_. Approved), ge_record_activity = (\<lambda>_. Inr ()), ge_write = Inr (),
      ge_exec = Inr ''done'', ge_replay = [], ge_from_utf8_lossy = (\<lambda>bytes. bytes), ge_resize = Inr ()\<rparr>"

definition text_args :: "string \<Rightarrow> bool option \<Rightarrow> send_args" where
  "text_args data append_enter =
     \<lparr>sa_session_id = Some ''web'', sa_data = Some data, sa_keys = None,
      sa_append_enter = append_enter, sa_sensitive = None\<rparr>"

section \<open>Properties\<close>



text \<open>Supporting result: a call that fails, because an argument is invalid, an approval is refused or missing, an
  activity cannot be recorded or the write fails, writes nothing to any terminal and leaves the
  tracker as it was, so a denied line cannot be submitted later by a bare Enter.\<close>

theorem failed_send_leaves_no_trace:
  assumes "tool_session_send_input env args st = (st', Inl e)"
  shows "gs_tracker st' = gs_tracker st \<and>
    (\<exists>es. gs_effects st' = gs_effects st @ es \<and>
      (\<forall>e \<in> set es. \<forall>s b. e \<noteq> Wrote s b \<and> e \<noteq> Executed s b))"
  using assms
proof (cases rule: send_input_cases)
  case (sent reference sid keys bytes)
  obtain tracker cp cmds redact where
    "checkpoint_and_observe_sensitive (gs_tracker st) sid (case sa_data args of Some d \<Rightarrow> d | None \<Rightarrow> []) keys
       (sa_append_enter args = Some True) (sa_sensitive args = Some True) = (tracker, cp, cmds, redact)"
    using prod_cases4 by blast
  from sent(6) this show ?thesis
    by (cases rule: send_to_session_cases) (auto simp: list_all_iff is_write_def)
qed simp

theorem failed_send_leaves_no_trace_witness:
  "case tool_session_send_input (approving_env\<lparr>ge_approvals := Some (\<lambda>_. Denied ''timed out'')\<rparr>)
      (text_args ''rm -rf /srv'' (Some True)) initial_gateway of
     (st', r) \<Rightarrow> \<not> is_ok r \<and> gs_tracker st' = empty_tracker"
proof -
  let ?c = "tool_session_send_input (approving_env\<lparr>ge_approvals := Some (\<lambda>_. Denied ''timed out'')\<rparr>)
      (text_args ''rm -rf /srv'' (Some True)) initial_gateway"
  have "\<not> is_ok (snd ?c)" by code_simp
  then obtain st' e where c: "?c = (st', Inl e)" by (cases ?c; cases "snd ?c") auto
  then show ?thesis using failed_send_leaves_no_trace [OF c] by (simp add: initial_gateway_def)
qed

text \<open>Supporting result: a call that succeeds writes exactly once, and before the write every command the
  tracker found in the call that is risky, or whose text it could not follow, was shown to the user
  (or its redaction, for a sensitive line) and approved; nothing is written while the user decides.\<close>

theorem successful_send_writes_after_approvals:
  assumes "tool_session_send_input env args st = (st', Inr m)"
  shows "\<exists>sid keys bytes tracker cp cmds redact pre post.
    parse_keys (sa_keys args) = Inr keys \<and>
    checkpoint_and_observe_sensitive (gs_tracker st) sid (case sa_data args of Some d \<Rightarrow> d | None \<Rightarrow> []) keys
       (sa_append_enter args = Some True) (sa_sensitive args = Some True) = (tracker, cp, cmds, redact) \<and>
    gs_tracker st' = tracker \<and>
    gs_effects st' = gs_effects st @ pre @ [Wrote sid bytes] @ post \<and>
    list_all (\<lambda>e. \<not> is_write e) pre \<and> list_all (\<lambda>e. \<not> is_write e) post \<and>
    (\<forall>c \<in> set cmds. gc_enabled (ge_config env) \<and>
       (rd_requires_approval (classify_command (tc_command c) (ge_config env)) \<or> \<not> tc_verifiable c) \<longrightarrow>
       (if redact then ''[sensitive input omitted]'' else tc_command c) \<in> approved_texts pre)"
  using assms
proof (cases rule: send_input_cases)
  case (sent reference sid keys bytes)
  obtain tracker cp cmds redact where
    c: "checkpoint_and_observe_sensitive (gs_tracker st) sid (case sa_data args of Some d \<Rightarrow> d | None \<Rightarrow> []) keys
       (sa_append_enter args = Some True) (sa_sensitive args = Some True) = (tracker, cp, cmds, redact)"
    using prod_cases4 by blast
  from sent(6) this show ?thesis
  proof (cases rule: send_to_session_cases)
    case (written pre post m')
    have "rd_requires_approval (command_decision cfg x) \<longleftrightarrow>
        rd_requires_approval (classify_command (tc_command x) cfg) \<or> \<not> tc_verifiable x" for cfg x
      by (simp add: command_decision_def Let_def)
    then have "\<forall>c \<in> set cmds. gc_enabled (ge_config env) \<and>
       (rd_requires_approval (classify_command (tc_command c) (ge_config env)) \<or> \<not> tc_verifiable c) \<longrightarrow>
       redacted redact (tc_command c) \<in> approved_texts pre"
      using written(6) by (force simp: approved_texts_def)
    then show ?thesis using c sent(3) written(2-5) unfolding redacted_def by blast
  qed simp
qed simp

theorem successful_send_writes_after_approvals_witness:
  "\<exists>st' m pre post sid bytes. tool_session_send_input approving_env
      (text_args ''rm -rf /srv'' (Some True)) initial_gateway = (st', Inr m) \<and>
     gs_effects st' = pre @ [Wrote sid bytes] @ post \<and> list_all (\<lambda>e. \<not> is_write e) pre"
proof -
  let ?c = "tool_session_send_input approving_env (text_args ''rm -rf /srv'' (Some True)) initial_gateway"
  have "is_ok (snd ?c)" by code_simp
  then obtain st' m where c: "?c = (st', Inr m)" by (cases ?c; cases "snd ?c") auto
  then show ?thesis using successful_send_writes_after_approvals [OF c] by (auto simp: initial_gateway_def)
qed

text \<open>Supporting result: \<open>exec\<close> runs a command at most once, after showing it in the terminal; a command the
  classifier flags runs only after the user approved that very text for that session, and never
  when there is no approval manager.\<close>

theorem exec_runs_only_after_approval:
  assumes "tool_exec env timed_out args st = (st', r)"
  shows "\<exists>es. gs_effects st' = gs_effects st @ es \<and> gs_tracker st' = gs_tracker st \<and>
    (\<forall>sid command. Executed sid command \<in> set es \<longrightarrow>
       ea_command args = Some command \<and>
       (\<exists>pre. es = pre @ [TerminalInput sid command KindExec, Executed sid command] \<and>
         (gc_enabled (ge_config env) \<and> gc_require_for_exec (ge_config env) \<and>
          rd_requires_approval (classify_command command (ge_config env)) \<longrightarrow>
          ge_approvals env \<noteq> None \<and>
          pre = [Asked \<lparr>ar_tool = ''exec'', ar_command = command,
                        ar_reasons = rd_reasons (classify_command command (ge_config env)),
                        ar_session_id = Some sid\<rparr> Approved])))"
proof -
  let ?args = "rbind (ok_or (ea_session_id args) ''Missing required field: session_id'') (\<lambda>reference.
           rbind (ok_or (ea_command args) ''Missing required field: command'') (\<lambda>command.
           rbind (ge_resolve env reference) (\<lambda>session_id. Inr (session_id, command))))"
  show ?thesis
  proof (cases ?args)
    case (Inl e)
    then show ?thesis using assms by (simp add: tool_exec_def)
  next
    case (Inr q)
    obtain sid command where q: "q = (sid, command)" by (cases q)
    from Inr q have cmd: "ea_command args = Some command" by (auto elim!: rbind_InrE)
    let ?d = "classify_command command (ge_config env)"
    show ?thesis
      using assms Inr q cmd
      by (cases "gc_enabled (ge_config env) \<and> gc_require_for_exec (ge_config env) \<and> rd_requires_approval ?d";
          cases "ge_approvals env")
        (auto simp: tool_exec_def require_approval_def Let_def
          split: if_splits approval_outcome.splits sum.splits)
  qed
qed

theorem exec_runs_only_after_approval_witness:
  "\<exists>st' r. tool_exec approving_env (\<lambda>_. False)
      \<lparr>ea_session_id = Some ''web'', ea_command = Some ''reboot'', ea_timeout_ms = None\<rparr> initial_gateway = (st', r) \<and>
     Executed ''id-1'' ''reboot'' \<in> set (gs_effects st') \<and> hd (gs_effects st') =
       Asked \<lparr>ar_tool = ''exec'', ar_command = ''reboot'',
              ar_reasons = rd_reasons (classify_command ''reboot'' default_guard_config),
              ar_session_id = Some ''id-1''\<rparr> Approved"
proof -
  let ?c = "tool_exec approving_env (\<lambda>_. False)
      \<lparr>ea_session_id = Some ''web'', ea_command = Some ''reboot'', ea_timeout_ms = None\<rparr> initial_gateway"
  obtain st' r where c: "?c = (st', r)" by fastforce
  have "list_ex (\<lambda>e. e = Executed ''id-1'' ''reboot'') (gs_effects (fst ?c))" by code_simp
  then have x: "Executed ''id-1'' ''reboot'' \<in> set (gs_effects st')" using c by (auto simp: list_ex_iff)
  have "rd_requires_approval (classify_command ''reboot'' default_guard_config)" by code_simp
  then have risky: "gc_enabled (ge_config approving_env) \<and> gc_require_for_exec (ge_config approving_env) \<and>
      rd_requires_approval (classify_command ''reboot'' (ge_config approving_env))"
    by (simp add: approving_env_def) (simp add: default_guard_config_def)
  from exec_runs_only_after_approval [OF c] have es: "\<exists>pre. gs_effects st' =
      pre @ [TerminalInput ''id-1'' ''reboot'' KindExec, Executed ''id-1'' ''reboot''] \<and>
      pre = [Asked \<lparr>ar_tool = ''exec'', ar_command = ''reboot'',
                    ar_reasons = rd_reasons (classify_command ''reboot'' (ge_config approving_env)),
                    ar_session_id = Some ''id-1''\<rparr> Approved]"
    using x risky unfolding initial_gateway_def gateway_state.select_convs append_Nil by metis
  have cfg: "ge_config approving_env = default_guard_config" by (simp add: approving_env_def)
  show ?thesis using c es x unfolding cfg by force
qed

text \<open>Supporting result: what the line-by-line gate lets through: \<open>rm -rf /srv\<close> needs approval, but the same
  command with a backslash and a line end after \<open>rm\<close>, which a POSIX shell joins again, is written
  to the terminal without any question, even when approvals are unavailable and the gate is
  therefore closed.\<close>

theorem line_continuation_is_not_gated:
  "rd_requires_approval (classify_command ''rm -rf /srv'' default_guard_config) \<and>
   (let text = ''rm '' @ [CHR 0x5C, CHR 0x0A] @ ''-rf /srv'' @ [CHR 0x0A];
        call = tool_session_send_input (approving_env\<lparr>ge_approvals := None\<rparr>) (text_args text None) initial_gateway
    in is_ok (snd call) \<and> written_to ''id-1'' (gs_effects (fst call)) = text \<and>
       (\<forall>request outcome. Asked request outcome \<notin> set (gs_effects (fst call))))"
proof -
  let ?text = "''rm '' @ [CHR 0x5C, CHR 0x0A] @ ''-rf /srv'' @ [CHR 0x0A]"
  let ?call = "tool_session_send_input (approving_env\<lparr>ge_approvals := None\<rparr>) (text_args ?text None) initial_gateway"
  have "list_all (\<lambda>e. case e of Asked _ _ \<Rightarrow> False | _ \<Rightarrow> True) (gs_effects (fst ?call))" by code_simp
  then have "\<forall>request outcome. Asked request outcome \<notin> set (gs_effects (fst ?call))"
    by (force simp: list_all_iff)
  moreover have "rd_requires_approval (classify_command ''rm -rf /srv'' default_guard_config)" by code_simp
  moreover have "is_ok (snd ?call) \<and> written_to ''id-1'' (gs_effects (fst ?call)) = ?text" by code_simp
  ultimately show ?thesis by (simp add: Let_def del: append.simps)
qed

end
