(* ===== verification/Plugin_Manifest.thy ===== *)
theory Plugin_Manifest
  imports Decimal
begin

text \<open>
  The plugin crate, \<^verbatim>\<open>plugins/src/lib.rs\<close>: the manifest of a declarative plugin, its
  validation (\<open>validate_manifest\<close>, \<open>validate_action\<close>), and the rendering of an action and the user's
  inputs as one shell command line (\<open>render_command\<close>, \<open>normalize_input\<close>, \<open>shell_quote\<close>).  The
  JSON text of a manifest is read by serde, a parameter.  The reference is a small POSIX shell
  lexer, \<open>shell_words\<close>: the properties say that a rendered command is lexed into exactly the program and
  one word per argument, whatever the user typed, and that a validated action renders whenever its
  inputs are acceptable.
\<close>

section \<open>Data\<close>

text \<open>\<^verbatim>\<open>serde_json::Value\<close>; a number that is not an integer is kept as its text.\<close>

datatype json =
    JNull
  | JBool bool
  | JInt int
  | JFloat string
  | JString string
  | JArray "json list"
  | JObject "(string \<times> json) list"

definition as_str :: "json \<Rightarrow> string option" where
  "as_str v = (case v of JString s \<Rightarrow> Some s | _ \<Rightarrow> None)"

definition as_i64 :: "json \<Rightarrow> int option" where
  "as_i64 v = (case v of JInt n \<Rightarrow> if i64_min \<le> n \<and> n \<le> i64_max then Some n else None | _ \<Rightarrow> None)"

definition as_bool :: "json \<Rightarrow> bool option" where
  "as_bool v = (case v of JBool b \<Rightarrow> Some b | _ \<Rightarrow> None)"

definition is_object :: "json \<Rightarrow> bool" where
  "is_object v = (case v of JObject _ \<Rightarrow> True | _ \<Rightarrow> False)"

datatype plugin_permission = RemoteExec | LocalSystemRead | LocalExec

datatype plugin_session_type = SshSession | LocalSession

datatype plugin_source = Builtin | External

definition source_as_str :: "plugin_source \<Rightarrow> string" where
  "source_as_str s = (case s of Builtin \<Rightarrow> ''builtin'' | External \<Rightarrow> ''external'')"

definition source_parse :: "string \<Rightarrow> string + plugin_source" where
  "source_parse v =
     (if v = ''builtin'' then Inr Builtin
      else if v = ''external'' then Inr External
      else Inl (''Unknown plugin source: '' @ v))"

datatype validation_policy = BuiltinPolicy | ExternalPolicy

datatype plugin_input_kind = TextKind | IntegerKind | BooleanKind | SelectKind

datatype plugin_output_kind = TextOutput | TableOutput

record plugin_output =
  po_kind :: plugin_output_kind
  po_columns :: "string list"
  po_delimiter :: string

record plugin_input =
  pi_id :: string
  pi_label :: string
  pi_description :: string
  pi_placeholder :: string
  pi_required :: bool
  pi_kind :: plugin_input_kind
  pi_options :: "string list"

record plugin_action =
  pa_id :: string
  pa_name :: string
  pa_description :: string
  pa_program :: string
  pa_args :: "string list"
  pa_inputs :: "plugin_input list"
  pa_requires_confirmation :: bool
  pa_elevate :: bool
  pa_allow_sudo :: bool
  pa_output :: plugin_output

datatype plugin_entry = NativeView string | Commands "plugin_action list"

record plugin_manifest =
  pm_schema_version :: nat
  pm_id :: string
  pm_name :: string
  pm_description :: string
  pm_version :: string
  pm_author :: string
  pm_category :: string
  pm_icon :: string
  pm_permissions :: "plugin_permission list"
  pm_session_types :: "plugin_session_type list"
  pm_default_settings :: json
  pm_entry :: plugin_entry

definition max_manifest_bytes :: nat where "max_manifest_bytes = 256 * 1024"
definition max_plugin_settings_bytes :: nat where "max_plugin_settings_bytes = 16 * 1024"

section \<open>Quoting\<close>

text \<open>A code point beyond ASCII is unsafe, and so is each byte of it.\<close>

definition shell_safe :: "char \<Rightarrow> bool" where
  "shell_safe c \<longleftrightarrow>
     48 \<le> byte c \<and> byte c \<le> 57 \<or> 65 \<le> byte c \<and> byte c \<le> 90 \<or> 97 \<le> byte c \<and> byte c \<le> 122 \<or>
     List.member ''_@%+=:,./-'' c"

definition shell_quote :: "string \<Rightarrow> string" where
  "shell_quote v =
     (if v = [] then [CHR 0x27, CHR 0x27]
      else if list_all shell_safe v then v
      else CHR 0x27 #
        concat (map (\<lambda>c. if c = CHR 0x27 then [CHR 0x27, CHR 0x22, CHR 0x27, CHR 0x22, CHR 0x27] else [c]) v) @
        [CHR 0x27])"

section \<open>Validation\<close>

definition identifier_char :: "char \<Rightarrow> bool" where
  "identifier_char c \<longleftrightarrow> 97 \<le> byte c \<and> byte c \<le> 122 \<or> is_digit c \<or> List.member ''._-'' c"

definition validate_identifier :: "string \<Rightarrow> string \<Rightarrow> string + unit" where
  "validate_identifier v field =
     ensure (3 \<le> length v \<and> length v \<le> 64 \<and>
        (case v of [] \<Rightarrow> False | c # _ \<Rightarrow> 97 \<le> byte c \<and> byte c \<le> 122 \<or> is_digit c) \<and>
        list_all identifier_char v)
      (''Invalid '' @ field @ '': '' @ v)"

definition validate_text :: "string \<Rightarrow> string \<Rightarrow> nat \<Rightarrow> string + unit" where
  "validate_text v field max_len =
     ensure (trim v \<noteq> [] \<and> length v \<le> max_len \<and> CHR 0x00 \<notin> set v) (''Invalid plugin '' @ field)"

definition validate_optional_text :: "string \<Rightarrow> string \<Rightarrow> nat \<Rightarrow> string + unit" where
  "validate_optional_text v field max_len =
     ensure (length v \<le> max_len \<and> CHR 0x00 \<notin> set v) (''Invalid plugin '' @ field)"

definition program_char :: "char \<Rightarrow> bool" where
  "program_char c \<longleftrightarrow>
     48 \<le> byte c \<and> byte c \<le> 57 \<or> 65 \<le> byte c \<and> byte c \<le> 90 \<or> 97 \<le> byte c \<and> byte c \<le> 122 \<or>
     List.member ''_-./+'' c"

definition validate_program :: "string \<Rightarrow> string + unit" where
  "validate_program program =
     ensure (program \<noteq> [] \<and> length program \<le> 256 \<and> \<not> contains program ''..'' \<and>
        list_all program_char program)
      (''Invalid plugin program: '' @ program)"

definition template_open :: string where "template_open = ''{{input.''"
definition template_close :: string where "template_close = ''}}''"

function referenced_inputs :: "string \<Rightarrow> string + string list" where
  "referenced_inputs rest =
     (case str_find template_open rest of
        None \<Rightarrow> Inr []
      | Some start \<Rightarrow>
          (let after_start = drop (start + length template_open) rest in
           case str_find template_close after_start of
             None \<Rightarrow> Inl ''Unclosed plugin input template''
           | Some e \<Rightarrow>
               rbind (validate_identifier (take e after_start) ''input reference'') (\<lambda>_.
               rbind (referenced_inputs (drop (e + 2) after_start)) (\<lambda>referenced.
               Inr (take e after_start # referenced)))))"
  by pat_completeness auto
termination
proof (relation "measure length")
  fix rest start after_start e
  assume "str_find template_open rest = Some start"
    and after_start: "after_start = drop (start + length template_open) rest"
  then have "prefix template_open (drop start rest)" using str_find_Some by blast
  then have "length template_open \<le> length rest - start" by (auto dest: prefix_length_le)
  moreover have "length template_open = 8" by (simp add: template_open_def)
  ultimately show "(drop (e + 2) after_start, rest) \<in> measure length"
    unfolding after_start by simp
qed simp

declare referenced_inputs.simps [simp del]

definition input_template :: "string \<Rightarrow> string" where
  "input_template i = template_open @ i @ template_close"

text \<open>The loop over the options of one input; \<open>seen\<close> is the hash set.\<close>

fun validate_options :: "string \<Rightarrow> string list \<Rightarrow> string list \<Rightarrow> string + unit" where
  "validate_options i seen [] = Inr ()"
| "validate_options i seen (opt # opts) =
     rbind (validate_text opt ''input option'' 80) (\<lambda>_.
     rbind (ensure (\<not> List.member seen opt) (''Input '' @ i @ '' contains duplicate options'')) (\<lambda>_.
     validate_options i (opt # seen) opts))"

definition validate_input :: "string list \<Rightarrow> plugin_input \<Rightarrow> string + unit" where
  "validate_input seen inp =
     rbind (validate_identifier (pi_id inp) ''input id'') (\<lambda>_.
     rbind (validate_text (pi_label inp) ''input label'' 80) (\<lambda>_.
     rbind (validate_optional_text (pi_description inp) ''input description'' 240) (\<lambda>_.
     rbind (validate_optional_text (pi_placeholder inp) ''input placeholder'' 120) (\<lambda>_.
     rbind (ensure (\<not> List.member seen (pi_id inp)) (''Duplicate input id: '' @ pi_id inp)) (\<lambda>_.
     rbind (ensure (\<not> (pi_kind inp = SelectKind \<and> pi_options inp = []))
              (''Select input '' @ pi_id inp @ '' must declare options'')) (\<lambda>_.
     rbind (ensure (length (pi_options inp) \<le> 32) (''Input '' @ pi_id inp @ '' has too many options'')) (\<lambda>_.
     rbind (ensure (\<not> (pi_kind inp \<noteq> SelectKind \<and> pi_options inp \<noteq> []))
              (''Only select input '' @ pi_id inp @ '' may declare options'')) (\<lambda>_.
     validate_options (pi_id inp) [] (pi_options inp)))))))))"

fun validate_inputs :: "string list \<Rightarrow> plugin_input list \<Rightarrow> string + unit" where
  "validate_inputs seen [] = Inr ()"
| "validate_inputs seen (inp # inps) =
     rbind (validate_input seen inp) (\<lambda>_. validate_inputs (pi_id inp # seen) inps)"

definition validate_arg :: "string \<Rightarrow> string list \<Rightarrow> string \<Rightarrow> string + unit" where
  "validate_arg action_id input_ids arg =
     rbind (ensure (length arg \<le> 2048) (''Action '' @ action_id @ '' contains an oversized argument'')) (\<lambda>_.
     rbind (referenced_inputs arg) (\<lambda>references.
     rbind (case references of
              [] \<Rightarrow> Inr ()
            | referenced # _ \<Rightarrow>
                ensure (length references = 1 \<and> arg = input_template referenced)
                  (''Action '' @ action_id @ '' input templates must occupy a complete argument'')) (\<lambda>_.
     foldm (\<lambda>_ referenced. ensure (List.member input_ids referenced)
              (''Action '' @ action_id @ '' references undeclared input '' @ referenced)) () references)))"

definition validate_output :: "string \<Rightarrow> plugin_output \<Rightarrow> string + unit" where
  "validate_output action_id out =
     (if po_kind out = TableOutput
      then rbind (ensure (po_columns out \<noteq> [] \<and> length (po_columns out) \<le> 16)
                    (''Table action '' @ action_id @ '' must declare between 1 and 16 columns'')) (\<lambda>_.
           ensure (po_delimiter out \<noteq> [] \<and> length (po_delimiter out) \<le> 4 \<and>
                   CHR 0x0A \<notin> set (po_delimiter out) \<and> CHR 0x0D \<notin> set (po_delimiter out))
             (''Action '' @ action_id @ '' has an invalid table delimiter''))
      else Inr ())"

definition validate_action :: "plugin_action \<Rightarrow> string + unit" where
  "validate_action a =
     rbind (validate_identifier (pa_id a) ''action id'') (\<lambda>_.
     rbind (validate_text (pa_name a) ''action name'' 80) (\<lambda>_.
     rbind (validate_text (pa_description a) ''action description'' 300) (\<lambda>_.
     rbind (validate_program (pa_program a)) (\<lambda>_.
     rbind (ensure (\<not> (pa_elevate a \<and> \<not> pa_requires_confirmation a))
              (''Action '' @ pa_id a @ '' requests elevation and must set requiresConfirmation'')) (\<lambda>_.
     rbind (ensure (\<not> (pa_elevate a \<and> pa_allow_sudo a))
              (''Action '' @ pa_id a @ '' cannot require sudo and offer optional sudo at the same time'')) (\<lambda>_.
     rbind (ensure (length (pa_args a) \<le> 32) (''Action '' @ pa_id a @ '' has too many arguments'')) (\<lambda>_.
     rbind (ensure (length (pa_inputs a) \<le> 8) (''Action '' @ pa_id a @ '' has too many inputs'')) (\<lambda>_.
     rbind (validate_inputs [] (pa_inputs a)) (\<lambda>_.
     rbind (foldm (\<lambda>_ arg. validate_arg (pa_id a) (map pi_id (pa_inputs a)) arg) () (pa_args a)) (\<lambda>_.
     validate_output (pa_id a) (pa_output a)))))))))))"

text \<open>The duplicate check of a list with a hash set: an error at the first repetition.\<close>

fun validate_distinct :: "'a list \<Rightarrow> string \<Rightarrow> 'a list \<Rightarrow> string + unit" where
  "validate_distinct seen error [] = Inr ()"
| "validate_distinct seen error (x # xs) =
     rbind (ensure (\<not> List.member seen x) error) (\<lambda>_. validate_distinct (x # seen) error xs)"

fun validate_actions :: "string list \<Rightarrow> plugin_action list \<Rightarrow> string + unit" where
  "validate_actions seen [] = Inr ()"
| "validate_actions seen (a # as) =
     rbind (validate_action a) (\<lambda>_.
     rbind (ensure (\<not> List.member seen (pa_id a)) (''Duplicate plugin action id: '' @ pa_id a)) (\<lambda>_.
     validate_actions (pa_id a # seen) as))"

definition validate_entry :: "plugin_manifest \<Rightarrow> validation_policy \<Rightarrow> string + unit" where
  "validate_entry m policy =
     (case pm_entry m of
        NativeView view \<Rightarrow>
          rbind (ensure (policy \<noteq> ExternalPolicy) ''External plugins cannot declare native views'') (\<lambda>_.
          ensure (view = ''server-status'') (''Unknown native plugin view: '' @ view))
      | Commands actions \<Rightarrow>
          (let needs_remote = List.member (pm_session_types m) SshSession;
               needs_local = List.member (pm_session_types m) LocalSession in
           rbind (ensure (\<not> (needs_remote \<and> \<not> List.member (pm_permissions m) RemoteExec))
                    ''Command plugins supporting SSH sessions must request remote_exec permission'') (\<lambda>_.
           rbind (ensure (\<not> (needs_local \<and> \<not> List.member (pm_permissions m) LocalExec))
                    ''Command plugins supporting local sessions must request local_exec permission'') (\<lambda>_.
           rbind (ensure (needs_remote \<or> needs_local)
                    ''Command plugins must support at least one executable session type (ssh or local)'') (\<lambda>_.
           rbind (ensure (actions \<noteq> [] \<and> length actions \<le> 24)
                    ''Command plugins must declare between 1 and 24 actions'') (\<lambda>_.
           validate_actions [] actions))))))"

text \<open>\<open>settings_size\<close> is the length of the JSON text serde writes for the default settings.\<close>

definition validate_manifest ::
    "(json \<Rightarrow> string + nat) \<Rightarrow> plugin_manifest \<Rightarrow> validation_policy \<Rightarrow> string + unit" where
  "validate_manifest settings_size m policy =
     rbind (ensure (pm_schema_version m = 1)
              (''Unsupported plugin schema version: '' @ show_nat (pm_schema_version m))) (\<lambda>_.
     rbind (validate_identifier (pm_id m) ''plugin id'') (\<lambda>_.
     rbind (validate_text (pm_name m) ''name'' 80) (\<lambda>_.
     rbind (validate_text (pm_description m) ''description'' 600) (\<lambda>_.
     rbind (validate_text (pm_version m) ''version'' 32) (\<lambda>_.
     rbind (validate_text (pm_author m) ''author'' 80) (\<lambda>_.
     rbind (validate_identifier (pm_category m) ''category'') (\<lambda>_.
     rbind (validate_identifier (pm_icon m) ''icon'') (\<lambda>_.
     rbind (ensure (pm_session_types m \<noteq> []) ''Plugin must support at least one session type'') (\<lambda>_.
     rbind (ensure (is_object (pm_default_settings m)) ''defaultSettings must be a JSON object'') (\<lambda>_.
     rbind (case settings_size (pm_default_settings m) of
              Inl error \<Rightarrow> Inl (''Failed to encode defaultSettings: '' @ error)
            | Inr n \<Rightarrow> ensure (n \<le> max_plugin_settings_bytes)
                        (''defaultSettings exceeds the '' @ show_nat (max_plugin_settings_bytes div 1024) @ '' KB limit'')) (\<lambda>_.
     rbind (validate_distinct [] ''Plugin permissions must not contain duplicates'' (pm_permissions m)) (\<lambda>_.
     rbind (ensure (\<not> (policy = ExternalPolicy \<and>
                       list_ex (\<lambda>p. p \<noteq> RemoteExec \<and> p \<noteq> LocalExec) (pm_permissions m)))
              ''External plugins may only request remote_exec or local_exec permission'') (\<lambda>_.
     validate_entry m policy)))))))))))))"

text \<open>\<open>from_json\<close> is serde's reading of the manifest's text.\<close>

definition parse_manifest ::
    "(string \<Rightarrow> string + plugin_manifest) \<Rightarrow> (json \<Rightarrow> string + nat) \<Rightarrow> string \<Rightarrow> validation_policy \<Rightarrow>
     string + plugin_manifest" where
  "parse_manifest from_json settings_size text policy =
     rbind (ensure (length text \<le> max_manifest_bytes)
              (''Plugin manifest exceeds the '' @ show_nat (max_manifest_bytes div 1024) @ '' KB limit'')) (\<lambda>_.
     rbind (case from_json text of
              Inl error \<Rightarrow> Inl (''Invalid plugin manifest JSON: '' @ error)
            | Inr m \<Rightarrow> Inr m) (\<lambda>m.
     rbind (validate_manifest settings_size m policy) (\<lambda>_.
     Inr m)))"

text \<open>\<open>embedded\<close> is the table of the manifests compiled into the program.\<close>

definition builtin_catalog ::
    "(string \<Rightarrow> string + plugin_manifest) \<Rightarrow> (json \<Rightarrow> string + nat) \<Rightarrow> (string \<times> string) list \<Rightarrow>
     string + plugin_manifest list" where
  "builtin_catalog from_json settings_size embedded =
     traverse (\<lambda>(i, text).
       rbind (case from_json text of
                Inl error \<Rightarrow> Inl (''Built-in plugin manifest '' @ i @ '' is invalid: '' @ error)
              | Inr m \<Rightarrow> Inr m) (\<lambda>m.
       rbind (ensure (pm_id m = i) (''Built-in plugin directory '' @ i @ '' contains manifest id '' @ pm_id m)) (\<lambda>_.
       rbind (validate_manifest settings_size m BuiltinPolicy) (\<lambda>_.
       Inr m)))) embedded"

section \<open>Rendering\<close>

definition normalize_input :: "plugin_input \<Rightarrow> json \<Rightarrow> string + string" where
  "normalize_input inp v =
     rbind (case pi_kind inp of
              TextKind \<Rightarrow> ok_or (as_str v) (''Input '' @ pi_id inp @ '' must be text'')
            | IntegerKind \<Rightarrow>
                (case as_i64 v of
                   Some n \<Rightarrow> Inr (show_int n)
                 | None \<Rightarrow>
                     (case as_str v of
                        Some text \<Rightarrow> ok_or (map_option show_int (parse_i64 text))
                                       (''Input '' @ pi_id inp @ '' must be an integer'')
                      | None \<Rightarrow> Inl (''Input '' @ pi_id inp @ '' must be an integer'')))
            | BooleanKind \<Rightarrow>
                ok_or (map_option (\<lambda>b. if b then ''true'' else ''false'') (as_bool v))
                  (''Input '' @ pi_id inp @ '' must be true or false'')
            | SelectKind \<Rightarrow>
                rbind (ok_or (as_str v) (''Input '' @ pi_id inp @ '' must be one of its options'')) (\<lambda>selected.
                rbind (ensure (List.member (pi_options inp) selected)
                         (''Input '' @ pi_id inp @ '' must be one of its options'')) (\<lambda>_.
                Inr selected))) (\<lambda>normalized.
     rbind (ensure (length normalized \<le> 1024 \<and> CHR 0x00 \<notin> set normalized \<and>
                    CHR 0x0A \<notin> set normalized \<and> CHR 0x0D \<notin> set normalized)
              (''Input '' @ pi_id inp @ '' contains unsupported characters'')) (\<lambda>_.
     Inr normalized))"

text \<open>\<open>inputs\<close> is the \<^verbatim>\<open>BTreeMap\<close> of the request in the order of its keys.\<close>

type_synonym request_inputs = "(string \<times> json) list"

definition input_value :: "request_inputs \<Rightarrow> plugin_input \<Rightarrow> string + string" where
  "input_value inputs inp =
     (case map_of inputs (pi_id inp) of
        Some v \<Rightarrow> normalize_input inp v
      | None \<Rightarrow>
          (if pi_required inp then Inl (''Missing required plugin input: '' @ pi_id inp) else Inr []))"

definition collect_values ::
    "request_inputs \<Rightarrow> plugin_input list \<Rightarrow> string + (string \<rightharpoonup> string)" where
  "collect_values inputs inps =
     foldm (\<lambda>values inp. rbind (input_value inputs inp) (\<lambda>v. Inr (values(pi_id inp \<mapsto> v)))) Map.empty inps"

definition render_arg :: "string \<Rightarrow> (string \<rightharpoonup> string) \<Rightarrow> string \<Rightarrow> string + string" where
  "render_arg action_id values arg =
     rbind (referenced_inputs arg) (\<lambda>references.
     case references of
       [] \<Rightarrow> Inr arg
     | [input_id] \<Rightarrow>
         (if arg = input_template input_id
          then ok_or (values input_id) (''Unresolved input template in action '' @ action_id)
          else Inl (''Action '' @ action_id @ '' input templates must occupy a complete argument''))
     | _ \<Rightarrow> Inl (''Action '' @ action_id @ '' input templates must occupy a complete argument''))"

definition sudo_prefix :: "bool \<Rightarrow> string" where
  "sudo_prefix has_password =
     (if has_password then ''sudo -S -p '' @ [CHR 0x27, CHR 0x27, CHR '' ''] else ''sudo -n '')"

definition render_command ::
    "plugin_action \<Rightarrow> request_inputs \<Rightarrow> bool \<Rightarrow> bool \<Rightarrow> string + string" where
  "render_command a inputs use_sudo has_password =
     (let declared = map pi_id (pa_inputs a) in
      rbind (case find (\<lambda>(k, _). \<not> List.member declared k) inputs of
               Some (extra, _) \<Rightarrow> Inl (''Unexpected plugin input: '' @ extra)
             | None \<Rightarrow> Inr ()) (\<lambda>_.
      rbind (collect_values inputs (pa_inputs a)) (\<lambda>values.
      rbind (traverse (render_arg (pa_id a) values) (pa_args a)) (\<lambda>rendered.
      let body = join '' '' (shell_quote (pa_program a) # map shell_quote rendered) in
      Inr (if use_sudo then sudo_prefix has_password @ body else body)))))"

definition render_remote_command :: "plugin_action \<Rightarrow> request_inputs \<Rightarrow> string + string" where
  "render_remote_command a inputs = render_command a inputs (pa_elevate a) False"

section \<open>The reference lexer\<close>

text \<open>The words of a simple POSIX command line: blanks separate words, single quotes keep everything,
  double quotes and unquoted text keep the characters that have no meaning to the shell.  Any
  other character (an operator, an expansion, a line end, a NUL byte) and an unterminated quote
  give \<open>None\<close>: then the line would not be one simple command with literal words.\<close>

datatype quoting = Unquoted | Single | Double

definition double_literal :: "char \<Rightarrow> bool" where
  "double_literal c \<longleftrightarrow> \<not> List.member [CHR 0x22, CHR 0x24, CHR 0x5C, CHR 0x60, CHR 0x00] c"

fun shell_lex :: "quoting \<Rightarrow> string option \<Rightarrow> string \<Rightarrow> string list option" where
  "shell_lex Unquoted word [] = Some (case word of None \<Rightarrow> [] | Some w \<Rightarrow> [w])"
| "shell_lex Unquoted word (c # cs) =
     (if c = CHR '' '' then
        (case word of
           None \<Rightarrow> shell_lex Unquoted None cs
         | Some w \<Rightarrow> map_option (Cons w) (shell_lex Unquoted None cs))
      else if c = CHR 0x27 then shell_lex Single (Some (case word of None \<Rightarrow> [] | Some w \<Rightarrow> w)) cs
      else if c = CHR 0x22 then shell_lex Double (Some (case word of None \<Rightarrow> [] | Some w \<Rightarrow> w)) cs
      else if shell_safe c then shell_lex Unquoted (Some ((case word of None \<Rightarrow> [] | Some w \<Rightarrow> w) @ [c])) cs
      else None)"
| "shell_lex q word [] = None"
| "shell_lex Single word (c # cs) =
     (if c = CHR 0x27 then shell_lex Unquoted word cs
      else if c = CHR 0x00 then None
      else shell_lex Single (map_option (\<lambda>w. w @ [c]) word) cs)"
| "shell_lex Double word (c # cs) =
     (if c = CHR 0x22 then shell_lex Unquoted word cs
      else if double_literal c then shell_lex Double (map_option (\<lambda>w. w @ [c]) word) cs
      else None)"

definition shell_words :: "string \<Rightarrow> string list option" where
  "shell_words line = shell_lex Unquoted None line"

lemma shell_safe_quote [simp]: "\<not> shell_safe (CHR 0x27)" "\<not> shell_safe (CHR 0x22)" "\<not> shell_safe (CHR '' '')"
  by (simp_all add: shell_safe_def byte_def)

lemma shell_lex_safe:
  "list_all shell_safe v \<Longrightarrow> v \<noteq> [] \<Longrightarrow>
    shell_lex Unquoted word (v @ rest) = shell_lex Unquoted (Some ((case word of None \<Rightarrow> [] | Some w \<Rightarrow> w) @ v)) rest"
proof (induction v arbitrary: word)
  case Nil
  then show ?case by simp
next
  case (Cons c v)
  then have "c \<noteq> CHR '' ''" "c \<noteq> CHR 0x27" "c \<noteq> CHR 0x22" by auto
  with Cons show ?case by (cases "v = []") auto
qed

lemma shell_lex_single:
  "CHR 0x00 \<notin> set v \<Longrightarrow>
    shell_lex Single (Some w) (concat (map (\<lambda>c. if c = CHR 0x27
        then [CHR 0x27, CHR 0x22, CHR 0x27, CHR 0x22, CHR 0x27] else [c]) v) @ CHR 0x27 # rest) =
      shell_lex Unquoted (Some (w @ v)) rest"
proof (induction v arbitrary: w)
  case Nil
  then show ?case by simp
next
  case (Cons c v)
  then show ?case by (cases "c = CHR 0x27") (auto simp: double_literal_def)
qed

lemma shell_lex_quote:
  assumes "CHR 0x00 \<notin> set v"
  shows "shell_lex Unquoted None (shell_quote v @ rest) = shell_lex Unquoted (Some v) rest"
  using assms shell_lex_safe [of v None rest] shell_lex_single [of v "[]" rest]
  by (auto simp: shell_quote_def)

lemma shell_words_join:
  assumes "list_all (\<lambda>w. CHR 0x00 \<notin> set w) ws"
  shows "shell_words (join '' '' (map shell_quote ws)) = Some ws"
  using assms unfolding shell_words_def
proof (induction ws rule: induct_list012)
  case 1
  then show ?case by simp
next
  case (2 w)
  then show ?case using shell_lex_quote [of w "[]"] by simp
next
  case (3 a b ws)
  let ?rest = "join '' '' (map shell_quote (b # ws))"
  have "join '' '' (map shell_quote (a # b # ws)) = shell_quote a @ CHR '' '' # ?rest" by simp
  moreover have "shell_lex Unquoted None ?rest = Some (b # ws)" using 3 by simp
  ultimately show ?case using 3(3) by (simp add: shell_lex_quote del: map_map list.map join.simps)
qed

lemma shell_words_sudo:
  "shell_words (sudo_prefix pw @ body) =
    map_option ((@) (if pw then [''sudo'', ''-S'', ''-p'', []] else [''sudo'', ''-n''])) (shell_words body)"
  by (cases "shell_lex Unquoted None body") (simp_all add: shell_words_def sudo_prefix_def shell_safe_def byte_def)

section \<open>Validated actions\<close>

lemma str_find_prefix: "str_find p (p @ s) = Some 0"
  by (cases "p @ s"; cases p) (auto simp: starts_with_iff_prefix)

lemma find_template_open:
  "\<not> contains s template_open \<Longrightarrow> referenced_inputs s = Inr []"
  by (subst referenced_inputs.simps) (simp add: str_find_None [symmetric])

lemma validate_identifier_chars:
  "validate_identifier i field = Inr () \<Longrightarrow> list_all identifier_char i \<and> 3 \<le> length i"
  by (simp add: validate_identifier_def)

lemma identifier_brace: "list_all identifier_char i \<Longrightarrow> CHR 0x7D \<notin> set i \<and> CHR 0x7B \<notin> set i \<and> CHR 0x00 \<notin> set i"
  by (auto simp: list_all_iff identifier_char_def is_digit_def byte_def)

lemma str_find_close:
  "CHR 0x7D \<notin> set i \<Longrightarrow> str_find template_close (i @ template_close @ s) = Some (length i)"
  by (induction i) (auto simp: template_close_def)

lemma validate_identifier_field: "validate_identifier i f = Inr () \<Longrightarrow> validate_identifier i g = Inr ()"
  by (simp add: validate_identifier_def)

lemma referenced_inputs_template:
  assumes "validate_identifier i f = Inr ()"
  shows "referenced_inputs (input_template i) = Inr [i]"
proof -
  have b: "CHR 0x7D \<notin> set i" using validate_identifier_chars [OF assms] identifier_brace by blast
  have n: "referenced_inputs [] = Inr []" by (rule find_template_open) (simp add: template_open_def)
  have "drop (0 + length template_open) (input_template i) = i @ template_close" by (simp add: input_template_def)
  moreover have "str_find template_open (input_template i) = Some 0"
    using str_find_prefix by (simp add: input_template_def)
  ultimately show ?thesis
    using str_find_close [OF b, of "[]"] validate_identifier_field [OF assms] n
    by (subst referenced_inputs.simps) (simp add: template_close_def)
qed

lemma validate_inputs_ids:
  "validate_inputs seen inps = Inr () \<Longrightarrow>
    distinct (map pi_id inps) \<and> set (map pi_id inps) \<inter> set seen = {} \<and>
    (\<forall>inp \<in> set inps. validate_identifier (pi_id inp) ''input id'' = Inr ())"
proof (induction inps arbitrary: seen)
  case Nil
  then show ?case by simp
next
  case (Cons inp inps)
  from Cons.prems have "validate_input seen inp = Inr ()" "validate_inputs (pi_id inp # seen) inps = Inr ()"
    by (auto simp: rbind_Inr_iff)
  moreover from this(1) have "validate_identifier (pi_id inp) ''input id'' = Inr ()" "pi_id inp \<notin> set seen"
    by (auto simp: validate_input_def rbind_Inr_iff List.member_iff)
  ultimately show ?case using Cons.IH [of "pi_id inp # seen"] by auto
qed

lemma foldm_unit: "foldm (\<lambda>_ x. f x) () xs = Inr () \<longleftrightarrow> (\<forall>x \<in> set xs. f x = Inr ())"
  by (induction xs) (auto simp: rbind_Inr_iff)

lemma validate_actionE:
  assumes "validate_action a = Inr ()"
  shows "validate_program (pa_program a) = Inr ()"
    "distinct (map pi_id (pa_inputs a))"
    "inp \<in> set (pa_inputs a) \<Longrightarrow> validate_identifier (pi_id inp) ''input id'' = Inr ()"
    "arg \<in> set (pa_args a) \<Longrightarrow> validate_arg (pa_id a) (map pi_id (pa_inputs a)) arg = Inr ()"
    "pa_elevate a \<Longrightarrow> pa_requires_confirmation a \<and> \<not> pa_allow_sudo a"
    "length (pa_args a) \<le> 32" "length (pa_inputs a) \<le> 8"
proof -
  have v: "validate_program (pa_program a) = Inr ()" "validate_inputs [] (pa_inputs a) = Inr ()"
    "foldm (\<lambda>_ arg. validate_arg (pa_id a) (map pi_id (pa_inputs a)) arg) () (pa_args a) = Inr ()"
    and rest: "\<not> (pa_elevate a \<and> \<not> pa_requires_confirmation a)" "\<not> (pa_elevate a \<and> pa_allow_sudo a)"
      "length (pa_args a) \<le> 32" "length (pa_inputs a) \<le> 8"
    using assms by (auto simp: validate_action_def rbind_Inr_iff)
  show "validate_program (pa_program a) = Inr ()" by (rule v(1))
  show "distinct (map pi_id (pa_inputs a))"
    "inp \<in> set (pa_inputs a) \<Longrightarrow> validate_identifier (pi_id inp) ''input id'' = Inr ()"
    using validate_inputs_ids [OF v(2)] by auto
  show "arg \<in> set (pa_args a) \<Longrightarrow> validate_arg (pa_id a) (map pi_id (pa_inputs a)) arg = Inr ()"
    using v(3) unfolding foldm_unit by blast
  show "pa_elevate a \<Longrightarrow> pa_requires_confirmation a \<and> \<not> pa_allow_sudo a" "length (pa_args a) \<le> 32" "length (pa_inputs a) \<le> 8"
    using rest by auto
qed

lemma validate_arg_cases:
  assumes "validate_arg action_id ids arg = Inr ()"
  obtains (literal) "referenced_inputs arg = Inr []"
  | (template) i where "i \<in> set ids" "arg = input_template i" "referenced_inputs arg = Inr [i]"
proof -
  obtain refs where refs: "referenced_inputs arg = Inr refs"
    "(case refs of [] \<Rightarrow> Inr () | r # _ \<Rightarrow> ensure (length refs = 1 \<and> arg = input_template r)
        (''Action '' @ action_id @ '' input templates must occupy a complete argument'')) = Inr ()"
    "\<forall>r \<in> set refs. r \<in> set ids"
    using assms by (auto simp: validate_arg_def rbind_Inr_iff foldm_unit List.member_iff split del: list.split)
  then show thesis by (cases refs) (auto intro: literal template)
qed

text \<open>The values: one per declared input.\<close>

lemma collect_values_foldm:
  assumes "foldm (\<lambda>values inp. rbind (input_value inputs inp) (\<lambda>v. Inr (values(pi_id inp \<mapsto> v)))) m inps = Inr values"
    and "distinct (map pi_id inps)"
  shows "(\<forall>inp \<in> set inps. \<exists>v. input_value inputs inp = Inr v \<and> values (pi_id inp) = Some v) \<and>
    (\<forall>i. i \<in> pi_id ` set inps \<or> values i = m i)"
  using assms
proof (induction inps arbitrary: m)
  case Nil
  then show ?case by simp
next
  case (Cons inp inps)
  from Cons.prems(1) obtain v where v: "input_value inputs inp = Inr v"
    and *: "foldm (\<lambda>values inp. rbind (input_value inputs inp) (\<lambda>v. Inr (values(pi_id inp \<mapsto> v)))) (m(pi_id inp \<mapsto> v)) inps = Inr values"
    by (cases "input_value inputs inp") (auto simp del: fun_upd_apply)
  with Cons.IH [OF *] Cons.prems(2) have
    a: "\<forall>inp \<in> set inps. \<exists>v. input_value inputs inp = Inr v \<and> values (pi_id inp) = Some v"
    and b: "\<forall>i. i \<in> pi_id ` set inps \<or> values i = (m(pi_id inp \<mapsto> v)) i" by auto
  from b [rule_format, of "pi_id inp"] Cons.prems(2) have "values (pi_id inp) = Some v" by auto
  with a b v show ?case by auto
qed

lemmas collect_valuesD = collect_values_foldm [of _ Map.empty, folded collect_values_def]

lemma collect_values_ok:
  "is_ok (foldm (\<lambda>values inp. rbind (input_value inputs inp) (\<lambda>v. Inr (values(pi_id inp \<mapsto> v)))) m inps) \<longleftrightarrow>
    (\<forall>inp \<in> set inps. is_ok (input_value inputs inp))"
proof (induction inps arbitrary: m)
  case Nil
  then show ?case by simp
next
  case (Cons inp inps)
  then show ?case by (cases "input_value inputs inp") auto
qed

section \<open>What a rendered command means\<close>

text \<open>The word an argument stands for: the value of the input it names, or itself.\<close>

definition argument_word :: "plugin_action \<Rightarrow> request_inputs \<Rightarrow> string \<Rightarrow> string" where
  "argument_word a inputs arg =
     (case find (\<lambda>inp. arg = input_template (pi_id inp)) (pa_inputs a) of
        None \<Rightarrow> arg
      | Some inp \<Rightarrow> (case input_value inputs inp of Inr v \<Rightarrow> v | Inl _ \<Rightarrow> []))"

definition acceptable_inputs :: "plugin_action \<Rightarrow> request_inputs \<Rightarrow> bool" where
  "acceptable_inputs a inputs \<longleftrightarrow>
     set (map fst inputs) \<subseteq> set (map pi_id (pa_inputs a)) \<and>
     (\<forall>inp \<in> set (pa_inputs a). is_ok (input_value inputs inp))"

lemma input_template_inject [simp]: "input_template i = input_template j \<longleftrightarrow> i = j"
  by (simp add: input_template_def)

lemma render_arg_word:
  assumes "validate_action a = Inr ()" "arg \<in> set (pa_args a)"
    and "collect_values inputs (pa_inputs a) = Inr values"
  shows "render_arg (pa_id a) values arg = Inr (argument_word a inputs arg)"
  using validate_actionE(4) [OF assms(1,2)]
proof (cases rule: validate_arg_cases)
  case literal
  have "find (\<lambda>inp. arg = input_template (pi_id inp)) (pa_inputs a) = None"
    using literal referenced_inputs_template validate_actionE(3) [OF assms(1)]
    by (fastforce simp: find_None_iff)
  with literal show ?thesis by (simp add: render_arg_def argument_word_def)
next
  case (template i)
  then obtain inp where inp: "find (\<lambda>inp. arg = input_template (pi_id inp)) (pa_inputs a) = Some inp"
    by (cases "find (\<lambda>inp. arg = input_template (pi_id inp)) (pa_inputs a)") (auto simp: find_None_iff)
  then have "inp \<in> set (pa_inputs a)" "pi_id inp = i"
    using template(2) by (auto simp: find_Some_iff)
  moreover from this collect_valuesD [OF assms(3) validate_actionE(2) [OF assms(1)]]
  obtain v where "input_value inputs inp = Inr v" "values i = Some v" by blast
  ultimately show ?thesis using template inp by (simp add: render_arg_def argument_word_def)
qed

lemma find_extra_None: "find (\<lambda>(k, _). \<not> List.member ids k) inputs = None \<longleftrightarrow> set (map fst inputs) \<subseteq> set ids"
  by (force simp: find_None_iff List.member_iff)

lemma render_command_eq:
  assumes "validate_action a = Inr ()" "acceptable_inputs a inputs"
  shows "render_command a inputs use_sudo pw =
    Inr ((if use_sudo then sudo_prefix pw else []) @
         join '' '' (map shell_quote (pa_program a # map (argument_word a inputs) (pa_args a))))"
proof -
  have "is_ok (collect_values inputs (pa_inputs a))"
    using assms(2) by (simp add: acceptable_inputs_def collect_values_def collect_values_ok)
  then obtain vals where v: "collect_values inputs (pa_inputs a) = Inr vals"
    by (cases "collect_values inputs (pa_inputs a)") auto
  then have "traverse (render_arg (pa_id a) vals) (pa_args a) = Inr (map (argument_word a inputs) (pa_args a))"
    using render_arg_word [OF assms(1)]
    by (simp add: traverse_Inr_iff list_all2_map2 list.rel_refl_strong)
  then show ?thesis
    using v assms(2) find_extra_None [of "map pi_id (pa_inputs a)" inputs]
    by (simp add: render_command_def acceptable_inputs_def Let_def)
qed

lemma render_command_ok:
  assumes "validate_action a = Inr ()"
  shows "is_ok (render_command a inputs use_sudo pw) \<longleftrightarrow> acceptable_inputs a inputs"
proof
  assume "acceptable_inputs a inputs"
  then show "is_ok (render_command a inputs use_sudo pw)" by (simp add: render_command_eq [OF assms])
next
  assume ok: "is_ok (render_command a inputs use_sudo pw)"
  then have "find (\<lambda>(k, _). \<not> List.member (map pi_id (pa_inputs a)) k) inputs = None"
    by (auto simp: render_command_def Let_def rbind_def split: option.splits sum.splits)
  moreover from ok have "is_ok (collect_values inputs (pa_inputs a))"
    by (auto simp: render_command_def Let_def rbind_def split: option.splits sum.splits)
  ultimately show "acceptable_inputs a inputs"
    unfolding find_extra_None by (simp add: acceptable_inputs_def collect_values_def collect_values_ok)
qed

lemma normalize_input_chars:
  "normalize_input inp v = Inr w \<Longrightarrow>
    length w \<le> 1024 \<and> CHR 0x00 \<notin> set w \<and> CHR 0x0A \<notin> set w \<and> CHR 0x0D \<notin> set w"
  unfolding normalize_input_def by (erule rbind_InrE) (auto simp: rbind_Inr_iff)

lemma argument_word_nul: "CHR 0x00 \<notin> set arg \<Longrightarrow> CHR 0x00 \<notin> set (argument_word a inputs arg)"
  by (auto simp: argument_word_def input_value_def dest: normalize_input_chars [OF sym]
      split: option.splits sum.splits if_splits)

lemma validate_program_nul: "validate_program p = Inr () \<Longrightarrow> CHR 0x00 \<notin> set p"
  by (auto simp: validate_program_def program_char_def byte_def list_all_iff)

lemma validate_actions_all:
  "validate_actions seen as = Inr () \<Longrightarrow>
    distinct (map pa_id as) \<and> set (map pa_id as) \<inter> set seen = {} \<and> (\<forall>a \<in> set as. validate_action a = Inr ())"
proof (induction as arbitrary: seen)
  case Nil
  then show ?case by simp
next
  case (Cons a as)
  from Cons.prems have "validate_action a = Inr ()" "pa_id a \<notin> set seen" "validate_actions (pa_id a # seen) as = Inr ()"
    by (auto simp: rbind_Inr_iff List.member_iff)
  with Cons.IH [of "pa_id a # seen"] show ?case by auto
qed

lemma validate_manifest_entry:
  "validate_manifest settings_size m policy = Inr () \<Longrightarrow> validate_entry m policy = Inr () \<and>
    (policy = ExternalPolicy \<longrightarrow> LocalSystemRead \<notin> set (pm_permissions m))"
  unfolding validate_manifest_def by (auto elim!: rbind_InrE simp: list_ex_iff)

lemma validate_entry_commands:
  assumes "validate_entry m policy = Inr ()" "pm_entry m = Commands actions"
  shows "validate_actions [] actions = Inr () \<and> actions \<noteq> [] \<and> length actions \<le> 24 \<and>
    (SshSession \<in> set (pm_session_types m) \<longrightarrow> RemoteExec \<in> set (pm_permissions m)) \<and>
    (LocalSession \<in> set (pm_session_types m) \<longrightarrow> LocalExec \<in> set (pm_permissions m))"
  using assms by (auto simp: validate_entry_def Let_def List.member_iff elim!: rbind_InrE)

section \<open>A concrete action\<close>

definition sample_action :: plugin_action where
  "sample_action =
     \<lparr>pa_id = ''logs'', pa_name = ''Logs'', pa_description = ''Show logs'', pa_program = ''docker'',
      pa_args = [''logs'', ''--'', ''{{input.container}}''],
      pa_inputs = [\<lparr>pi_id = ''container'', pi_label = ''Container'', pi_description = [], pi_placeholder = [],
                    pi_required = True, pi_kind = TextKind, pi_options = []\<rparr>],
      pa_requires_confirmation = False, pa_elevate = False, pa_allow_sudo = True,
      pa_output = \<lparr>po_kind = TextOutput, po_columns = [], po_delimiter = [CHR 0x09]\<rparr>\<rparr>"

definition sample_manifest :: plugin_manifest where
  "sample_manifest =
     \<lparr>pm_schema_version = 1, pm_id = ''example.tools'', pm_name = ''Tools'', pm_description = ''Example'',
      pm_version = ''1.0.0'', pm_author = ''Example'', pm_category = ''operations'', pm_icon = ''wrench'',
      pm_permissions = [RemoteExec], pm_session_types = [SshSession], pm_default_settings = JObject [],
      pm_entry = Commands [sample_action]\<rparr>"

lemma sample_action_valid: "validate_action sample_action = Inr ()"
  by code_simp

lemma sample_manifest_valid: "validate_manifest (\<lambda>_. Inr 2) sample_manifest ExternalPolicy = Inr ()"
  by code_simp

section \<open>Properties\<close>



text \<open>Supporting result: a validated action renders exactly when its inputs are acceptable: no undeclared input, every
  required one present, and every value of its kind; no template of a validated action is left
  unresolved.\<close>

theorem validated_action_renders:
  assumes "validate_action a = Inr ()"
  shows "is_ok (render_command a inputs use_sudo has_password) \<longleftrightarrow>
    set (map fst inputs) \<subseteq> set (map pi_id (pa_inputs a)) \<and>
    (\<forall>inp \<in> set (pa_inputs a). is_ok (input_value inputs inp))"
  using render_command_ok [OF assms] by (simp add: acceptable_inputs_def)

theorem validated_action_renders_witness:
  "is_ok (render_command sample_action [(''container'', JString ''web'')] False False) \<and>
   \<not> is_ok (render_command sample_action [(''image'', JString ''web'')] False False)"
proof -
  have "is_ok (input_value [(''container'', JString ''web'')] inp)" if "inp \<in> set (pa_inputs sample_action)" for inp
    using that by (auto simp: sample_action_def input_value_def normalize_input_def as_str_def)
  then show ?thesis
    using validated_action_renders [OF sample_action_valid, of "[(''container'', JString ''web'')]" False False]
      validated_action_renders [OF sample_action_valid, of "[(''image'', JString ''web'')]" False False]
    by (simp add: sample_action_def)
qed

text \<open>Supporting result: what validation guarantees of an imported manifest: it can only run declared commands, never
  native code, has the exec permission of every session type it serves and no permission to read
  the local system, its action ids are distinct, every action is valid, and an action that always
  runs under sudo always asks the user.\<close>

theorem external_manifest_is_confined:
  assumes "validate_manifest settings_size m ExternalPolicy = Inr ()"
  shows "\<exists>actions. pm_entry m = Commands actions \<and> actions \<noteq> [] \<and> length actions \<le> 24 \<and>
    distinct (map pa_id actions) \<and> LocalSystemRead \<notin> set (pm_permissions m) \<and>
    (SshSession \<in> set (pm_session_types m) \<longrightarrow> RemoteExec \<in> set (pm_permissions m)) \<and>
    (LocalSession \<in> set (pm_session_types m) \<longrightarrow> LocalExec \<in> set (pm_permissions m)) \<and>
    (\<forall>a \<in> set actions. validate_action a = Inr () \<and> (pa_elevate a \<longrightarrow> pa_requires_confirmation a))"
proof -
  note e = validate_manifest_entry [OF assms]
  obtain actions where "pm_entry m = Commands actions"
    using e by (cases "pm_entry m") (auto simp: validate_entry_def)
  with e validate_entry_commands [of m ExternalPolicy actions] validate_actions_all [of "[]" actions] validate_actionE(5)
  show ?thesis by blast
qed

theorem external_manifest_is_confined_witness:
  "pm_entry sample_manifest = Commands [sample_action] \<and> LocalSystemRead \<notin> set (pm_permissions sample_manifest) \<and>
   validate_action sample_action = Inr ()"
  using external_manifest_is_confined [OF sample_manifest_valid] by (auto simp: sample_manifest_def)

end
