(* ===== verification/Plugin_Host.thy ===== *)
theory Plugin_Host
  imports Plugin_Manifest Gateway
begin

text \<open>
  Installed plugins: the handlers of \<^verbatim>\<open>src-tauri/src/commands/plugin.rs\<close> (install, import,
  enable, uninstall, settings, export), and the execution path shared by the window, the command
  line and the agent gateway, \<^verbatim>\<open>src-tauri/src/plugins/agent.rs\<close> (\<open>prepare\<close>, \<open>execute\<close>) with the
  gateway's \<open>plugin_execute\<close> tool.  The table of installations is a map from plugin ids to rows;
  a handler is a function of it and of an environment: serde's codecs, the embedded manifests, the
  database faults, the clock and the outcome of running a command.  A handler's read and write of
  the table are one step.  \<open>table_after\<close> is the table after a history of handler calls; the lemmas
  \<open>*_row\<close> say which row a handler writes, \<open>enabled_external_step\<close> how an imported plugin comes to be
  enabled, and \<open>execute_spec\<close> what a run requires.
\<close>

section \<open>State and environment\<close>

record plugin_installation =
  in_plugin_id :: string
  in_version :: string
  in_manifest_json :: string
  in_source :: string
  in_enabled :: bool
  in_granted_permissions_json :: string
  in_settings_json :: string
  in_installed_at :: int
  in_updated_at :: int

type_synonym plugin_table = "string \<rightharpoonup> plugin_installation"

record plugin_record =
  rec_manifest :: plugin_manifest
  rec_source :: plugin_source
  rec_installed :: bool
  rec_enabled :: bool
  rec_granted_permissions :: "plugin_permission list"
  rec_settings :: json
  rec_installed_at :: "int option"

record plugin_env =
  pe_from_json :: "string \<Rightarrow> string + plugin_manifest"
  pe_to_json :: "plugin_manifest \<Rightarrow> string + string"
  pe_settings_size :: "json \<Rightarrow> string + nat"
  pe_permissions_of_json :: "string \<Rightarrow> (plugin_permission list) option"
  pe_permissions_to_json :: "plugin_permission list \<Rightarrow> string + string"
  pe_value_of_json :: "string \<Rightarrow> json option"
  pe_value_to_json :: "json \<Rightarrow> string + string"
  pe_value_display :: "json \<Rightarrow> string"
  pe_embedded :: "(string \<times> string) list"
  pe_read_fault :: "string option"
  pe_write_fault :: "string option"
  pe_now :: int
  pe_guard_setting :: "string + string option"
  pe_guard_decode :: "string \<Rightarrow> guard_config option"
  pe_status_command :: string
  pe_is_local :: "string \<Rightarrow> bool"
  pe_record_activity :: "activity_status \<Rightarrow> string + unit"
  pe_run_local :: "string \<Rightarrow> string option \<Rightarrow> string + string"
  pe_local_status :: "string + string"
  pe_session_exists :: "string \<Rightarrow> bool"
  pe_run_remote :: "string \<Rightarrow> string \<Rightarrow> string option \<Rightarrow> string + string"
  pe_parse_status :: "string \<Rightarrow> string + string"

section \<open>The table\<close>

definition plugin_installation_get ::
    "plugin_env \<Rightarrow> plugin_table \<Rightarrow> string \<Rightarrow> string + plugin_installation option" where
  "plugin_installation_get env db i = (case pe_read_fault env of Some e \<Rightarrow> Inl e | None \<Rightarrow> Inr (db i))"

text \<open>The conflict clause keeps the installation date of an existing row.\<close>

definition plugin_installation_upsert ::
    "plugin_env \<Rightarrow> plugin_installation \<Rightarrow> plugin_table \<Rightarrow> string + plugin_table" where
  "plugin_installation_upsert env r db =
     (case pe_write_fault env of
        Some e \<Rightarrow> Inl e
      | None \<Rightarrow> Inr (db(in_plugin_id r \<mapsto>
          (case db (in_plugin_id r) of
             None \<Rightarrow> r
           | Some old \<Rightarrow> r\<lparr>in_installed_at := in_installed_at old\<rparr>))))"

definition plugin_installation_update_settings ::
    "plugin_env \<Rightarrow> string \<Rightarrow> string \<Rightarrow> plugin_table \<Rightarrow> string + plugin_table" where
  "plugin_installation_update_settings env i settings_json db =
     (case pe_write_fault env of
        Some e \<Rightarrow> Inl e
      | None \<Rightarrow> Inr (case db i of
          None \<Rightarrow> db
        | Some r \<Rightarrow> db(i \<mapsto> r\<lparr>in_settings_json := settings_json, in_updated_at := pe_now env\<rparr>)))"

definition plugin_installation_delete :: "plugin_env \<Rightarrow> string \<Rightarrow> plugin_table \<Rightarrow> string + plugin_table" where
  "plugin_installation_delete env i db =
     (case pe_write_fault env of Some e \<Rightarrow> Inl e | None \<Rightarrow> Inr (db(i := None)))"

section \<open>Handlers\<close>

definition catalog :: "plugin_env \<Rightarrow> string + plugin_manifest list" where
  "catalog env = builtin_catalog (pe_from_json env) (pe_settings_size env) (pe_embedded env)"

definition parse_external :: "plugin_env \<Rightarrow> string \<Rightarrow> string + plugin_manifest" where
  "parse_external env text = parse_manifest (pe_from_json env) (pe_settings_size env) text ExternalPolicy"

definition manifest_for_installation ::
    "plugin_env \<Rightarrow> plugin_installation \<Rightarrow> plugin_source \<Rightarrow> string + plugin_manifest" where
  "manifest_for_installation env r source =
     (if source = Builtin
      then rbind (catalog env) (\<lambda>ms.
           ok_or (find (\<lambda>m. pm_id m = in_plugin_id r) ms) (''Built-in plugin not found: '' @ in_plugin_id r))
      else parse_external env (in_manifest_json r))"

definition record_from_installation :: "plugin_env \<Rightarrow> plugin_installation \<Rightarrow> string + plugin_record" where
  "record_from_installation env r =
     rbind (source_parse (in_source r)) (\<lambda>source.
     rbind (manifest_for_installation env r source) (\<lambda>m.
     Inr \<lparr>rec_manifest = m, rec_source = source, rec_installed = True, rec_enabled = in_enabled r,
          rec_granted_permissions =
            (case pe_permissions_of_json env (in_granted_permissions_json r) of Some ps \<Rightarrow> ps | None \<Rightarrow> []),
          rec_settings =
            (case pe_value_of_json env (in_settings_json r) of
               Some v \<Rightarrow> if is_object v then v else pm_default_settings m
             | None \<Rightarrow> pm_default_settings m),
          rec_installed_at = Some (in_installed_at r)\<rparr>))"

text \<open>\<open>rows\<close> is the answer of the query, ordered by installation date.\<close>

definition list_plugins :: "plugin_env \<Rightarrow> string + plugin_installation list \<Rightarrow> string + plugin_record list" where
  "list_plugins env rows =
     rbind rows (\<lambda>installations.
     rbind (catalog env) (\<lambda>ms.
     rbind (traverse (\<lambda>m.
              case find (\<lambda>r. in_plugin_id r = pm_id m) (rev installations) of
                Some r \<Rightarrow> rbind (record_from_installation env r) (\<lambda>rec. Inr (rec\<lparr>rec_manifest := m\<rparr>))
              | None \<Rightarrow> Inr \<lparr>rec_manifest = m, rec_source = Builtin, rec_installed = False, rec_enabled = False,
                            rec_granted_permissions = [], rec_settings = pm_default_settings m,
                            rec_installed_at = None\<rparr>) ms) (\<lambda>builtin.
     rbind (traverse (record_from_installation env)
              (filter (\<lambda>r. in_source r = source_as_str External) installations)) (\<lambda>external.
     Inr (builtin @ external)))))"

definition install_builtin ::
    "plugin_env \<Rightarrow> string \<Rightarrow> plugin_table \<Rightarrow> plugin_table \<times> (string + plugin_record)" where
  "install_builtin env plugin_id db =
     (case rbind (catalog env) (\<lambda>ms.
           rbind (ok_or (find (\<lambda>m. pm_id m = plugin_id) ms) (''Built-in plugin not found: '' @ plugin_id)) (\<lambda>m.
           rbind (plugin_installation_get env db plugin_id) (\<lambda>existing.
           rbind (ensure (\<not> (case existing of Some r \<Rightarrow> in_source r \<noteq> source_as_str Builtin | None \<Rightarrow> False))
                    (''Plugin id is already used by an external plugin: '' @ plugin_id)) (\<lambda>_.
           rbind (case pe_to_json env m of
                    Inl e \<Rightarrow> Inl (''Failed to encode plugin manifest: '' @ e) | Inr t \<Rightarrow> Inr t) (\<lambda>manifest_json.
           rbind (case pe_permissions_to_json env (pm_permissions m) of
                    Inl e \<Rightarrow> Inl (''Failed to encode plugin permissions: '' @ e) | Inr t \<Rightarrow> Inr t) (\<lambda>granted.
           let r = \<lparr>in_plugin_id = pm_id m, in_version = pm_version m, in_manifest_json = manifest_json,
                    in_source = source_as_str Builtin, in_enabled = True,
                    in_granted_permissions_json = granted,
                    in_settings_json =
                      (case existing of Some old \<Rightarrow> in_settings_json old
                       | None \<Rightarrow> pe_value_display env (pm_default_settings m)),
                    in_installed_at = (case existing of Some old \<Rightarrow> in_installed_at old | None \<Rightarrow> pe_now env),
                    in_updated_at = pe_now env\<rparr> in
           rbind (plugin_installation_upsert env r db) (\<lambda>db'. Inr (db', r)))))))) of
        Inl e \<Rightarrow> (db, Inl e)
      | Inr (db', r) \<Rightarrow> (db', record_from_installation env r))"

definition install_external_manifest ::
    "plugin_env \<Rightarrow> string \<Rightarrow> plugin_table \<Rightarrow> plugin_table \<times> (string + plugin_record)" where
  "install_external_manifest env text db =
     (case rbind (parse_external env text) (\<lambda>m.
           rbind (catalog env) (\<lambda>ms.
           rbind (ensure (\<not> list_ex (\<lambda>b. pm_id b = pm_id m) ms)
                    (''External plugin id conflicts with a built-in plugin: '' @ pm_id m)) (\<lambda>_.
           rbind (plugin_installation_get env db (pm_id m)) (\<lambda>existing.
           rbind (case pe_to_json env m of
                    Inl e \<Rightarrow> Inl (''Failed to encode plugin manifest: '' @ e) | Inr t \<Rightarrow> Inr t) (\<lambda>manifest_json.
           let r = \<lparr>in_plugin_id = pm_id m, in_version = pm_version m, in_manifest_json = manifest_json,
                    in_source = source_as_str External, in_enabled = False,
                    in_granted_permissions_json = ''[]'',
                    in_settings_json =
                      (case existing of
                         Some old \<Rightarrow> if in_source old = source_as_str External then in_settings_json old
                                     else pe_value_display env (pm_default_settings m)
                       | None \<Rightarrow> pe_value_display env (pm_default_settings m)),
                    in_installed_at = (case existing of Some old \<Rightarrow> in_installed_at old | None \<Rightarrow> pe_now env),
                    in_updated_at = pe_now env\<rparr> in
           rbind (plugin_installation_upsert env r db) (\<lambda>db'. Inr (db', r))))))) of
        Inl e \<Rightarrow> (db, Inl e)
      | Inr (db', r) \<Rightarrow> (db', record_from_installation env r))"

definition set_plugin_enabled ::
    "plugin_env \<Rightarrow> string \<Rightarrow> bool \<Rightarrow> plugin_table \<Rightarrow> plugin_table \<times> (string + plugin_record)" where
  "set_plugin_enabled env plugin_id enabled db =
     (case rbind (plugin_installation_get env db plugin_id) (\<lambda>existing.
           rbind (ok_or existing (''Plugin is not installed: '' @ plugin_id)) (\<lambda>old.
           rbind (source_parse (in_source old)) (\<lambda>source.
           rbind (manifest_for_installation env old source) (\<lambda>m.
           rbind (if enabled
                  then (case pe_permissions_to_json env (pm_permissions m) of
                          Inl e \<Rightarrow> Inl (''Failed to encode plugin permissions: '' @ e) | Inr t \<Rightarrow> Inr t)
                  else Inr ''[]'') (\<lambda>granted.
           let r = old\<lparr>in_enabled := enabled, in_granted_permissions_json := granted, in_updated_at := pe_now env\<rparr> in
           rbind (plugin_installation_upsert env r db) (\<lambda>db'. Inr (db', r))))))) of
        Inl e \<Rightarrow> (db, Inl e)
      | Inr (db', r) \<Rightarrow> (db', record_from_installation env r))"

definition plugin_uninstall :: "plugin_env \<Rightarrow> string \<Rightarrow> plugin_table \<Rightarrow> plugin_table \<times> (string + unit)" where
  "plugin_uninstall env plugin_id db =
     (case rbind (plugin_installation_get env db plugin_id) (\<lambda>existing.
           rbind (ensure (existing \<noteq> None) (''Plugin is not installed: '' @ plugin_id)) (\<lambda>_.
           plugin_installation_delete env plugin_id db)) of
        Inl e \<Rightarrow> (db, Inl e)
      | Inr db' \<Rightarrow> (db', Inr ()))"

definition plugin_update_settings ::
    "plugin_env \<Rightarrow> string \<Rightarrow> json \<Rightarrow> plugin_table \<Rightarrow> plugin_table \<times> (string + plugin_record)" where
  "plugin_update_settings env plugin_id settings db =
     (case rbind (ensure (is_object settings) ''Plugin settings must be a JSON object'') (\<lambda>_.
           rbind (case pe_value_to_json env settings of
                    Inl e \<Rightarrow> Inl (''Failed to encode plugin settings: '' @ e) | Inr t \<Rightarrow> Inr t) (\<lambda>settings_json.
           rbind (ensure (length settings_json \<le> max_plugin_settings_bytes)
                    (''Plugin settings exceed the '' @ show_nat (max_plugin_settings_bytes div 1024) @ '' KB limit'')) (\<lambda>_.
           rbind (plugin_installation_get env db plugin_id) (\<lambda>existing.
           rbind (ok_or existing (''Plugin is not installed: '' @ plugin_id)) (\<lambda>old.
           rbind (plugin_installation_update_settings env plugin_id settings_json db) (\<lambda>db'.
           Inr (db', old\<lparr>in_settings_json := settings_json\<rparr>))))))) of
        Inl e \<Rightarrow> (db, Inl e)
      | Inr (db', r) \<Rightarrow> (db', record_from_installation env r))"

definition export_manifest_for :: "plugin_env \<Rightarrow> plugin_table \<Rightarrow> string \<Rightarrow> string + plugin_manifest" where
  "export_manifest_for env db plugin_id =
     rbind (plugin_installation_get env db plugin_id) (\<lambda>existing.
     case existing of
       Some r \<Rightarrow> rbind (source_parse (in_source r)) (\<lambda>source. manifest_for_installation env r source)
     | None \<Rightarrow> rbind (catalog env) (\<lambda>ms.
         ok_or (find (\<lambda>m. pm_id m = plugin_id) ms) (''Plugin not found: '' @ plugin_id)))"

section \<open>Execution\<close>

definition permission_satisfied ::
    "plugin_source \<Rightarrow> plugin_manifest \<Rightarrow> plugin_permission list \<Rightarrow> plugin_permission \<Rightarrow> bool" where
  "permission_satisfied source m granted required =
     (case source of
        Builtin \<Rightarrow> List.member (pm_permissions m) required
      | External \<Rightarrow> List.member granted required)"

record plugin_request =
  rq_confirmed :: bool
  rq_plugin_id :: string
  rq_action_id :: string
  rq_session_id :: string
  rq_inputs :: request_inputs
  rq_sudo_password :: "string option"
  rq_try_sudo :: bool

record prepared_action =
  pr_command :: string
  pr_stdin :: "string option"
  pr_requires_confirmation :: bool
  pr_native_status :: bool

definition prepare_native :: "plugin_env \<Rightarrow> plugin_request \<Rightarrow> string + prepared_action" where
  "prepare_native env request =
     (if rq_action_id request \<noteq> ''status'' \<or> rq_inputs request \<noteq> [] \<or> rq_try_sudo request \<or>
         rq_sudo_password request \<noteq> None
      then Inl ''Server Performance exposes only status with no inputs or sudo''
      else Inr \<lparr>pr_command = pe_status_command env, pr_stdin = None, pr_requires_confirmation = False,
                pr_native_status = True\<rparr>)"

definition prepare_action :: "plugin_env \<Rightarrow> plugin_action \<Rightarrow> plugin_request \<Rightarrow> string + prepared_action" where
  "prepare_action env a request =
     rbind (ensure (\<not> (rq_try_sudo request \<and> \<not> pa_allow_sudo a)) ''This action does not allow optional sudo'') (\<lambda>_.
     let use_sudo = pa_elevate a \<or> rq_try_sudo request;
         stdin = (if use_sudo
                  then Option.bind (rq_sudo_password request) (\<lambda>p. if p \<noteq> [] then Some p else None)
                  else None) in
     rbind (render_command a (rq_inputs request) use_sudo (stdin \<noteq> None)) (\<lambda>command.
     rbind (pe_guard_setting env) (\<lambda>setting.
     let config = from_stored_json (pe_guard_decode env) setting in
     Inr \<lparr>pr_command = command, pr_stdin = stdin,
          pr_requires_confirmation =
            (pa_requires_confirmation a \<or> use_sudo \<or>
             (gc_enabled config \<and> rd_requires_approval (classify_command command config))),
          pr_native_status = False\<rparr>)))"

definition native_status_view :: "plugin_manifest \<Rightarrow> bool" where
  "native_status_view m \<longleftrightarrow> pm_entry m = NativeView ''server-status''"

definition required_permission :: "plugin_manifest \<Rightarrow> bool \<Rightarrow> plugin_permission" where
  "required_permission m is_local =
     (if native_status_view m then LocalSystemRead else if is_local then LocalExec else RemoteExec)"

definition prepare ::
    "plugin_env \<Rightarrow> plugin_table \<Rightarrow> plugin_request \<Rightarrow> bool \<Rightarrow> string + prepared_action" where
  "prepare env db request is_local =
     rbind (plugin_installation_get env db (rq_plugin_id request)) (\<lambda>found.
     rbind (ok_or found (''Plugin is not installed: '' @ rq_plugin_id request)) (\<lambda>installation.
     rbind (ensure (in_enabled installation) (''Plugin is disabled: '' @ rq_plugin_id request)) (\<lambda>_.
     rbind (source_parse (in_source installation)) (\<lambda>source.
     rbind (manifest_for_installation env installation source) (\<lambda>m.
     rbind (ensure (List.member (pm_session_types m) (if is_local then LocalSession else SshSession))
              ''Plugin does not support this session type'') (\<lambda>_.
     rbind (ok_or (pe_permissions_of_json env (in_granted_permissions_json installation))
              ''Stored plugin permissions are invalid'') (\<lambda>granted.
     let permission = required_permission m is_local in
     rbind (ensure (List.member (pm_permissions m) permission \<and> permission_satisfied source m granted permission)
              ''Plugin lacks the required declared and granted permission'') (\<lambda>_.
     if native_status_view m then prepare_native env request
     else
       (case pm_entry m of
          NativeView _ \<Rightarrow> Inl ''Unsupported native plugin''
        | Commands actions \<Rightarrow>
            rbind (ok_or (find (\<lambda>a. pa_id a = rq_action_id request) actions)
                     (''Plugin action not found: '' @ rq_plugin_id request @ ''/'' @ rq_action_id request)) (\<lambda>a.
            prepare_action env a request))))))))))"

definition max_plugin_output_bytes :: nat where "max_plugin_output_bytes = 1000000"

definition is_char_boundary :: "string \<Rightarrow> nat \<Rightarrow> bool" where
  "is_char_boundary s n \<longleftrightarrow> n = 0 \<or> n = length s \<or> (n < length s \<and> \<not> is_cont (s ! n))"

text \<open>The loop that steps back to a character boundary; position 0 is one.\<close>

fun floor_boundary :: "string \<Rightarrow> nat \<Rightarrow> nat" where
  "floor_boundary s n = (if is_char_boundary s n then n else if n = 0 then 0 else floor_boundary s (n - 1))"

declare floor_boundary.simps [simp del]

definition truncate_output :: "string \<Rightarrow> string \<times> bool" where
  "truncate_output output =
     (if length output \<le> max_plugin_output_bytes then (output, False)
      else (take (floor_boundary output max_plugin_output_bytes) output, True))"

text \<open>The bounded capture of one stream of a local command; \<open>chunks\<close> are what the reads return.\<close>

fun capture :: "string \<Rightarrow> string list \<Rightarrow> string" where
  "capture output [] = output"
| "capture output (chunk # chunks) =
     (if chunk = [] then output
      else capture (output @ take (min (length chunk) (max_plugin_output_bytes + 1 - length output)) chunk) chunks)"

record local_run =
  lr_spawn :: "string + unit"
  lr_timed_out :: bool
  lr_io :: "string + unit"
  lr_stdout :: "string list"
  lr_stderr :: "string list"
  lr_success :: bool
  lr_status :: string

definition run_local_command :: "(string \<Rightarrow> string) \<Rightarrow> local_run \<Rightarrow> string + string" where
  "run_local_command from_utf8_lossy run =
     rbind (case lr_spawn run of Inl e \<Rightarrow> Inl (''Failed to spawn plugin: '' @ e) | Inr _ \<Rightarrow> Inr ()) (\<lambda>_.
     rbind (ensure (\<not> lr_timed_out run) ''Local plugin timed out after 60s'') (\<lambda>_.
     rbind (case lr_io run of Inl e \<Rightarrow> Inl (''Local plugin failed: '' @ e) | Inr _ \<Rightarrow> Inr ()) (\<lambda>_.
     let output = from_utf8_lossy (capture [] (lr_stdout run) @ capture [] (lr_stderr run)) in
     if lr_success run then Inr output
     else Inl (''Local plugin exited with '' @ lr_status run @ '': '' @ concat (take 4096 (utf8_chars output))))))"

record plugin_result =
  res_plugin_id :: string
  res_action_id :: string
  res_output :: string
  res_truncated :: bool

text \<open>The asynchronous block of \<open>execute\<close>: \<open>Executed\<close> marks that the command was handed to the local
  shell or to the exec channel of the session.\<close>

definition run_prepared ::
    "plugin_env \<Rightarrow> plugin_request \<Rightarrow> bool \<Rightarrow> prepared_action \<Rightarrow> gateway_state \<Rightarrow> gateway_state \<times> (string + string)" where
  "run_prepared env request is_local p st =
     (if is_local
      then (if pr_native_status p then (st, pe_local_status env)
            else (perform (Executed (rq_session_id request) (pr_command p)) st,
                  pe_run_local env (pr_command p) (pr_stdin p)))
      else if \<not> pe_session_exists env (rq_session_id request) then (st, Inl ''Session not found'')
      else (perform (Executed (rq_session_id request) (pr_command p)) st,
            rbind (pe_run_remote env (rq_session_id request) (pr_command p) (pr_stdin p)) (\<lambda>output.
            if pr_native_status p then pe_parse_status env output else Inr output)))"

definition execute ::
    "plugin_env \<Rightarrow> plugin_table \<Rightarrow> plugin_request \<Rightarrow> string \<Rightarrow> string option \<Rightarrow> gateway_state \<Rightarrow>
     gateway_state \<times> (string + plugin_result)" where
  "execute env db request source reviewed_command st =
     (let is_local = pe_is_local env (rq_session_id request) in
      case rbind (prepare env db request is_local) (\<lambda>p.
           rbind (ensure (\<not> (case reviewed_command of Some reviewed \<Rightarrow> reviewed \<noteq> pr_command p | None \<Rightarrow> False))
                    ''Plugin changed while approval was pending; review the current action again'') (\<lambda>_.
           rbind (ensure (\<not> (pr_requires_confirmation p \<and> \<not> rq_confirmed request))
                    ''This plugin action requires explicit approval; request human confirmation before using --confirm'') (\<lambda>_.
           rbind (pe_record_activity env Started) (\<lambda>_. Inr p)))) of
        Inl e \<Rightarrow> (st, Inl e)
      | Inr p \<Rightarrow>
          (let summary = rq_plugin_id request @ ''/'' @ rq_action_id request @ [CHR 0x0A] @
                 (if pr_native_status p then ''Read performance snapshot'' else pr_command p);
               st1 = perform (Activity source summary Started (rq_session_id request)) st in
           case run_prepared env request is_local p st1 of
             (st2, outcome) \<Rightarrow>
               (let progress = (if is_ok outcome then Succeeded else Failed);
                    st3 = (case pe_record_activity env progress of
                             Inr _ \<Rightarrow> perform (Activity source summary progress (rq_session_id request)) st2
                           | Inl _ \<Rightarrow> st2) in
                (st3, rbind outcome (\<lambda>out.
                   let (text, truncated) = truncate_output out in
                   Inr \<lparr>res_plugin_id = rq_plugin_id request, res_action_id = rq_action_id request,
                        res_output = text, res_truncated = truncated\<rparr>)))))"

text \<open>The agent's tool.  \<open>db\<close> is the table when the request is prepared and shown, \<open>env'\<close> and \<open>db'\<close> the
  world after the user has answered.\<close>

definition tool_plugin_execute ::
    "gateway_env \<Rightarrow> plugin_env \<Rightarrow> plugin_table \<Rightarrow> plugin_env \<Rightarrow> plugin_table \<Rightarrow> plugin_request \<Rightarrow> gateway_state \<Rightarrow>
     gateway_state \<times> (string + plugin_result)" where
  "tool_plugin_execute genv env db env' db' request0 st =
     (let request1 = request0\<lparr>rq_confirmed := False\<rparr> in
      case rbind (if pe_is_local env (rq_session_id request1) then Inr request1
                  else rbind (ge_resolve genv (rq_session_id request1)) (\<lambda>i. Inr (request1\<lparr>rq_session_id := i\<rparr>))) (\<lambda>request.
           rbind (prepare env db request (pe_is_local env (rq_session_id request))) (\<lambda>p. Inr (request, p))) of
        Inl e \<Rightarrow> (st, Inl e)
      | Inr (request, p) \<Rightarrow>
          (if pr_requires_confirmation p
           then (case require_approval genv 0 ''plugin_execute'' (Some (rq_session_id request)) (pr_command p)
                        [''Plugin action '' @ rq_plugin_id request @ ''/'' @ rq_action_id request @ '' requires approval''] st of
                   (st1, Inl e) \<Rightarrow> (st1, Inl e)
                 | (st1, Inr _) \<Rightarrow>
                     execute env' db' (request\<lparr>rq_confirmed := True\<rparr>) ''mcp.plugin'' (Some (pr_command p)) st1)
           else execute env' db' request ''mcp.plugin'' (Some (pr_command p)) st))"

section \<open>Rows and operations\<close>

datatype plugin_op =
    OpInstall string
  | OpImport string
  | OpEnable string bool
  | OpUninstall string
  | OpSettings string json

definition run_op :: "plugin_env \<Rightarrow> plugin_op \<Rightarrow> plugin_table \<Rightarrow> plugin_table" where
  "run_op env op db =
     (case op of
        OpInstall i \<Rightarrow> fst (install_builtin env i db)
      | OpImport text \<Rightarrow> fst (install_external_manifest env text db)
      | OpEnable i b \<Rightarrow> fst (set_plugin_enabled env i b db)
      | OpUninstall i \<Rightarrow> fst (plugin_uninstall env i db)
      | OpSettings i v \<Rightarrow> fst (plugin_update_settings env i v db))"

definition table_after :: "(plugin_env \<times> plugin_op) list \<Rightarrow> plugin_table" where
  "table_after ops = foldl (\<lambda>db (env, op). run_op env op db) Map.empty ops"

definition keys_ok :: "plugin_table \<Rightarrow> bool" where
  "keys_ok db \<longleftrightarrow> (\<forall>i r. db i = Some r \<longrightarrow> in_plugin_id r = i)"

lemma upsert_Inr:
  "plugin_installation_upsert env r db = Inr db' \<Longrightarrow>
    \<exists>at. db' = db(in_plugin_id r \<mapsto> r\<lparr>in_installed_at := at\<rparr>)"
  by (cases "db (in_plugin_id r)")
    (auto simp: plugin_installation_upsert_def split: option.splits intro: exI [of _ "in_installed_at r"])

text \<open>A handler that fails keeps the table; one that succeeds stores the row it has built.\<close>

lemma handler_row:
  assumes "fst (case r of Inl e \<Rightarrow> (db, Inl e) | Inr (db', row) \<Rightarrow> (db', f row)) \<noteq> db"
  obtains db' row where "r = Inr (db', row)"
    "fst (case r of Inl e \<Rightarrow> (db, Inl e) | Inr (db', row) \<Rightarrow> (db', f row)) = db'"
  using assms by (cases r) auto

lemma install_builtin_row:
  assumes "fst (install_builtin env i db) \<noteq> db"
  shows "\<exists>r. fst (install_builtin env i db) = db(i \<mapsto> r) \<and> in_plugin_id r = i \<and> in_source r = ''builtin''"
  using assms unfolding install_builtin_def Let_def
  by (elim handler_row rbind_InrE)
     (auto simp: find_Some_iff source_as_str_def dest!: upsert_Inr simp del: fun_upd_apply)

lemma import_row:
  assumes "fst (install_external_manifest env text db) \<noteq> db"
  shows "\<exists>r m. fst (install_external_manifest env text db) = db(pm_id m \<mapsto> r) \<and> parse_external env text = Inr m \<and>
    in_plugin_id r = pm_id m \<and> \<not> in_enabled r"
  using assms unfolding install_external_manifest_def Let_def
  by (elim handler_row rbind_InrE) (auto dest!: upsert_Inr simp del: fun_upd_apply)

lemma set_enabled_row:
  assumes "fst (set_plugin_enabled env i b db) \<noteq> db"
  shows "\<exists>old r source m. db i = Some old \<and> fst (set_plugin_enabled env i b db) = db(in_plugin_id old \<mapsto> r) \<and>
    source_parse (in_source old) = Inr source \<and> manifest_for_installation env old source = Inr m \<and>
    in_plugin_id r = in_plugin_id old \<and> in_source r = in_source old \<and> in_enabled r = b \<and>
    in_manifest_json r = in_manifest_json old \<and>
    (b \<longrightarrow> pe_permissions_to_json env (pm_permissions m) = Inr (in_granted_permissions_json r))"
  using assms unfolding set_plugin_enabled_def Let_def
  by (elim handler_row rbind_InrE)
     (auto simp: plugin_installation_get_def dest!: upsert_Inr split: option.splits sum.splits if_splits simp del: fun_upd_apply)

lemma uninstall_row: "fst (plugin_uninstall env i db) = db \<or> fst (plugin_uninstall env i db) = db(i := None)"
  by (auto simp: plugin_uninstall_def plugin_installation_delete_def rbind_def split: sum.splits option.splits)

lemma settings_row:
  assumes "fst (plugin_update_settings env i v db) \<noteq> db"
  shows "\<exists>old t at. db i = Some old \<and> fst (plugin_update_settings env i v db) =
    db(i \<mapsto> old\<lparr>in_settings_json := t, in_updated_at := at\<rparr>)"
  using assms unfolding plugin_update_settings_def
  by (elim handler_row rbind_InrE)
     (auto simp: plugin_installation_get_def plugin_installation_update_settings_def split: option.splits)

lemma keys_ok_upd: "keys_ok db \<Longrightarrow> in_plugin_id r = i \<Longrightarrow> keys_ok (db(i \<mapsto> r))"
  by (auto simp: keys_ok_def)

lemma keys_ok_step: "keys_ok db \<Longrightarrow> keys_ok (run_op env op db)"
proof (cases op)
  case (OpInstall i)
  assume "keys_ok db"
  then show ?thesis using OpInstall install_builtin_row [of env i db]
    by (cases "fst (install_builtin env i db) = db") (auto simp: run_op_def keys_ok_upd)
next
  case (OpImport t)
  assume "keys_ok db"
  then show ?thesis using OpImport import_row [of env t db]
    by (cases "fst (install_external_manifest env t db) = db") (auto simp: run_op_def keys_ok_upd)
next
  case (OpEnable i b)
  assume "keys_ok db"
  then show ?thesis using OpEnable set_enabled_row [of env i b db]
    by (cases "fst (set_plugin_enabled env i b db) = db") (auto simp: run_op_def keys_ok_upd)
next
  case (OpUninstall i)
  assume "keys_ok db"
  then show ?thesis using OpUninstall uninstall_row [of env i db]
    by (auto simp: run_op_def keys_ok_def split: if_splits)
next
  case (OpSettings i v)
  assume "keys_ok db"
  then show ?thesis using OpSettings settings_row [of env i v db]
    by (cases "fst (plugin_update_settings env i v db) = db") (auto simp: run_op_def keys_ok_def split: if_splits)
qed

interpretation plugins: inductive_invariant
  "\<lambda>db. db = Map.empty" "\<lambda>db db'. \<exists>env op. db' = run_op env op db" keys_ok
proof
  show "keys_ok s" if "s = Map.empty" for s using that by (simp add: keys_ok_def)
  show "keys_ok t" if "keys_ok s" "\<exists>env op. t = run_op env op s" for s t using that keys_ok_step by blast
qed

lemma table_after_simps [simp]:
  "table_after [] = Map.empty" "table_after (ops @ [(env, op)]) = run_op env op (table_after ops)"
  by (simp_all add: table_after_def)

lemma table_after_keys: "keys_ok (table_after ops)"
proof (induction ops rule: rev_induct)
  case Nil
  then show ?case by (simp add: keys_ok_def)
next
  case (snoc x xs)
  then show ?case by (cases x) (simp add: keys_ok_step)
qed

text \<open>An enabled external row after a step: the step enabled it, or it was there before, enabled,
  with the same manifest and the same grants.\<close>

definition enabled_external :: "plugin_installation \<Rightarrow> bool" where
  "enabled_external r \<longleftrightarrow> in_source r = ''external'' \<and> in_enabled r"

definition same_grant :: "plugin_installation \<Rightarrow> plugin_installation \<Rightarrow> bool" where
  "same_grant r r' \<longleftrightarrow> in_manifest_json r = in_manifest_json r' \<and>
     in_granted_permissions_json r = in_granted_permissions_json r'"

lemma enabled_external_step:
  assumes "keys_ok db" "run_op env op db i = Some r" "enabled_external r"
  obtains (kept) r0 where "db i = Some r0" "enabled_external r0" "same_grant r r0"
  | (enabled) r0 m where "op = OpEnable i True" "db i = Some r0" "in_source r0 = ''external''"
      "in_manifest_json r = in_manifest_json r0" "parse_external env (in_manifest_json r0) = Inr m"
      "pe_permissions_to_json env (pm_permissions m) = Inr (in_granted_permissions_json r)"
proof (cases "run_op env op db i = db i")
  case True
  with assms show thesis by (intro kept [of r]) (auto simp: same_grant_def)
next
  case False
  then have changed: "run_op env op db \<noteq> db" by auto
  show thesis
  proof (cases op)
    case (OpInstall j)
    with False changed install_builtin_row [of env j db] assms(2,3) show thesis
      by (auto simp: run_op_def enabled_external_def split: if_splits)
  next
    case (OpImport t)
    with False changed import_row [of env t db] assms(2,3) show thesis
      by (auto simp: run_op_def enabled_external_def split: if_splits)
  next
    case (OpEnable j b)
    with changed set_enabled_row [of env j b db] obtain old r' source m where s:
      "db j = Some old" "run_op env op db = db(in_plugin_id old \<mapsto> r')"
      "source_parse (in_source old) = Inr source" "manifest_for_installation env old source = Inr m"
      "in_source r' = in_source old" "in_enabled r' = b" "in_manifest_json r' = in_manifest_json old"
      "b \<longrightarrow> pe_permissions_to_json env (pm_permissions m) = Inr (in_granted_permissions_json r')"
      by (auto simp: run_op_def simp del: fun_upd_apply)
    from s(1) assms(1) have "in_plugin_id old = j" by (auto simp: keys_ok_def)
    with s(2) False assms(2) have "i = j" "r' = r" by (auto split: if_splits)
    with s assms(3) OpEnable show thesis
      by (intro enabled [of old m])
         (auto simp: enabled_external_def source_parse_def manifest_for_installation_def split: if_splits)
  next
    case (OpUninstall j)
    with False uninstall_row [of env j db] assms(2) show thesis
      by (auto simp: run_op_def split: if_splits)
  next
    case (OpSettings j v)
    with changed settings_row [of env j v db] obtain old t at where "db j = Some old"
      "run_op env op db = db(j \<mapsto> old\<lparr>in_settings_json := t, in_updated_at := at\<rparr>)"
      by (auto simp: run_op_def simp del: fun_upd_apply)
    with False assms(2,3) show thesis
      by (intro kept [of old]) (auto simp: enabled_external_def same_grant_def split: if_splits)
  qed
qed

section \<open>Preparation and execution\<close>

lemma prepareE:
  assumes "prepare env db request is_local = Inr p"
  obtains r source m granted where "db (rq_plugin_id request) = Some r" "in_enabled r"
    "source_parse (in_source r) = Inr source" "manifest_for_installation env r source = Inr m"
    "(if is_local then LocalSession else SshSession) \<in> set (pm_session_types m)"
    "pe_permissions_of_json env (in_granted_permissions_json r) = Some granted"
    "required_permission m is_local \<in> set (pm_permissions m)"
    "source = External \<Longrightarrow> required_permission m is_local \<in> set granted"
    "(if native_status_view m then prepare_native env request
      else case pm_entry m of
          NativeView _ \<Rightarrow> Inl ''Unsupported native plugin''
        | Commands actions \<Rightarrow>
            rbind (ok_or (find (\<lambda>a. pa_id a = rq_action_id request) actions)
                     (''Plugin action not found: '' @ rq_plugin_id request @ ''/'' @ rq_action_id request)) (\<lambda>a.
            prepare_action env a request)) = Inr p"
proof -
  obtain r source m granted where "plugin_installation_get env db (rq_plugin_id request) = Inr (Some r)" "in_enabled r"
    "source_parse (in_source r) = Inr source" "manifest_for_installation env r source = Inr m"
    "(if is_local then LocalSession else SshSession) \<in> set (pm_session_types m)"
    "pe_permissions_of_json env (in_granted_permissions_json r) = Some granted"
    "required_permission m is_local \<in> set (pm_permissions m)"
    "permission_satisfied source m granted (required_permission m is_local)"
    "(if native_status_view m then prepare_native env request
      else case pm_entry m of
          NativeView _ \<Rightarrow> Inl ''Unsupported native plugin''
        | Commands actions \<Rightarrow>
            rbind (ok_or (find (\<lambda>a. pa_id a = rq_action_id request) actions)
                     (''Plugin action not found: '' @ rq_plugin_id request @ ''/'' @ rq_action_id request)) (\<lambda>a.
            prepare_action env a request)) = Inr p"
    using assms unfolding prepare_def Let_def by (elim rbind_InrE) (auto simp: List.member_iff)
  moreover from this(1) have "db (rq_plugin_id request) = Some r"
    by (simp add: plugin_installation_get_def split: option.splits)
  moreover have "source = External \<Longrightarrow> required_permission m is_local \<in> set granted"
    using calculation(8) by (simp add: permission_satisfied_def List.member_iff)
  ultimately show thesis by (intro that [of r source m granted]) simp_all
qed

text \<open>Preparation does not look at the confirmation or at the session.\<close>

lemma prepare_request:
  "prepare env db (request\<lparr>rq_confirmed := b\<rparr>) l = prepare env db request l"
  "prepare env db (request\<lparr>rq_session_id := i\<rparr>) l = prepare env db request l"
proof -
  have "prepare_native env (request\<lparr>rq_confirmed := b\<rparr>) = prepare_native env request"
    "prepare_native env (request\<lparr>rq_session_id := i\<rparr>) = prepare_native env request"
    by (simp_all add: prepare_native_def)
  moreover have "prepare_action env a (request\<lparr>rq_confirmed := b\<rparr>) = prepare_action env a request"
    "prepare_action env a (request\<lparr>rq_session_id := i\<rparr>) = prepare_action env a request" for a
    by (cases request; simp only: prepare_action_def plugin_request.select_convs plugin_request.update_convs)+
  ultimately show "prepare env db (request\<lparr>rq_confirmed := b\<rparr>) l = prepare env db request l"
    "prepare env db (request\<lparr>rq_session_id := i\<rparr>) l = prepare env db request l"
    by (cases request; simp only: prepare_def plugin_request.select_convs plugin_request.update_convs)+
qed

lemma prepare_actionE:
  assumes "prepare_action env a request = Inr p"
  obtains setting where "pe_guard_setting env = Inr setting" "rq_try_sudo request \<longrightarrow> pa_allow_sudo a"
    "render_command a (rq_inputs request) (pa_elevate a \<or> rq_try_sudo request) (pr_stdin p \<noteq> None) = Inr (pr_command p)"
    "pr_requires_confirmation p \<longleftrightarrow> pa_requires_confirmation a \<or> pa_elevate a \<or> rq_try_sudo request \<or>
       (gc_enabled (from_stored_json (pe_guard_decode env) setting) \<and>
        rd_requires_approval (classify_command (pr_command p) (from_stored_json (pe_guard_decode env) setting)))"
    "\<not> pr_native_status p"
  using assms unfolding prepare_action_def Let_def by (elim rbind_InrE) auto

lemma run_prepared_effects:
  assumes "run_prepared env request is_local p st = (st', r)"
  shows "gs_tracker st' = gs_tracker st \<and>
    (gs_effects st' = gs_effects st \<or>
     gs_effects st' = gs_effects st @ [Executed (rq_session_id request) (pr_command p)])"
  using assms by (auto simp: run_prepared_def split: if_splits)

lemma execute_effects:
  assumes "execute env db request source reviewed st = (st', r)"
  obtains (refused) e where "r = Inl e" "st' = st"
  | (ran) p pre post where "prepare env db request (pe_is_local env (rq_session_id request)) = Inr p"
      "reviewed \<noteq> None \<longrightarrow> reviewed = Some (pr_command p)"
      "pr_requires_confirmation p \<longrightarrow> rq_confirmed request"
      "gs_tracker st' = gs_tracker st"
      "gs_effects st' = gs_effects st @ pre @ post \<or>
       gs_effects st' = gs_effects st @ pre @ [Executed (rq_session_id request) (pr_command p)] @ post"
      "list_all (\<lambda>e. \<not> is_write e) pre" "list_all (\<lambda>e. \<not> is_write e) post"
proof -
  let ?loc = "pe_is_local env (rq_session_id request)"
  let ?pre = "rbind (prepare env db request ?loc) (\<lambda>p.
           rbind (ensure (\<not> (case reviewed of Some reviewed \<Rightarrow> reviewed \<noteq> pr_command p | None \<Rightarrow> False))
                    ''Plugin changed while approval was pending; review the current action again'') (\<lambda>_.
           rbind (ensure (\<not> (pr_requires_confirmation p \<and> \<not> rq_confirmed request))
                    ''This plugin action requires explicit approval; request human confirmation before using --confirm'') (\<lambda>_.
           rbind (pe_record_activity env Started) (\<lambda>_. Inr p))))"
  show thesis
  proof (cases ?pre)
    case (Inl e)
    with assms show thesis by (intro refused [of e]) (simp_all add: execute_def Let_def)
  next
    case (Inr p)
    then have p: "prepare env db request ?loc = Inr p" "reviewed \<noteq> None \<longrightarrow> reviewed = Some (pr_command p)"
      "pr_requires_confirmation p \<longrightarrow> rq_confirmed request"
      by (auto elim!: rbind_InrE split: option.splits)
    let ?summary = "rq_plugin_id request @ ''/'' @ rq_action_id request @ [CHR 0x0A] @
                 (if pr_native_status p then ''Read performance snapshot'' else pr_command p)"
    let ?st1 = "perform (Activity source ?summary Started (rq_session_id request)) st"
    obtain st2 outcome where run: "run_prepared env request ?loc p ?st1 = (st2, outcome)" by fastforce
    let ?progress = "if is_ok outcome then Succeeded else Failed"
    have st': "st' = (case pe_record_activity env ?progress of
                   Inr _ \<Rightarrow> perform (Activity source ?summary ?progress (rq_session_id request)) st2 | Inl _ \<Rightarrow> st2)"
      using assms Inr run by (auto simp: execute_def Let_def simp del: append.simps append_assoc split del: if_split)
    have "\<exists>post. gs_tracker st' = gs_tracker st2 \<and> gs_effects st' = gs_effects st2 @ post \<and> list_all (\<lambda>e. \<not> is_write e) post"
      unfolding st' by (auto simp: is_write_def simp del: if_split split: sum.split)
    then obtain post where "gs_tracker st' = gs_tracker st2" "gs_effects st' = gs_effects st2 @ post"
      "list_all (\<lambda>e. \<not> is_write e) post" by blast
    with run_prepared_effects [OF run] p show thesis
      by (intro ran [of p "[Activity source ?summary Started (rq_session_id request)]" post]) (auto simp: is_write_def)
  qed
qed

lemma execute_spec:
  assumes "execute env db q source reviewed st = (st', r)"
  shows "\<exists>es. gs_effects st' = gs_effects st @ es \<and>
    (\<forall>sid c. Executed sid c \<in> set es \<longrightarrow> sid = rq_session_id q \<and>
       (\<exists>p. prepare env db q (pe_is_local env sid) = Inr p \<and> pr_command p = c \<and>
          (reviewed \<noteq> None \<longrightarrow> reviewed = Some c) \<and> (pr_requires_confirmation p \<longrightarrow> rq_confirmed q) \<and>
          (\<exists>pre post. es = pre @ Executed sid c # post \<and> list_all (\<lambda>e. \<not> is_write e) (pre @ post))))"
  using assms
proof (cases rule: execute_effects)
  case (refused e)
  then show ?thesis by (intro exI [of _ "[]"]) simp
next
  case (ran p pre post)
  have n: "Executed s c \<notin> set pre \<and> Executed s c \<notin> set post" for s c
    using ran(6,7) by (auto simp: list_all_iff is_write_def)
  from ran(5) show ?thesis
  proof
    assume "gs_effects st' = gs_effects st @ pre @ post"
    with n show ?thesis by (intro exI [of _ "pre @ post"]) simp
  next
    assume "gs_effects st' = gs_effects st @ pre @ [Executed (rq_session_id q) (pr_command p)] @ post"
    with n ran show ?thesis
      by (intro exI [of _ "pre @ Executed (rq_session_id q) (pr_command p) # post"]) auto
  qed
qed

section \<open>Truncation\<close>

lemma floor_boundary_le: "floor_boundary s n \<le> n"
  by (induction s n rule: floor_boundary.induct) (subst floor_boundary.simps, auto)

lemma floor_boundary_boundary: "is_char_boundary s (floor_boundary s n)"
  by (induction s n rule: floor_boundary.induct) (subst floor_boundary.simps, auto simp: is_char_boundary_def)

lemma char_boundary_drop: "is_char_boundary s n \<Longrightarrow> at_boundary s \<Longrightarrow> at_boundary (drop n s)"
  by (cases "n < length s"; cases s) (auto simp: is_char_boundary_def Cons_nth_drop_Suc [symmetric])

lemma length_capture: "length acc \<le> max_plugin_output_bytes + 1 \<Longrightarrow>
    length (capture acc chunks) \<le> max_plugin_output_bytes + 1"
  by (induction acc chunks rule: capture.induct) auto

text \<open>The capture is a prefix of what the stream delivered.\<close>

lemma capture_prefix:
  "\<forall>c \<in> set chunks. c \<noteq> [] \<Longrightarrow> length acc \<le> max_plugin_output_bytes + 1 \<Longrightarrow>
    capture acc chunks = take (max_plugin_output_bytes + 1) (acc @ concat chunks)"
proof (induction acc chunks rule: capture.induct)
  case (1 acc)
  then show ?case by simp
next
  case (2 acc chunk chunks)
  let ?m = "max_plugin_output_bytes + 1"
  let ?out = "acc @ take (min (length chunk) (?m - length acc)) chunk"
  have "capture acc (chunk # chunks) = take ?m (?out @ concat chunks)"
    using 2 by simp
  also have "\<dots> = take ?m (acc @ concat (chunk # chunks))"
    using 2(3) by (cases "length chunk \<le> ?m - length acc") auto
  finally show ?case .
qed

section \<open>A concrete environment\<close>

definition sample_plugin_env :: plugin_env where
  "sample_plugin_env =
     \<lparr>pe_from_json = (\<lambda>t. if t = ''manifest'' then Inr sample_manifest else Inl ''syntax''),
      pe_to_json = (\<lambda>_. Inr ''manifest''), pe_settings_size = (\<lambda>_. Inr 2),
      pe_permissions_of_json = (\<lambda>t. if t = ''[exec]'' then Some [RemoteExec] else if t = ''[]'' then Some [] else None),
      pe_permissions_to_json = (\<lambda>ps. Inr (if ps = [] then ''[]'' else ''[exec]'')),
      pe_value_of_json = (\<lambda>_. None), pe_value_to_json = (\<lambda>_. Inr ''{}''), pe_value_display = (\<lambda>_. ''{}''),
      pe_embedded = [], pe_read_fault = None, pe_write_fault = None, pe_now = 1,
      pe_guard_setting = Inr None, pe_guard_decode = (\<lambda>_. None), pe_status_command = ''status'',
      pe_is_local = (\<lambda>_. False), pe_record_activity = (\<lambda>_. Inr ()),
      pe_run_local = (\<lambda>_ _. Inr ''local''), pe_local_status = Inr ''status'', pe_session_exists = (\<lambda>_. True),
      pe_run_remote = (\<lambda>_ _ _. Inr ''logs''), pe_parse_status = Inr\<rparr>"

definition sample_history :: "(plugin_env \<times> plugin_op) list" where
  "sample_history = [(sample_plugin_env, OpImport ''manifest''), (sample_plugin_env, OpEnable ''example.tools'' True)]"

definition sample_row :: plugin_installation where
  "sample_row =
     \<lparr>in_plugin_id = ''example.tools'', in_version = ''1.0.0'', in_manifest_json = ''manifest'',
      in_source = ''external'', in_enabled = True, in_granted_permissions_json = ''[exec]'',
      in_settings_json = ''{}'', in_installed_at = 1, in_updated_at = 1\<rparr>"

definition sample_request :: plugin_request where
  "sample_request =
     \<lparr>rq_confirmed = True, rq_plugin_id = ''example.tools'', rq_action_id = ''logs'', rq_session_id = ''id-1'',
      rq_inputs = [(''container'', JString ''web'')], rq_sudo_password = None, rq_try_sudo = True\<rparr>"

lemma parse_sample: "parse_external sample_plugin_env ''manifest'' = Inr sample_manifest"
proof -
  have "pe_settings_size sample_plugin_env = (\<lambda>_. Inr 2)" by (simp add: sample_plugin_env_def)
  then show ?thesis
    using sample_manifest_valid
    by (simp add: parse_external_def parse_manifest_def max_manifest_bytes_def)
       (simp add: sample_plugin_env_def)
qed

lemma sample_table: "table_after sample_history ''example.tools'' = Some sample_row"
proof -
  have "fst (install_external_manifest sample_plugin_env ''manifest'' Map.empty) =
      [''example.tools'' \<mapsto> sample_row\<lparr>in_enabled := False, in_granted_permissions_json := ''[]''\<rparr>]"
    by (simp add: install_external_manifest_def parse_sample catalog_def builtin_catalog_def plugin_installation_get_def
        plugin_installation_upsert_def sample_row_def source_as_str_def Let_def)
       (simp add: sample_plugin_env_def sample_manifest_def builtin_catalog_def)
  moreover have "fst (set_plugin_enabled sample_plugin_env ''example.tools'' True
      [''example.tools'' \<mapsto> sample_row\<lparr>in_enabled := False, in_granted_permissions_json := ''[]''\<rparr>]) ''example.tools'' = Some sample_row"
    using parse_sample
    by (simp add: set_plugin_enabled_def manifest_for_installation_def plugin_installation_get_def source_parse_def
        plugin_installation_upsert_def sample_row_def Let_def)
       (simp add: sample_plugin_env_def sample_manifest_def)
  ultimately show ?thesis unfolding table_after_def sample_history_def run_op_def foldl.simps prod.case plugin_op.case by metis
qed

lemma sample_prepare:
  "prepare sample_plugin_env (table_after sample_history) sample_request False =
   prepare_action sample_plugin_env sample_action sample_request"
proof -
  have r: "rq_plugin_id sample_request = ''example.tools''" "rq_action_id sample_request = ''logs''"
    by (simp_all add: sample_request_def)
  have get: "plugin_installation_get sample_plugin_env (table_after sample_history) ''example.tools'' = Inr (Some sample_row)"
    by (simp add: plugin_installation_get_def sample_table sample_plugin_env_def)
  have m: "manifest_for_installation sample_plugin_env sample_row External = Inr sample_manifest"
    using parse_sample by (simp add: manifest_for_installation_def sample_row_def)
  have row: "in_enabled sample_row" "source_parse (in_source sample_row) = Inr External"
    "pe_permissions_of_json sample_plugin_env (in_granted_permissions_json sample_row) = Some [RemoteExec]"
    by (simp_all add: sample_row_def source_parse_def sample_plugin_env_def)
  show ?thesis
    unfolding prepare_def r get rbind_simps ok_or_simps row m
    by (simp add: sample_manifest_def required_permission_def native_status_view_def permission_satisfied_def
        List.member_iff r row) (simp add: sample_action_def)
qed

lemma sample_prepared:
  obtains p where "prepare sample_plugin_env (table_after sample_history) sample_request False = Inr p"
    "\<not> pr_native_status p" "pr_requires_confirmation p"
    "shell_words (pr_command p) = Some [''sudo'', ''-n'', ''docker'', ''logs'', ''--'', ''web'']"
proof -
  let ?r = "prepare_action sample_plugin_env sample_action sample_request"
  have ok: "is_ok ?r \<and> \<not> pr_native_status (projr ?r) \<and> pr_requires_confirmation (projr ?r) \<and>
      shell_words (pr_command (projr ?r)) = Some [''sudo'', ''-n'', ''docker'', ''logs'', ''--'', ''web'']" by code_simp
  then obtain p where p: "?r = Inr p" by (cases ?r) auto
  from ok show thesis by (intro that [of p]) (simp_all add: sample_prepare p)
qed

section \<open>Properties\<close>



text \<open>Supporting result: what a prepared command presupposes: the plugin is installed and enabled, its manifest serves
  the type of the session, declares the permission the run needs, and (for an imported plugin) the
  user has granted it; the command is the rendering of a declared action, and it needs the user's
  confirmation whenever the action says so, sudo is used, or the command guard flags it.\<close>

theorem prepared_command_is_granted:
  assumes "prepare env db request is_local = Inr p" "\<not> pr_native_status p"
  shows "\<exists>r source m actions a setting. db (rq_plugin_id request) = Some r \<and> in_enabled r \<and>
    source_parse (in_source r) = Inr source \<and> manifest_for_installation env r source = Inr m \<and>
    (if is_local then LocalSession else SshSession) \<in> set (pm_session_types m) \<and>
    (if is_local then LocalExec else RemoteExec) \<in> set (pm_permissions m) \<and>
    (source = External \<longrightarrow> (\<exists>granted. pe_permissions_of_json env (in_granted_permissions_json r) = Some granted \<and>
       (if is_local then LocalExec else RemoteExec) \<in> set granted)) \<and>
    pm_entry m = Commands actions \<and> a \<in> set actions \<and> pa_id a = rq_action_id request \<and>
    render_command a (rq_inputs request) (pa_elevate a \<or> rq_try_sudo request) (pr_stdin p \<noteq> None) = Inr (pr_command p) \<and>
    pe_guard_setting env = Inr setting \<and>
    (pr_requires_confirmation p \<longleftrightarrow> pa_requires_confirmation a \<or> pa_elevate a \<or> rq_try_sudo request \<or>
       gc_enabled (from_stored_json (pe_guard_decode env) setting) \<and>
       rd_requires_approval (classify_command (pr_command p) (from_stored_json (pe_guard_decode env) setting)))"
  using assms(1)
proof (cases rule: prepareE)
  case (1 r source m granted)
  have n: "\<not> native_status_view m"
    using 1(9) assms(2) by (auto simp: prepare_native_def split: if_splits)
  with 1(9) obtain actions a where a: "pm_entry m = Commands actions"
    "find (\<lambda>a. pa_id a = rq_action_id request) actions = Some a" "prepare_action env a request = Inr p"
    by (auto split: plugin_entry.splits elim!: rbind_InrE)
  from a(2) have "a \<in> set actions" "pa_id a = rq_action_id request" by (auto simp: find_Some_iff)
  moreover from a(3) obtain setting where "pe_guard_setting env = Inr setting"
    "render_command a (rq_inputs request) (pa_elevate a \<or> rq_try_sudo request) (pr_stdin p \<noteq> None) = Inr (pr_command p)"
    "pr_requires_confirmation p \<longleftrightarrow> pa_requires_confirmation a \<or> pa_elevate a \<or> rq_try_sudo request \<or>
       (gc_enabled (from_stored_json (pe_guard_decode env) setting) \<and>
        rd_requires_approval (classify_command (pr_command p) (from_stored_json (pe_guard_decode env) setting)))"
    by (rule prepare_actionE) blast
  ultimately show ?thesis using 1(1-8) a(1) n unfolding required_permission_def by (auto split: if_splits)
qed

theorem prepared_command_is_granted_witness:
  "\<exists>p. prepare sample_plugin_env (table_after sample_history) sample_request False = Inr p \<and>
     pr_requires_confirmation p \<and> shell_words (pr_command p) = Some [''sudo'', ''-n'', ''docker'', ''logs'', ''--'', ''web'']"
proof -
  obtain p where p: "prepare sample_plugin_env (table_after sample_history) sample_request False = Inr p"
    "\<not> pr_native_status p"
    "shell_words (pr_command p) = Some [''sudo'', ''-n'', ''docker'', ''logs'', ''--'', ''web'']"
    by (rule sample_prepared)
  with prepared_command_is_granted [OF p(1,2)] show ?thesis by (auto simp: sample_request_def)
qed

text \<open>C13: a plugin command an agent starts: whatever confirmation the model claims, and however the
  plugin, its settings or the guard change while the user decides, a command that needs
  confirmation when it is run was shown to the user, as that very text, and approved before.\<close>

theorem agent_plugin_command_was_approved:
  assumes "tool_plugin_execute genv env db env' db' request st = (st', r)"
  shows "\<exists>es. gs_effects st' = gs_effects st @ es \<and>
    (\<forall>sid command. Executed sid command \<in> set es \<longrightarrow>
       (\<exists>p. prepare env' db' request (pe_is_local env' sid) = Inr p \<and> pr_command p = command \<and>
          (pr_requires_confirmation p \<longrightarrow>
             (\<exists>pre post. es = pre @ Executed sid command # post \<and> command \<in> approved_texts pre \<and>
                list_all (\<lambda>e. \<not> is_write e) (pre @ post)))))"
proof -
  let ?request1 = "request\<lparr>rq_confirmed := False\<rparr>"
  let ?prepared = "rbind (if pe_is_local env (rq_session_id ?request1) then Inr ?request1
                  else rbind (ge_resolve genv (rq_session_id ?request1)) (\<lambda>i. Inr (?request1\<lparr>rq_session_id := i\<rparr>))) (\<lambda>request.
           rbind (prepare env db request (pe_is_local env (rq_session_id request))) (\<lambda>p. Inr (request, p)))"
  show ?thesis
  proof (cases ?prepared)
    case (Inl e)
    with assms show ?thesis by (intro exI [of _ "[]"]) (simp add: tool_plugin_execute_def Let_def)
  next
    case (Inr qp)
    obtain q p where qp: "qp = (q, p)" by (cases qp)
    with Inr have "q = ?request1 \<or> (\<exists>i. q = ?request1\<lparr>rq_session_id := i\<rparr>)"
      by (auto elim!: rbind_InrE split: if_splits)
    then have q: "prepare env' db' q l = prepare env' db' request l" "\<not> rq_confirmed q" for l
      by (auto simp: prepare_request)
    note def = assms [unfolded tool_plugin_execute_def Let_def Inr qp, simplified]
    show ?thesis
    proof (cases "pr_requires_confirmation p")
      case False
      with def have "execute env' db' q ''mcp.plugin'' (Some (pr_command p)) st = (st', r)" by simp
      from execute_spec [OF this] q show ?thesis by metis
    next
      case True
      obtain st1 r1 where ask: "require_approval genv 0 ''plugin_execute'' (Some (rq_session_id q)) (pr_command p)
          [''Plugin action '' @ rq_plugin_id q @ ''/'' @ rq_action_id q @ '' requires approval''] st = (st1, r1)"
        by fastforce
      from require_approval_cases [OF ask] obtain es1 where es1: "gs_effects st1 = gs_effects st @ es1"
        "list_all (\<lambda>e. \<not> is_write e) es1" "r1 = Inr () \<Longrightarrow> pr_command p \<in> approved_texts es1"
        by (auto simp: approved_texts_def)
      show ?thesis
      proof (cases r1)
        case (Inl e)
        with def True ask es1 show ?thesis by (auto simp: is_write_def list_all_iff intro!: exI [of _ es1])
      next
        case ok: (Inr u)
        with def True ask have "execute env' db' (q\<lparr>rq_confirmed := True\<rparr>) ''mcp.plugin'' (Some (pr_command p)) st1 = (st', r)"
          by simp
        from execute_spec [OF this] obtain es where es: "gs_effects st' = gs_effects st1 @ es"
          "\<And>sid c. Executed sid c \<in> set es \<Longrightarrow> sid = rq_session_id q \<and>
            (\<exists>p'. prepare env' db' request (pe_is_local env' sid) = Inr p' \<and> pr_command p' = c \<and>
               Some (pr_command p) = Some c \<and>
               (\<exists>pre post. es = pre @ Executed sid c # post \<and> list_all (\<lambda>e. \<not> is_write e) (pre @ post)))"
          by (auto simp: prepare_request q)
        have "\<exists>p'. prepare env' db' request (pe_is_local env' sid) = Inr p' \<and> pr_command p' = c \<and>
          (pr_requires_confirmation p' \<longrightarrow>
             (\<exists>pre post. es1 @ es = pre @ Executed sid c # post \<and> c \<in> approved_texts pre \<and>
                list_all (\<lambda>e. \<not> is_write e) (pre @ post)))"
          if "Executed sid c \<in> set (es1 @ es)" for sid c
        proof -
          have "Executed sid c \<in> set es" using that es1(2) by (auto simp: list_all_iff is_write_def)
          from es(2) [OF this] obtain p' pre post where
            "prepare env' db' request (pe_is_local env' sid) = Inr p'" "pr_command p' = c"
            "pr_command p = c" "es = pre @ Executed sid c # post" "list_all (\<lambda>e. \<not> is_write e) (pre @ post)" by auto
          moreover from this have "es1 @ es = (es1 @ pre) @ Executed sid c # post" "c \<in> approved_texts (es1 @ pre)"
            "list_all (\<lambda>e. \<not> is_write e) ((es1 @ pre) @ post)"
            using es1(2,3) ok by auto
          then have "\<exists>pre post. es1 @ es = pre @ Executed sid c # post \<and> c \<in> approved_texts pre \<and>
              list_all (\<lambda>e. \<not> is_write e) (pre @ post)" by blast
          ultimately show ?thesis by (intro exI [of _ p'] conjI impI) simp_all
        qed
        then show ?thesis using es(1) es1(1) by (intro exI [of _ "es1 @ es"]) simp
      qed
    qed
  qed
qed

theorem agent_plugin_command_was_approved_witness:
  "\<exists>st' r command. tool_plugin_execute approving_env sample_plugin_env (table_after sample_history)
       sample_plugin_env (table_after sample_history) sample_request initial_gateway = (st', r) \<and>
     Executed ''id-1'' command \<in> set (gs_effects st') \<and> command \<in> approved_texts (gs_effects st')"
proof -
  let ?c = "tool_plugin_execute approving_env sample_plugin_env (table_after sample_history)
       sample_plugin_env (table_after sample_history) sample_request initial_gateway"
  obtain p where p: "prepare sample_plugin_env (table_after sample_history) sample_request False = Inr p"
    "\<not> pr_native_status p" "pr_requires_confirmation p" by (rule sample_prepared)
  obtain st' r where c: "?c = (st', r)" by fastforce
  have w: "pe_is_local sample_plugin_env = (\<lambda>_. False)" "rq_session_id sample_request = ''id-1''"
    "ge_resolve approving_env = (\<lambda>_. Inr ''id-1'')" "ge_approvals approving_env = Some (\<lambda>_. Approved)"
    "pe_record_activity sample_plugin_env = (\<lambda>_. Inr ())" "pe_session_exists sample_plugin_env = (\<lambda>_. True)"
    by (simp_all add: sample_plugin_env_def sample_request_def approving_env_def)
  have s: "sample_request\<lparr>rq_confirmed := b, rq_session_id := ''id-1''\<rparr> = sample_request\<lparr>rq_confirmed := b\<rparr>" for b
    by (simp add: sample_request_def)
  have "Executed ''id-1'' (pr_command p) \<in> set (gs_effects (fst ?c))"
    using p by (simp add: tool_plugin_execute_def w s prepare_request require_approval_def execute_def run_prepared_def Let_def)
  with c have x: "Executed ''id-1'' (pr_command p) \<in> set (gs_effects st')" by simp
  from agent_plugin_command_was_approved [OF c] obtain es where es: "gs_effects st' = es"
    "Executed ''id-1'' (pr_command p) \<in> set es \<Longrightarrow>
       \<exists>p'. prepare sample_plugin_env (table_after sample_history) sample_request (pe_is_local sample_plugin_env ''id-1'') = Inr p' \<and>
         (pr_requires_confirmation p' \<longrightarrow> (\<exists>pre post. es = pre @ Executed ''id-1'' (pr_command p) # post \<and>
            pr_command p \<in> approved_texts pre))"
    unfolding initial_gateway_def gateway_state.select_convs append_Nil by blast
  from es x p w(1) obtain pre post where "gs_effects st' = pre @ Executed ''id-1'' (pr_command p) # post"
    "pr_command p \<in> approved_texts pre" by auto
  then have "pr_command p \<in> approved_texts (gs_effects st')" by simp
  with c x show ?thesis by blast
qed

text \<open>Supporting result: the output handed back never exceeds a megabyte and is a prefix of what the command
  printed, cut between characters; the flag tells exactly whether something was cut.\<close>

theorem truncated_output_is_bounded:
  assumes "at_boundary out" "truncate_output out = (shown, truncated)"
  shows "length shown \<le> max_plugin_output_bytes \<and> (\<exists>rest. out = shown @ rest \<and> at_boundary rest) \<and>
    (truncated \<longleftrightarrow> max_plugin_output_bytes < length out)"
proof (cases "length out \<le> max_plugin_output_bytes")
  case True
  with assms show ?thesis by (auto simp: truncate_output_def)
next
  case False
  with assms(2) have t: "shown = take (floor_boundary out max_plugin_output_bytes) out" "truncated"
    by (auto simp: truncate_output_def)
  moreover have "at_boundary (drop (floor_boundary out max_plugin_output_bytes) out)"
    by (rule char_boundary_drop [OF floor_boundary_boundary assms(1)])
  ultimately show ?thesis
    using False floor_boundary_le [of out max_plugin_output_bytes]
    by (auto intro!: exI [of _ "drop (floor_boundary out max_plugin_output_bytes) out"])
qed


theorem truncated_output_is_bounded_witness:
  "length (fst (truncate_output (replicate 1000001 CHR ''x''))) \<le> max_plugin_output_bytes \<and>
   snd (truncate_output (replicate 1000001 CHR ''x''))"
proof -
  let ?out = "replicate 1000001 CHR ''x''"
  obtain t b where t: "truncate_output ?out = (t, b)" by fastforce
  have "at_boundary (replicate n CHR ''x'')" for n by (cases n) (simp_all add: is_cont_def byte_def)
  from truncated_output_is_bounded [OF this t] show ?thesis by (simp add: t max_plugin_output_bytes_def)
qed

end
