(* ===== verification/Trust_Store.thy ===== *)
theory Trust_Store
  imports Prelude Decimal "HOL-Library.Word" "HOL-Library.AList" "HOL-Library.Multiset" "HOL-Library.Countable"
begin

text \<open>
  The SSH host-key trust store, \<^verbatim>\<open>src-tauri/src/ssh/fingerprint.rs\<close>: the
  trust-on-first-use decision, the operations of \<open>FingerprintStore\<close> on its in-memory map and its
  file, and several processes (application and daemon) that share the file.

  A \<open>HashMap\<close> is an association list with distinct keys in arbitrary order.  The serde codec of
  the file, the non-ASCII case of \<open>to_lowercase\<close>, the outcome of each file-system call, clock and
  UUIDs are parameters.
\<close>

section \<open>Data\<close>

record stored_fingerprint =
  sf_id :: string
  sf_host :: string
  sf_port :: "16 word"
  sf_fingerprint :: string
  sf_algorithm :: string
  sf_added_at :: int
  sf_last_verified_at :: int
  sf_server_name :: "string option"

datatype fingerprint_verification_result =
    Trusted
  | UnknownKey string string
  | ChangedKey string string string string int

datatype host_key_decision = Accept | Changed | Unknown

datatype host_key_rejection =
    RejectUnknown string string
  | RejectChanged string string int string string
  | Unconfigured

type_synonym fingerprints = "(string \<times> stored_fingerprint) list"

section \<open>The decision\<close>

definition decide_host_key :: "string option \<Rightarrow> string \<Rightarrow> host_key_decision" where
  "decide_host_key stored presented =
     (case stored of
        Some s \<Rightarrow> if s = presented then Accept else Changed
      | None \<Rightarrow> Unknown)"

definition error_message :: "host_key_rejection \<Rightarrow> string \<Rightarrow> 16 word \<Rightarrow> string" where
  "error_message r host port =
     (let p = show_nat (unat port); nl = [CHR 0x0A] in
      case r of
        RejectUnknown fingerprint algorithm \<Rightarrow>
          ''HOST_KEY_UNKNOWN: the host key for '' @ host @ '':'' @ p @ '' is not trusted; '' @
          ''connection refused before authentication.'' @ nl @
          ''host: '' @ host @ nl @
          ''port: '' @ p @ nl @
          ''presented-fingerprint: '' @ fingerprint @ nl @
          ''presented-key-type: '' @ algorithm
      | RejectChanged stored_fingerprint stored_algorithm stored_at fingerprint algorithm \<Rightarrow>
          ''HOST_KEY_CHANGED: possible man-in-the-middle attack; the host key '' @
          ''for '' @ host @ '':'' @ p @ '' differs from the stored key. Connection refused '' @
          ''before authentication.'' @ nl @
          ''host: '' @ host @ nl @
          ''port: '' @ p @ nl @
          ''stored-fingerprint: '' @ stored_fingerprint @ nl @
          ''stored-key-type: '' @ stored_algorithm @ nl @
          ''presented-fingerprint: '' @ fingerprint @ nl @
          ''presented-key-type: '' @ algorithm @ nl @
          ''first-trusted: '' @ show_int stored_at
      | Unconfigured \<Rightarrow>
          ''HOST_KEY_UNVERIFIED: host key verification is not configured; '' @
          ''refusing to connect to '' @ host @ '':'' @ p @ ''.'')"

definition evaluate_host_key :: "fingerprint_verification_result \<Rightarrow> host_key_rejection + unit" where
  "evaluate_host_key res =
     (case res of
        Trusted \<Rightarrow> Inr ()
      | UnknownKey fingerprint algorithm \<Rightarrow> Inl (RejectUnknown fingerprint algorithm)
      | ChangedKey stored_fingerprint new_fingerprint stored_algorithm new_algorithm stored_at \<Rightarrow>
          Inl (RejectChanged stored_fingerprint stored_algorithm stored_at new_fingerprint new_algorithm))"

section \<open>Keys and lookups\<close>

text \<open>\<open>to_lowercase\<close>: byte-wise on ASCII; \<open>uni\<close> stands for the Unicode case tables otherwise.\<close>

definition to_lowercase :: "(string \<Rightarrow> string) \<Rightarrow> string \<Rightarrow> string" where
  "to_lowercase uni s = (if ascii s then to_ascii_lowercase s else uni s)"

definition host_key :: "(string \<Rightarrow> string) \<Rightarrow> string \<Rightarrow> 16 word \<Rightarrow> string" where
  "host_key uni host port = to_lowercase uni host @ '':'' @ show_nat (unat port)"

definition verify ::
    "(string \<Rightarrow> string) \<Rightarrow> fingerprints \<Rightarrow> string \<Rightarrow> 16 word \<Rightarrow> string \<Rightarrow> string \<Rightarrow>
     fingerprint_verification_result" where
  "verify uni fps host port fingerprint algorithm =
     (case map_of fps (host_key uni host port) of
        Some stored \<Rightarrow>
          (case decide_host_key (Some (sf_fingerprint stored)) fingerprint of
             Accept \<Rightarrow> Trusted
           | _ \<Rightarrow> ChangedKey (sf_fingerprint stored) fingerprint (sf_algorithm stored) algorithm
                   (sf_added_at stored))
      | None \<Rightarrow> UnknownKey fingerprint algorithm)"

definition get :: "(string \<Rightarrow> string) \<Rightarrow> fingerprints \<Rightarrow> string \<Rightarrow> 16 word \<Rightarrow> stored_fingerprint option" where
  "get uni fps host port = map_of fps (host_key uni host port)"

definition get_by_id :: "fingerprints \<Rightarrow> string \<Rightarrow> stored_fingerprint option" where
  "get_by_id fps i = List.find (\<lambda>v. sf_id v = i) (map snd fps)"

definition list_fingerprints :: "(string \<Rightarrow> string) \<Rightarrow> fingerprints \<Rightarrow> stored_fingerprint list" where
  "list_fingerprints uni fps = sort_key (\<lambda>v. host_key uni (sf_host v) (sf_port v)) (map snd fps)"

section \<open>The file\<close>

text \<open>What opening the store file finds, the faults of one update, and the serde codec.\<close>

datatype store_file = NotFound | ReadError | Content string

record persist_io =
  io_open_lock :: bool
  io_lock :: bool
  io_create :: bool
  io_write :: bool
  io_newline :: bool
  io_sync :: bool
  io_rename :: bool
  io_remove :: bool

record codec =
  from_str :: "string \<Rightarrow> fingerprints option"
  to_pretty :: "fingerprints \<Rightarrow> string"

datatype store_error =
    InvalidStore | CannotRead | LockUnavailable | CannotLock | CannotPersist

record fingerprint_store =
  fs_mem :: fingerprints
  fs_disk :: store_file
  fs_temp :: "string list"

definition read_snapshot :: "codec \<Rightarrow> store_file \<Rightarrow> store_error + fingerprints" where
  "read_snapshot c file =
     (case file of
        Content content \<Rightarrow> ok_or (from_str c content) InvalidStore
      | NotFound \<Rightarrow> Inr []
      | ReadError \<Rightarrow> Inl CannotRead)"

definition new_at :: "codec \<Rightarrow> store_file \<Rightarrow> store_error + fingerprints" where
  "new_at c file = read_snapshot c file"

definition reload :: "codec \<Rightarrow> fingerprint_store \<Rightarrow> fingerprint_store \<times> (store_error + unit)" where
  "reload c s =
     (case read_snapshot c (fs_disk s) of
        Inl e \<Rightarrow> (s, Inl e)
      | Inr fps \<Rightarrow> (s\<lparr>fs_mem := fps\<rparr>, Inr ()))"

text \<open>\<open>persist\<close> is the closure of \<open>update\<close> that writes the temporary file and renames it, with
  the removal of the temporary file when a call failed.\<close>

definition persist ::
    "codec \<Rightarrow> persist_io \<Rightarrow> fingerprints \<Rightarrow> fingerprint_store \<Rightarrow> fingerprint_store \<times> (store_error + unit)" where
  "persist c io next s =
     (let body = to_pretty c next; written = body @ [CHR 0x0A];
          failed = (\<lambda>partial. (if io_remove io then s else s\<lparr>fs_temp := partial # fs_temp s\<rparr>, Inl CannotPersist))
      in
      if \<not> io_create io then (s, Inl CannotPersist)
      else if \<not> io_write io then failed []
      else if \<not> io_newline io then failed body
      else if \<not> io_sync io then failed written
      else if \<not> io_rename io then failed written
      else (s\<lparr>fs_disk := Content written\<rparr>, Inr ()))"

definition update ::
    "codec \<Rightarrow> persist_io \<Rightarrow> (fingerprints \<Rightarrow> fingerprints \<times> 'a) \<Rightarrow> fingerprint_store \<Rightarrow>
     fingerprint_store \<times> (store_error + 'a)" where
  "update c io change s =
     (if \<not> io_open_lock io then (s, Inl LockUnavailable)
      else if \<not> io_lock io then (s, Inl CannotLock)
      else
        (case read_snapshot c (fs_disk s) of
           Inl e \<Rightarrow> (s, Inl e)
         | Inr snapshot \<Rightarrow>
             (let (next, result) = change snapshot in
              case persist c io next s of
                (s', Inl e) \<Rightarrow> (s', Inl e)
              | (s', Inr _) \<Rightarrow> (s'\<lparr>fs_mem := next\<rparr>, Inr result))))"

definition save_change ::
    "(string \<Rightarrow> string) \<Rightarrow> stored_fingerprint \<Rightarrow> fingerprints \<Rightarrow> fingerprints \<times> unit" where
  "save_change uni record fps =
     (AList.update (host_key uni (sf_host record) (sf_port record)) record fps, ())"

definition save ::
    "(string \<Rightarrow> string) \<Rightarrow> codec \<Rightarrow> persist_io \<Rightarrow> string \<Rightarrow> int \<Rightarrow> string \<Rightarrow> 16 word \<Rightarrow> string \<Rightarrow> string \<Rightarrow>
     string option \<Rightarrow> fingerprint_store \<Rightarrow> fingerprint_store \<times> (store_error + stored_fingerprint)" where
  "save uni c io uuid now host port fingerprint algorithm server_name s =
     (let record = \<lparr>sf_id = uuid, sf_host = host, sf_port = port, sf_fingerprint = fingerprint,
                    sf_algorithm = algorithm, sf_added_at = now, sf_last_verified_at = now,
                    sf_server_name = server_name\<rparr>
      in case update c io (save_change uni record) s of
           (s', Inl e) \<Rightarrow> (s', Inl e)
         | (s', Inr _) \<Rightarrow> (s', Inr record))"

definition touch_change :: "string \<Rightarrow> int \<Rightarrow> fingerprints \<Rightarrow> fingerprints \<times> unit" where
  "touch_change key now fps =
     (map (\<lambda>(k, v). (k, if k = key then v\<lparr>sf_last_verified_at := now\<rparr> else v)) fps, ())"

definition touch ::
    "(string \<Rightarrow> string) \<Rightarrow> codec \<Rightarrow> persist_io \<Rightarrow> int \<Rightarrow> string \<Rightarrow> 16 word \<Rightarrow> fingerprint_store \<Rightarrow>
     fingerprint_store \<times> (store_error + unit)" where
  "touch uni c io now host port s = update c io (touch_change (host_key uni host port) now) s"

definition remove_change :: "string \<Rightarrow> fingerprints \<Rightarrow> fingerprints \<times> bool" where
  "remove_change key fps = (AList.delete key fps, map_of fps key \<noteq> None)"

definition delete ::
    "(string \<Rightarrow> string) \<Rightarrow> codec \<Rightarrow> persist_io \<Rightarrow> string \<Rightarrow> 16 word \<Rightarrow> fingerprint_store \<Rightarrow>
     fingerprint_store \<times> (store_error + bool)" where
  "delete uni c io host port s = update c io (remove_change (host_key uni host port)) s"

definition remove_id_change :: "string \<Rightarrow> fingerprints \<Rightarrow> fingerprints \<times> bool" where
  "remove_id_change i fps =
     (case map_option fst (List.find (\<lambda>p. sf_id (snd p) = i) fps) of
        Some key \<Rightarrow> (AList.delete key fps, True)
      | None \<Rightarrow> (fps, False))"

definition delete_by_id ::
    "codec \<Rightarrow> persist_io \<Rightarrow> string \<Rightarrow> fingerprint_store \<Rightarrow> fingerprint_store \<times> (store_error + bool)" where
  "delete_by_id c io i s = update c io (remove_id_change i) s"

definition clear :: "codec \<Rightarrow> persist_io \<Rightarrow> fingerprint_store \<Rightarrow> fingerprint_store \<times> (store_error + unit)" where
  "clear c io s = update c io (\<lambda>_. ([], ())) s"

section \<open>Processes sharing the file\<close>

text \<open>Each process holds its own map; \<open>update\<close> runs under the inter-process lock, so it is one
  step.  \<open>tw_approved\<close> is the history of the (host key, fingerprint) pairs the user approved.\<close>

record trust_world =
  tw_mem :: "nat \<rightharpoonup> fingerprints"
  tw_disk :: store_file
  tw_temp :: "string list"
  tw_approved :: "(string \<times> string) set"

definition local_view :: "trust_world \<Rightarrow> fingerprints \<Rightarrow> fingerprint_store" where
  "local_view w m = \<lparr>fs_mem = m, fs_disk = tw_disk w, fs_temp = tw_temp w\<rparr>"

definition put_back :: "trust_world \<Rightarrow> nat \<Rightarrow> fingerprint_store \<Rightarrow> trust_world" where
  "put_back w p s = w\<lparr>tw_mem := (tw_mem w)(p \<mapsto> fs_mem s), tw_disk := fs_disk s, tw_temp := fs_temp s\<rparr>"

definition pairs :: "fingerprints \<Rightarrow> (string \<times> string) set" where
  "pairs fps = {(k, sf_fingerprint v) | k v. map_of fps k = Some v}"

inductive trust_step :: "(string \<Rightarrow> string) \<Rightarrow> codec \<Rightarrow> trust_world \<Rightarrow> trust_world \<Rightarrow> bool"
  for uni :: "string \<Rightarrow> string" and c :: codec where
  start_process:
    "new_at c (tw_disk w) = Inr fps \<Longrightarrow> trust_step uni c w (w\<lparr>tw_mem := (tw_mem w)(p \<mapsto> fps)\<rparr>)"
| refresh:
    "tw_mem w p = Some m \<Longrightarrow> reload c (local_view w m) = (s, r) \<Longrightarrow> trust_step uni c w (put_back w p s)"
| approve:
    "tw_mem w p = Some m \<Longrightarrow>
     save uni c io uuid now host port fp alg name (local_view w m) = (s, r) \<Longrightarrow>
     trust_step uni c w
       ((put_back w p s)\<lparr>tw_approved := insert (host_key uni host port, fp) (tw_approved w)\<rparr>)"
| touch_host:
    "tw_mem w p = Some m \<Longrightarrow> touch uni c io now host port (local_view w m) = (s, r) \<Longrightarrow>
     trust_step uni c w (put_back w p s)"
| delete_host:
    "tw_mem w p = Some m \<Longrightarrow> delete uni c io host port (local_view w m) = (s, r') \<Longrightarrow>
     trust_step uni c w (put_back w p s)"
| delete_id:
    "tw_mem w p = Some m \<Longrightarrow> delete_by_id c io i (local_view w m) = (s, r') \<Longrightarrow>
     trust_step uni c w (put_back w p s)"
| clear_all:
    "tw_mem w p = Some m \<Longrightarrow> clear c io (local_view w m) = (s, r) \<Longrightarrow>
     trust_step uni c w (put_back w p s)"

definition trust_init :: "codec \<Rightarrow> trust_world \<Rightarrow> bool" where
  "trust_init c w \<longleftrightarrow> tw_mem w = Map.empty \<and>
     (\<forall>fps. read_snapshot c (tw_disk w) = Inr fps \<longrightarrow> pairs fps \<subseteq> tw_approved w)"

section \<open>Host keys\<close>

lemma show_nat_no_colon: "CHR '':'' \<notin> set (show_nat n)"
  using show_nat_digits [of n] by (auto simp: list_all_iff dest: is_digit_not_sign)

lemma host_key_eq_iff:
  "host_key uni h p = host_key uni h' p' \<longleftrightarrow> to_lowercase uni h = to_lowercase uni h' \<and> p = p'"
proof
  assume "host_key uni h p = host_key uni h' p'"
  then have "rsplit_once CHR '':'' (to_lowercase uni h @ CHR '':'' # show_nat (unat p)) =
      rsplit_once CHR '':'' (to_lowercase uni h' @ CHR '':'' # show_nat (unat p'))"
    by (simp add: host_key_def)
  moreover have "rsplit_once CHR '':'' (a @ CHR '':'' # show_nat n) = Some (a, show_nat n)" for a n
    by (simp add: rsplit_once_Some show_nat_no_colon)
  ultimately show "to_lowercase uni h = to_lowercase uni h' \<and> p = p'"
    by (simp add: show_nat_inject word_unat_eq_iff)
qed (simp add: host_key_def)

text \<open>Supporting result: The key of the trust map never mixes up two servers: two (host, port) identities have
  the same key exactly if the ports are equal and the hosts agree up to letter case, also for hosts that
  contain colons or digits (IPv6 literals).\<close>

theorem host_key_identity:
  assumes "ascii h" "ascii h'"
  shows "host_key uni h p = host_key uni h' p' \<longleftrightarrow> eq_ignore_ascii_case h h' \<and> p = p'"
  using assms by (simp add: host_key_eq_iff to_lowercase_def eq_ignore_ascii_case_def)

theorem host_key_identity_witness:
  "host_key (\<lambda>s. s) ''Example.COM'' 22 = host_key (\<lambda>s. s) ''example.com'' 22 \<and>
   host_key (\<lambda>s. s) ''::1'' 22 \<noteq> host_key (\<lambda>s. s) ''::1:2'' 2"
proof -
  have a: "ascii ''Example.COM''" "ascii ''example.com''" "ascii ''::1''" "ascii ''::1:2''" by code_simp+
  have "eq_ignore_ascii_case ''Example.COM'' ''example.com''" "\<not> eq_ignore_ascii_case ''::1'' ''::1:2''"
    by code_simp+
  then show ?thesis
    using host_key_identity [OF a(1,2), of "\<lambda>s. s" 22 22] host_key_identity [OF a(3,4), of "\<lambda>s. s" 22 2]
    by simp
qed

section \<open>The decision on a presented key\<close>

lemma verify_Trusted_iff:
  "verify uni fps h p fp alg = Trusted \<longleftrightarrow> (host_key uni h p, fp) \<in> pairs fps"
  by (auto simp: verify_def decide_host_key_def pairs_def split: option.splits)

text \<open>Supporting result: The handshake is allowed exactly if the store holds a record for this host and port
  with the presented fingerprint; a host without record is refused as unknown with the presented key, any
  other key is refused as changed, naming both keys and when the stored one was first trusted.\<close>

theorem handshake_decision:
  "evaluate_host_key (verify uni fps h p fp alg) =
     (case get uni fps h p of
        None \<Rightarrow> Inl (RejectUnknown fp alg)
      | Some v \<Rightarrow> if sf_fingerprint v = fp then Inr ()
                  else Inl (RejectChanged (sf_fingerprint v) (sf_algorithm v) (sf_added_at v) fp alg))"
  by (simp add: verify_def get_def evaluate_host_key_def decide_host_key_def split: option.split)

section \<open>One update\<close>

lemmas update_defs = update_def persist_def Let_def

lemma update_Inl:
  "update c io change s = (s', Inl e) \<Longrightarrow>
     fs_mem s' = fs_mem s \<and> fs_disk s' = fs_disk s \<and> (io_remove io \<longrightarrow> s' = s)"
  by (auto simp: update_defs split: if_splits sum.splits prod.splits)

lemma update_Inr:
  assumes "update c io change s = (s', Inr r)"
  shows "\<exists>d. read_snapshot c (fs_disk s) = Inr d \<and> snd (change d) = r \<and> fs_mem s' = fst (change d) \<and>
    fs_disk s' = Content (to_pretty c (fst (change d)) @ [CHR 0x0A]) \<and> fs_temp s' = fs_temp s"
  using assms by (auto simp: update_defs split: if_splits sum.splits prod.splits)

text \<open>What the serde documentation promises of the store's codec.\<close>

definition codec_ok :: "codec \<Rightarrow> bool" where
  "codec_ok c \<longleftrightarrow>
     (\<forall>m. distinct (map fst m) \<longrightarrow>
        (\<exists>m'. from_str c (to_pretty c m @ [CHR 0x0A]) = Some m' \<and> mset m' = mset m)) \<and>
     (\<forall>s m. from_str c s = Some m \<longrightarrow> distinct (map fst m))"

lemma map_of_mset: "distinct (map fst m) \<Longrightarrow> mset m = mset m' \<Longrightarrow> map_of m' = map_of m"
proof -
  assume d: "distinct (map fst m)" and e: "mset m = mset m'"
  have "distinct (map fst m')" using d e by (metis mset_map mset_eq_imp_distinct_iff)
  moreover have "set m = set m'" using e by (rule mset_eq_setD)
  ultimately show ?thesis using d map_of_inject_set by blast
qed

lemma read_after_write:
  assumes "codec_ok c" "distinct (map fst m)"
  shows "\<exists>m'. read_snapshot c (Content (to_pretty c m @ [CHR 0x0A])) = Inr m' \<and>
    mset m' = mset m \<and> map_of m' = map_of m"
proof -
  obtain m' where "from_str c (to_pretty c m @ [CHR 0x0A]) = Some m'" "mset m' = mset m"
    using assms unfolding codec_ok_def by blast
  moreover from this(2) have "map_of m' = map_of m" using map_of_mset [OF assms(2), of m'] by simp
  ultimately show ?thesis by (intro exI [of _ m'] conjI) (simp_all add: read_snapshot_def)
qed

lemma read_distinct: "codec_ok c \<Longrightarrow> read_snapshot c f = Inr m \<Longrightarrow> distinct (map fst m)"
  by (auto simp: read_snapshot_def codec_ok_def split: store_file.splits)

text \<open>A successful update leaves memory and file in agreement.\<close>

lemma update_coherent:
  assumes "codec_ok c" "update c io change s = (s', Inr r)"
    and "\<And>d. distinct (map fst d) \<Longrightarrow> distinct (map fst (fst (change d)))"
  shows "\<exists>d d'. read_snapshot c (fs_disk s) = Inr d \<and> read_snapshot c (fs_disk s') = Inr d' \<and>
    snd (change d) = r \<and> fs_mem s' = fst (change d) \<and>
    map_of d' = map_of (fst (change d)) \<and> mset d' = mset (fst (change d))"
proof -
  from update_Inr [OF assms(2)] obtain d where d: "read_snapshot c (fs_disk s) = Inr d" "snd (change d) = r"
    "fs_mem s' = fst (change d)" "fs_disk s' = Content (to_pretty c (fst (change d)) @ [CHR 0x0A])" by blast
  have "distinct (map fst (fst (change d)))" using assms(3) read_distinct [OF assms(1) d(1)] by blast
  from read_after_write [OF assms(1) this] d show ?thesis by force
qed

lemma distinct_changes:
  "distinct (map fst d) \<Longrightarrow> distinct (map fst (fst (save_change uni rec d)))"
  "distinct (map fst d) \<Longrightarrow> distinct (map fst (fst (touch_change k now d)))"
  "distinct (map fst d) \<Longrightarrow> distinct (map fst (fst (remove_change k d)))"
  "distinct (map fst d) \<Longrightarrow> distinct (map fst (fst (remove_id_change i d)))"
  by (simp_all add: save_change_def touch_change_def remove_change_def remove_id_change_def
      distinct_update distinct_delete comp_def case_prod_unfold split: option.split)

interpretation trust_map: kv_store map_of "\<lambda>m k v. AList.update k v m"
  by unfold_locales (simp_all add: update_conv')


section \<open>A concrete codec\<close>

text \<open>An injective printing of the whole map, to show that the hypothesis on the codec can hold.\<close>

definition fp_tuple :: "stored_fingerprint \<Rightarrow> string \<times> string \<times> nat \<times> string \<times> string \<times> int \<times> int \<times> string option" where
  "fp_tuple v = (sf_id v, sf_host v, unat (sf_port v), sf_fingerprint v, sf_algorithm v, sf_added_at v,
     sf_last_verified_at v, sf_server_name v)"

definition tuple_fp :: "string \<times> string \<times> nat \<times> string \<times> string \<times> int \<times> int \<times> string option \<Rightarrow> stored_fingerprint" where
  "tuple_fp t = (case t of (i, h, p, f, a, t1, t2, n) \<Rightarrow>
     \<lparr>sf_id = i, sf_host = h, sf_port = of_nat p, sf_fingerprint = f, sf_algorithm = a, sf_added_at = t1,
      sf_last_verified_at = t2, sf_server_name = n\<rparr>)"

lemma tuple_fp_tuple [simp]: "tuple_fp (fp_tuple v) = v"
  by (simp add: tuple_fp_def fp_tuple_def)

definition number_codec :: codec where
  "number_codec =
     \<lparr>from_str = (\<lambda>s. case parse_nat (butlast s) of
          None \<Rightarrow> None
        | Some n \<Rightarrow> (let m = map (map_prod id tuple_fp) (from_nat n) in
                    if distinct (map fst m) then Some m else None)),
      to_pretty = (\<lambda>m. show_nat (to_nat (map (map_prod id fp_tuple) m)))\<rparr>"

lemma number_codec_ok: "codec_ok number_codec"
  by (auto simp: codec_ok_def number_codec_def Let_def comp_def map_prod_def case_prod_unfold
      split: option.splits if_splits)

definition all_ok :: persist_io where
  "all_ok = \<lparr>io_open_lock = True, io_lock = True, io_create = True, io_write = True, io_newline = True,
     io_sync = True, io_rename = True, io_remove = True\<rparr>"

definition sample_key :: stored_fingerprint where
  "sample_key = \<lparr>sf_id = ''u1'', sf_host = ''db'', sf_port = 22, sf_fingerprint = ''SHA256:abc'',
     sf_algorithm = ''ssh-ed25519'', sf_added_at = 5, sf_last_verified_at = 5, sf_server_name = None\<rparr>"

definition sample_content :: store_file where
  "sample_content = Content (to_pretty number_codec [(''db:22'', sample_key)] @ [CHR 0x0A])"

lemma sample_host_key [simp]: "host_key uni ''db'' 22 = ''db:22''"
proof -
  have "ascii ''db''" "to_ascii_lowercase ''db'' = ''db''" "show_nat 22 = ''22''" by code_simp+
  then show ?thesis by (simp add: host_key_def to_lowercase_def)
qed

lemma read_sample [simp]:
  "read_snapshot number_codec (Content (to_pretty number_codec [(''db:22'', sample_key)] @ [CHR 0x0A])) =
     Inr [(''db:22'', sample_key)]"
  "read_snapshot number_codec (Content (to_pretty number_codec [] @ [CHR 0x0A])) = Inr []"
  by (simp_all add: read_snapshot_def number_codec_def)

lemma sample_save:
  "save uni number_codec all_ok ''u1'' 5 ''db'' 22 ''SHA256:abc'' ''ssh-ed25519'' None
     \<lparr>fs_mem = [], fs_disk = NotFound, fs_temp = []\<rparr> =
   (\<lparr>fs_mem = [(''db:22'', sample_key)], fs_disk = sample_content, fs_temp = []\<rparr>, Inr sample_key)"
  by (simp add: save_def save_change_def update_defs all_ok_def read_snapshot_def [of _ NotFound]
      flip: sample_key_def) (simp add: sample_content_def sample_key_def)

section \<open>Operations\<close>

text \<open>Supporting result: The store never resets or half-applies: when any of the calls of an update fails (lock,
  reading or decoding the file, creating, writing, syncing or renaming the temporary file), the in-memory
  keys and the store file are exactly what they were, and nothing at all has changed when the
  temporary file could be removed.  In particular an undecodable file makes every save fail.\<close>

theorem failed_save_changes_nothing:
  assumes "save uni c io uuid now host port fp alg name s = (s', Inl e)"
  shows "fs_mem s' = fs_mem s \<and> fs_disk s' = fs_disk s \<and> (io_remove io \<longrightarrow> s' = s)"
  using assms update_Inl by (fastforce simp: save_def Let_def split: prod.splits sum.splits)

theorem failed_save_changes_nothing_witness:
  "\<exists>s'. save (\<lambda>x. x) number_codec (all_ok\<lparr>io_rename := False\<rparr>) ''u2'' 9 ''db'' 22 ''SHA256:evil'' ''ssh-rsa'' None
       \<lparr>fs_mem = [], fs_disk = sample_content, fs_temp = []\<rparr> = (s', Inl CannotPersist) \<and>
     s' = \<lparr>fs_mem = [], fs_disk = sample_content, fs_temp = []\<rparr>"
proof -
  let ?s = "\<lparr>fs_mem = [], fs_disk = sample_content, fs_temp = []\<rparr>"
  have "\<exists>s'. save (\<lambda>x. x) number_codec (all_ok\<lparr>io_rename := False\<rparr>) ''u2'' 9 ''db'' 22 ''SHA256:evil'' ''ssh-rsa'' None ?s
      = (s', Inl CannotPersist)"
    by (simp add: save_def update_defs all_ok_def sample_content_def case_prod_unfold)
  then obtain s' where s': "save (\<lambda>x. x) number_codec (all_ok\<lparr>io_rename := False\<rparr>) ''u2'' 9 ''db'' 22 ''SHA256:evil''
      ''ssh-rsa'' None ?s = (s', Inl CannotPersist)" by blast
  from failed_save_changes_nothing [OF s'] have "s' = ?s" by (simp add: all_ok_def)
  with s' show ?thesis by blast
qed

text \<open>Supporting result: No lost update: a save merges with what is on disk, whatever this process
  remembers: afterwards the file and the memory hold the records that were on disk with the one host
  replaced, so an approval by another process survives.\<close>

theorem save_merges_with_disk:
  assumes "codec_ok c"
    and "save uni c io uuid now host port fp alg name s = (s', Inr r)"
  shows "\<exists>d d'. read_snapshot c (fs_disk s) = Inr d \<and> read_snapshot c (fs_disk s') = Inr d' \<and>
    map_of d' = (map_of d)(host_key uni host port \<mapsto> r) \<and> map_of (fs_mem s') = map_of d' \<and>
    sf_fingerprint r = fp \<and> verify uni (fs_mem s') host port fp alg = Trusted"
proof -
  from assms(2) have u: "update c io (save_change uni r) s = (s', Inr ())"
    and r: "sf_host r = host" "sf_port r = port" "sf_fingerprint r = fp"
    by (auto simp: save_def Let_def split: prod.splits sum.splits)
  from update_coherent [OF assms(1) u distinct_changes(1)] obtain d d' where
    "read_snapshot c (fs_disk s) = Inr d" "read_snapshot c (fs_disk s') = Inr d'"
    "map_of d' = map_of (fst (save_change uni r d))" "fs_mem s' = fst (save_change uni r d)" by auto
  moreover have "map_of (fst (save_change uni r d)) = (map_of d)(host_key uni host port \<mapsto> r)"
    by (simp add: save_change_def r trust_map.get_put)
  ultimately show ?thesis
    using r(3) by (auto simp: verify_def decide_host_key_def)
qed

theorem save_merges_with_disk_witness:
  "\<exists>s' r. save (\<lambda>x. x) number_codec all_ok ''u1'' 5 ''db'' 22 ''SHA256:abc'' ''ssh-ed25519'' None
     \<lparr>fs_mem = [], fs_disk = NotFound, fs_temp = []\<rparr> = (s', Inr r) \<and>
     verify (\<lambda>x. x) (fs_mem s') ''db'' 22 ''SHA256:abc'' ''ssh-ed25519'' = Trusted"
  using save_merges_with_disk [OF number_codec_ok sample_save [of "\<lambda>x. x"]] sample_save [of "\<lambda>x. x"] by auto

lemma find_Some_in: "List.find P xs = Some x \<Longrightarrow> x \<in> set xs \<and> P x"
  by (induction xs) (auto split: if_splits)

text \<open>Supporting result: Deleting by id removes one record and only a record with that id, from memory and from
  file alike, and reports whether there was one.\<close>

theorem delete_by_id_removes_one:
  assumes "codec_ok c" "delete_by_id c io i s = (s', Inr removed)"
  shows "\<exists>d d'. read_snapshot c (fs_disk s) = Inr d \<and> read_snapshot c (fs_disk s') = Inr d' \<and>
    map_of (fs_mem s') = map_of d' \<and>
    (if removed then \<exists>k v. map_of d k = Some v \<and> sf_id v = i \<and> map_of d' = (map_of d)(k := None)
     else (\<forall>v \<in> snd ` set d. sf_id v \<noteq> i) \<and> map_of d' = map_of d)"
proof -
  from assms(2) have u: "update c io (remove_id_change i) s = (s', Inr removed)" by (simp add: delete_by_id_def)
  from update_coherent [OF assms(1) u distinct_changes(4)] obtain d d' where
    d: "read_snapshot c (fs_disk s) = Inr d" "read_snapshot c (fs_disk s') = Inr d'"
    "snd (remove_id_change i d) = removed" "fs_mem s' = fst (remove_id_change i d)"
    "map_of d' = map_of (fst (remove_id_change i d))" by auto
  have "distinct (map fst d)" using read_distinct [OF assms(1) d(1)] .
  then have "if removed then \<exists>k v. map_of d k = Some v \<and> sf_id v = i \<and> map_of d' = (map_of d)(k := None)
     else (\<forall>v \<in> snd ` set d. sf_id v \<noteq> i) \<and> map_of d' = map_of d"
  proof (cases "List.find (\<lambda>p. sf_id (snd p) = i) d")
    case None
    then have "\<forall>v \<in> snd ` set d. sf_id v \<noteq> i" by (fastforce simp: find_None_iff)
    with d(3,5) None show ?thesis by (auto simp: remove_id_change_def)
  next
    case (Some kv)
    moreover obtain k v where "kv = (k, v)" by (cases kv)
    ultimately have "map_of d k = Some v" "sf_id v = i" "removed" "map_of d' = (map_of d)(k := None)"
      using d(3,5) \<open>distinct (map fst d)\<close> find_Some_in [OF Some]
      by (auto simp: remove_id_change_def delete_conv' map_of_eq_Some_iff)
    then show ?thesis by auto
  qed
  with d show ?thesis by auto
qed

theorem delete_by_id_removes_one_witness:
  "\<exists>s' d'. delete_by_id number_codec all_ok ''u1'' \<lparr>fs_mem = [], fs_disk = sample_content, fs_temp = []\<rparr> = (s', Inr True) \<and>
     read_snapshot number_codec (fs_disk s') = Inr d' \<and> map_of d' = Map.empty"
proof -
  have "\<exists>s'. delete_by_id number_codec all_ok ''u1'' \<lparr>fs_mem = [], fs_disk = sample_content, fs_temp = []\<rparr> = (s', Inr True)"
    by (simp add: delete_by_id_def remove_id_change_def update_defs all_ok_def sample_content_def)
       (simp add: sample_key_def)
  then obtain s' where s': "delete_by_id number_codec all_ok ''u1''
      \<lparr>fs_mem = [], fs_disk = sample_content, fs_temp = []\<rparr> = (s', Inr True)" by blast
  from delete_by_id_removes_one [OF number_codec_ok s'] s' show ?thesis
    by (auto simp: sample_content_def split: if_splits)
qed


section \<open>Provenance of trust\<close>

definition trust_inv :: "codec \<Rightarrow> trust_world \<Rightarrow> bool" where
  "trust_inv c w \<longleftrightarrow>
     (\<forall>p m. tw_mem w p = Some m \<longrightarrow> pairs m \<subseteq> tw_approved w) \<and>
     (\<forall>d. read_snapshot c (tw_disk w) = Inr d \<longrightarrow> pairs d \<subseteq> tw_approved w)"

lemma pairs_changes:
  "pairs (fst (save_change uni r d)) \<subseteq>
     insert (host_key uni (sf_host r) (sf_port r), sf_fingerprint r) (pairs d)"
  "pairs (fst (touch_change k now d)) \<subseteq> pairs d"
  "pairs (fst (remove_change k d)) \<subseteq> pairs d"
  "pairs (fst (remove_id_change i d)) \<subseteq> pairs d"
proof -
  have t: "map_of (fst (touch_change k now d)) j =
      map_option (\<lambda>v. if j = k then v\<lparr>sf_last_verified_at := now\<rparr> else v) (map_of d j)" for j
    by (induction d) (auto simp: touch_change_def)
  show "pairs (fst (save_change uni r d)) \<subseteq>
     insert (host_key uni (sf_host r) (sf_port r), sf_fingerprint r) (pairs d)"
    by (auto simp: pairs_def save_change_def update_conv' split: if_splits)
  show "pairs (fst (touch_change k now d)) \<subseteq> pairs d"
    by (auto simp: pairs_def t split: if_splits)
  show "pairs (fst (remove_change k d)) \<subseteq> pairs d"
    by (auto simp: pairs_def remove_change_def delete_conv' split: if_splits)
  show "pairs (fst (remove_id_change i d)) \<subseteq> pairs d"
    by (auto simp: pairs_def remove_id_change_def delete_conv' split: if_splits option.splits)
qed

lemma update_trust:
  assumes c: "codec_ok c" and inv: "trust_inv c w" and m: "tw_mem w p = Some m"
    and u: "update c io change (local_view w m) = (s, r)"
    and ch: "\<And>d. distinct (map fst d) \<Longrightarrow> distinct (map fst (fst (change d)))"
    and grow: "\<And>d. pairs (fst (change d)) \<subseteq> X \<union> pairs d"
  shows "trust_inv c ((put_back w p s)\<lparr>tw_approved := X \<union> tw_approved w\<rparr>)"
proof -
  have "pairs (fs_mem s) \<subseteq> X \<union> tw_approved w \<and>
      (\<forall>d. read_snapshot c (fs_disk s) = Inr d \<longrightarrow> pairs d \<subseteq> X \<union> tw_approved w)"
  proof (cases r)
    case (Inl e)
    with u update_Inl [of c io change "local_view w m" s e] inv m show ?thesis
      by (auto simp: trust_inv_def local_view_def)
  next
    case (Inr x)
    from update_coherent [OF c u [unfolded Inr] ch] obtain d d' where
      "read_snapshot c (tw_disk w) = Inr d" "read_snapshot c (fs_disk s) = Inr d'"
      "fs_mem s = fst (change d)" "map_of d' = map_of (fst (change d))" by (auto simp: local_view_def)
    moreover from this(1) inv have "pairs d \<subseteq> tw_approved w" by (simp add: trust_inv_def)
    moreover have "pairs d' = pairs (fst (change d))" using calculation(4) by (simp add: pairs_def)
    ultimately show ?thesis using grow [of d] by auto
  qed
  then show ?thesis using inv unfolding trust_inv_def put_back_def by simp blast
qed

lemmas update_trust_same = update_trust [where X = "{}", simplified]

lemma put_back_approved [simp]: "(put_back w p s)\<lparr>tw_approved := tw_approved w\<rparr> = put_back w p s"
  by (simp add: put_back_def)

lemma trust_step_inv:
  assumes "codec_ok c" "trust_inv c w" "trust_step uni c w w'"
  shows "trust_inv c w'"
  using assms(3)
proof cases
  case (start_process fps p)
  with assms(2) show ?thesis by (auto simp: trust_inv_def new_at_def)
next
  case (refresh p m s r)
  from refresh(2) assms(2) have "pairs m \<subseteq> tw_approved w" unfolding trust_inv_def by blast
  with refresh assms(2) show ?thesis
    by (cases "read_snapshot c (tw_disk w)")
       (auto simp add: trust_inv_def reload_def put_back_def local_view_def simp del: fun_upd_apply,
        auto split: if_splits)
next
  case (approve p m io uuid now host port fp alg name s r)
  let ?r = "\<lparr>sf_id = uuid, sf_host = host, sf_port = port, sf_fingerprint = fp, sf_algorithm = alg,
     sf_added_at = now, sf_last_verified_at = now, sf_server_name = name\<rparr>"
  from approve(3) obtain r' where "update c io (save_change uni ?r) (local_view w m) = (s, r')"
    by (auto simp: save_def Let_def split: prod.splits sum.splits)
  from update_trust [OF assms(1,2) approve(2) this distinct_changes(1),
      where X = "{(host_key uni host port, fp)}"] pairs_changes(1) [of uni ?r]
  show ?thesis using approve(1) by simp
next
  case (touch_host p m io now host port s r)
  from update_trust_same [OF assms(1,2) touch_host(2) touch_host(3) [unfolded touch_def]
      distinct_changes(2) pairs_changes(2)] touch_host(1) show ?thesis by simp
next
  case (delete_host p m io host port s r')
  from update_trust_same [OF assms(1,2) delete_host(2) delete_host(3) [unfolded delete_def]
      distinct_changes(3) pairs_changes(3)] delete_host(1) show ?thesis by simp
next
  case (delete_id p m io i s r')
  from update_trust_same [OF assms(1,2) delete_id(2) delete_id(3) [unfolded delete_by_id_def]
      distinct_changes(4) pairs_changes(4)] delete_id(1) show ?thesis by simp
next
  case (clear_all p m io s r)
  from update_trust_same [OF assms(1,2) clear_all(2) clear_all(3) [unfolded clear_def]] clear_all(1)
  show ?thesis by (simp add: pairs_def)
qed


interpretation trust: inductive_invariant
  "trust_init c" "trust_step uni c" "\<lambda>w. codec_ok c \<longrightarrow> trust_inv c w" for uni c
proof unfold_locales
  show "trust_init c s \<Longrightarrow> codec_ok c \<longrightarrow> trust_inv c s" for s
    by (simp add: trust_init_def trust_inv_def)
  show "codec_ok c \<longrightarrow> trust_inv c s \<Longrightarrow> trust_step uni c s t \<Longrightarrow> codec_ok c \<longrightarrow> trust_inv c t" for s t
    using trust_step_inv by blast
qed

text \<open>C2: Trust comes only from the user: however processes that share the store file start,
  refresh, approve, touch, delete and clear, with any file-system faults, a process that accepts a host
  key holds a fingerprint that the user approved for that host and port (or that was in the file at
  the beginning).\<close>

theorem trusted_only_if_approved:
  assumes "codec_ok c" "reachable_from (trust_init c) (trust_step uni c) w"
    and "tw_mem w p = Some m" "evaluate_host_key (verify uni m host port fp alg) = Inr ()"
  shows "(host_key uni host port, fp) \<in> tw_approved w"
proof -
  have "verify uni m host port fp alg = Trusted"
    using assms(4) by (cases "verify uni m host port fp alg") (simp_all add: evaluate_host_key_def)
  moreover have "pairs m \<subseteq> tw_approved w"
    using trust.reachable_inv [OF assms(2)] assms(1,3) unfolding trust_inv_def by blast
  ultimately show ?thesis by (auto simp: verify_Trusted_iff)
qed

theorem trusted_only_if_approved_witness:
  "\<exists>w m. reachable_from (trust_init number_codec) (trust_step (\<lambda>x. x) number_codec) w \<and> tw_mem w 0 = Some m \<and>
     evaluate_host_key (verify (\<lambda>x. x) m ''db'' 22 ''SHA256:abc'' ''ssh-ed25519'') = Inr () \<and>
     (''db:22'', ''SHA256:abc'') \<in> tw_approved w"
proof -
  let ?w0 = "\<lparr>tw_mem = Map.empty, tw_disk = NotFound, tw_temp = [], tw_approved = {}\<rparr>"
  let ?w1 = "?w0\<lparr>tw_mem := (tw_mem ?w0)(0 \<mapsto> [])\<rparr>"
  let ?s = "\<lparr>fs_mem = [(''db:22'', sample_key)], fs_disk = sample_content, fs_temp = []\<rparr>"
  let ?w2 = "(put_back ?w1 0 ?s)\<lparr>tw_approved := insert (host_key (\<lambda>x. x) ''db'' 22, ''SHA256:abc'') (tw_approved ?w1)\<rparr>"
  have "trust_init number_codec ?w0" by (simp add: trust_init_def read_snapshot_def pairs_def)
  then have "reachable_from (trust_init number_codec) (trust_step (\<lambda>x. x) number_codec) ?w0" by (rule start)
  moreover have "trust_step (\<lambda>x. x) number_codec ?w0 ?w1"
    by (rule start_process) (simp add: new_at_def read_snapshot_def)
  moreover have "trust_step (\<lambda>x. x) number_codec ?w1 ?w2"
    by (rule approve [where m = "[]" and io = all_ok and uuid = "''u1''" and now = 5 and
          alg = "''ssh-ed25519''" and name = None and r = "Inr sample_key"])
       (simp_all add: local_view_def sample_save)
  ultimately have r: "reachable_from (trust_init number_codec) (trust_step (\<lambda>x. x) number_codec) ?w2"
    by (blast intro: next_state)
  have m: "tw_mem ?w2 0 = Some [(''db:22'', sample_key)]" by (simp add: put_back_def)
  have v: "evaluate_host_key (verify (\<lambda>x. x) [(''db:22'', sample_key)] ''db'' 22 ''SHA256:abc'' ''ssh-ed25519'') = Inr ()"
    by (simp add: verify_def decide_host_key_def evaluate_host_key_def) (simp add: sample_key_def)
  from trusted_only_if_approved [OF number_codec_ok r m v] r m v show ?thesis
    by (intro exI [of _ ?w2] exI conjI) simp_all
qed

text \<open>Supporting result: A removed key is forgotten by every process at its next connection: once any process
  has deleted a host, a process that refreshes its map before the handshake, as the connect code does, finds
  the host unknown, whatever key is presented.\<close>

theorem deleted_host_unknown_after_refresh:
  assumes "codec_ok c"
    and "delete uni c io host port (local_view w m) = (s, Inr removed)"
    and "reload c (local_view (put_back w p s) m') = (s', Inr ())"
  shows "verify uni (fs_mem s') host port fp alg = UnknownKey fp alg"
proof -
  from update_coherent [OF assms(1) assms(2) [unfolded delete_def] distinct_changes(3)] obtain d d' where
    "read_snapshot c (fs_disk s) = Inr d'" "map_of d' = map_of (fst (remove_change (host_key uni host port) d))"
    by auto
  moreover from this(1) assms(3) have "fs_mem s' = d'"
    by (auto simp: reload_def local_view_def put_back_def)
  ultimately show ?thesis by (simp add: verify_def remove_change_def delete_conv')
qed

theorem deleted_host_unknown_after_refresh_witness:
  "\<exists>s s'. delete (\<lambda>x. x) number_codec all_ok ''db'' 22
        (local_view \<lparr>tw_mem = Map.empty, tw_disk = sample_content, tw_temp = [], tw_approved = {}\<rparr> []) = (s, Inr True) \<and>
     reload number_codec (local_view (put_back \<lparr>tw_mem = Map.empty, tw_disk = sample_content, tw_temp = [],
        tw_approved = {}\<rparr> 0 s) [(''db:22'', sample_key)]) = (s', Inr ()) \<and>
     verify (\<lambda>x. x) (fs_mem s') ''db'' 22 ''SHA256:abc'' ''ssh-ed25519'' = UnknownKey ''SHA256:abc'' ''ssh-ed25519''"
proof -
  let ?w = "\<lparr>tw_mem = Map.empty, tw_disk = sample_content, tw_temp = [], tw_approved = {}\<rparr>"
  let ?s = "\<lparr>fs_mem = [], fs_disk = Content (to_pretty number_codec [] @ [CHR 0x0A]), fs_temp = []\<rparr>"
  have d: "delete (\<lambda>x. x) number_codec all_ok ''db'' 22 (local_view ?w []) = (?s, Inr True)"
    by (simp add: delete_def remove_change_def update_defs all_ok_def local_view_def sample_content_def)
  have r: "reload number_codec (local_view (put_back ?w 0 ?s) [(''db:22'', sample_key)]) = (?s, Inr ())"
    by (simp add: reload_def local_view_def put_back_def)
  from deleted_host_unknown_after_refresh [OF number_codec_ok d r] d r show ?thesis by blast
qed

end
