(* ===== verification/Sync_Clock.thy ===== *)
theory Sync_Clock
  imports Prelude Decimal "HOL-Library.Word" "HOL-Library.AList"
begin

text \<open>
  The hybrid logical clock of the sync storage, \<^verbatim>\<open>src-tauri/src/storage/sync.rs\<close>:
  metadata table, validation of device and opaque identifiers, and revisions
  \<open><20 digits of milliseconds>:<device id>\<close>, which are compared as strings.
\<close>

section \<open>Errors of the sync storage\<close>

datatype sync_entity_kind = Server | Group | CommandSnippet | PluginInstallation

datatype sync_error =
    DeviceIdMissing
  | InvalidDeviceId
  | InvalidLastRevision
  | ClockExhausted
  | InvalidRevision string
  | FutureRevision
  | InvalidOpaqueId string
  | UnknownEntityKind string
  | UnsupportedSchema nat
  | EmptyChangeIds
  | EmptyEntityId
  | TombstoneWithPayload
  | MissingPayload
  | InvalidPayload sync_entity_kind
  | MissingCanonicalName
  | SnippetConflict
  | ContenderWithoutState sync_entity_kind string
  | TombstonedNameOwner
  | EqualRevisionDiffers sync_entity_kind string
  | MissingDomainRow sync_entity_kind string
  | UniqueNameViolation
  | PrimaryKeyViolation
  | CheckViolation
  | ExternalManifestMissing
  | InvalidExternalManifest
  | InvalidBuiltinCatalog
  | UnknownBuiltinPlugin string
  | EmptyCiphertext
  | NoChangeIds
  | DuplicateChangeIds
  | DifferentPendingUpload string
  | EnvelopeMismatch

definition as_str :: "sync_entity_kind \<Rightarrow> string" where
  "as_str k =
     (case k of
        Server \<Rightarrow> ''server''
      | Group \<Rightarrow> ''group''
      | CommandSnippet \<Rightarrow> ''command_snippet''
      | PluginInstallation \<Rightarrow> ''plugin_installation'')"

definition from_db :: "string \<Rightarrow> sync_error + sync_entity_kind" where
  "from_db value =
     (if value = ''server'' then Inr Server
      else if value = ''group'' then Inr Group
      else if value = ''command_snippet'' then Inr CommandSnippet
      else if value = ''plugin_installation'' then Inr PluginInstallation
      else Inl (UnknownEntityKind value))"

lemma from_db_as_str [simp]: "from_db (as_str k) = Inr k"
  by (cases k) (simp_all add: as_str_def from_db_def)

lemma as_str_inject [simp]: "as_str j = as_str k \<longleftrightarrow> j = k"
  by (metis from_db_as_str sum.inject(2))

text \<open>Tables are sorted by the stored name of the kind, so the kinds are ordered by it.\<close>

instantiation sync_entity_kind :: linorder
begin

definition less_eq_sync_entity_kind :: "sync_entity_kind \<Rightarrow> sync_entity_kind \<Rightarrow> bool" where
  "less_eq_sync_entity_kind j k \<longleftrightarrow> as_str j \<le> as_str k"

definition less_sync_entity_kind :: "sync_entity_kind \<Rightarrow> sync_entity_kind \<Rightarrow> bool" where
  "less_sync_entity_kind j k \<longleftrightarrow> as_str j < as_str k"

instance
proof
  fix x y z :: sync_entity_kind
  note defs = less_eq_sync_entity_kind_def less_sync_entity_kind_def
  show "x < y \<longleftrightarrow> x \<le> y \<and> \<not> y \<le> x" unfolding defs by (rule less_le_not_le)
  show "x \<le> x" unfolding defs by simp
  show "x \<le> y \<Longrightarrow> y \<le> z \<Longrightarrow> x \<le> z" unfolding defs by (rule order_trans)
  show "x \<le> y \<Longrightarrow> y \<le> x \<Longrightarrow> x = y" unfolding defs by (metis antisym as_str_inject)
  show "x \<le> y \<or> y \<le> x" unfolding defs by (rule linear)
qed

end

section \<open>Metadata\<close>

type_synonym metadata = "string \<rightharpoonup> string"

definition device_id_key :: string where "device_id_key = ''device_id''"
definition last_revision_millis_key :: string where "last_revision_millis_key = ''last_revision_millis''"
definition remote_cursor_key :: string where "remote_cursor_key = ''remote_cursor''"
definition active_vault_id_key :: string where "active_vault_id_key = ''active_vault_id''"
definition max_device_id_len :: nat where "max_device_id_len = 128"
definition max_remote_clock_skew_millis :: int where
  "max_remote_clock_skew_millis = 24 * 60 * 60 * 1000"

definition metadata_get :: "metadata \<Rightarrow> string \<Rightarrow> string option" where
  "metadata_get md key = md key"

definition metadata_set :: "metadata \<Rightarrow> string \<Rightarrow> string \<Rightarrow> metadata" where
  "metadata_set md key value = md(key \<mapsto> value)"

interpretation md: kv_store metadata_get metadata_set
  by unfold_locales (simp_all add: metadata_get_def metadata_set_def)

lemma sync_keys_distinct [simp]:
  "device_id_key \<noteq> last_revision_millis_key" "last_revision_millis_key \<noteq> device_id_key"
  "remote_cursor_key \<noteq> device_id_key" "remote_cursor_key \<noteq> last_revision_millis_key"
  "active_vault_id_key \<noteq> device_id_key" "active_vault_id_key \<noteq> last_revision_millis_key"
  "device_id_key \<noteq> remote_cursor_key" "last_revision_millis_key \<noteq> remote_cursor_key"
  "device_id_key \<noteq> active_vault_id_key" "last_revision_millis_key \<noteq> active_vault_id_key"
  by (simp_all add: device_id_key_def last_revision_millis_key_def remote_cursor_key_def active_vault_id_key_def)

section \<open>Identifiers\<close>

definition is_ascii_alphanumeric :: "char \<Rightarrow> bool" where
  "is_ascii_alphanumeric c \<longleftrightarrow>
     48 \<le> byte c \<and> byte c \<le> 57 \<or> 65 \<le> byte c \<and> byte c \<le> 90 \<or> 97 \<le> byte c \<and> byte c \<le> 122"

definition id_char :: "char \<Rightarrow> bool" where
  "id_char c \<longleftrightarrow> is_ascii_alphanumeric c \<or> c = CHR ''-'' \<or> c = CHR ''_'' \<or> c = CHR ''.''"

definition validate_device_id :: "string \<Rightarrow> sync_error + unit" where
  "validate_device_id device_id =
     ensure (\<not> (device_id = [] \<or> max_device_id_len < length device_id \<or> \<not> list_all id_char device_id))
       InvalidDeviceId"

definition validate_opaque_sync_id :: "string \<Rightarrow> string \<Rightarrow> sync_error + unit" where
  "validate_opaque_sync_id label value =
     ensure (\<not> (value = [] \<or> 128 < length value \<or> \<not> list_all id_char value)) (InvalidOpaqueId label)"

definition validate_vault_id :: "string \<Rightarrow> sync_error + unit" where
  "validate_vault_id vault_id = validate_opaque_sync_id ''sync vault ID'' vault_id"

section \<open>Revisions\<close>

definition revision_millis :: "string \<Rightarrow> sync_error + int" where
  "revision_millis revision =
     rbind (ok_or (split_once CHR '':'' revision) (InvalidRevision revision)) (\<lambda>(millis, device_id).
       if length millis \<noteq> 20 \<or> \<not> list_all is_digit millis then Inl (InvalidRevision revision)
       else rbind (validate_device_id device_id) (\<lambda>_. ok_or (parse_i64 millis) (InvalidRevision revision)))"

definition format_revision :: "int \<Rightarrow> string \<Rightarrow> string" where
  "format_revision logical_millis device_id = fmt_pad 20 logical_millis @ '':'' @ device_id"

definition last_millis :: "metadata \<Rightarrow> sync_error + int" where
  "last_millis md =
     ok_or (parse_i64 (case metadata_get md last_revision_millis_key of Some v \<Rightarrow> v | None \<Rightarrow> ''0''))
       InvalidLastRevision"

text \<open>\<open>checked_add(1)\<close> on \<open>i64\<close>.\<close>

definition checked_add_i64 :: "int \<Rightarrow> int \<Rightarrow> int option" where
  "checked_add_i64 a b = (if i64_min \<le> a + b \<and> a + b \<le> i64_max then Some (a + b) else None)"

definition next_revision :: "int \<Rightarrow> metadata \<Rightarrow> sync_error + string \<times> metadata" where
  "next_revision now md =
     rbind (ok_or (metadata_get md device_id_key) DeviceIdMissing) (\<lambda>device_id.
     rbind (validate_device_id device_id) (\<lambda>_.
     rbind (last_millis md) (\<lambda>previous.
     rbind (ok_or (checked_add_i64 previous 1) ClockExhausted) (\<lambda>next_logical.
       let logical_millis = max now next_logical in
       Inr (format_revision logical_millis device_id,
            metadata_set md last_revision_millis_key (show_int logical_millis))))))"

definition observe_revision :: "metadata \<Rightarrow> string \<Rightarrow> sync_error + metadata" where
  "observe_revision md revision =
     rbind (revision_millis revision) (\<lambda>observed_millis.
     rbind (last_millis md) (\<lambda>previous.
       Inr (if previous < observed_millis
            then metadata_set md last_revision_millis_key (show_int observed_millis) else md)))"

definition validate_remote_revision :: "string \<Rightarrow> int \<Rightarrow> sync_error + unit" where
  "validate_remote_revision revision now_millis =
     rbind (revision_millis revision) (\<lambda>millis.
       let latest_allowed = (case checked_add_i64 now_millis max_remote_clock_skew_millis of
             Some m \<Rightarrow> m | None \<Rightarrow> i64_max)
       in ensure (millis \<le> latest_allowed) FutureRevision)"

section \<open>Revisions are pairs of a time and a device, ordered lexicographically\<close>

lemma append_less_same_length:
  "length a = length b \<Longrightarrow> (a :: string) @ c < b @ d \<longleftrightarrow> a < b \<or> a = b \<and> c < d"
  by (induction a b rule: list_induct2) auto

lemma digits_val_inject:
  "length s = length t \<Longrightarrow> list_all is_digit s \<Longrightarrow> list_all is_digit t \<Longrightarrow>
     digits_val s = digits_val t \<longleftrightarrow> s = t"
  using digits_order [of s t] digits_order [of t s] by (metis less_irrefl not_less_iff_gr_or_eq)

lemma fmt_pad_20:
  assumes "0 \<le> m" "m \<le> i64_max"
  shows "length (fmt_pad 20 m) = 20" "list_all is_digit (fmt_pad 20 m)" "digits_val (fmt_pad 20 m) = nat m"
proof -
  have "nat m < 10 ^ 20" using assms by (simp add: i64_max_def)
  then have "length (show_nat (nat m)) \<le> 20" by (rule show_nat_length_le) simp
  then show "length (fmt_pad 20 m) = 20" using assms by (simp add: fmt_pad_def length_zero_pad)
  show "list_all is_digit (fmt_pad 20 m)" using assms by (simp add: fmt_pad_def zero_pad_digits show_nat_digits)
  show "digits_val (fmt_pad 20 m) = nat m" using assms by (simp add: fmt_pad_def)
qed

lemma digits_no_colon: "list_all is_digit s \<Longrightarrow> CHR '':'' \<notin> set s"
  by (auto simp: list_all_iff dest: is_digit_not_sign)

lemma revision_millis_format:
  assumes "0 \<le> m" "m \<le> i64_max" "validate_device_id d = Inr ()"
  shows "revision_millis (format_revision m d) = Inr m"
proof -
  note f = fmt_pad_20 [OF assms(1,2)]
  have "split_once CHR '':'' (format_revision m d) = Some (fmt_pad 20 m, d)"
    by (simp add: format_revision_def split_once_Some digits_no_colon f(2))
  moreover have "parse_i64 (fmt_pad 20 m) = Some m"
    using f assms(1,2) by (subst parse_i64_digits) auto
  ultimately show ?thesis using assms(3) f by (simp add: revision_millis_def)
qed

lemma revision_millis_Inr:
  assumes "revision_millis r = Inr m"
  shows "\<exists>d. r = format_revision m d \<and> validate_device_id d = Inr () \<and> 0 \<le> m \<and> m \<le> i64_max"
proof -
  from assms obtain a d where r: "r = a @ CHR '':'' # d" and a: "length a = 20" "list_all is_digit a"
    and d: "validate_device_id d = Inr ()" and m: "parse_i64 a = Some m"
    by (auto simp: revision_millis_def rbind_Inr_iff split_once_Some split: if_splits)
  from m a have m': "m = int (digits_val a)" "m \<le> i64_max"
    by (subst (asm) parse_i64_digits; auto split: if_splits)+
  then have "fmt_pad 20 m = a"
    using fmt_pad_20 [of m] a by (subst digits_val_inject [symmetric]) auto
  with r d m' show ?thesis by (auto simp: format_revision_def)
qed

lemma format_revision_less_iff:
  assumes "0 \<le> m" "m \<le> i64_max" "0 \<le> n" "n \<le> i64_max"
  shows "format_revision m d < format_revision n e \<longleftrightarrow> m < n \<or> m = n \<and> d < e"
proof -
  note f = fmt_pad_20 [OF assms(1,2)] and g = fmt_pad_20 [OF assms(3,4)]
  have l: "length (fmt_pad 20 m) = length (fmt_pad 20 n)" using f(1) g(1) by simp
  have "fmt_pad 20 m < fmt_pad 20 n \<longleftrightarrow> m < n" "fmt_pad 20 m = fmt_pad 20 n \<longleftrightarrow> m = n"
    using digits_order [OF l f(2) g(2)] digits_val_inject [OF l f(2) g(2)] f(3) g(3) assms by auto
  with l show ?thesis by (simp add: format_revision_def append_less_same_length)
qed

lemma revision_less:
  assumes "revision_millis r = Inr m" "revision_millis s = Inr n" "m < n"
  shows "r < s"
proof -
  from revision_millis_Inr [OF assms(1)] obtain d where d: "r = format_revision m d" "0 \<le> m" "m \<le> i64_max" by blast
  from revision_millis_Inr [OF assms(2)] obtain e where e: "s = format_revision n e" "0 \<le> n" "n \<le> i64_max" by blast
  show ?thesis using format_revision_less_iff [OF d(2,3) e(2,3)] d(1) e(1) assms(3) by blast
qed

text \<open>Supporting result: Comparing revisions as strings is comparing times first and device ids second: for two
  well-formed revisions the byte order, which the code and SQLite use everywhere, is the lexicographic
  order of (milliseconds, device).\<close>

theorem revision_order:
  assumes "revision_millis r = Inr m" "revision_millis s = Inr n"
  shows "\<exists>d e. r = format_revision m d \<and> s = format_revision n e \<and>
    (r < s \<longleftrightarrow> m < n \<or> m = n \<and> d < e)"
proof -
  from revision_millis_Inr [OF assms(1)] obtain d where d: "r = format_revision m d" "0 \<le> m" "m \<le> i64_max" by blast
  from revision_millis_Inr [OF assms(2)] obtain e where e: "s = format_revision n e" "0 \<le> n" "n \<le> i64_max" by blast
  show ?thesis using format_revision_less_iff [OF d(2,3) e(2,3)] d(1) e(1) by blast
qed

theorem revision_order_witness:
  "\<exists>d e. ''00000000000000000999:b'' = format_revision 999 d \<and> ''00000000000000001000:a'' = format_revision 1000 e \<and>
     ''00000000000000000999:b'' < ''00000000000000001000:a''"
proof -
  have r: "revision_millis ''00000000000000000999:b'' = Inr 999" "revision_millis ''00000000000000001000:a'' = Inr 1000"
    by code_simp+
  from revision_order [OF r] show ?thesis by auto
qed

section \<open>The clock only moves forward\<close>

definition clock_at :: "metadata \<Rightarrow> int \<Rightarrow> bool" where
  "clock_at md L \<longleftrightarrow> last_millis md = Inr L \<and> 0 \<le> L"

lemma clock_at_bound: "clock_at md L \<Longrightarrow> L \<le> i64_max"
  by (auto simp: clock_at_def last_millis_def dest: parse_i64_range)

lemma clock_at_set:
  "0 \<le> L \<Longrightarrow> L \<le> i64_max \<Longrightarrow> clock_at (metadata_set md last_revision_millis_key (show_int L)) L"
  by (simp add: clock_at_def last_millis_def md.get_put parse_show_int i64_min_def)

lemma next_revision_Inr:
  assumes "next_revision now md = Inr (r, md')" "clock_at md L" "now \<le> i64_max"
  shows "\<exists>d. metadata_get md device_id_key = Some d \<and> validate_device_id d = Inr () \<and>
    r = format_revision (max now (L + 1)) d \<and> clock_at md' (max now (L + 1)) \<and>
    revision_millis r = Inr (max now (L + 1)) \<and> L < max now (L + 1)"
proof -
  from assms(1,2) obtain d where d: "metadata_get md device_id_key = Some d" "validate_device_id d = Inr ()"
    and L: "L + 1 \<le> i64_max" and r: "r = format_revision (max now (L + 1)) d"
    and md': "md' = metadata_set md last_revision_millis_key (show_int (max now (L + 1)))"
    by (auto simp: next_revision_def rbind_Inr_iff clock_at_def checked_add_i64_def Let_def split: if_splits)
  have b: "0 \<le> max now (L + 1)" "max now (L + 1) \<le> i64_max" using L assms by (auto simp: clock_at_def)
  show ?thesis
    using d r md' clock_at_set [OF b] revision_millis_format [OF b d(2)] by auto
qed

lemma observe_revision_Inr:
  assumes "observe_revision md r = Inr md'" "clock_at md L"
  shows "\<exists>m. revision_millis r = Inr m \<and> clock_at md' (max L m)"
proof -
  from assms(1) obtain m where m: "revision_millis r = Inr m" by (auto simp: observe_revision_def rbind_Inr_iff)
  with revision_millis_Inr have b: "0 \<le> m" "m \<le> i64_max" by blast+
  from assms m have "md' = (if L < m then metadata_set md last_revision_millis_key (show_int m) else md)"
    by (auto simp: observe_revision_def rbind_Inr_iff clock_at_def)
  with assms(2) clock_at_set [OF b, of md] have "clock_at md' (max L m)" by auto
  with m show ?thesis by blast
qed

text \<open>A run of the clock: revisions issued for local changes (with arbitrary readings of the wall
  clock, also backwards) and revisions observed in remote changes.\<close>

datatype clock_event = Issued string | Observed string

fun event_revision :: "clock_event \<Rightarrow> string" where
  "event_revision (Issued r) = r"
| "event_revision (Observed r) = r"

inductive clock_run :: "metadata \<Rightarrow> clock_event list \<Rightarrow> metadata \<Rightarrow> bool" where
  idle: "clock_run md [] md"
| issue: "clock_run md es md1 \<Longrightarrow> now \<le> i64_max \<Longrightarrow> next_revision now md1 = Inr (r, md2) \<Longrightarrow>
    clock_run md (es @ [Issued r]) md2"
| observe: "clock_run md es md1 \<Longrightarrow> observe_revision md1 r = Inr md2 \<Longrightarrow>
    clock_run md (es @ [Observed r]) md2"

lemma clock_run_covers:
  assumes "clock_run md es md'" "clock_at md L"
  shows "\<exists>M. clock_at md' M \<and> L \<le> M \<and>
    (\<forall>e \<in> set es. \<exists>m. revision_millis (event_revision e) = Inr m \<and> m \<le> M)"
  using assms
proof (induction rule: clock_run.induct)
  case (idle md)
  then show ?case by auto
next
  case (issue md es md1 now r md2)
  then obtain M where M: "clock_at md1 M" "L \<le> M"
    "\<forall>e \<in> set es. \<exists>m. revision_millis (event_revision e) = Inr m \<and> m \<le> M" by blast
  from next_revision_Inr [OF issue.hyps(3) M(1) issue.hyps(2)] M show ?case
    by (intro exI [of _ "max now (M + 1)"]) fastforce
next
  case (observe md es md1 r md2)
  then obtain M where M: "clock_at md1 M" "L \<le> M"
    "\<forall>e \<in> set es. \<exists>m. revision_millis (event_revision e) = Inr m \<and> m \<le> M" by blast
  from observe_revision_Inr [OF observe.hyps(2) M(1)] obtain m where
    "revision_millis r = Inr m" "clock_at md2 (max M m)" by blast
  with M show ?case by (intro exI [of _ "max M m"]) fastforce
qed

text \<open>Supporting result: Causality: whatever the wall clock does, a revision issued for a local change is
  greater, in the string order used for conflict resolution, than every revision this device has issued
  or observed before.\<close>

theorem next_revision_is_newest:
  assumes "clock_run md es md'" "clock_at md L" "now \<le> i64_max"
    and "next_revision now md' = Inr (r, md'')" "e \<in> set es"
  shows "event_revision e < r"
proof -
  from clock_run_covers [OF assms(1,2)] assms(5) obtain M m where M: "clock_at md' M"
    and m: "revision_millis (event_revision e) = Inr m" "m \<le> M" by blast
  from next_revision_Inr [OF assms(4) M assms(3)] m have "revision_millis r = Inr (max now (M + 1))" "M < max now (M + 1)"
    by auto
  with revision_less [OF m(1), of r] m(2) show ?thesis by simp
qed

definition sample_metadata :: metadata where
  "sample_metadata = [device_id_key \<mapsto> ''dev-a'', last_revision_millis_key \<mapsto> ''0'']"

lemma sample_clock: "clock_at sample_metadata 0"
  by (simp add: clock_at_def last_millis_def sample_metadata_def metadata_get_def) code_simp

lemma sample_device: "metadata_get sample_metadata device_id_key = Some ''dev-a''" "validate_device_id ''dev-a'' = Inr ()"
  by (simp add: sample_metadata_def metadata_get_def) code_simp

theorem next_revision_is_newest_witness:
  "\<exists>md' r md''. clock_run sample_metadata [Observed ''00000000000000005000:zz''] md' \<and>
     next_revision 17 md' = Inr (r, md'') \<and> ''00000000000000005000:zz'' < r"
proof -
  let ?o = "''00000000000000005000:zz''"
  have m: "revision_millis ?o = Inr 5000" by code_simp
  have "\<exists>md'. observe_revision sample_metadata ?o = Inr md'"
    using sample_clock by (simp add: observe_revision_def m clock_at_def)
  then obtain md' where o: "observe_revision sample_metadata ?o = Inr md'" by blast
  then have run: "clock_run sample_metadata [Observed ?o] md'"
    using observe [OF idle, of sample_metadata ?o md'] by simp
  have md': "md' = metadata_set sample_metadata last_revision_millis_key (show_int 5000)"
    using o sample_clock by (simp add: observe_revision_def m clock_at_def)
  have at: "clock_at md' 5000" unfolding md' by (rule clock_at_set) (simp_all add: i64_max_def)
  have "metadata_get md' device_id_key = Some ''dev-a''" by (simp add: md' md.get_put sample_device)
  then obtain r md'' where n: "next_revision 17 md' = Inr (r, md'')"
    using at sample_device(2) by (auto simp: next_revision_def clock_at_def checked_add_i64_def i64_max_def i64_min_def Let_def)
  have "event_revision (Observed ?o) < r"
    by (rule next_revision_is_newest [OF run sample_clock _ n]) (simp_all add: i64_max_def)
  with run n show ?thesis by auto
qed

text \<open>Supporting result: A remote device cannot poison the clock: after a remote revision that passed
  validation has been observed, the local clock is at most one day ahead of the wall clock or where it
  was, and the next local revision can still be issued.\<close>

theorem validated_revision_keeps_clock_usable:
  assumes "clock_at md L" "L < i64_max" "0 \<le> now" "now + max_remote_clock_skew_millis < i64_max"
    and "metadata_get md device_id_key = Some d" "validate_device_id d = Inr ()"
    and "validate_remote_revision r now = Inr ()" "observe_revision md r = Inr md'"
  shows "\<exists>M s md''. clock_at md' M \<and> M \<le> max L (now + max_remote_clock_skew_millis) \<and>
    next_revision now md' = Inr (s, md'')"
proof -
  from assms(7,3,4) obtain m where m: "revision_millis r = Inr m" "m \<le> now + max_remote_clock_skew_millis"
    by (auto simp: validate_remote_revision_def rbind_Inr_iff checked_add_i64_def i64_min_def
        max_remote_clock_skew_millis_def Let_def split: if_splits)
  from observe_revision_Inr [OF assms(8,1)] m(1) have M: "clock_at md' (max L m)" by auto
  have dev: "metadata_get md' device_id_key = Some d"
    using assms(5,8) by (auto simp: observe_revision_def rbind_Inr_iff md.get_put split: if_splits)
  have "max L m + 1 \<le> i64_max" "i64_min \<le> max L m + 1" using m(2) assms(1-4) by (auto simp: clock_at_def i64_min_def)
  then have "\<exists>s md''. next_revision now md' = Inr (s, md'')"
    using M dev assms(6) by (auto simp: next_revision_def clock_at_def checked_add_i64_def Let_def)
  with M m(2) show ?thesis by (intro exI [of _ "max L m"]) auto
qed

theorem validated_revision_keeps_clock_usable_witness:
  "\<exists>md' M. observe_revision sample_metadata ''00000000000000005000:zz'' = Inr md' \<and> clock_at md' M \<and>
     M \<le> max 0 (17 + max_remote_clock_skew_millis)"
proof -
  let ?o = "''00000000000000005000:zz''"
  have m: "revision_millis ?o = Inr 5000" by code_simp
  have v: "validate_remote_revision ?o 17 = Inr ()"
    by (simp add: validate_remote_revision_def m checked_add_i64_def max_remote_clock_skew_millis_def
        i64_max_def i64_min_def)
  have "\<exists>md'. observe_revision sample_metadata ?o = Inr md'"
    using sample_clock by (simp add: observe_revision_def m clock_at_def)
  then obtain md' where o: "observe_revision sample_metadata ?o = Inr md'" by blast
  from validated_revision_keeps_clock_usable [OF sample_clock _ _ _ sample_device v o] o show ?thesis
    by (force simp: i64_max_def max_remote_clock_skew_millis_def)
qed

end
