(* ===== verification/Sync_Store.thy ===== *)
theory Sync_Store
  imports Sync_Clock "HOL-Library.Product_Lexorder" "HOL-Library.Multiset"
begin

text \<open>
  The sync storage, \<^verbatim>\<open>src-tauri/src/storage/sync.rs\<close>: the tables, local change
  capture into the outbox, export, acknowledgement, vault activation and pending uploads.

  A table is an association list from its primary key to a row, in insertion order; a \<open>SELECT\<close>
  without \<open>ORDER BY\<close> enumerates it in that order.  A transaction is a function from the database to an
  error or a new database, so an error is the rollback.  JSON columns are kept as the typed value whose
  serde encoding they hold.  \<open>sync_env\<close> collects what is outside the storage: the readings of
  the clock and the fresh UUIDs (numbered by \<open>db_draws\<close>), SHA-256, the serde codecs, and the plugin
  catalogue.
\<close>

section \<open>Payloads\<close>

datatype auth_type = Password | Key | KeyWithPassphrase

definition auth_type_to_string :: "auth_type \<Rightarrow> string" where
  "auth_type_to_string a =
     (case a of Password \<Rightarrow> ''password'' | Key \<Rightarrow> ''key'' | KeyWithPassphrase \<Rightarrow> ''key_with_passphrase'')"

definition string_to_auth_type :: "string \<Rightarrow> auth_type" where
  "string_to_auth_type value =
     (if value = ''key'' then Key
      else if value = ''key_with_passphrase'' then KeyWithPassphrase
      else Password)"

record server_sync_payload =
  sp_name :: string
  sp_host :: string
  sp_port :: "16 word"
  sp_username :: string
  sp_auth_type :: auth_type
  sp_group_id :: "string option"
  sp_tags :: "string list"
  sp_created_at :: int
  sp_updated_at :: int
  sp_jump_host_id :: "string option"
  sp_post_login_command :: "string option"
  sp_agent_forwarding :: bool

record group_sync_payload =
  gp_name :: string
  gp_parent_id :: "string option"
  gp_color :: string

record snippet_sync_payload =
  np_name :: string
  np_command :: string
  np_category :: string
  np_description :: string
  np_tags :: "string list"
  np_created_at :: int
  np_updated_at :: int

record plugin_installation_sync_payload =
  pp_plugin_id :: string
  pp_version :: string
  pp_source :: string
  pp_enabled :: bool
  pp_manifest_json :: "string option"
  pp_settings_json :: string
  pp_installed_at :: int
  pp_updated_at :: int

datatype sync_payload =
    ServerPayload server_sync_payload
  | GroupPayload group_sync_payload
  | SnippetPayload snippet_sync_payload
  | PluginPayload plugin_installation_sync_payload

definition kind_of :: "sync_payload \<Rightarrow> sync_entity_kind" where
  "kind_of p =
     (case p of ServerPayload _ \<Rightarrow> Server | GroupPayload _ \<Rightarrow> Group
      | SnippetPayload _ \<Rightarrow> CommandSnippet | PluginPayload _ \<Rightarrow> PluginInstallation)"

section \<open>Tables\<close>

record server_row =
  sr_name :: string
  sr_host :: string
  sr_port :: "16 word"
  sr_username :: string
  sr_auth_type :: string
  sr_credential_id :: "string option"
  sr_group_id :: "string option"
  sr_tags :: "string list"
  sr_created_at :: int
  sr_updated_at :: int
  sr_jump_host_id :: "string option"
  sr_post_login_command :: "string option"
  sr_agent_forwarding :: bool

record plugin_row =
  pr_version :: string
  pr_manifest_json :: string
  pr_source :: string
  pr_enabled :: bool
  pr_granted_permissions_json :: string
  pr_settings_json :: string
  pr_installed_at :: int
  pr_updated_at :: int

record entity_state =
  es_revision :: string
  es_content_hash :: string
  es_deleted :: bool

record outbox_row =
  ob_change_id :: string
  ob_schema_version :: nat
  ob_kind :: sync_entity_kind
  ob_entity_id :: string
  ob_revision :: string
  ob_deleted :: bool
  ob_payload :: "sync_payload option"
  ob_created_at :: int

record pending_sync_upload =
  pu_vault_id :: string
  pu_envelope_id :: string
  pu_ciphertext :: string
  pu_change_ids :: "string list"

type_synonym entity = "sync_entity_kind \<times> string"

record sync_db =
  db_metadata :: metadata
  db_states :: "(entity \<times> entity_state) list"
  db_outbox :: "outbox_row list"
  db_vaults :: "string \<rightharpoonup> string"
  db_uploads :: "string \<rightharpoonup> pending_sync_upload"
  db_servers :: "(string \<times> server_row) list"
  db_groups :: "(string \<times> group_sync_payload) list"
  db_snippets :: "(string \<times> snippet_sync_payload) list"
  db_plugins :: "(string \<times> plugin_row) list"
  db_credentials :: "(string \<times> string) list option"
  db_draws :: nat

record 'v sync_env =
  env_now :: "nat \<Rightarrow> int"
  env_uuid :: "nat \<Rightarrow> string"
  env_sha256_hex :: "string \<Rightarrow> string"
  env_to_vec :: "sync_payload \<Rightarrow> string"
  env_de_server :: "'v \<Rightarrow> server_sync_payload option"
  env_de_group :: "'v \<Rightarrow> group_sync_payload option"
  env_de_snippet :: "'v \<Rightarrow> snippet_sync_payload option"
  env_de_plugin :: "'v \<Rightarrow> plugin_installation_sync_payload option"
  env_manifest_permissions :: "string \<Rightarrow> string list option"
  env_builtin_catalog :: "(string \<times> string list) list option"
  env_encode_permissions :: "string list \<Rightarrow> string"

text \<open>A change as the provider sees it; \<open>'p\<close> is the type of the payload.\<close>

record 'p sync_change =
  sc_schema_version :: nat
  sc_change_id :: string
  sc_entity_kind :: sync_entity_kind
  sc_entity_id :: string
  sc_revision :: string
  sc_deleted :: bool
  sc_payload :: "'p option"

record pending_sync_batch =
  pb_device_id :: string
  pb_changes :: "sync_payload sync_change list"

definition sync_change_schema_version :: nat where "sync_change_schema_version = 1"

section \<open>Rows and states\<close>

definition server_payload_of_row :: "server_row \<Rightarrow> server_sync_payload" where
  "server_payload_of_row r =
     \<lparr>sp_name = sr_name r, sp_host = sr_host r, sp_port = sr_port r, sp_username = sr_username r,
      sp_auth_type = string_to_auth_type (sr_auth_type r), sp_group_id = sr_group_id r,
      sp_tags = sr_tags r, sp_created_at = sr_created_at r, sp_updated_at = sr_updated_at r,
      sp_jump_host_id = sr_jump_host_id r, sp_post_login_command = sr_post_login_command r,
      sp_agent_forwarding = sr_agent_forwarding r\<rparr>"

definition plugin_payload_of_row :: "string \<Rightarrow> plugin_row \<Rightarrow> plugin_installation_sync_payload" where
  "plugin_payload_of_row plugin_id r =
     \<lparr>pp_plugin_id = plugin_id, pp_version = pr_version r, pp_source = pr_source r,
      pp_enabled = pr_enabled r,
      pp_manifest_json = (if pr_source r = ''external'' then Some (pr_manifest_json r) else None),
      pp_settings_json = pr_settings_json r, pp_installed_at = pr_installed_at r,
      pp_updated_at = pr_updated_at r\<rparr>"

definition current_domain_payload :: "sync_db \<Rightarrow> sync_entity_kind \<Rightarrow> string \<Rightarrow> sync_payload option" where
  "current_domain_payload db kind i =
     (case kind of
        PluginInstallation \<Rightarrow>
          map_option (\<lambda>r. PluginPayload (plugin_payload_of_row i r)) (map_of (db_plugins db) i)
      | Server \<Rightarrow> map_option (\<lambda>r. ServerPayload (server_payload_of_row r)) (map_of (db_servers db) i)
      | Group \<Rightarrow> map_option GroupPayload (map_of (db_groups db) i)
      | CommandSnippet \<Rightarrow> map_option SnippetPayload (map_of (db_snippets db) i))"

definition entity_state_of :: "sync_db \<Rightarrow> sync_entity_kind \<Rightarrow> string \<Rightarrow> entity_state option" where
  "entity_state_of db kind i = map_of (db_states db) (kind, i)"

definition upsert_entity_state ::
    "sync_db \<Rightarrow> sync_entity_kind \<Rightarrow> string \<Rightarrow> string \<Rightarrow> bool \<Rightarrow> string \<Rightarrow> sync_db" where
  "upsert_entity_state db kind i revision deleted content_hash =
     db\<lparr>db_states := AList.update (kind, i)
          \<lparr>es_revision = revision, es_content_hash = content_hash, es_deleted = deleted\<rparr> (db_states db)\<rparr>"

definition has_pending_change :: "sync_db \<Rightarrow> sync_entity_kind \<Rightarrow> string \<Rightarrow> bool" where
  "has_pending_change db kind i \<longleftrightarrow> list_ex (\<lambda>o'. ob_kind o' = kind \<and> ob_entity_id o' = i) (db_outbox db)"

definition remove_outbox_through :: "sync_db \<Rightarrow> sync_entity_kind \<Rightarrow> string \<Rightarrow> string \<Rightarrow> sync_db" where
  "remove_outbox_through db kind i revision =
     db\<lparr>db_outbox := filter (\<lambda>o'. \<not> (ob_kind o' = kind \<and> ob_entity_id o' = i \<and> ob_revision o' \<le> revision))
          (db_outbox db)\<rparr>"

definition normalize_payload ::
    "(sync_entity_kind \<Rightarrow> 'p \<Rightarrow> sync_payload option) \<Rightarrow> sync_entity_kind \<Rightarrow> bool \<Rightarrow> 'p option \<Rightarrow>
     sync_error + sync_payload option" where
  "normalize_payload from_value kind deleted payload =
     (if deleted then (if payload \<noteq> None then Inl TombstoneWithPayload else Inr None)
      else rbind (ok_or payload MissingPayload) (\<lambda>p.
           rbind (ok_or (from_value kind p) (InvalidPayload kind)) (\<lambda>canonical. Inr (Some canonical))))"

text \<open>\<open>from_value\<close> on a value that was just produced by \<open>to_value\<close>.\<close>

definition typed_value :: "sync_entity_kind \<Rightarrow> sync_payload \<Rightarrow> sync_payload option" where
  "typed_value kind p = (if kind_of p = kind then Some p else None)"

definition canonical_content_hash ::
    "'v sync_env \<Rightarrow> sync_entity_kind \<Rightarrow> string \<Rightarrow> bool \<Rightarrow> sync_payload option \<Rightarrow> string" where
  "canonical_content_hash env kind i deleted payload =
     env_sha256_hex env
       (''vibeshell-sync-content-v1'' @ [CHR 0x00] @ as_str kind @ [CHR 0x00] @ i @ [CHR 0x00] @
        (if deleted then ''tombstone'' else ''upsert'') @ [CHR 0x00] @
        (case payload of Some p \<Rightarrow> env_to_vec env p | None \<Rightarrow> []))"

section \<open>Capturing local changes\<close>

definition insert_outbox :: "outbox_row \<Rightarrow> sync_db \<Rightarrow> sync_error + sync_db" where
  "insert_outbox row db =
     (if ob_change_id row \<in> set (map ob_change_id (db_outbox db)) then Inl PrimaryKeyViolation
      else if ob_deleted row \<longleftrightarrow> ob_payload row \<noteq> None then Inl CheckViolation
      else Inr (db\<lparr>db_outbox := db_outbox db @ [row]\<rparr>))"

definition record_local_change ::
    "'v sync_env \<Rightarrow> sync_entity_kind \<Rightarrow> string \<Rightarrow> bool \<Rightarrow> sync_payload option \<Rightarrow> sync_db \<Rightarrow>
     sync_error + string \<times> sync_db" where
  "record_local_change env kind i deleted payload db =
     (if i = [] then Inl EmptyEntityId
      else
        rbind (normalize_payload typed_value kind deleted payload) (\<lambda>payload.
        let content_hash = canonical_content_hash env kind i deleted payload; n = db_draws db in
        rbind (next_revision (env_now env n) (db_metadata db)) (\<lambda>(revision, md).
        let change_id = env_uuid env (n + 1);
            db1 = db\<lparr>db_metadata := md, db_draws := n + 3\<rparr>;
            db2 = upsert_entity_state db1 kind i revision deleted content_hash
        in
        rbind (insert_outbox
            \<lparr>ob_change_id = change_id, ob_schema_version = sync_change_schema_version, ob_kind = kind,
             ob_entity_id = i, ob_revision = revision, ob_deleted = deleted, ob_payload = payload,
             ob_created_at = env_now env (n + 2)\<rparr> db2) (\<lambda>db3.
        Inr (revision, db3)))))"

definition record_local_upsert ::
    "'v sync_env \<Rightarrow> sync_entity_kind \<Rightarrow> string \<Rightarrow> sync_payload \<Rightarrow> sync_db \<Rightarrow> sync_error + string \<times> sync_db" where
  "record_local_upsert env kind i payload db = record_local_change env kind i False (Some payload) db"

definition record_server_upsert ::
    "'v sync_env \<Rightarrow> string \<Rightarrow> server_sync_payload \<Rightarrow> sync_db \<Rightarrow> sync_error + sync_db" where
  "record_server_upsert env i p db = map_sum id snd (record_local_upsert env Server i (ServerPayload p) db)"

definition record_group_upsert ::
    "'v sync_env \<Rightarrow> string \<Rightarrow> group_sync_payload \<Rightarrow> sync_db \<Rightarrow> sync_error + sync_db" where
  "record_group_upsert env i p db = map_sum id snd (record_local_upsert env Group i (GroupPayload p) db)"

definition record_snippet_upsert ::
    "'v sync_env \<Rightarrow> string \<Rightarrow> snippet_sync_payload \<Rightarrow> sync_db \<Rightarrow> sync_error + sync_db" where
  "record_snippet_upsert env i p db =
     map_sum id snd (record_local_upsert env CommandSnippet i (SnippetPayload p) db)"

definition record_plugin_installation_upsert ::
    "'v sync_env \<Rightarrow> string \<Rightarrow> plugin_row \<Rightarrow> sync_db \<Rightarrow> sync_error + sync_db" where
  "record_plugin_installation_upsert env i r db =
     map_sum id snd (record_local_upsert env PluginInstallation i (PluginPayload (plugin_payload_of_row i r)) db)"

definition record_local_delete ::
    "'v sync_env \<Rightarrow> sync_entity_kind \<Rightarrow> string \<Rightarrow> sync_db \<Rightarrow> sync_error + sync_db" where
  "record_local_delete env kind i db = map_sum id snd (record_local_change env kind i True None db)"

definition record_current_upsert ::
    "'v sync_env \<Rightarrow> sync_entity_kind \<Rightarrow> string \<Rightarrow> sync_db \<Rightarrow> sync_error + sync_db" where
  "record_current_upsert env kind i db =
     rbind (ok_or (current_domain_payload db kind i) (MissingDomainRow kind i)) (\<lambda>payload.
       map_sum id snd (record_local_upsert env kind i payload db))"

definition detach_group_references ::
    "'v sync_env \<Rightarrow> string \<Rightarrow> bool \<Rightarrow> sync_db \<Rightarrow> sync_error + sync_db" where
  "detach_group_references env group_id record_changes db =
     (let child_group_ids = map fst (filter (\<lambda>(_, g). gp_parent_id g = Some group_id) (db_groups db));
          member_server_ids = map fst (filter (\<lambda>(_, s). sr_group_id s = Some group_id) (db_servers db));
          db1 = db\<lparr>db_groups := map (\<lambda>(i, g). (i, if gp_parent_id g = Some group_id then g\<lparr>gp_parent_id := None\<rparr> else g)) (db_groups db),
                  db_servers := map (\<lambda>(i, s). (i, if sr_group_id s = Some group_id then s\<lparr>sr_group_id := None\<rparr> else s)) (db_servers db)\<rparr>
      in if record_changes
         then rbind (foldm (\<lambda>d i. record_current_upsert env Group i d) db1 child_group_ids) (\<lambda>db2.
              foldm (\<lambda>d i. record_current_upsert env Server i d) db2 member_server_ids)
         else Inr db1)"

definition detach_server_references ::
    "'v sync_env \<Rightarrow> string \<Rightarrow> bool \<Rightarrow> sync_db \<Rightarrow> sync_error + sync_db" where
  "detach_server_references env server_id record_changes db =
     (let dependent_server_ids = map fst (filter (\<lambda>(_, s). sr_jump_host_id s = Some server_id) (db_servers db));
          db1 = db\<lparr>db_servers := map (\<lambda>(i, s). (i, if sr_jump_host_id s = Some server_id then s\<lparr>sr_jump_host_id := None\<rparr> else s)) (db_servers db)\<rparr>
      in if record_changes
         then foldm (\<lambda>d i. record_current_upsert env Server i d) db1 dependent_server_ids
         else Inr db1)"

section \<open>Initialisation\<close>

definition ensure_metadata :: "'v sync_env \<Rightarrow> sync_db \<Rightarrow> sync_db" where
  "ensure_metadata env db =
     (let db1 = (if metadata_get (db_metadata db) device_id_key = None
                 then db\<lparr>db_metadata := metadata_set (db_metadata db) device_id_key (env_uuid env (db_draws db)),
                         db_draws := db_draws db + 1\<rparr>
                 else db)
      in if metadata_get (db_metadata db1) last_revision_millis_key = None
         then db1\<lparr>db_metadata := metadata_set (db_metadata db1) last_revision_millis_key ''0''\<rparr>
         else db1)"

text \<open>An absent hash of an old database is the empty string here.\<close>

definition backfill_content_hash ::
    "'v sync_env \<Rightarrow> sync_db \<Rightarrow> entity \<times> entity_state \<Rightarrow> sync_error + sync_db" where
  "backfill_content_hash env db e =
     (case e of ((kind, i), st) \<Rightarrow>
       rbind (if es_deleted st then Inr None
              else rbind (ok_or (current_domain_payload db kind i) (MissingDomainRow kind i)) (\<lambda>p. Inr (Some p))) (\<lambda>payload.
       rbind (normalize_payload typed_value kind (es_deleted st) payload) (\<lambda>payload.
       Inr (db\<lparr>db_states := map (\<lambda>(k, s). (k, if k = (kind, i)
              then s\<lparr>es_content_hash := canonical_content_hash env kind i (es_deleted st) payload\<rparr> else s))
            (db_states db)\<rparr>))))"

definition backfill_content_hashes :: "'v sync_env \<Rightarrow> sync_db \<Rightarrow> sync_error + sync_db" where
  "backfill_content_hashes env db =
     foldm (backfill_content_hash env) db (filter (\<lambda>(_, st). es_content_hash st = []) (db_states db))"

definition bootstrap_untracked ::
    "'v sync_env \<Rightarrow> sync_entity_kind \<Rightarrow> sync_db \<Rightarrow> string \<times> sync_payload \<Rightarrow> sync_error + sync_db" where
  "bootstrap_untracked env kind db e =
     (case e of (i, payload) \<Rightarrow>
       if entity_state_of db kind i = None then map_sum id snd (record_local_upsert env kind i payload db)
       else Inr db)"

definition bootstrap_servers :: "'v sync_env \<Rightarrow> sync_db \<Rightarrow> sync_error + sync_db" where
  "bootstrap_servers env db =
     foldm (bootstrap_untracked env Server) db
       (map (\<lambda>(i, r). (i, ServerPayload (server_payload_of_row r))) (db_servers db))"

definition bootstrap_groups :: "'v sync_env \<Rightarrow> sync_db \<Rightarrow> sync_error + sync_db" where
  "bootstrap_groups env db =
     foldm (bootstrap_untracked env Group) db (map (\<lambda>(i, g). (i, GroupPayload g)) (db_groups db))"

definition bootstrap_snippets :: "'v sync_env \<Rightarrow> sync_db \<Rightarrow> sync_error + sync_db" where
  "bootstrap_snippets env db =
     foldm (bootstrap_untracked env CommandSnippet) db (map (\<lambda>(i, p). (i, SnippetPayload p)) (db_snippets db))"

definition bootstrap_plugin_installations :: "'v sync_env \<Rightarrow> sync_db \<Rightarrow> sync_error + sync_db" where
  "bootstrap_plugin_installations env db =
     foldm (\<lambda>d i. record_current_upsert env PluginInstallation i d) db (sort (map fst (db_plugins db)))"

definition bootstrap_existing_rows :: "'v sync_env \<Rightarrow> sync_db \<Rightarrow> sync_error + sync_db" where
  "bootstrap_existing_rows env db =
     rbind (bootstrap_servers env db) (\<lambda>db.
     rbind (bootstrap_groups env db) (\<lambda>db.
     rbind (bootstrap_snippets env db) (\<lambda>db.
     bootstrap_plugin_installations env db)))"

text \<open>\<open>initialize\<close> after the tables exist.\<close>

definition initialize :: "'v sync_env \<Rightarrow> sync_db \<Rightarrow> sync_error + sync_db" where
  "initialize env db =
     rbind (backfill_content_hashes env (ensure_metadata env db)) (\<lambda>db. bootstrap_existing_rows env db)"

section \<open>Export and acknowledgement\<close>

definition change_of_outbox :: "outbox_row \<Rightarrow> sync_payload sync_change" where
  "change_of_outbox o' =
     \<lparr>sc_schema_version = ob_schema_version o', sc_change_id = ob_change_id o', sc_entity_kind = ob_kind o',
      sc_entity_id = ob_entity_id o', sc_revision = ob_revision o', sc_deleted = ob_deleted o',
      sc_payload = ob_payload o'\<rparr>"

definition export_pending_changes :: "nat \<Rightarrow> sync_db \<Rightarrow> sync_error + pending_sync_batch" where
  "export_pending_changes limit db =
     rbind (ok_or (metadata_get (db_metadata db) device_id_key) DeviceIdMissing) (\<lambda>device_id.
       if limit = 0 then Inr \<lparr>pb_device_id = device_id, pb_changes = []\<rparr>
       else Inr \<lparr>pb_device_id = device_id,
                 pb_changes = map change_of_outbox
                   (take limit (sort_key (\<lambda>o'. (ob_revision o', ob_change_id o')) (db_outbox db)))\<rparr>)"

definition snapshot_change ::
    "'v sync_env \<Rightarrow> sync_db \<times> sync_payload sync_change list \<Rightarrow> entity \<times> entity_state \<Rightarrow>
     sync_error + sync_db \<times> sync_payload sync_change list" where
  "snapshot_change env acc e =
     (case acc of (db, changes) \<Rightarrow> case e of ((kind, i), st) \<Rightarrow>
       rbind (ok_or (current_domain_payload db kind i) (MissingDomainRow kind i)) (\<lambda>payload.
       Inr (db\<lparr>db_draws := db_draws db + 1\<rparr>,
            changes @ [\<lparr>sc_schema_version = sync_change_schema_version, sc_change_id = env_uuid env (db_draws db),
              sc_entity_kind = kind, sc_entity_id = i, sc_revision = es_revision st, sc_deleted = False,
              sc_payload = Some payload\<rparr>])))"

definition export_snapshot :: "'v sync_env \<Rightarrow> sync_db \<Rightarrow> sync_error + sync_db \<times> pending_sync_batch" where
  "export_snapshot env db =
     rbind (ok_or (metadata_get (db_metadata db) device_id_key) DeviceIdMissing) (\<lambda>device_id.
     rbind (foldm (snapshot_change env) (db, [])
        (sort_key fst (filter (\<lambda>(_, st). \<not> es_deleted st) (db_states db)))) (\<lambda>(db, changes).
     Inr (db, \<lparr>pb_device_id = device_id, pb_changes = changes\<rparr>)))"

text \<open>The \<open>DELETE ... WHERE change_id = ?1\<close> loop with its count of deleted rows.\<close>

fun delete_changes :: "string list \<Rightarrow> sync_db \<Rightarrow> nat \<times> sync_db" where
  "delete_changes [] db = (0, db)"
| "delete_changes (i # ids) db =
     (let gone = filter (\<lambda>o'. ob_change_id o' = i) (db_outbox db);
          (n, db') = delete_changes ids (db\<lparr>db_outbox := filter (\<lambda>o'. ob_change_id o' \<noteq> i) (db_outbox db)\<rparr>)
      in (length gone + n, db'))"

definition acknowledge_changes :: "string list \<Rightarrow> sync_db \<Rightarrow> nat \<times> sync_db" where
  "acknowledge_changes change_ids db = (if change_ids = [] then (0, db) else delete_changes change_ids db)"

definition pending_change_count :: "sync_db \<Rightarrow> nat" where
  "pending_change_count db = length (db_outbox db)"

section \<open>Vaults and uploads\<close>

definition active_vault_id :: "sync_db \<Rightarrow> string option" where
  "active_vault_id db = metadata_get (db_metadata db) active_vault_id_key"

definition current_remote_cursor :: "sync_db \<Rightarrow> string option" where
  "current_remote_cursor db = metadata_get (db_metadata db) remote_cursor_key"

definition vault_cursor_get :: "sync_db \<Rightarrow> string \<Rightarrow> string option" where
  "vault_cursor_get db vault_id = db_vaults db vault_id"

definition vault_cursor_set :: "sync_db \<Rightarrow> string \<Rightarrow> string \<Rightarrow> sync_db" where
  "vault_cursor_set db vault_id cursor = db\<lparr>db_vaults := (db_vaults db)(vault_id \<mapsto> cursor)\<rparr>"

definition current_remote_cursor_for_vault :: "sync_db \<Rightarrow> string \<Rightarrow> sync_error + string option" where
  "current_remote_cursor_for_vault db vault_id =
     rbind (validate_vault_id vault_id) (\<lambda>_. Inr (vault_cursor_get db vault_id))"

definition rerecord :: "'v sync_env \<Rightarrow> sync_db \<Rightarrow> entity \<times> entity_state \<Rightarrow> sync_error + sync_db" where
  "rerecord env db e =
     (case e of ((kind, i), st) \<Rightarrow>
       if es_deleted st then record_local_delete env kind i db else record_current_upsert env kind i db)"

definition rebuild_full_outbox :: "'v sync_env \<Rightarrow> sync_db \<Rightarrow> sync_error + sync_db" where
  "rebuild_full_outbox env db =
     rbind (bootstrap_existing_rows env db) (\<lambda>db.
       foldm (rerecord env) (db\<lparr>db_outbox := []\<rparr>) (sort_key fst (db_states db)))"

definition activate_vault :: "'v sync_env \<Rightarrow> string \<Rightarrow> sync_db \<Rightarrow> sync_error + bool \<times> sync_db" where
  "activate_vault env vault_id db =
     rbind (validate_vault_id vault_id) (\<lambda>_.
       if metadata_get (db_metadata db) active_vault_id_key = Some vault_id then Inr (False, db)
       else rbind (rebuild_full_outbox env db) (\<lambda>db.
         Inr (True, db\<lparr>db_metadata := metadata_set (db_metadata db) active_vault_id_key vault_id\<rparr>)))"

fun insert_unique_ids :: "string list \<Rightarrow> string list \<Rightarrow> sync_error + unit" where
  "insert_unique_ids seen [] = Inr ()"
| "insert_unique_ids seen (i # ids) =
     rbind (validate_opaque_sync_id ''sync change ID'' i) (\<lambda>_.
       if i \<in> set seen then Inl DuplicateChangeIds else insert_unique_ids (i # seen) ids)"

definition validate_pending_upload :: "pending_sync_upload \<Rightarrow> sync_error + unit" where
  "validate_pending_upload u =
     rbind (validate_vault_id (pu_vault_id u)) (\<lambda>_.
     rbind (validate_opaque_sync_id ''sync envelope ID'' (pu_envelope_id u)) (\<lambda>_.
       if pu_ciphertext u = [] then Inl EmptyCiphertext
       else if pu_change_ids u = [] then Inl NoChangeIds
       else insert_unique_ids [] (pu_change_ids u)))"

definition pending_upload_get :: "sync_db \<Rightarrow> string \<Rightarrow> pending_sync_upload option" where
  "pending_upload_get db vault_id = db_uploads db vault_id"

definition load_pending_upload :: "string \<Rightarrow> sync_db \<Rightarrow> sync_error + pending_sync_upload option" where
  "load_pending_upload vault_id db =
     rbind (validate_vault_id vault_id) (\<lambda>_. Inr (pending_upload_get db vault_id))"

definition save_pending_upload :: "pending_sync_upload \<Rightarrow> sync_db \<Rightarrow> sync_error + sync_db" where
  "save_pending_upload u db =
     rbind (validate_pending_upload u) (\<lambda>_.
       case pending_upload_get db (pu_vault_id u) of
         Some existing \<Rightarrow> if existing = u then Inr db else Inl (DifferentPendingUpload (pu_vault_id u))
       | None \<Rightarrow> Inr (db\<lparr>db_uploads := (db_uploads db)(pu_vault_id u \<mapsto> u)\<rparr>))"

definition acknowledge_pending_upload :: "string \<Rightarrow> string \<Rightarrow> sync_db \<Rightarrow> sync_error + nat \<times> sync_db" where
  "acknowledge_pending_upload vault_id envelope_id db =
     rbind (validate_vault_id vault_id) (\<lambda>_.
     rbind (validate_opaque_sync_id ''sync envelope ID'' envelope_id) (\<lambda>_.
       case pending_upload_get db vault_id of
         None \<Rightarrow> Inr (0, db)
       | Some upload \<Rightarrow>
           if pu_envelope_id upload \<noteq> envelope_id then Inl EnvelopeMismatch
           else (let (n, db') = delete_changes (pu_change_ids upload) db
                 in Inr (n, db'\<lparr>db_uploads := (db_uploads db')(vault_id := None)\<rparr>))))"

end
