(* ===== verification/Sync_Apply.thy ===== *)
theory Sync_Apply
  imports Sync_Store
begin

text \<open>
  Applying remote changes, \<^verbatim>\<open>src-tauri/src/storage/sync.rs\<close>: validation and
  ordering of a batch, last-writer-wins against the tracked state, resolution of name collisions, the
  changes to the domain tables, and the cursors.
\<close>

section \<open>Data\<close>

datatype conflict_resolution = LocalKept | RemoteApplied

record sync_conflict =
  cf_entity_kind :: sync_entity_kind
  cf_entity_id :: string
  cf_local_revision :: string
  cf_remote_revision :: string
  cf_resolution :: conflict_resolution

record remote_apply_report =
  rr_applied :: nat
  rr_ignored :: nat
  rr_conflicts :: "sync_conflict list"

record prepared_change =
  pc_change :: "sync_payload sync_change"
  pc_content_hash :: string

datatype name_collision_decision =
    NoCollision
  | IncomingWins string entity_state
  | ExistingWins string entity_state

section \<open>Preparing a batch\<close>

definition decode_value :: "'v sync_env \<Rightarrow> sync_entity_kind \<Rightarrow> 'v \<Rightarrow> sync_payload option" where
  "decode_value env kind v =
     (case kind of
        Server \<Rightarrow> map_option ServerPayload (env_de_server env v)
      | Group \<Rightarrow> map_option GroupPayload (env_de_group env v)
      | CommandSnippet \<Rightarrow> map_option SnippetPayload (env_de_snippet env v)
      | PluginInstallation \<Rightarrow> map_option PluginPayload (env_de_plugin env v))"

definition prepare_change :: "'v sync_env \<Rightarrow> int \<Rightarrow> 'v sync_change \<Rightarrow> sync_error + prepared_change" where
  "prepare_change env now_millis c =
     (if sc_schema_version c \<noteq> sync_change_schema_version then Inl (UnsupportedSchema (sc_schema_version c))
      else if sc_change_id c = [] \<or> sc_entity_id c = [] then Inl EmptyChangeIds
      else
        rbind (validate_remote_revision (sc_revision c) now_millis) (\<lambda>_.
        rbind (normalize_payload (decode_value env) (sc_entity_kind c) (sc_deleted c) (sc_payload c)) (\<lambda>payload.
        Inr \<lparr>pc_change =
               \<lparr>sc_schema_version = sc_schema_version c, sc_change_id = sc_change_id c,
                sc_entity_kind = sc_entity_kind c, sc_entity_id = sc_entity_id c,
                sc_revision = sc_revision c, sc_deleted = sc_deleted c, sc_payload = payload\<rparr>,
             pc_content_hash =
               canonical_content_hash env (sc_entity_kind c) (sc_entity_id c) (sc_deleted c) payload\<rparr>)))"

definition batch_key :: "prepared_change \<Rightarrow> string \<times> string" where
  "batch_key p = (sc_revision (pc_change p), sc_change_id (pc_change p))"

definition prepare_remote_batch :: "'v sync_env \<Rightarrow> int \<Rightarrow> 'v sync_change list \<Rightarrow> sync_error + prepared_change list" where
  "prepare_remote_batch env now changes =
     rbind (traverse (prepare_change env now) changes) (\<lambda>prepared. Inr (sort_key batch_key prepared))"

section \<open>Names\<close>

definition payload_name :: "sync_payload \<Rightarrow> string option" where
  "payload_name p =
     (case p of
        ServerPayload s \<Rightarrow> Some (sp_name s)
      | GroupPayload g \<Rightarrow> Some (gp_name g)
      | SnippetPayload s \<Rightarrow> Some (np_name s)
      | PluginPayload _ \<Rightarrow> None)"

text \<open>Inserting the field \<open>name\<close> into the JSON object of a payload that has one.\<close>

definition set_payload_name :: "string \<Rightarrow> sync_payload \<Rightarrow> sync_payload" where
  "set_payload_name n p =
     (case p of
        ServerPayload s \<Rightarrow> ServerPayload (s\<lparr>sp_name := n\<rparr>)
      | GroupPayload g \<Rightarrow> GroupPayload (g\<lparr>gp_name := n\<rparr>)
      | SnippetPayload s \<Rightarrow> SnippetPayload (s\<lparr>np_name := n\<rparr>)
      | PluginPayload q \<Rightarrow> PluginPayload q)"

text \<open>\<open>SELECT id FROM <table> WHERE name = ?1 AND id <> ?2\<close>, the first row.\<close>

definition name_contender :: "sync_db \<Rightarrow> sync_entity_kind \<Rightarrow> string \<Rightarrow> string \<Rightarrow> string option" where
  "name_contender db kind name i =
     (case kind of
        Server \<Rightarrow> map_option fst (List.find (\<lambda>(j, r). sr_name r = name \<and> j \<noteq> i) (db_servers db))
      | Group \<Rightarrow> map_option fst (List.find (\<lambda>(j, g). gp_name g = name \<and> j \<noteq> i) (db_groups db))
      | _ \<Rightarrow> None)"

definition resolve_name_collision :: "sync_db \<Rightarrow> prepared_change \<Rightarrow> sync_error + name_collision_decision" where
  "resolve_name_collision db prepared =
     (let c = pc_change prepared; kind = sc_entity_kind c in
      if sc_deleted c \<or> kind = CommandSnippet \<or> kind = PluginInstallation then Inr NoCollision
      else
        rbind (ok_or (Option.bind (sc_payload c) payload_name) MissingCanonicalName) (\<lambda>name.
        case name_contender db kind name (sc_entity_id c) of
          None \<Rightarrow> Inr NoCollision
        | Some contender_id \<Rightarrow>
            rbind (ok_or (entity_state_of db kind contender_id) (ContenderWithoutState kind contender_id)) (\<lambda>st.
            if es_deleted st then Inl TombstonedNameOwner
            else
              (let incoming_wins =
                 (if es_revision st < sc_revision c then True
                  else if sc_revision c < es_revision st then False
                  else sc_entity_id c < contender_id)
               in Inr (if incoming_wins then IncomingWins contender_id st else ExistingWins contender_id st)))))"

definition deterministic_conflict_name :: "string \<Rightarrow> string \<Rightarrow> string" where
  "deterministic_conflict_name original_name i = original_name @ '' (conflict '' @ i @ '')''"

definition conflict_named_payload :: "sync_entity_kind \<Rightarrow> string \<Rightarrow> sync_payload \<Rightarrow> sync_error + sync_payload" where
  "conflict_named_payload kind i payload =
     (if kind = CommandSnippet then Inl SnippetConflict
      else rbind (ok_or (payload_name payload) MissingCanonicalName) (\<lambda>original_name.
           Inr (set_payload_name (deterministic_conflict_name original_name i) payload)))"

definition conflict_named_change :: "'v sync_env \<Rightarrow> prepared_change \<Rightarrow> sync_error + prepared_change" where
  "conflict_named_change env prepared =
     (let c = pc_change prepared in
      rbind (ok_or (sc_payload c) MissingPayload) (\<lambda>payload.
      rbind (conflict_named_payload (sc_entity_kind c) (sc_entity_id c) payload) (\<lambda>payload.
      Inr \<lparr>pc_change = c\<lparr>sc_payload := Some payload\<rparr>,
           pc_content_hash =
             canonical_content_hash env (sc_entity_kind c) (sc_entity_id c) False (Some payload)\<rparr>)))"

section \<open>Domain tables\<close>

definition reference_is_tombstoned :: "sync_db \<Rightarrow> sync_entity_kind \<Rightarrow> string option \<Rightarrow> bool" where
  "reference_is_tombstoned db kind r =
     (case r of
        None \<Rightarrow> False
      | Some i \<Rightarrow> (case entity_state_of db kind i of Some st \<Rightarrow> es_deleted st | None \<Rightarrow> False))"

text \<open>A reference to a deleted entity is dropped.\<close>

definition live_reference :: "sync_db \<Rightarrow> sync_entity_kind \<Rightarrow> string option \<Rightarrow> string option" where
  "live_reference db kind r = (if reference_is_tombstoned db kind r then None else r)"

definition remote_server_row :: "sync_db \<Rightarrow> string \<Rightarrow> server_sync_payload \<Rightarrow> server_row" where
  "remote_server_row db i server =
     \<lparr>sr_name = sp_name server, sr_host = sp_host server, sr_port = sp_port server,
      sr_username = sp_username server, sr_auth_type = auth_type_to_string (sp_auth_type server),
      sr_credential_id = Option.bind (map_of (db_servers db) i) sr_credential_id,
      sr_group_id = live_reference db Group (sp_group_id server), sr_tags = sp_tags server,
      sr_created_at = sp_created_at server, sr_updated_at = sp_updated_at server,
      sr_jump_host_id = live_reference db Server (sp_jump_host_id server),
      sr_post_login_command = sp_post_login_command server,
      sr_agent_forwarding = sp_agent_forwarding server\<rparr>"

definition apply_remote_server :: "sync_db \<Rightarrow> string \<Rightarrow> server_sync_payload \<Rightarrow> sync_error + sync_db" where
  "apply_remote_server db i server =
     (if list_ex (\<lambda>(j, r). j \<noteq> i \<and> sr_name r = sp_name server) (db_servers db) then Inl UniqueNameViolation
      else Inr (db\<lparr>db_servers := AList.update i (remote_server_row db i server) (db_servers db)\<rparr>))"

definition remote_group_row :: "sync_db \<Rightarrow> group_sync_payload \<Rightarrow> group_sync_payload" where
  "remote_group_row db g = g\<lparr>gp_parent_id := live_reference db Group (gp_parent_id g)\<rparr>"

definition apply_remote_group :: "sync_db \<Rightarrow> string \<Rightarrow> group_sync_payload \<Rightarrow> sync_error + sync_db" where
  "apply_remote_group db i g =
     (if list_ex (\<lambda>(j, r). j \<noteq> i \<and> gp_name r = gp_name g) (db_groups db) then Inl UniqueNameViolation
      else Inr (db\<lparr>db_groups := AList.update i (remote_group_row db g) (db_groups db)\<rparr>))"

definition apply_remote_snippet :: "sync_db \<Rightarrow> string \<Rightarrow> snippet_sync_payload \<Rightarrow> sync_db" where
  "apply_remote_snippet db i s = db\<lparr>db_snippets := AList.update i s (db_snippets db)\<rparr>"

definition synced_grant_permissions ::
    "'v sync_env \<Rightarrow> plugin_installation_sync_payload \<Rightarrow> sync_error + string" where
  "synced_grant_permissions env p =
     (if \<not> pp_enabled p then Inr ''[]''
      else
        rbind (if pp_source p = ''external''
               then rbind (ok_or (pp_manifest_json p) ExternalManifestMissing) (\<lambda>manifest.
                    ok_or (env_manifest_permissions env manifest) InvalidExternalManifest)
               else rbind (ok_or (env_builtin_catalog env) InvalidBuiltinCatalog) (\<lambda>catalog.
                    rbind (ok_or (List.find (\<lambda>(i, _). i = pp_plugin_id p) catalog) (UnknownBuiltinPlugin (pp_plugin_id p)))
                      (\<lambda>(_, permissions). Inr permissions)))
          (\<lambda>permissions. Inr (env_encode_permissions env permissions)))"

definition apply_remote_plugin_installation ::
    "'v sync_env \<Rightarrow> sync_db \<Rightarrow> string \<Rightarrow> plugin_installation_sync_payload \<Rightarrow> sync_db" where
  "apply_remote_plugin_installation env db i p =
     (let granted = (case synced_grant_permissions env p of Inr grants \<Rightarrow> grants | Inl _ \<Rightarrow> ''[]'');
          enabled = (if granted = ''[]'' then False else pp_enabled p);
          manifest = (case pp_manifest_json p of Some m \<Rightarrow> m | None \<Rightarrow> ''{}'');
          row = \<lparr>pr_version = pp_version p, pr_manifest_json = manifest, pr_source = pp_source p,
                 pr_enabled = enabled, pr_granted_permissions_json = granted,
                 pr_settings_json = pp_settings_json p,
                 pr_installed_at = (case map_of (db_plugins db) i of
                     Some old \<Rightarrow> pr_installed_at old | None \<Rightarrow> pp_installed_at p),
                 pr_updated_at = pp_updated_at p\<rparr>
      in db\<lparr>db_plugins := AList.update i row (db_plugins db)\<rparr>)"

definition delete_domain_entity :: "'v sync_env \<Rightarrow> sync_entity_kind \<Rightarrow> string \<Rightarrow> sync_db \<Rightarrow> sync_error + sync_db" where
  "delete_domain_entity env kind i db =
     (case kind of
        Server \<Rightarrow> rbind (detach_server_references env i False db) (\<lambda>db.
          Inr (db\<lparr>db_servers := AList.delete i (db_servers db)\<rparr>))
      | Group \<Rightarrow> rbind (detach_group_references env i False db) (\<lambda>db.
          Inr (db\<lparr>db_groups := AList.delete i (db_groups db)\<rparr>))
      | CommandSnippet \<Rightarrow> Inr (db\<lparr>db_snippets := AList.delete i (db_snippets db)\<rparr>)
      | PluginInstallation \<Rightarrow> Inr (db\<lparr>db_plugins := AList.delete i (db_plugins db)\<rparr>))"

definition apply_remote_change ::
    "'v sync_env \<Rightarrow> sync_payload sync_change \<Rightarrow> sync_db \<Rightarrow> sync_error + sync_db" where
  "apply_remote_change env c db =
     (if sc_deleted c then delete_domain_entity env (sc_entity_kind c) (sc_entity_id c) db
      else
        rbind (ok_or (sc_payload c) MissingPayload) (\<lambda>payload.
        case (sc_entity_kind c, payload) of
          (Server, ServerPayload s) \<Rightarrow> apply_remote_server db (sc_entity_id c) s
        | (Group, GroupPayload g) \<Rightarrow> apply_remote_group db (sc_entity_id c) g
        | (CommandSnippet, SnippetPayload s) \<Rightarrow> Inr (apply_remote_snippet db (sc_entity_id c) s)
        | (PluginInstallation, PluginPayload p) \<Rightarrow>
            Inr (apply_remote_plugin_installation env db (sc_entity_id c) p)
        | (kind, _) \<Rightarrow> Inl (InvalidPayload kind)))"

section \<open>Losers of a name collision\<close>

definition move_server_credential_key :: "string \<Rightarrow> string \<Rightarrow> sync_db \<Rightarrow> sync_error + sync_db" where
  "move_server_credential_key original_name conflict_name db =
     (case db_credentials db of
        None \<Rightarrow> Inr db
      | Some creds \<Rightarrow>
          (case map_of creds original_name of
             None \<Rightarrow> Inr db
           | Some _ \<Rightarrow>
               if original_name \<noteq> conflict_name \<and> map_of creds conflict_name \<noteq> None then Inl UniqueNameViolation
               else Inr (db\<lparr>db_credentials :=
                 Some (map (\<lambda>(n, c). (if n = original_name then conflict_name else n, c)) creds)\<rparr>)))"

definition move_existing_server_credential_for_conflict ::
    "sync_payload sync_change \<Rightarrow> sync_db \<Rightarrow> sync_error + sync_db" where
  "move_existing_server_credential_for_conflict c db =
     (if sc_entity_kind c \<noteq> Server then Inr db
      else
        rbind (ok_or (Option.bind (sc_payload c) payload_name) MissingCanonicalName) (\<lambda>conflict_name.
        case map_of (db_servers db) (sc_entity_id c) of
          Some row \<Rightarrow> if sr_name row \<noteq> conflict_name
                      then move_server_credential_key (sr_name row) conflict_name db else Inr db
        | None \<Rightarrow> Inr db))"

definition rewrite_pending_conflict_names ::
    "sync_entity_kind \<Rightarrow> string \<Rightarrow> string \<Rightarrow> string \<Rightarrow> sync_db \<Rightarrow> sync_db" where
  "rewrite_pending_conflict_names kind i original_name conflict_name db =
     db\<lparr>db_outbox := map (\<lambda>o'.
          if ob_kind o' = kind \<and> ob_entity_id o' = i \<and> \<not> ob_deleted o' \<and>
             Option.bind (ob_payload o') payload_name = Some original_name
          then o'\<lparr>ob_payload := map_option (set_payload_name conflict_name) (ob_payload o')\<rparr> else o')
        (db_outbox db)\<rparr>"

definition conflict_materialization ::
    "sync_entity_kind \<Rightarrow> string \<Rightarrow> string \<Rightarrow> sync_payload \<Rightarrow> sync_payload sync_change" where
  "conflict_materialization kind i revision payload =
     \<lparr>sc_schema_version = sync_change_schema_version, sc_change_id = ''conflict-materialization:'' @ i,
      sc_entity_kind = kind, sc_entity_id = i, sc_revision = revision, sc_deleted = False,
      sc_payload = Some payload\<rparr>"

definition materialize_existing_conflict_name ::
    "'v sync_env \<Rightarrow> sync_entity_kind \<Rightarrow> string \<Rightarrow> entity_state \<Rightarrow> sync_db \<Rightarrow> sync_error + sync_db" where
  "materialize_existing_conflict_name env kind i st db =
     rbind (ok_or (current_domain_payload db kind i) (MissingDomainRow kind i)) (\<lambda>payload.
     rbind (ok_or (payload_name payload) MissingCanonicalName) (\<lambda>original_name.
     rbind (conflict_named_payload kind i payload) (\<lambda>conflict_payload.
     rbind (ok_or (payload_name conflict_payload) MissingCanonicalName) (\<lambda>conflict_name.
     rbind (apply_remote_change env (conflict_materialization kind i (es_revision st) conflict_payload) db) (\<lambda>db.
     rbind (if kind = Server then move_server_credential_key original_name conflict_name db else Inr db) (\<lambda>db.
     let db = rewrite_pending_conflict_names kind i original_name conflict_name db in
     Inr (upsert_entity_state db kind i (es_revision st) False
       (canonical_content_hash env kind i False (Some conflict_payload)))))))))"

section \<open>One change\<close>

definition pending_conflict ::
    "bool \<Rightarrow> sync_payload sync_change \<Rightarrow> string \<Rightarrow> string \<Rightarrow> conflict_resolution \<Rightarrow> remote_apply_report \<Rightarrow> remote_apply_report" where
  "pending_conflict pending c local remote resolution report =
     (if pending
      then report\<lparr>rr_conflicts := rr_conflicts report @
        [\<lparr>cf_entity_kind = sc_entity_kind c, cf_entity_id = sc_entity_id c, cf_local_revision = local,
          cf_remote_revision = remote, cf_resolution = resolution\<rparr>]\<rparr>
      else report)"

definition settle_collision ::
    "'v sync_env \<Rightarrow> name_collision_decision \<Rightarrow> sync_payload sync_change \<Rightarrow> entity_state option \<Rightarrow> bool \<Rightarrow>
     sync_db \<times> remote_apply_report \<Rightarrow> sync_error + sync_db \<times> remote_apply_report" where
  "settle_collision env decision c current pending acc =
     (let (db, report) = acc;
          local = (case current of Some st \<Rightarrow> es_revision st | None \<Rightarrow> []);
          rev = sc_revision c
      in case decision of
           NoCollision \<Rightarrow> Inr (db, pending_conflict pending c local rev RemoteApplied report)
         | IncomingWins loser_id loser_state \<Rightarrow>
             (let report = pending_conflict True (c\<lparr>sc_entity_id := loser_id\<rparr>) (es_revision loser_state) rev RemoteApplied report;
                  report = pending_conflict pending c local rev RemoteApplied report
              in rbind (materialize_existing_conflict_name env (sc_entity_kind c) loser_id loser_state db)
                   (\<lambda>db. Inr (db, report)))
         | ExistingWins winner_id winner_state \<Rightarrow>
             rbind (move_existing_server_credential_for_conflict c db) (\<lambda>db.
             let report = pending_conflict True (c\<lparr>sc_entity_id := winner_id\<rparr>) (es_revision winner_state) rev LocalKept report;
                 report = pending_conflict pending c local (es_revision winner_state) RemoteApplied report
             in Inr (db, report)))"

definition apply_prepared_change ::
    "'v sync_env \<Rightarrow> sync_db \<times> remote_apply_report \<Rightarrow> prepared_change \<Rightarrow>
     sync_error + sync_db \<times> remote_apply_report" where
  "apply_prepared_change env acc prepared =
     (let (db, report) = acc in
      rbind (resolve_name_collision db prepared) (\<lambda>decision.
      rbind (case decision of ExistingWins _ _ \<Rightarrow> conflict_named_change env prepared | _ \<Rightarrow> Inr prepared) (\<lambda>effective.
      let c = pc_change effective; kind = sc_entity_kind c; i = sc_entity_id c; rev = sc_revision c in
      rbind (observe_revision (db_metadata db) rev) (\<lambda>md.
      let db = db\<lparr>db_metadata := md\<rparr>;
          current = entity_state_of db kind i;
          pending = has_pending_change db kind i;
          local = (case current of Some st \<Rightarrow> es_revision st | None \<Rightarrow> [])
      in
      if current \<noteq> None \<and> rev < local
      then Inr (db, pending_conflict pending c local rev LocalKept (report\<lparr>rr_ignored := rr_ignored report + 1\<rparr>))
      else if current \<noteq> None \<and> rev = local
      then (if map_option es_content_hash current \<noteq> Some (pc_content_hash effective)
            then Inl (EqualRevisionDiffers kind i)
            else Inr (db, report\<lparr>rr_ignored := rr_ignored report + 1\<rparr>))
      else
        rbind (settle_collision env decision c current pending (db, report)) (\<lambda>(db, report).
        rbind (apply_remote_change env c db) (\<lambda>db.
        let db = upsert_entity_state db kind i rev (sc_deleted c) (pc_content_hash effective);
            db = remove_outbox_through db kind i rev
        in Inr (db, report\<lparr>rr_applied := rr_applied report + 1\<rparr>)))))))"

section \<open>Batches\<close>

definition empty_report :: remote_apply_report where
  "empty_report = \<lparr>rr_applied = 0, rr_ignored = 0, rr_conflicts = []\<rparr>"

definition apply_prepared_batch ::
    "'v sync_env \<Rightarrow> sync_db \<Rightarrow> prepared_change list \<Rightarrow> sync_error + sync_db \<times> remote_apply_report" where
  "apply_prepared_batch env db ordered = foldm (apply_prepared_change env) (db, empty_report) ordered"

definition apply_imported_changes ::
    "'v sync_env \<Rightarrow> 'v sync_change list \<Rightarrow> sync_db \<Rightarrow> sync_error + sync_db \<times> remote_apply_report" where
  "apply_imported_changes env changes db =
     rbind (prepare_remote_batch env (env_now env (db_draws db)) changes) (\<lambda>ordered.
       apply_prepared_batch env (db\<lparr>db_draws := db_draws db + 1\<rparr>) ordered)"

definition apply_remote_batch ::
    "'v sync_env \<Rightarrow> string \<Rightarrow> 'v sync_change list \<Rightarrow> sync_db \<Rightarrow> sync_error + sync_db \<times> remote_apply_report" where
  "apply_remote_batch env cursor changes db =
     rbind (apply_imported_changes env changes db) (\<lambda>(db, report).
       Inr (db\<lparr>db_metadata := metadata_set (db_metadata db) remote_cursor_key cursor\<rparr>, report))"

definition apply_remote_batch_for_vault ::
    "'v sync_env \<Rightarrow> string \<Rightarrow> string \<Rightarrow> 'v sync_change list \<Rightarrow> sync_db \<Rightarrow>
     sync_error + sync_db \<times> remote_apply_report" where
  "apply_remote_batch_for_vault env vault_id cursor changes db =
     rbind (validate_vault_id vault_id) (\<lambda>_.
     rbind (apply_imported_changes env changes db) (\<lambda>(db, report).
       Inr (vault_cursor_set db vault_id cursor, report)))"

section \<open>What each step leaves alone\<close>

named_theorems sync_frame \<open>fields that a sync operation does not change\<close>

lemma upsert_entity_state_frame [sync_frame, simp]:
  "db_metadata (upsert_entity_state db k i r d h) = db_metadata db"
  "db_outbox (upsert_entity_state db k i r d h) = db_outbox db"
  "db_servers (upsert_entity_state db k i r d h) = db_servers db"
  "db_groups (upsert_entity_state db k i r d h) = db_groups db"
  "db_snippets (upsert_entity_state db k i r d h) = db_snippets db"
  "db_plugins (upsert_entity_state db k i r d h) = db_plugins db"
  "db_credentials (upsert_entity_state db k i r d h) = db_credentials db"
  "db_vaults (upsert_entity_state db k i r d h) = db_vaults db"
  "db_uploads (upsert_entity_state db k i r d h) = db_uploads db"
  "db_draws (upsert_entity_state db k i r d h) = db_draws db"
  "map_of (db_states (upsert_entity_state db k i r d h)) =
     (map_of (db_states db))((k, i) \<mapsto> \<lparr>es_revision = r, es_content_hash = h, es_deleted = d\<rparr>)"
  by (simp_all add: upsert_entity_state_def update_conv')

lemma remove_outbox_through_frame [sync_frame, simp]:
  "db_metadata (remove_outbox_through db k i r) = db_metadata db"
  "db_states (remove_outbox_through db k i r) = db_states db"
  "db_servers (remove_outbox_through db k i r) = db_servers db"
  "db_groups (remove_outbox_through db k i r) = db_groups db"
  "db_snippets (remove_outbox_through db k i r) = db_snippets db"
  "db_plugins (remove_outbox_through db k i r) = db_plugins db"
  "db_credentials (remove_outbox_through db k i r) = db_credentials db"
  "db_vaults (remove_outbox_through db k i r) = db_vaults db"
  "db_uploads (remove_outbox_through db k i r) = db_uploads db"
  by (simp_all add: remove_outbox_through_def)

lemma rewrite_pending_frame [sync_frame, simp]:
  "db_metadata (rewrite_pending_conflict_names k i a b db) = db_metadata db"
  "db_states (rewrite_pending_conflict_names k i a b db) = db_states db"
  "db_servers (rewrite_pending_conflict_names k i a b db) = db_servers db"
  "db_groups (rewrite_pending_conflict_names k i a b db) = db_groups db"
  "db_snippets (rewrite_pending_conflict_names k i a b db) = db_snippets db"
  "db_plugins (rewrite_pending_conflict_names k i a b db) = db_plugins db"
  "db_credentials (rewrite_pending_conflict_names k i a b db) = db_credentials db"
  "db_vaults (rewrite_pending_conflict_names k i a b db) = db_vaults db"
  "db_uploads (rewrite_pending_conflict_names k i a b db) = db_uploads db"
  by (simp_all add: rewrite_pending_conflict_names_def)

lemma move_credential_frame:
  "move_server_credential_key a b db = Inr db' \<Longrightarrow> db' = db\<lparr>db_credentials := db_credentials db'\<rparr>"
  by (auto simp: move_server_credential_key_def split: option.splits if_splits)

lemma move_existing_frame:
  assumes "move_existing_server_credential_for_conflict c db = Inr db'"
  shows "db' = db\<lparr>db_credentials := db_credentials db'\<rparr>"
proof (cases "sc_entity_kind c = Server")
  case True
  with assms obtain n where n: "(case map_of (db_servers db) (sc_entity_id c) of
      Some row \<Rightarrow> if sr_name row \<noteq> n then move_server_credential_key (sr_name row) n db else Inr db
    | None \<Rightarrow> Inr db) = Inr db'"
    unfolding move_existing_server_credential_for_conflict_def by (auto elim!: rbind_InrE)
  show ?thesis
  proof (cases "map_of (db_servers db) (sc_entity_id c)")
    case None
    with n show ?thesis by simp
  next
    case (Some row)
    with n move_credential_frame [of "sr_name row" n db db'] show ?thesis
      by (cases "sr_name row \<noteq> n") simp_all
  qed
qed (use assms in \<open>simp add: move_existing_server_credential_for_conflict_def\<close>)

text \<open>What a change of the domain tables keeps.\<close>

definition same_sync :: "sync_db \<Rightarrow> sync_db \<Rightarrow> bool" where
  "same_sync db db' \<longleftrightarrow>
     db_metadata db' = db_metadata db \<and> db_states db' = db_states db \<and> db_outbox db' = db_outbox db \<and>
     db_vaults db' = db_vaults db \<and> db_uploads db' = db_uploads db \<and> db_credentials db' = db_credentials db \<and>
     db_draws db' = db_draws db"

lemma same_sync_simps [simp]:
  "same_sync db db"
  "same_sync db (db'\<lparr>db_servers := a\<rparr>) \<longleftrightarrow> same_sync db db'"
  "same_sync db (db'\<lparr>db_groups := b\<rparr>) \<longleftrightarrow> same_sync db db'"
  "same_sync db (db'\<lparr>db_snippets := c\<rparr>) \<longleftrightarrow> same_sync db db'"
  "same_sync db (db'\<lparr>db_plugins := d\<rparr>) \<longleftrightarrow> same_sync db db'"
  by (simp_all add: same_sync_def)

lemma apply_remote_server_frame: "apply_remote_server db i s = Inr db' \<Longrightarrow> same_sync db db'"
  unfolding apply_remote_server_def Let_def by (auto split: if_split_asm)

lemma apply_remote_group_frame: "apply_remote_group db i g = Inr db' \<Longrightarrow> same_sync db db'"
  unfolding apply_remote_group_def Let_def by (auto split: if_split_asm)

lemma delete_domain_entity_frame: "delete_domain_entity env k i db = Inr db' \<Longrightarrow> same_sync db db'"
  by (cases k) (auto simp: delete_domain_entity_def detach_group_references_def detach_server_references_def Let_def)

lemma apply_remote_change_frame:
  assumes "apply_remote_change env c db = Inr db'"
  shows "same_sync db db'"
proof (cases "sc_deleted c")
  case True
  with assms show ?thesis by (auto simp: apply_remote_change_def delete_domain_entity_frame)
next
  case False
  with assms obtain p where "sc_payload c = Some p" by (auto simp: apply_remote_change_def rbind_Inr_iff)
  with assms False show ?thesis
    by (cases "sc_entity_kind c"; cases p)
       (auto simp: apply_remote_change_def apply_remote_snippet_def apply_remote_plugin_installation_def Let_def
         dest: apply_remote_server_frame apply_remote_group_frame)
qed

lemma materialize_Inr:
  assumes "materialize_existing_conflict_name env kind i st db = Inr db'"
  obtains payload original conflict_payload name db1 cs where
    "current_domain_payload db kind i = Some payload" "payload_name payload = Some original"
    "conflict_payload = set_payload_name (deterministic_conflict_name original i) payload"
    "payload_name conflict_payload = Some name" "kind \<noteq> CommandSnippet"
    "apply_remote_change env (conflict_materialization kind i (es_revision st) conflict_payload) db = Inr db1"
    "db' = upsert_entity_state
        (rewrite_pending_conflict_names kind i original name (db1\<lparr>db_credentials := cs\<rparr>))
        kind i (es_revision st) False (canonical_content_hash env kind i False (Some conflict_payload))"
proof -
  have cred: "db2 = db1\<lparr>db_credentials := db_credentials db2\<rparr>"
    if "(if kind = Server then move_server_credential_key a b db1 else Inr db1) = Inr db2" for a b db1 db2
    using that by (cases "kind = Server") (auto dest: move_credential_frame)
  from assms show thesis
    unfolding materialize_existing_conflict_name_def conflict_named_payload_def Let_def
  proof (elim rbind_InrE, goal_cases)
    case (1 payload original cp name db1 db2)
    from 1(3) have cp: "kind \<noteq> CommandSnippet" "cp = set_payload_name (deterministic_conflict_name original i) payload"
      using 1(2) by (auto split: if_split_asm)
    from 1(7) have db': "db' = upsert_entity_state (rewrite_pending_conflict_names kind i original name
        (db1\<lparr>db_credentials := db_credentials db2\<rparr>)) kind i (es_revision st) False
        (canonical_content_hash env kind i False (Some cp))"
      using cred [OF 1(6), symmetric] by simp
    show ?case by (rule that [OF _ _ cp(2) _ cp(1) 1(5) db']) (use 1(1,2,4) in simp_all)
  qed
qed

lemma find_pair_Some: "List.find P xs = Some (j, r) \<Longrightarrow> (j, r) \<in> set xs \<and> P (j, r)"
  by (induction xs) (auto split: if_splits)

lemma name_contender_Some:
  assumes "name_contender db kind name i = Some j"
  shows "j \<noteq> i" and "kind = Server \<or> kind = Group"
    and "kind = Server \<Longrightarrow> \<exists>r. (j, r) \<in> set (db_servers db) \<and> sr_name r = name"
    and "kind = Group \<Longrightarrow> \<exists>g. (j, g) \<in> set (db_groups db) \<and> gp_name g = name"
  using assms
  by (auto simp: name_contender_def split: sync_entity_kind.splits dest: find_pair_Some)

lemma resolve_Inr:
  assumes "resolve_name_collision db p = Inr decision"
  shows "decision = NoCollision \<or>
    (\<exists>j st n. \<not> sc_deleted (pc_change p) \<and> j \<noteq> sc_entity_id (pc_change p) \<and>
        Option.bind (sc_payload (pc_change p)) payload_name = Some n \<and>
        name_contender db (sc_entity_kind (pc_change p)) n (sc_entity_id (pc_change p)) = Some j \<and>
        entity_state_of db (sc_entity_kind (pc_change p)) j = Some st \<and> \<not> es_deleted st \<and>
        (decision = IncomingWins j st \<and> es_revision st \<le> sc_revision (pc_change p) \<or>
         decision = ExistingWins j st \<and> sc_revision (pc_change p) \<le> es_revision st))"
proof -
  let ?c = "pc_change p"
  consider "decision = NoCollision"
    | n j st where "\<not> sc_deleted ?c" "Option.bind (sc_payload ?c) payload_name = Some n"
      "name_contender db (sc_entity_kind ?c) n (sc_entity_id ?c) = Some j"
      "entity_state_of db (sc_entity_kind ?c) j = Some st" "\<not> es_deleted st"
      "decision = IncomingWins j st \<and> es_revision st \<le> sc_revision ?c \<or>
       decision = ExistingWins j st \<and> sc_revision ?c \<le> es_revision st"
    using assms
    by (auto simp: resolve_name_collision_def Let_def rbind_Inr_iff
        simp del: name_collision_decision.inject split: if_splits option.splits)
  then show ?thesis using name_contender_Some(1) by cases blast+
qed


section \<open>Applying one change: what is possible\<close>

text \<open>The effective change and state changes of one successful application.\<close>

lemma apply_prepared_change_cases:
  assumes "apply_prepared_change env (db, report) p = Inr (db', report')"
  obtains (ignored) decision eff md st where
      "resolve_name_collision db p = Inr decision"
      "(case decision of ExistingWins _ _ \<Rightarrow> conflict_named_change env p | _ \<Rightarrow> Inr p) = Inr eff"
      "observe_revision (db_metadata db) (sc_revision (pc_change p)) = Inr md"
      "entity_state_of db (sc_entity_kind (pc_change p)) (sc_entity_id (pc_change p)) = Some st"
      "sc_revision (pc_change p) \<le> es_revision st"
      "sc_revision (pc_change p) = es_revision st \<Longrightarrow> es_content_hash st = pc_content_hash eff"
      "db' = db\<lparr>db_metadata := md\<rparr>"
  | (applied) decision eff md db2 report2 db3 where
      "resolve_name_collision db p = Inr decision"
      "(case decision of ExistingWins _ _ \<Rightarrow> conflict_named_change env p | _ \<Rightarrow> Inr p) = Inr eff"
      "observe_revision (db_metadata db) (sc_revision (pc_change p)) = Inr md"
      "\<And>st. entity_state_of db (sc_entity_kind (pc_change p)) (sc_entity_id (pc_change p)) = Some st \<Longrightarrow>
         es_revision st < sc_revision (pc_change p)"
      "settle_collision env decision (pc_change eff)
         (entity_state_of db (sc_entity_kind (pc_change p)) (sc_entity_id (pc_change p)))
         (has_pending_change db (sc_entity_kind (pc_change p)) (sc_entity_id (pc_change p)))
         (db\<lparr>db_metadata := md\<rparr>, report) = Inr (db2, report2)"
      "apply_remote_change env (pc_change eff) db2 = Inr db3"
      "db' = remove_outbox_through
         (upsert_entity_state db3 (sc_entity_kind (pc_change p)) (sc_entity_id (pc_change p))
            (sc_revision (pc_change p)) (sc_deleted (pc_change p)) (pc_content_hash eff))
         (sc_entity_kind (pc_change p)) (sc_entity_id (pc_change p)) (sc_revision (pc_change p))"
proof -
  have eff: "sc_entity_kind (pc_change eff) = sc_entity_kind (pc_change p) \<and>
      sc_entity_id (pc_change eff) = sc_entity_id (pc_change p) \<and>
      sc_revision (pc_change eff) = sc_revision (pc_change p) \<and> sc_deleted (pc_change eff) = sc_deleted (pc_change p)"
    if "(case d of ExistingWins _ _ \<Rightarrow> conflict_named_change env p | _ \<Rightarrow> Inr p) = Inr eff" for d eff
    using that by (auto simp: conflict_named_change_def Let_def rbind_Inr_iff split: name_collision_decision.splits)
  have upd: "entity_state_of (d\<lparr>db_metadata := md\<rparr>) k i = entity_state_of d k i"
    "has_pending_change (d\<lparr>db_metadata := md\<rparr>) k i = has_pending_change d k i" for d md k i
    by (simp_all add: entity_state_of_def has_pending_change_def)
  from assms show thesis
    unfolding apply_prepared_change_def Let_def prod.case
  proof (elim rbind_InrE, goal_cases)
    case (1 decision eff md)
    note e = eff [OF 1(2)]
    have md: "observe_revision (db_metadata db) (sc_revision (pc_change p)) = Inr md" using 1(3) e by simp
    let ?st = "entity_state_of db (sc_entity_kind (pc_change p)) (sc_entity_id (pc_change p))"
    show ?case
    proof (cases "\<exists>st. ?st = Some st \<and> sc_revision (pc_change p) \<le> es_revision st")
      case True
      then obtain st where st: "?st = Some st" "sc_revision (pc_change p) \<le> es_revision st" by blast
      from 1(4) have "db' = db\<lparr>db_metadata := md\<rparr> \<and>
          (sc_revision (pc_change p) = es_revision st \<longrightarrow> es_content_hash st = pc_content_hash eff)"
        using st by (auto simp: upd e split: if_split_asm)
      with st show ?thesis using ignored [OF 1(1,2)] 1(3) e by simp
    next
      case False
      then have new: "\<And>st. ?st = Some st \<Longrightarrow> es_revision st < sc_revision (pc_change p)" by force
      let ?settle = "settle_collision env decision (pc_change eff) ?st
         (has_pending_change db (sc_entity_kind (pc_change p)) (sc_entity_id (pc_change p)))
         (db\<lparr>db_metadata := md\<rparr>, report)"
      have "rbind ?settle (\<lambda>(db, report).
          rbind (apply_remote_change env (pc_change eff) db) (\<lambda>db.
            Inr (remove_outbox_through (upsert_entity_state db (sc_entity_kind (pc_change p)) (sc_entity_id (pc_change p))
                 (sc_revision (pc_change p)) (sc_deleted (pc_change p)) (pc_content_hash eff))
               (sc_entity_kind (pc_change p)) (sc_entity_id (pc_change p)) (sc_revision (pc_change p)),
             report\<lparr>rr_applied := rr_applied report + 1\<rparr>))) = Inr (db', report')"
      proof (cases ?st)
        case None
        with 1(4) show ?thesis by (simp add: upd e)
      next
        case (Some st)
        with new have "es_revision st < sc_revision (pc_change p)" by blast
        then have "\<not> sc_revision (pc_change p) < es_revision st" "sc_revision (pc_change p) \<noteq> es_revision st" by auto
        with 1(4) Some show ?thesis by (simp add: upd e)
      qed
      then show ?thesis
        by (auto elim!: rbind_InrE intro!: applied [OF 1(1,2) md] dest: new)
    qed
  qed
qed


lemma credentials_only:
  assumes "db' = db\<lparr>db_credentials := cs\<rparr>"
  shows "db_metadata db' = db_metadata db" "db_vaults db' = db_vaults db" "db_uploads db' = db_uploads db"
    "db_draws db' = db_draws db" "db_states db' = db_states db" "db_outbox db' = db_outbox db"
    "db_servers db' = db_servers db" "db_groups db' = db_groups db" "db_snippets db' = db_snippets db"
    "db_plugins db' = db_plugins db"
  using assms by simp_all

lemma settle_ExistingWins:
  assumes "settle_collision env (ExistingWins j st) c cur pend (db, report) = Inr (db2, report2)"
  shows "db2 = db\<lparr>db_credentials := db_credentials db2\<rparr>"
proof -
  from assms have "move_existing_server_credential_for_conflict c db = Inr db2"
    by (auto simp: settle_collision_def Let_def elim!: rbind_InrE)
  then show ?thesis by (rule move_existing_frame)
qed

lemma settle_NoCollision:
  "settle_collision env NoCollision c cur pend (db, report) = Inr (db2, report2) \<Longrightarrow> db2 = db"
  by (simp add: settle_collision_def Let_def)

lemma settle_IncomingWins:
  "settle_collision env (IncomingWins j st) c cur pend (db, report) = Inr (db2, report2) \<Longrightarrow>
     materialize_existing_conflict_name env (sc_entity_kind c) j st db = Inr db2"
  by (auto simp: settle_collision_def Let_def elim!: rbind_InrE)

lemma materialize_frame:
  assumes "materialize_existing_conflict_name env k j st db = Inr db2"
  shows "db_metadata db2 = db_metadata db" "db_vaults db2 = db_vaults db" "db_uploads db2 = db_uploads db"
    "db_draws db2 = db_draws db"
    "\<exists>h. map_of (db_states db2) = (map_of (db_states db))((k, j) \<mapsto>
       \<lparr>es_revision = es_revision st, es_content_hash = h, es_deleted = False\<rparr>)"
proof -
  from assms obtain payload original cp name db1 cs where
    a: "apply_remote_change env (conflict_materialization k j (es_revision st) cp) db = Inr db1"
    and d2: "db2 = upsert_entity_state (rewrite_pending_conflict_names k j original name (db1\<lparr>db_credentials := cs\<rparr>))
          k j (es_revision st) False (canonical_content_hash env k j False (Some cp))"
    by (rule materialize_Inr)
  from apply_remote_change_frame [OF a] show
    "db_metadata db2 = db_metadata db" "db_vaults db2 = db_vaults db" "db_uploads db2 = db_uploads db"
    "db_draws db2 = db_draws db"
    "\<exists>h. map_of (db_states db2) = (map_of (db_states db))((k, j) \<mapsto>
       \<lparr>es_revision = es_revision st, es_content_hash = h, es_deleted = False\<rparr>)"
    by (auto simp: d2 same_sync_def rewrite_pending_conflict_names_def)
qed

lemma settle_frame:
  assumes "settle_collision env d c cur pend (db, report) = Inr (db2, report2)"
  shows "db_metadata db2 = db_metadata db" "db_vaults db2 = db_vaults db" "db_uploads db2 = db_uploads db"
    "db_draws db2 = db_draws db"
    "case d of
       IncomingWins j st \<Rightarrow> \<exists>h. map_of (db_states db2) = (map_of (db_states db))((sc_entity_kind c, j) \<mapsto>
          \<lparr>es_revision = es_revision st, es_content_hash = h, es_deleted = False\<rparr>)
     | _ \<Rightarrow> map_of (db_states db2) = map_of (db_states db)"
proof -
  have "db_metadata db2 = db_metadata db \<and> db_vaults db2 = db_vaults db \<and> db_uploads db2 = db_uploads db \<and>
    db_draws db2 = db_draws db \<and>
    (case d of
       IncomingWins j st \<Rightarrow> \<exists>h. map_of (db_states db2) = (map_of (db_states db))((sc_entity_kind c, j) \<mapsto>
          \<lparr>es_revision = es_revision st, es_content_hash = h, es_deleted = False\<rparr>)
     | _ \<Rightarrow> map_of (db_states db2) = map_of (db_states db))"
  proof (cases d)
    case NoCollision
    from settle_NoCollision [OF assms [unfolded NoCollision]] NoCollision show ?thesis by simp
  next
    case (ExistingWins j st)
    from credentials_only [OF settle_ExistingWins [OF assms [unfolded ExistingWins]]] show ?thesis
      unfolding ExistingWins by simp
  next
    case (IncomingWins j st)
    from materialize_frame [OF settle_IncomingWins [OF assms [unfolded IncomingWins]]] show ?thesis
      unfolding IncomingWins by simp
  qed
  then show "db_metadata db2 = db_metadata db" "db_vaults db2 = db_vaults db" "db_uploads db2 = db_uploads db"
    "db_draws db2 = db_draws db"
    "case d of
       IncomingWins j st \<Rightarrow> \<exists>h. map_of (db_states db2) = (map_of (db_states db))((sc_entity_kind c, j) \<mapsto>
          \<lparr>es_revision = es_revision st, es_content_hash = h, es_deleted = False\<rparr>)
     | _ \<Rightarrow> map_of (db_states db2) = map_of (db_states db)" by blast+
qed

text \<open>The revision the storage has recorded for an entity, and the newest of several.\<close>

definition revision_of :: "sync_db \<Rightarrow> entity \<Rightarrow> string option" where
  "revision_of db e = map_option es_revision (map_of (db_states db) e)"

definition newer :: "string option \<Rightarrow> string \<Rightarrow> string option" where
  "newer ro r = (case ro of None \<Rightarrow> Some r | Some s \<Rightarrow> Some (max s r))"

definition entity_of :: "prepared_change \<Rightarrow> entity" where
  "entity_of p = (sc_entity_kind (pc_change p), sc_entity_id (pc_change p))"

lemma apply_revision_of:
  assumes "apply_prepared_change env (db, report) p = Inr (db', report')"
  shows "revision_of db' =
    (revision_of db)(entity_of p := newer (revision_of db (entity_of p)) (sc_revision (pc_change p)))"
  using assms
proof (cases rule: apply_prepared_change_cases)
  case (ignored decision eff md st)
  then have "max (es_revision st) (sc_revision (pc_change p)) = es_revision st" by (simp add: max_absorb1)
  with ignored show ?thesis
    by (auto simp: revision_of_def entity_of_def entity_state_of_def newer_def fun_eq_iff)
next
  case (applied decision eff md db2 report2 db3)
  have eff: "sc_entity_kind (pc_change eff) = sc_entity_kind (pc_change p)"
    using applied(2) by (auto simp: conflict_named_change_def Let_def rbind_Inr_iff split: name_collision_decision.splits)
  have "revision_of db2 = revision_of db"
  proof (cases decision)
    case (IncomingWins j st)
    with resolve_Inr [OF applied(1)] have "entity_state_of db (sc_entity_kind (pc_change p)) j = Some st" by auto
    moreover from settle_frame(5) [OF applied(5)] IncomingWins eff obtain h where
      "map_of (db_states db2) = (map_of (db_states db))((sc_entity_kind (pc_change p), j) \<mapsto>
          \<lparr>es_revision = es_revision st, es_content_hash = h, es_deleted = False\<rparr>)" by auto
    ultimately show ?thesis by (auto simp: revision_of_def fun_eq_iff entity_state_of_def)
  qed (use settle_frame(5) [OF applied(5)] in \<open>simp_all add: revision_of_def fun_eq_iff\<close>)
  moreover have "db_states db3 = db_states db2" using apply_remote_change_frame [OF applied(6)] by (simp add: same_sync_def)
  moreover have "newer (revision_of db (entity_of p)) (sc_revision (pc_change p)) = Some (sc_revision (pc_change p))"
    using applied(4) by (cases "entity_state_of db (sc_entity_kind (pc_change p)) (sc_entity_id (pc_change p))")
      (auto simp: newer_def revision_of_def entity_of_def entity_state_of_def max_absorb2 less_imp_le)
  ultimately show ?thesis
    unfolding applied(7) by (auto simp: revision_of_def entity_of_def fun_eq_iff)
qed

section \<open>The invariant of the synchronised tables\<close>

definition tables_inv :: "sync_db \<Rightarrow> bool" where
  "tables_inv db \<longleftrightarrow>
     distinct (map fst (db_servers db)) \<and> distinct (map (sr_name \<circ> snd) (db_servers db)) \<and>
     distinct (map fst (db_groups db)) \<and> distinct (map (gp_name \<circ> snd) (db_groups db)) \<and>
     distinct (map fst (db_snippets db)) \<and> distinct (map fst (db_plugins db)) \<and>
     distinct (map fst (db_states db))"

definition tombstones :: "sync_db \<Rightarrow> entity set" where
  "tombstones db = {e. \<exists>st. map_of (db_states db) e = Some st \<and> es_deleted st}"

text \<open>No row refers to an entity of \<open>D\<close>.\<close>

definition refs_avoid :: "entity set \<Rightarrow> sync_db \<Rightarrow> bool" where
  "refs_avoid D db \<longleftrightarrow>
     (\<forall>r \<in> snd ` set (db_servers db). (\<forall>g. sr_group_id r = Some g \<longrightarrow> (Group, g) \<notin> D) \<and>
        (\<forall>j. sr_jump_host_id r = Some j \<longrightarrow> (Server, j) \<notin> D)) \<and>
     (\<forall>g \<in> snd ` set (db_groups db). \<forall>p. gp_parent_id g = Some p \<longrightarrow> (Group, p) \<notin> D)"

text \<open>Exactly the rows of the domain tables have a live state.\<close>

definition tracked :: "sync_db \<Rightarrow> bool" where
  "tracked db \<longleftrightarrow>
     (\<forall>k i. current_domain_payload db k i \<noteq> None \<longleftrightarrow>
        (\<exists>st. map_of (db_states db) (k, i) = Some st \<and> \<not> es_deleted st))"

text \<open>A queued local change is never newer than the state it belongs to.\<close>

definition outbox_inv :: "sync_db \<Rightarrow> bool" where
  "outbox_inv db \<longleftrightarrow>
     distinct (map ob_change_id (db_outbox db)) \<and>
     (\<forall>o' \<in> set (db_outbox db). \<exists>r. revision_of db (ob_kind o', ob_entity_id o') = Some r \<and> ob_revision o' \<le> r)"

text \<open>The clock is ahead of every recorded revision.\<close>

definition clock_inv :: "sync_db \<Rightarrow> bool" where
  "clock_inv db \<longleftrightarrow>
     (\<exists>L. clock_at (db_metadata db) L \<and>
       (\<forall>e r. revision_of db e = Some r \<longrightarrow> (\<exists>m. revision_millis r = Inr m \<and> m \<le> L)))"

definition sync_inv :: "sync_db \<Rightarrow> bool" where
  "sync_inv db \<longleftrightarrow>
     tables_inv db \<and> refs_avoid (tombstones db) db \<and> tracked db \<and> outbox_inv db \<and> clock_inv db"

lemma refs_avoid_mono: "refs_avoid D db \<Longrightarrow> E \<subseteq> D \<Longrightarrow> refs_avoid E db"
  unfolding refs_avoid_def by blast

lemma reference_tombstoned_iff:
  "reference_is_tombstoned db k (Some i) \<longleftrightarrow> (k, i) \<in> tombstones db"
  by (auto simp: reference_is_tombstoned_def tombstones_def entity_state_of_def split: option.splits)

subsection \<open>Association lists\<close>

lemma distinct_names_update:
  assumes "distinct (map fst xs)" "distinct (map (f \<circ> snd) xs)"
    and "\<not> list_ex (\<lambda>(j, r). j \<noteq> k \<and> f r = f v) xs"
  shows "distinct (map (f \<circ> snd) (AList.update k v xs))"
  using assms
proof (induction xs)
  case Nil
  then show ?case by simp
next
  case (Cons p xs)
  obtain j r where p: "p = (j, r)" by (cases p)
  show ?case
  proof (cases "j = k")
    case True
    have "f w \<noteq> f v" if "(j', w) \<in> set xs" for j' w
    proof -
      have "j' \<noteq> k" using that Cons.prems(1) p True by force
      with that Cons.prems(3) show ?thesis by (force simp: list_ex_iff)
    qed
    then have "f v \<notin> set (map (f \<circ> snd) xs)" by force
    with Cons.prems p True show ?thesis by simp
  next
    case False
    have "f r \<notin> set (map (f \<circ> snd) (AList.update k v xs))"
      using Cons.prems False p by (auto simp: list_ex_iff set_AList_update)
    moreover have "distinct (map (f \<circ> snd) (AList.update k v xs))"
      using Cons.prems p by (intro Cons.IH) (auto simp: list_ex_iff)
    ultimately show ?thesis using False p by (simp add: comp_def)
  qed
qed

lemma distinct_names_delete: "distinct (map (f \<circ> snd) xs) \<Longrightarrow> distinct (map (f \<circ> snd) (AList.delete k xs))"
  by (induction xs) (auto simp: AList.delete_eq)

subsection \<open>Domain tables\<close>

lemma tables_inv_simps:
  "tables_inv (db\<lparr>db_metadata := a\<rparr>) = tables_inv db" "tables_inv (db\<lparr>db_outbox := b\<rparr>) = tables_inv db"
  "tables_inv (db\<lparr>db_credentials := c\<rparr>) = tables_inv db" "tables_inv (db\<lparr>db_draws := n\<rparr>) = tables_inv db"
  by (simp_all add: tables_inv_def)

lemma live_reference_Some: "live_reference db k r = Some i \<Longrightarrow> (k, i) \<notin> tombstones db"
  by (auto simp: live_reference_def reference_tombstoned_iff [symmetric] split: if_split_asm)

lemma remote_server_row_simps [simp]:
  "sr_name (remote_server_row db i s) = sp_name s"
  "sr_group_id (remote_server_row db i s) = live_reference db Group (sp_group_id s)"
  "sr_jump_host_id (remote_server_row db i s) = live_reference db Server (sp_jump_host_id s)"
  by (simp_all add: remote_server_row_def)

definition domain_inv :: "sync_db \<Rightarrow> bool" where
  "domain_inv db \<longleftrightarrow> tables_inv db \<and> refs_avoid (tombstones db) db"

lemma payload_iff:
  "current_domain_payload db Server i \<noteq> None \<longleftrightarrow> map_of (db_servers db) i \<noteq> None"
  "current_domain_payload db Group i \<noteq> None \<longleftrightarrow> map_of (db_groups db) i \<noteq> None"
  "current_domain_payload db CommandSnippet i \<noteq> None \<longleftrightarrow> map_of (db_snippets db) i \<noteq> None"
  "current_domain_payload db PluginInstallation i \<noteq> None \<longleftrightarrow> map_of (db_plugins db) i \<noteq> None"
  by (simp_all add: current_domain_payload_def)

definition present :: "sync_db \<Rightarrow> entity set" where
  "present db = {(k, i). current_domain_payload db k i \<noteq> None}"

lemma present_simps:
  "(Server, i) \<in> present db \<longleftrightarrow> map_of (db_servers db) i \<noteq> None"
  "(Group, i) \<in> present db \<longleftrightarrow> map_of (db_groups db) i \<noteq> None"
  "(CommandSnippet, i) \<in> present db \<longleftrightarrow> map_of (db_snippets db) i \<noteq> None"
  "(PluginInstallation, i) \<in> present db \<longleftrightarrow> map_of (db_plugins db) i \<noteq> None"
  by (simp_all add: present_def current_domain_payload_def)

lemma present_eqI: "(\<And>k i. (k, i) \<in> present db \<longleftrightarrow> (k, i) \<in> S) \<Longrightarrow> present db = S"
  by auto

lemma apply_remote_server_inv:
  assumes "tables_inv db" "refs_avoid (tombstones db) db" "apply_remote_server db i s = Inr db'"
  shows "tables_inv db'" "refs_avoid (tombstones db) db'" "present db' = insert (Server, i) (present db)"
proof -
  from assms(3) have db': "db' = db\<lparr>db_servers := AList.update i (remote_server_row db i s) (db_servers db)\<rparr>"
    and name: "\<not> list_ex (\<lambda>(j, r). j \<noteq> i \<and> sr_name r = sr_name (remote_server_row db i s)) (db_servers db)"
    by (auto simp: apply_remote_server_def split: if_split_asm)
  have d: "distinct (map fst (db_servers db))" using assms(1) by (simp add: tables_inv_def)
  show "tables_inv db'"
    using assms(1) distinct_names_update [OF d _ name] by (simp add: db' tables_inv_def distinct_update)
  show "refs_avoid (tombstones db) db'"
    using assms(2) live_reference_Some d unfolding refs_avoid_def db' by (auto simp: set_AList_update)
  show "present db' = insert (Server, i) (present db)"
  proof (rule present_eqI)
    show "(k, j) \<in> present db' \<longleftrightarrow> (k, j) \<in> insert (Server, i) (present db)" for k j
      by (cases k) (simp_all add: db' present_simps update_conv')
  qed
qed

lemma apply_remote_group_inv:
  assumes "tables_inv db" "refs_avoid (tombstones db) db" "apply_remote_group db i g = Inr db'"
  shows "tables_inv db'" "refs_avoid (tombstones db) db'" "present db' = insert (Group, i) (present db)"
proof -
  from assms(3) have db': "db' = db\<lparr>db_groups := AList.update i (remote_group_row db g) (db_groups db)\<rparr>"
    and name: "\<not> list_ex (\<lambda>(j, r). j \<noteq> i \<and> gp_name r = gp_name (remote_group_row db g)) (db_groups db)"
    by (auto simp: apply_remote_group_def remote_group_row_def split: if_split_asm)
  have d: "distinct (map fst (db_groups db))" using assms(1) by (simp add: tables_inv_def)
  show "tables_inv db'"
    using assms(1) distinct_names_update [OF d _ name] by (simp add: db' tables_inv_def distinct_update)
  show "refs_avoid (tombstones db) db'"
    using assms(2) live_reference_Some d unfolding refs_avoid_def db'
    by (auto simp: set_AList_update remote_group_row_def)
  show "present db' = insert (Group, i) (present db)"
  proof (rule present_eqI)
    show "(k, j) \<in> present db' \<longleftrightarrow> (k, j) \<in> insert (Group, i) (present db)" for k j
      by (cases k) (simp_all add: db' present_simps update_conv')
  qed
qed

text \<open>Deleting an entity also removes the references to it.\<close>

lemma map_values_simps:
  "map fst (map (\<lambda>(i, r). (i, f r)) xs) = map fst xs"
  "map_of (map (\<lambda>(i, r). (i, f r)) xs) k = map_option f (map_of xs k)"
  by (induction xs) (auto split: prod.splits)

lemma map_snd_values: "(\<And>r. g (f r) = g r) \<Longrightarrow> map (g \<circ> snd) (map (\<lambda>(i, r). (i, f r)) xs) = map (g \<circ> snd) xs"
  by (auto simp: comp_def case_prod_unfold)

lemma delete_domain_entity_inv:
  assumes "tables_inv db" "refs_avoid (tombstones db) db" "delete_domain_entity env k i db = Inr db'"
  shows "tables_inv db'" "refs_avoid (insert (k, i) (tombstones db)) db'" "present db' = present db - {(k, i)}"
proof -
  have set_del: "set (AList.delete j xs) \<subseteq> set xs" for j and xs :: "(string \<times> 'z) list"
    by (auto simp: AList.delete_eq)
  note t = assms(1) [unfolded tables_inv_def] and r = assms(2) [unfolded refs_avoid_def]
  have all: "tables_inv db' \<and> refs_avoid (insert (k, i) (tombstones db)) db' \<and>
      (\<forall>k' j. (k', j) \<in> present db' \<longleftrightarrow> (k', j) \<in> present db - {(k, i)})"
  proof (cases k)
    case Server
    let ?f = "\<lambda>s. if sr_jump_host_id s = Some i then s\<lparr>sr_jump_host_id := None\<rparr> else s"
    let ?s = "map (\<lambda>(j, s). (j, ?f s)) (db_servers db)"
    have db': "db' = db\<lparr>db_servers := AList.delete i ?s\<rparr>"
      using assms(3) Server by (simp add: delete_domain_entity_def detach_server_references_def Let_def)
    have n: "map (sr_name \<circ> snd) ?s = map (sr_name \<circ> snd) (db_servers db)" by (rule map_snd_values) simp
    have "tables_inv db'"
      using t n by (simp add: db' tables_inv_def distinct_delete distinct_names_delete map_values_simps del: map_map)
    moreover have "refs_avoid (insert (k, i) (tombstones db)) db'"
      using r set_del [of i ?s] unfolding refs_avoid_def Server db' by (fastforce split: if_splits)
    moreover have "(k', j) \<in> present db' \<longleftrightarrow> (k', j) \<in> present db - {(k, i)}" for k' j
      unfolding Server by (cases k') (simp_all add: db' present_simps delete_conv' map_values_simps)
    ultimately show ?thesis by blast
  next
    case Group
    let ?f = "\<lambda>s. if sr_group_id s = Some i then s\<lparr>sr_group_id := None\<rparr> else s"
    let ?h = "\<lambda>g. if gp_parent_id g = Some i then g\<lparr>gp_parent_id := None\<rparr> else g"
    let ?s = "map (\<lambda>(j, s). (j, ?f s)) (db_servers db)" and ?g = "map (\<lambda>(j, g). (j, ?h g)) (db_groups db)"
    have db': "db' = db\<lparr>db_servers := ?s, db_groups := AList.delete i ?g\<rparr>"
      using assms(3) Group by (simp add: delete_domain_entity_def detach_group_references_def Let_def)
    have n: "map (sr_name \<circ> snd) ?s = map (sr_name \<circ> snd) (db_servers db)"
      "map (gp_name \<circ> snd) ?g = map (gp_name \<circ> snd) (db_groups db)" by (rule map_snd_values, simp)+
    have "tables_inv db'"
      using t n by (simp add: db' tables_inv_def distinct_delete distinct_names_delete map_values_simps del: map_map)
    moreover have "refs_avoid (insert (k, i) (tombstones db)) db'"
      using r set_del [of i ?g] unfolding refs_avoid_def Group db' by (fastforce split: if_splits)
    moreover have "(k', j) \<in> present db' \<longleftrightarrow> (k', j) \<in> present db - {(k, i)}" for k' j
      unfolding Group by (cases k') (simp_all add: db' present_simps delete_conv' map_values_simps)
    ultimately show ?thesis by blast
  next
    case CommandSnippet
    with assms(3) have db': "db' = db\<lparr>db_snippets := AList.delete i (db_snippets db)\<rparr>"
      by (simp add: delete_domain_entity_def)
    have "(k', j) \<in> present db' \<longleftrightarrow> (k', j) \<in> present db - {(k, i)}" for k' j
      unfolding CommandSnippet by (cases k') (simp_all add: db' present_simps delete_conv')
    with t r show ?thesis
      by (simp add: db' tables_inv_def refs_avoid_def distinct_delete CommandSnippet)
  next
    case PluginInstallation
    with assms(3) have db': "db' = db\<lparr>db_plugins := AList.delete i (db_plugins db)\<rparr>"
      by (simp add: delete_domain_entity_def)
    have "(k', j) \<in> present db' \<longleftrightarrow> (k', j) \<in> present db - {(k, i)}" for k' j
      unfolding PluginInstallation by (cases k') (simp_all add: db' present_simps delete_conv')
    with t r show ?thesis
      by (simp add: db' tables_inv_def refs_avoid_def distinct_delete PluginInstallation)
  qed
  then show "tables_inv db'" "refs_avoid (insert (k, i) (tombstones db)) db'" "present db' = present db - {(k, i)}"
    by auto
qed


lemma apply_remote_change_inv:
  assumes "tables_inv db" "refs_avoid (tombstones db) db" "apply_remote_change env c db = Inr db'"
  defines "e \<equiv> (sc_entity_kind c, sc_entity_id c)"
  shows "tables_inv db'"
    "refs_avoid (if sc_deleted c then insert e (tombstones db) else tombstones db) db'"
    "present db' = (if sc_deleted c then present db - {e} else insert e (present db))"
proof -
  have "tables_inv db' \<and> refs_avoid (if sc_deleted c then insert e (tombstones db) else tombstones db) db' \<and>
      present db' = (if sc_deleted c then present db - {e} else insert e (present db))"
  proof (cases "sc_deleted c")
    case True
    with assms(3) have "delete_domain_entity env (sc_entity_kind c) (sc_entity_id c) db = Inr db'"
      by (simp add: apply_remote_change_def)
    from delete_domain_entity_inv [OF assms(1,2) this] True show ?thesis by (simp add: e_def)
  next
    case False
    from assms(3) False obtain p where p: "sc_payload c = Some p" by (auto simp: apply_remote_change_def elim!: rbind_InrE)
    note a = assms(3) [unfolded apply_remote_change_def]
    have snip: ?thesis if "sc_entity_kind c = CommandSnippet" "p = SnippetPayload q" for q
    proof -
      from a p that False have db': "db' = apply_remote_snippet db (sc_entity_id c) q" by simp
      have "(k', j) \<in> present db' \<longleftrightarrow> (k', j) \<in> insert e (present db)" for k' j
        unfolding e_def that(1) by (cases k') (simp_all add: db' apply_remote_snippet_def present_simps update_conv')
      with assms(1,2) False show ?thesis
        by (auto simp: db' apply_remote_snippet_def tables_inv_def refs_avoid_def distinct_update)
    qed
    have plug: ?thesis if "sc_entity_kind c = PluginInstallation" "p = PluginPayload q" for q
    proof -
      from a p that False obtain row where db': "db' = db\<lparr>db_plugins := AList.update (sc_entity_id c) row (db_plugins db)\<rparr>"
        by (auto simp: apply_remote_plugin_installation_def Let_def)
      have "(k', j) \<in> present db' \<longleftrightarrow> (k', j) \<in> insert e (present db)" for k' j
        unfolding e_def that(1) by (cases k') (simp_all add: db' present_simps update_conv')
      with assms(1,2) False show ?thesis
        by (auto simp: db' tables_inv_def refs_avoid_def distinct_update)
    qed
    consider (server) q where "sc_entity_kind c = Server" "p = ServerPayload q"
      | (group) q where "sc_entity_kind c = Group" "p = GroupPayload q"
      | (snippet) q where "sc_entity_kind c = CommandSnippet" "p = SnippetPayload q"
      | (plugin) q where "sc_entity_kind c = PluginInstallation" "p = PluginPayload q"
      using a p False by (cases "sc_entity_kind c"; cases p) auto
    then show ?thesis
    proof cases
      case server
      with a p False have "apply_remote_server db (sc_entity_id c) q = Inr db'" by simp
      from apply_remote_server_inv [OF assms(1,2) this] server False show ?thesis by (simp add: e_def)
    next
      case group
      with a p False have "apply_remote_group db (sc_entity_id c) q = Inr db'" by simp
      from apply_remote_group_inv [OF assms(1,2) this] group False show ?thesis by (simp add: e_def)
    qed (use snip plug in blast)+
  qed
  then show "tables_inv db'"
    "refs_avoid (if sc_deleted c then insert e (tombstones db) else tombstones db) db'"
    "present db' = (if sc_deleted c then present db - {e} else insert e (present db))" by auto
qed

subsection \<open>The whole invariant\<close>

lemma tracked_iff:
  "tracked db \<longleftrightarrow> (\<forall>e. e \<in> present db \<longleftrightarrow> (\<exists>st. map_of (db_states db) e = Some st \<and> \<not> es_deleted st))"
  unfolding tracked_def present_def by auto

lemma tombstones_cong: "map_of (db_states db') = map_of (db_states db) \<Longrightarrow> tombstones db' = tombstones db"
  by (simp add: tombstones_def)

lemma tombstones_update:
  "map_of (db_states db') = (map_of (db_states db))(e \<mapsto> st) \<Longrightarrow>
     tombstones db' = (if es_deleted st then insert e (tombstones db) else tombstones db - {e})"
  by (auto simp: tombstones_def split: if_splits)

lemma domain_only_cong:
  assumes "db_servers db' = db_servers db" "db_groups db' = db_groups db" "db_snippets db' = db_snippets db"
    "db_plugins db' = db_plugins db"
  shows "present db' = present db" "refs_avoid D db' = refs_avoid D db"
    "distinct (map fst (db_states db')) \<Longrightarrow> tables_inv db \<Longrightarrow> tables_inv db'"
  using assms by (simp_all add: present_def current_domain_payload_def refs_avoid_def tables_inv_def
      split: sync_entity_kind.splits)

text \<open>The part of the invariant about rows and states.\<close>

definition rows_inv :: "sync_db \<Rightarrow> bool" where
  "rows_inv db \<longleftrightarrow> tables_inv db \<and> refs_avoid (tombstones db) db \<and> tracked db"

lemma rows_inv_apply:
  assumes "rows_inv db" "apply_remote_change env c db = Inr db1"
    and "db_states db2 = db_states (upsert_entity_state db1 (sc_entity_kind c) (sc_entity_id c) r (sc_deleted c) h)"
    and "db_servers db2 = db_servers db1" "db_groups db2 = db_groups db1"
      "db_snippets db2 = db_snippets db1" "db_plugins db2 = db_plugins db1"
  shows "rows_inv db2"
proof -
  let ?e = "(sc_entity_kind c, sc_entity_id c)"
  from assms(1) have inv: "tables_inv db" "refs_avoid (tombstones db) db" "tracked db" by (simp_all add: rows_inv_def)
  note A = apply_remote_change_inv [OF inv(1,2) assms(2)]
  have s1: "db_states db1 = db_states db" using apply_remote_change_frame [OF assms(2)] by (simp add: same_sync_def)
  have s2: "map_of (db_states db2) = (map_of (db_states db))(?e \<mapsto>
      \<lparr>es_revision = r, es_content_hash = h, es_deleted = sc_deleted c\<rparr>)"
    by (simp add: assms(3) s1)
  note D = domain_only_cong [OF assms(4-7)]
  have "distinct (map fst (db_states db2))"
    using A(1) unfolding assms(3) by (simp add: upsert_entity_state_def tables_inv_def distinct_update)
  then have "tables_inv db2" using A(1) D(3) by blast
  moreover have "refs_avoid (tombstones db2) db2"
    unfolding D(2) tombstones_update [OF s2]
    by (rule refs_avoid_mono [OF A(2)]) (auto split: if_splits)
  moreover have "tracked db2"
    using inv(3) unfolding tracked_iff D(1) A(3) s2 by (auto split: if_splits)
  ultimately show ?thesis by (simp add: rows_inv_def)
qed

lemma rows_inv_cong:
  assumes "rows_inv db" "db_states db' = db_states db" "db_servers db' = db_servers db" "db_groups db' = db_groups db"
    "db_snippets db' = db_snippets db" "db_plugins db' = db_plugins db"
  shows "rows_inv db'"
  using assms domain_only_cong [OF assms(3-6)]
  by (auto simp: rows_inv_def tables_inv_def tracked_iff tombstones_def)

lemma rows_inv_materialize:
  assumes "rows_inv db" "materialize_existing_conflict_name env k i st db = Inr db'"
  shows "rows_inv db'"
  using assms(2)
proof (rule materialize_Inr)
  fix payload original cp name db1 cs
  assume a: "apply_remote_change env (conflict_materialization k i (es_revision st) cp) db = Inr db1"
    and d: "db' = upsert_entity_state (rewrite_pending_conflict_names k i original name (db1\<lparr>db_credentials := cs\<rparr>))
        k i (es_revision st) False (canonical_content_hash env k i False (Some cp))"
  show "rows_inv db'"
    by (rule rows_inv_apply [OF assms(1) a]) (simp_all add: d conflict_materialization_def upsert_entity_state_def)
qed

lemma rows_inv_settle:
  assumes "rows_inv db" "settle_collision env d c cur pend (db, report) = Inr (db2, report2)"
  shows "rows_inv db2"
proof (cases d)
  case NoCollision
  from settle_NoCollision [OF assms(2) [unfolded NoCollision]] assms(1) show ?thesis by simp
next
  case (ExistingWins j st)
  from credentials_only [OF settle_ExistingWins [OF assms(2) [unfolded ExistingWins]]] assms(1)
  show ?thesis by (simp add: rows_inv_cong)
next
  case (IncomingWins j st)
  from rows_inv_materialize [OF assms(1) settle_IncomingWins [OF assms(2) [unfolded IncomingWins]]] show ?thesis .
qed

text \<open>The queue of local changes, up to the payload texts.\<close>

definition outbox_keys :: "sync_db \<Rightarrow> (string \<times> entity \<times> string) list" where
  "outbox_keys db = map (\<lambda>o'. (ob_change_id o', (ob_kind o', ob_entity_id o'), ob_revision o')) (db_outbox db)"

lemma outbox_inv_keys:
  "outbox_inv db \<longleftrightarrow> distinct (map fst (outbox_keys db)) \<and>
     (\<forall>(c, e, r) \<in> set (outbox_keys db). \<exists>s. revision_of db e = Some s \<and> r \<le> s)"
  by (auto simp: outbox_inv_def outbox_keys_def comp_def)

lemma has_pending_keys: "has_pending_change db k i \<longleftrightarrow> (\<exists>c r. (c, (k, i), r) \<in> set (outbox_keys db))"
  by (auto simp: has_pending_change_def outbox_keys_def list_ex_iff)

lemma outbox_keys_rewrite [simp]: "outbox_keys (rewrite_pending_conflict_names k i a b db) = outbox_keys db"
  by (simp add: outbox_keys_def rewrite_pending_conflict_names_def comp_def cong: map_cong)

lemma outbox_keys_remove:
  "outbox_keys (remove_outbox_through db k i r) =
     filter (\<lambda>(c, e, s). \<not> (e = (k, i) \<and> s \<le> r)) (outbox_keys db)"
  unfolding outbox_keys_def remove_outbox_through_def filter_map
  by (simp add: comp_def) (intro arg_cong [where f = "map _"] filter_cong; auto)

lemma settle_outbox_keys:
  assumes "settle_collision env d c cur pend (db, report) = Inr (db2, report2)"
  shows "outbox_keys db2 = outbox_keys db"
proof (cases d)
  case NoCollision
  from settle_NoCollision [OF assms [unfolded NoCollision]] show ?thesis by simp
next
  case (ExistingWins j st)
  from credentials_only [OF settle_ExistingWins [OF assms [unfolded ExistingWins]]]
  show ?thesis by (simp add: outbox_keys_def)
next
  case (IncomingWins j st)
  from settle_IncomingWins [OF assms [unfolded IncomingWins]] show ?thesis
  proof (rule materialize_Inr)
    fix payload original cp name db1 cs
    assume a: "apply_remote_change env (conflict_materialization (sc_entity_kind c) j (es_revision st) cp) db = Inr db1"
      and d: "db2 = upsert_entity_state (rewrite_pending_conflict_names (sc_entity_kind c) j original name
          (db1\<lparr>db_credentials := cs\<rparr>)) (sc_entity_kind c) j (es_revision st) False
          (canonical_content_hash env (sc_entity_kind c) j False (Some cp))"
    have "outbox_keys (upsert_entity_state x k i r e h) = outbox_keys x" "outbox_keys (x\<lparr>db_credentials := cs\<rparr>) = outbox_keys x"
      for x k i r e h by (simp_all add: outbox_keys_def)
    with apply_remote_change_frame [OF a] show ?thesis
      unfolding d by (simp add: same_sync_def outbox_keys_def [of db1] outbox_keys_def [of db])
  qed
qed

lemma clock_inv_observe:
  assumes "clock_inv db" "observe_revision (db_metadata db) r = Inr md"
    and "db_metadata db' = md" "\<And>e s. revision_of db' e = Some s \<Longrightarrow> revision_of db e = Some s \<or> s = r"
  shows "clock_inv db'"
proof -
  from assms(1) obtain L where L: "clock_at (db_metadata db) L"
    "\<And>e s. revision_of db e = Some s \<Longrightarrow> \<exists>m. revision_millis s = Inr m \<and> m \<le> L" unfolding clock_inv_def by blast
  from observe_revision_Inr [OF assms(2) L(1)] obtain m where m: "revision_millis r = Inr m" "clock_at md (max L m)" by blast
  have "\<exists>n. revision_millis s = Inr n \<and> n \<le> max L m" if "revision_of db' e = Some s" for e s
    using assms(4) [OF that] L(2) [of e s] m(1) by auto
  with m(2) assms(3) show ?thesis unfolding clock_inv_def by blast
qed

lemma sync_inv_rows: "sync_inv db \<longleftrightarrow> rows_inv db \<and> outbox_inv db \<and> clock_inv db"
  by (auto simp: sync_inv_def rows_inv_def)

lemma effective_fields:
  assumes "(case d of ExistingWins _ _ \<Rightarrow> conflict_named_change env p | _ \<Rightarrow> Inr p) = Inr eff"
  shows "sc_entity_kind (pc_change eff) = sc_entity_kind (pc_change p)"
    "sc_entity_id (pc_change eff) = sc_entity_id (pc_change p)"
    "sc_revision (pc_change eff) = sc_revision (pc_change p)"
    "sc_deleted (pc_change eff) = sc_deleted (pc_change p)"
  using assms by (auto simp: conflict_named_change_def Let_def rbind_Inr_iff split: name_collision_decision.splits)

lemma apply_prepared_change_inv:
  assumes inv: "sync_inv db" and step: "apply_prepared_change env (db, report) p = Inr (db', report')"
  shows "sync_inv db'"
proof -
  note rev = apply_revision_of [OF step]
  have rev': "revision_of db' e = Some s \<Longrightarrow> revision_of db e = Some s \<or> s = sc_revision (pc_change p)" for e s
    by (auto simp: rev newer_def max_def split: if_splits option.splits)
  have grow: "revision_of db e = Some s \<Longrightarrow> \<exists>t. revision_of db' e = Some t \<and> s \<le> t" for e s
    by (auto simp: rev newer_def)
  from inv have I: "rows_inv db" "outbox_inv db" "clock_inv db" by (simp_all add: sync_inv_rows)
  show ?thesis
    using step
  proof (cases rule: apply_prepared_change_cases)
    case (ignored decision eff md st)
    have "rows_inv db'" using I(1) by (rule rows_inv_cong) (simp_all add: ignored(7))
    moreover have "outbox_inv db'" using I(2) by (simp add: ignored(7) outbox_inv_def revision_of_def)
    moreover have "clock_inv db'" by (rule clock_inv_observe [OF I(3) ignored(3)]) (simp_all add: ignored(7) revision_of_def)
    ultimately show ?thesis by (simp add: sync_inv_rows)
  next
    case (applied decision eff md db2 report2 db3)
    note eff = effective_fields [OF applied(2)]
    have "rows_inv (db\<lparr>db_metadata := md\<rparr>)" using I(1) by (rule rows_inv_cong) simp_all
    then have "rows_inv db2" using applied(5) by (rule rows_inv_settle)
    then have "rows_inv db'"
      by (rule rows_inv_apply [OF _ applied(6)]) (simp_all add: applied(7) eff upsert_entity_state_def)
    moreover have "clock_inv db'"
    proof (rule clock_inv_observe [OF I(3) applied(3) _ rev'])
      show "db_metadata db' = md"
        using settle_frame(1) [OF applied(5)] apply_remote_change_frame [OF applied(6)]
        by (simp add: applied(7) same_sync_def)
    qed
    moreover have "outbox_inv db'"
    proof -
      have "outbox_keys db3 = outbox_keys db"
        using settle_outbox_keys [OF applied(5)] apply_remote_change_frame [OF applied(6)]
        by (simp add: same_sync_def outbox_keys_def)
      then have "outbox_keys db' = filter (\<lambda>(c, e, s). \<not> (e = entity_of p \<and> s \<le> sc_revision (pc_change p))) (outbox_keys db)"
        by (simp add: applied(7) outbox_keys_remove entity_of_def outbox_keys_def [of "upsert_entity_state _ _ _ _ _ _"]
            outbox_keys_def [of db3])
      with I(2) grow show ?thesis
        unfolding outbox_inv_keys by (fastforce simp: distinct_map_filter)
    qed
    ultimately show ?thesis by (simp add: sync_inv_rows)
  qed
qed

lemma foldm_apply_inv:
  assumes "foldm (apply_prepared_change env) (db, report) cs = Inr (db', report')" "sync_inv db"
  shows "sync_inv db'"
  using foldm_invariant [OF assms(1), of "\<lambda>(db, r). sync_inv db"] assms(2) apply_prepared_change_inv
  by (fastforce simp: split_paired_all)


lemma apply_outbox_keys:
  assumes "apply_prepared_change env (db, report) p = Inr (db', report')"
  shows "outbox_keys db' = outbox_keys db \<or>
    outbox_keys db' = filter (\<lambda>(c, e, s). \<not> (e = entity_of p \<and> s \<le> sc_revision (pc_change p))) (outbox_keys db)"
  using assms
proof (cases rule: apply_prepared_change_cases)
  case (ignored decision eff md st)
  then show ?thesis by (simp add: outbox_keys_def)
next
  case (applied decision eff md db2 report2 db3)
  have "outbox_keys db3 = outbox_keys db"
    using settle_outbox_keys [OF applied(5)] apply_remote_change_frame [OF applied(6)]
    by (simp add: same_sync_def outbox_keys_def)
  then show ?thesis
    by (simp add: applied(7) outbox_keys_remove entity_of_def outbox_keys_def [of "upsert_entity_state _ _ _ _ _ _"]
            outbox_keys_def [of db3])
qed

section \<open>Batches\<close>

lemma batch_Inr:
  assumes "apply_remote_batch_for_vault env vault cursor changes db = Inr (db', report)"
  obtains ordered db1 where
    "prepare_remote_batch env (env_now env (db_draws db)) changes = Inr ordered"
    "foldm (apply_prepared_change env) (db\<lparr>db_draws := db_draws db + 1\<rparr>, empty_report) ordered = Inr (db1, report)"
    "db' = db1\<lparr>db_vaults := (db_vaults db1)(vault \<mapsto> cursor)\<rparr>"
  using assms
  unfolding apply_remote_batch_for_vault_def apply_imported_changes_def apply_prepared_batch_def
  by (auto simp: vault_cursor_set_def elim!: rbind_InrE)

lemma sync_inv_cong:
  assumes "sync_inv db" "db_states db' = db_states db" "db_servers db' = db_servers db" "db_groups db' = db_groups db"
    "db_snippets db' = db_snippets db" "db_plugins db' = db_plugins db" "db_outbox db' = db_outbox db"
    "db_metadata db' = db_metadata db"
  shows "sync_inv db'"
  using assms rows_inv_cong [of db db']
  by (simp add: sync_inv_rows outbox_inv_def clock_inv_def revision_of_def)

text \<open>C10: A remote batch keeps the database consistent: primary keys and server and group names
  stay unique, exactly the rows of the domain tables have a live sync state, no row refers to a deleted
  group or server, queued changes are not newer than their entity and have distinct ids, and the clock is
  at or past every recorded revision.\<close>

theorem remote_batch_keeps_invariant:
  assumes "sync_inv db" "apply_remote_batch_for_vault env vault cursor changes db = Inr (db', report)"
  shows "sync_inv db'"
  using assms(2)
proof (rule batch_Inr)
  fix ordered db1
  assume f: "foldm (apply_prepared_change env) (db\<lparr>db_draws := db_draws db + 1\<rparr>, empty_report) ordered = Inr (db1, report)"
    and db': "db' = db1\<lparr>db_vaults := (db_vaults db1)(vault \<mapsto> cursor)\<rparr>"
  have "sync_inv (db\<lparr>db_draws := db_draws db + 1\<rparr>)" by (rule sync_inv_cong [OF assms(1)]) simp_all
  then have "sync_inv db1" by (rule foldm_apply_inv [OF f])
  then show "sync_inv db'" unfolding db' by (rule sync_inv_cong) simp_all
qed

lemma foldm_revision_of:
  assumes "foldm (apply_prepared_change env) (db, report) cs = Inr (db', report')"
  shows "revision_of db' e =
    fold (\<lambda>p ro. if entity_of p = e then newer ro (sc_revision (pc_change p)) else ro) cs (revision_of db e)"
  using assms
proof (induction cs arbitrary: db report)
  case Nil
  then show ?case by simp
next
  case (Cons p cs)
  from Cons.prems obtain db1 report1 where 1: "apply_prepared_change env (db, report) p = Inr (db1, report1)"
    "foldm (apply_prepared_change env) (db1, report1) cs = Inr (db', report')"
    by (auto elim!: rbind_InrE)
  from Cons.IH [OF 1(2)] apply_revision_of [OF 1(1)] show ?case by simp
qed

lemma newer_commute: "newer (newer ro r) s = newer (newer ro s) r"
  by (auto simp: newer_def max.commute max.left_commute split: option.splits)

text \<open>Supporting result: Devices agree on versions: the revision recorded for each entity after a run of remote
  changes is the newest of the old one and the incoming ones, whatever the name collisions, so two devices
  that start from the same recorded revisions and receive the same changes, in any order and any split
  into batches, record the same revisions.\<close>

theorem devices_agree_on_revisions:
  assumes "apply_prepared_batch env db cs = Inr (db', report)"
    and "apply_prepared_batch env' d cs' = Inr (d', report')"
    and "mset cs = mset cs'" "revision_of db = revision_of d"
  shows "revision_of db' = revision_of d'"
proof
  fix e
  let ?f = "\<lambda>p ro. if entity_of p = e then newer ro (sc_revision (pc_change p)) else ro"
  have "fold ?f cs = fold ?f cs'"
    using assms(3) by (intro fold_multiset_equiv) (auto simp: fun_eq_iff newer_commute)
  with foldm_revision_of [OF assms(1) [unfolded apply_prepared_batch_def], of e]
    foldm_revision_of [OF assms(2) [unfolded apply_prepared_batch_def], of e] assms(4)
  show "revision_of db' e = revision_of d' e" by simp
qed

lemma foldm_outbox_keys:
  assumes "foldm (apply_prepared_change env) (db, rep) cs = Inr (db', report)"
  shows "set (outbox_keys db') \<subseteq> set (outbox_keys db) \<and>
    (\<forall>c e r. (c, e, r) \<in> set (outbox_keys db) \<and> (c, e, r) \<notin> set (outbox_keys db') \<longrightarrow>
       (\<exists>p \<in> set cs. entity_of p = e \<and> r \<le> sc_revision (pc_change p)))"
  using assms
proof (induction cs arbitrary: db rep)
  case Nil
  then show ?case by simp
next
  case (Cons p cs)
  from Cons.prems obtain db1 report1 where 1: "apply_prepared_change env (db, rep) p = Inr (db1, report1)"
    "foldm (apply_prepared_change env) (db1, report1) cs = Inr (db', report)"
    by (auto elim!: rbind_InrE)
  from apply_outbox_keys [OF 1(1)] have sub: "set (outbox_keys db1) \<subseteq> set (outbox_keys db)"
    and gone: "\<And>c e r. (c, e, r) \<in> set (outbox_keys db) \<Longrightarrow> (c, e, r) \<notin> set (outbox_keys db1) \<Longrightarrow>
      entity_of p = e \<and> r \<le> sc_revision (pc_change p)" by auto
  show ?case using Cons.IH [OF 1(2)] sub gone by (meson list.set_intros order_trans subset_iff)
qed

text \<open>Supporting result: No local change is lost: a remote batch drops a queued local change only if it
  contains a change of the same entity with a revision at least as new, and it never adds to the queue.\<close>

theorem queued_change_dropped_only_by_newer:
  assumes "apply_prepared_batch env db cs = Inr (db', report)"
  shows "set (outbox_keys db') \<subseteq> set (outbox_keys db) \<and>
    (\<forall>c e r. (c, e, r) \<in> set (outbox_keys db) \<and> (c, e, r) \<notin> set (outbox_keys db') \<longrightarrow>
       (\<exists>p \<in> set cs. entity_of p = e \<and> r \<le> sc_revision (pc_change p)))"
  by (rule foldm_outbox_keys [OF assms [unfolded apply_prepared_batch_def]])

section \<open>Which content wins\<close>

lemma apply_remote_change_other_kind:
  assumes "apply_remote_change env c db = Inr db'" "sc_entity_kind c \<noteq> CommandSnippet"
  shows "db_snippets db' = db_snippets db"
proof (cases "sc_deleted c")
  case True
  with assms show ?thesis
    by (cases "sc_entity_kind c") (auto simp: apply_remote_change_def delete_domain_entity_def
        detach_server_references_def detach_group_references_def Let_def)
next
  case False
  with assms obtain p where "sc_payload c = Some p" by (auto simp: apply_remote_change_def elim!: rbind_InrE)
  with assms False show ?thesis
    by (cases "sc_entity_kind c"; cases p) (auto simp: apply_remote_change_def apply_remote_server_def
        apply_remote_group_def apply_remote_plugin_installation_def Let_def split: if_split_asm)
qed

definition snippet_content :: "sync_payload sync_change \<Rightarrow> snippet_sync_payload option" where
  "snippet_content c =
     (if sc_deleted c then None else case sc_payload c of Some (SnippetPayload s) \<Rightarrow> Some s | _ \<Rightarrow> None)"

lemma apply_remote_change_snippet:
  assumes "apply_remote_change env c db = Inr db'" "sc_entity_kind c = CommandSnippet"
  shows "map_of (db_snippets db') = (map_of (db_snippets db))(sc_entity_id c := snippet_content c)"
proof (cases "sc_deleted c")
  case True
  with assms show ?thesis
    by (auto simp: apply_remote_change_def delete_domain_entity_def snippet_content_def delete_conv')
next
  case False
  with assms obtain p where p: "sc_payload c = Some p" by (auto simp: apply_remote_change_def elim!: rbind_InrE)
  with assms False show ?thesis
    by (cases p) (auto simp: apply_remote_change_def apply_remote_snippet_def snippet_content_def update_conv')
qed

lemma settle_snippets:
  assumes "settle_collision env d c cur pend (db, report) = Inr (db2, report2)"
    and "\<And>j st. d = IncomingWins j st \<Longrightarrow> sc_entity_kind c \<noteq> CommandSnippet"
  shows "db_snippets db2 = db_snippets db"
proof (cases d)
  case NoCollision
  from settle_NoCollision [OF assms(1) [unfolded NoCollision]] show ?thesis by simp
next
  case (ExistingWins j st)
  from credentials_only [OF settle_ExistingWins [OF assms(1) [unfolded ExistingWins]]] show ?thesis by simp
next
  case (IncomingWins j st)
  from settle_IncomingWins [OF assms(1) [unfolded IncomingWins]] show ?thesis
  proof (rule materialize_Inr)
    fix payload original cp name db1 cs
    assume a: "apply_remote_change env (conflict_materialization (sc_entity_kind c) j (es_revision st) cp) db = Inr db1"
      and d: "db2 = upsert_entity_state (rewrite_pending_conflict_names (sc_entity_kind c) j original name
          (db1\<lparr>db_credentials := cs\<rparr>)) (sc_entity_kind c) j (es_revision st) False
          (canonical_content_hash env (sc_entity_kind c) j False (Some cp))"
    from apply_remote_change_other_kind [OF a] assms(2) [OF IncomingWins] show ?thesis
      by (simp add: d conflict_materialization_def)
  qed
qed

lemma apply_snippet_row:
  assumes "apply_prepared_change env (db, report) p = Inr (db', report')"
  shows "map_of (db_snippets db') i =
    (if entity_of p = (CommandSnippet, i) \<and>
        (\<forall>r. revision_of db (CommandSnippet, i) = Some r \<longrightarrow> r < sc_revision (pc_change p))
     then snippet_content (pc_change p) else map_of (db_snippets db) i)"
  using assms
proof (cases rule: apply_prepared_change_cases)
  case (ignored decision eff md st)
  then have "\<not> (entity_of p = (CommandSnippet, i) \<and>
      (\<forall>r. revision_of db (CommandSnippet, i) = Some r \<longrightarrow> r < sc_revision (pc_change p)))"
    by (auto simp: entity_of_def revision_of_def entity_state_of_def)
  then show ?thesis by (simp only: ignored(7) if_False) simp
next
  case (applied decision eff md db2 report2 db3)
  note eff = effective_fields [OF applied(2)]
  have "db_snippets db2 = db_snippets db"
    using settle_snippets [OF applied(5)] resolve_Inr [OF applied(1)] name_contender_Some(2) eff by fastforce
  moreover have "map_of (db_snippets db3) i =
      (if entity_of p = (CommandSnippet, i) then snippet_content (pc_change p) else map_of (db_snippets db2) i)"
  proof (cases "sc_entity_kind (pc_change p) = CommandSnippet")
    case True
    with resolve_Inr [OF applied(1)] have "decision = NoCollision"
      using name_contender_Some(2) by fastforce
    with applied(2) have "eff = p" by simp
    with apply_remote_change_snippet [OF applied(6)] True show ?thesis by (auto simp: entity_of_def)
  next
    case False
    with apply_remote_change_other_kind [OF applied(6)] eff show ?thesis by (simp add: entity_of_def)
  qed
  moreover have "entity_of p = (CommandSnippet, i) \<Longrightarrow>
      (\<forall>r. revision_of db (CommandSnippet, i) = Some r \<longrightarrow> r < sc_revision (pc_change p))"
    using applied(4) by (auto simp: entity_of_def revision_of_def entity_state_of_def)
  ultimately show ?thesis by (auto simp: applied(7))
qed

text \<open>Supporting result: Last writer wins on content: after a batch, the row of a command snippet is the content
  of the change with the newest revision for it (absent if that change is a deletion), whatever the order
  of the batch and whatever else it contains.\<close>

theorem newest_snippet_wins:
  assumes "apply_prepared_batch env db cs = Inr (db', report)"
    and "p \<in> set cs" "entity_of p = (CommandSnippet, i)"
    and "\<And>q. q \<in> set cs \<Longrightarrow> entity_of q = (CommandSnippet, i) \<Longrightarrow> q = p \<or> sc_revision (pc_change q) < sc_revision (pc_change p)"
    and "\<And>r. revision_of db (CommandSnippet, i) = Some r \<Longrightarrow> r < sc_revision (pc_change p)"
  shows "map_of (db_snippets db') i = snippet_content (pc_change p)"
proof -
  let ?e = "(CommandSnippet, i)" and ?r = "sc_revision (pc_change p)"
  have "map_of (db_snippets db') i = snippet_content (pc_change p)"
    if "foldm (apply_prepared_change env) (db, rep) xs = Inr (db', report)" "set xs \<subseteq> set cs"
      "p \<in> set xs \<and> (\<forall>r. revision_of db ?e = Some r \<longrightarrow> r < ?r) \<or>
       revision_of db ?e = Some ?r \<and> map_of (db_snippets db) i = snippet_content (pc_change p)"
    for db rep xs
    using that
  proof (induction xs arbitrary: db rep)
    case Nil
    then show ?case by simp
  next
    case (Cons q xs)
    from Cons.prems(1) obtain db1 rep1 where 1: "apply_prepared_change env (db, rep) q = Inr (db1, rep1)"
      "foldm (apply_prepared_change env) (db1, rep1) xs = Inr (db', report)" by (auto elim!: rbind_InrE)
    note row = apply_snippet_row [OF 1(1), of i] and rev = apply_revision_of [OF 1(1)]
    have q: "q = p \<or> entity_of q \<noteq> ?e \<or> sc_revision (pc_change q) < ?r" using assms(4) Cons.prems(2) by auto
    have "p \<in> set xs \<and> (\<forall>r. revision_of db1 ?e = Some r \<longrightarrow> r < ?r) \<or>
       revision_of db1 ?e = Some ?r \<and> map_of (db_snippets db1) i = snippet_content (pc_change p)"
      using Cons.prems(3)
    proof
      assume new: "p \<in> set (q # xs) \<and> (\<forall>r. revision_of db ?e = Some r \<longrightarrow> r < ?r)"
      show ?thesis
      proof (cases "q = p")
        case True
        with new have "newer (revision_of db ?e) ?r = Some ?r"
          by (auto simp: newer_def max_absorb2 less_imp_le split: option.splits)
        with True new row rev assms(3) show ?thesis by simp
      next
        case False
        with new q rev have "\<forall>r. revision_of db1 ?e = Some r \<longrightarrow> r < ?r"
          by (auto simp: newer_def split: option.splits if_split_asm)
        with False new show ?thesis by simp
      qed
    next
      assume old: "revision_of db ?e = Some ?r \<and> map_of (db_snippets db) i = snippet_content (pc_change p)"
      have le: "entity_of q = ?e \<Longrightarrow> sc_revision (pc_change q) \<le> ?r" using q by (auto simp: less_imp_le)
      have "revision_of db1 ?e = Some ?r"
      proof (cases "entity_of q = ?e")
        case True
        with old le show ?thesis by (simp add: rev newer_def max_absorb1)
      next
        case False
        with old show ?thesis by (simp add: rev)
      qed
      moreover have "map_of (db_snippets db1) i = map_of (db_snippets db) i"
        unfolding row using old le by (auto simp: not_less)
      ultimately show ?thesis using old by simp
    qed
    with Cons.IH [OF 1(2)] Cons.prems(2) show ?case by simp
  qed
  from this [OF assms(1) [unfolded apply_prepared_batch_def]] assms(2,5) show ?thesis by blast
qed

end
