(* ===== verification/Sync_Local.thy ===== *)
theory Sync_Local
  imports Sync_Apply
begin

text \<open>
  Properties of the local side of the sync storage: capture of local changes, the start of the
  storage, activation of a vault, acknowledgement and pending uploads, and concrete runs.
\<close>

section \<open>Capturing a local change\<close>

lemma record_local_change_Inr:
  assumes "record_local_change env k i deleted payload db = Inr (rv, db')"
  obtains md o' where
    "next_revision (env_now env (db_draws db)) (db_metadata db) = Inr (rv, md)"
    "db' = (upsert_entity_state (db\<lparr>db_metadata := md, db_draws := db_draws db + 3\<rparr>) k i rv deleted
        (canonical_content_hash env k i deleted payload))\<lparr>db_outbox := db_outbox db @ [o']\<rparr>"
    "ob_kind o' = k" "ob_entity_id o' = i" "ob_revision o' = rv" "ob_deleted o' = deleted" "ob_payload o' = payload"
    "ob_change_id o' = env_uuid env (db_draws db + 1)" "ob_change_id o' \<notin> ob_change_id ` set (db_outbox db)"
    "deleted \<longleftrightarrow> payload = None" "\<And>p. payload = Some p \<Longrightarrow> kind_of p = k" "i \<noteq> []"
proof -
  have n: "payload' = payload \<and> (deleted \<longleftrightarrow> payload = None) \<and> (\<forall>p. payload = Some p \<longrightarrow> kind_of p = k)"
    if "normalize_payload typed_value k deleted payload = Inr payload'" for payload'
    using that by (auto simp: normalize_payload_def typed_value_def elim!: rbind_InrE split: if_split_asm)
  from assms have "i \<noteq> []" by (auto simp: record_local_change_def)
  with assms show thesis
    unfolding record_local_change_def Let_def if_not_P [OF \<open>i \<noteq> []\<close>]
  proof (elim rbind_InrE, goal_cases)
    case (1 payload' issued)
    note p = n [OF 1(2)]
    obtain r1 md1 where issued: "issued = (r1, md1)" by (cases issued)
    from 1(3,4) obtain md where md: "next_revision (env_now env (db_draws db)) (db_metadata db) = Inr (rv, md)"
      and ins: "insert_outbox
            \<lparr>ob_change_id = env_uuid env (db_draws db + 1), ob_schema_version = sync_change_schema_version, ob_kind = k,
             ob_entity_id = i, ob_revision = rv, ob_deleted = deleted, ob_payload = payload,
             ob_created_at = env_now env (db_draws db + 2)\<rparr>
          (upsert_entity_state (db\<lparr>db_metadata := md, db_draws := db_draws db + 3\<rparr>) k i rv deleted
            (canonical_content_hash env k i deleted payload)) = Inr db'"
      using p by (auto simp: issued elim!: rbind_InrE)
    show ?case
      by (rule that [OF md, of "\<lparr>ob_change_id = env_uuid env (db_draws db + 1),
          ob_schema_version = sync_change_schema_version, ob_kind = k, ob_entity_id = i, ob_revision = rv,
          ob_deleted = deleted, ob_payload = payload, ob_created_at = env_now env (db_draws db + 2)\<rparr>"])
        (use ins p 1(1) in \<open>auto simp: insert_outbox_def split: if_split_asm\<close>)
  qed
qed

lemma record_revision_of:
  assumes "record_local_change env k i deleted payload db = Inr (rv, db')"
  shows "revision_of db' = (revision_of db)((k, i) \<mapsto> rv)"
  using assms by (rule record_local_change_Inr) (auto simp: revision_of_def fun_eq_iff)

lemma clock_inv_newest:
  assumes "clock_inv db" "next_revision now (db_metadata db) = Inr (rv, md)" "now \<le> i64_max"
  shows "\<exists>L m. clock_at md L \<and> revision_millis rv = Inr m \<and> m \<le> L \<and>
    (\<forall>e r. revision_of db e = Some r \<longrightarrow> r < rv \<and> (\<exists>n \<le> L. revision_millis r = Inr n))"
proof -
  from assms(1) obtain L where L: "clock_at (db_metadata db) L"
    "\<And>e s. revision_of db e = Some s \<Longrightarrow> \<exists>m. revision_millis s = Inr m \<and> m \<le> L" unfolding clock_inv_def by blast
  let ?M = "max now (L + 1)"
  from next_revision_Inr [OF assms(2) L(1) assms(3)] have M: "clock_at md ?M" "revision_millis rv = Inr ?M" "L < ?M" by auto
  have "r < rv \<and> (\<exists>n \<le> ?M. revision_millis r = Inr n)" if "revision_of db e = Some r" for e r
  proof -
    from L(2) [OF that] obtain m where m: "revision_millis r = Inr m" "m \<le> L" by blast
    with revision_less [OF m(1) M(2)] M(3) show ?thesis by force
  qed
  with M show ?thesis by blast
qed

text \<open>Supporting result: A local edit always wins over what the device has seen: the revision given to a
  captured change is greater than every revision recorded for any entity, it becomes the entity's
  revision, and exactly one outbox row carrying it and the payload is queued behind the others.\<close>

theorem local_change_is_newest:
  assumes "clock_inv db" "record_local_change env k i deleted payload db = Inr (rv, db')"
    and "env_now env (db_draws db) \<le> i64_max"
  shows "(\<forall>e r. revision_of db e = Some r \<longrightarrow> r < rv) \<and>
    revision_of db' = (revision_of db)((k, i) \<mapsto> rv) \<and>
    (\<exists>o'. db_outbox db' = db_outbox db @ [o'] \<and> ob_kind o' = k \<and> ob_entity_id o' = i \<and>
       ob_revision o' = rv \<and> ob_deleted o' = deleted \<and> ob_payload o' = payload)"
  using assms(2)
proof (rule record_local_change_Inr)
  fix md o'
  assume "next_revision (env_now env (db_draws db)) (db_metadata db) = Inr (rv, md)"
  from clock_inv_newest [OF assms(1) this assms(3)] record_revision_of [OF assms(2)] assms(2) show ?thesis
    by (auto elim!: record_local_change_Inr)
qed

text \<open>Recording after the domain tables have been changed accordingly.\<close>

lemma record_local_change_inv:
  assumes "tables_inv db" "refs_avoid (tombstones db) db" "outbox_inv db" "clock_inv db"
    and "record_local_change env k i deleted payload db = Inr (rv, db')"
    and "env_now env (db_draws db) \<le> i64_max"
    and "deleted \<Longrightarrow> refs_avoid {(k, i)} db"
    and "\<And>e. e \<noteq> (k, i) \<Longrightarrow> e \<in> present db \<longleftrightarrow> (\<exists>st. map_of (db_states db) e = Some st \<and> \<not> es_deleted st)"
    and "(k, i) \<in> present db \<longleftrightarrow> \<not> deleted"
  shows "sync_inv db'"
  using assms(5)
proof (rule record_local_change_Inr)
  fix md o'
  assume n: "next_revision (env_now env (db_draws db)) (db_metadata db) = Inr (rv, md)"
    and db': "db' = (upsert_entity_state (db\<lparr>db_metadata := md, db_draws := db_draws db + 3\<rparr>) k i rv deleted
        (canonical_content_hash env k i deleted payload))\<lparr>db_outbox := db_outbox db @ [o']\<rparr>"
    and o': "ob_kind o' = k" "ob_entity_id o' = i" "ob_revision o' = rv"
      "ob_change_id o' \<notin> ob_change_id ` set (db_outbox db)"
  from clock_inv_newest [OF assms(4) n assms(6)] obtain L m where L: "clock_at md L" "revision_millis rv = Inr m" "m \<le> L"
    "\<And>e r. revision_of db e = Some r \<Longrightarrow> r < rv \<and> (\<exists>n \<le> L. revision_millis r = Inr n)" by blast
  note rv = record_revision_of [OF assms(5)]
  have s: "map_of (db_states db') = (map_of (db_states db))((k, i) \<mapsto> \<lparr>es_revision = rv,
      es_content_hash = canonical_content_hash env k i deleted payload, es_deleted = deleted\<rparr>)" by (simp add: db')
  have D: "present db' = present db" "\<And>E. refs_avoid E db' = refs_avoid E db" "tables_inv db'"
    using domain_only_cong [of db' db] assms(1)
    by (simp_all add: db' upsert_entity_state_def tables_inv_def distinct_update)
  have "refs_avoid (tombstones db') db'"
    unfolding D(2) tombstones_update [OF s] using assms(2,7) unfolding refs_avoid_def by auto
  moreover have "tracked db'" unfolding tracked_iff D(1) s using assms(8,9) by auto
  moreover have "outbox_inv db'"
    using assms(3) o' L(4) unfolding outbox_inv_def rv by (fastforce simp: db' less_imp_le)
  moreover have "clock_inv db'"
  proof -
    have "\<exists>n. revision_millis r = Inr n \<and> n \<le> L" if "revision_of db e = Some r" for e r
      using L(4) [of e r] that by blast
    with L(1-3) show ?thesis unfolding clock_inv_def rv by (intro exI [of _ L]) (simp add: db')
  qed
  ultimately show ?thesis using D(3) by (simp add: sync_inv_def)
qed

lemma record_current_upsert_inv:
  assumes "sync_inv db" "record_current_upsert env k i db = Inr db'" "env_now env (db_draws db) \<le> i64_max"
  shows "sync_inv db'"
proof -
  from assms(2) obtain p rv where p: "current_domain_payload db k i = Some p"
    and r: "record_local_change env k i False (Some p) db = Inr (rv, db')"
    by (auto simp: record_current_upsert_def record_local_upsert_def map_sum_def elim!: rbind_InrE split: sum.splits)
  have "(k, i) \<in> present db" using p by (simp add: present_def)
  with assms(1) show ?thesis
    by (intro record_local_change_inv [OF _ _ _ _ r assms(3)]) (auto simp: sync_inv_def tracked_iff)
qed

section \<open>Re-recording\<close>

definition same_domain :: "sync_db \<Rightarrow> sync_db \<Rightarrow> bool" where
  "same_domain db db' \<longleftrightarrow> db_servers db' = db_servers db \<and> db_groups db' = db_groups db \<and>
     db_snippets db' = db_snippets db \<and> db_plugins db' = db_plugins db"

lemma same_domain_payload: "same_domain db db' \<Longrightarrow> current_domain_payload db' = current_domain_payload db"
  by (auto simp: same_domain_def current_domain_payload_def fun_eq_iff split: sync_entity_kind.splits)

lemma same_domain_trans: "same_domain a b \<Longrightarrow> same_domain b c \<Longrightarrow> same_domain a c"
  by (simp add: same_domain_def)

lemma record_local_change_step:
  assumes "record_local_change env k i deleted payload db = Inr (rv, db')"
  shows "same_domain db db' \<and> (distinct (map fst (db_states db)) \<longrightarrow> distinct (map fst (db_states db'))) \<and>
    (\<exists>o' h. db_outbox db' = db_outbox db @ [o'] \<and>
       map_of (db_states db') = (map_of (db_states db))((k, i) \<mapsto> \<lparr>es_revision = rv, es_content_hash = h, es_deleted = deleted\<rparr>) \<and>
       (ob_kind o', ob_entity_id o') = (k, i) \<and> ob_revision o' = rv \<and> ob_deleted o' = deleted \<and> ob_payload o' = payload)"
  using assms
  by (rule record_local_change_Inr)
     (auto simp: same_domain_def upsert_entity_state_def distinct_update update_conv')

lemma rerecord_step:
  assumes "rerecord env db ((k, i), st) = Inr db'"
  shows "same_domain db db' \<and> (distinct (map fst (db_states db)) \<longrightarrow> distinct (map fst (db_states db'))) \<and>
    (\<exists>o' h. db_outbox db' = db_outbox db @ [o'] \<and>
       map_of (db_states db') = (map_of (db_states db))((k, i) \<mapsto>
         \<lparr>es_revision = ob_revision o', es_content_hash = h, es_deleted = es_deleted st\<rparr>) \<and>
       (ob_kind o', ob_entity_id o') = (k, i) \<and> ob_deleted o' = es_deleted st \<and>
       ob_payload o' = (if es_deleted st then None else current_domain_payload db k i))"
proof -
  from assms obtain rv where "record_local_change env k i (es_deleted st)
      (if es_deleted st then None else current_domain_payload db k i) db = Inr (rv, db')"
    by (auto simp: rerecord_def record_local_delete_def record_current_upsert_def record_local_upsert_def map_sum_def
        elim!: rbind_InrE split: if_split_asm sum.splits)
  from record_local_change_step [OF this] show ?thesis by auto
qed

abbreviation "entity_key o' \<equiv> (ob_kind o', ob_entity_id o')"

lemma rerecord_all:
  assumes "foldm (rerecord env) db xs = Inr db'" "distinct (map fst xs)"
  shows "same_domain db db' \<and>
    (\<exists>os. db_outbox db' = db_outbox db @ os \<and> map entity_key os = map fst xs \<and>
      (\<forall>e. e \<notin> set (map fst xs) \<longrightarrow> map_of (db_states db') e = map_of (db_states db) e) \<and>
      (\<forall>o' \<in> set os. revision_of db' (entity_key o') = Some (ob_revision o') \<and>
         (entity_key o', ob_deleted o') \<in> (\<lambda>(e, st). (e, es_deleted st)) ` set xs \<and>
         ob_payload o' = (if ob_deleted o' then None else current_domain_payload db (ob_kind o') (ob_entity_id o'))))"
  using assms
proof (induction xs arbitrary: db)
  case Nil
  then show ?case by (simp add: same_domain_def)
next
  case (Cons x xs)
  obtain k i st where x: "x = ((k, i), st)" by (cases x) auto
  from Cons.prems(1) obtain db1 where 1: "rerecord env db ((k, i), st) = Inr db1" "foldm (rerecord env) db1 xs = Inr db'"
    by (auto simp: x elim!: rbind_InrE)
  from rerecord_step [OF 1(1)] obtain o1 h where o1: "same_domain db db1" "db_outbox db1 = db_outbox db @ [o1]"
    "map_of (db_states db1) = (map_of (db_states db))((k, i) \<mapsto>
         \<lparr>es_revision = ob_revision o1, es_content_hash = h, es_deleted = es_deleted st\<rparr>)"
    "entity_key o1 = (k, i)" "ob_deleted o1 = es_deleted st"
    "ob_payload o1 = (if es_deleted st then None else current_domain_payload db k i)" by blast
  from Cons.IH [OF 1(2)] Cons.prems(2) obtain os where os: "same_domain db1 db'" "db_outbox db' = db_outbox db1 @ os"
    "map entity_key os = map fst xs"
    "\<And>e. e \<notin> set (map fst xs) \<Longrightarrow> map_of (db_states db') e = map_of (db_states db1) e"
    "\<And>o'. o' \<in> set os \<Longrightarrow> revision_of db' (entity_key o') = Some (ob_revision o') \<and>
         (entity_key o', ob_deleted o') \<in> (\<lambda>(e, st). (e, es_deleted st)) ` set xs \<and>
         ob_payload o' = (if ob_deleted o' then None else current_domain_payload db1 (ob_kind o') (ob_entity_id o'))"
    by auto
  have "(k, i) \<notin> set (map fst xs)" using Cons.prems(2) by (simp add: x)
  then have "revision_of db' (entity_key o1) = Some (ob_revision o1)"
    using os(4) [of "(k, i)"] o1(3,4) by (simp add: revision_of_def)
  with o1 os same_domain_payload [OF o1(1)] same_domain_trans [OF o1(1) os(1)] show ?case
    by (intro conjI exI [of _ "o1 # os"]) (auto simp: x)
qed

lemma bootstrap_keeps:
  assumes "bootstrap_existing_rows env db = Inr db'"
  shows "same_domain db db' \<and> (distinct (map fst (db_states db)) \<longrightarrow> distinct (map fst (db_states db')))"
proof -
  let ?I = "\<lambda>d0 d. same_domain d0 d \<and> (distinct (map fst (db_states d0)) \<longrightarrow> distinct (map fst (db_states d)))"
  have u: "?I d d'" if "bootstrap_untracked env k d x = Inr d'" for k d x d'
    using that record_local_change_step
    by (fastforce simp: bootstrap_untracked_def record_local_upsert_def map_sum_def same_domain_def
        split: prod.splits if_split_asm sum.splits)
  have c: "?I d d'" if "record_current_upsert env k i d = Inr d'" for k d i d'
    using that record_local_change_step
    by (fastforce simp: record_current_upsert_def record_local_upsert_def map_sum_def
        elim!: rbind_InrE split: sum.splits)
  have tr: "?I a b \<Longrightarrow> ?I b c \<Longrightarrow> ?I a c" for a b c by (auto simp: same_domain_def)
  have fu: "?I d d'" if "foldm (bootstrap_untracked env k) d xs = Inr d'" for k d xs d'
    by (rule foldm_invariant [OF that, of "?I d"]) (use u tr in \<open>blast intro: same_domain_def [THEN iffD2]\<close>)+
  have fc: "?I d d'" if "foldm (\<lambda>d i. record_current_upsert env k i d) d xs = Inr d'" for k d xs d'
    by (rule foldm_invariant [OF that, of "?I d"]) (use c tr in \<open>blast intro: same_domain_def [THEN iffD2]\<close>)+
  from assms show ?thesis
    unfolding bootstrap_existing_rows_def bootstrap_servers_def bootstrap_groups_def bootstrap_snippets_def
      bootstrap_plugin_installations_def
  proof (elim rbind_InrE)
    fix d1 d2 d3
    assume "foldm (bootstrap_untracked env Server) db (map (\<lambda>(i, r). (i, ServerPayload (server_payload_of_row r))) (db_servers db)) = Inr d1"
      "foldm (bootstrap_untracked env Group) d1 (map (\<lambda>(i, g). (i, GroupPayload g)) (db_groups d1)) = Inr d2"
      "foldm (bootstrap_untracked env CommandSnippet) d2 (map (\<lambda>(i, p). (i, SnippetPayload p)) (db_snippets d2)) = Inr d3"
      "foldm (\<lambda>d i. record_current_upsert env PluginInstallation i d) d3 (sort (map fst (db_plugins d3))) = Inr db'"
    from fu [OF this(1)] fu [OF this(2)] fu [OF this(3)] fc [OF this(4)] show ?thesis using tr by blast
  qed
qed

text \<open>Supporting result: Activating a vault queues the complete state: after a switch to another vault the
  outbox holds exactly one row per tracked entity, carrying the entity's current revision and its current
  row, or a tombstone if it was deleted, in the order of the table; activating the active vault changes
  nothing.\<close>

theorem activation_queues_complete_state:
  assumes "activate_vault env vault db = Inr (changed, db')" "distinct (map fst (db_states db))"
  shows "(changed \<longleftrightarrow> active_vault_id db \<noteq> Some vault) \<and> active_vault_id db' = Some vault \<and>
    (\<not> changed \<longrightarrow> db' = db) \<and>
    (changed \<longrightarrow> sorted (map entity_key (db_outbox db')) \<and> distinct (map entity_key (db_outbox db')) \<and>
       set (map entity_key (db_outbox db')) = dom (map_of (db_states db')) \<and>
       (\<forall>o' \<in> set (db_outbox db'). revision_of db' (entity_key o') = Some (ob_revision o') \<and>
         ob_payload o' = (if ob_deleted o' then None else current_domain_payload db' (ob_kind o') (ob_entity_id o'))))"
proof (cases "active_vault_id db = Some vault")
  case True
  with assms(1) show ?thesis by (auto simp: activate_vault_def active_vault_id_def elim!: rbind_InrE)
next
  case False
  with assms(1) obtain d2 where d2: "rebuild_full_outbox env db = Inr d2" "changed"
    "db' = d2\<lparr>db_metadata := metadata_set (db_metadata d2) active_vault_id_key vault\<rparr>"
    by (auto simp: activate_vault_def active_vault_id_def elim!: rbind_InrE split: if_split_asm)
  from d2(1) obtain d1 where d1: "bootstrap_existing_rows env db = Inr d1"
    "foldm (rerecord env) (d1\<lparr>db_outbox := []\<rparr>) (sort_key fst (db_states d1)) = Inr d2"
    by (auto simp: rebuild_full_outbox_def elim!: rbind_InrE)
  let ?xs = "sort_key fst (db_states d1)"
  have dist: "distinct (map fst (db_states d1))" using bootstrap_keeps [OF d1(1)] assms(2) by blast
  then have dx: "distinct (map fst ?xs)" by (metis distinct_map distinct_sort set_sort)
  have pl: "current_domain_payload (d1\<lparr>db_outbox := []\<rparr>) = current_domain_payload d1"
    by (rule same_domain_payload) (simp add: same_domain_def)
  from rerecord_all [OF d1(2) dx, unfolded pl] obtain os where os: "same_domain d1 d2" "db_outbox d2 = os"
    "map entity_key os = map fst ?xs"
    "\<And>e. e \<notin> set (map fst ?xs) \<Longrightarrow> map_of (db_states d2) e = map_of (db_states d1) e"
    "\<And>o'. o' \<in> set os \<Longrightarrow> revision_of d2 (entity_key o') = Some (ob_revision o') \<and>
         ob_payload o' = (if ob_deleted o' then None else current_domain_payload d1 (ob_kind o') (ob_entity_id o'))"
    by (auto simp: same_domain_def)
  have "dom (map_of (db_states d2)) = set (map entity_key os)"
  proof (intro set_eqI iffI)
    fix e assume "e \<in> dom (map_of (db_states d2))"
    show "e \<in> set (map entity_key os)"
    proof (rule ccontr)
      assume n: "e \<notin> set (map entity_key os)"
      then have "map_of (db_states d2) e = map_of (db_states d1) e" "map_of (db_states d1) e = None"
        using os(4) [of e] unfolding os(3) by (simp_all add: map_of_eq_None_iff)
      with \<open>e \<in> dom (map_of (db_states d2))\<close> show False by auto
    qed
  next
    fix e assume "e \<in> set (map entity_key os)"
    with os(5) show "e \<in> dom (map_of (db_states d2))" by (force simp: revision_of_def)
  qed
  moreover have "sorted (map fst ?xs)" by simp
  moreover have "current_domain_payload db' = current_domain_payload d1"
    using os(1) by (intro same_domain_payload) (simp add: d2(3) same_domain_def)
  ultimately show ?thesis
    using False d2(2,3) os dx by (simp add: active_vault_id_def md.get_put revision_of_def)
qed

section \<open>Acknowledgement\<close>

lemma delete_changes_eq:
  "delete_changes ids db =
     (length (filter (\<lambda>o'. ob_change_id o' \<in> set ids) (db_outbox db)),
      db\<lparr>db_outbox := filter (\<lambda>o'. ob_change_id o' \<notin> set ids) (db_outbox db)\<rparr>)"
proof (induction ids arbitrary: db)
  case Nil
  then show ?case by simp
next
  case (Cons i ids)
  have "length (filter (\<lambda>o'. ob_change_id o' = i) xs) +
      length (filter (\<lambda>o'. ob_change_id o' \<in> set ids \<and> ob_change_id o' \<noteq> i) xs) =
      length (filter (\<lambda>o'. ob_change_id o' = i \<or> ob_change_id o' \<in> set ids) xs)" for xs
    by (induction xs) auto
  then show ?case using Cons by (simp add: Let_def conj_commute)
qed

text \<open>Supporting result: An acknowledged upload removes exactly what was uploaded: the queued changes listed in
  the pending upload leave the outbox and are counted, changes queued since then stay, the upload of this
  vault is forgotten and uploads of other vaults are kept; an acknowledgement for another envelope is
  refused, and one for a vault without pending upload changes nothing.\<close>

theorem acknowledged_upload_removes_exactly:
  assumes "acknowledge_pending_upload vault envelope db = Inr (n, db')"
  shows "case db_uploads db vault of
      None \<Rightarrow> n = 0 \<and> db' = db
    | Some u \<Rightarrow> pu_envelope_id u = envelope \<and>
        db_outbox db' = filter (\<lambda>o'. ob_change_id o' \<notin> set (pu_change_ids u)) (db_outbox db) \<and>
        length (db_outbox db) = n + length (db_outbox db') \<and>
        db_uploads db' = (db_uploads db)(vault := None) \<and> db_states db' = db_states db"
proof (cases "db_uploads db vault")
  case None
  with assms show ?thesis by (auto simp: acknowledge_pending_upload_def pending_upload_get_def elim!: rbind_InrE)
next
  case (Some u)
  have "length xs = length (filter P xs) + length (filter (\<lambda>x. \<not> P x) xs)" for P and xs :: "outbox_row list"
    by (induction xs) auto
  with assms Some show ?thesis
    by (auto simp: acknowledge_pending_upload_def pending_upload_get_def delete_changes_eq
        elim!: rbind_InrE split: if_split_asm)
qed

section \<open>Concrete runs\<close>

definition sample_env :: "sync_payload sync_env" where
  "sample_env =
     \<lparr>env_now = (\<lambda>n. 9), env_uuid = (\<lambda>n. CHR ''u'' # show_nat n), env_sha256_hex = (\<lambda>s. s),
      env_to_vec = (\<lambda>p. case p of GroupPayload g \<Rightarrow> gp_name g | SnippetPayload s \<Rightarrow> np_command s
                    | ServerPayload s \<Rightarrow> sp_name s | PluginPayload q \<Rightarrow> pp_settings_json q),
      env_de_server = (\<lambda>p. case p of ServerPayload s \<Rightarrow> Some s | _ \<Rightarrow> None),
      env_de_group = (\<lambda>p. case p of GroupPayload g \<Rightarrow> Some g | _ \<Rightarrow> None),
      env_de_snippet = (\<lambda>p. case p of SnippetPayload s \<Rightarrow> Some s | _ \<Rightarrow> None),
      env_de_plugin = (\<lambda>p. case p of PluginPayload q \<Rightarrow> Some q | _ \<Rightarrow> None),
      env_manifest_permissions = (\<lambda>m. None), env_builtin_catalog = Some [],
      env_encode_permissions = (\<lambda>ps. ''[]'')\<rparr>"

definition sample_db :: sync_db where
  "sample_db =
     \<lparr>db_metadata = sample_metadata, db_states = [], db_outbox = [], db_vaults = Map.empty,
      db_uploads = Map.empty, db_servers = [], db_groups = [], db_snippets = [], db_plugins = [],
      db_credentials = None, db_draws = 0\<rparr>"

definition group_change :: "string \<Rightarrow> string \<Rightarrow> string \<Rightarrow> string \<Rightarrow> sync_payload sync_change" where
  "group_change change_id i revision name =
     \<lparr>sc_schema_version = 1, sc_change_id = change_id, sc_entity_kind = Group, sc_entity_id = i,
      sc_revision = revision, sc_deleted = False,
      sc_payload = Some (GroupPayload \<lparr>gp_name = name, gp_parent_id = None, gp_color = ''#808080''\<rparr>)\<rparr>"

definition snippet_change :: "string \<Rightarrow> string \<Rightarrow> string \<Rightarrow> string \<Rightarrow> sync_payload sync_change" where
  "snippet_change change_id i revision command =
     \<lparr>sc_schema_version = 1, sc_change_id = change_id, sc_entity_kind = CommandSnippet, sc_entity_id = i,
      sc_revision = revision, sc_deleted = False,
      sc_payload = Some (SnippetPayload \<lparr>np_name = ''n'', np_command = command, np_category = [],
        np_description = [], np_tags = [], np_created_at = 1, np_updated_at = 2\<rparr>)\<rparr>"

definition collision_batch :: "sync_payload sync_change list" where
  "collision_batch =
     [group_change ''c1'' ''A'' ''00000000000000000001:a'' ''x'',
      group_change ''c2'' ''B'' ''00000000000000000002:b'' ''x'',
      group_change ''c3'' ''B'' ''00000000000000000003:b'' ''y'']"

text \<open>Supporting result: Applying remote changes is not idempotent after a name collision: a device that received
  the groups A and B with the same name renames A; once B has been renamed on its own, delivering the
  original change of A again (a repeated page, a restored backup) no longer meets a collision, its content
  differs from the renamed one under the same revision, and the whole batch is refused.\<close>

theorem redelivery_after_conflict_rename_fails:
  "case apply_imported_changes sample_env collision_batch sample_db of
     Inl _ \<Rightarrow> False
   | Inr (db, report) \<Rightarrow>
       rr_applied report = 3 \<and>
       (case apply_imported_changes sample_env (take 1 collision_batch) db of
          Inl e \<Rightarrow> e = EqualRevisionDiffers Group ''A''
        | Inr _ \<Rightarrow> False)"
  by code_simp


definition plugin_db :: sync_db where
  "plugin_db = sample_db\<lparr>db_plugins :=
     [(''docker'', \<lparr>pr_version = ''1'', pr_manifest_json = ''{}'', pr_source = ''builtin'', pr_enabled = True,
        pr_granted_permissions_json = ''[]'', pr_settings_json = ''{}'', pr_installed_at = 1, pr_updated_at = 1\<rparr>)],
     db_snippets := [(''s'', \<lparr>np_name = ''n'', np_command = ''ls'', np_category = [], np_description = [],
        np_tags = [], np_created_at = 1, np_updated_at = 2\<rparr>)]\<rparr>"

text \<open>Supporting result: Restarting re-announces every plugin: starting the storage records a new revision and a new
  outbox row for each plugin installation even though nothing changed, while the other tables are recorded
  only once, so a device that merely restarts overrides a newer plugin state of another device that it has
  not seen.\<close>

theorem restart_rerecords_plugins:
  "case initialize sample_env plugin_db of
     Inl _ \<Rightarrow> False
   | Inr db1 \<Rightarrow>
       (case initialize sample_env db1 of
          Inl _ \<Rightarrow> False
        | Inr db2 \<Rightarrow>
            (case (revision_of db1 (PluginInstallation, ''docker''), revision_of db2 (PluginInstallation, ''docker'')) of
               (Some r, Some s) \<Rightarrow> r < s | _ \<Rightarrow> False) \<and>
            length (filter (\<lambda>o'. ob_kind o' = PluginInstallation) (db_outbox db2)) = 2 \<and>
            revision_of db2 (CommandSnippet, ''s'') = revision_of db1 (CommandSnippet, ''s'') \<and>
            length (filter (\<lambda>o'. ob_kind o' = CommandSnippet) (db_outbox db2)) = 1)"
  by code_simp

section \<open>The properties at work\<close>

lemma is_ok_obtain:
  assumes "is_ok r"
  obtains x where "r = Inr x"
  using assms by (cases r) auto

lemma sample_inv: "sync_inv sample_db"
proof -
  have "revision_of sample_db e = None" "map_of (db_states sample_db) e = None" for e
    by (simp_all add: revision_of_def sample_db_def)
  moreover have "present sample_db = {}"
    by (auto simp: present_def current_domain_payload_def sample_db_def split: sync_entity_kind.splits)
  ultimately show ?thesis
    using sample_clock
    by (auto simp: sync_inv_def tracked_iff outbox_inv_def clock_inv_def tables_inv_def refs_avoid_def)
       (auto simp: sample_db_def)
qed

theorem remote_batch_keeps_invariant_witness:
  "\<exists>db' report. apply_remote_batch_for_vault sample_env ''vault-1'' ''cursor'' (take 1 collision_batch) sample_db = Inr (db', report) \<and>
     sync_inv db'"
proof -
  have "is_ok (apply_remote_batch_for_vault sample_env ''vault-1'' ''cursor'' (take 1 collision_batch) sample_db)"
    by code_simp
  then obtain db' report where
    r: "apply_remote_batch_for_vault sample_env ''vault-1'' ''cursor'' (take 1 collision_batch) sample_db = Inr (db', report)"
    by (auto elim: is_ok_obtain)
  from remote_batch_keeps_invariant [OF sample_inv r] r show ?thesis by blast
qed

definition older_snippet :: prepared_change where
  "older_snippet = \<lparr>pc_change = snippet_change ''c4'' ''s'' ''00000000000000000001:a'' ''ls'', pc_content_hash = ''h1''\<rparr>"

definition newer_snippet :: prepared_change where
  "newer_snippet = \<lparr>pc_change = snippet_change ''c5'' ''s'' ''00000000000000000002:b'' ''pwd'', pc_content_hash = ''h2''\<rparr>"

lemma snippet_batches:
  "is_ok (apply_prepared_batch sample_env sample_db [older_snippet, newer_snippet])"
  "is_ok (apply_prepared_batch sample_env sample_db [newer_snippet, older_snippet])"
  by code_simp+

theorem devices_agree_on_revisions_witness:
  "\<exists>db' r d' r'. apply_prepared_batch sample_env sample_db [older_snippet, newer_snippet] = Inr (db', r) \<and>
     apply_prepared_batch sample_env sample_db [newer_snippet, older_snippet] = Inr (d', r') \<and>
     revision_of db' = revision_of d'"
proof -
  obtain db' r where a: "apply_prepared_batch sample_env sample_db [older_snippet, newer_snippet] = Inr (db', r)"
    using is_ok_obtain [OF snippet_batches(1)] by (metis surj_pair)
  obtain d' r' where b: "apply_prepared_batch sample_env sample_db [newer_snippet, older_snippet] = Inr (d', r')"
    using is_ok_obtain [OF snippet_batches(2)] by (metis surj_pair)
  from devices_agree_on_revisions [OF a b] a b show ?thesis by (simp add: add_mset_commute)
qed

definition queued_deletion :: outbox_row where
  "queued_deletion = \<lparr>ob_change_id = ''q'', ob_schema_version = 1, ob_kind = CommandSnippet, ob_entity_id = ''s'',
     ob_revision = ''00000000000000000001:dev-a'', ob_deleted = True, ob_payload = None, ob_created_at = 0\<rparr>"

theorem queued_change_dropped_only_by_newer_witness:
  "\<exists>db' r. apply_prepared_batch sample_env (sample_db\<lparr>db_outbox := [queued_deletion]\<rparr>) [older_snippet] = Inr (db', r) \<and>
     (set (outbox_keys db') = {} \<longrightarrow> ''00000000000000000001:dev-a'' \<le> sc_revision (pc_change older_snippet))"
proof -
  have "is_ok (apply_prepared_batch sample_env (sample_db\<lparr>db_outbox := [queued_deletion]\<rparr>) [older_snippet])"
    by code_simp
  then obtain db' r where a: "apply_prepared_batch sample_env (sample_db\<lparr>db_outbox := [queued_deletion]\<rparr>) [older_snippet] = Inr (db', r)"
    by (auto elim: is_ok_obtain)
  have "(''q'', (CommandSnippet, ''s''), ''00000000000000000001:dev-a'') \<in>
      set (outbox_keys (sample_db\<lparr>db_outbox := [queued_deletion]\<rparr>))"
    by (simp add: outbox_keys_def queued_deletion_def)
  with queued_change_dropped_only_by_newer [OF a] a show ?thesis by fastforce
qed

theorem newest_snippet_wins_witness:
  "\<exists>db' r s. apply_prepared_batch sample_env sample_db [newer_snippet, older_snippet] = Inr (db', r) \<and>
     map_of (db_snippets db') ''s'' = Some s \<and> np_command s = ''pwd''"
proof -
  obtain db' r where a: "apply_prepared_batch sample_env sample_db [newer_snippet, older_snippet] = Inr (db', r)"
    using is_ok_obtain [OF snippet_batches(2)] by (metis surj_pair)
  have "map_of (db_snippets db') ''s'' = snippet_content (pc_change newer_snippet)"
    by (rule newest_snippet_wins [OF a])
       (auto simp: older_snippet_def newer_snippet_def snippet_change_def entity_of_def revision_of_def sample_db_def)
  with a show ?thesis by (simp add: snippet_content_def newer_snippet_def snippet_change_def)
qed

theorem local_change_is_newest_witness:
  "\<exists>rv db'. record_local_change sample_env CommandSnippet ''s'' True None sample_db = Inr (rv, db') \<and>
     revision_of db' (CommandSnippet, ''s'') = Some rv"
proof -
  have "is_ok (record_local_change sample_env CommandSnippet ''s'' True None sample_db)" by code_simp
  then obtain rv db' where r: "record_local_change sample_env CommandSnippet ''s'' True None sample_db = Inr (rv, db')"
    by (auto elim: is_ok_obtain)
  have "clock_inv sample_db" "env_now sample_env (db_draws sample_db) \<le> i64_max"
    using sample_inv by (simp_all add: sync_inv_def sample_env_def i64_max_def)
  from local_change_is_newest [OF this(1) r this(2)] r show ?thesis by simp
qed

theorem activation_queues_complete_state_witness:
  "\<exists>db'. activate_vault sample_env ''vault-1'' plugin_db = Inr (True, db') \<and>
     set (map entity_key (db_outbox db')) = dom (map_of (db_states db'))"
proof -
  have "is_ok (activate_vault sample_env ''vault-1'' plugin_db)" by code_simp
  then obtain ch db' where r: "activate_vault sample_env ''vault-1'' plugin_db = Inr (ch, db')"
    by (auto elim: is_ok_obtain)
  have "distinct (map fst (db_states plugin_db))" "active_vault_id plugin_db \<noteq> Some ''vault-1''"
    by (simp_all add: plugin_db_def sample_db_def active_vault_id_def sample_metadata_def metadata_get_def)
  from activation_queues_complete_state [OF r this(1)] this(2) r show ?thesis by auto
qed

theorem acknowledged_upload_removes_exactly_witness:
  "\<exists>n db'. acknowledge_pending_upload ''v'' ''e''
      (sample_db\<lparr>db_uploads := [''v'' \<mapsto> \<lparr>pu_vault_id = ''v'', pu_envelope_id = ''e'', pu_ciphertext = ''c'',
         pu_change_ids = [''q'']\<rparr>]\<rparr>) = Inr (n, db') \<and> db_uploads db' = Map.empty"
proof -
  let ?db = "sample_db\<lparr>db_uploads := [''v'' \<mapsto> \<lparr>pu_vault_id = ''v'', pu_envelope_id = ''e'', pu_ciphertext = ''c'',
         pu_change_ids = [''q'']\<rparr>]\<rparr>"
  have "is_ok (acknowledge_pending_upload ''v'' ''e'' ?db)" by code_simp
  then obtain n db' where r: "acknowledge_pending_upload ''v'' ''e'' ?db = Inr (n, db')" by (auto elim: is_ok_obtain)
  from acknowledged_upload_removes_exactly [OF r] r show ?thesis by auto
qed

end
