(* ===== verification/Requests.thy ===== *)
theory Requests
  imports Prelude
begin

text \<open>
  Operations that talk to a server.  An operation maps the state of the world to the state afterwards and
  a result, an error message or a value; the world is whatever the caller of the model chooses: for an
  untrusted server the list of all requests so far, for an honest one its content.  \<open>ask\<close> is a request to
  an untrusted server, whose answer may depend on every request so far, the last one included, so it may
  answer anything and change its mind.  \<open>emits P m\<close> says that every request \<open>m\<close> makes satisfies \<open>P\<close>,
  whether it succeeds or fails.
\<close>

section \<open>Operations\<close>

type_synonym ('w, 'a) io = "'w \<Rightarrow> 'w \<times> (string + 'a)"

definition sreturn :: "'a \<Rightarrow> ('w, 'a) io" where
  "sreturn x h = (h, Inr x)"

definition sfail :: "string \<Rightarrow> ('w, 'a) io" where
  "sfail e h = (h, Inl e)"

definition sbind :: "('w, 'a) io \<Rightarrow> ('a \<Rightarrow> ('w, 'b) io) \<Rightarrow> ('w, 'b) io" where
  "sbind m k h = (case m h of (h', Inl e) \<Rightarrow> (h', Inl e) | (h', Inr a) \<Rightarrow> k a h')"

text \<open>\<open>stry\<close> hands the result to the caller, as a \<^verbatim>\<open>match\<close> on it does; \<open>smap_err\<close> is \<^verbatim>\<open>map_err\<close>;
  \<open>slift\<close> is a result computed without a request.\<close>

definition stry :: "('w, 'a) io \<Rightarrow> ('w, string + 'a) io" where
  "stry m h = (case m h of (h', r) \<Rightarrow> (h', Inr r))"

definition smap_err :: "(string \<Rightarrow> string) \<Rightarrow> ('w, 'a) io \<Rightarrow> ('w, 'a) io" where
  "smap_err f m h = (case m h of (h', Inl e) \<Rightarrow> (h', Inl (f e)) | (h', Inr a) \<Rightarrow> (h', Inr a))"

definition slift :: "string + 'a \<Rightarrow> ('w, 'a) io" where
  "slift r h = (h, r)"

definition ask :: "('r list \<Rightarrow> string + 'a) \<Rightarrow> 'r \<Rightarrow> ('r list, 'a) io" where
  "ask answer req h = (h @ [req], answer (h @ [req]))"

section \<open>Results\<close>

lemma sbind_Inr:
  "sbind m k h = (h', Inr b) \<longleftrightarrow> (\<exists>h1 a. m h = (h1, Inr a) \<and> k a h1 = (h', Inr b))"
  by (auto simp: sbind_def split: prod.splits sum.splits)

lemma smap_err_Inr [simp]: "smap_err f m h = (h', Inr b) \<longleftrightarrow> m h = (h', Inr b)"
  by (auto simp: smap_err_def split: prod.splits sum.splits)

lemma stry_eq [simp]: "stry m h = (h', r) \<longleftrightarrow> (\<exists>r'. m h = (h', r') \<and> r = Inr r')"
  by (auto simp: stry_def split: prod.splits)

lemma ask_eq [simp]: "ask f req h = (h', r) \<longleftrightarrow> h' = h @ [req] \<and> r = f (h @ [req])"
  by (auto simp: ask_def)

lemma sreturn_eq [simp]: "sreturn x h = (h', r) \<longleftrightarrow> h' = h \<and> r = Inr x"
  by (auto simp: sreturn_def)

lemma sfail_eq [simp]: "sfail e h = (h', r) \<longleftrightarrow> h' = h \<and> r = Inl e"
  by (auto simp: sfail_def)

lemma slift_eq [simp]: "slift x h = (h', r) \<longleftrightarrow> h' = h \<and> r = x"
  by (auto simp: slift_def)

lemma sreturn_bind: "sbind (sreturn x) k = k x"
  by (rule ext) (simp add: sbind_def sreturn_def)

lemma slift_bind: "sbind (slift r) k = (case r of Inl e \<Rightarrow> sfail e | Inr x \<Rightarrow> k x)"
  by (rule ext) (simp add: sbind_def slift_def sfail_def split: sum.split)

section \<open>Requests made\<close>

named_theorems emits_rules \<open>the requests an operation makes\<close>

definition emits :: "('r \<Rightarrow> bool) \<Rightarrow> ('r list, 'a) io \<Rightarrow> bool" where
  "emits P m \<longleftrightarrow> (\<forall>h. \<exists>rs. fst (m h) = h @ rs \<and> list_all P rs)"

lemma emits_ask [emits_rules]: "P req \<Longrightarrow> emits P (ask f req)"
  by (simp add: emits_def ask_def)

lemma emits_return [emits_rules]: "emits P (sreturn x)"
  by (simp add: emits_def sreturn_def)

lemma emits_fail [emits_rules]: "emits P (sfail e)"
  by (simp add: emits_def sfail_def)

lemma emits_bind [emits_rules]:
  assumes "emits P m" "\<And>x. emits P (k x)"
  shows "emits P (sbind m k)"
  unfolding emits_def
proof
  fix h
  obtain h1 r where m: "m h = (h1, r)" by fastforce
  with assms(1) obtain rs where rs: "h1 = h @ rs" "list_all P rs" by (auto simp: emits_def) (metis fst_conv)
  show "\<exists>rs. fst (sbind m k h) = h @ rs \<and> list_all P rs"
  proof (cases r)
    case (Inl e)
    with m rs show ?thesis by (simp add: sbind_def)
  next
    case (Inr a)
    obtain rs' where "fst (k a h1) = h1 @ rs'" "list_all P rs'" using assms(2) by (auto simp: emits_def)
    with m rs Inr show ?thesis by (intro exI [of _ "rs @ rs'"]) (simp add: sbind_def)
  qed
qed

lemma emits_try [emits_rules]: "emits P m \<Longrightarrow> emits P (stry m)"
  by (simp add: emits_def stry_def split_beta)

lemma emits_map_err [emits_rules]: "emits P m \<Longrightarrow> emits P (smap_err f m)"
  by (simp add: emits_def smap_err_def split: prod.splits sum.splits) (metis fst_conv)

lemma emits_mono: "emits P m \<Longrightarrow> (\<And>r. P r \<Longrightarrow> Q r) \<Longrightarrow> emits Q m"
  unfolding emits_def by (metis list.pred_mono_strong)

lemma emits_run: "emits P m \<Longrightarrow> m h = (h', r) \<Longrightarrow> \<exists>rs. h' = h @ rs \<and> list_all P rs"
  unfolding emits_def by (metis fst_conv)

lemma emits_lift [emits_rules]: "emits P (slift r)"
  by (simp add: emits_def slift_def)

lemma emits_bind_result:
  assumes "emits P m" "\<And>h h' x. m h = (h', Inr x) \<Longrightarrow> emits P (k x)"
  shows "emits P (sbind m k)"
  unfolding emits_def
proof
  fix h
  obtain h1 r where m: "m h = (h1, r)" by fastforce
  from emits_run [OF assms(1) m] obtain rs where rs: "h1 = h @ rs" "list_all P rs" by blast
  show "\<exists>rs. fst (sbind m k h) = h @ rs \<and> list_all P rs"
  proof (cases r)
    case (Inl e)
    with m rs show ?thesis by (simp add: sbind_def)
  next
    case (Inr a)
    with assms(2) m have "emits P (k a)" by blast
    then obtain rs' where "fst (k a h1) = h1 @ rs'" "list_all P rs'" by (auto simp: emits_def)
    with m rs Inr show ?thesis by (intro exI [of _ "rs @ rs'"]) (simp add: sbind_def)
  qed
qed

section \<open>Before and after\<close>

text \<open>\<open>holds P m Q E\<close>: from a world with \<open>P\<close>, a success of \<open>m\<close> leaves \<open>Q\<close> of its value and a failure
  leaves \<open>E\<close>.\<close>

named_theorems holds_rules \<open>what an operation leaves behind\<close>

definition holds :: "('w \<Rightarrow> bool) \<Rightarrow> ('w, 'a) io \<Rightarrow> ('a \<Rightarrow> 'w \<Rightarrow> bool) \<Rightarrow> ('w \<Rightarrow> bool) \<Rightarrow> bool" where
  "holds P m Q E \<longleftrightarrow> (\<forall>w w' r. P w \<longrightarrow> m w = (w', r) \<longrightarrow> (case r of Inr a \<Rightarrow> Q a w' | Inl e \<Rightarrow> E w'))"

lemma holdsD: "holds P m Q E \<Longrightarrow> P w \<Longrightarrow> m w = (w', r) \<Longrightarrow> (case r of Inr a \<Rightarrow> Q a w' | Inl e \<Rightarrow> E w')"
  by (simp add: holds_def)

lemma holds_return [holds_rules]: "holds (Q x) (sreturn x) Q E"
  by (simp add: holds_def)

lemma holds_fail [holds_rules]: "holds E (sfail e) Q E"
  by (simp add: holds_def)

lemma holds_lift [holds_rules]: "holds (\<lambda>w. case r of Inr a \<Rightarrow> Q a w | Inl e \<Rightarrow> E w) (slift r) Q E"
  by (auto simp: holds_def split: sum.split)

lemma holds_bind [holds_rules]:
  assumes "\<And>x. holds (R x) (k x) Q E" "holds P m R E"
  shows "holds P (sbind m k) Q E"
  using assms unfolding holds_def sbind_def by (fastforce split: prod.splits sum.splits)

lemma holds_try [holds_rules]: "holds P m (\<lambda>a. Q (Inr a)) (\<lambda>w. \<forall>e. Q (Inl e) w) \<Longrightarrow> holds P (stry m) Q E"
  unfolding holds_def
proof (intro allI impI, goal_cases)
  case (1 w w' r)
  from 1(3) obtain r' where "m w = (w', r')" "r = Inr r'" by auto
  with 1(1,2) show ?case by (cases r') fastforce+
qed

lemma holds_map_err [holds_rules]: "holds P m Q E \<Longrightarrow> holds P (smap_err f m) Q E"
  unfolding holds_def smap_err_def by (fastforce split: prod.splits sum.splits)

lemma holds_conseq:
  assumes "holds P m Q E" "\<And>w. P' w \<Longrightarrow> P w" "\<And>a w. Q a w \<Longrightarrow> Q' a w" "\<And>w. E w \<Longrightarrow> E' w"
  shows "holds P' m Q' E'"
  using assms unfolding holds_def by (fastforce split: sum.splits)

lemma holds_pre: "holds P m Q E \<Longrightarrow> (\<And>w. P' w \<Longrightarrow> P w) \<Longrightarrow> holds P' m Q E"
  by (rule holds_conseq)

lemma holds_if [holds_rules]:
  "(b \<Longrightarrow> holds P m Q E) \<Longrightarrow> (\<not> b \<Longrightarrow> holds P' n Q E) \<Longrightarrow>
   holds (\<lambda>w. (b \<longrightarrow> P w) \<and> (\<not> b \<longrightarrow> P' w)) (if b then m else n) Q E"
  by (simp add: holds_def)

text \<open>\<open>stays P m\<close>: \<open>m\<close> keeps \<open>P\<close>, whether it succeeds or fails.\<close>

abbreviation stays :: "('w \<Rightarrow> bool) \<Rightarrow> ('w, 'a) io \<Rightarrow> bool" where
  "stays P m \<equiv> holds P m (\<lambda>_. P) P"

lemma stays_bind: "stays P m \<Longrightarrow> (\<And>x. stays P (k x)) \<Longrightarrow> stays P (sbind m k)"
  by (rule holds_bind)

lemma stays_return: "stays P (sreturn x)"
  by (simp add: holds_def)

lemma stays_fail: "stays P (sfail e)"
  by (simp add: holds_def)

lemma stays_lift: "stays P (slift r)"
  by (auto simp: holds_def split: sum.split)

lemmas stays_leaves = stays_return stays_fail stays_lift

lemma stays_try: "stays P m \<Longrightarrow> stays P (stry m)"
  unfolding holds_def stry_def by (fastforce split: prod.splits sum.splits)

lemma stays_lift_bind: "(\<And>x. r = Inr x \<Longrightarrow> stays P (k x)) \<Longrightarrow> stays P (sbind (slift r) k)"
  by (cases r) (simp_all add: slift_bind stays_leaves)

end
