(* ===== verification/Sync_Crypto.thy ===== *)
theory Sync_Crypto
  imports Prelude
begin

text \<open>
  The wire format of encrypted batches, \<^verbatim>\<open>src-tauri/src/storage/sync_crypto.rs\<close>.  AES-256-GCM
  (\<^verbatim>\<open>ring\<close>), the random source, base64 and serde are the parameters in \<open>crypto_env\<close>; \<open>'b\<close> is the
  type of the batch.  The lemmas: what was encrypted is decrypted to the same batch with the same key,
  and with an authenticated cipher a decrypted batch was sealed by a holder of the key together with
  exactly the context that the envelope shows.
\<close>

definition vault_key_len :: nat where "vault_key_len = 32"
definition nonce_len :: nat where "nonce_len = 12"
definition tag_len :: nat where "tag_len = 16"
definition aad_domain :: string where "aad_domain = ''vibeshell.sync.pending-batch''"
definition sync_crypto_wire_version :: nat where "sync_crypto_wire_version = 1"
definition sync_crypto_algorithm :: string where "sync_crypto_algorithm = ''AES-256-GCM''"

datatype sync_crypto_error =
    InvalidVaultKey
  | RandomGeneration
  | Serialization
  | UnsupportedEnvelope
  | InvalidEnvelope
  | AuthenticationFailed

definition crypto_message :: "sync_crypto_error \<Rightarrow> string" where
  "crypto_message e =
     (case e of
        InvalidVaultKey \<Rightarrow> ''invalid vault key''
      | RandomGeneration \<Rightarrow> ''secure random generation failed''
      | Serialization \<Rightarrow> ''sync batch serialization failed''
      | UnsupportedEnvelope \<Rightarrow> ''unsupported sync envelope''
      | InvalidEnvelope \<Rightarrow> ''invalid sync envelope''
      | AuthenticationFailed \<Rightarrow> ''sync batch authentication failed'')"

text \<open>A key is its 32 bytes.\<close>

type_synonym vault_key = string

record sync_batch_context =
  ctx_vault_id :: string
  ctx_batch_id :: string
  ctx_schema_version :: nat
  ctx_device_id :: string
  ctx_cursor :: "string option"

record encrypted_sync_batch =
  eb_wire_version :: nat
  eb_algorithm :: string
  eb_context :: sync_batch_context
  eb_nonce :: string
  eb_ciphertext :: string

record authenticated_metadata =
  am_domain :: string
  am_wire_version :: nat
  am_algorithm :: string
  am_context :: sync_batch_context

text \<open>\<open>cy_random\<close> is what filling a buffer of the given length yields; \<open>cy_seal\<close> and \<open>cy_open\<close> take the
  key, the nonce, the authenticated data and the text.\<close>

record 'b crypto_env =
  cy_random :: "nat \<Rightarrow> string option"
  cy_encode :: "string \<Rightarrow> string"
  cy_decode :: "string \<Rightarrow> string option"
  cy_to_vec :: "'b \<Rightarrow> string option"
  cy_from_slice :: "string \<Rightarrow> 'b option"
  cy_metadata :: "authenticated_metadata \<Rightarrow> string option"
  cy_seal :: "vault_key \<Rightarrow> string \<Rightarrow> string \<Rightarrow> string \<Rightarrow> string option"
  cy_open :: "vault_key \<Rightarrow> string \<Rightarrow> string \<Rightarrow> string \<Rightarrow> string option"

definition generate_key :: "'b crypto_env \<Rightarrow> sync_crypto_error + vault_key" where
  "generate_key env = ok_or (cy_random env vault_key_len) RandomGeneration"

definition import_key :: "'b crypto_env \<Rightarrow> string \<Rightarrow> sync_crypto_error + vault_key" where
  "import_key env encoded =
     rbind (ok_or (cy_decode env encoded) InvalidVaultKey) (\<lambda>decoded.
       if length decoded \<noteq> vault_key_len then Inl InvalidVaultKey else Inr decoded)"

definition export_key :: "'b crypto_env \<Rightarrow> vault_key \<Rightarrow> string" where
  "export_key env key = cy_encode env key"

definition encryption_key :: "vault_key \<Rightarrow> sync_crypto_error + vault_key" where
  "encryption_key key = (if length key = vault_key_len then Inr key else Inl InvalidVaultKey)"

definition authenticated_data ::
    "'b crypto_env \<Rightarrow> nat \<Rightarrow> string \<Rightarrow> sync_batch_context \<Rightarrow> sync_crypto_error + string" where
  "authenticated_data env wire_version algorithm context =
     ok_or (cy_metadata env
       \<lparr>am_domain = aad_domain, am_wire_version = wire_version, am_algorithm = algorithm, am_context = context\<rparr>)
       Serialization"

definition encrypt_batch ::
    "'b crypto_env \<Rightarrow> vault_key \<Rightarrow> sync_batch_context \<Rightarrow> 'b \<Rightarrow> sync_crypto_error + encrypted_sync_batch" where
  "encrypt_batch env key context batch =
     rbind (ok_or (cy_random env nonce_len) RandomGeneration) (\<lambda>nonce_bytes.
     rbind (ok_or (cy_to_vec env batch) Serialization) (\<lambda>plaintext.
     rbind (authenticated_data env sync_crypto_wire_version sync_crypto_algorithm context) (\<lambda>aad.
     rbind (encryption_key key) (\<lambda>k.
     rbind (ok_or (cy_seal env k nonce_bytes aad plaintext) AuthenticationFailed) (\<lambda>ciphertext.
     Inr \<lparr>eb_wire_version = sync_crypto_wire_version, eb_algorithm = sync_crypto_algorithm,
          eb_context = context, eb_nonce = cy_encode env nonce_bytes,
          eb_ciphertext = cy_encode env ciphertext\<rparr>)))))"

definition decrypt_batch :: "'b crypto_env \<Rightarrow> vault_key \<Rightarrow> encrypted_sync_batch \<Rightarrow> sync_crypto_error + 'b" where
  "decrypt_batch env key envelope =
     (if eb_wire_version envelope \<noteq> sync_crypto_wire_version \<or> eb_algorithm envelope \<noteq> sync_crypto_algorithm
      then Inl UnsupportedEnvelope
      else
        rbind (ok_or (cy_decode env (eb_nonce envelope)) InvalidEnvelope) (\<lambda>nonce_bytes.
        if length nonce_bytes \<noteq> nonce_len then Inl InvalidEnvelope
        else
          rbind (ok_or (cy_decode env (eb_ciphertext envelope)) InvalidEnvelope) (\<lambda>ciphertext.
          if length ciphertext < tag_len then Inl InvalidEnvelope
          else
            rbind (authenticated_data env (eb_wire_version envelope) (eb_algorithm envelope) (eb_context envelope)) (\<lambda>aad.
            rbind (encryption_key key) (\<lambda>k.
            rbind (ok_or (cy_open env k nonce_bytes aad ciphertext) AuthenticationFailed) (\<lambda>plaintext.
            ok_or (cy_from_slice env plaintext) Serialization))))))"

section \<open>What the libraries promise\<close>

definition crypto_ok :: "'b crypto_env \<Rightarrow> bool" where
  "crypto_ok env \<longleftrightarrow>
     (\<forall>n bytes. cy_random env n = Some bytes \<longrightarrow> length bytes = n) \<and>
     (\<forall>s. cy_decode env (cy_encode env s) = Some s) \<and>
     (\<forall>b s. cy_to_vec env b = Some s \<longrightarrow> cy_from_slice env s = Some b) \<and>
     (\<forall>m m' s. cy_metadata env m = Some s \<longrightarrow> cy_metadata env m' = Some s \<longrightarrow> m = m') \<and>
     (\<forall>k n a p c. cy_seal env k n a p = Some c \<longrightarrow> length c = length p + tag_len \<and> cy_open env k n a c = Some p)"

text \<open>The cipher is authenticated: whatever opens under the key was sealed with it, with the same
  authenticated data; \<open>log\<close> are the batches that holders of the key have encrypted.\<close>

definition sealed_by_holders ::
    "'b crypto_env \<Rightarrow> vault_key \<Rightarrow> (sync_batch_context \<times> 'b) set \<Rightarrow> bool" where
  "sealed_by_holders env key log \<longleftrightarrow>
     (\<forall>n a c p. cy_open env key n a c = Some p \<longrightarrow>
        (\<exists>context b. (context, b) \<in> log \<and> cy_to_vec env b = Some p \<and>
           authenticated_data env sync_crypto_wire_version sync_crypto_algorithm context = Inr a))"

lemma decrypted_was_sealed:
  assumes "crypto_ok env" "sealed_by_holders env key log" "decrypt_batch env key e = Inr b"
  shows "(eb_context e, b) \<in> log"
proof -
  from assms(3) obtain nonce ciphertext aad plaintext where
    v: "eb_wire_version e = sync_crypto_wire_version" "eb_algorithm e = sync_crypto_algorithm"
    and a: "authenticated_data env sync_crypto_wire_version sync_crypto_algorithm (eb_context e) = Inr aad"
    and o: "cy_open env key nonce aad ciphertext = Some plaintext" "cy_from_slice env plaintext = Some b"
    by (auto simp: decrypt_batch_def rbind_Inr_iff encryption_key_def split: if_splits)
  from assms(2) o(1) obtain ctx b' where s: "(ctx, b') \<in> log" "cy_to_vec env b' = Some plaintext"
    "authenticated_data env sync_crypto_wire_version sync_crypto_algorithm ctx = Inr aad"
    unfolding sealed_by_holders_def by blast
  from s(2) o(2) assms(1) have "b' = b" unfolding crypto_ok_def by auto
  moreover have "ctx = eb_context e"
    using a s(3) assms(1) unfolding crypto_ok_def authenticated_data_def by fastforce
  ultimately show ?thesis using s(1) by simp
qed

lemma import_export:
  "crypto_ok env \<Longrightarrow> length key = vault_key_len \<Longrightarrow> import_key env (export_key env key) = Inr key"
  by (simp add: import_key_def export_key_def crypto_ok_def)

lemma decrypt_encrypt:
  assumes "crypto_ok env" "encrypt_batch env key context batch = Inr e"
  shows "decrypt_batch env key e = Inr batch \<and> eb_context e = context"
proof -
  from assms(2) obtain nonce plaintext aad ciphertext where
    s: "cy_random env nonce_len = Some nonce" "cy_to_vec env batch = Some plaintext"
      "authenticated_data env sync_crypto_wire_version sync_crypto_algorithm context = Inr aad"
      "encryption_key key = Inr key" "cy_seal env key nonce aad plaintext = Some ciphertext"
    and e: "e = \<lparr>eb_wire_version = sync_crypto_wire_version, eb_algorithm = sync_crypto_algorithm,
          eb_context = context, eb_nonce = cy_encode env nonce, eb_ciphertext = cy_encode env ciphertext\<rparr>"
    by (auto simp: encrypt_batch_def rbind_Inr_iff encryption_key_def split: if_splits)
  from assms(1) s have "length nonce = nonce_len" "cy_decode env (cy_encode env nonce) = Some nonce"
    "cy_decode env (cy_encode env ciphertext) = Some ciphertext" "cy_from_slice env plaintext = Some batch"
    "tag_len \<le> length ciphertext" "cy_open env key nonce aad ciphertext = Some plaintext"
    unfolding crypto_ok_def by auto
  with s e show ?thesis by (simp add: decrypt_batch_def)
qed

end
