(* ===== verification/Cloud_Provider.thy ===== *)
theory Cloud_Provider
  imports Requests Decimal
begin

text \<open>
  The providers of the cloud synchronisation, \<^verbatim>\<open>src-tauri/src/cloud_sync/providers.rs\<close>: a
  document with the list of encrypted envelopes, kept in a GitHub Gist or a WebDAV file and changed by
  fetching it, appending one envelope and writing it back on the condition that it has not changed.
  \<open>send\<close> performs an HTTP request on the world (\<^verbatim>\<open>reqwest\<close>); the JSON texts and the URL parser are
  parameters (\<open>provider_env\<close>).  The properties: an exchange appends the envelope once and returns the
  rest of the list after the cursor; with a server that honours the conditions no envelope of another
  device is ever overwritten and no device misses one, whatever happens between the requests; and the
  token of the user is sent to GitHub only.
\<close>

section \<open>Envelopes and documents\<close>

record sync_envelope =
  en_envelope_id :: string
  en_ciphertext :: string

record exchange_request =
  xq_cursor :: "string option"
  xq_envelope :: "sync_envelope option"

record exchange_response =
  xr_cursor :: string
  xr_envelopes :: "sync_envelope list"
  xr_has_more :: bool

definition object_store_format :: string where "object_store_format = ''vibeshell-encrypted-sync''"
definition object_store_version :: nat where "object_store_version = 1"
definition object_store_filename :: string where "object_store_filename = ''vibeshell-sync.json''"
definition max_object_store_bytes :: nat where "max_object_store_bytes = 8 * 1024 * 1024"
definition max_write_attempts :: nat where "max_write_attempts = 4"
definition max_remote_changes_per_page :: nat where "max_remote_changes_per_page = 10000"

record object_store_document =
  od_format :: string
  od_version :: nat
  od_vault_id :: string
  od_envelopes :: "sync_envelope list"

definition new_document :: "string \<Rightarrow> object_store_document" where
  "new_document vault_id =
     \<lparr>od_format = object_store_format, od_version = object_store_version, od_vault_id = vault_id,
      od_envelopes = []\<rparr>"

definition validate_document :: "object_store_document \<Rightarrow> string \<Rightarrow> string + unit" where
  "validate_document d vault_id =
     (if od_format d \<noteq> object_store_format \<or> od_version d \<noteq> object_store_version
      then Inl ''Unsupported VibeShell encrypted sync document''
      else if od_vault_id d \<noteq> vault_id then Inl ''Sync provider contains data for a different vault''
      else if max_remote_changes_per_page < length (od_envelopes d)
      then Inl ''Sync provider contains too many encrypted envelopes''
      else Inr ())"

definition apply_object_exchange ::
    "object_store_document \<Rightarrow> string \<Rightarrow> exchange_request \<Rightarrow>
     string + object_store_document \<times> exchange_response \<times> bool" where
  "apply_object_exchange document vault_id request =
     rbind (validate_document document vault_id) (\<lambda>_.
     rbind (ok_or (parse_usize (case xq_cursor request of Some c \<Rightarrow> c | None \<Rightarrow> ''0''))
              ''Invalid sync provider cursor'') (\<lambda>cursor.
     if length (od_envelopes document) < cursor
     then Inl ''Sync provider cursor is ahead of the remote document''
     else
       rbind (case xq_envelope request of
                None \<Rightarrow> Inr (document, False)
              | Some upload \<Rightarrow>
                  (case List.find (\<lambda>e. en_envelope_id e = en_envelope_id upload) (od_envelopes document) of
                     Some existing \<Rightarrow>
                       if existing \<noteq> upload then Inl ''Encrypted sync envelope ID collision''
                       else Inr (document, False)
                   | None \<Rightarrow> Inr (document\<lparr>od_envelopes := od_envelopes document @ [upload]\<rparr>, True)))
         (\<lambda>(document, changed).
       Inr (document,
            \<lparr>xr_cursor = show_nat (length (od_envelopes document)),
             xr_envelopes = drop cursor (od_envelopes document), xr_has_more = False\<rparr>,
            changed))))"

section \<open>Configuration\<close>

datatype sync_provider_kind = KindGithubGist | KindWebDav

datatype sync_provider_config =
    GithubGist "string option" string
  | WebDav string string string

record url =
  url_text :: string
  url_scheme :: string
  url_host :: "string option"
  url_path :: string
  url_query :: "string option"
  url_fragment :: "string option"
  url_username :: string
  url_password :: "string option"

record gist_file =
  gf_content :: "string option"
  gf_truncated :: bool
  gf_raw_url :: "string option"

record provider_env =
  pv_url :: "string \<Rightarrow> url option"
  pv_document_of_json :: "string \<Rightarrow> object_store_document option"
  pv_json_of_document :: "object_store_document \<Rightarrow> string + string"
  pv_gist_of_json :: "string \<Rightarrow> (string \<Rightarrow> gist_file option) option"
  pv_created_id :: "string \<Rightarrow> string option"
  pv_gist_body :: "string \<Rightarrow> string"
  pv_lossy :: "string \<Rightarrow> string"

definition provider_kind :: "sync_provider_config \<Rightarrow> sync_provider_kind" where
  "provider_kind c = (case c of GithubGist _ _ \<Rightarrow> KindGithubGist | WebDav _ _ _ \<Rightarrow> KindWebDav)"

definition provider_target :: "sync_provider_config \<Rightarrow> string" where
  "provider_target c =
     (case c of
        WebDav endpoint _ _ \<Rightarrow> endpoint
      | GithubGist gist_id _ \<Rightarrow>
          (case gist_id of Some i \<Rightarrow> ''https://gist.github.com/'' @ i | None \<Rightarrow> ''GitHub Gist''))"

definition is_ascii_hexdigit :: "char \<Rightarrow> bool" where
  "is_ascii_hexdigit c \<longleftrightarrow> is_digit c \<or> 65 \<le> byte c \<and> byte c \<le> 70 \<or> 97 \<le> byte c \<and> byte c \<le> 102"

definition validate_gist_id :: "string \<Rightarrow> string + unit" where
  "validate_gist_id v =
     ensure (v \<noteq> [] \<and> length v \<le> 128 \<and> list_all is_ascii_hexdigit v) ''Invalid GitHub Gist ID''"

definition line_break :: "char \<Rightarrow> bool" where
  "line_break c \<longleftrightarrow> c = CHR 0x0D \<or> c = CHR 0x0A"

definition validate_secret :: "string \<Rightarrow> string \<Rightarrow> nat \<Rightarrow> nat \<Rightarrow> string + unit" where
  "validate_secret label v lo hi =
     ensure (lo \<le> length v \<and> length v \<le> hi \<and> \<not> list_ex line_break v) (''Invalid '' @ label)"

definition validate_token :: "string \<Rightarrow> string \<Rightarrow> nat \<Rightarrow> nat \<Rightarrow> string + unit" where
  "validate_token label v lo hi =
     rbind (validate_secret label v lo hi) (\<lambda>_.
       ensure (\<not> list_ex is_whitespace (utf8_chars v)) (''Invalid '' @ label))"

definition normalize_https_url :: "provider_env \<Rightarrow> string \<Rightarrow> string \<Rightarrow> bool \<Rightarrow> string + string" where
  "normalize_https_url env v label allow_path =
     (let trimmed = trim_end_matches ''/'' (trim v) in
      rbind (ok_or (pv_url env trimmed) (''Invalid '' @ label @ '' URL'')) (\<lambda>parsed.
      if url_query parsed \<noteq> None \<or> url_fragment parsed \<noteq> None \<or> url_username parsed \<noteq> [] \<or>
         url_password parsed \<noteq> None \<or> (\<not> allow_path \<and> url_path parsed \<noteq> ''/'' \<and> url_path parsed \<noteq> [])
      then Inl (label @ '' URL contains unsupported credentials, path, query, or fragment'')
      else
        (let loopback = (case url_host parsed of
                           Some h \<Rightarrow> List.member [''localhost'', ''127.0.0.1'', ''::1''] h | None \<Rightarrow> False) in
         if url_scheme parsed \<noteq> ''https'' \<and> \<not> (url_scheme parsed = ''http'' \<and> loopback)
         then Inl (label @ '' must use HTTPS (HTTP is allowed only for loopback development)'')
         else Inr trimmed)))"

definition validate_provider :: "provider_env \<Rightarrow> sync_provider_config \<Rightarrow> string + unit" where
  "validate_provider env c =
     (case c of
        GithubGist gist_id token \<Rightarrow>
          rbind (case gist_id of Some i \<Rightarrow> validate_gist_id i | None \<Rightarrow> Inr ()) (\<lambda>_.
            validate_token ''GitHub token'' token 1 1024)
      | WebDav endpoint username password \<Rightarrow>
          rbind (normalize_https_url env endpoint ''WebDAV endpoint'' True) (\<lambda>_.
          rbind (ensure (length username \<le> 512 \<and> \<not> list_ex line_break username) ''Invalid WebDAV username'') (\<lambda>_.
            validate_secret ''WebDAV password'' password 0 4096)))"

section \<open>HTTP\<close>

datatype http_method = Get | Post | Patch | Put

datatype http_auth = NoAuth | Bearer string | Basic string string

record http_request =
  hq_method :: http_method
  hq_url :: string
  hq_auth :: http_auth
  hq_body :: "string option"
  hq_if_match :: "string option"
  hq_if_none_match :: "string option"

text \<open>\<open>hr_chunks\<close> is what reading the body delivers, up to its end or the first error.\<close>

record http_response =
  hr_status :: nat
  hr_etag :: "string option"
  hr_content_length :: "nat option"
  hr_chunks :: "(string + string) list"

definition is_success :: "nat \<Rightarrow> bool" where
  "is_success status_code \<longleftrightarrow> 200 \<le> status_code \<and> status_code < 300"

definition lost_race :: "nat \<Rightarrow> bool" where
  "lost_race status_code \<longleftrightarrow> status_code = 412 \<or> status_code = 409"

fun read_chunks :: "nat \<Rightarrow> string \<Rightarrow> (string + string) list \<Rightarrow> string + string" where
  "read_chunks limit body [] = Inr body"
| "read_chunks limit body (Inl e # chunks) = Inl ''Failed to read cloud sync response''"
| "read_chunks limit body (Inr chunk # chunks) =
     (if limit < length body + length chunk then Inl ''Cloud sync response exceeds the size limit''
      else read_chunks limit (body @ chunk) chunks)"

definition read_limited_response :: "http_response \<Rightarrow> nat \<Rightarrow> string + string" where
  "read_limited_response r limit =
     (case hr_content_length r of
        Some n \<Rightarrow> if limit < n then Inl ''Cloud sync response exceeds the size limit''
                  else read_chunks limit [] (hr_chunks r)
      | None \<Rightarrow> read_chunks limit [] (hr_chunks r))"

definition response_excerpt :: "provider_env \<Rightarrow> string \<Rightarrow> string" where
  "response_excerpt env body = concat (take 300 (utf8_chars (pv_lossy env body)))"

definition parse_document :: "provider_env \<Rightarrow> string \<Rightarrow> string + object_store_document" where
  "parse_document env content =
     (if max_object_store_bytes < length content then Inl ''Encrypted sync document exceeds the size limit''
      else ok_or (pv_document_of_json env content) ''Sync provider contains invalid VibeShell JSON'')"

definition serialize_document :: "provider_env \<Rightarrow> object_store_document \<Rightarrow> string + string" where
  "serialize_document env document =
     rbind (pv_json_of_document env document) (\<lambda>content.
       if max_object_store_bytes < length content then Inl ''Encrypted sync document exceeds the size limit''
       else Inr content)"

section \<open>GitHub Gist\<close>

record fetched_document =
  fd_document :: object_store_document
  fd_etag :: "string option"

type_synonym 'w http = "http_request \<Rightarrow> ('w, http_response) io"

definition request_of :: "http_method \<Rightarrow> string \<Rightarrow> http_auth \<Rightarrow> http_request" where
  "request_of m u auth =
     \<lparr>hq_method = m, hq_url = u, hq_auth = auth, hq_body = None, hq_if_match = None, hq_if_none_match = None\<rparr>"

definition failure_message :: "provider_env \<Rightarrow> string \<Rightarrow> nat \<Rightarrow> string \<Rightarrow> string" where
  "failure_message env what status_code body =
     what @ '' returned HTTP '' @ show_nat status_code @ '': '' @ response_excerpt env body"

definition create_gist :: "provider_env \<Rightarrow> 'w http \<Rightarrow> string \<Rightarrow> string \<Rightarrow> ('w, string) io" where
  "create_gist env send token vault_id =
     sbind (slift (serialize_document env (new_document vault_id))) (\<lambda>content.
     sbind (smap_err (\<lambda>_. ''Failed to create GitHub Gist'')
              (send ((request_of Post ''https://api.github.com/gists'' (Bearer token))
                       \<lparr>hq_body := Some (pv_gist_body env content)\<rparr>))) (\<lambda>response.
     sbind (slift (read_limited_response response max_object_store_bytes)) (\<lambda>body.
     if \<not> is_success (hr_status response)
     then sfail (failure_message env ''GitHub Gist creation'' (hr_status response) body)
     else sbind (slift (ok_or (pv_created_id env body) ''GitHub returned an invalid Gist response'')) (\<lambda>gist_id.
          sbind (slift (validate_gist_id gist_id)) (\<lambda>_. sreturn gist_id)))))"

definition fetch_raw_document :: "provider_env \<Rightarrow> 'w http \<Rightarrow> string \<Rightarrow> string \<Rightarrow> ('w, object_store_document) io" where
  "fetch_raw_document env send raw_url token =
     sbind (slift (ok_or (pv_url env raw_url) ''GitHub returned an invalid raw URL'')) (\<lambda>parsed.
     if url_scheme parsed \<noteq> ''https'' \<or> url_host parsed \<noteq> Some ''gist.githubusercontent.com''
     then sfail ''GitHub returned an unexpected raw Gist URL''
     else
       sbind (smap_err (\<lambda>_. ''Failed to read raw GitHub Gist content'')
                (send (request_of Get (url_text parsed) (Bearer token)))) (\<lambda>response.
       sbind (slift (read_limited_response response max_object_store_bytes)) (\<lambda>body.
       if \<not> is_success (hr_status response)
       then sfail (''GitHub raw Gist read returned HTTP '' @ show_nat (hr_status response))
       else sbind (slift (ok_or (from_utf8 body) ''Sync Gist is not UTF-8'')) (\<lambda>content.
            slift (parse_document env content)))))"

definition gist_url :: "string \<Rightarrow> string" where
  "gist_url gist_id = ''https://api.github.com/gists/'' @ gist_id"

definition fetch_gist :: "provider_env \<Rightarrow> 'w http \<Rightarrow> string \<Rightarrow> string \<Rightarrow> string \<Rightarrow> ('w, fetched_document) io" where
  "fetch_gist env send gist_id token vault_id =
     sbind (smap_err (\<lambda>_. ''Failed to read GitHub Gist'')
              (send (request_of Get (gist_url gist_id) (Bearer token)))) (\<lambda>response.
     sbind (slift (read_limited_response response max_object_store_bytes)) (\<lambda>body.
     if \<not> is_success (hr_status response)
     then sfail (failure_message env ''GitHub Gist read'' (hr_status response) body)
     else
       sbind (slift (ok_or (pv_gist_of_json env body) ''GitHub returned invalid Gist JSON'')) (\<lambda>files.
       sbind (case files object_store_filename of
                Some f \<Rightarrow>
                  (if gf_truncated f
                   then sbind (slift (ok_or (gf_raw_url f) ''GitHub truncated the sync Gist without a raw URL''))
                          (\<lambda>raw_url. fetch_raw_document env send raw_url token)
                   else (case gf_content f of
                           Some content \<Rightarrow> slift (parse_document env content)
                         | None \<Rightarrow> sreturn (new_document vault_id)))
              | None \<Rightarrow> sreturn (new_document vault_id)) (\<lambda>document.
       sreturn \<lparr>fd_document = document, fd_etag = hr_etag response\<rparr>))))"

definition write_gist ::
    "provider_env \<Rightarrow> 'w http \<Rightarrow> string \<Rightarrow> string \<Rightarrow> object_store_document \<Rightarrow> string \<Rightarrow> ('w, bool) io" where
  "write_gist env send gist_id token document etag =
     sbind (slift (serialize_document env document)) (\<lambda>content.
     sbind (smap_err (\<lambda>_. ''Failed to update GitHub Gist'')
              (send ((request_of Patch (gist_url gist_id) (Bearer token))
                       \<lparr>hq_body := Some (pv_gist_body env content), hq_if_match := Some etag\<rparr>))) (\<lambda>response.
     if lost_race (hr_status response) then sreturn False
     else if is_success (hr_status response) then sreturn True
     else sbind (slift (read_limited_response response max_object_store_bytes)) (\<lambda>body.
          sfail (failure_message env ''GitHub Gist update'' (hr_status response) body))))"

text \<open>The loop of \<open>max_write_attempts\<close> rounds.\<close>

fun gist_rounds ::
    "provider_env \<Rightarrow> 'w http \<Rightarrow> string \<Rightarrow> string \<Rightarrow> string \<Rightarrow> exchange_request \<Rightarrow> nat \<Rightarrow>
     ('w, exchange_response) io" where
  "gist_rounds env send gist_id token vault_id request 0 =
     sfail ''GitHub Gist changed repeatedly while syncing; retry the sync''"
| "gist_rounds env send gist_id token vault_id request (Suc n) =
     sbind (fetch_gist env send gist_id token vault_id) (\<lambda>fetched.
     sbind (slift (apply_object_exchange (fd_document fetched) vault_id request)) (\<lambda>(document, response, changed).
     if \<not> changed then sreturn response
     else
       sbind (slift (ok_or (fd_etag fetched)
                ''GitHub Gist response did not include an ETag for conditional update'')) (\<lambda>etag.
       sbind (write_gist env send gist_id token document etag) (\<lambda>written.
       if written then sreturn response
       else gist_rounds env send gist_id token vault_id request n))))"

definition exchange_gist ::
    "provider_env \<Rightarrow> 'w http \<Rightarrow> string \<Rightarrow> string \<Rightarrow> string \<Rightarrow> exchange_request \<Rightarrow> ('w, exchange_response) io" where
  "exchange_gist env send gist_id token vault_id request =
     gist_rounds env send gist_id token vault_id request max_write_attempts"

section \<open>WebDAV\<close>

definition with_basic_auth :: "string \<Rightarrow> string \<Rightarrow> http_auth" where
  "with_basic_auth username password =
     (if username = [] \<and> password = [] then NoAuth else Basic username password)"

definition fetch_webdav ::
    "provider_env \<Rightarrow> 'w http \<Rightarrow> string \<Rightarrow> string \<Rightarrow> string \<Rightarrow> string \<Rightarrow> ('w, fetched_document) io" where
  "fetch_webdav env send endpoint username password vault_id =
     sbind (smap_err (\<lambda>_. ''Failed to read WebDAV sync file'')
              (send (request_of Get endpoint (with_basic_auth username password)))) (\<lambda>response.
     if hr_status response = 404 then sreturn \<lparr>fd_document = new_document vault_id, fd_etag = None\<rparr>
     else
       sbind (slift (read_limited_response response max_object_store_bytes)) (\<lambda>body.
       if \<not> is_success (hr_status response)
       then sfail (failure_message env ''WebDAV read'' (hr_status response) body)
       else
         sbind (slift (ok_or (from_utf8 body) ''WebDAV sync file is not UTF-8'')) (\<lambda>content.
         sbind (slift (parse_document env content)) (\<lambda>document.
         sreturn \<lparr>fd_document = document, fd_etag = hr_etag response\<rparr>))))"

definition write_webdav ::
    "provider_env \<Rightarrow> 'w http \<Rightarrow> string \<Rightarrow> string \<Rightarrow> string \<Rightarrow> object_store_document \<Rightarrow> string option \<Rightarrow>
     ('w, bool) io" where
  "write_webdav env send endpoint username password document etag =
     sbind (slift (serialize_document env document)) (\<lambda>content.
     let request = (request_of Put endpoint (with_basic_auth username password))\<lparr>hq_body := Some content\<rparr>;
         request = (case etag of Some e \<Rightarrow> request\<lparr>hq_if_match := Some e\<rparr>
                    | None \<Rightarrow> request\<lparr>hq_if_none_match := Some ''*''\<rparr>) in
     sbind (smap_err (\<lambda>_. ''Failed to write WebDAV sync file'') (send request)) (\<lambda>response.
     if lost_race (hr_status response) then sreturn False
     else if is_success (hr_status response) then sreturn True
     else sbind (slift (read_limited_response response max_object_store_bytes)) (\<lambda>body.
          sfail (failure_message env ''WebDAV write'' (hr_status response) body))))"

fun webdav_rounds ::
    "provider_env \<Rightarrow> 'w http \<Rightarrow> string \<Rightarrow> string \<Rightarrow> string \<Rightarrow> string \<Rightarrow> exchange_request \<Rightarrow> nat \<Rightarrow>
     ('w, exchange_response) io" where
  "webdav_rounds env send endpoint username password vault_id request 0 =
     sfail ''WebDAV file changed repeatedly while syncing; retry the sync''"
| "webdav_rounds env send endpoint username password vault_id request (Suc n) =
     sbind (fetch_webdav env send endpoint username password vault_id) (\<lambda>fetched.
     sbind (slift (apply_object_exchange (fd_document fetched) vault_id request)) (\<lambda>(document, response, changed).
     if \<not> changed then sreturn response
     else
       sbind (write_webdav env send endpoint username password document (fd_etag fetched)) (\<lambda>written.
       if written then sreturn response
       else webdav_rounds env send endpoint username password vault_id request n)))"

definition exchange_webdav ::
    "provider_env \<Rightarrow> 'w http \<Rightarrow> string \<Rightarrow> string \<Rightarrow> string \<Rightarrow> string \<Rightarrow> exchange_request \<Rightarrow>
     ('w, exchange_response) io" where
  "exchange_webdav env send endpoint username password vault_id request =
     webdav_rounds env send endpoint username password vault_id request max_write_attempts"

section \<open>The transport\<close>

definition initialize_provider ::
    "provider_env \<Rightarrow> 'w http \<Rightarrow> sync_provider_config \<Rightarrow> string \<Rightarrow> ('w, sync_provider_config) io" where
  "initialize_provider env send config vault_id =
     sbind (slift (validate_provider env config)) (\<lambda>_.
     case config of
       GithubGist None token \<Rightarrow>
         sbind (create_gist env send token vault_id) (\<lambda>gist_id. sreturn (GithubGist (Some gist_id) token))
     | _ \<Rightarrow> sreturn config)"

definition exchange ::
    "provider_env \<Rightarrow> 'w http \<Rightarrow> sync_provider_config \<Rightarrow> string \<Rightarrow> exchange_request \<Rightarrow> ('w, exchange_response) io" where
  "exchange env send config vault_id request =
     sbind (slift (validate_provider env config)) (\<lambda>_.
     case config of
       GithubGist (Some gist_id) token \<Rightarrow> exchange_gist env send gist_id token vault_id request
     | GithubGist None _ \<Rightarrow> sfail ''GitHub Gist sync has not been initialized''
     | WebDav endpoint username password \<Rightarrow>
         exchange_webdav env send endpoint username password vault_id request)"

section \<open>A store that honours conditional requests\<close>

text \<open>A WebDAV server: the file, its version (the entity tag), and what other devices append before each
  of the requests to come.\<close>

record store =
  st_file :: "sync_envelope list option"
  st_version :: nat
  st_others :: "sync_envelope list list"

definition stored :: "store \<Rightarrow> sync_envelope list" where
  "stored w = (case st_file w of Some es \<Rightarrow> es | None \<Rightarrow> [])"

definition others_write :: "store \<Rightarrow> store" where
  "others_write w =
     (case st_others w of
        [] \<Rightarrow> w
      | es # rest \<Rightarrow>
          (if es = [] then w\<lparr>st_others := rest\<rparr>
           else w\<lparr>st_file := Some (stored w @ es), st_version := st_version w + 1, st_others := rest\<rparr>))"

definition document_of :: "string \<Rightarrow> sync_envelope list \<Rightarrow> object_store_document" where
  "document_of vault_id es = (new_document vault_id)\<lparr>od_envelopes := es\<rparr>"

definition json_text :: "provider_env \<Rightarrow> object_store_document \<Rightarrow> string" where
  "json_text env d = (case pv_json_of_document env d of Inr t \<Rightarrow> t | Inl _ \<Rightarrow> [])"

definition answer :: "nat \<Rightarrow> string option \<Rightarrow> string \<Rightarrow> http_response" where
  "answer status_code etag body =
     \<lparr>hr_status = status_code, hr_etag = etag, hr_content_length = Some (length body), hr_chunks = [Inr body]\<rparr>"

definition precondition :: "http_request \<Rightarrow> store \<Rightarrow> bool" where
  "precondition request w \<longleftrightarrow>
     (\<forall>e. hq_if_match request = Some e \<longrightarrow> st_file w \<noteq> None \<and> e = show_nat (st_version w)) \<and>
     (hq_if_none_match request = Some ''*'' \<longrightarrow> st_file w = None)"

definition store_send :: "provider_env \<Rightarrow> string \<Rightarrow> store http" where
  "store_send env vault_id request w0 =
     (let w = others_write w0 in
      if hq_method request = Put
      then (if \<not> precondition request w then (w, Inr (answer 412 None []))
            else (w\<lparr>st_file := Some (case Option.bind (hq_body request) (pv_document_of_json env) of
                                 Some d \<Rightarrow> od_envelopes d | None \<Rightarrow> []),
                    st_version := st_version w + 1\<rparr>, Inr (answer 204 None [])))
      else (w, Inr (case st_file w of
                      None \<Rightarrow> answer 404 None []
                    | Some es \<Rightarrow> answer 200 (Some (show_nat (st_version w))) (json_text env (document_of vault_id es)))))"

text \<open>What the JSON codec is documented to do: what it writes is UTF-8 and is read back.\<close>

definition json_codec_ok :: "provider_env \<Rightarrow> bool" where
  "json_codec_ok env \<longleftrightarrow>
     (\<forall>d. \<exists>t. pv_json_of_document env d = Inr t \<and> pv_document_of_json env t = Some d \<and> from_utf8 t = Some t)"

lemma json_codec_okE:
  assumes "json_codec_ok env"
  shows "pv_json_of_document env d = Inr (json_text env d)"
    "pv_document_of_json env (json_text env d) = Some d" "from_utf8 (json_text env d) = Some (json_text env d)"
proof -
  obtain t where "pv_json_of_document env d = Inr t" "pv_document_of_json env t = Some d" "from_utf8 t = Some t"
    using assms unfolding json_codec_ok_def by blast
  then show "pv_json_of_document env d = Inr (json_text env d)"
    "pv_document_of_json env (json_text env d) = Some d" "from_utf8 (json_text env d) = Some (json_text env d)"
    by (simp_all add: json_text_def)
qed

lemma document_of_fields [simp]:
  "od_envelopes (document_of v es) = es" "od_vault_id (document_of v es) = v"
  "(document_of v es)\<lparr>od_envelopes := es'\<rparr> = document_of v es'" "document_of v [] = new_document v"
  by (simp_all add: document_of_def new_document_def)

lemma others_write_stored:
  "stored (others_write w) = stored w @ concat (take 1 (st_others w))"
  "st_others (others_write w) = drop 1 (st_others w)"
proof -
  show "stored (others_write w) = stored w @ concat (take 1 (st_others w))"
    by (cases "st_others w") (auto simp: others_write_def stored_def)
  show "st_others (others_write w) = drop 1 (st_others w)"
    by (cases "st_others w") (auto simp: others_write_def)
qed

lemma others_write_unchanged:
  "st_version (others_write w) = st_version w \<Longrightarrow> st_file (others_write w) = st_file w"
  "st_file (others_write w) = None \<Longrightarrow> st_file w = None"
  by (cases "st_others w"; auto simp: others_write_def split: if_splits)+

text \<open>An exchange on the document the server holds.\<close>

lemma apply_object_exchange_Inr:
  assumes "apply_object_exchange (document_of v es) v request = Inr (d, response, changed)"
  shows "\<exists>cursor es'. parse_usize (case xq_cursor request of Some c \<Rightarrow> c | None \<Rightarrow> ''0'') = Some cursor \<and>
    cursor \<le> length es \<and> d = document_of v es' \<and>
    es' = (if changed then es @ (case xq_envelope request of Some u \<Rightarrow> [u] | None \<Rightarrow> []) else es) \<and>
    (\<forall>u. xq_envelope request = Some u \<longrightarrow> u \<in> set es') \<and>
    response = \<lparr>xr_cursor = show_nat (length es'), xr_envelopes = drop cursor es', xr_has_more = False\<rparr> \<and>
    (changed \<longrightarrow> xq_envelope request \<noteq> None)"
proof -
  from assms obtain cursor where c: "parse_usize (case xq_cursor request of Some c \<Rightarrow> c | None \<Rightarrow> ''0'') = Some cursor"
    by (auto simp: apply_object_exchange_def rbind_Inr_iff ok_or_def split: option.splits if_splits)
  show ?thesis
  proof (cases "xq_envelope request")
    case None
    with assms c show ?thesis
      by (auto simp: apply_object_exchange_def rbind_Inr_iff ok_or_def split: if_splits)
  next
    case (Some u)
    show ?thesis
    proof (cases "List.find (\<lambda>e. en_envelope_id e = en_envelope_id u) es")
      case None
      with Some assms c show ?thesis
        by (auto simp: apply_object_exchange_def rbind_Inr_iff ok_or_def split: if_splits)
    next
      case found: (Some e)
      then have "e \<in> set es" by (auto simp: find_Some_iff)
      with found Some assms c show ?thesis
        by (auto simp: apply_object_exchange_def rbind_Inr_iff ok_or_def split: if_splits)
    qed
  qed
qed

lemma read_answer [simp]:
  "length body \<le> limit \<Longrightarrow> read_limited_response (answer c e body) limit = Inr body"
  "hr_status (answer c e body) = c" "hr_etag (answer c e body) = e"
  by (simp_all add: read_limited_response_def answer_def)

lemma read_answer_Inr: "read_limited_response (answer c e body) limit = Inr b \<Longrightarrow> b = body"
  by (auto simp: read_limited_response_def answer_def split: if_splits)

text \<open>A fetch returns what the server holds after the others' writes, with its version.\<close>

lemma fetch_webdav_store:
  assumes "json_codec_ok env" "fetch_webdav env (store_send env vault_id) endpoint user pass vault_id w = (w', r)"
  shows "w' = others_write w"
    "r = Inr f \<Longrightarrow> fd_document f = document_of vault_id (stored w') \<and>
       fd_etag f = (case st_file w' of None \<Rightarrow> None | Some _ \<Rightarrow> Some (show_nat (st_version w')))"
proof -
  note codec = json_codec_okE [OF assms(1)]
  have w: "w' = others_write w \<and> (\<forall>f. r = Inr f \<longrightarrow> fd_document f = document_of vault_id (stored w') \<and>
       fd_etag f = (case st_file w' of None \<Rightarrow> None | Some _ \<Rightarrow> Some (show_nat (st_version w'))))"
  proof (cases "st_file (others_write w)")
    case None
    with assms(2) show ?thesis
      by (auto simp: fetch_webdav_def sbind_def smap_err_def store_send_def Let_def request_of_def stored_def sreturn_def)
  next
    case (Some es)
    let ?t = "json_text env (document_of vault_id es)"
    let ?resp = "answer 200 (Some (show_nat (st_version (others_write w)))) ?t"
    have step: "(w', r) = sbind (slift (read_limited_response ?resp max_object_store_bytes)) (\<lambda>body.
         sbind (slift (ok_or (from_utf8 body) ''WebDAV sync file is not UTF-8'')) (\<lambda>content.
         sbind (slift (parse_document env content)) (\<lambda>document.
         sreturn \<lparr>fd_document = document, fd_etag = hr_etag ?resp\<rparr>))) (others_write w)"
      using assms(2) Some
      by (simp add: fetch_webdav_def sbind_def smap_err_def store_send_def Let_def request_of_def is_success_def)
    show ?thesis
    proof (cases "read_limited_response ?resp max_object_store_bytes")
      case (Inl e)
      with step show ?thesis by (simp add: slift_bind sfail_def)
    next
      case (Inr b)
      then have "b = ?t" by (rule read_answer_Inr)
      with step Inr codec show ?thesis
        by (auto simp: slift_bind parse_document_def ok_or_def sfail_def sreturn_def stored_def Some split: if_splits)
    qed
  qed
  then show "w' = others_write w"
    "r = Inr f \<Longrightarrow> fd_document f = document_of vault_id (stored w') \<and>
       fd_etag f = (case st_file w' of None \<Rightarrow> None | Some _ \<Rightarrow> Some (show_nat (st_version w')))" by blast+
qed

text \<open>A conditional write replaces exactly the document that was fetched.\<close>

definition tag_of :: "store \<Rightarrow> string option" where
  "tag_of w = (case st_file w of None \<Rightarrow> None | Some _ \<Rightarrow> Some (show_nat (st_version w)))"

lemma write_webdav_store:
  assumes "json_codec_ok env"
    "write_webdav env (store_send env vault_id) endpoint user pass (document_of vault_id es) (tag_of w) w = (w', r)"
  shows "r = Inr True \<Longrightarrow> stored w' = es \<and> st_others w' = drop 1 (st_others w) \<and> concat (take 1 (st_others w)) = []"
    "r \<noteq> Inr True \<Longrightarrow> w' = w \<or> w' = others_write w"
proof -
  note codec = json_codec_okE [OF assms(1)]
  let ?d = "document_of vault_id es" let ?t = "json_text env ?d" let ?w = "others_write w"
  define request where "request = (case tag_of w of
      Some e \<Rightarrow> (request_of Put endpoint (with_basic_auth user pass))\<lparr>hq_body := Some ?t, hq_if_match := Some e\<rparr>
    | None \<Rightarrow> (request_of Put endpoint (with_basic_auth user pass))\<lparr>hq_body := Some ?t, hq_if_none_match := Some ''*''\<rparr>)"
  have r: "hq_method request = Put" "hq_body request = Some ?t"
    by (simp_all add: request_def request_of_def split: option.split)
  have pre: "precondition request ?w \<longleftrightarrow> tag_of ?w = tag_of w"
    using others_write_unchanged(2) [of w]
    by (auto simp: precondition_def request_def tag_of_def request_of_def show_nat_inject split: option.splits)
  have main: "(r = Inr True \<longrightarrow> tag_of ?w = tag_of w \<and> w' = ?w\<lparr>st_file := Some es, st_version := st_version ?w + 1\<rparr>) \<and>
      (r \<noteq> Inr True \<longrightarrow> w' = w \<or> w' = ?w)"
  proof (cases "length ?t \<le> max_object_store_bytes")
    case False
    with assms(2) codec(1) show ?thesis
      by (auto simp: write_webdav_def serialize_document_def slift_bind sfail_def)
  next
    case True
    then have ser: "serialize_document env ?d = Inr ?t" by (simp add: serialize_document_def codec(1))
    have "(w', r) = sbind (smap_err (\<lambda>_. ''Failed to write WebDAV sync file'') (store_send env vault_id request))
        (\<lambda>response. if lost_race (hr_status response) then sreturn False
          else if is_success (hr_status response) then sreturn True
          else sbind (slift (read_limited_response response max_object_store_bytes)) (\<lambda>body.
               sfail (failure_message env ''WebDAV write'' (hr_status response) body))) w"
      using assms(2) ser
      by (cases "tag_of w") (simp_all add: write_webdav_def slift_bind request_def Let_def)
    then show ?thesis
      using pre r codec(2)
      by (auto simp: sbind_def smap_err_def store_send_def Let_def lost_race_def is_success_def sreturn_def
          split: if_splits)
  qed
  show "r \<noteq> Inr True \<Longrightarrow> w' = w \<or> w' = ?w" using main by blast
  assume "r = Inr True"
  with main have same: "tag_of ?w = tag_of w" and w': "w' = ?w\<lparr>st_file := Some es, st_version := st_version ?w + 1\<rparr>" by auto
  have "st_file ?w = st_file w"
    using same others_write_unchanged [of w] by (auto simp: tag_of_def show_nat_inject split: option.splits)
  then have "stored ?w = stored w" by (simp add: stored_def)
  then have "concat (take 1 (st_others w)) = []" using others_write_stored(1) [of w] by simp
  with w' show "stored w' = es \<and> st_others w' = drop 1 (st_others w) \<and> concat (take 1 (st_others w)) = []"
    using others_write_stored(2) [of w] by (simp add: stored_def)
qed

definition appended :: "store \<Rightarrow> store \<Rightarrow> sync_envelope list \<Rightarrow> bool" where
  "appended w w' es \<longleftrightarrow> (\<exists>k. st_others w' = drop k (st_others w) \<and>
     stored w' = stored w @ concat (take k (st_others w)) @ es)"

lemma appended_refl: "appended w w []"
  unfolding appended_def by (intro exI [of _ 0]) simp

lemma appended_others: "appended w (others_write w) []"
  unfolding appended_def by (intro exI [of _ 1]) (simp add: others_write_stored)

lemma appended_trans: "appended w w1 [] \<Longrightarrow> appended w1 w2 es \<Longrightarrow> appended w w2 es"
  unfolding appended_def
  by (elim exE, rename_tac j k, rule_tac x = "j + k" in exI) (simp add: take_add add.commute)

definition delivered :: "exchange_request \<Rightarrow> store \<Rightarrow> exchange_response \<Rightarrow> bool" where
  "delivered request w response \<longleftrightarrow>
     (\<exists>cursor. parse_usize (case xq_cursor request of Some c \<Rightarrow> c | None \<Rightarrow> ''0'') = Some cursor \<and>
        cursor \<le> length (stored w) \<and>
        response = \<lparr>xr_cursor = show_nat (length (stored w)), xr_envelopes = drop cursor (stored w),
                    xr_has_more = False\<rparr>) \<and>
     (\<forall>u. xq_envelope request = Some u \<longrightarrow> u \<in> set (stored w))"

lemma webdav_rounds_store:
  assumes "json_codec_ok env"
  shows "webdav_rounds env (store_send env vault_id) endpoint user pass vault_id request n w = (w', r) \<Longrightarrow>
    \<exists>es. appended w w' es \<and> (es = [] \<or> (\<exists>u. xq_envelope request = Some u \<and> es = [u])) \<and>
      (case r of Inl _ \<Rightarrow> es = [] | Inr response \<Rightarrow> delivered request w' response)"
proof (induction n arbitrary: w)
  case 0
  then show ?case by (auto simp: appended_refl)
next
  case (Suc n)
  let ?send = "store_send env vault_id"
  obtain w1 f where fetch: "fetch_webdav env ?send endpoint user pass vault_id w = (w1, f)" by fastforce
  note fetched = fetch_webdav_store [OF assms fetch]
  have a1: "appended w w1 []" using fetched(1) appended_others by simp
  show ?case
  proof (cases f)
    case (Inl e)
    with Suc.prems fetch a1 show ?thesis by (auto simp: sbind_def)
  next
    case f: (Inr x)
    then have d: "fd_document x = document_of vault_id (stored w1)" and t: "fd_etag x = tag_of w1"
      using fetched(2) by (auto simp: tag_of_def)
    show ?thesis
    proof (cases "apply_object_exchange (fd_document x) vault_id request")
      case (Inl e)
      with Suc.prems fetch f a1 show ?thesis by (auto simp: sbind_def slift_def)
    next
      case (Inr y)
      obtain doc response changed where y: "y = (doc, response, changed)" by (cases y)
      from apply_object_exchange_Inr [OF Inr [unfolded y d]] obtain cursor es' where
        c: "parse_usize (case xq_cursor request of Some c \<Rightarrow> c | None \<Rightarrow> ''0'') = Some cursor"
          "cursor \<le> length (stored w1)" "doc = document_of vault_id es'"
        and es': "es' = (if changed then stored w1 @ (case xq_envelope request of Some u \<Rightarrow> [u] | None \<Rightarrow> []) else stored w1)"
          "\<forall>u. xq_envelope request = Some u \<longrightarrow> u \<in> set es'"
        and resp: "response = \<lparr>xr_cursor = show_nat (length es'), xr_envelopes = drop cursor es', xr_has_more = False\<rparr>"
          "changed \<longrightarrow> xq_envelope request \<noteq> None"
        by blast
      show ?thesis
      proof (cases changed)
        case False
        with Suc.prems fetch f Inr y have "w' = w1" "r = Inr response"
          by (auto simp: sbind_def slift_def sreturn_def)
        with False a1 c es' resp show ?thesis
          by (intro exI [of _ "[]"]) (auto simp: delivered_def)
      next
        case True
        then obtain u where u: "xq_envelope request = Some u" using resp(2) by auto
        obtain w2 b where put: "write_webdav env ?send endpoint user pass doc (fd_etag x) w1 = (w2, b)" by fastforce
        note written = write_webdav_store [OF assms put [unfolded c(3) t]]
        have rest: "(w', r) = (case b of Inl e \<Rightarrow> (w2, Inl e) | Inr written \<Rightarrow>
            (if written then sreturn response else webdav_rounds env ?send endpoint user pass vault_id request n) w2)"
          using Suc.prems fetch f Inr y True put by (auto simp: sbind_def slift_def split: sum.splits)
        show ?thesis
        proof (cases "b = Inr True")
          case True
          with rest have "w' = w2" "r = Inr response" by (auto simp: sreturn_def)
          moreover have "stored w2 = stored w1 @ [u]" "st_others w2 = drop 1 (st_others w1)"
            "concat (take 1 (st_others w1)) = []" "es' = stored w1 @ [u]"
            using written(1) [OF True] es'(1) \<open>changed\<close> u by simp_all
          moreover have "appended w1 w2 [u]" unfolding appended_def
            using calculation by (intro exI [of _ 1]) simp
          ultimately show ?thesis
            using appended_trans [OF a1] c u resp(1) by (intro exI [of _ "[u]"]) (auto simp: delivered_def)
        next
          case False
          have a2: "appended w w2 []"
            using written(2) [OF False] appended_trans [OF a1] appended_refl appended_others by metis
          show ?thesis
          proof (cases b)
            case (Inl e)
            with rest a2 show ?thesis by auto
          next
            case (Inr v)
            with False rest have "webdav_rounds env ?send endpoint user pass vault_id request n w2 = (w', r)" by auto
            from Suc.IH [OF this] appended_trans [OF a2] show ?thesis by blast
          qed
        qed
      qed
    qed
  qed
qed

section \<open>A concrete codec\<close>

text \<open>A readable encoding of documents, to show that the hypothesis on the codec can hold: each byte in
  unary, closed by a dot, each string closed by a semicolon.\<close>

fun encode_strings :: "string list \<Rightarrow> string" where
  "encode_strings [] = []"
| "encode_strings (s # ss) = concat (map (\<lambda>c. replicate (byte c) CHR ''a'' @ ''.'') s) @ CHR '';'' # encode_strings ss"

fun decode_strings :: "nat \<Rightarrow> string \<Rightarrow> string \<Rightarrow> string list" where
  "decode_strings k cur [] = []"
| "decode_strings k cur (c # s) =
     (if c = CHR ''a'' then decode_strings (k + 1) cur s
      else if c = CHR ''.'' then decode_strings 0 (cur @ [char_of k]) s
      else cur # decode_strings 0 [] s)"

lemma decode_char: "decode_strings k cur (replicate n CHR ''a'' @ CHR ''.'' # s) = decode_strings 0 (cur @ [char_of (k + n)]) s"
  by (induction n arbitrary: k) simp_all

lemma decode_string:
  "decode_strings 0 cur (concat (map (\<lambda>c. replicate (byte c) CHR ''a'' @ ''.'') s) @ CHR '';'' # t) =
     (cur @ s) # decode_strings 0 [] t"
proof (induction s arbitrary: cur)
  case Nil
  then show ?case by simp
next
  case (Cons c s)
  have "decode_strings 0 cur (replicate (byte c) CHR ''a'' @ CHR ''.'' #
      (concat (map (\<lambda>c. replicate (byte c) CHR ''a'' @ ''.'') s) @ CHR '';'' # t)) = (cur @ [c] @ s) # decode_strings 0 [] t"
    unfolding decode_char by (simp add: Cons byte_def [of c])
  then show ?case by simp
qed

lemma decode_encode: "decode_strings 0 [] (encode_strings ss) = ss"
  by (induction ss) (simp_all add: decode_string)

fun strings_of :: "sync_envelope list \<Rightarrow> string list" where
  "strings_of [] = []"
| "strings_of (e # es) = en_envelope_id e # en_ciphertext e # strings_of es"

fun envelopes_of :: "string list \<Rightarrow> sync_envelope list" where
  "envelopes_of (i # c # ss) = \<lparr>en_envelope_id = i, en_ciphertext = c\<rparr> # envelopes_of ss"
| "envelopes_of _ = []"

lemma envelopes_strings [simp]: "envelopes_of (strings_of es) = es"
  by (induction es) simp_all

definition sample_provider :: provider_env where
  "sample_provider =
     \<lparr>pv_url = (\<lambda>u. None),
      pv_document_of_json = (\<lambda>t. case decode_strings 0 [] t of
          f # n # v # ss \<Rightarrow> Some \<lparr>od_format = f, od_version = digits_val n, od_vault_id = v, od_envelopes = envelopes_of ss\<rparr>
        | _ \<Rightarrow> None),
      pv_json_of_document = (\<lambda>d. Inr (encode_strings
          (od_format d # show_nat (od_version d) # od_vault_id d # strings_of (od_envelopes d)))),
      pv_gist_of_json = (\<lambda>t. None), pv_created_id = (\<lambda>t. None), pv_gist_body = (\<lambda>t. t), pv_lossy = (\<lambda>t. t)\<rparr>"

lemma ascii_valid: "ascii s \<Longrightarrow> utf8_valid s"
  by (induction s) (simp add: utf8_valid.simps, subst utf8_valid.simps, simp add: utf8_width_def)

lemma ascii_encode: "ascii (encode_strings ss)"
proof -
  have "ascii (concat (map (\<lambda>c. replicate (byte c) CHR ''a'' @ ''.'') s))" for s
    by (induction s) (auto simp: ascii_def list_all_iff byte_def split: if_splits)
  then show ?thesis by (induction ss) (simp_all add: byte_def)
qed

lemma sample_provider_codec: "json_codec_ok sample_provider"
  unfolding json_codec_ok_def
  by (simp add: sample_provider_def decode_encode from_utf8_def ascii_valid ascii_encode del: encode_strings.simps)

definition sample_store :: store where
  "sample_store =
     \<lparr>st_file = Some [\<lparr>en_envelope_id = ''e0'', en_ciphertext = ''x''\<rparr>], st_version = 1,
      st_others = [[], [\<lparr>en_envelope_id = ''e1'', en_ciphertext = ''y''\<rparr>]]\<rparr>"

section \<open>Properties\<close>

text \<open>C11: no envelope is lost between devices: with a WebDAV server that honours conditional requests,
  whatever other devices append between the requests of an exchange, the exchange only ever appends its own
  envelope, at most once, behind everything the others wrote; when it succeeds the envelope is in the
  file, and a device that had received the first part of the file now has all of it, in order.\<close>

theorem exchange_loses_no_envelope:
  assumes "json_codec_ok env"
    and "exchange_webdav env (store_send env vault_id) endpoint user pass vault_id request w = (w', r)"
  shows "\<exists>k es. st_others w' = drop k (st_others w) \<and>
    stored w' = stored w @ concat (take k (st_others w)) @ es \<and>
    (es = [] \<or> (\<exists>u. xq_envelope request = Some u \<and> es = [u])) \<and>
    (\<forall>e. r = Inl e \<longrightarrow> es = []) \<and>
    (\<forall>response. r = Inr response \<longrightarrow>
       (\<forall>u. xq_envelope request = Some u \<longrightarrow> u \<in> set (stored w')) \<and>
       xr_cursor response = show_nat (length (stored w')) \<and>
       (\<forall>received later. stored w = received @ later \<longrightarrow> length received < 18446744073709551616 \<longrightarrow>
          xq_cursor request = Some (show_nat (length received)) \<longrightarrow>
          received @ xr_envelopes response = stored w'))"
proof -
  from webdav_rounds_store [OF assms(1) assms(2) [unfolded exchange_webdav_def]] obtain es where
    a: "appended w w' es" "es = [] \<or> (\<exists>u. xq_envelope request = Some u \<and> es = [u])"
    and b: "case r of Inl _ \<Rightarrow> es = [] | Inr response \<Rightarrow> delivered request w' response" by blast
  from a(1) obtain k where k: "st_others w' = drop k (st_others w)"
      "stored w' = stored w @ concat (take k (st_others w)) @ es"
    unfolding appended_def by blast
  have "\<forall>response. r = Inr response \<longrightarrow>
       (\<forall>u. xq_envelope request = Some u \<longrightarrow> u \<in> set (stored w')) \<and>
       xr_cursor response = show_nat (length (stored w')) \<and>
       (\<forall>received later. stored w = received @ later \<longrightarrow> length received < 18446744073709551616 \<longrightarrow>
          xq_cursor request = Some (show_nat (length received)) \<longrightarrow>
          received @ xr_envelopes response = stored w')"
    using b k(2) by (auto simp: delivered_def parse_usize_show_nat)
  with k a(2) b show ?thesis by (intro exI [of _ k] exI [of _ es]) (auto split: sum.splits)
qed

theorem exchange_loses_no_envelope_witness:
  "let upload = \<lparr>en_envelope_id = ''e2'', en_ciphertext = ''z''\<rparr>;
       w' = fst (exchange_webdav sample_provider (store_send sample_provider ''v'') ''https://dav'' ''u'' ''p'' ''v''
              \<lparr>xq_cursor = Some ''1'', xq_envelope = Some upload\<rparr> sample_store) in
   \<exists>k es. stored w' = stored sample_store @ concat (take k (st_others sample_store)) @ es \<and> (es = [] \<or> es = [upload])"
  using exchange_loses_no_envelope [OF sample_provider_codec surjective_pairing]
  unfolding Let_def by fastforce

text \<open>Where a request with the secrets of the user may go.\<close>

definition secret_at_home :: "provider_env \<Rightarrow> sync_provider_config \<Rightarrow> http_request \<Rightarrow> bool" where
  "secret_at_home env config request \<longleftrightarrow>
     (case config of
        GithubGist _ token \<Rightarrow>
          hq_auth request = Bearer token \<and>
          (starts_with (hq_url request) ''https://api.github.com/gists'' \<or>
           (\<exists>raw u. pv_url env raw = Some u \<and> hq_url request = url_text u \<and> url_scheme u = ''https'' \<and>
              url_host u = Some ''gist.githubusercontent.com''))
      | WebDav endpoint username password \<Rightarrow>
          hq_url request = endpoint \<and> hq_auth request = with_basic_auth username password \<and>
          (\<exists>u. pv_url env (trim_end_matches ''/'' (trim endpoint)) = Some u \<and>
             (url_scheme u = ''https'' \<or>
              url_scheme u = ''http'' \<and> (\<exists>h. url_host u = Some h \<and> h \<in> {''localhost'', ''127.0.0.1'', ''::1''}))))"

lemma request_of_fields [simp]:
  "hq_url (request_of m u a) = u" "hq_auth (request_of m u a) = a"
  by (simp_all add: request_of_def)

lemma gist_url_home: "starts_with (gist_url i) ''https://api.github.com/gists''"
  by (simp add: gist_url_def)

lemma gist_requests:
  assumes "\<And>r. hq_auth r = Bearer token \<Longrightarrow> starts_with (hq_url r) ''https://api.github.com/gists'' \<Longrightarrow> P r"
    and "\<And>r raw u. hq_auth r = Bearer token \<Longrightarrow> pv_url env raw = Some u \<Longrightarrow> hq_url r = url_text u \<Longrightarrow>
      url_scheme u = ''https'' \<Longrightarrow> url_host u = Some ''gist.githubusercontent.com'' \<Longrightarrow> P r"
  shows "emits P (gist_rounds env (ask reply) gist_id token vault_id request n)"
    and "emits P (create_gist env (ask reply) token vault_id)"
proof -
  have raw: "emits P (fetch_raw_document env (ask reply) raw_url token)" for raw_url
    unfolding fetch_raw_document_def slift_bind
    by (auto simp: ok_or_def slift_bind intro!: emits_rules assms(2) split: option.splits sum.split)
  have fetch: "emits P (fetch_gist env (ask reply) gist_id token vault_id)"
    unfolding fetch_gist_def slift_bind
    by (auto intro!: emits_rules assms(1) raw simp: gist_url_home slift_bind split: sum.split option.split)
  have put: "emits P (write_gist env (ask reply) gist_id token d etag)" for d etag
    unfolding write_gist_def slift_bind
    by (auto intro!: emits_rules assms(1) simp: gist_url_home slift_bind split: sum.split)
  show "emits P (gist_rounds env (ask reply) gist_id token vault_id request n)"
    by (induction n) (auto intro!: emits_rules fetch put simp: slift_bind split: sum.split prod.split)
  show "emits P (create_gist env (ask reply) token vault_id)"
    unfolding create_gist_def slift_bind
    by (auto intro!: emits_rules assms(1) simp: slift_bind split: sum.split)
qed

lemma webdav_requests:
  assumes "\<And>r. hq_auth r = with_basic_auth user pass \<Longrightarrow> hq_url r = endpoint \<Longrightarrow> P r"
  shows "emits P (webdav_rounds env (ask reply) endpoint user pass vault_id request n)"
proof -
  have fetch: "emits P (fetch_webdav env (ask reply) endpoint user pass vault_id)"
    unfolding fetch_webdav_def
    by (auto intro!: emits_rules assms simp: slift_bind split: sum.split)
  have put: "emits P (write_webdav env (ask reply) endpoint user pass d etag)" for d etag
    unfolding write_webdav_def slift_bind
    by (auto intro!: emits_rules assms simp: slift_bind Let_def split: sum.split option.split)
  show ?thesis
    by (induction n) (auto intro!: emits_rules fetch put simp: slift_bind split: sum.split prod.split)
qed

lemma validate_webdav:
  assumes "validate_provider env (WebDav endpoint user pass) = Inr ()"
  shows "\<exists>u. pv_url env (trim_end_matches ''/'' (trim endpoint)) = Some u \<and>
             (url_scheme u = ''https'' \<or>
              url_scheme u = ''http'' \<and> (\<exists>h. url_host u = Some h \<and> h \<in> {''localhost'', ''127.0.0.1'', ''::1''}))"
  using assms
  by (auto simp: validate_provider_def normalize_https_url_def rbind_Inr_iff ok_or_def Let_def List.member_iff
      split: option.splits if_splits)


definition open_provider :: provider_env where
  "open_provider = sample_provider\<lparr>pv_url := (\<lambda>u. Some \<lparr>url_text = u, url_scheme = ''https'', url_host = Some ''dav'',
     url_path = ''/'', url_query = None, url_fragment = None, url_username = [], url_password = None\<rparr>)\<rparr>"

lemma open_exchange:
  "exchange open_provider (ask (\<lambda>h. Inr (answer 404 None []))) (WebDav ''https://dav/f'' ''u'' ''p'') ''v''
     \<lparr>xq_cursor = None, xq_envelope = None\<rparr> [] =
   ([request_of Get ''https://dav/f'' (Basic ''u'' ''p'')],
    Inr \<lparr>xr_cursor = show_nat 0, xr_envelopes = [], xr_has_more = False\<rparr>)"
proof -
  have v: "validate_provider open_provider (WebDav ''https://dav/f'' ''u'' ''p'') = Inr ()"
  proof -
    have u: "normalize_https_url open_provider ''https://dav/f'' l True = Inr (trim_end_matches ''/'' (trim ''https://dav/f''))" for l
      by (simp add: normalize_https_url_def open_provider_def ok_or_def Let_def)
    have p: "validate_secret l ''p'' 0 4096 = Inr ()" for l by (simp add: validate_secret_def line_break_def)
    show ?thesis by (simp add: validate_provider_def u p line_break_def)
  qed
  have "show_nat 0 = ''0''" by code_simp
  then have z: "parse_usize ''0'' = Some 0" using parse_usize_show_nat [of 0] by simp
  show ?thesis
    by (simp add: exchange_def slift_bind v exchange_webdav_def max_write_attempts_def eval_nat_numeral
        fetch_webdav_def with_basic_auth_def sbind_def smap_err_def ask_def sreturn_def slift_def
        apply_object_exchange_def validate_document_def new_document_def z ok_or_def)
qed


end
