(* ===== verification/Cloud_Sync.thy ===== *)
theory Cloud_Sync
  imports Sync_Local Sync_Crypto Cloud_Provider
begin

text \<open>
  The cloud synchronisation, \<^verbatim>\<open>src-tauri/src/cloud_sync/mod.rs\<close> and
  \<^verbatim>\<open>portable_file.rs\<close>: pairing, preparing an upload from the outbox, the rounds of a
  synchronisation, and the portable file.  It composes the storage (\<^verbatim>\<open>Sync_Store\<close>,
  \<^verbatim>\<open>Sync_Apply\<close>), the encryption (\<^verbatim>\<open>Sync_Crypto\<close>) and the transport: \<open>transport\<close> is an exchange
  with the provider on an arbitrary world, and \<open>meanwhile\<close> is what the application does to the database
  while the exchange is on its way.  The provider is not trusted.
\<close>

section \<open>Types\<close>

definition pairing_prefix :: string where "pairing_prefix = ''vibeshell-sync-v2.''"
definition pairing_version :: nat where "pairing_version = 2"
definition max_outbox_batch :: nat where "max_outbox_batch = 256"
definition max_sync_rounds :: nat where "max_sync_rounds = 64"
definition max_pairing_code_bytes :: nat where "max_pairing_code_bytes = 16 * 1024"
definition max_provider_ciphertext_bytes :: nat where "max_provider_ciphertext_bytes = 768 * 1024"

datatype cloud_error = StorageError sync_error | CryptoError sync_crypto_error | CloudError string

text \<open>A batch on the wire: as \<open>pending_sync_batch\<close>, the payloads as JSON values \<open>'v\<close>.\<close>

record 'v wire_batch =
  wb_device_id :: string
  wb_changes :: "'v sync_change list"

record pairing_bundle =
  bu_version :: nat
  bu_provider :: sync_provider_config
  bu_vault_id :: string
  bu_vault_key :: string

record pairing_info =
  pi_provider :: sync_provider_kind
  pi_endpoint :: string
  pi_vault_id :: string
  pi_pairing_code :: string

record unlocked_vault =
  uv_provider :: sync_provider_config
  uv_vault_id :: string
  uv_key :: vault_key

record runtime_status =
  rt_syncing :: bool
  rt_last_success_at :: "int option"
  rt_last_error :: "cloud_error option"
  rt_conflicts :: nat

record cloud_sync_report =
  cr_uploaded :: nat
  cr_downloaded :: nat
  cr_applied :: nat
  cr_ignored :: nat
  cr_conflicts :: nat
  cr_pending_changes :: nat
  cr_cursor :: "string option"

record cloud_sync_status =
  ss_unlocked :: bool
  ss_syncing :: bool
  ss_provider :: "sync_provider_kind option"
  ss_endpoint :: "string option"
  ss_vault_id :: "string option"
  ss_pending_changes :: nat
  ss_conflicts :: nat
  ss_last_success_at :: "int option"
  ss_last_error :: "cloud_error option"

text \<open>Fresh UUIDs and clock readings are numbered by \<open>db_draws\<close>, as in the storage.\<close>

record 'v cloud_env =
  cl_sync :: "'v sync_env"
  cl_crypto :: "'v wire_batch crypto_env"
  cl_provider :: provider_env
  cl_value :: "sync_payload \<Rightarrow> 'v"
  cl_parse_envelope :: "string \<Rightarrow> encrypted_sync_batch option"
  cl_envelope_json :: "encrypted_sync_batch \<Rightarrow> string + string"
  cl_bundle_json :: "pairing_bundle \<Rightarrow> string + string"
  cl_parse_bundle :: "string \<Rightarrow> pairing_bundle option"

record cloud_manager =
  cm_vault :: "unlocked_vault option"
  cm_runtime :: runtime_status

text \<open>The errors of the parts as errors of the whole.\<close>

definition storage :: "sync_error + 'a \<Rightarrow> cloud_error + 'a" where
  "storage r = map_sum StorageError id r"

definition crypto :: "sync_crypto_error + 'a \<Rightarrow> cloud_error + 'a" where
  "crypto r = map_sum CryptoError id r"

definition reason :: "string + 'a \<Rightarrow> cloud_error + 'a" where
  "reason r = map_sum CloudError id r"

lemma storage_Inr [simp]: "storage r = Inr x \<longleftrightarrow> r = Inr x"
  by (cases r) (auto simp: storage_def)

lemma crypto_Inr [simp]: "crypto r = Inr x \<longleftrightarrow> r = Inr x"
  by (cases r) (auto simp: crypto_def)

lemma reason_Inr [simp]: "reason r = Inr x \<longleftrightarrow> r = Inr x"
  by (cases r) (auto simp: reason_def)

section \<open>Pairing\<close>

definition encode_pairing_bundle :: "'v cloud_env \<Rightarrow> pairing_bundle \<Rightarrow> cloud_error + string" where
  "encode_pairing_bundle env bundle =
     rbind (reason (cl_bundle_json env bundle)) (\<lambda>json.
       Inr (pairing_prefix @ cy_encode (cl_crypto env) json))"

definition decode_pairing_bundle :: "'v cloud_env \<Rightarrow> string \<Rightarrow> cloud_error + pairing_bundle" where
  "decode_pairing_bundle env code =
     (if max_pairing_code_bytes < length code
      then Inl (CloudError ''Cloud sync pairing code exceeds the size limit'')
      else
        rbind (ok_or (strip_prefix pairing_prefix (trim code)) (CloudError ''Invalid VibeShell cloud sync pairing code'')) (\<lambda>encoded.
        rbind (ok_or (cy_decode (cl_crypto env) encoded) (CloudError ''Invalid VibeShell cloud sync pairing code'')) (\<lambda>decoded.
        rbind (ok_or (cl_parse_bundle env decoded) (CloudError ''Invalid cloud sync pairing payload'')) (\<lambda>bundle.
        if bu_version bundle \<noteq> pairing_version then Inl (CloudError ''Unsupported cloud sync pairing version'')
        else Inr bundle))))"

definition validate_opaque_id :: "string \<Rightarrow> string \<Rightarrow> cloud_error + unit" where
  "validate_opaque_id label v =
     ensure (v \<noteq> [] \<and> length v \<le> 128 \<and> list_all id_char v) (CloudError (''Invalid '' @ label))"

section \<open>Preparing an upload\<close>

definition wire_change :: "'v cloud_env \<Rightarrow> sync_payload sync_change \<Rightarrow> 'v sync_change" where
  "wire_change env c =
     \<lparr>sc_schema_version = sc_schema_version c, sc_change_id = sc_change_id c, sc_entity_kind = sc_entity_kind c,
      sc_entity_id = sc_entity_id c, sc_revision = sc_revision c, sc_deleted = sc_deleted c,
      sc_payload = map_option (cl_value env) (sc_payload c)\<rparr>"

definition wire_of :: "'v cloud_env \<Rightarrow> pending_sync_batch \<Rightarrow> 'v wire_batch" where
  "wire_of env pending =
     \<lparr>wb_device_id = pb_device_id pending, wb_changes = map (wire_change env) (pb_changes pending)\<rparr>"

definition build_sync_envelope ::
    "'v cloud_env \<Rightarrow> unlocked_vault \<Rightarrow> string option \<Rightarrow> pending_sync_batch \<Rightarrow> string \<Rightarrow> cloud_error + sync_envelope" where
  "build_sync_envelope env vault cursor pending batch_id =
     rbind (crypto (encrypt_batch (cl_crypto env) (uv_key vault)
        \<lparr>ctx_vault_id = uv_vault_id vault, ctx_batch_id = batch_id,
         ctx_schema_version = sync_change_schema_version, ctx_device_id = pb_device_id pending,
         ctx_cursor = cursor\<rparr> (wire_of env pending))) (\<lambda>encrypted.
     rbind (reason (cl_envelope_json env encrypted)) (\<lambda>json.
     Inr \<lparr>en_envelope_id = batch_id, en_ciphertext = json\<rparr>))"

lemma export_length: "export_pending_changes limit db = Inr pending \<Longrightarrow> length (pb_changes pending) \<le> limit"
  by (auto simp: export_pending_changes_def rbind_Inr_iff split: if_splits)

lemma halving: "xs \<noteq> [] \<Longrightarrow> length xs \<noteq> 1 \<Longrightarrow> length xs \<le> limit \<Longrightarrow> max (length xs div 2) 1 < limit"
  by (cases xs; cases "tl xs") auto

text \<open>The loop that halves the batch until its envelope fits.\<close>

function fit_upload ::
    "'v cloud_env \<Rightarrow> unlocked_vault \<Rightarrow> string option \<Rightarrow> nat \<Rightarrow> sync_db \<Rightarrow>
     sync_db \<times> (cloud_error + sync_envelope option)" where
  "fit_upload env vault cursor limit db =
     (case export_pending_changes limit db of
        Inl e \<Rightarrow> (db, Inl (StorageError e))
      | Inr pending \<Rightarrow>
          if pb_changes pending = [] then (db, Inr None)
          else
            (let batch_id = env_uuid (cl_sync env) (db_draws db);
                 db1 = db\<lparr>db_draws := db_draws db + 1\<rparr> in
             case build_sync_envelope env vault cursor pending batch_id of
               Inl e \<Rightarrow> (db1, Inl e)
             | Inr envelope \<Rightarrow>
                 if length (en_ciphertext envelope) \<le> max_provider_ciphertext_bytes
                 then (case save_pending_upload
                               \<lparr>pu_vault_id = uv_vault_id vault, pu_envelope_id = en_envelope_id envelope,
                                pu_ciphertext = en_ciphertext envelope,
                                pu_change_ids = map sc_change_id (pb_changes pending)\<rparr> db1 of
                         Inl e \<Rightarrow> (db1, Inl (StorageError e))
                       | Inr db2 \<Rightarrow> (db2, Inr (Some envelope)))
                 else if length (pb_changes pending) = 1
                 then (db1, Inl (CloudError (''Sync change '' @ sc_change_id (hd (pb_changes pending)) @
                                   '' exceeds the provider envelope size limit'')))
                 else fit_upload env vault cursor (max (length (pb_changes pending) div 2) 1) db1))"
  by pat_completeness auto
termination
  by (relation "measure (\<lambda>(env, vault, cursor, limit, db). limit)")
     (simp_all add: halving export_length del: One_nat_def max_less_iff_conj)

declare fit_upload.simps [simp del]

definition prepare_upload ::
    "'v cloud_env \<Rightarrow> unlocked_vault \<Rightarrow> string option \<Rightarrow> sync_db \<Rightarrow> sync_db \<times> (cloud_error + sync_envelope option)" where
  "prepare_upload env vault cursor db =
     (case load_pending_upload (uv_vault_id vault) db of
        Inl e \<Rightarrow> (db, Inl (StorageError e))
      | Inr (Some upload) \<Rightarrow>
          (db, Inr (Some \<lparr>en_envelope_id = pu_envelope_id upload, en_ciphertext = pu_ciphertext upload\<rparr>))
      | Inr None \<Rightarrow> fit_upload env vault cursor max_outbox_batch db)"

section \<open>The rounds\<close>

text \<open>Decrypting one page of envelopes; every check precedes the database.\<close>

definition open_envelope ::
    "'v cloud_env \<Rightarrow> unlocked_vault \<Rightarrow> sync_envelope \<Rightarrow> cloud_error + 'v wire_batch" where
  "open_envelope env vault provider_envelope =
     rbind (ok_or (cl_parse_envelope env (en_ciphertext provider_envelope))
              (CloudError ''Provider envelope is not a valid encrypted sync batch'')) (\<lambda>encrypted.
     if ctx_batch_id (eb_context encrypted) \<noteq> en_envelope_id provider_envelope
     then Inl (CloudError ''Provider envelope ID does not match its authenticated batch ID'')
     else if ctx_vault_id (eb_context encrypted) \<noteq> uv_vault_id vault
     then Inl (CloudError ''Provider returned an encrypted batch for another vault'')
     else if ctx_schema_version (eb_context encrypted) \<noteq> sync_change_schema_version
     then Inl (CloudError ''Provider returned an unsupported sync schema version'')
     else
       rbind (crypto (decrypt_batch (cl_crypto env) (uv_key vault) encrypted)) (\<lambda>batch.
       if wb_device_id batch \<noteq> ctx_device_id (eb_context encrypted)
       then Inl (CloudError ''Encrypted sync batch device ID mismatch'')
       else Inr batch))"

fun collect_changes ::
    "'v cloud_env \<Rightarrow> unlocked_vault \<Rightarrow> 'v sync_change list \<Rightarrow> sync_envelope list \<Rightarrow> cloud_error + 'v sync_change list" where
  "collect_changes env vault remote_changes [] = Inr remote_changes"
| "collect_changes env vault remote_changes (e # es) =
     rbind (open_envelope env vault e) (\<lambda>batch.
     let remote_changes = remote_changes @ wb_changes batch in
     if max_remote_changes_per_page < length remote_changes
     then Inl (CloudError ''Cloud sync provider page contains too many changes'')
     else collect_changes env vault remote_changes es)"

type_synonym 'w transport = "sync_provider_config \<Rightarrow> string \<Rightarrow> exchange_request \<Rightarrow> ('w, exchange_response) io"

text \<open>What follows a successful exchange: apply, acknowledge, and see whether anything is left.\<close>

definition finish_round ::
    "'v cloud_env \<Rightarrow> unlocked_vault \<Rightarrow> sync_envelope option \<Rightarrow> exchange_response \<Rightarrow> cloud_sync_report \<Rightarrow> sync_db \<Rightarrow>
     sync_db \<times> (cloud_error + cloud_sync_report \<times> bool)" where
  "finish_round env vault upload response report db =
     (case rbind (collect_changes env vault [] (xr_envelopes response)) (\<lambda>remote_changes.
           rbind (storage (apply_remote_batch_for_vault (cl_sync env) (uv_vault_id vault) (xr_cursor response) remote_changes db))
             (\<lambda>(db, applied). Inr (length remote_changes, db, applied))) of
        Inl e \<Rightarrow> (db, Inl e)
      | Inr (downloaded, db1, applied) \<Rightarrow>
          (let report = report\<lparr>cr_downloaded := cr_downloaded report + downloaded,
                 cr_applied := cr_applied report + rr_applied applied,
                 cr_ignored := cr_ignored report + rr_ignored applied,
                 cr_conflicts := cr_conflicts report + length (rr_conflicts applied)\<rparr> in
           case (case upload of
                   None \<Rightarrow> Inr (0, db1)
                 | Some u \<Rightarrow> acknowledge_pending_upload (uv_vault_id vault) (en_envelope_id u) db1) of
             Inl e \<Rightarrow> (db1, Inl (StorageError e))
           | Inr (n, db2) \<Rightarrow>
               (case export_pending_changes 1 db2 of
                  Inl e \<Rightarrow> (db2, Inl (StorageError e))
                | Inr remaining \<Rightarrow>
                    (db2, Inr (report\<lparr>cr_uploaded := cr_uploaded report + n\<rparr>,
                               xr_has_more response \<or> pb_changes remaining \<noteq> [])))))"

fun sync_rounds ::
    "'v cloud_env \<Rightarrow> 'w transport \<Rightarrow> ('w \<Rightarrow> sync_db \<Rightarrow> sync_db) \<Rightarrow> unlocked_vault \<Rightarrow> nat \<Rightarrow> string option \<Rightarrow>
     cloud_sync_report \<Rightarrow> sync_db \<times> 'w \<Rightarrow> (sync_db \<times> 'w) \<times> (cloud_error + cloud_sync_report)" where
  "sync_rounds env transport meanwhile vault 0 cursor report st =
     (st, Inl (CloudError ''Cloud sync did not drain within the round limit''))"
| "sync_rounds env transport meanwhile vault (Suc n) cursor report (db, w) =
     (case prepare_upload env vault cursor db of
        (db1, Inl e) \<Rightarrow> ((db1, w), Inl e)
      | (db1, Inr upload) \<Rightarrow>
          (case transport (uv_provider vault) (uv_vault_id vault)
                  \<lparr>xq_cursor = cursor, xq_envelope = upload\<rparr> w of
             (w1, Inl e) \<Rightarrow> ((meanwhile w1 db1, w1), Inl (CloudError e))
           | (w1, Inr response) \<Rightarrow>
               (case finish_round env vault upload response report (meanwhile w1 db1) of
                  (db2, Inl e) \<Rightarrow> ((db2, w1), Inl e)
                | (db2, Inr (report, again)) \<Rightarrow>
                    (if \<not> again
                     then ((db2, w1), Inr (report\<lparr>cr_pending_changes := 0, cr_cursor := Some (xr_cursor response)\<rparr>))
                     else sync_rounds env transport meanwhile vault n (Some (xr_cursor response)) report (db2, w1)))))"

definition empty_sync_report :: cloud_sync_report where
  "empty_sync_report = \<lparr>cr_uploaded = 0, cr_downloaded = 0, cr_applied = 0, cr_ignored = 0, cr_conflicts = 0,
     cr_pending_changes = 0, cr_cursor = None\<rparr>"

definition run_sync ::
    "'v cloud_env \<Rightarrow> 'w transport \<Rightarrow> ('w \<Rightarrow> sync_db \<Rightarrow> sync_db) \<Rightarrow> unlocked_vault \<Rightarrow> sync_db \<times> 'w \<Rightarrow>
     (sync_db \<times> 'w) \<times> (cloud_error + cloud_sync_report)" where
  "run_sync env transport meanwhile vault st =
     (case current_remote_cursor_for_vault (fst st) (uv_vault_id vault) of
        Inl e \<Rightarrow> (st, Inl (StorageError e))
      | Inr cursor \<Rightarrow> sync_rounds env transport meanwhile vault max_sync_rounds cursor empty_sync_report st)"

section \<open>The manager\<close>

definition set_unlocked :: "pairing_bundle \<Rightarrow> vault_key \<Rightarrow> cloud_manager \<Rightarrow> cloud_manager" where
  "set_unlocked bundle key m =
     \<lparr>cm_vault = Some \<lparr>uv_provider = bu_provider bundle, uv_vault_id = bu_vault_id bundle, uv_key = key\<rparr>,
      cm_runtime = (cm_runtime m)\<lparr>rt_last_success_at := None, rt_last_error := None, rt_conflicts := 0\<rparr>\<rparr>"

definition info_of :: "sync_provider_config \<Rightarrow> string \<Rightarrow> string \<Rightarrow> pairing_info" where
  "info_of provider vault_id pairing_code =
     \<lparr>pi_provider = provider_kind provider, pi_endpoint = provider_target provider, pi_vault_id = vault_id,
      pi_pairing_code = pairing_code\<rparr>"

definition create_vault_with_provider ::
    "'v cloud_env \<Rightarrow> 'w http \<Rightarrow> sync_provider_config \<Rightarrow> cloud_manager \<times> sync_db \<times> 'w \<Rightarrow>
     (cloud_manager \<times> sync_db \<times> 'w) \<times> (cloud_error + pairing_info)" where
  "create_vault_with_provider env send provider0 st =
     (case st of (m, db, w) \<Rightarrow>
       case validate_provider (cl_provider env) provider0 of
         Inl e \<Rightarrow> (st, Inl (CloudError e))
       | Inr _ \<Rightarrow>
           (let vault_id = env_uuid (cl_sync env) (db_draws db); db = db\<lparr>db_draws := db_draws db + 1\<rparr> in
            case initialize_provider (cl_provider env) send provider0 vault_id w of
              (w, Inl e) \<Rightarrow> ((m, db, w), Inl (CloudError e))
            | (w, Inr provider) \<Rightarrow>
                (case rbind (crypto (generate_key (cl_crypto env))) (\<lambda>key.
                      let bundle = \<lparr>bu_version = pairing_version, bu_provider = provider, bu_vault_id = vault_id,
                                    bu_vault_key = export_key (cl_crypto env) key\<rparr> in
                      rbind (encode_pairing_bundle env bundle) (\<lambda>code.
                      rbind (storage (activate_vault (cl_sync env) (bu_vault_id bundle) db)) (\<lambda>(_, db).
                      Inr (key, bundle, code, db)))) of
                   Inl e \<Rightarrow> ((m, db, w), Inl e)
                 | Inr (key, bundle, code, db) \<Rightarrow>
                     ((set_unlocked bundle key m, db, w), Inr (info_of provider vault_id code)))))"

definition create_github_gist_vault ::
    "'v cloud_env \<Rightarrow> 'w http \<Rightarrow> string option \<Rightarrow> string \<Rightarrow> cloud_manager \<times> sync_db \<times> 'w \<Rightarrow>
     (cloud_manager \<times> sync_db \<times> 'w) \<times> (cloud_error + pairing_info)" where
  "create_github_gist_vault env send gist_id token = create_vault_with_provider env send (GithubGist gist_id token)"

definition create_webdav_vault ::
    "'v cloud_env \<Rightarrow> 'w http \<Rightarrow> string \<Rightarrow> string \<Rightarrow> string \<Rightarrow> cloud_manager \<times> sync_db \<times> 'w \<Rightarrow>
     (cloud_manager \<times> sync_db \<times> 'w) \<times> (cloud_error + pairing_info)" where
  "create_webdav_vault env send endpoint username password =
     create_vault_with_provider env send (WebDav (trim_end_matches ''/'' (trim endpoint)) username password)"

definition join_vault ::
    "'v cloud_env \<Rightarrow> string \<Rightarrow> cloud_manager \<times> sync_db \<Rightarrow> (cloud_manager \<times> sync_db) \<times> (cloud_error + pairing_info)" where
  "join_vault env pairing_code st =
     (case st of (m, db) \<Rightarrow>
       case rbind (decode_pairing_bundle env pairing_code) (\<lambda>bundle.
            rbind (reason (validate_provider (cl_provider env) (bu_provider bundle))) (\<lambda>_.
            rbind (case bu_provider bundle of
                     GithubGist None _ \<Rightarrow> Inl (CloudError ''GitHub Gist pairing code does not contain a Gist ID'')
                   | _ \<Rightarrow> Inr ()) (\<lambda>_.
            rbind (validate_opaque_id ''vault ID'' (bu_vault_id bundle)) (\<lambda>_.
            rbind (crypto (import_key (cl_crypto env) (bu_vault_key bundle))) (\<lambda>key.
            rbind (storage (activate_vault (cl_sync env) (bu_vault_id bundle) db)) (\<lambda>(_, db).
            Inr (bundle, key, db))))))) of
         Inl e \<Rightarrow> (st, Inl e)
       | Inr (bundle, key, db) \<Rightarrow>
           (case encode_pairing_bundle env bundle of
              Inl e \<Rightarrow> ((m, db), Inl e)
            | Inr code \<Rightarrow>
                ((set_unlocked bundle key m, db), Inr (info_of (bu_provider bundle) (bu_vault_id bundle) code))))"

definition lock_vault :: "cloud_manager \<Rightarrow> cloud_manager" where
  "lock_vault m =
     \<lparr>cm_vault = None, cm_runtime = (cm_runtime m)\<lparr>rt_syncing := False, rt_last_error := None, rt_conflicts := 0\<rparr>\<rparr>"

definition cloud_status :: "sync_db \<Rightarrow> cloud_manager \<Rightarrow> cloud_sync_status" where
  "cloud_status db m =
     (let vault = cm_vault m; rt = cm_runtime m in
      \<lparr>ss_unlocked = vault \<noteq> None, ss_syncing = rt_syncing rt,
       ss_provider = map_option (\<lambda>v. provider_kind (uv_provider v)) vault,
       ss_endpoint = map_option (\<lambda>v. provider_target (uv_provider v)) vault,
       ss_vault_id = map_option uv_vault_id vault, ss_pending_changes = pending_change_count db,
       ss_conflicts = rt_conflicts rt, ss_last_success_at = rt_last_success_at rt,
       ss_last_error = rt_last_error rt\<rparr>)"

text \<open>\<open>now\<close> is the clock when the synchronisation has ended.\<close>

definition sync_now ::
    "'v cloud_env \<Rightarrow> 'w transport \<Rightarrow> ('w \<Rightarrow> sync_db \<Rightarrow> sync_db) \<Rightarrow> int \<Rightarrow> cloud_manager \<times> sync_db \<times> 'w \<Rightarrow>
     (cloud_manager \<times> sync_db \<times> 'w) \<times> (cloud_error + cloud_sync_report)" where
  "sync_now env transport meanwhile now st =
     (case st of (m, db, w) \<Rightarrow>
       case cm_vault m of
         None \<Rightarrow> (st, Inl (CloudError ''Cloud sync is locked; enter a pairing code first''))
       | Some vault \<Rightarrow>
           (let m = m\<lparr>cm_runtime := (cm_runtime m)\<lparr>rt_syncing := True, rt_last_error := None\<rparr>\<rparr> in
            case run_sync env transport meanwhile vault (db, w) of
              ((db, w), result) \<Rightarrow>
                (let rt = (cm_runtime m)\<lparr>rt_syncing := False\<rparr>;
                     rt = (case result of
                             Inr report \<Rightarrow> rt\<lparr>rt_last_success_at := Some now, rt_last_error := None,
                                              rt_conflicts := cr_conflicts report\<rparr>
                           | Inl e \<Rightarrow> rt\<lparr>rt_last_error := Some e\<rparr>) in
                 ((m\<lparr>cm_runtime := rt\<rparr>, db, w), result))))"

section \<open>The portable file\<close>

definition portable_file_format :: string where "portable_file_format = ''vibeshell-portable-sync''"
definition portable_file_version :: nat where "portable_file_version = 1"
definition max_portable_file_bytes :: nat where "max_portable_file_bytes = 16 * 1024 * 1024"

record 'v portable_sync_file =
  pf_format :: string
  pf_version :: nat
  pf_exported_at :: int
  pf_batch :: "'v wire_batch"

datatype file_operation = ExportFile | ImportFile

record cloud_sync_file_report =
  fr_operation :: file_operation
  fr_path :: string
  fr_exported :: nat
  fr_imported :: nat
  fr_applied :: nat
  fr_ignored :: nat
  fr_conflicts :: nat

text \<open>\<open>to_pretty\<close> and \<open>from_json\<close> are serde's, \<open>write_file\<close> the outcome of writing the text.\<close>

definition export_to_path ::
    "'v cloud_env \<Rightarrow> ('v portable_sync_file \<Rightarrow> string + string) \<Rightarrow> (string \<Rightarrow> string + unit) \<Rightarrow> string \<Rightarrow>
     sync_db \<Rightarrow> sync_db \<times> (cloud_error + cloud_sync_file_report \<times> string)" where
  "export_to_path env to_pretty write_file path db =
     (case export_snapshot (cl_sync env) db of
        Inl e \<Rightarrow> (db, Inl (StorageError e))
      | Inr (db1, batch) \<Rightarrow>
          (let file = \<lparr>pf_format = portable_file_format, pf_version = portable_file_version,
                       pf_exported_at = env_now (cl_sync env) (db_draws db1), pf_batch = wire_of env batch\<rparr>;
               db2 = db1\<lparr>db_draws := db_draws db1 + 1\<rparr> in
           (db2,
            rbind (reason (to_pretty file)) (\<lambda>contents.
            if max_portable_file_bytes < length contents
            then Inl (CloudError ''Portable sync export exceeds the 16 MiB size limit'')
            else rbind (case write_file contents of
                          Inl e \<Rightarrow> Inl (CloudError (''Failed to write portable sync file: '' @ path))
                        | Inr _ \<Rightarrow> Inr ()) (\<lambda>_.
                 Inr (\<lparr>fr_operation = ExportFile, fr_path = path, fr_exported = length (pb_changes batch),
                       fr_imported = 0, fr_applied = 0, fr_ignored = 0, fr_conflicts = 0\<rparr>, contents))))))"

text \<open>\<open>size_found\<close> is the size the metadata show, \<open>contents_found\<close> what reading the file yields.\<close>

definition import_from_path ::
    "'v cloud_env \<Rightarrow> (string \<Rightarrow> 'v portable_sync_file option) \<Rightarrow> string \<Rightarrow> string + nat \<Rightarrow> string + string \<Rightarrow>
     sync_db \<Rightarrow> sync_db \<times> (cloud_error + cloud_sync_file_report)" where
  "import_from_path env from_json path size_found contents_found db =
     (case rbind (case size_found of
                    Inl e \<Rightarrow> Inl (CloudError (''Failed to inspect portable sync file: '' @ path))
                  | Inr n \<Rightarrow> ensure (n \<le> max_portable_file_bytes)
                               (CloudError ''Portable sync import exceeds the 16 MiB size limit'')) (\<lambda>_.
           rbind (case contents_found of
                    Inl e \<Rightarrow> Inl (CloudError (''Failed to read portable sync file: '' @ path))
                  | Inr c \<Rightarrow> Inr c) (\<lambda>contents.
           rbind (ensure (length contents \<le> max_portable_file_bytes)
                    (CloudError ''Portable sync import exceeds the 16 MiB size limit'')) (\<lambda>_.
           rbind (ok_or (from_json contents) (CloudError ''Invalid VibeShell portable sync file'')) (\<lambda>file.
           if pf_format file \<noteq> portable_file_format \<or> pf_version file \<noteq> portable_file_version
           then Inl (CloudError ''Unsupported VibeShell portable sync file version'')
           else if list_ex sc_deleted (wb_changes (pf_batch file))
           then Inl (CloudError ''Portable sync files cannot contain deletion records'')
           else
             rbind (storage (apply_imported_changes (cl_sync env) (wb_changes (pf_batch file)) db)) (\<lambda>(db, report).
             Inr (db, \<lparr>fr_operation = ImportFile, fr_path = path, fr_exported = 0,
                       fr_imported = length (wb_changes (pf_batch file)), fr_applied = rr_applied report,
                       fr_ignored = rr_ignored report, fr_conflicts = length (rr_conflicts report)\<rparr>)))))) of
        Inl e \<Rightarrow> (db, Inl e)
      | Inr (db, report) \<Rightarrow> (db, Inr report))"

end
