(* ===== verification/Cloud_Sync_Run.thy ===== *)
theory Cloud_Sync_Run
  imports Cloud_Sync
begin

text \<open>
  The properties of a synchronisation run.  The lemmas follow the code: \<open>fit_upload_effect\<close> and
  \<open>prepare_upload_effect\<close> for the upload, \<open>apply_page_effect\<close> and \<open>acknowledge_effect\<close> for what follows an
  exchange, \<open>finish_round_effect\<close> and \<open>one_round\<close> for one round, \<open>sync_rounds_effect\<close> for all of them.
  \<open>run_ok\<close> relates the database and the requests before a run to those after it.
\<close>

section \<open>What the codecs promise\<close>

definition cloud_codec_ok :: "'v cloud_env \<Rightarrow> bool" where
  "cloud_codec_ok env \<longleftrightarrow> crypto_ok (cl_crypto env) \<and>
     (\<forall>e s. cl_envelope_json env e = Inr s \<longrightarrow> cl_parse_envelope env s = Some e)"

lemma open_built_envelope:
  assumes "cloud_codec_ok env" "build_sync_envelope env vault cursor pending batch_id = Inr e"
  shows "open_envelope env vault e = Inr (wire_of env pending) \<and> en_envelope_id e = batch_id"
proof -
  let ?ctx = "\<lparr>ctx_vault_id = uv_vault_id vault, ctx_batch_id = batch_id,
         ctx_schema_version = sync_change_schema_version, ctx_device_id = pb_device_id pending,
         ctx_cursor = cursor\<rparr>"
  from assms(2) obtain encrypted json where
    e: "encrypt_batch (cl_crypto env) (uv_key vault) ?ctx (wire_of env pending) = Inr encrypted"
      "cl_envelope_json env encrypted = Inr json" "e = \<lparr>en_envelope_id = batch_id, en_ciphertext = json\<rparr>"
    by (auto simp: build_sync_envelope_def rbind_Inr_iff)
  from decrypt_encrypt [OF _ e(1)] assms(1) have
    d: "decrypt_batch (cl_crypto env) (uv_key vault) encrypted = Inr (wire_of env pending)" "eb_context encrypted = ?ctx"
    by (auto simp: cloud_codec_ok_def)
  from assms(1) e(2) have "cl_parse_envelope env json = Some encrypted" by (simp add: cloud_codec_ok_def)
  with d e(3) show ?thesis by (simp add: open_envelope_def crypto_def wire_of_def)
qed

section \<open>Keys of changes\<close>

definition batch_keys :: "'v wire_batch \<Rightarrow> (string \<times> entity \<times> string) set" where
  "batch_keys batch = (\<lambda>c. (sc_change_id c, (sc_entity_kind c, sc_entity_id c), sc_revision c)) ` set (wb_changes batch)"

lemma exported_keys:
  assumes "export_pending_changes limit db = Inr pending"
  shows "(\<lambda>c. (sc_change_id c, (sc_entity_kind c, sc_entity_id c), sc_revision c)) ` set (pb_changes pending) \<subseteq> set (outbox_keys db)"
proof -
  from assms have "set (pb_changes pending) \<subseteq> change_of_outbox ` set (db_outbox db)"
    by (auto simp: export_pending_changes_def rbind_Inr_iff split: if_splits dest!: in_set_takeD)
  then show ?thesis by (force simp: outbox_keys_def change_of_outbox_def)
qed

lemma wire_keys:
  "batch_keys (wire_of env pending) = (\<lambda>c. (sc_change_id c, (sc_entity_kind c, sc_entity_id c), sc_revision c)) ` set (pb_changes pending)"
  by (simp add: batch_keys_def wire_of_def image_image wire_change_def)

text \<open>The upload saved for the vault is within the provider's limit and opens to a batch with every
  queued change that it will acknowledge.\<close>

definition uploads_sound :: "'v cloud_env \<Rightarrow> unlocked_vault \<Rightarrow> sync_db \<Rightarrow> bool" where
  "uploads_sound env vault db \<longleftrightarrow>
     (\<forall>u. db_uploads db (uv_vault_id vault) = Some u \<longrightarrow>
        length (pu_ciphertext u) \<le> max_provider_ciphertext_bytes \<and>
        (\<exists>batch. open_envelope env vault \<lparr>en_envelope_id = pu_envelope_id u, en_ciphertext = pu_ciphertext u\<rparr> = Inr batch \<and>
           (\<forall>k \<in> set (outbox_keys db). fst k \<in> set (pu_change_ids u) \<longrightarrow> k \<in> batch_keys batch)))"

lemma distinct_fst_eq: "distinct (map fst xs) \<Longrightarrow> x \<in> set xs \<Longrightarrow> y \<in> set xs \<Longrightarrow> fst x = fst y \<Longrightarrow> x = y"
  by (simp add: distinct_map inj_on_def)

lemma exported_sound:
  assumes "distinct (map fst (outbox_keys db))" "export_pending_changes limit db = Inr pending"
    "k \<in> set (outbox_keys db)" "fst k \<in> sc_change_id ` set (pb_changes pending)"
  shows "k \<in> batch_keys (wire_of env pending)"
proof -
  from assms(4) obtain c where c: "c \<in> set (pb_changes pending)" "fst k = sc_change_id c" by auto
  let ?k = "(sc_change_id c, (sc_entity_kind c, sc_entity_id c), sc_revision c)"
  have "?k \<in> set (outbox_keys db)" using exported_keys [OF assms(2)] c(1) by blast
  with assms(1,3) c(2) have "k = ?k" by (intro distinct_fst_eq) auto
  with c(1) show ?thesis by (auto simp: wire_keys)
qed

text \<open>Preparing an upload touches nothing but the saved uploads and the counter of UUIDs.\<close>

definition bookkeeping :: "sync_db \<Rightarrow> sync_db \<Rightarrow> bool" where
  "bookkeeping db db' \<longleftrightarrow> db' = db\<lparr>db_draws := db_draws db', db_uploads := db_uploads db'\<rparr>"

lemma bookkeeping_refl [simp]: "bookkeeping db db" "bookkeeping db (db\<lparr>db_draws := n\<rparr>)"
  "bookkeeping db (db\<lparr>db_uploads := us\<rparr>)"
  by (simp_all add: bookkeeping_def)

lemma bookkeeping_trans: "bookkeeping a b \<Longrightarrow> bookkeeping b c \<Longrightarrow> bookkeeping a c"
  unfolding bookkeeping_def by (cases a; cases b; cases c) simp

lemma bookkeeping_same:
  assumes "bookkeeping db db'"
  shows "outbox_keys db' = outbox_keys db" "sync_inv db \<Longrightarrow> sync_inv db'" "revision_of db' = revision_of db"
    "db_vaults db' = db_vaults db" "db_outbox db' = db_outbox db"
proof -
  from assms have eq: "db_states db' = db_states db" "db_servers db' = db_servers db" "db_groups db' = db_groups db"
    "db_snippets db' = db_snippets db" "db_plugins db' = db_plugins db" "db_outbox db' = db_outbox db"
    "db_metadata db' = db_metadata db" "db_vaults db' = db_vaults db"
    unfolding bookkeeping_def by (cases db; cases db'; simp)+
  then show "outbox_keys db' = outbox_keys db" "revision_of db' = revision_of db" "db_vaults db' = db_vaults db"
    "db_outbox db' = db_outbox db"
    by (simp_all add: outbox_keys_def revision_of_def fun_eq_iff)
  show "sync_inv db \<Longrightarrow> sync_inv db'" by (rule sync_inv_cong [OF _ eq(1-7)])
qed

definition upload_of :: "unlocked_vault \<Rightarrow> sync_db \<Rightarrow> sync_envelope option" where
  "upload_of vault db =
     map_option (\<lambda>u. \<lparr>en_envelope_id = pu_envelope_id u, en_ciphertext = pu_ciphertext u\<rparr>) (db_uploads db (uv_vault_id vault))"

lemma fit_upload_effect:
  shows "cloud_codec_ok env \<Longrightarrow> distinct (map fst (outbox_keys db)) \<Longrightarrow> db_uploads db (uv_vault_id vault) = None \<Longrightarrow>
    fit_upload env vault cursor limit db = (db', r) \<Longrightarrow>
    bookkeeping db db' \<and> uploads_sound env vault db' \<and>
    (case r of Inr up \<Rightarrow> upload_of vault db' = up | Inl e \<Rightarrow> upload_of vault db' = None)"
proof (induction env vault cursor limit db rule: fit_upload.induct)
  case (1 env vault cursor limit db)
  note IH = 1(1) and codec = 1(2) and dist = 1(3) and none = 1(4) and run = 1(5)
  show ?case
  proof (cases "export_pending_changes limit db")
    case (Inl e)
    with run none show ?thesis by (subst (asm) fit_upload.simps) (auto simp: uploads_sound_def upload_of_def)
  next
    case exp: (Inr pending)
    show ?thesis
    proof (cases "pb_changes pending = []")
      case True
      with exp run none show ?thesis by (subst (asm) fit_upload.simps) (auto simp: uploads_sound_def upload_of_def)
    next
      case some: False
      let ?id = "env_uuid (cl_sync env) (db_draws db)" let ?db1 = "db\<lparr>db_draws := db_draws db + 1\<rparr>"
      have none1: "db_uploads ?db1 (uv_vault_id vault) = None" using none by simp
      then have sound1: "uploads_sound env vault ?db1" "upload_of vault ?db1 = None"
        by (simp_all add: uploads_sound_def upload_of_def)
      show ?thesis
      proof (cases "build_sync_envelope env vault cursor pending ?id")
        case (Inl e)
        with exp some run sound1 show ?thesis by (subst (asm) fit_upload.simps) auto
      next
        case env: (Inr envelope)
        show ?thesis
        proof (cases "length (en_ciphertext envelope) \<le> max_provider_ciphertext_bytes")
          case fits: True
          let ?u = "\<lparr>pu_vault_id = uv_vault_id vault, pu_envelope_id = en_envelope_id envelope,
            pu_ciphertext = en_ciphertext envelope, pu_change_ids = map sc_change_id (pb_changes pending)\<rparr>"
          have step: "(case save_pending_upload ?u ?db1 of
                Inl e \<Rightarrow> (?db1, Inl (StorageError e)) | Inr db2 \<Rightarrow> (db2, Inr (Some envelope))) = (db', r)"
            using run exp some env fits by (subst (asm) fit_upload.simps) (simp add: Let_def del: One_nat_def)
          show ?thesis
          proof (cases "save_pending_upload ?u ?db1")
            case (Inl e)
            with step sound1 show ?thesis by auto
          next
            case (Inr db2)
            then have db2: "db2 = ?db1\<lparr>db_uploads := (db_uploads ?db1)(uv_vault_id vault \<mapsto> ?u)\<rparr>"
              using none1 by (auto simp: save_pending_upload_def pending_upload_get_def rbind_Inr_iff)
            have "uploads_sound env vault db2"
              unfolding uploads_sound_def
            proof (intro allI impI, goal_cases)
              case (1 u)
              then have "u = ?u" by (simp add: db2)
              moreover have "outbox_keys db2 = outbox_keys db" by (simp add: db2 outbox_keys_def)
              moreover have "open_envelope env vault
                  \<lparr>en_envelope_id = en_envelope_id envelope, en_ciphertext = en_ciphertext envelope\<rparr> = Inr (wire_of env pending)"
                using open_built_envelope [OF codec env] by (cases envelope) simp
              ultimately show ?case using exported_sound [OF dist exp, of _ env] fits
                by (intro conjI exI [of _ "wire_of env pending"]) simp_all
            qed
            moreover have "bookkeeping db db2" unfolding db2 bookkeeping_def by simp
            moreover have "upload_of vault db2 = Some envelope" by (simp add: upload_of_def db2)
            ultimately show ?thesis using step Inr by auto
          qed
        next
          case large: False
          show ?thesis
          proof (cases "length (pb_changes pending) = 1")
            case True
            with run exp some env large sound1 show ?thesis
              by (subst (asm) fit_upload.simps) auto
          next
            case False
            then have rec: "fit_upload env vault cursor (max (length (pb_changes pending) div 2) 1) ?db1 = (db', r)"
              using run exp some env large by (subst (asm) fit_upload.simps) (simp add: Let_def)
            have "distinct (map fst (outbox_keys ?db1))" using dist by (simp add: outbox_keys_def)
            from IH [OF exp some refl refl env large False codec this none1 rec] show ?thesis
              using bookkeeping_trans [of db ?db1] by auto
          qed
        qed
      qed
    qed
  qed
qed

lemma prepare_upload_effect:
  assumes "cloud_codec_ok env" "distinct (map fst (outbox_keys db))" "uploads_sound env vault db"
    "prepare_upload env vault cursor db = (db', r)"
  shows "bookkeeping db db' \<and> uploads_sound env vault db' \<and>
    (\<forall>up. r = Inr up \<longrightarrow> upload_of vault db' = up)"
proof (cases "load_pending_upload (uv_vault_id vault) db")
  case (Inl e)
  with assms(3,4) show ?thesis by (auto simp: prepare_upload_def)
next
  case (Inr loaded)
  then have l: "loaded = db_uploads db (uv_vault_id vault)"
    by (auto simp: load_pending_upload_def pending_upload_get_def rbind_Inr_iff)
  show ?thesis
  proof (cases loaded)
    case (Some u)
    with l have u: "db_uploads db (uv_vault_id vault) = Some u" by simp
    from Inr Some assms(4) have "db' = db"
      "r = Inr (Some \<lparr>en_envelope_id = pu_envelope_id u, en_ciphertext = pu_ciphertext u\<rparr>)"
      by (auto simp: prepare_upload_def)
    with assms(3) u show ?thesis by (auto simp: upload_of_def)
  next
    case None
    then have "fit_upload env vault cursor max_outbox_batch db = (db', r)"
      using Inr assms(4) by (simp add: prepare_upload_def)
    from fit_upload_effect [OF assms(1,2) _ this] None l show ?thesis by (auto split: sum.splits)
  qed
qed

section \<open>One round\<close>

lemma apply_uploads:
  assumes "apply_prepared_change env (db, report) p = Inr (db', report')"
  shows "db_uploads db' = db_uploads db"
  using assms
proof (cases rule: apply_prepared_change_cases)
  case (ignored decision eff md st)
  then show ?thesis by simp
next
  case (applied decision eff md db2 report2 db3)
  with settle_frame(3) [OF applied(5)] apply_remote_change_frame [OF applied(6)] show ?thesis
    by (simp add: same_sync_def)
qed

lemma foldm_uploads:
  "foldm (apply_prepared_change env) (db, report) cs = Inr (db', report') \<Longrightarrow> db_uploads db' = db_uploads db"
proof (induction cs arbitrary: db report)
  case Nil
  then show ?case by simp
next
  case (Cons p cs)
  from Cons.prems obtain db1 report1 where 1: "apply_prepared_change env (db, report) p = Inr (db1, report1)"
    "foldm (apply_prepared_change env) (db1, report1) cs = Inr (db', report')"
    by (auto elim!: rbind_InrE)
  from Cons.IH [OF 1(2)] apply_uploads [OF 1(1)] show ?case by simp
qed

definition change_entity :: "'p sync_change \<Rightarrow> entity" where
  "change_entity c = (sc_entity_kind c, sc_entity_id c)"

lemma prepared_changes:
  assumes "prepare_remote_batch env now changes = Inr ordered" "p \<in> set ordered"
  shows "\<exists>c \<in> set changes. entity_of p = change_entity c \<and> sc_revision (pc_change p) = sc_revision c"
proof -
  from assms obtain prepared where t: "traverse (prepare_change env now) changes = Inr prepared" "p \<in> set prepared"
    by (auto simp: prepare_remote_batch_def rbind_Inr_iff)
  from traverse_Inr_set [OF t] obtain c where "c \<in> set changes" "prepare_change env now c = Inr p" by blast
  then show ?thesis
    by (intro bexI [of _ c]) (auto simp: prepare_change_def rbind_Inr_iff entity_of_def change_entity_def split: if_splits)
qed

text \<open>What applying one page does to the queue, the uploads and the recorded revisions.\<close>

lemma apply_page_effect:
  assumes "apply_remote_batch_for_vault env vault_id cursor changes db = Inr (db', report)"
  shows "set (outbox_keys db') \<subseteq> set (outbox_keys db)"
    "\<And>c e r. (c, e, r) \<in> set (outbox_keys db) \<Longrightarrow> (c, e, r) \<notin> set (outbox_keys db') \<Longrightarrow>
       \<exists>ch \<in> set changes. change_entity ch = e \<and> r \<le> sc_revision ch"
    "db_uploads db' = db_uploads db" "db_vaults db' = (db_vaults db')(vault_id \<mapsto> cursor)"
    "\<And>e. revision_of db' e = revision_of db e \<or> (\<exists>ch \<in> set changes. change_entity ch = e \<and> revision_of db' e = Some (sc_revision ch))"
    "sync_inv db \<Longrightarrow> sync_inv db'"
proof -
  from assms obtain ordered db1 where
    p: "prepare_remote_batch env (env_now env (db_draws db)) changes = Inr ordered"
    and f: "foldm (apply_prepared_change env) (db\<lparr>db_draws := db_draws db + 1\<rparr>, empty_report) ordered = Inr (db1, report)"
    and db': "db' = db1\<lparr>db_vaults := (db_vaults db1)(vault_id \<mapsto> cursor)\<rparr>"
    by (rule batch_Inr)
  let ?db = "db\<lparr>db_draws := db_draws db + 1\<rparr>"
  have same: "outbox_keys ?db = outbox_keys db" "outbox_keys db' = outbox_keys db1"
    "revision_of ?db = revision_of db" "revision_of db' = revision_of db1"
    by (simp_all add: outbox_keys_def revision_of_def fun_eq_iff db')
  note keys = foldm_outbox_keys [OF f, unfolded same(1)]
  show "set (outbox_keys db') \<subseteq> set (outbox_keys db)" using keys by (simp add: same)
  show "\<exists>ch \<in> set changes. change_entity ch = e \<and> r \<le> sc_revision ch"
    if "(c, e, r) \<in> set (outbox_keys db)" "(c, e, r) \<notin> set (outbox_keys db')" for c e r
  proof -
    from keys that obtain q where q: "q \<in> set ordered" "entity_of q = e" "r \<le> sc_revision (pc_change q)"
      unfolding same by blast
    from prepared_changes [OF p q(1)] q(2,3) show ?thesis by auto
  qed
  show "db_uploads db' = db_uploads db" using foldm_uploads [OF f] by (simp add: db')
  show "db_vaults db' = (db_vaults db')(vault_id \<mapsto> cursor)" by (simp add: db')
  show "revision_of db' e = revision_of db e \<or> (\<exists>ch \<in> set changes. change_entity ch = e \<and> revision_of db' e = Some (sc_revision ch))" for e
  proof -
    have "fold (\<lambda>p ro. if entity_of p = e then newer ro (sc_revision (pc_change p)) else ro) ps ro = ro \<or>
        (\<exists>q \<in> set ps. entity_of q = e \<and>
           fold (\<lambda>p ro. if entity_of p = e then newer ro (sc_revision (pc_change p)) else ro) ps ro = Some (sc_revision (pc_change q)))"
      for ps ro
    proof (induction ps arbitrary: ro)
      case (Cons q ps)
      show ?case
      proof (cases "entity_of q = e")
        case True
        have "newer ro (sc_revision (pc_change q)) = ro \<or> newer ro (sc_revision (pc_change q)) = Some (sc_revision (pc_change q))"
          by (auto simp: newer_def max_def split: option.splits)
        with Cons [of "newer ro (sc_revision (pc_change q))"] True show ?thesis by auto
      next
        case False
        with Cons [of ro] show ?thesis by auto
      qed
    qed simp
    from this [of ordered "revision_of db e"] foldm_revision_of [OF f, of e] same
    have "revision_of db' e = revision_of db e \<or>
        (\<exists>q \<in> set ordered. entity_of q = e \<and> revision_of db' e = Some (sc_revision (pc_change q)))" by simp
    with prepared_changes [OF p] show ?thesis by fastforce
  qed
  show "sync_inv db \<Longrightarrow> sync_inv db'"
  proof -
    assume "sync_inv db"
    then have "sync_inv ?db" by (rule sync_inv_cong) simp_all
    then have "sync_inv db1" by (rule foldm_apply_inv [OF f])
    then show "sync_inv db'" unfolding db' by (rule sync_inv_cong) simp_all
  qed
qed

text \<open>What the application may do to the database while an exchange is on its way: capture edits, under
  fresh change ids, and anything that leaves the queue and the saved uploads alone.\<close>

definition edits_ok :: "('w \<Rightarrow> sync_db \<Rightarrow> sync_db) \<Rightarrow> bool" where
  "edits_ok meanwhile \<longleftrightarrow> (\<forall>w db. sync_inv db \<longrightarrow>
     sync_inv (meanwhile w db) \<and> db_uploads (meanwhile w db) = db_uploads db \<and>
     (\<exists>added. db_outbox (meanwhile w db) = db_outbox db @ added \<and>
        (\<forall>v u. db_uploads db v = Some u \<longrightarrow> ob_change_id ` set added \<inter> set (pu_change_ids u) = {})))"

lemma edits_okD:
  assumes "edits_ok meanwhile" "sync_inv db"
  shows "sync_inv (meanwhile w db)" "upload_of vault (meanwhile w db) = upload_of vault db"
    "set (outbox_keys db) \<subseteq> set (outbox_keys (meanwhile w db))"
    "uploads_sound env vault db \<Longrightarrow> uploads_sound env vault (meanwhile w db)"
proof -
  from assms obtain added where a: "sync_inv (meanwhile w db)" "db_uploads (meanwhile w db) = db_uploads db"
    "db_outbox (meanwhile w db) = db_outbox db @ added"
    "\<And>v u. db_uploads db v = Some u \<Longrightarrow> ob_change_id ` set added \<inter> set (pu_change_ids u) = {}"
    unfolding edits_ok_def by blast
  then show "sync_inv (meanwhile w db)" "upload_of vault (meanwhile w db) = upload_of vault db"
    "set (outbox_keys db) \<subseteq> set (outbox_keys (meanwhile w db))" by (auto simp: upload_of_def outbox_keys_def)
  assume s: "uploads_sound env vault db"
  show "uploads_sound env vault (meanwhile w db)"
    unfolding uploads_sound_def a(2)
  proof (intro allI impI)
    fix u
    assume u: "db_uploads db (uv_vault_id vault) = Some u"
    from s u obtain batch where b: "length (pu_ciphertext u) \<le> max_provider_ciphertext_bytes"
      "open_envelope env vault \<lparr>en_envelope_id = pu_envelope_id u, en_ciphertext = pu_ciphertext u\<rparr> = Inr batch"
      "\<And>k. k \<in> set (outbox_keys db) \<Longrightarrow> fst k \<in> set (pu_change_ids u) \<Longrightarrow> k \<in> batch_keys batch"
      unfolding uploads_sound_def by blast
    have "k \<in> batch_keys batch" if "k \<in> set (outbox_keys (meanwhile w db))" "fst k \<in> set (pu_change_ids u)" for k
      using that b(3) [of k] a(4) [OF u] by (auto simp: outbox_keys_def a(3))
    with b show "length (pu_ciphertext u) \<le> max_provider_ciphertext_bytes \<and> (\<exists>batch.
        open_envelope env vault \<lparr>en_envelope_id = pu_envelope_id u, en_ciphertext = pu_ciphertext u\<rparr> = Inr batch \<and>
        (\<forall>k \<in> set (outbox_keys (meanwhile w db)). fst k \<in> set (pu_change_ids u) \<longrightarrow> k \<in> batch_keys batch))" by blast
  qed
qed

text \<open>A queued change is settled by an exchange that carried it to the provider, or that brought a change
  of the same entity at least as new.\<close>

definition carries :: "'v cloud_env \<Rightarrow> unlocked_vault \<Rightarrow> sync_envelope option \<Rightarrow> (string \<times> entity \<times> string) \<Rightarrow> bool" where
  "carries env vault upload k \<longleftrightarrow>
     (\<exists>e batch. upload = Some e \<and> open_envelope env vault e = Inr batch \<and> k \<in> batch_keys batch)"

definition superseded_by :: "'v cloud_env \<Rightarrow> unlocked_vault \<Rightarrow> exchange_response \<Rightarrow> (string \<times> entity \<times> string) \<Rightarrow> bool" where
  "superseded_by env vault response k \<longleftrightarrow>
     (\<exists>changes c. collect_changes env vault [] (xr_envelopes response) = Inr changes \<and> c \<in> set changes \<and>
        change_entity c = fst (snd k) \<and> snd (snd k) \<le> sc_revision c)"

definition exchanges :: "('q list \<Rightarrow> 'r) \<Rightarrow> 'q list \<Rightarrow> ('q \<times> 'r) list" where
  "exchanges reply h = map (\<lambda>n. (h ! n, reply (take (Suc n) h))) [0..<length h]"

lemma exchanges_snoc: "exchanges reply (h @ [q]) = exchanges reply h @ [(q, reply (h @ [q]))]"
  by (simp add: exchanges_def nth_append)

lemma exchanges_append: "set (exchanges reply h) \<subseteq> set (exchanges reply (h @ hs))"
  by (induction hs rule: rev_induct) (auto simp: exchanges_snoc simp flip: append_assoc)

definition settled ::
    "'v cloud_env \<Rightarrow> unlocked_vault \<Rightarrow> (exchange_request list \<Rightarrow> string + exchange_response) \<Rightarrow> exchange_request list \<Rightarrow>
     (string \<times> entity \<times> string) \<Rightarrow> bool" where
  "settled env vault reply h k \<longleftrightarrow>
     (\<exists>q response. (q, Inr response) \<in> set (exchanges reply h) \<and>
        (carries env vault (xq_envelope q) k \<or> superseded_by env vault response k))"

lemma settled_append: "settled env vault reply h k \<Longrightarrow> settled env vault reply (h @ hs) k"
  unfolding settled_def using exchanges_append by blast

lemma acknowledge_effect:
  assumes "acknowledge_pending_upload (uv_vault_id vault) (en_envelope_id e) db = Inr (n, db')"
    "upload_of vault db = Some e" "uploads_sound env vault db"
  shows "\<And>k. k \<in> set (outbox_keys db) \<Longrightarrow> k \<notin> set (outbox_keys db') \<Longrightarrow> carries env vault (Some e) k"
    "uploads_sound env vault db'" "sync_inv db \<Longrightarrow> sync_inv db'" "db_vaults db' = db_vaults db"
    "revision_of db' = revision_of db"
proof -
  from assms(2) obtain u where u: "db_uploads db (uv_vault_id vault) = Some u"
    "e = \<lparr>en_envelope_id = pu_envelope_id u, en_ciphertext = pu_ciphertext u\<rparr>" by (auto simp: upload_of_def)
  with assms(1) have db': "db' = db\<lparr>db_outbox := filter (\<lambda>o'. ob_change_id o' \<notin> set (pu_change_ids u)) (db_outbox db),
      db_uploads := (db_uploads db)(uv_vault_id vault := None)\<rparr>"
    by (auto simp: acknowledge_pending_upload_def pending_upload_get_def delete_changes_eq rbind_Inr_iff)
  show "db_vaults db' = db_vaults db" "revision_of db' = revision_of db" "uploads_sound env vault db'"
    by (simp_all add: db' revision_of_def fun_eq_iff uploads_sound_def)
  show "carries env vault (Some e) k" if "k \<in> set (outbox_keys db)" "k \<notin> set (outbox_keys db')" for k
  proof -
    from that have "fst k \<in> set (pu_change_ids u)" by (auto simp: db' outbox_keys_def)
    with assms(3) u that(1) show ?thesis unfolding uploads_sound_def carries_def by fastforce
  qed
  show "sync_inv db'" if "sync_inv db"
  proof -
    have "rows_inv db \<Longrightarrow> rows_inv db'" by (rule rows_inv_cong) (simp_all add: db')
    moreover have "clock_inv db \<Longrightarrow> clock_inv db'" by (simp add: clock_inv_def db' revision_of_def)
    moreover have "outbox_inv db \<Longrightarrow> outbox_inv db'"
      by (auto simp: outbox_inv_def db' revision_of_def intro: distinct_map_filter)
    ultimately show ?thesis using that by (simp add: sync_inv_rows)
  qed
qed

lemma exported_all:
  "export_pending_changes 1 db = Inr b \<Longrightarrow> pb_changes b = [] \<longleftrightarrow> db_outbox db = []"
proof -
  assume "export_pending_changes 1 db = Inr b"
  then have b: "pb_changes b = map change_of_outbox (take 1 (sort_key (\<lambda>o'. (ob_revision o', ob_change_id o')) (db_outbox db)))"
    by (auto simp: export_pending_changes_def rbind_Inr_iff)
  have "length (sort_key (\<lambda>o'. (ob_revision o', ob_change_id o')) (db_outbox db)) = length (db_outbox db)" by simp
  then show ?thesis unfolding b by (cases "db_outbox db") auto
qed

text \<open>Whatever a round ends with, the page has been applied as a whole or not at all.\<close>

lemma finish_round_cases:
  assumes "finish_round env vault upload response report db = (db', r)"
  obtains (refused) e where "db' = db" "r = Inl e"
  | (applied) changes db1 totals where
    "collect_changes env vault [] (xr_envelopes response) = Inr changes"
    "apply_remote_batch_for_vault (cl_sync env) (uv_vault_id vault) (xr_cursor response) changes db = Inr (db1, totals)"
    "(db' = db1 \<and> (\<exists>e. r = Inl e)) \<or>
     (\<exists>n. (case upload of None \<Rightarrow> n = 0 \<and> db' = db1
        | Some u \<Rightarrow> acknowledge_pending_upload (uv_vault_id vault) (en_envelope_id u) db1 = Inr (n, db')) \<and>
      (\<forall>rep again. r = Inr (rep, again) \<longrightarrow> again = (xr_has_more response \<or> db_outbox db' \<noteq> [])))"
proof (cases "collect_changes env vault [] (xr_envelopes response)")
  case (Inl e)
  with assms show thesis by (intro refused) (auto simp: finish_round_def)
next
  case c: (Inr changes)
  show thesis
  proof (cases "apply_remote_batch_for_vault (cl_sync env) (uv_vault_id vault) (xr_cursor response) changes db")
    case (Inl e)
    with assms c show thesis by (intro refused) (auto simp: finish_round_def storage_def)
  next
    case (Inr a)
    obtain db1 totals where a: "a = (db1, totals)" by (cases a)
    let ?ack = "case upload of None \<Rightarrow> Inr (0, db1)
        | Some u \<Rightarrow> acknowledge_pending_upload (uv_vault_id vault) (en_envelope_id u) db1"
    show thesis
    proof (rule applied [OF c Inr [unfolded a]], cases ?ack)
      case (Inl e)
      with assms c Inr a show "(db' = db1 \<and> (\<exists>e. r = Inl e)) \<or> (\<exists>n. (case upload of None \<Rightarrow> n = 0 \<and> db' = db1
          | Some u \<Rightarrow> acknowledge_pending_upload (uv_vault_id vault) (en_envelope_id u) db1 = Inr (n, db')) \<and>
          (\<forall>rep again. r = Inr (rep, again) \<longrightarrow> again = (xr_has_more response \<or> db_outbox db' \<noteq> [])))"
        by (cases upload) (auto simp: finish_round_def storage_def Let_def)
    next
      case ack: (Inr b)
      obtain n db2 where b: "b = (n, db2)" by (cases b)
      obtain rep where run: "(case export_pending_changes 1 db2 of
                  Inl e \<Rightarrow> (db2, Inl (StorageError e))
                | Inr remaining \<Rightarrow> (db2, Inr (rep, xr_has_more response \<or> pb_changes remaining \<noteq> []))) = (db', r)"
        using assms c Inr a ack b that by (cases upload) (auto simp: finish_round_def storage_def Let_def)
      then have "db' = db2" by (auto split: sum.splits)
      moreover have "\<forall>rep again. r = Inr (rep, again) \<longrightarrow> again = (xr_has_more response \<or> db_outbox db2 \<noteq> [])"
        using run by (auto split: sum.splits simp: exported_all)
      ultimately show "(db' = db1 \<and> (\<exists>e. r = Inl e)) \<or> (\<exists>n. (case upload of None \<Rightarrow> n = 0 \<and> db' = db1
          | Some u \<Rightarrow> acknowledge_pending_upload (uv_vault_id vault) (en_envelope_id u) db1 = Inr (n, db')) \<and>
          (\<forall>rep again. r = Inr (rep, again) \<longrightarrow> again = (xr_has_more response \<or> db_outbox db' \<noteq> [])))"
        using ack b by (intro disjI2 exI [of _ n]) (auto split: option.splits)
    qed
  qed
qed

lemma finish_round_effect:
  assumes "finish_round env vault upload response report db = (db', r)"
    "upload_of vault db = upload" "uploads_sound env vault db" "sync_inv db"
  shows "sync_inv db' \<and> uploads_sound env vault db'"
    "\<And>k. k \<in> set (outbox_keys db) \<Longrightarrow> k \<notin> set (outbox_keys db') \<Longrightarrow>
       carries env vault upload k \<or> superseded_by env vault response k"
    "\<And>e. revision_of db' e = revision_of db e \<or>
       (\<exists>changes c. collect_changes env vault [] (xr_envelopes response) = Inr changes \<and> c \<in> set changes \<and>
          change_entity c = e \<and> revision_of db' e = Some (sc_revision c))"
    "\<And>rep. r = Inr (rep, False) \<Longrightarrow> db_outbox db' = [] \<and> db_vaults db' (uv_vault_id vault) = Some (xr_cursor response)"
proof -
  have "(sync_inv db' \<and> uploads_sound env vault db') \<and>
    (\<forall>k. k \<in> set (outbox_keys db) \<longrightarrow> k \<notin> set (outbox_keys db') \<longrightarrow>
       carries env vault upload k \<or> superseded_by env vault response k) \<and>
    (\<forall>e. revision_of db' e = revision_of db e \<or>
       (\<exists>changes c. collect_changes env vault [] (xr_envelopes response) = Inr changes \<and> c \<in> set changes \<and>
          change_entity c = e \<and> revision_of db' e = Some (sc_revision c))) \<and>
    (\<forall>rep. r = Inr (rep, False) \<longrightarrow> db_outbox db' = [] \<and> db_vaults db' (uv_vault_id vault) = Some (xr_cursor response))"
    using assms(1)
  proof (cases rule: finish_round_cases)
    case (refused e)
    with assms(3,4) show ?thesis by simp
  next
    case (applied changes db1 totals)
    note page = apply_page_effect [OF applied(2)]
    have sub: "set (outbox_keys db1) \<subseteq> set (outbox_keys db)" by (rule page(1))
    have sound1: "uploads_sound env vault db1"
      unfolding uploads_sound_def page(3) using assms(3) sub unfolding uploads_sound_def by blast
    have gone1: "superseded_by env vault response k" if "k \<in> set (outbox_keys db)" "k \<notin> set (outbox_keys db1)" for k
      using page(2) [of "fst k" "fst (snd k)" "snd (snd k)"] that applied(1) by (auto simp: superseded_by_def)
    have up1: "upload_of vault db1 = upload" using assms(2) by (simp add: upload_of_def page(3))
    have inv1: "sync_inv db1" by (rule page(6) [OF assms(4)])
    have vault1: "db_vaults db1 (uv_vault_id vault) = Some (xr_cursor response)" using page(4) by (metis fun_upd_same)
    have rev1: "revision_of db1 e = revision_of db e \<or>
       (\<exists>changes c. collect_changes env vault [] (xr_envelopes response) = Inr changes \<and> c \<in> set changes \<and>
          change_entity c = e \<and> revision_of db1 e = Some (sc_revision c))" for e
      using page(5) [of e] applied(1) by blast
    have acked: "sync_inv db' \<and> uploads_sound env vault db' \<and>
        (\<forall>k \<in> set (outbox_keys db1). k \<notin> set (outbox_keys db') \<longrightarrow> carries env vault upload k) \<and>
        db_vaults db' = db_vaults db1 \<and> revision_of db' = revision_of db1"
    proof (cases "db' = db1")
      case True
      with inv1 sound1 show ?thesis by simp
    next
      case False
      with applied(3) obtain u n where u: "upload = Some u"
        "acknowledge_pending_upload (uv_vault_id vault) (en_envelope_id u) db1 = Inr (n, db')"
        by (auto split: option.splits)
      from acknowledge_effect [OF u(2) up1 [unfolded u(1)] sound1] inv1 show ?thesis by (simp add: u(1))
    qed
    have "db_outbox db' = []" if "r = Inr (rep, False)" for rep
      using applied(3) that by auto
    with acked gone1 vault1 rev1 show ?thesis by auto
  qed
  then show "sync_inv db' \<and> uploads_sound env vault db'"
    "\<And>k. k \<in> set (outbox_keys db) \<Longrightarrow> k \<notin> set (outbox_keys db') \<Longrightarrow>
       carries env vault upload k \<or> superseded_by env vault response k"
    "\<And>e. revision_of db' e = revision_of db e \<or>
       (\<exists>changes c. collect_changes env vault [] (xr_envelopes response) = Inr changes \<and> c \<in> set changes \<and>
          change_entity c = e \<and> revision_of db' e = Some (sc_revision c))"
    "\<And>rep. r = Inr (rep, False) \<Longrightarrow> db_outbox db' = [] \<and> db_vaults db' (uv_vault_id vault) = Some (xr_cursor response)"
    by blast+
qed

section \<open>All rounds\<close>

text \<open>A provider that may answer anything, depending on all requests so far.\<close>

definition untrusted :: "(exchange_request list \<Rightarrow> string + exchange_response) \<Rightarrow> exchange_request list transport" where
  "untrusted reply provider vault_id = ask reply"

lemma untrusted_apply: "untrusted reply provider vault_id q h = (h @ [q], reply (h @ [q]))"
  by (simp add: untrusted_def ask_def)

text \<open>What a run leaves behind, from \<open>db\<close> to \<open>db'\<close> with the requests \<open>h'\<close> made.\<close>

definition run_ok ::
    "'v cloud_env \<Rightarrow> unlocked_vault \<Rightarrow> (exchange_request list \<Rightarrow> string + exchange_response) \<Rightarrow> nat \<Rightarrow>
     sync_db \<Rightarrow> exchange_request list \<Rightarrow> sync_db \<Rightarrow> exchange_request list \<Rightarrow> bool" where
  "run_ok env vault reply n db h db' h' \<longleftrightarrow>
     sync_inv db' \<and> uploads_sound env vault db' \<and>
     (\<forall>k \<in> set (outbox_keys db). k \<in> set (outbox_keys db') \<or> settled env vault reply h' k) \<and>
     (\<exists>hs. h' = h @ hs \<and> length hs \<le> n \<and>
        list_all (\<lambda>q. \<forall>e. xq_envelope q = Some e \<longrightarrow> length (en_ciphertext e) \<le> max_provider_ciphertext_bytes) hs)"

lemma run_ok_same:
  assumes "sync_inv db'" "uploads_sound env vault db'" "set (outbox_keys db) \<subseteq> set (outbox_keys db')"
  shows "run_ok env vault reply n db h db' h"
  unfolding run_ok_def using assms by auto

lemma run_ok_trans:
  assumes "run_ok env vault reply n db h db1 h1" "run_ok env vault reply m db1 h1 db' h'"
  shows "run_ok env vault reply (n + m) db h db' h'"
proof -
  from assms(1) obtain hs where 1: "h1 = h @ hs" "length hs \<le> n"
    "list_all (\<lambda>q. \<forall>e. xq_envelope q = Some e \<longrightarrow> length (en_ciphertext e) \<le> max_provider_ciphertext_bytes) hs"
    "\<forall>k \<in> set (outbox_keys db). k \<in> set (outbox_keys db1) \<or> settled env vault reply h1 k" unfolding run_ok_def by blast
  from assms(2) obtain hs' where 2: "h' = h1 @ hs'" "length hs' \<le> m"
    "list_all (\<lambda>q. \<forall>e. xq_envelope q = Some e \<longrightarrow> length (en_ciphertext e) \<le> max_provider_ciphertext_bytes) hs'"
    "\<forall>k \<in> set (outbox_keys db1). k \<in> set (outbox_keys db') \<or> settled env vault reply h' k" unfolding run_ok_def by blast
  have "\<forall>k \<in> set (outbox_keys db). k \<in> set (outbox_keys db') \<or> settled env vault reply h' k"
    using 1(4) 2(1,4) settled_append by blast
  moreover have "h' = h @ (hs @ hs')" "length (hs @ hs') \<le> n + m" using 1 2 by simp_all
  moreover have "list_all (\<lambda>q. \<forall>e. xq_envelope q = Some e \<longrightarrow> length (en_ciphertext e) \<le> max_provider_ciphertext_bytes) (hs @ hs')"
    using 1(3) 2(3) by simp
  moreover have "sync_inv db'" "uploads_sound env vault db'" using assms(2) by (simp_all add: run_ok_def)
  ultimately show ?thesis unfolding run_ok_def by blast
qed

lemma prepared_upload:
  assumes "cloud_codec_ok env" "sync_inv db" "uploads_sound env vault db"
    "prepare_upload env vault cursor db = (db1, r)"
  shows "sync_inv db1 \<and> uploads_sound env vault db1 \<and> outbox_keys db1 = outbox_keys db \<and>
    revision_of db1 = revision_of db \<and> (\<forall>up. r = Inr up \<longrightarrow> upload_of vault db1 = up)"
proof -
  have "distinct (map fst (outbox_keys db))" using assms(2) by (simp add: sync_inv_rows outbox_inv_keys)
  from prepare_upload_effect [OF assms(1) this assms(3,4)] bookkeeping_same [of db db1] assms(2) show ?thesis by auto
qed

lemma upload_size:
  "uploads_sound env vault db \<Longrightarrow> upload_of vault db = Some e \<Longrightarrow> length (en_ciphertext e) \<le> max_provider_ciphertext_bytes"
  by (auto simp: uploads_sound_def upload_of_def)

text \<open>One exchange, whatever the provider answers.\<close>

lemma one_round:
  assumes "edits_ok meanwhile" "sync_inv db" "uploads_sound env vault db" "upload_of vault db = upload"
    and "case reply (h @ [\<lparr>xq_cursor = cursor, xq_envelope = upload\<rparr>]) of
        Inl e \<Rightarrow> db' = meanwhile (h @ [\<lparr>xq_cursor = cursor, xq_envelope = upload\<rparr>]) db
      | Inr response \<Rightarrow> finish_round env vault upload response report
          (meanwhile (h @ [\<lparr>xq_cursor = cursor, xq_envelope = upload\<rparr>]) db) = (db', r)"
  shows "run_ok env vault reply 1 db h db' (h @ [\<lparr>xq_cursor = cursor, xq_envelope = upload\<rparr>])"
proof -
  let ?q = "\<lparr>xq_cursor = cursor, xq_envelope = upload\<rparr>"
  let ?db = "meanwhile (h @ [?q]) db"
  note edit = edits_okD [OF assms(1,2), where w = "h @ [?q]"]
  have size: "list_all (\<lambda>q. \<forall>e. xq_envelope q = Some e \<longrightarrow> length (en_ciphertext e) \<le> max_provider_ciphertext_bytes) [?q]"
    using upload_size [OF assms(3)] assms(4) by simp
  show ?thesis
  proof (cases "reply (h @ [?q])")
    case (Inl e)
    with assms(5) edit(1,3) edit(4) [OF assms(3)] size show ?thesis by (auto simp: run_ok_def)
  next
    case (Inr response)
    with assms(5) have run: "finish_round env vault upload response report ?db = (db', r)" by simp
    have up: "upload_of vault ?db = upload" using edit(2) assms(4) by simp
    note eff = finish_round_effect [OF run up edit(4) [OF assms(3)] edit(1)]
    have "k \<in> set (outbox_keys db') \<or> settled env vault reply (h @ [?q]) k" if "k \<in> set (outbox_keys db)" for k
    proof (cases "k \<in> set (outbox_keys db')")
      case False
      with eff(2) [of k] edit(3) that have "carries env vault upload k \<or> superseded_by env vault response k" by blast
      moreover have "(?q, Inr response) \<in> set (exchanges reply (h @ [?q]))" by (simp add: exchanges_snoc Inr)
      ultimately show ?thesis unfolding settled_def by (intro disjI2 exI [of _ ?q] exI [of _ response]) simp
    qed simp
    with eff(1) size show ?thesis by (auto simp: run_ok_def)
  qed
qed

lemma sync_rounds_effect:
  assumes "cloud_codec_ok env" "edits_ok meanwhile"
  shows "sync_rounds env (untrusted reply) meanwhile vault n cursor report (db, h) = ((db', h'), r) \<Longrightarrow>
    sync_inv db \<Longrightarrow> uploads_sound env vault db \<Longrightarrow>
    run_ok env vault reply n db h db' h' \<and>
    (\<forall>rep. r = Inr rep \<longrightarrow> db_outbox db' = [] \<and> cr_pending_changes rep = 0 \<and>
       (\<exists>c. cr_cursor rep = Some c \<and> db_vaults db' (uv_vault_id vault) = Some c))"
proof (induction n arbitrary: cursor report db h)
  case 0
  then show ?case by (auto intro: run_ok_same)
next
  case (Suc n)
  obtain db1 p where prep: "prepare_upload env vault cursor db = (db1, p)" by fastforce
  from prepared_upload [OF assms(1) Suc.prems(2,3) prep] have
    1: "sync_inv db1" "uploads_sound env vault db1" "outbox_keys db1 = outbox_keys db"
      "\<And>up. p = Inr up \<Longrightarrow> upload_of vault db1 = up" by auto
  have start: "run_ok env vault reply 0 db h db1 h" using 1 by (auto intro: run_ok_same)
  show ?case
  proof (cases p)
    case (Inl e)
    with Suc.prems(1) prep have "db' = db1" "h' = h" "r = Inl e" by auto
    with 1 show ?thesis by (auto intro: run_ok_same)
  next
    case up: (Inr upload)
    let ?h = "h @ [\<lparr>xq_cursor = cursor, xq_envelope = upload\<rparr>]"
    have asked: "untrusted reply (uv_provider vault) (uv_vault_id vault) \<lparr>xq_cursor = cursor, xq_envelope = upload\<rparr> h = (?h, reply ?h)"
      by (rule untrusted_apply)
    show ?thesis
    proof (cases "reply ?h")
      case (Inl e)
      with Suc.prems(1) prep up have e: "db' = meanwhile ?h db1" "h' = ?h" "r = Inl (CloudError e)"
        by (auto simp: asked)
      with one_round [OF assms(2) 1(1,2) 1(4) [OF up], where reply = reply and h = h and cursor = cursor and db' = db'] Inl
      have "run_ok env vault reply 1 db1 h db' ?h" by simp
      from run_ok_trans [OF start this] have "run_ok env vault reply (Suc n) db h db' h'"
        by (auto simp: run_ok_def e(2))
      with e(3) show ?thesis by simp
    next
      case (Inr response)
      obtain db2 f where fin: "finish_round env vault upload response report (meanwhile ?h db1) = (db2, f)" by fastforce
      with one_round [OF assms(2) 1(1,2) 1(4) [OF up], where reply = reply and h = h and cursor = cursor and db' = db2] Inr
      have r1: "run_ok env vault reply 1 db1 h db2 ?h" by simp
      from run_ok_trans [OF start this] have r2: "run_ok env vault reply 1 db h db2 ?h" by simp
      then have r3: "run_ok env vault reply (Suc n) db h db2 ?h" by (auto simp: run_ok_def)
      show ?thesis
      proof (cases f)
        case (Inl e)
        with Suc.prems(1) prep up Inr fin have "db' = db2" "h' = ?h" "r = Inl e" by (auto simp: asked)
        with r3 show ?thesis by simp
      next
        case f: (Inr v)
        obtain rep again where v: "v = (rep, again)" by (cases v)
        have "upload_of vault (meanwhile ?h db1) = upload" "uploads_sound env vault (meanwhile ?h db1)" "sync_inv (meanwhile ?h db1)"
          using edits_okD [OF assms(2) 1(1), where w = ?h] 1(2) 1(4) [OF up] by auto
        note eff = finish_round_effect [OF fin this]
        show ?thesis
        proof (cases again)
          case False
          with Suc.prems(1) prep up Inr fin f v have
            "db' = db2" "h' = ?h" "r = Inr (rep\<lparr>cr_pending_changes := 0, cr_cursor := Some (xr_cursor response)\<rparr>)"
            by (auto simp: asked)
          with r3 eff(4) [of rep] f v False show ?thesis by auto
        next
          case True
          with Suc.prems(1) prep up Inr fin f v have
            "sync_rounds env (untrusted reply) meanwhile vault n (Some (xr_cursor response)) rep (db2, ?h) = ((db', h'), r)"
            by (auto simp: asked)
          from Suc.IH [OF this] eff(1) run_ok_trans [OF r2, of n db' h'] show ?thesis by auto
        qed
      qed
    qed
  qed
qed

lemma collected_changes:
  "collect_changes env vault acc es = Inr changes \<Longrightarrow> c \<in> set changes \<Longrightarrow>
     c \<in> set acc \<or> (\<exists>e \<in> set es. \<exists>batch. open_envelope env vault e = Inr batch \<and> c \<in> set (wb_changes batch))"
proof (induction es arbitrary: acc)
  case Nil
  then show ?case by simp
next
  case (Cons e es)
  from Cons.prems(1) obtain batch where b: "open_envelope env vault e = Inr batch"
    "collect_changes env vault (acc @ wb_changes batch) es = Inr changes"
    by (auto simp: rbind_Inr_iff Let_def split: if_splits)
  from Cons.IH [OF b(2) Cons.prems(2)] b(1) show ?case by auto
qed

lemma opened_was_sealed:
  assumes "crypto_ok (cl_crypto env)" "sealed_by_holders (cl_crypto env) (uv_key vault) log"
    "open_envelope env vault e = Inr batch"
  shows "\<exists>ctx. (ctx, batch) \<in> log \<and> ctx_vault_id ctx = uv_vault_id vault \<and> ctx_batch_id ctx = en_envelope_id e \<and>
    ctx_device_id ctx = wb_device_id batch"
proof -
  from assms(3) obtain encrypted where
    "decrypt_batch (cl_crypto env) (uv_key vault) encrypted = Inr batch" "ctx_vault_id (eb_context encrypted) = uv_vault_id vault"
    "ctx_batch_id (eb_context encrypted) = en_envelope_id e" "ctx_device_id (eb_context encrypted) = wb_device_id batch"
    by (auto simp: open_envelope_def rbind_Inr_iff split: if_splits)
  with decrypted_was_sealed [OF assms(1,2)] show ?thesis by blast
qed

text \<open>Without local edits meanwhile, revisions change only by changes received.\<close>

lemma sync_rounds_revisions:
  assumes "cloud_codec_ok env"
  shows "sync_rounds env transport (\<lambda>_ db. db) vault n cursor report (db, w) = ((db', w'), r) \<Longrightarrow>
    sync_inv db \<Longrightarrow> uploads_sound env vault db \<Longrightarrow>
    revision_of db' e = revision_of db e \<or>
    (\<exists>envelope batch c. open_envelope env vault envelope = Inr batch \<and> c \<in> set (wb_changes batch) \<and>
       change_entity c = e \<and> revision_of db' e = Some (sc_revision c))"
proof (induction n arbitrary: cursor report db w)
  case 0
  then show ?case by simp
next
  case (Suc n)
  obtain db1 p where prep: "prepare_upload env vault cursor db = (db1, p)" by fastforce
  from prepared_upload [OF assms Suc.prems(2,3) prep] have
    1: "sync_inv db1" "uploads_sound env vault db1" "revision_of db1 = revision_of db"
      "\<And>up. p = Inr up \<Longrightarrow> upload_of vault db1 = up" by auto
  show ?case
  proof (cases p)
    case (Inl e)
    with Suc.prems(1) prep 1(3) show ?thesis by auto
  next
    case up: (Inr upload)
    obtain w1 a where asked: "transport (uv_provider vault) (uv_vault_id vault)
        \<lparr>xq_cursor = cursor, xq_envelope = upload\<rparr> w = (w1, a)" by fastforce
    show ?thesis
    proof (cases a)
      case (Inl e)
      with Suc.prems(1) prep up asked 1(3) show ?thesis by auto
    next
      case (Inr response)
      obtain db2 f where fin: "finish_round env vault upload response report db1 = (db2, f)" by fastforce
      note eff = finish_round_effect [OF fin 1(4) [OF up] 1(2,1)]
      have r2: "revision_of db2 e = revision_of db e \<or>
        (\<exists>envelope batch c. open_envelope env vault envelope = Inr batch \<and> c \<in> set (wb_changes batch) \<and>
           change_entity c = e \<and> revision_of db2 e = Some (sc_revision c))"
        using eff(3) [of e] collected_changes [of env vault "[]"] unfolding 1(3) by fastforce
      show ?thesis
      proof (cases "\<exists>rep. f = Inr (rep, True)")
        case False
        with Suc.prems(1) prep up asked Inr fin have "db' = db2" by (auto split: sum.splits)
        with r2 show ?thesis by simp
      next
        case True
        then obtain rep where "f = Inr (rep, True)" by blast
        with Suc.prems(1) prep up asked Inr fin have
          "sync_rounds env transport (\<lambda>_ db. db) vault n (Some (xr_cursor response)) rep (db2, w1) = ((db', w'), r)" by simp
        from Suc.IH [OF this] eff(1) r2 show ?thesis by metis
      qed
    qed
  qed
qed

lemma run_sync_rounds:
  assumes "run_sync env transport meanwhile vault (db, w) = ((db', w'), r)"
  shows "(db' = db \<and> w' = w \<and> (\<exists>e. r = Inl e)) \<or>
    (\<exists>cursor. sync_rounds env transport meanwhile vault max_sync_rounds cursor empty_sync_report (db, w) = ((db', w'), r))"
  using assms by (auto simp: run_sync_def split: sum.splits)

lemma run_sync_effect:
  assumes "cloud_codec_ok env" "edits_ok meanwhile" "sync_inv db" "uploads_sound env vault db"
    and "run_sync env (untrusted reply) meanwhile vault (db, h) = ((db', h'), r)"
  shows "run_ok env vault reply max_sync_rounds db h db' h' \<and>
    (\<forall>rep. r = Inr rep \<longrightarrow> db_outbox db' = [] \<and> cr_pending_changes rep = 0 \<and>
       (\<exists>c. cr_cursor rep = Some c \<and> db_vaults db' (uv_vault_id vault) = Some c))"
  using run_sync_rounds [OF assms(5)]
proof
  assume "db' = db \<and> h' = h \<and> (\<exists>e. r = Inl e)"
  with assms(3,4) show ?thesis by (auto intro: run_ok_same)
next
  assume "\<exists>cursor. sync_rounds env (untrusted reply) meanwhile vault max_sync_rounds cursor empty_sync_report (db, h) = ((db', h'), r)"
  then show ?thesis using sync_rounds_effect [OF assms(1,2) _ assms(3,4)] by blast
qed

lemma strip_prefix_append: "strip_prefix p (p @ s) = Some s"
  by (simp add: strip_prefix_def)

section \<open>Properties\<close>

text \<open>C4: No queued change is lost by a synchronisation, whatever the provider answers and
  wherever the run stops: every change in the outbox at the start is still there at the end, or it was in
  an envelope of an exchange that the provider accepted, or the provider returned a change of the same
  entity that is at least as new.  Edits captured while an exchange is under way are kept too.\<close>

theorem no_local_change_lost:
  assumes "cloud_codec_ok env" "edits_ok meanwhile" "sync_inv db" "uploads_sound env vault db"
    and "run_sync env (untrusted reply) meanwhile vault (db, h) = ((db', h'), result)"
    and "k \<in> set (outbox_keys db)"
  shows "k \<in> set (outbox_keys db') \<or> settled env vault reply h' k"
  using run_sync_effect [OF assms(1-5)] assms(6) unfolding run_ok_def by blast

text \<open>Supporting result: A synchronisation that reports success has drained the outbox: nothing is pending, the
  vault's stored cursor is the one reported, and the database and the saved upload are consistent, so the
  next run starts from there.\<close>

theorem successful_sync_drains_queue:
  assumes "cloud_codec_ok env" "edits_ok meanwhile" "sync_inv db" "uploads_sound env vault db"
    and "run_sync env (untrusted reply) meanwhile vault (db, h) = ((db', h'), Inr report)"
  shows "db_outbox db' = [] \<and> pending_change_count db' = cr_pending_changes report \<and>
    cr_cursor report = db_vaults db' (uv_vault_id vault) \<and> cr_cursor report \<noteq> None \<and>
    sync_inv db' \<and> uploads_sound env vault db'"
  using run_sync_effect [OF assms] unfolding run_ok_def by (auto simp: pending_change_count_def)

text \<open>C39: A synchronisation is bounded: it makes at most 64 exchanges and uploads no
  ciphertext above 768 KiB, however the provider answers.\<close>

theorem sync_is_bounded:
  assumes "cloud_codec_ok env" "edits_ok meanwhile" "sync_inv db" "uploads_sound env vault db"
    and "run_sync env (untrusted reply) meanwhile vault (db, h) = ((db', h'), result)"
  shows "\<exists>requests. h' = h @ requests \<and> length requests \<le> 64 \<and>
    list_all (\<lambda>q. \<forall>e. xq_envelope q = Some e \<longrightarrow> length (en_ciphertext e) \<le> 768 * 1024) requests"
  using run_sync_effect [OF assms] unfolding run_ok_def max_sync_rounds_def max_provider_ciphertext_bytes_def by blast

text \<open>C9: The provider cannot forge changes: with an authenticated cipher, the revision recorded
  for an entity only ever becomes that of a change in a batch that a holder of the vault key has encrypted
  for this vault, whatever the provider returns.\<close>

theorem only_sealed_changes_applied:
  assumes "cloud_codec_ok env" "sealed_by_holders (cl_crypto env) (uv_key vault) log"
    and "sync_inv db" "uploads_sound env vault db"
    and "run_sync env transport (\<lambda>_ db. db) vault (db, w) = ((db', w'), result)"
    and "revision_of db' e \<noteq> revision_of db e"
  shows "\<exists>(ctx, batch) \<in> log. ctx_vault_id ctx = uv_vault_id vault \<and>
    (\<exists>c \<in> set (wb_changes batch). change_entity c = e \<and> revision_of db' e = Some (sc_revision c))"
proof -
  from run_sync_rounds [OF assms(5)] assms(6) obtain cursor where
    "sync_rounds env transport (\<lambda>_ db. db) vault max_sync_rounds cursor empty_sync_report (db, w) = ((db', w'), result)" by auto
  from sync_rounds_revisions [OF assms(1) this assms(3,4), of e] assms(6) obtain envelope batch c where
    c: "open_envelope env vault envelope = Inr batch" "c \<in> set (wb_changes batch)" "change_entity c = e"
      "revision_of db' e = Some (sc_revision c)" by blast
  from opened_was_sealed [OF _ assms(2) c(1)] assms(1) c show ?thesis unfolding cloud_codec_ok_def by fast
qed

text \<open>Supporting result: A pairing code is accepted by the device it is given to: decoding an encoded bundle,
  also with blanks around it, gives the bundle back, and the vault key in it is the key exported.\<close>

theorem pairing_code_round_trip:
  assumes "crypto_ok (cl_crypto env)" "\<And>b s. cl_bundle_json env b = Inr s \<Longrightarrow> cl_parse_bundle env s = Some b"
    and "encode_pairing_bundle env bundle = Inr code" "bu_version bundle = pairing_version"
    and "length key = vault_key_len" "bu_vault_key bundle = export_key (cl_crypto env) key"
    and "trim pasted = code" "length pasted \<le> max_pairing_code_bytes"
  shows "decode_pairing_bundle env pasted = Inr bundle \<and> import_key (cl_crypto env) (bu_vault_key bundle) = Inr key"
proof -
  from assms(3) obtain json where j: "cl_bundle_json env bundle = Inr json"
    "code = pairing_prefix @ cy_encode (cl_crypto env) json"
    by (auto simp: encode_pairing_bundle_def rbind_Inr_iff)
  from assms(1) have "cy_decode (cl_crypto env) (cy_encode (cl_crypto env) json) = Some json" by (simp add: crypto_ok_def)
  with assms(2) [OF j(1)] assms(4,7,8) j(2) have "decode_pairing_bundle env pasted = Inr bundle"
    by (simp add: decode_pairing_bundle_def strip_prefix_append)
  with import_export [OF assms(1,5)] assms(6) show ?thesis by simp
qed

section \<open>Concrete runs\<close>

text \<open>A device with one queued deletion, its batch, and an encryption that seals just this batch.\<close>

definition queued_db :: sync_db where
  "queued_db = (case record_local_change sample_env CommandSnippet ''s'' True None sample_db of
     Inl _ \<Rightarrow> sample_db | Inr (_, db) \<Rightarrow> db)"

definition deletion_change :: "'p sync_change" where
  "deletion_change =
     \<lparr>sc_schema_version = 1, sc_change_id = ''u1'', sc_entity_kind = CommandSnippet, sc_entity_id = ''s'',
      sc_revision = ''00000000000000000009:dev-a'', sc_deleted = True, sc_payload = None\<rparr>"

definition deletion_batch :: "'v wire_batch" where
  "deletion_batch = \<lparr>wb_device_id = ''dev-a'', wb_changes = [deletion_change]\<rparr>"

definition deletion_context :: sync_batch_context where
  "deletion_context = \<lparr>ctx_vault_id = ''vault-1'', ctx_batch_id = ''u3'', ctx_schema_version = 1,
     ctx_device_id = ''dev-a'', ctx_cursor = None\<rparr>"

definition sample_tag :: string where "sample_tag = replicate 16 CHR ''t''"

definition sample_crypto :: "sync_payload wire_batch crypto_env" where
  "sample_crypto =
     \<lparr>cy_random = (\<lambda>n. Some (replicate n CHR ''r'')), cy_encode = (\<lambda>s. s), cy_decode = Some,
      cy_to_vec = (\<lambda>b. if b = deletion_batch then Some ''batch'' else None),
      cy_from_slice = (\<lambda>s. if s = ''batch'' then Some deletion_batch else None),
      cy_metadata = (\<lambda>m. if m = \<lparr>am_domain = aad_domain, am_wire_version = 1, am_algorithm = sync_crypto_algorithm,
          am_context = deletion_context\<rparr> then Some ''meta'' else None),
      cy_seal = (\<lambda>k n a p. if a = ''meta'' \<and> p = ''batch'' then Some (p @ sample_tag) else None),
      cy_open = (\<lambda>k n a c. if a = ''meta'' \<and> c = ''batch'' @ sample_tag then Some ''batch'' else None)\<rparr>"

definition deletion_envelope :: encrypted_sync_batch where
  "deletion_envelope = \<lparr>eb_wire_version = 1, eb_algorithm = sync_crypto_algorithm, eb_context = deletion_context,
     eb_nonce = replicate 12 CHR ''r'', eb_ciphertext = ''batch'' @ sample_tag\<rparr>"

definition sample_cloud :: "sync_payload cloud_env" where
  "sample_cloud =
     \<lparr>cl_sync = sample_env, cl_crypto = sample_crypto, cl_provider = sample_provider, cl_value = (\<lambda>p. p),
      cl_parse_envelope = (\<lambda>s. if s = ''envelope'' then Some deletion_envelope else None),
      cl_envelope_json = (\<lambda>e. if e = deletion_envelope then Inr ''envelope'' else Inl ''json''),
      cl_bundle_json = (\<lambda>b. if bu_version b = 2 \<and> bu_provider b = WebDav ''https://dav'' ''u'' ''p'' \<and> bu_vault_id b = ''v''
          then Inr (bu_vault_key b) else Inl ''json''),
      cl_parse_bundle = (\<lambda>s. Some \<lparr>bu_version = 2, bu_provider = WebDav ''https://dav'' ''u'' ''p'', bu_vault_id = ''v'', bu_vault_key = s\<rparr>)\<rparr>"

definition sample_vault :: unlocked_vault where
  "sample_vault = \<lparr>uv_provider = WebDav ''https://dav'' ''u'' ''p'', uv_vault_id = ''vault-1'', uv_key = replicate 32 CHR ''k''\<rparr>"

definition accepting :: "sync_envelope list \<Rightarrow> exchange_request list \<Rightarrow> string + exchange_response" where
  "accepting es h = Inr \<lparr>xr_cursor = ''1'', xr_envelopes = es, xr_has_more = False\<rparr>"

definition sent_deletion :: sync_envelope where
  "sent_deletion = \<lparr>en_envelope_id = ''u3'', en_ciphertext = ''envelope''\<rparr>"

lemma sample_codec: "cloud_codec_ok sample_cloud"
  by (auto simp: cloud_codec_ok_def crypto_ok_def sample_cloud_def sample_crypto_def sample_tag_def tag_len_def
      split: if_splits)

lemma sample_sealed: "sealed_by_holders (cl_crypto sample_cloud) k {(deletion_context, deletion_batch)}"
  by (auto simp: sealed_by_holders_def sample_cloud_def sample_crypto_def authenticated_data_def ok_or_def
      sync_crypto_wire_version_def split: if_splits)

lemma sample_sound: "db_uploads db ''vault-1'' = None \<Longrightarrow> uploads_sound sample_cloud sample_vault db"
  by (simp add: uploads_sound_def sample_vault_def)

lemma no_edits: "edits_ok (\<lambda>_ db. db)"
  by (simp add: edits_ok_def)

lemma queued_run:
  obtains rv where "record_local_change sample_env CommandSnippet ''s'' True None sample_db = Inr (rv, queued_db)"
proof -
  have "is_ok (record_local_change sample_env CommandSnippet ''s'' True None sample_db)" by code_simp
  with that show thesis by (auto simp: queued_db_def elim!: is_ok_obtain)
qed

lemma queued_inv: "sync_inv queued_db"
proof (rule queued_run)
  fix rv
  assume r: "record_local_change sample_env CommandSnippet ''s'' True None sample_db = Inr (rv, queued_db)"
  have "present sample_db = {}" "map_of (db_states sample_db) = Map.empty" "refs_avoid {(CommandSnippet, ''s'')} sample_db"
    by (auto simp: present_def current_domain_payload_def sample_db_def refs_avoid_def split: sync_entity_kind.splits)
  then show ?thesis using sample_inv
    by (intro record_local_change_inv [OF _ _ _ _ r]) (simp_all add: sync_inv_def sample_env_def i64_max_def)
qed

lemma queued_exported:
  "export_pending_changes 256 queued_db = Inr \<lparr>pb_device_id = ''dev-a'', pb_changes = [deletion_change]\<rparr>"
  "load_pending_upload ''vault-1'' queued_db = Inr None" "db_draws queued_db = 3" "env_uuid sample_env 3 = ''u3''"
  "db_uploads queued_db ''vault-1'' = None"
  by code_simp+

lemma queued_sealed:
  "build_sync_envelope sample_cloud sample_vault None \<lparr>pb_device_id = ''dev-a'', pb_changes = [deletion_change]\<rparr> ''u3'' =
     Inr sent_deletion"
  by code_simp

definition saved_upload :: pending_sync_upload where
  "saved_upload = \<lparr>pu_vault_id = ''vault-1'', pu_envelope_id = ''u3'', pu_ciphertext = ''envelope'', pu_change_ids = [''u1'']\<rparr>"

lemma queued_saved: "\<exists>db1. save_pending_upload saved_upload (queued_db\<lparr>db_draws := 4\<rparr>) = Inr db1 \<and> 
   db1 = queued_db\<lparr>db_draws := 4, db_uploads := (db_uploads queued_db)(''vault-1'' \<mapsto> saved_upload)\<rparr>"
proof -
  have "validate_pending_upload saved_upload = Inr ()" by code_simp
  then show ?thesis using queued_exported(5)
    by (simp add: save_pending_upload_def pending_upload_get_def saved_upload_def)
qed

lemma queued_prepared:
  "prepare_upload sample_cloud sample_vault None queued_db =
     (queued_db\<lparr>db_draws := 4, db_uploads := (db_uploads queued_db)(''vault-1'' \<mapsto> saved_upload)\<rparr>, Inr (Some sent_deletion))"
proof -
  have "uv_vault_id sample_vault = ''vault-1''" "cl_sync sample_cloud = sample_env"
    by (simp_all add: sample_vault_def sample_cloud_def)
  moreover have "export_pending_changes max_outbox_batch queued_db = Inr \<lparr>pb_device_id = ''dev-a'', pb_changes = [deletion_change]\<rparr>"
    using queued_exported(1) by (simp only: max_outbox_batch_def)
  moreover have "\<lparr>pu_vault_id = ''vault-1'', pu_envelope_id = en_envelope_id sent_deletion,
      pu_ciphertext = en_ciphertext sent_deletion, pu_change_ids = [sc_change_id (deletion_change :: sync_payload sync_change)]\<rparr> = saved_upload"
    by (simp add: saved_upload_def sent_deletion_def deletion_change_def)
  moreover have "length (en_ciphertext sent_deletion) \<le> max_provider_ciphertext_bytes"
    by (simp add: sent_deletion_def max_provider_ciphertext_bytes_def)
  ultimately show ?thesis using queued_saved
    by (simp add: prepare_upload_def queued_exported fit_upload.simps [of _ _ _ max_outbox_batch] queued_sealed Let_def)
qed

lemma single_round:
  assumes "current_remote_cursor_for_vault db (uv_vault_id vault) = Inr cursor"
    "prepare_upload env vault cursor db = (db1, Inr upload)"
    "transport (uv_provider vault) (uv_vault_id vault) \<lparr>xq_cursor = cursor, xq_envelope = upload\<rparr> w = (w1, Inr response)"
    "finish_round env vault upload response empty_sync_report (meanwhile w1 db1) = (db2, Inr (rep, False))"
  shows "\<exists>report. run_sync env transport meanwhile vault (db, w) = ((db2, w1), Inr report)"
proof -
  have "max_sync_rounds = Suc 63" by (simp add: max_sync_rounds_def)
  moreover have "\<exists>report. sync_rounds env transport meanwhile vault (Suc n) cursor empty_sync_report (db, w) = ((db2, w1), Inr report)" for n
    using assms by simp
  ultimately have "\<exists>report. sync_rounds env transport meanwhile vault max_sync_rounds cursor empty_sync_report (db, w) = ((db2, w1), Inr report)"
    by metis
  with assms(1) show ?thesis by (simp add: run_sync_def)
qed

lemma queued_finished:
  "map_sum id snd (snd (finish_round sample_cloud sample_vault (Some sent_deletion)
      \<lparr>xr_cursor = ''1'', xr_envelopes = [], xr_has_more = False\<rparr> empty_sync_report
      (queued_db\<lparr>db_draws := 4, db_uploads := (db_uploads queued_db)(''vault-1'' \<mapsto> saved_upload)\<rparr>))) = Inr False"
  by code_simp

lemma queued_synced:
  "\<exists>db' h' report. run_sync sample_cloud (untrusted (accepting [])) (\<lambda>_ db. db) sample_vault (queued_db, []) =
     ((db', h'), Inr report)"
proof -
  let ?q = "\<lparr>xq_cursor = None, xq_envelope = Some sent_deletion\<rparr>"
  let ?db = "queued_db\<lparr>db_draws := 4, db_uploads := (db_uploads queued_db)(''vault-1'' \<mapsto> saved_upload)\<rparr>"
  obtain db' f where fin: "finish_round sample_cloud sample_vault (Some sent_deletion)
      \<lparr>xr_cursor = ''1'', xr_envelopes = [], xr_has_more = False\<rparr> empty_sync_report ?db = (db', f)" by fastforce
  with queued_finished obtain rep where f: "f = Inr (rep, False)" by (cases f) auto
  have c: "current_remote_cursor_for_vault queued_db (uv_vault_id sample_vault) = Inr None" by code_simp
  have t: "untrusted (accepting []) p v ?q [] = ([?q], Inr \<lparr>xr_cursor = ''1'', xr_envelopes = [], xr_has_more = False\<rparr>)" for p v
    by (simp add: untrusted_def ask_def accepting_def)
  from single_round [of queued_db sample_vault None sample_cloud _ _ "untrusted (accepting [])", OF c queued_prepared t, of "\<lambda>_ db. db"]
    fin f show ?thesis by blast
qed

theorem no_local_change_lost_witness:
  "\<exists>db' h' report k. run_sync sample_cloud (untrusted (accepting [])) (\<lambda>_ db. db) sample_vault (queued_db, []) =
       ((db', h'), Inr report) \<and> k \<in> set (outbox_keys queued_db) \<and>
     (k \<in> set (outbox_keys db') \<or> settled sample_cloud sample_vault (accepting []) h' k)"
proof -
  obtain db' h' report where run: "run_sync sample_cloud (untrusted (accepting [])) (\<lambda>_ db. db) sample_vault (queued_db, []) =
     ((db', h'), Inr report)" using queued_synced by blast
  have "hd (outbox_keys queued_db) \<in> set (outbox_keys queued_db)" by (rule hd_in_set) code_simp
  with run no_local_change_lost [OF sample_codec no_edits queued_inv sample_sound [OF queued_exported(5)] run this]
  show ?thesis by blast
qed

theorem successful_sync_drains_queue_witness:
  "\<exists>db' h' report. run_sync sample_cloud (untrusted (accepting [])) (\<lambda>_ db. db) sample_vault (queued_db, []) =
     ((db', h'), Inr report) \<and> db_outbox queued_db \<noteq> [] \<and> db_outbox db' = []"
proof -
  obtain db' h' report where run: "run_sync sample_cloud (untrusted (accepting [])) (\<lambda>_ db. db) sample_vault (queued_db, []) =
     ((db', h'), Inr report)" using queued_synced by blast
  have "db_outbox queued_db \<noteq> []" by code_simp
  with run successful_sync_drains_queue [OF sample_codec no_edits queued_inv sample_sound [OF queued_exported(5)] run]
  show ?thesis by blast
qed

theorem sync_is_bounded_witness:
  "\<exists>db' h' result. run_sync sample_cloud (untrusted (accepting [sent_deletion])) (\<lambda>_ db. db) sample_vault (queued_db, []) =
     ((db', h'), result) \<and> length h' \<le> 64"
proof -
  obtain db' h' result where run: "run_sync sample_cloud (untrusted (accepting [sent_deletion])) (\<lambda>_ db. db) sample_vault (queued_db, []) =
     ((db', h'), result)" by (metis surj_pair)
  with sync_is_bounded [OF sample_codec no_edits queued_inv sample_sound [OF queued_exported(5)] run] show ?thesis by auto
qed

text \<open>The other device receives the deletion.\<close>

lemma received_deletion:
  "\<exists>db' h' r. run_sync sample_cloud (untrusted (accepting [sent_deletion])) (\<lambda>_ db. db) sample_vault (sample_db, []) =
     ((db', h'), r) \<and> revision_of db' (CommandSnippet, ''s'') \<noteq> revision_of sample_db (CommandSnippet, ''s'')"
proof -
  let ?q = "\<lparr>xq_cursor = None, xq_envelope = None\<rparr>"
  let ?resp = "\<lparr>xr_cursor = ''1'', xr_envelopes = [sent_deletion], xr_has_more = False\<rparr>"
  have opened: "open_envelope sample_cloud sample_vault sent_deletion = Inr deletion_batch" by code_simp
  have collected: "collect_changes sample_cloud sample_vault [] [sent_deletion] = Inr [deletion_change]"
    by (simp add: opened deletion_batch_def max_remote_changes_per_page_def)
  define applied where "applied = apply_remote_batch_for_vault (cl_sync sample_cloud) (uv_vault_id sample_vault) ''1'' [deletion_change] sample_db"
  have "map_sum id (\<lambda>(db, _). (revision_of db (CommandSnippet, ''s'') \<noteq> None, pending_change_count db,
      metadata_get (db_metadata db) device_id_key)) applied = Inr (True, 0, Some ''dev-a'')"
    unfolding applied_def by code_simp
  then obtain db1 totals where a: "applied = Inr (db1, totals)" "revision_of db1 (CommandSnippet, ''s'') \<noteq> None"
    "db_outbox db1 = []" "metadata_get (db_metadata db1) device_id_key = Some ''dev-a''"
    by (cases applied) (auto simp: pending_change_count_def)
  obtain rep where fin: "finish_round sample_cloud sample_vault None ?resp empty_sync_report sample_db = (db1, Inr (rep, False))"
    using a by (simp add: finish_round_def collected storage_def applied_def [symmetric] Let_def export_pending_changes_def ok_or_def del: collect_changes.simps)
  have c: "current_remote_cursor_for_vault sample_db (uv_vault_id sample_vault) = Inr None"
    "load_pending_upload (uv_vault_id sample_vault) sample_db = Inr None" by code_simp+
  have "export_pending_changes max_outbox_batch sample_db = Inr \<lparr>pb_device_id = ''dev-a'', pb_changes = []\<rparr>" by code_simp
  then have p: "prepare_upload sample_cloud sample_vault None sample_db = (sample_db, Inr None)"
    by (simp add: prepare_upload_def c(2) fit_upload.simps [of _ _ _ max_outbox_batch])
  have t: "untrusted (accepting [sent_deletion]) p v ?q [] = ([?q], Inr ?resp)" for p v
    by (simp add: untrusted_def ask_def accepting_def)
  have "revision_of sample_db (CommandSnippet, ''s'') = None" by (simp add: revision_of_def sample_db_def)
  with single_round [of sample_db sample_vault None sample_cloud _ _ "untrusted (accepting [sent_deletion])", OF c(1) p t, of "\<lambda>_ db. db"]
    fin a(2) show ?thesis by metis
qed

theorem only_sealed_changes_applied_witness:
  "\<exists>db' h' r. run_sync sample_cloud (untrusted (accepting [sent_deletion])) (\<lambda>_ db. db) sample_vault (sample_db, []) =
     ((db', h'), r) \<and> revision_of db' (CommandSnippet, ''s'') = Some ''00000000000000000009:dev-a''"
proof -
  obtain db' h' r where run: "run_sync sample_cloud (untrusted (accepting [sent_deletion])) (\<lambda>_ db. db) sample_vault (sample_db, []) =
     ((db', h'), r)" "revision_of db' (CommandSnippet, ''s'') \<noteq> revision_of sample_db (CommandSnippet, ''s'')"
    using received_deletion by blast
  have "db_uploads sample_db ''vault-1'' = None" by (simp add: sample_db_def)
  from only_sealed_changes_applied [OF sample_codec sample_sealed sample_inv sample_sound [OF this] run] run(1)
  show ?thesis by (auto simp: deletion_batch_def deletion_change_def)
qed

theorem pairing_code_round_trip_witness:
  "\<exists>code. encode_pairing_bundle sample_cloud \<lparr>bu_version = 2, bu_provider = WebDav ''https://dav'' ''u'' ''p'',
        bu_vault_id = ''v'', bu_vault_key = replicate 32 CHR ''k''\<rparr> = Inr code \<and>
     decode_pairing_bundle sample_cloud ('' '' @ code) = Inr \<lparr>bu_version = 2, bu_provider = WebDav ''https://dav'' ''u'' ''p'',
        bu_vault_id = ''v'', bu_vault_key = replicate 32 CHR ''k''\<rparr>"
proof -
  let ?b = "\<lparr>bu_version = 2, bu_provider = WebDav ''https://dav'' ''u'' ''p'', bu_vault_id = ''v'', bu_vault_key = replicate 32 CHR ''k''\<rparr>"
  let ?code = "pairing_prefix @ replicate 32 CHR ''k''"
  have enc: "encode_pairing_bundle sample_cloud ?b = Inr ?code"
    by (simp add: encode_pairing_bundle_def sample_cloud_def sample_crypto_def reason_def)
  have codec: "crypto_ok (cl_crypto sample_cloud)" using sample_codec by (simp add: cloud_codec_ok_def)
  have json: "cl_parse_bundle sample_cloud s = Some b" if "cl_bundle_json sample_cloud b = Inr s" for b s
    using that by (cases b) (auto simp: sample_cloud_def split: if_splits)
  have "trim ('' '' @ ?code) = ?code" by code_simp
  moreover have "length ('' '' @ ?code) \<le> max_pairing_code_bytes"
    by (simp add: pairing_prefix_def max_pairing_code_bytes_def)
  ultimately have "decode_pairing_bundle sample_cloud ('' '' @ ?code) = Inr ?b"
    using pairing_code_round_trip [OF codec json enc, of "replicate 32 CHR ''k''" "'' '' @ ?code"]
    by (simp add: pairing_version_def vault_key_len_def export_key_def sample_cloud_def sample_crypto_def)
  with enc show ?thesis by blast
qed

end
