(* ===== verification/Sftp_Paths.thy ===== *)
theory Sftp_Paths
  imports Prelude
begin

text \<open>
  Remote paths and exclude lists: the pure functions of \<^verbatim>\<open>src-tauri/src/sftp/helpers.rs\<close> and
  \<^verbatim>\<open>src-tauri/src/sftp/sync.rs\<close>.  The lemmas say what a joined path looks like component by
  component (\<open>components\<close>), that a name accepted by \<open>validate_remote_entry_name\<close> adds exactly one
  component, and that the normal form of an exclude list is stable.
\<close>

section \<open>Paths\<close>

definition slash :: char where "slash = CHR ''/''"

definition join_remote_child :: "string \<Rightarrow> string \<Rightarrow> string" where
  "join_remote_child parent child_name =
     (let p = trim_end_matches [slash] parent; c = trim_start_matches [slash] child_name in
      if p = [] then slash # c else p @ slash # c)"

definition resolve_remote_path :: "string \<Rightarrow> string \<Rightarrow> string \<Rightarrow> string" where
  "resolve_remote_path path home_dir current_path =
     (if path = [] \<or> path = ''~'' then home_dir
      else (case strip_prefix ''~/'' path of
              Some rest \<Rightarrow> join_remote_child home_dir rest
            | None \<Rightarrow>
                (if starts_with path [slash] then path
                 else join_remote_child (if current_path = [] then home_dir else current_path) path)))"

text \<open>The message shows the name quoted; the escapes of \<^verbatim>\<open>{:?}\<close> are left out.\<close>

definition validate_remote_entry_name :: "string \<Rightarrow> string + unit" where
  "validate_remote_entry_name name =
     ensure (\<not> (name = [] \<or> name = ''.'' \<or> name = ''..'' \<or> slash \<in> set name \<or> CHR 0x00 \<in> set name))
       (''Unsafe SFTP directory entry: '' @ [CHR 0x22] @ name @ [CHR 0x22])"

text \<open>\<^verbatim>\<open>path.rfind('/')\<close> with the part before it: the parent directory of a remote file.\<close>

definition parent_of_trimmed :: "string \<Rightarrow> string option" where
  "parent_of_trimmed p =
     (if p = [] \<or> p = [slash] then None
      else (case rsplit_once slash p of
              None \<Rightarrow> None
            | Some (before, _) \<Rightarrow> Some (if before = [] then [slash] else before)))"

definition remote_parent_dir :: "string \<Rightarrow> string option" where
  "remote_parent_dir path = parent_of_trimmed (trim_end_matches [slash] path)"

definition sync_remote_parent_dir :: "string \<Rightarrow> string option" where
  "sync_remote_parent_dir path = parent_of_trimmed (trim_end_matches [slash] (trim path))"

definition normalize_remote_dir :: "string \<Rightarrow> string" where
  "normalize_remote_dir path =
     (let t = trim path in
      if t = [] then ''.'' else if t \<noteq> [slash] then trim_end_matches [slash] t else t)"

definition path_parts :: "string \<Rightarrow> string list" where
  "path_parts s = split_on (\<lambda>c. c = slash) s"

definition components :: "string \<Rightarrow> string list" where
  "components s = filter (\<lambda>c. c \<noteq> []) (path_parts s)"

definition join_remote_relative :: "string \<Rightarrow> string \<Rightarrow> string" where
  "join_remote_relative base relative = foldl join_remote_child (normalize_remote_dir base) (components relative)"

text \<open>\<^verbatim>\<open>path.matches('/').count()\<close>.\<close>

definition slashes :: "string \<Rightarrow> nat" where
  "slashes s = length (filter (\<lambda>c. c = slash) s)"

section \<open>Exclude lists\<close>

definition exclude_separator :: "char \<Rightarrow> bool" where
  "exclude_separator c \<longleftrightarrow> c = CHR 0x0A \<or> c = CHR '','' \<or> c = CHR '';''"

definition parse_exclude_list :: "string \<Rightarrow> string list" where
  "parse_exclude_list v = filter (\<lambda>p. p \<noteq> []) (map trim (split_on exclude_separator v))"

definition forward_slashes :: "string \<Rightarrow> string" where
  "forward_slashes s = map (\<lambda>c. if c = CHR 0x5C then slash else c) s"

definition exclude_pattern :: "string \<Rightarrow> string option" where
  "exclude_pattern v =
     (let normalized = forward_slashes (trim v) in
      if normalized = [] \<or> starts_with normalized ''#'' then None else Some normalized)"

text \<open>The first occurrence of each pattern is kept; \<open>seen\<close> is the set of the loop.\<close>

fun keep_unseen :: "string list \<Rightarrow> string list \<Rightarrow> string list" where
  "keep_unseen seen [] = []"
| "keep_unseen seen (v # vs) =
     (case exclude_pattern v of
        None \<Rightarrow> keep_unseen seen vs
      | Some n \<Rightarrow> (if List.member seen n then keep_unseen seen vs else n # keep_unseen (n # seen) vs))"

definition normalize_excludes :: "string list \<Rightarrow> string list" where
  "normalize_excludes excludes = keep_unseen [] (concat (map parse_exclude_list excludes))"

definition default_upload_excludes :: "string list" where
  "default_upload_excludes =
     [''node_modules/'', ''.git/'', ''.svn/'', ''.hg/'', ''target/'', ''.next/'', ''.nuxt/'', ''.turbo/'',
      ''.cache/'', ''coverage/'', ''__pycache__/'', ''.pytest_cache/'', ''.mypy_cache/'', ''.ruff_cache/'',
      ''.venv/'', ''venv/'', ''env/'']"

record upload_ignore_config =
  uc_excluded_paths :: "string list"
  uc_respect_gitignore :: bool

definition default_upload_ignore_config :: upload_ignore_config where
  "default_upload_ignore_config =
     \<lparr>uc_excluded_paths = default_upload_excludes, uc_respect_gitignore = True\<rparr>"

record directory_transfer_options =
  do_excluded_paths :: "string list"
  do_respect_gitignore :: bool
  do_delete_extra :: bool

text \<open>\<open>stored\<close> is the outcome of reading the configuration file: \<open>None\<close> when there is none; \<open>env_excludes\<close> the
  environment variable.\<close>

definition load_upload_ignore_config ::
    "string + upload_ignore_config option \<Rightarrow> string + upload_ignore_config" where
  "load_upload_ignore_config stored =
     rbind stored (\<lambda>found.
     Inr (case found of
            None \<Rightarrow> default_upload_ignore_config
          | Some c \<Rightarrow> c\<lparr>uc_excluded_paths := normalize_excludes (uc_excluded_paths c)\<rparr>))"

definition save_upload_ignore_config ::
    "(upload_ignore_config \<Rightarrow> string + unit) \<Rightarrow> upload_ignore_config \<Rightarrow> string + upload_ignore_config" where
  "save_upload_ignore_config write_file config =
     (let c = \<lparr>uc_excluded_paths = normalize_excludes (uc_excluded_paths config),
               uc_respect_gitignore = uc_respect_gitignore config\<rparr> in
      rbind (write_file c) (\<lambda>_. Inr c))"

definition effective_directory_transfer_options ::
    "string + upload_ignore_config option \<Rightarrow> string option \<Rightarrow> string list option \<Rightarrow> bool option \<Rightarrow> bool \<Rightarrow>
     directory_transfer_options" where
  "effective_directory_transfer_options stored env_excludes request_excludes respect_gitignore delete_extra =
     (let config = (case load_upload_ignore_config stored of Inr c \<Rightarrow> c | Inl _ \<Rightarrow> default_upload_ignore_config);
          excludes = uc_excluded_paths config @
            (case env_excludes of Some v \<Rightarrow> parse_exclude_list v | None \<Rightarrow> []) @
            (case request_excludes of Some extra \<Rightarrow> extra | None \<Rightarrow> []) in
      \<lparr>do_excluded_paths = normalize_excludes excludes,
       do_respect_gitignore =
         (case respect_gitignore of Some b \<Rightarrow> b | None \<Rightarrow> uc_respect_gitignore config),
       do_delete_extra = delete_extra\<rparr>)"

section \<open>Components of joined paths\<close>

lemma path_parts_append: "path_parts (a @ slash # b) = path_parts a @ path_parts b"
  by (simp add: path_parts_def split_on_append_sep)

lemma components_append: "components (a @ slash # b) = components a @ components b"
  by (simp add: components_def path_parts_append)

lemma components_slash [simp]: "components (slash # b) = components b"
  using components_append [of "[]" b] by (simp add: components_def path_parts_def)

lemma components_Nil [simp]: "components [] = []"
  by (simp add: components_def path_parts_def)

lemma components_trim_start: "components (trim_start_matches [slash] s) = components s"
proof (induction s)
  case Nil
  then show ?case by (simp add: trim_start_matches_def)
next
  case (Cons c s)
  then show ?case by (cases "c = slash") (auto simp: trim_start_matches_def List.member_iff)
qed

lemma trim_end_matches_snoc:
  "trim_end_matches [d] (s @ [c]) = (if c = d then trim_end_matches [d] s else s @ [c])"
  by (simp add: trim_end_matches_def List.member_iff)

lemma components_snoc_slash [simp]: "components (s @ [slash]) = components s"
  using components_append [of s "[]"] by simp

lemma components_trim_end: "components (trim_end_matches [slash] s) = components s"
proof (induction s rule: rev_induct)
  case Nil
  then show ?case by (simp add: trim_end_matches_def)
next
  case (snoc c s)
  then show ?case by (cases "c = slash") (auto simp: trim_end_matches_snoc)
qed

lemma components_join: "components (join_remote_child parent child) = components parent @ components child"
  using components_trim_end [of parent]
  by (auto simp: join_remote_child_def Let_def components_append components_trim_start)

lemma components_single: "slash \<notin> set name \<Longrightarrow> name \<noteq> [] \<Longrightarrow> components name = [name]"
proof -
  assume "slash \<notin> set name" "name \<noteq> []"
  then have "split_on (\<lambda>c. c = slash) name = [name]" by (intro split_on_no_sep) auto
  with \<open>name \<noteq> []\<close> show ?thesis by (simp add: components_def path_parts_def)
qed

lemma components_no_slash: "c \<in> set (components s) \<Longrightarrow> slash \<notin> set c \<and> c \<noteq> []"
  by (auto simp: components_def path_parts_def dest: split_on_parts)

definition entry_name_ok :: "string \<Rightarrow> bool" where
  "entry_name_ok name \<longleftrightarrow> validate_remote_entry_name name = Inr ()"

lemma entry_name_ok_iff:
  "entry_name_ok name \<longleftrightarrow> name \<noteq> [] \<and> name \<noteq> ''.'' \<and> name \<noteq> ''..'' \<and> slash \<notin> set name \<and> CHR 0x00 \<notin> set name"
  by (auto simp: entry_name_ok_def validate_remote_entry_name_def)

lemma components_join_entry:
  "entry_name_ok name \<Longrightarrow> components (join_remote_child parent name) = components parent @ [name]"
  by (simp add: components_join components_single entry_name_ok_iff)

lemma components_join_relative:
  "components (join_remote_relative base relative) = components (normalize_remote_dir base) @ components relative"
proof -
  have "components (foldl join_remote_child b cs) = components b @ cs"
    if "\<forall>c \<in> set cs. slash \<notin> set c \<and> c \<noteq> []" for b cs
    using that by (induction cs arbitrary: b) (simp_all add: components_join components_single)
  then show ?thesis using components_no_slash by (auto simp: join_remote_relative_def)
qed

text \<open>A join under an absolute directory is absolute, under a relative one relative.\<close>

definition absolute :: "string \<Rightarrow> bool" where
  "absolute p \<longleftrightarrow> starts_with p [slash]"

lemma absolute_simps [simp]: "absolute (c # s) \<longleftrightarrow> c = slash" "\<not> absolute []"
  by (simp_all add: absolute_def)

lemma trim_end_prefix: "\<exists>u. s = trim_end_matches cs s @ u"
proof -
  have "rev s = takeWhile (\<lambda>c. List.member cs c) (rev s) @ dropWhile (\<lambda>c. List.member cs c) (rev s)" by simp
  then have "s = rev (dropWhile (\<lambda>c. List.member cs c) (rev s)) @ rev (takeWhile (\<lambda>c. List.member cs c) (rev s))"
    by (metis rev_append rev_rev_ident)
  then show ?thesis by (auto simp: trim_end_matches_def)
qed

lemma absolute_join: "absolute parent \<Longrightarrow> absolute (join_remote_child parent child)"
  using trim_end_prefix [of parent "[slash]"]
  by (cases "trim_end_matches [slash] parent") (auto simp: join_remote_child_def Let_def)


section \<open>The normal form of exclude lists\<close>

definition exclude_ok :: "string \<Rightarrow> bool" where
  "exclude_ok n \<longleftrightarrow> n \<noteq> [] \<and> trim n = n \<and> \<not> starts_with n ''#'' \<and>
     list_all (\<lambda>c. \<not> exclude_separator c \<and> c \<noteq> CHR 0x5C) n"

lemma forward_slashes_id: "CHR 0x5C \<notin> set n \<Longrightarrow> forward_slashes n = n"
  by (induction n) (auto simp: forward_slashes_def)

lemma exclude_pattern_ok: "exclude_ok n \<Longrightarrow> exclude_pattern n = Some n"
proof -
  assume n: "exclude_ok n"
  then have t: "trim n = n" and p: "n \<noteq> []" "\<not> starts_with n ''#''" by (simp_all add: exclude_ok_def)
  from n have "CHR 0x5C \<notin> set n" by (auto simp: exclude_ok_def list_all_iff)
  then show ?thesis by (simp add: exclude_pattern_def t p forward_slashes_id Let_def)
qed

lemma parse_exclude_ok: "exclude_ok n \<Longrightarrow> parse_exclude_list n = [n]"
proof -
  assume n: "exclude_ok n"
  then have "split_on exclude_separator n = [n]" by (intro split_on_no_sep) (auto simp: exclude_ok_def list_all_iff)
  with n show ?thesis by (simp add: parse_exclude_list_def exclude_ok_def)
qed

lemma keep_unseen_ok:
  "\<forall>n \<in> set ns. exclude_ok n \<Longrightarrow> distinct ns \<Longrightarrow> set ns \<inter> set seen = {} \<Longrightarrow> keep_unseen seen ns = ns"
proof (induction ns arbitrary: seen)
  case Nil
  then show ?case by simp
next
  case (Cons n ns)
  then have "keep_unseen (n # seen) ns = ns" by (intro Cons.IH) auto
  moreover have "exclude_pattern n = Some n" "n \<notin> set seen" using Cons.prems by (auto intro: exclude_pattern_ok)
  ultimately show ?case by (simp add: List.member_iff)
qed

lemma keep_unseen_distinct: "distinct (keep_unseen seen vs) \<and> set (keep_unseen seen vs) \<inter> set seen = {}"
  by (induction seen vs rule: keep_unseen.induct) (auto simp: List.member_iff split: option.splits)

lemma keep_unseen_set:
  "set (keep_unseen seen vs) = {n. \<exists>v \<in> set vs. exclude_pattern v = Some n} - set seen"
  by (induction seen vs rule: keep_unseen.induct) (auto simp: List.member_iff split: option.splits)

lemma utf8_chars_forward: "utf8_chars (forward_slashes s) = map forward_slashes (utf8_chars s)"
proof -
  let ?f = "\<lambda>c. if c = CHR 0x5C then slash else c"
  have c: "is_cont \<circ> ?f = is_cont"
    by (rule ext) (simp add: is_cont_def byte_def slash_def)
  have f: "forward_slashes = map ?f" by (rule ext) (simp add: forward_slashes_def)
  have "is_cont (?f d) = is_cont d" for d using fun_cong [OF c, of d] by simp
  then have "takeWhile is_cont (map ?f cs) = map ?f (takeWhile is_cont cs)"
    "dropWhile is_cont (map ?f cs) = map ?f (dropWhile is_cont cs)" for cs
    unfolding takeWhile_map dropWhile_map c by simp_all
  then show ?thesis
    unfolding f by (induction s rule: utf8_chars.induct) simp_all
qed

lemma is_whitespace_forward: "is_whitespace (forward_slashes g) = is_whitespace g"
proof -
  have w: "list_all (\<lambda>u. CHR 0x5C \<notin> set u \<and> slash \<notin> set u) unicode_spaces"
    by (simp add: unicode_spaces_def slash_def)
  show ?thesis
  proof (cases "CHR 0x5C \<in> set g")
    case True
    then have "slash \<in> set (forward_slashes g)" by (force simp: forward_slashes_def)
    with True w show ?thesis by (auto simp: is_whitespace_def List.member_iff list_all_iff)
  next
    case False
    then show ?thesis by (simp add: forward_slashes_id)
  qed
qed

lemma trim_forward: "trim (forward_slashes s) = forward_slashes (trim s)"
proof -
  have "concat (map forward_slashes gs) = forward_slashes (concat gs)" for gs
    by (induction gs) (auto simp: forward_slashes_def)
  then show ?thesis
    by (simp add: trim_def utf8_chars_forward dropWhile_map comp_def is_whitespace_forward rev_map)
qed

text \<open>Trimming twice is trimming once; this holds of any bytes.\<close>

definition char_list :: "string list \<Rightarrow> bool" where
  "char_list gs \<longleftrightarrow> (case gs of [] \<Rightarrow> True | g # rest \<Rightarrow>
     (case g of [] \<Rightarrow> False | _ # cs \<Rightarrow> list_all is_cont cs) \<and> list_all wf_char rest)"

lemma wf_char_list: "list_all wf_char gs \<Longrightarrow> char_list gs"
  by (auto simp: char_list_def wf_char_def split: list.splits)

lemma char_list_utf8: "char_list (utf8_chars s)"
proof (cases s)
  case Nil
  then show ?thesis by (simp add: char_list_def)
next
  case (Cons c cs)
  moreover have "list_all is_cont (takeWhile is_cont cs)" by (auto simp: list_all_iff dest: set_takeWhileD)
  ultimately show ?thesis by (simp add: char_list_def wf_utf8_chars at_boundary_dropWhile)
qed

lemma utf8_chars_char_list: "char_list gs \<Longrightarrow> utf8_chars (concat gs) = gs"
proof (cases gs)
  case (Cons g rest)
  assume "char_list gs"
  with Cons obtain c cs where g: "g = c # cs" "list_all is_cont cs" "list_all wf_char rest"
    by (auto simp: char_list_def split: list.splits)
  with takeWhile_dropWhile_cont [OF g(2) at_boundary_concat [OF g(3)]] Cons utf8_chars_concat [OF g(3)]
  show ?thesis by simp
qed simp

lemma char_list_suffix: "char_list (xs @ ys) \<Longrightarrow> char_list ys"
proof (cases xs)
  case Nil
  then show "char_list (xs @ ys) \<Longrightarrow> char_list ys" by simp
next
  case (Cons x xs')
  assume "char_list (xs @ ys)"
  with Cons have "list_all wf_char ys" by (simp add: char_list_def)
  then show "char_list ys" by (rule wf_char_list)
qed

lemma char_list_prefix: "char_list (xs @ ys) \<Longrightarrow> char_list xs"
  by (cases xs) (auto simp: char_list_def split: list.splits)

lemma utf8_chars_trim:
  "utf8_chars (trim s) = rev (dropWhile is_whitespace (rev (dropWhile is_whitespace (utf8_chars s))))"
proof -
  let ?d = "dropWhile is_whitespace (utf8_chars s)"
  have "char_list ?d"
    using char_list_utf8 [of s] takeWhile_dropWhile_id [of is_whitespace "utf8_chars s"] by (metis char_list_suffix)
  moreover have "?d = rev (dropWhile is_whitespace (rev ?d)) @ rev (takeWhile is_whitespace (rev ?d))"
    by (metis rev_append rev_rev_ident takeWhile_dropWhile_id)
  ultimately have "char_list (rev (dropWhile is_whitespace (rev ?d)))" by (metis char_list_prefix)
  then show ?thesis unfolding trim_def by (rule utf8_chars_char_list)
qed

lemma dropWhile_idle: "xs = [] \<or> \<not> p (hd xs) \<Longrightarrow> dropWhile p xs = xs"
  by (cases xs) auto

lemma trim_trim [simp]: "trim (trim s) = trim s"
proof -
  let ?d = "dropWhile is_whitespace (utf8_chars s)" let ?e = "rev (dropWhile is_whitespace (rev ?d))"
  have "dropWhile is_whitespace ?e = ?e"
  proof (rule dropWhile_idle)
    have "?d = ?e @ rev (takeWhile is_whitespace (rev ?d))"
      by (metis rev_append rev_rev_ident takeWhile_dropWhile_id)
    then have "?e = [] \<or> hd ?e = hd ?d" by (cases ?e) (simp_all, metis hd_append list.sel(1) list.simps(3))
    moreover have "?d = [] \<or> \<not> is_whitespace (hd ?d)" by (metis hd_dropWhile)
    moreover have "?e = []" if "?d = []" unfolding that by simp
    ultimately show "?e = [] \<or> \<not> is_whitespace (hd ?e)" by metis
  qed
  moreover have "dropWhile is_whitespace (rev ?e) = rev ?e"
    by (rule dropWhile_idle) (metis hd_dropWhile rev_rev_ident)
  ultimately show ?thesis unfolding trim_def [of "trim s"] utf8_chars_trim by (simp add: trim_def)
qed

lemma set_trim: "set (trim s) \<subseteq> set s"
proof -
  have d: "set (dropWhile p xs) \<subseteq> set xs" for p and xs :: "string list" by (auto dest: set_dropWhileD)
  have "set (rev (dropWhile is_whitespace (rev (dropWhile is_whitespace (utf8_chars s))))) \<subseteq> set (utf8_chars s)"
    unfolding set_rev by (rule order_trans [OF d]) (simp add: d)
  then have "set (concat (rev (dropWhile is_whitespace (rev (dropWhile is_whitespace (utf8_chars s)))))) \<subseteq>
      set (concat (utf8_chars s))"
    unfolding set_concat by blast
  then show ?thesis unfolding trim_def concat_utf8_chars .
qed

lemma normalized_exclude_ok:
  assumes "n \<in> set (normalize_excludes excludes)"
  shows "exclude_ok n"
proof -
  obtain e v where v: "v \<in> set (parse_exclude_list e)" "exclude_pattern v = Some n"
    using assms by (auto simp: normalize_excludes_def keep_unseen_set)
  then obtain part where part: "part \<in> set (split_on exclude_separator e)" "v = trim part"
    by (auto simp: parse_exclude_list_def)
  from v(2) part(2) have n: "n = forward_slashes (trim part)" "n \<noteq> []" "\<not> starts_with n ''#''"
    by (auto simp: exclude_pattern_def Let_def split: if_splits)
  have "\<forall>c \<in> set (trim part). \<not> exclude_separator c"
    using split_on_parts [OF part(1)] set_trim [of part] by blast
  then have "list_all (\<lambda>c. \<not> exclude_separator c \<and> c \<noteq> CHR 0x5C) n"
    by (auto simp: n(1) forward_slashes_def list_all_iff exclude_separator_def slash_def)
  with n show ?thesis by (simp add: exclude_ok_def trim_forward)
qed

lemma normalize_normalized:
  assumes "\<forall>n \<in> set ns. exclude_ok n" "distinct ns"
  shows "normalize_excludes ns = ns"
proof -
  have "concat (map parse_exclude_list ns) = ns"
    using assms(1) by (induction ns) (simp_all add: parse_exclude_ok)
  then show ?thesis using assms by (simp add: normalize_excludes_def keep_unseen_ok)
qed

section \<open>Properties\<close>

text \<open>Supporting result: the exclude list that is stored, loaded and combined with the request is in normal form, and
  normalising is idempotent: no pattern occurs twice, and none is blank, a comment, padded, or holds a
  separator or a backslash, so saving and loading again changes nothing.\<close>

theorem exclude_lists_are_stable:
  "normalize_excludes (normalize_excludes excludes) = normalize_excludes excludes \<and>
   distinct (normalize_excludes excludes) \<and>
   list_all (\<lambda>n. n \<noteq> [] \<and> trim n = n \<and> \<not> starts_with n ''#'' \<and>
     list_all (\<lambda>c. \<not> exclude_separator c \<and> c \<noteq> CHR 0x5C) n) (normalize_excludes excludes) \<and>
   load_upload_ignore_config (Inr (Some (config\<lparr>uc_excluded_paths := normalize_excludes excludes\<rparr>))) =
     Inr (config\<lparr>uc_excluded_paths := normalize_excludes excludes\<rparr>)"
proof -
  have ok: "\<forall>n \<in> set (normalize_excludes excludes). exclude_ok n" using normalized_exclude_ok by blast
  have d: "distinct (normalize_excludes excludes)"
    using keep_unseen_distinct by (simp add: normalize_excludes_def)
  note i = normalize_normalized [OF ok d]
  from ok have "list_all (\<lambda>n. n \<noteq> [] \<and> trim n = n \<and> \<not> starts_with n ''#'' \<and>
     list_all (\<lambda>c. \<not> exclude_separator c \<and> c \<noteq> CHR 0x5C) n) (normalize_excludes excludes)"
    unfolding list_all_iff exclude_ok_def by blast
  with d i show ?thesis by (simp add: load_upload_ignore_config_def)
qed

text \<open>Supporting result: the two functions that find the parent directory of an upload disagree on paths with outer
  blanks: the streaming upload, which says it mirrors the other, trims the path, so for the file
  \<open>/data/ a\<close> under a directory named with a leading blank it prepares another directory.\<close>

theorem parent_directories_disagree:
  "remote_parent_dir '' in/a'' = Some '' in'' \<and> sync_remote_parent_dir '' in/a'' = Some ''in'' \<and>
   normalize_remote_dir ''/srv/in '' = ''/srv/in''"
  by code_simp

end
