(* ===== verification/Sftp_Client.thy ===== *)
theory Sftp_Client
  imports Sftp_Paths Decimal Requests
begin

text \<open>
  File operations over SFTP: \<^verbatim>\<open>src-tauri/src/sftp/helpers.rs\<close> and the remote half of
  \<^verbatim>\<open>src-tauri/src/sftp/sync.rs\<close>.  The server is not trusted: it is a record of functions from
  the list of all requests so far to an answer.
  Files on the local side are what their reads return; the \<^verbatim>\<open>ignore\<close> crate is a set of matching
  functions.  The properties hold for every server: which paths a deletion may touch, how deep a
  traversal goes, what a successful upload has sent.
\<close>

section \<open>Requests and answers\<close>

datatype sftp_request =
    CreateDir string
  | Metadata string
  | ReadDir string
  | OpenRead string
  | OpenWrite string bool
  | Read string nat
  | ReadExact string nat
  | Write string string
  | CloseFile string
  | RemoveFile string
  | RemoveDir string
  | Canonicalize string
  | ReadAll string
  | Rename string string

record file_attrs =
  fa_is_dir :: bool
  fa_size :: "nat option"
  fa_modified :: "int option"
  fa_permissions :: string

text \<open>An entry of a listing with its own attributes, and what its type says.\<close>

record dir_entry =
  de_name :: string
  de_is_dir :: bool
  de_is_symlink :: bool
  de_attrs :: file_attrs

record sftp_server =
  sv_unit :: "sftp_request list \<Rightarrow> string + unit"
  sv_attrs :: "sftp_request list \<Rightarrow> string + file_attrs"
  sv_entries :: "sftp_request list \<Rightarrow> string + dir_entry list"
  sv_data :: "sftp_request list \<Rightarrow> string + string"

type_synonym 'a sftp = "(sftp_request list, 'a) io"

section \<open>Single files and directories\<close>

definition max_recursive_depth :: nat where "max_recursive_depth = 100"

definition resolve_remote_upload_path :: "sftp_server \<Rightarrow> string \<Rightarrow> string \<Rightarrow> string sftp" where
  "resolve_remote_upload_path srv path local_filename =
     (if local_filename = [] then sreturn path
      else if ends_with path [slash] then sreturn (join_remote_child path local_filename)
      else sbind (stry (ask (sv_attrs srv) (Metadata path))) (\<lambda>r.
        case r of
          Inr attrs \<Rightarrow> sreturn (if fa_is_dir attrs then join_remote_child path local_filename else path)
        | Inl _ \<Rightarrow> sbind (stry (ask (sv_entries srv) (ReadDir path))) (\<lambda>r'.
            sreturn (case r' of Inr _ \<Rightarrow> join_remote_child path local_filename | Inl _ \<Rightarrow> path))))"

text \<open>The loop over the components of the path; \<open>current\<close> is the prefix built so far.\<close>

definition extend_dir :: "string \<Rightarrow> string \<Rightarrow> string" where
  "extend_dir current component =
     (if current = [] \<or> current = [slash] then current @ component else current @ slash # component)"

fun mkdir_components :: "sftp_server \<Rightarrow> string \<Rightarrow> string list \<Rightarrow> unit sftp" where
  "mkdir_components srv current [] = sreturn ()"
| "mkdir_components srv current (component # rest) =
     (if component = [] then mkdir_components srv (current @ [slash]) rest
      else
        (let next_dir = extend_dir current component in
         sbind (stry (ask (sv_unit srv) (CreateDir next_dir))) (\<lambda>created.
         case created of
           Inr _ \<Rightarrow> mkdir_components srv next_dir rest
         | Inl create_error \<Rightarrow>
             sbind (stry (ask (sv_attrs srv) (Metadata next_dir))) (\<lambda>attrs.
             sbind (case attrs of
                      Inr a \<Rightarrow> sreturn (fa_is_dir a)
                    | Inl _ \<Rightarrow> sbind (stry (ask (sv_entries srv) (ReadDir next_dir))) (\<lambda>listed. sreturn (is_ok listed)))
               (\<lambda>is_directory.
             if is_directory then mkdir_components srv next_dir rest
             else sfail (''Failed to create directory component '' @ next_dir @ '': '' @ create_error))))))"

definition sftp_mkdir_recursive :: "sftp_server \<Rightarrow> string \<Rightarrow> unit sftp" where
  "sftp_mkdir_recursive srv path =
     sbind (stry (ask (sv_unit srv) (CreateDir path))) (\<lambda>created.
     if is_ok created then sreturn () else mkdir_components srv [] (path_parts path))"

text \<open>The open strategy both upload routines use: the file first, then its parent directory and the
  file again.  \<open>parent\<close> is the parent directory found for the path.\<close>

definition open_with_parent ::
    "sftp_server \<Rightarrow> string \<Rightarrow> bool \<Rightarrow> bool \<Rightarrow> string option \<Rightarrow> unit sftp" where
  "open_with_parent srv path exclusive create_parent_dirs parent_dir =
     sbind (stry (ask (sv_unit srv) (OpenWrite path exclusive))) (\<lambda>opened.
     case opened of
       Inr _ \<Rightarrow> sreturn ()
     | Inl first_error \<Rightarrow>
         (if \<not> create_parent_dirs then sfail (''Failed to create remote file '' @ path @ '': '' @ first_error)
          else (case Option.bind parent_dir (\<lambda>p. if p \<noteq> [slash] \<and> p \<noteq> ''.'' then Some p else None) of
                  None \<Rightarrow> sfail (''Failed to create remote file '' @ path @ '': '' @ first_error)
                | Some parent \<Rightarrow>
                    sbind (smap_err (\<lambda>parent_error.
                        ''Failed to create remote file '' @ path @ '' ('' @ first_error @
                        ''); failed to prepare parent directory '' @ parent @ '': '' @ parent_error)
                      (sftp_mkdir_recursive srv parent)) (\<lambda>_.
                    smap_err (\<lambda>retry_error.
                        ''Failed to create remote file '' @ path @ '' after preparing parent directory '' @
                        parent @ '': '' @ retry_error)
                      (ask (sv_unit srv) (OpenWrite path exclusive))))))"

definition write_remote_file_with_options :: "sftp_server \<Rightarrow> string \<Rightarrow> string \<Rightarrow> bool \<Rightarrow> bool \<Rightarrow> unit sftp" where
  "write_remote_file_with_options srv path content create_parent_dirs overwrite =
     (if trim path = [] \<or> trim_end_matches [slash] path \<noteq> path
      then sfail (''Remote upload path is not a file: '' @ path)
      else sbind (open_with_parent srv path (\<not> overwrite) create_parent_dirs (remote_parent_dir path)) (\<lambda>_.
           sbind (smap_err (\<lambda>e. ''Failed to write remote file '' @ path @ '': '' @ e)
                    (ask (sv_unit srv) (Write path content))) (\<lambda>_.
           smap_err (\<lambda>e. ''Failed to close remote file '' @ path @ '': '' @ e)
             (ask (sv_unit srv) (CloseFile path)))))"

definition write_remote_file :: "sftp_server \<Rightarrow> string \<Rightarrow> string \<Rightarrow> unit sftp" where
  "write_remote_file srv path content = write_remote_file_with_options srv path content True True"

section \<open>Recursive deletion\<close>

function sftp_remove_recursive :: "sftp_server \<Rightarrow> string \<Rightarrow> nat \<Rightarrow> unit sftp"
  and remove_entries :: "sftp_server \<Rightarrow> string \<Rightarrow> nat \<Rightarrow> dir_entry list \<Rightarrow> unit sftp" where
  "sftp_remove_recursive srv path depth =
     (if max_recursive_depth < depth
      then sfail (''Maximum recursion depth ('' @ show_nat max_recursive_depth @ '') exceeded while deleting '' @
                  path @ ''. Possible symlink loop.'')
      else sbind (smap_err (\<lambda>e. ''Failed to list directory for deletion '' @ path @ '': '' @ e)
                    (ask (sv_entries srv) (ReadDir path))) (\<lambda>entries.
           sbind (remove_entries srv path depth entries) (\<lambda>_.
           smap_err (\<lambda>e. ''Failed to remove directory '' @ path @ '': '' @ e)
             (ask (sv_unit srv) (RemoveDir path)))))"
| "remove_entries srv path depth [] = sreturn ()"
| "remove_entries srv path depth (entry # rest) =
     (let name = de_name entry in
      if name = ''.'' \<or> name = ''..'' then remove_entries srv path depth rest
      else (case validate_remote_entry_name name of
              Inl e \<Rightarrow> sfail e
            | Inr _ \<Rightarrow>
                (let child_path = join_remote_child path name in
                 sbind (stry (ask (sv_unit srv) (RemoveFile child_path))) (\<lambda>removed.
                 case removed of
                   Inr _ \<Rightarrow> remove_entries srv path depth rest
                 | Inl file_error \<Rightarrow>
                     (if de_is_symlink entry
                      then sfail (''Failed to remove symlink '' @ child_path @ '': '' @ file_error @
                                  ''; refusing to follow it'')
                      else sbind (smap_err (\<lambda>directory_error.
                               ''Failed to delete '' @ child_path @ '' as file ('' @ file_error @
                               '') or directory ('' @ directory_error @ '')'')
                             (sftp_remove_recursive srv child_path (depth + 1))) (\<lambda>_.
                           remove_entries srv path depth rest))))))"
  by pat_completeness auto
termination
  by (relation "measures
       [\<lambda>x. case x of Inl (_, _, depth) \<Rightarrow> 101 - depth | Inr (_, _, depth, _) \<Rightarrow> 101 - depth,
        \<lambda>x. case x of Inl (_, _, depth) \<Rightarrow> if 100 < depth then 0 else 2 | Inr _ \<Rightarrow> 1,
        \<lambda>x. case x of Inl _ \<Rightarrow> 0 | Inr (_, _, _, entries) \<Rightarrow> length entries]")
     (auto simp: max_recursive_depth_def)

declare sftp_remove_recursive.simps [simp del] remove_entries.simps [simp del]

definition sftp_delete_path :: "sftp_server \<Rightarrow> string \<Rightarrow> bool \<Rightarrow> unit sftp" where
  "sftp_delete_path srv path recursive =
     sbind (stry (ask (sv_unit srv) (RemoveFile path))) (\<lambda>removed.
     case removed of
       Inr _ \<Rightarrow> sreturn ()
     | Inl file_error \<Rightarrow>
         (if recursive
          then smap_err (\<lambda>directory_error.
                 ''Failed to delete '' @ path @ '' as file ('' @ file_error @ '') or directory ('' @ directory_error @ '')'')
                 (sftp_remove_recursive srv path 0)
          else smap_err (\<lambda>directory_error.
                 ''Failed to delete '' @ path @ '' as file ('' @ file_error @ '') or empty directory ('' @
                 directory_error @ '')'')
                 (ask (sv_unit srv) (RemoveDir path))))"

section \<open>Streaming transfers\<close>

definition sftp_transfer_chunk_size :: nat where "sftp_transfer_chunk_size = 256 * 1024"

definition next_transfer_chunk_size :: "nat option \<Rightarrow> nat" where
  "next_transfer_chunk_size remaining =
     (case remaining of
        Some n \<Rightarrow> if n < sftp_transfer_chunk_size then n else sftp_transfer_chunk_size
      | None \<Rightarrow> sftp_transfer_chunk_size)"

text \<open>A local file is the result of opening it and of each read of one chunk, up to the end of the
  file (the end of the list, or an empty read).\<close>

type_synonym local_file = "string + (string + string) list"

fun upload_chunks :: "sftp_server \<Rightarrow> string \<Rightarrow> string \<Rightarrow> nat \<Rightarrow> (string + string) list \<Rightarrow> nat sftp" where
  "upload_chunks srv local_path remote_path transferred [] = sreturn transferred"
| "upload_chunks srv local_path remote_path transferred (Inl e # reads) =
     sfail (''Failed to read local file '' @ local_path @ '': '' @ e)"
| "upload_chunks srv local_path remote_path transferred (Inr chunk # reads) =
     (if chunk = [] then sreturn transferred
      else sbind (smap_err (\<lambda>e. ''Failed to write remote file '' @ remote_path @ '': '' @ e)
                    (ask (sv_unit srv) (Write remote_path chunk))) (\<lambda>_.
           upload_chunks srv local_path remote_path (transferred + length chunk) reads))"

definition upload_local_file_streaming :: "sftp_server \<Rightarrow> string \<Rightarrow> local_file \<Rightarrow> string \<Rightarrow> nat sftp" where
  "upload_local_file_streaming srv local_path file remote_path =
     (case file of
        Inl e \<Rightarrow> sfail (''Failed to open local file '' @ local_path @ '': '' @ e)
      | Inr reads \<Rightarrow>
          sbind (open_with_parent srv remote_path False True (sync_remote_parent_dir remote_path)) (\<lambda>_.
          sbind (upload_chunks srv local_path remote_path 0 reads) (\<lambda>transferred.
          sbind (smap_err (\<lambda>e. ''Failed to close remote file '' @ remote_path @ '': '' @ e)
                   (ask (sv_unit srv) (CloseFile remote_path))) (\<lambda>_.
          sreturn transferred))))"

text \<open>The download loop; \<open>fuel\<close> bounds the number of reads (the loop of the code ends when the server
  says so, or when the announced size is reached).  The result is the data written locally.\<close>

fun download_loop :: "nat \<Rightarrow> sftp_server \<Rightarrow> string \<Rightarrow> nat option \<Rightarrow> string \<Rightarrow> string option sftp" where
  "download_loop 0 srv remote_path total_size written = sreturn None"
| "download_loop (Suc fuel) srv remote_path total_size written =
     (let chunk = next_transfer_chunk_size (map_option (\<lambda>t. t - length written) total_size) in
      if chunk = 0 then sreturn (Some written)
      else sbind (smap_err (\<lambda>e. ''Failed to read remote file '' @ remote_path @ '': '' @ e)
                    (ask (sv_data srv) (Read remote_path chunk))) (\<lambda>received.
           let read = take chunk received; written' = written @ read in
           if read = [] then sreturn (Some written)
           else if total_size = Some (length written') then sreturn (Some written')
           else download_loop fuel srv remote_path total_size written'))"

text \<open>\<open>prepare_local\<close> is the creation of the parent directory and of the file, \<open>flush\<close> the final flush;
  \<open>None\<close> stands for a loop still running when the fuel is used up.\<close>

definition download_remote_file_streaming ::
    "nat \<Rightarrow> sftp_server \<Rightarrow> string \<Rightarrow> (string + unit) \<Rightarrow> (string + unit) \<Rightarrow> string option sftp" where
  "download_remote_file_streaming fuel srv remote_path prepare_local flush =
     sbind (smap_err (\<lambda>e. ''Failed to open remote file '' @ remote_path @ '': '' @ e)
              (ask (sv_unit srv) (OpenRead remote_path))) (\<lambda>_.
     sbind (stry (ask (sv_attrs srv) (Metadata remote_path))) (\<lambda>attrs.
     sbind (case prepare_local of Inl e \<Rightarrow> sfail e | Inr _ \<Rightarrow> sreturn ()) (\<lambda>_.
     sbind (download_loop fuel srv remote_path (case attrs of Inr a \<Rightarrow> fa_size a | Inl _ \<Rightarrow> None) []) (\<lambda>written.
     sbind (case flush of Inl e \<Rightarrow> sfail e | Inr _ \<Rightarrow> sreturn ()) (\<lambda>_.
     sbind (smap_err (\<lambda>e. ''Failed to close remote file '' @ remote_path @ '': '' @ e)
              (ask (sv_unit srv) (CloseFile remote_path))) (\<lambda>_.
     sreturn written))))))"

section \<open>Plans\<close>

datatype walk_kind = WalkDir | WalkFile | WalkOther

record walk_entry =
  we_relative :: string
  we_kind :: walk_kind
  we_size :: nat

record local_entry =
  le_relative :: string
  le_size :: nat

record directory_transfer_plan =
  pl_root :: string
  pl_root_name :: string
  pl_directories :: "string list"
  pl_files :: "local_entry list"
  pl_total_bytes :: nat

text \<open>\<open>walk\<close> is what the ignore-aware walk of the root directory delivers, in its order.\<close>

definition build_directory_transfer_plan ::
    "string \<Rightarrow> string option \<Rightarrow> (string + walk_entry) list \<Rightarrow> string + directory_transfer_plan" where
  "build_directory_transfer_plan root_path file_name walk =
     rbind (traverse (\<lambda>e. case e of
                Inl err \<Rightarrow> Inl (''Failed to walk local upload directory: '' @ err)
              | Inr w \<Rightarrow> Inr w) walk) (\<lambda>entries.
     let inner = filter (\<lambda>w. we_relative w \<noteq> []) entries;
         directories = map we_relative (filter (\<lambda>w. we_kind w = WalkDir) inner);
         files = map (\<lambda>w. \<lparr>le_relative = we_relative w, le_size = we_size w\<rparr>)
                   (filter (\<lambda>w. we_kind w = WalkFile) inner) in
     Inr \<lparr>pl_root = root_path,
          pl_root_name = (case file_name of Some n \<Rightarrow> n | None \<Rightarrow> ''upload''),
          pl_directories = sort_key slashes directories,
          pl_files = sort_key le_relative files,
          pl_total_bytes = sum_list (map le_size files)\<rparr>)"

definition planned_relative_paths :: "directory_transfer_plan \<Rightarrow> string list" where
  "planned_relative_paths plan = pl_directories plan @ map le_relative (pl_files plan)"

section \<open>Protected entries\<close>

text \<open>A relative path and its ancestors, as \<^verbatim>\<open>rsplit_once('/')\<close> finds them.\<close>

function rel_ancestors :: "string \<Rightarrow> string list" where
  "rel_ancestors p = p # (case rsplit_once slash p of None \<Rightarrow> [] | Some (parent, _) \<Rightarrow> rel_ancestors parent)"
  by pat_completeness auto
termination
  by (relation "measure length") (auto simp: rsplit_once_Some)

declare rel_ancestors.simps [simp del]

text \<open>The matchers of the \<^verbatim>\<open>ignore\<close> crate: the override of the exclude patterns, and per directory
  the rules of its \<^verbatim>\<open>.gitignore\<close> (\<open>None\<close> when there is no file).\<close>

record ignore_rules =
  ig_override :: "string + (string \<Rightarrow> bool \<Rightarrow> bool)"
  ig_gitignore :: "string \<Rightarrow> string + (string \<Rightarrow> bool \<Rightarrow> bool option) option"

definition excluded_path :: "(string \<Rightarrow> bool \<Rightarrow> bool) \<Rightarrow> string \<Rightarrow> bool \<Rightarrow> bool" where
  "excluded_path matched relative is_dir =
     (case rel_ancestors relative of
        [] \<Rightarrow> False
      | p # parents \<Rightarrow> matched p is_dir \<or> list_ex (\<lambda>q. matched q True) parents)"

definition below_dir :: "string \<Rightarrow> string \<Rightarrow> bool" where
  "below_dir dir relative \<longleftrightarrow> dir = [] \<or> relative = dir \<or> starts_with relative (dir @ [slash])"

definition load_gitignores ::
    "ignore_rules \<Rightarrow> directory_transfer_options \<Rightarrow> directory_transfer_plan \<Rightarrow>
     string + (string \<times> (string \<Rightarrow> bool \<Rightarrow> bool option)) list" where
  "load_gitignores rules options plan =
     (if do_respect_gitignore options
      then map_sum id concat (traverse (\<lambda>dir. rbind (ig_gitignore rules dir) (\<lambda>found.
             Inr (case found of None \<Rightarrow> [] | Some m \<Rightarrow> [(dir, m)]))) ([] # pl_directories plan))
      else Inr [])"

text \<open>The innermost directory whose rules say anything decides.\<close>

definition git_ignored :: "(string \<times> (string \<Rightarrow> bool \<Rightarrow> bool option)) list \<Rightarrow> string \<Rightarrow> bool \<Rightarrow> bool" where
  "git_ignored ignores relative is_dir =
     (case List.map_filter (\<lambda>(dir, m). if below_dir dir relative then m relative is_dir else None) (rev ignores) of
        [] \<Rightarrow> False
      | b # _ \<Rightarrow> b)"

definition sync_protected_paths ::
    "ignore_rules \<Rightarrow> directory_transfer_plan \<Rightarrow> directory_transfer_options \<Rightarrow> (string \<times> bool) list \<Rightarrow>
     string + string list" where
  "sync_protected_paths rules plan options entries =
     rbind (ig_override rules) (\<lambda>matched.
     rbind (load_gitignores rules options plan) (\<lambda>ignores.
     Inr (concat (map (\<lambda>(relative, is_dir).
       if excluded_path matched relative is_dir \<or> git_ignored ignores relative is_dir
       then rel_ancestors relative else []) entries))))"

section \<open>The remote tree\<close>

record remote_entry =
  re_relative :: string
  re_path :: string
  re_is_dir :: bool

function collect_remote_entries :: "sftp_server \<Rightarrow> string \<Rightarrow> string \<Rightarrow> remote_entry list sftp"
  and collect_children :: "sftp_server \<Rightarrow> string \<Rightarrow> string \<Rightarrow> dir_entry list \<Rightarrow> remote_entry list sftp" where
  "collect_remote_entries srv root relative_root =
     (if max_recursive_depth < length (components relative_root)
      then sfail ''Remote directory traversal exceeded the recursion limit''
      else sbind (smap_err (\<lambda>e. ''Failed to list remote directory '' @ root @ '': '' @ e)
                    (ask (sv_entries srv) (ReadDir root))) (\<lambda>entries.
           collect_children srv root relative_root entries))"
| "collect_children srv root relative_root [] = sreturn []"
| "collect_children srv root relative_root (entry # rest) =
     (let name = de_name entry in
      if name = ''.'' \<or> name = ''..'' then collect_children srv root relative_root rest
      else if \<not> entry_name_ok name then sfail (projl (validate_remote_entry_name name))
      else
        (let relative_path = (if relative_root = [] then name else relative_root @ slash # name);
             path = join_remote_child root name in
         sbind (if de_is_dir entry then collect_remote_entries srv path relative_path else sreturn []) (\<lambda>inner.
         sbind (collect_children srv root relative_root rest) (\<lambda>others.
         sreturn (inner @
           \<lparr>re_relative = relative_path, re_path = path, re_is_dir = de_is_dir entry\<rparr> # others)))))"
  by pat_completeness auto
termination
proof (relation "measures
       [\<lambda>x. case x of Inl (_, _, rel) \<Rightarrow> 101 - length (components rel) | Inr (_, _, rel, _) \<Rightarrow> 101 - length (components rel),
        \<lambda>x. case x of Inl (_, _, rel) \<Rightarrow> if 100 < length (components rel) then 0 else 2 | Inr _ \<Rightarrow> 1,
        \<lambda>x. case x of Inl _ \<Rightarrow> 0 | Inr (_, _, _, entries) \<Rightarrow> length entries]", goal_cases)
  case (4 srv root rel entry rest name relative_path path)
  then have "length (components relative_path) = length (components rel) + 1"
    by (auto simp: components_append components_single entry_name_ok_iff)
  then show ?case by auto
qed (auto simp: max_recursive_depth_def)

declare collect_remote_entries.simps [simp del] collect_children.simps [simp del]

fun compare_chunks :: "sftp_server \<Rightarrow> string \<Rightarrow> (string + string) list \<Rightarrow> bool sftp" where
  "compare_chunks srv path [] = sbind (ask (sv_data srv) (Read path 1)) (\<lambda>received. sreturn (take 1 received = []))"
| "compare_chunks srv path (Inl e # reads) = sfail e"
| "compare_chunks srv path (Inr chunk # reads) =
     (if chunk = [] then sbind (ask (sv_data srv) (Read path 1)) (\<lambda>received. sreturn (take 1 received = []))
      else sbind (ask (sv_data srv) (ReadExact path (length chunk))) (\<lambda>received.
           if chunk \<noteq> received then sreturn False else compare_chunks srv path reads))"

definition remote_file_matches :: "sftp_server \<Rightarrow> string \<Rightarrow> nat \<Rightarrow> local_file \<Rightarrow> bool sftp" where
  "remote_file_matches srv path file_size file =
     sbind (stry (ask (sv_attrs srv) (Metadata path))) (\<lambda>attrs.
     if \<not> (case attrs of
              Inr a \<Rightarrow> \<not> fa_is_dir a \<and> (case fa_size a of Some n \<Rightarrow> n | None \<Rightarrow> 0) = file_size
            | Inl _ \<Rightarrow> False)
     then sreturn False
     else sbind (stry (ask (sv_unit srv) (OpenRead path))) (\<lambda>opened.
       if \<not> is_ok opened then sreturn False
       else sbind (stry (case file of Inl e \<Rightarrow> sfail e | Inr reads \<Rightarrow> compare_chunks srv path reads)) (\<lambda>matched.
            sbind (stry (ask (sv_unit srv) (CloseFile path))) (\<lambda>closed.
            sreturn (is_ok closed \<and> matched = Inr True)))))"

section \<open>Uploading and synchronising a directory\<close>

fun delete_entries :: "sftp_server \<Rightarrow> string list \<Rightarrow> string list \<Rightarrow> nat \<Rightarrow> remote_entry list \<Rightarrow> nat sftp" where
  "delete_entries srv keep protected deleted [] = sreturn deleted"
| "delete_entries srv keep protected deleted (e # es) =
     (if List.member keep (re_relative e) \<or> List.member protected (re_relative e)
      then delete_entries srv keep protected deleted es
      else sbind (if re_is_dir e
                  then smap_err (\<lambda>err. ''Failed to remove remote directory '' @ re_path e @ '': '' @ err)
                         (ask (sv_unit srv) (RemoveDir (re_path e)))
                  else smap_err (\<lambda>err. ''Failed to remove remote file '' @ re_path e @ '': '' @ err)
                         (ask (sv_unit srv) (RemoveFile (re_path e)))) (\<lambda>_.
           delete_entries srv keep protected (deleted + 1) es))"

definition delete_extra_sftp_entries ::
    "sftp_server \<Rightarrow> ignore_rules \<Rightarrow> string \<Rightarrow> directory_transfer_plan \<Rightarrow> directory_transfer_options \<Rightarrow> nat sftp" where
  "delete_extra_sftp_entries srv rules remote_root plan options =
     sbind (collect_remote_entries srv remote_root []) (\<lambda>entries.
     sbind (case sync_protected_paths rules plan options (map (\<lambda>e. (re_relative e, re_is_dir e)) entries) of
              Inl e \<Rightarrow> sfail e | Inr ps \<Rightarrow> sreturn ps) (\<lambda>protected.
     delete_entries srv ([] # planned_relative_paths plan) protected 0
       (sort_key (\<lambda>e. - int (slashes (re_relative e))) entries)))"

datatype transfer_mode = Upload | Sync

definition mode_as_str :: "transfer_mode \<Rightarrow> string" where
  "mode_as_str m = (case m of Upload \<Rightarrow> ''upload'' | Sync \<Rightarrow> ''sync'')"

record transfer_summary =
  ts_mode :: string
  ts_local_root :: string
  ts_remote_root :: string
  ts_directories_total :: nat
  ts_files_total :: nat
  ts_created_directories :: nat
  ts_uploaded_files :: nat
  ts_skipped_files :: nat
  ts_deleted_entries :: nat
  ts_transferred_bytes :: nat

fun create_directories :: "sftp_server \<Rightarrow> string \<Rightarrow> string list \<Rightarrow> unit sftp" where
  "create_directories srv remote_root [] = sreturn ()"
| "create_directories srv remote_root (d # ds) =
     sbind (sftp_mkdir_recursive srv (join_remote_relative remote_root d)) (\<lambda>_. create_directories srv remote_root ds)"

text \<open>The loop over the files with its three counters: uploaded, skipped, bytes.\<close>

fun transfer_files ::
    "sftp_server \<Rightarrow> transfer_mode \<Rightarrow> string \<Rightarrow> (string \<Rightarrow> local_file) \<Rightarrow> nat \<times> nat \<times> nat \<Rightarrow> local_entry list \<Rightarrow>
     (nat \<times> nat \<times> nat) sftp" where
  "transfer_files srv mode remote_root local_files counts [] = sreturn counts"
| "transfer_files srv mode remote_root local_files (uploaded, skipped, bytes) (f # fs) =
     (let remote_path = join_remote_relative remote_root (le_relative f);
          file = local_files (le_relative f) in
      sbind (if mode = Sync then remote_file_matches srv remote_path (le_size f) file else sreturn False) (\<lambda>matches.
      if matches then transfer_files srv mode remote_root local_files (uploaded, skipped + 1, bytes) fs
      else sbind (upload_local_file_streaming srv (le_relative f) file remote_path) (\<lambda>transferred.
           transfer_files srv mode remote_root local_files (uploaded + 1, skipped, bytes + transferred) fs)))"

definition transfer_directory_to_sftp ::
    "sftp_server \<Rightarrow> ignore_rules \<Rightarrow> (string \<Rightarrow> local_file) \<Rightarrow> (string + directory_transfer_plan) \<Rightarrow> string \<Rightarrow>
     transfer_mode \<Rightarrow> directory_transfer_options \<Rightarrow> transfer_summary sftp" where
  "transfer_directory_to_sftp srv rules local_files planned remote_dir mode options =
     sbind (case planned of Inl e \<Rightarrow> sfail e | Inr p \<Rightarrow> sreturn p) (\<lambda>plan.
     let remote_root = normalize_remote_dir remote_dir in
     sbind (sftp_mkdir_recursive srv remote_root) (\<lambda>_.
     sbind (create_directories srv remote_root (pl_directories plan)) (\<lambda>_.
     sbind (transfer_files srv mode remote_root local_files (0, 0, 0) (pl_files plan)) (\<lambda>(uploaded, skipped, bytes).
     sbind (if mode = Sync \<and> do_delete_extra options
            then delete_extra_sftp_entries srv rules remote_root plan options else sreturn 0) (\<lambda>deleted.
     sreturn \<lparr>ts_mode = mode_as_str mode, ts_local_root = pl_root plan, ts_remote_root = remote_root,
              ts_directories_total = length (pl_directories plan) + 1, ts_files_total = length (pl_files plan),
              ts_created_directories = 1 + length (pl_directories plan),
              ts_uploaded_files = uploaded, ts_skipped_files = skipped, ts_deleted_entries = deleted,
              ts_transferred_bytes = bytes\<rparr>)))))"

section \<open>What an operation may ask of the server\<close>

fun request_path :: "sftp_request \<Rightarrow> string" where
  "request_path (CreateDir p) = p"
| "request_path (Metadata p) = p"
| "request_path (ReadDir p) = p"
| "request_path (OpenRead p) = p"
| "request_path (OpenWrite p _) = p"
| "request_path (Read p _) = p"
| "request_path (ReadExact p _) = p"
| "request_path (Write p _) = p"
| "request_path (CloseFile p) = p"
| "request_path (RemoveFile p) = p"
| "request_path (RemoveDir p) = p"
| "request_path (Canonicalize p) = p"
| "request_path (ReadAll p) = p"
| "request_path (Rename p _) = p"

text \<open>A path at most \<open>n\<close> entries below \<open>p\<close>.\<close>

definition below :: "string \<Rightarrow> nat \<Rightarrow> string \<Rightarrow> bool" where
  "below p n q \<longleftrightarrow> (\<exists>names. q = foldl join_remote_child p names \<and> list_all entry_name_ok names \<and> length names \<le> n)"

lemma below_refl [simp]: "below p n p"
  unfolding below_def by (intro exI [of _ "[]"]) simp

lemma below_child: "entry_name_ok name \<Longrightarrow> 0 < n \<Longrightarrow> below p n (join_remote_child p name)"
  unfolding below_def by (intro exI [of _ "[name]"]) simp

lemma below_trans: "below (join_remote_child p name) n q \<Longrightarrow> entry_name_ok name \<Longrightarrow> Suc n \<le> m \<Longrightarrow> below p m q"
  unfolding below_def by (elim exE conjE, rename_tac names, rule_tac x = "name # names" in exI) simp

lemma below_names:
  "below p n q \<Longrightarrow> \<exists>names. q = foldl join_remote_child p names \<and> length names \<le> n \<and>
    components q = components p @ names \<and>
    list_all (\<lambda>c. c \<noteq> [] \<and> c \<noteq> ''.'' \<and> c \<noteq> ''..'' \<and> slash \<notin> set c) names"
proof -
  have "components (foldl join_remote_child p names) = components p @ names" if "list_all entry_name_ok names" for names
    using that by (induction names arbitrary: p) (simp_all add: components_join_entry)
  then show "below p n q \<Longrightarrow> ?thesis" unfolding below_def
    by (elim exE conjE, rule_tac x = names in exI) (auto simp: list_all_iff entry_name_ok_iff)
qed

lemma remove_recursive_emits:
  "emits (\<lambda>r. below path (101 - depth) (request_path r)) (sftp_remove_recursive srv path depth)"
  "depth \<le> max_recursive_depth \<Longrightarrow>
    emits (\<lambda>r. below path (101 - depth) (request_path r)) (remove_entries srv path depth entries)"
proof (induction srv path depth and srv path depth entries rule: sftp_remove_recursive_remove_entries.induct)
  case (1 srv path depth)
  then show ?case
    by (subst sftp_remove_recursive.simps) (auto intro!: emits_rules)
next
  case (2 srv path depth)
  then show ?case by (subst remove_entries.simps) (intro emits_rules)
next
  case (3 srv path depth entry rest)
  let ?name = "de_name entry" let ?child = "join_remote_child path ?name"
  show ?case
  proof (cases "?name = ''.'' \<or> ?name = ''..''")
    case True
    then show ?thesis using 3(1) [OF refl True 3(5)] by (subst remove_entries.simps) (simp add: Let_def)
  next
    case skip: False
    show ?thesis
    proof (cases "validate_remote_entry_name ?name")
      case (Inl e)
      with skip show ?thesis by (subst remove_entries.simps) (auto simp: Let_def intro!: emits_rules)
    next
      case (Inr u)
      then have ok: "entry_name_ok ?name" by (simp add: entry_name_ok_def)
      have here: "below path (101 - depth) ?child" using below_child [OF ok] 3(5) by (simp add: max_recursive_depth_def)
      have rest: "emits (\<lambda>r. below path (101 - depth) (request_path r)) (remove_entries srv path depth rest)"
        by (rule 3(4) [OF refl skip Inr refl 3(5)])
      have inner: "emits (\<lambda>r. below path (101 - depth) (request_path r)) (sftp_remove_recursive srv ?child (depth + 1))"
        if "\<not> de_is_symlink entry"
        by (rule emits_mono [OF 3(2) [OF refl skip Inr refl that]])
           (use 3(5) ok in \<open>auto simp: max_recursive_depth_def elim!: below_trans\<close>)
      show ?thesis
        using skip Inr here rest inner
        by (subst remove_entries.simps) (auto simp: Let_def intro!: emits_rules split: sum.split)
    qed
  qed
qed

lemma delete_path_emits:
  "emits (\<lambda>r. below path 101 (request_path r)) (sftp_delete_path srv path recursive)"
  using remove_recursive_emits(1) [of path 0 srv]
  by (auto simp: sftp_delete_path_def intro!: emits_rules split: sum.split)

text \<open>The result of a deletion is an answer of the server: success means that a removal of the very
  path was acknowledged last.\<close>

lemma remove_recursive_Inr:
  "sftp_remove_recursive srv path depth h = (h', Inr ()) \<Longrightarrow>
    \<exists>h1. h' = h1 @ [RemoveDir path] \<and> sv_unit srv h' = Inr ()"
  by (subst (asm) sftp_remove_recursive.simps) (auto simp: sbind_Inr split: if_splits)

lemma delete_path_Inr:
  "sftp_delete_path srv path recursive h = (h', Inr ()) \<Longrightarrow>
    \<exists>h1 req. h' = h1 @ [req] \<and> req \<in> {RemoveFile path, RemoveDir path} \<and> sv_unit srv h' = Inr ()"
proof (cases "sv_unit srv (h @ [RemoveFile path])")
  case (Inr u)
  then show "sftp_delete_path srv path recursive h = (h', Inr ()) \<Longrightarrow> ?thesis"
    by (auto simp: sftp_delete_path_def sbind_Inr)
next
  case (Inl e)
  assume "sftp_delete_path srv path recursive h = (h', Inr ())"
  with Inl have "if recursive then sftp_remove_recursive srv path 0 (h @ [RemoveFile path]) = (h', Inr ())
      else h' = (h @ [RemoveFile path]) @ [RemoveDir path] \<and> sv_unit srv h' = Inr ()"
    by (simp add: sftp_delete_path_def sbind_Inr split: if_splits)
  then show ?thesis by (cases recursive) (auto dest: remove_recursive_Inr)
qed

section \<open>Creating directories\<close>

text \<open>What the server has said about a directory: its creation was acknowledged, or it was reported or
  listed as an existing one.\<close>

definition says_directory :: "sftp_server \<Rightarrow> sftp_request list \<Rightarrow> string \<Rightarrow> bool" where
  "says_directory srv h dir \<longleftrightarrow> h \<noteq> [] \<and>
     (last h = CreateDir dir \<and> sv_unit srv h = Inr () \<or>
      last h = Metadata dir \<and> (\<exists>a. sv_attrs srv h = Inr a \<and> fa_is_dir a) \<or>
      last h = ReadDir dir \<and> is_ok (sv_entries srv h))"

definition acknowledged :: "sftp_server \<Rightarrow> sftp_request list \<Rightarrow> string \<Rightarrow> bool" where
  "acknowledged srv h dir \<longleftrightarrow> (\<exists>h0 rest. h = h0 @ rest \<and> says_directory srv h0 dir)"

lemma acknowledged_append: "acknowledged srv h d \<Longrightarrow> acknowledged srv (h @ rs) d"
  unfolding acknowledged_def by (elim exE conjE, hypsubst, subst append_assoc) blast

lemma acknowledged_now: "says_directory srv h d \<Longrightarrow> acknowledged srv h d"
  unfolding acknowledged_def by (metis append_Nil2)

text \<open>The names of the directories the loop visits.\<close>

fun mkdir_prefixes :: "string \<Rightarrow> string list \<Rightarrow> string list" where
  "mkdir_prefixes current [] = []"
| "mkdir_prefixes current (component # rest) =
     (if component = [] then mkdir_prefixes (current @ [slash]) rest
      else extend_dir current component # mkdir_prefixes (extend_dir current component) rest)"

lemma mkdir_components_emits:
  "emits (\<lambda>r. request_path r \<in> set (mkdir_prefixes current cs)) (mkdir_components srv current cs)"
proof (induction srv current cs rule: mkdir_components.induct)
  case (1 srv current)
  then show ?case by (simp add: emits_rules)
next
  case (2 srv current c cs)
  show ?case
  proof (cases "c = []")
    case True
    with 2 show ?thesis by simp
  next
    case False
    let ?next = "extend_dir current c"
    have tail: "emits (\<lambda>r. request_path r \<in> insert ?next (set (mkdir_prefixes ?next cs))) (mkdir_components srv ?next cs)"
      by (rule emits_mono [OF 2(2) [OF False refl]]) auto
    show ?thesis using tail False
      by (auto simp: Let_def intro!: emits_rules split: sum.split)
  qed
qed

lemma mkdir_components_acknowledged:
  "mkdir_components srv current cs h = (h', Inr ()) \<Longrightarrow>
    \<forall>d \<in> set (mkdir_prefixes current cs). acknowledged srv h' d"
proof (induction srv current cs arbitrary: h rule: mkdir_components.induct)
  case (1 srv current)
  then show ?case by simp
next
  case (2 srv current c cs)
  show ?case
  proof (cases "c = []")
    case True
    with 2 show ?thesis by simp
  next
    case False
    let ?next = "extend_dir current c"
    have "\<exists>h1. says_directory srv h1 ?next \<and> mkdir_components srv ?next cs h1 = (h', Inr ())"
    proof (cases "sv_unit srv (h @ [CreateDir ?next])")
      case (Inr u)
      with 2(4) False show ?thesis
        by (intro exI [of _ "h @ [CreateDir ?next]"]) (simp add: Let_def sbind_Inr says_directory_def)
    next
      case refused: (Inl e)
      let ?h = "h @ [CreateDir ?next, Metadata ?next]"
      show ?thesis
      proof (cases "sv_attrs srv ?h")
        case (Inr a)
        with 2(4) False refused show ?thesis
          by (intro exI [of _ ?h]) (simp add: Let_def sbind_Inr says_directory_def split: if_splits)
      next
        case (Inl e')
        with 2(4) False refused show ?thesis
          by (intro exI [of _ "h @ [CreateDir ?next, Metadata ?next, ReadDir ?next]"])
            (simp add: Let_def sbind_Inr says_directory_def split: if_splits)
      qed
    qed
    then obtain h1 where h1: "says_directory srv h1 ?next" "mkdir_components srv ?next cs h1 = (h', Inr ())" by blast
    from emits_run [OF mkdir_components_emits h1(2)] obtain rs where "h' = h1 @ rs" by blast
    with h1(1) have "acknowledged srv h' ?next" by (simp add: acknowledged_append acknowledged_now)
    moreover have "\<forall>d \<in> set (mkdir_prefixes ?next cs). acknowledged srv h' d"
      by (rule 2(2) [OF False refl refl h1(2)])
    ultimately show ?thesis using False by simp
  qed
qed

lemma components_extend:
  assumes "slash \<notin> set c" "c \<noteq> []"
  shows "components (extend_dir current c) = components current @ [c]"
proof (cases "current = [] \<or> current = [slash]")
  case True
  then show ?thesis using components_single [OF assms] by (auto simp: extend_dir_def)
next
  case False
  then show ?thesis using components_single [OF assms] by (simp add: extend_dir_def components_append)
qed

lemma mkdir_prefixes_components:
  assumes "\<forall>c \<in> set cs. slash \<notin> set c"
  shows "map components (mkdir_prefixes current cs) =
    map (\<lambda>n. components current @ take n (filter (\<lambda>c. c \<noteq> []) cs)) [Suc 0..<Suc (length (filter (\<lambda>c. c \<noteq> []) cs))]"
  using assms
proof (induction current cs rule: mkdir_prefixes.induct)
  case (1 current)
  then show ?case by simp
next
  case (2 current c cs)
  show ?case
  proof (cases "c = []")
    case True
    with 2 show ?thesis by simp
  next
    case False
    let ?cs = "filter (\<lambda>c. c \<noteq> []) cs"
    have e: "components (extend_dir current c) = components current @ [c]"
      using 2(3) False by (simp add: components_extend)
    have shift: "[Suc 0..<Suc (Suc n)] = Suc 0 # map Suc [Suc 0..<Suc n]" for n
      by (simp add: map_Suc_upt upt_conv_Cons del: upt_Suc)
    show ?thesis using 2(2) [OF False] 2(3) False
      by (simp add: e shift del: upt_Suc)
  qed
qed

lemma mkdir_prefixes_absolute:
  "\<forall>c \<in> set cs. slash \<notin> set c \<Longrightarrow> current \<noteq> [] \<Longrightarrow> d \<in> set (mkdir_prefixes current cs) \<Longrightarrow>
    absolute d \<longleftrightarrow> absolute current"
proof (induction current cs rule: mkdir_prefixes.induct)
  case (1 current)
  then show ?case by simp
next
  case (2 current c cs)
  have "absolute (extend_dir current c) \<longleftrightarrow> absolute current" "extend_dir current c \<noteq> []"
    using 2(4) by (cases current; auto simp: extend_dir_def)+
  moreover have "absolute (current @ [slash]) \<longleftrightarrow> absolute current" using 2(4) by (cases current) auto
  ultimately show ?case using 2 by (auto split: if_splits)
qed

lemma mkdir_prefixes_of_path:
  assumes d: "d \<in> set (mkdir_prefixes [] (path_parts path))"
  shows "absolute d \<longleftrightarrow> absolute path"
proof -
  have no: "\<forall>c \<in> set (path_parts path). slash \<notin> set c"
    by (auto simp: path_parts_def dest: split_on_parts)
  have ab: "absolute path \<longleftrightarrow> path \<noteq> [] \<and> hd path = slash" by (cases path) auto
  show ?thesis
  proof (cases path)
    case Nil
    with d show ?thesis by (simp add: path_parts_def)
  next
    case (Cons c rest)
    show ?thesis
    proof (cases "c = slash")
      case True
      then have "path_parts path = [] # path_parts rest"
        using path_parts_append [of "[]" rest] Cons by (simp add: path_parts_def)
      with d no mkdir_prefixes_absolute [of "path_parts rest" "[slash]" d] True Cons show ?thesis by simp
    next
      case False
      then obtain w ws where w: "path_parts path = (c # w) # ws"
        using Cons by (cases "split_on (\<lambda>c. c = slash) rest") (auto simp: path_parts_def)
      with d no mkdir_prefixes_absolute [of ws "c # w" d] False Cons show ?thesis
        by (auto simp: extend_dir_def)
    qed
  qed
qed

lemma mkdir_recursive_Inr:
  "sftp_mkdir_recursive srv path h = (h', Inr ()) \<Longrightarrow>
    acknowledged srv h' path \<or> (\<forall>d \<in> set (mkdir_prefixes [] (path_parts path)). acknowledged srv h' d)"
proof (cases "sv_unit srv (h @ [CreateDir path])")
  case (Inr u)
  then show "sftp_mkdir_recursive srv path h = (h', Inr ()) \<Longrightarrow> ?thesis"
    by (auto simp: sftp_mkdir_recursive_def sbind_Inr says_directory_def intro: acknowledged_now)
next
  case (Inl e)
  assume "sftp_mkdir_recursive srv path h = (h', Inr ())"
  with Inl have "mkdir_components srv [] (path_parts path) (h @ [CreateDir path]) = (h', Inr ())"
    by (simp add: sftp_mkdir_recursive_def sbind_Inr)
  from mkdir_components_acknowledged [OF this] show ?thesis by blast
qed

section \<open>Uploading\<close>

fun local_content :: "(string + string) list \<Rightarrow> string + string list" where
  "local_content [] = Inr []"
| "local_content (Inl e # reads) = Inl e"
| "local_content (Inr chunk # reads) = (if chunk = [] then Inr [] else map_sum id ((#) chunk) (local_content reads))"

lemma upload_chunks_Inr:
  assumes "upload_chunks srv lp rp n reads h = (h', Inr m)" "0 < length h"
    "\<forall>k \<ge> length h0. sv_unit srv (take k h) = Inr ()" "length h0 \<le> length h"
  shows "\<exists>chunks. local_content reads = Inr chunks \<and> h' = h @ map (Write rp) chunks \<and> m = n + length (concat chunks) \<and>
    (\<forall>k \<ge> length h0. sv_unit srv (take k h') = Inr ())"
  using assms
proof (induction srv lp rp n reads arbitrary: h rule: upload_chunks.induct)
  case (1 srv lp rp n)
  then show ?case by simp
next
  case (2 srv lp rp n e reads)
  then show ?case by simp
next
  case (3 srv lp rp n chunk reads)
  show ?case
  proof (cases "chunk = []")
    case True
    with 3 show ?thesis by simp
  next
    case False
    let ?h = "h @ [Write rp chunk]"
    from 3(2) False have ok: "sv_unit srv ?h = Inr ()"
      and tail: "upload_chunks srv lp rp (n + length chunk) reads ?h = (h', Inr m)"
      by (simp_all add: sbind_Inr)
    have "\<forall>k \<ge> length h0. sv_unit srv (take k ?h) = Inr ()"
    proof (intro allI impI)
      fix k
      assume "length h0 \<le> k"
      then show "sv_unit srv (take k ?h) = Inr ()"
        using 3(4) ok by (cases "k \<le> length h") auto
    qed
    from 3(1) [OF False tail _ this] 3(5) show ?thesis using False by auto
  qed
qed

lemma open_with_parent_Inr:
  assumes "open_with_parent srv path exclusive create parent h = (h', Inr ())"
  shows "\<exists>h1. h' = h1 @ [OpenWrite path exclusive] \<and> sv_unit srv h' = Inr ()"
proof (cases "sv_unit srv (h @ [OpenWrite path exclusive])")
  case (Inr u)
  with assms show ?thesis by (simp add: open_with_parent_def sbind_Inr)
next
  case (Inl e)
  with assms show ?thesis
    by (auto simp: open_with_parent_def sbind_Inr split: if_splits option.splits)
qed

section \<open>What a synchronisation may remove\<close>

fun is_removal :: "sftp_request \<Rightarrow> bool" where
  "is_removal (RemoveFile _) = True"
| "is_removal (RemoveDir _) = True"
| "is_removal _ = False"

lemma mkdir_removes_nothing: "emits (\<lambda>r. \<not> is_removal r) (sftp_mkdir_recursive srv path)"
proof -
  have "emits (\<lambda>r. \<not> is_removal r) (mkdir_components srv current cs)" for current cs
    by (induction srv current cs rule: mkdir_components.induct)
      (auto simp: Let_def intro!: emits_rules split: sum.split)
  then show ?thesis by (auto simp: sftp_mkdir_recursive_def intro!: emits_rules)
qed

lemma upload_removes_nothing: "emits (\<lambda>r. \<not> is_removal r) (upload_local_file_streaming srv lp file rp)"
proof -
  have "emits (\<lambda>r. \<not> is_removal r) (upload_chunks srv lp rp n reads)" for n reads
    by (induction srv lp rp n reads rule: upload_chunks.induct) (auto intro!: emits_rules)
  moreover have "emits (\<lambda>r. \<not> is_removal r) (open_with_parent srv path ex create parent)" for path ex create parent
    using mkdir_removes_nothing
    by (auto simp: open_with_parent_def intro!: emits_rules split: sum.split option.split)
  ultimately show ?thesis
    by (auto simp: upload_local_file_streaming_def intro!: emits_rules split: sum.split)
qed

lemma matching_removes_nothing: "emits (\<lambda>r. \<not> is_removal r) (remote_file_matches srv path n file)"
proof -
  have "emits (\<lambda>r. \<not> is_removal r) (compare_chunks srv path reads)" for reads
    by (induction srv path reads rule: compare_chunks.induct) (auto intro!: emits_rules)
  then show ?thesis
    by (auto simp: remote_file_matches_def intro!: emits_rules split: sum.split)
qed

lemma transfer_files_removes_nothing: "emits (\<lambda>r. \<not> is_removal r) (transfer_files srv mode root files counts fs)"
  by (induction srv mode root files counts fs rule: transfer_files.induct)
    (auto simp: Let_def intro!: emits_rules upload_removes_nothing matching_removes_nothing)

lemma create_directories_removes_nothing: "emits (\<lambda>r. \<not> is_removal r) (create_directories srv root ds)"
  by (induction srv root ds rule: create_directories.induct)
    (auto intro!: emits_rules mkdir_removes_nothing)

text \<open>An entry found below a directory: its names are entry names, and its relative path says them.\<close>

definition found_below :: "string \<Rightarrow> string list \<Rightarrow> remote_entry \<Rightarrow> bool" where
  "found_below root names0 e \<longleftrightarrow>
     (\<exists>names. names \<noteq> [] \<and> list_all entry_name_ok names \<and> re_path e = foldl join_remote_child root names \<and>
        components (re_relative e) = names0 @ names)"

lemma found_below_inner:
  "found_below (join_remote_child root name) (names0 @ [name]) e \<Longrightarrow> entry_name_ok name \<Longrightarrow> found_below root names0 e"
  unfolding found_below_def by (elim exE conjE, rename_tac names, rule_tac x = "name # names" in exI) simp

lemma components_relative_child:
  "entry_name_ok name \<Longrightarrow>
    components (if rel = [] then name else rel @ slash # name) = components rel @ [name]"
  by (auto simp: components_append components_single entry_name_ok_iff)

lemma collect_emits:
  "emits (\<lambda>r. \<not> is_removal r) (collect_remote_entries srv root rel)"
  "emits (\<lambda>r. \<not> is_removal r) (collect_children srv root rel entries)"
proof (induction srv root rel and srv root rel entries rule: collect_remote_entries_collect_children.induct)
  case (1 srv root rel)
  then show ?case by (subst collect_remote_entries.simps) (auto intro!: emits_rules)
next
  case (2 srv root rel)
  then show ?case by (subst collect_children.simps) (intro emits_rules)
next
  case (3 srv root rel entry rest)
  then show ?case by (subst collect_children.simps) (auto simp: Let_def intro!: emits_rules)
qed

lemma collect_Inr:
  "collect_remote_entries srv root rel h = (h', Inr es) \<Longrightarrow> \<forall>e \<in> set es. found_below root (components rel) e"
  "collect_children srv root rel entries h = (h', Inr es) \<Longrightarrow> \<forall>e \<in> set es. found_below root (components rel) e"
proof (induction srv root rel and srv root rel entries arbitrary: h h' es and h h' es
    rule: collect_remote_entries_collect_children.induct)
  case (1 srv root rel)
  from 1(2) show ?case
    by (subst (asm) collect_remote_entries.simps) (auto simp: sbind_Inr split: if_splits dest!: 1(1) [rotated])
next
  case (2 srv root rel)
  then show ?case by (subst (asm) collect_children.simps) simp
next
  case (3 srv root rel entry rest)
  let ?name = "de_name entry"
  let ?rel = "if rel = [] then ?name else rel @ slash # ?name" let ?path = "join_remote_child root ?name"
  show ?case
  proof (cases "?name = ''.'' \<or> ?name = ''..''")
    case True
    then have "collect_children srv root rel rest h = (h', Inr es)"
      using 3(4) by (subst (asm) collect_children.simps) (simp add: Let_def)
    then show ?thesis using 3(1) [OF refl True] by blast
  next
    case skip: False
    then have ok: "entry_name_ok ?name"
      using 3(4) by (subst (asm) collect_children.simps) (auto simp: Let_def split: if_splits)
    then have okn: "\<not> \<not> entry_name_ok ?name" by simp
    obtain h1 inner others where r:
        "de_is_dir entry \<Longrightarrow> collect_remote_entries srv ?path ?rel h = (h1, Inr inner)"
        "\<not> de_is_dir entry \<Longrightarrow> inner = []"
        "collect_children srv root rel rest h1 = (h', Inr others)"
        "es = inner @ \<lparr>re_relative = ?rel, re_path = ?path, re_is_dir = de_is_dir entry\<rparr> # others"
      using 3(4) skip ok by (subst (asm) collect_children.simps) (auto simp: Let_def sbind_Inr split: if_splits)
    have "\<forall>e \<in> set inner. found_below root (components rel) e"
    proof (cases "de_is_dir entry")
      case True
      then have "\<forall>e \<in> set inner. found_below ?path (components ?rel) e"
        using 3(2) [OF refl skip okn refl refl True] r(1) by blast
      then show ?thesis unfolding components_relative_child [OF ok] by (blast intro: found_below_inner [OF _ ok])
    next
      case False
      with r(2) show ?thesis by simp
    qed
    moreover have "\<forall>e \<in> set others. found_below root (components rel) e"
      using 3(3) [OF refl skip okn refl refl] r(3) by blast
    moreover have "found_below root (components rel) \<lparr>re_relative = ?rel, re_path = ?path, re_is_dir = de_is_dir entry\<rparr>"
      using ok unfolding found_below_def
      by (intro exI [of _ "[?name]"]) (simp add: components_relative_child del: if_split)
    ultimately show ?thesis unfolding r(4) by auto
  qed
qed

definition removal_of :: "remote_entry \<Rightarrow> sftp_request" where
  "removal_of e = (if re_is_dir e then RemoveDir (re_path e) else RemoveFile (re_path e))"

lemma delete_entries_emits:
  "emits (\<lambda>r. \<exists>e \<in> set es. re_relative e \<notin> set keep \<and> re_relative e \<notin> set protected \<and> r = removal_of e)
   (delete_entries srv keep protected n es)"
proof (induction srv keep protected n es rule: delete_entries.induct)
  case (1 srv keep protected n)
  then show ?case by (simp add: emits_rules)
next
  case (2 srv keep protected n e es)
  let ?P = "\<lambda>es r. \<exists>e \<in> set es. re_relative e \<notin> set keep \<and> re_relative e \<notin> set protected \<and> r = removal_of e"
  show ?case
  proof (cases "re_relative e \<in> set keep \<or> re_relative e \<in> set protected")
    case True
    then have "List.member keep (re_relative e) \<or> List.member protected (re_relative e)" by (simp add: List.member_iff)
    then show ?thesis using 2(1) by (auto elim!: emits_mono)
  next
    case False
    then have f: "\<not> (List.member keep (re_relative e) \<or> List.member protected (re_relative e))" by (simp add: List.member_iff)
    have tail: "emits (?P (e # es)) (delete_entries srv keep protected (n + 1) es)"
      by (rule emits_mono [OF 2(2) [OF f]]) auto
    have "?P (e # es) (removal_of e)" using False by auto
    then have here: "emits (?P (e # es))
        (if re_is_dir e
         then smap_err (\<lambda>err. ''Failed to remove remote directory '' @ re_path e @ '': '' @ err)
                (ask (sv_unit srv) (RemoveDir (re_path e)))
         else smap_err (\<lambda>err. ''Failed to remove remote file '' @ re_path e @ '': '' @ err)
                (ask (sv_unit srv) (RemoveFile (re_path e))))"
      by (cases "re_is_dir e") (simp_all add: removal_of_def emits_map_err emits_ask)
    show ?thesis unfolding delete_entries.simps if_not_P [OF f] by (rule emits_bind [OF here tail])
  qed
qed

lemma rel_ancestors_self [simp]: "p \<in> set (rel_ancestors p)"
  by (subst rel_ancestors.simps) simp

lemma protected_paths:
  assumes "sync_protected_paths rules plan options entries = Inr protected"
    "(relative, is_dir) \<in> set entries" "relative \<notin> set protected"
  shows "\<exists>matched ignores. ig_override rules = Inr matched \<and> load_gitignores rules options plan = Inr ignores \<and>
    \<not> excluded_path matched relative is_dir \<and> \<not> git_ignored ignores relative is_dir"
proof -
  from assms(1) obtain matched ignores where m: "ig_override rules = Inr matched" "load_gitignores rules options plan = Inr ignores"
    and p: "protected = concat (map (\<lambda>(relative, is_dir).
       if excluded_path matched relative is_dir \<or> git_ignored ignores relative is_dir
       then rel_ancestors relative else []) entries)"
    by (auto simp: sync_protected_paths_def rbind_Inr_iff)
  have "\<not> (excluded_path matched relative is_dir \<or> git_ignored ignores relative is_dir)"
  proof
    assume "excluded_path matched relative is_dir \<or> git_ignored ignores relative is_dir"
    then have "relative \<in> set ((\<lambda>(relative, is_dir).
        if excluded_path matched relative is_dir \<or> git_ignored ignores relative is_dir
        then rel_ancestors relative else []) (relative, is_dir))" by simp
    with assms(2) have "relative \<in> set protected" unfolding p set_concat set_map by blast
    with assms(3) show False ..
  qed
  with m show ?thesis by blast
qed

definition may_remove ::
    "ignore_rules \<Rightarrow> directory_transfer_plan \<Rightarrow> directory_transfer_options \<Rightarrow> string \<Rightarrow> sftp_request \<Rightarrow> bool" where
  "may_remove rules plan options root req \<longleftrightarrow>
     (\<exists>names relative is_dir matched ignores.
        req = (if is_dir then RemoveDir else RemoveFile) (foldl join_remote_child root names) \<and>
        names \<noteq> [] \<and> list_all entry_name_ok names \<and> components relative = names \<and>
        relative \<notin> set (planned_relative_paths plan) \<and>
        ig_override rules = Inr matched \<and> load_gitignores rules options plan = Inr ignores \<and>
        \<not> excluded_path matched relative is_dir \<and> \<not> git_ignored ignores relative is_dir)"

lemma may_remove_entry:
  assumes "found_below root [] e" "re_relative e \<notin> set ([] # planned_relative_paths plan)"
    "sync_protected_paths rules plan options (map (\<lambda>e. (re_relative e, re_is_dir e)) es) = Inr protected"
    "e \<in> set es" "re_relative e \<notin> set protected"
  shows "may_remove rules plan options root (removal_of e)"
proof -
  from assms(1) obtain names where n: "names \<noteq> []" "list_all entry_name_ok names"
      "re_path e = foldl join_remote_child root names" "components (re_relative e) = names"
    by (auto simp: found_below_def)
  from protected_paths [OF assms(3) _ assms(5), of "re_is_dir e"] assms(4) obtain matched ignores where
    "ig_override rules = Inr matched" "load_gitignores rules options plan = Inr ignores"
    "\<not> excluded_path matched (re_relative e) (re_is_dir e)" "\<not> git_ignored ignores (re_relative e) (re_is_dir e)"
    by fastforce
  with n assms(2) show ?thesis unfolding may_remove_def
    by (intro exI [of _ names] exI [of _ "re_relative e"] exI [of _ "re_is_dir e"] exI [of _ matched] exI [of _ ignores])
      (simp add: removal_of_def)
qed

lemma delete_extra_emits:
  "emits (\<lambda>r. is_removal r \<longrightarrow> may_remove rules plan options root r) (delete_extra_sftp_entries srv rules root plan options)"
  unfolding delete_extra_sftp_entries_def
proof (rule emits_bind_result)
  let ?P = "\<lambda>r. is_removal r \<longrightarrow> may_remove rules plan options root r"
  show "emits ?P (collect_remote_entries srv root [])" using collect_emits(1) by (rule emits_mono) simp
  fix h h' es
  assume "collect_remote_entries srv root [] h = (h', Inr es)"
  from collect_Inr(1) [OF this] have es: "\<forall>e \<in> set es. found_below root [] e" by simp
  let ?ps = "sync_protected_paths rules plan options (map (\<lambda>e. (re_relative e, re_is_dir e)) es)"
  show "emits ?P (sbind (case ?ps of Inl e \<Rightarrow> sfail e | Inr ps \<Rightarrow> sreturn ps) (\<lambda>protected.
     delete_entries srv ([] # planned_relative_paths plan) protected 0
       (sort_key (\<lambda>e. - int (slashes (re_relative e))) es)))"
  proof (rule emits_bind_result)
    show "emits ?P (case ?ps of Inl e \<Rightarrow> sfail e | Inr ps \<Rightarrow> sreturn ps)"
      by (cases ?ps) (simp_all add: emits_rules)
    fix h h' protected
    assume "(case ?ps of Inl e \<Rightarrow> sfail e | Inr ps \<Rightarrow> sreturn ps) h = (h', Inr protected)"
    then have "?ps = Inr protected" by (cases ?ps) simp_all
    then show "emits ?P (delete_entries srv ([] # planned_relative_paths plan) protected 0
       (sort_key (\<lambda>e. - int (slashes (re_relative e))) es))"
      using es by (intro emits_mono [OF delete_entries_emits]) (auto intro: may_remove_entry)
  qed
qed

lemma transfer_emits:
  "emits (\<lambda>r. is_removal r \<longrightarrow> mode = Sync \<and> do_delete_extra options \<and>
       may_remove rules plan options (normalize_remote_dir dir) r)
   (transfer_directory_to_sftp srv rules local_files (Inr plan) dir mode options)"
proof -
  let ?P = "\<lambda>r. is_removal r \<longrightarrow> mode = Sync \<and> do_delete_extra options \<and>
    may_remove rules plan options (normalize_remote_dir dir) r"
  have quiet: "emits ?P m" if "emits (\<lambda>r. \<not> is_removal r) m" for m :: "'b sftp"
    using that by (rule emits_mono) simp
  have last: "emits ?P (if mode = Sync \<and> do_delete_extra options
      then delete_extra_sftp_entries srv rules (normalize_remote_dir dir) plan options else sreturn 0)"
    by (cases "mode = Sync \<and> do_delete_extra options")
      (auto intro: emits_rules emits_mono [OF delete_extra_emits])
  show ?thesis
    unfolding transfer_directory_to_sftp_def Let_def sum.case split_beta
    by (subst sreturn_bind) (intro emits_bind last emits_return quiet mkdir_removes_nothing create_directories_removes_nothing
        transfer_files_removes_nothing)
qed

section \<open>Properties\<close>

text \<open>C16: a deletion stays inside: whatever the server answers and however it changes its answers, every
  request of \<open>sftp_delete_path\<close> is for the path itself or for a path that extends it by at most 101 names,
  none of them a dot or a dot-dot or containing a slash; and when it reports success, the last thing
  the server did was to acknowledge the removal of exactly that path.\<close>

theorem deletion_is_confined:
  assumes "sftp_delete_path srv path recursive h = (h', r)"
  shows "(\<exists>rs. h' = h @ rs \<and>
      list_all (\<lambda>req. \<exists>names. request_path req = foldl join_remote_child path names \<and> length names \<le> 101 \<and>
        components (request_path req) = components path @ names \<and>
        list_all (\<lambda>n. n \<noteq> [] \<and> n \<noteq> ''.'' \<and> n \<noteq> ''..'' \<and> CHR ''/'' \<notin> set n) names) rs) \<and>
    (r = Inr () \<longrightarrow> last h' \<in> {RemoveFile path, RemoveDir path} \<and> sv_unit srv h' = Inr ())"
proof
  from emits_run [OF delete_path_emits assms] obtain rs where
    rs: "h' = h @ rs" "list_all (\<lambda>r. below path 101 (request_path r)) rs" by blast
  have "list_all (\<lambda>req. \<exists>names. request_path req = foldl join_remote_child path names \<and> length names \<le> 101 \<and>
      components (request_path req) = components path @ names \<and>
      list_all (\<lambda>n. n \<noteq> [] \<and> n \<noteq> ''.'' \<and> n \<noteq> ''..'' \<and> CHR ''/'' \<notin> set n) names) rs"
    using rs(2) by (rule list.pred_mono_strong) (drule below_names, simp add: slash_def)
  with rs(1) show "\<exists>rs. h' = h @ rs \<and>
      list_all (\<lambda>req. \<exists>names. request_path req = foldl join_remote_child path names \<and> length names \<le> 101 \<and>
        components (request_path req) = components path @ names \<and>
        list_all (\<lambda>n. n \<noteq> [] \<and> n \<noteq> ''.'' \<and> n \<noteq> ''..'' \<and> CHR ''/'' \<notin> set n) names) rs" by blast
  show "r = Inr () \<longrightarrow> last h' \<in> {RemoveFile path, RemoveDir path} \<and> sv_unit srv h' = Inr ()"
    using delete_path_Inr [of srv path recursive h h'] assms by auto
qed

text \<open>A server with one directory holding one file and one link, which refuses to remove what is not a file.\<close>

definition plain_attrs :: file_attrs where
  "plain_attrs = \<lparr>fa_is_dir = False, fa_size = None, fa_modified = None, fa_permissions = []\<rparr>"

definition sample_server :: sftp_server where
  "sample_server =
     \<lparr>sv_unit = (\<lambda>h. case last h of
          RemoveFile p \<Rightarrow> if p = ''/d'' then Inl ''not a file'' else Inr ()
        | CreateDir p \<Rightarrow> if p = ''/d/n'' then Inl ''no such directory'' else Inr ()
        | _ \<Rightarrow> Inr ()),
      sv_attrs = (\<lambda>h. Inl ''unsupported''),
      sv_entries = (\<lambda>h. case last h of
          ReadDir p \<Rightarrow> if p = ''/d'' then Inr [\<lparr>de_name = ''..'', de_is_dir = True, de_is_symlink = False, de_attrs = plain_attrs\<rparr>,
              \<lparr>de_name = ''f'', de_is_dir = False, de_is_symlink = False, de_attrs = plain_attrs\<rparr>,
              \<lparr>de_name = ''o'', de_is_dir = False, de_is_symlink = False, de_attrs = plain_attrs\<rparr>] else Inl ''not a directory''
        | _ \<Rightarrow> Inl ''no''),
      sv_data = (\<lambda>h. Inr [])\<rparr>"

lemma sample_deletion:
  "sftp_delete_path sample_server ''/d'' True [] =
     ([RemoveFile ''/d'', ReadDir ''/d'', RemoveFile ''/d/f'', RemoveFile ''/d/o'', RemoveDir ''/d''], Inr ())"
  by code_simp

theorem deletion_is_confined_witness:
  "last [RemoveFile ''/d'', ReadDir ''/d'', RemoveFile ''/d/f'', RemoveFile ''/d/o'', RemoveDir ''/d'']
     \<in> {RemoveFile ''/d'', RemoveDir ''/d''}"
  using deletion_is_confined [OF sample_deletion] by simp

text \<open>Supporting result: when \<open>sftp_mkdir_recursive\<close> reports success the server has said, during the call, that the
  directory exists: it acknowledged creating the path, or for each initial part of the path it
  acknowledged creating it, described it as a directory or listed it; an absolute path stays absolute.\<close>

theorem created_directories_exist:
  assumes "sftp_mkdir_recursive srv path h = (h', Inr ())"
  shows "acknowledged srv h' path \<or>
    (\<forall>n \<in> {1..length (components path)}. \<exists>d. components d = take n (components path) \<and>
       (absolute d \<longleftrightarrow> absolute path) \<and> acknowledged srv h' d)"
proof (cases "acknowledged srv h' path")
  case False
  with mkdir_recursive_Inr [OF assms]
  have all: "\<forall>d \<in> set (mkdir_prefixes [] (path_parts path)). acknowledged srv h' d" by blast
  have no: "\<forall>c \<in> set (path_parts path). slash \<notin> set c"
    by (auto simp: path_parts_def dest: split_on_parts)
  note parts = mkdir_prefixes_components [OF no, of "[]", folded components_def]
  have "\<exists>d. components d = take n (components path) \<and> (absolute d \<longleftrightarrow> absolute path) \<and> acknowledged srv h' d"
    if "n \<in> {1..length (components path)}" for n
  proof -
    from that have "take n (components path) \<in> components ` set (mkdir_prefixes [] (path_parts path))"
      unfolding set_map [symmetric] parts by (auto simp del: upt_Suc)
    with all show ?thesis using mkdir_prefixes_of_path by fastforce
  qed
  then show ?thesis by blast
qed simp

lemma sample_mkdir:
  "sftp_mkdir_recursive (sample_server\<lparr>sv_entries := (\<lambda>h. Inr [])\<rparr>) ''/d/n'' [] =
     ([CreateDir ''/d/n'', CreateDir ''/d'', CreateDir ''/d/n'', Metadata ''/d/n'', ReadDir ''/d/n''], Inr ())"
  by code_simp

theorem created_directories_exist_witness:
  "let h' = [CreateDir ''/d/n'', CreateDir ''/d'', CreateDir ''/d/n'', Metadata ''/d/n'', ReadDir ''/d/n''];
       srv = sample_server\<lparr>sv_entries := (\<lambda>h. Inr [])\<rparr> in
   acknowledged srv h' ''/d/n'' \<or>
   (\<exists>d. components d = take 1 (components ''/d/n'') \<and> absolute d \<and> acknowledged srv h' d)"
proof -
  have "length (components ''/d/n'') = 2" "absolute ''/d/n''" by code_simp+
  with created_directories_exist [OF sample_mkdir] show ?thesis unfolding Let_def by fastforce
qed

text \<open>Supporting result: a streaming upload that reports success has sent the whole file: after opening the remote file
  the requests are writes of exactly the chunks read, up to the end of the local file and without a
  read error, and the close; the server acknowledged each one of them, and the reported size is the
  size of what was read.\<close>

theorem upload_sends_the_file:
  assumes "upload_local_file_streaming srv local_path file remote_path h = (h', Inr sent_bytes)"
  shows "\<exists>reads chunks h1. file = Inr reads \<and> local_content reads = Inr chunks \<and>
    h' = h1 @ OpenWrite remote_path False # map (Write remote_path) chunks @ [CloseFile remote_path] \<and>
    (\<forall>k > length h1. sv_unit srv (take k h') = Inr ()) \<and> sent_bytes = length (concat chunks)"
proof -
  obtain reads where f: "file = Inr reads" using assms by (cases "file") (auto simp: upload_local_file_streaming_def)
  from assms obtain h2 h3 where
        opened: "open_with_parent srv remote_path False True (sync_remote_parent_dir remote_path) h = (h2, Inr ())"
    and sent: "upload_chunks srv local_path remote_path 0 reads h2 = (h3, Inr sent_bytes)"
    and closed: "h' = h3 @ [CloseFile remote_path]" "sv_unit srv h' = Inr ()"
    unfolding upload_local_file_streaming_def f sum.case sbind_Inr smap_err_Inr ask_eq sreturn_eq
    by (elim exE conjE) simp
  from open_with_parent_Inr [OF opened] obtain h1 where
    h1: "h2 = h1 @ [OpenWrite remote_path False]" "sv_unit srv h2 = Inr ()" by blast
  have start: "\<forall>k \<ge> length h2. sv_unit srv (take k h2) = Inr ()" using h1(2) by simp
  from upload_chunks_Inr [OF sent _ start] h1(1) obtain chunks where
    c: "local_content reads = Inr chunks" "h3 = h2 @ map (Write remote_path) chunks" "sent_bytes = length (concat chunks)"
      "\<forall>k \<ge> length h2. sv_unit srv (take k h3) = Inr ()" by auto
  have "sv_unit srv (take k h') = Inr ()" if "length h1 < k" for k
    using c(4) closed that h1(1) by (cases "k \<le> length h3") auto
  with f c closed h1(1) show ?thesis
    by (intro exI [of _ reads] exI [of _ chunks] exI [of _ h1]) simp
qed

lemma sample_upload:
  "upload_local_file_streaming sample_server ''l'' (Inr [Inr ''ab'', Inr ''c'', Inr []]) ''/d/u'' [] =
     ([OpenWrite ''/d/u'' False, Write ''/d/u'' ''ab'', Write ''/d/u'' ''c'', CloseFile ''/d/u''], Inr 3)"
  by code_simp

theorem upload_sends_the_file_witness:
  "\<exists>chunks. local_content [Inr ''ab'', Inr ''c'', Inr []] = Inr chunks \<and> 3 = length (concat chunks)"
  using upload_sends_the_file [OF sample_upload] by blast


definition sample_plan :: directory_transfer_plan where
  "sample_plan = \<lparr>pl_root = ''/l'', pl_root_name = ''l'', pl_directories = [],
     pl_files = [\<lparr>le_relative = ''f'', le_size = 2\<rparr>], pl_total_bytes = 2\<rparr>"

lemma sample_sync:
  "fst (transfer_directory_to_sftp sample_server
      \<lparr>ig_override = Inr (\<lambda>p d. p = ''x''), ig_gitignore = (\<lambda>d. Inr None)\<rparr>
      (\<lambda>_. Inr [Inr ''ab'']) (Inr sample_plan) ''/d/ '' Sync
      \<lparr>do_excluded_paths = [''x''], do_respect_gitignore = True, do_delete_extra = True\<rparr> []) =
     [CreateDir ''/d'', Metadata ''/d/f'', OpenWrite ''/d/f'' False, Write ''/d/f'' ''ab'', CloseFile ''/d/f'',
      ReadDir ''/d'', RemoveFile ''/d/o'']"
  by code_simp


text \<open>Supporting result: a remote directory given as two slashes is normalised to the empty path, which servers
  resolve to the home directory of the user; the synchronisation uploads to and lists that directory but removes
  the extra entries it found from another, the root: on a server that lists \<open>o\<close> for the empty path,
  \<open>/o\<close> is removed.\<close>

theorem double_slash_root:
  "normalize_remote_dir ''//'' = [] \<and>
   fst (transfer_directory_to_sftp (sample_server\<lparr>sv_entries := (\<lambda>h. case last h of
          ReadDir p \<Rightarrow> if p = [] then Inr [\<lparr>de_name = ''o'', de_is_dir = False, de_is_symlink = False, de_attrs = plain_attrs\<rparr>]
            else Inl ''not a directory'' | _ \<Rightarrow> Inl ''no'')\<rparr>)
      \<lparr>ig_override = Inr (\<lambda>p d. False), ig_gitignore = (\<lambda>d. Inr None)\<rparr>
      (\<lambda>_. Inr [Inr ''ab'']) (Inr sample_plan) ''//'' Sync
      \<lparr>do_excluded_paths = [], do_respect_gitignore = True, do_delete_extra = True\<rparr> []) =
     [CreateDir [], Metadata ''./f'', OpenWrite ''./f'' False, Write ''./f'' ''ab'', CloseFile ''./f'',
      ReadDir [], RemoveFile ''/o'']"
  by code_simp

end
