(* ===== verification/Ssh_Client.thy ===== *)
theory Ssh_Client
  imports Requests Trust_Store
begin

text \<open>
  The SSH client, \<^verbatim>\<open>src-tauri/src/ssh/client.rs\<close>, against an arbitrary peer.  The protocol itself is the
  \<^verbatim>\<open>russh\<close> library: \<open>ssh_request\<close> lists the calls the client makes on it (and the reading of the trust
  file), numbered by the position of the one that opened the connection or channel, and \<open>ssh_peer\<close> answers
  each depending on all calls so far.  The world of an operation is the client's state and the calls made.
  What is relied on is \<open>russh_ok\<close>: a connection is handed out only if the handler has accepted its key.
  Errors of an answer include that a time limit has expired; connecting and closing tell it apart.
\<close>

section \<open>Calls and answers\<close>

record server_key_info =
  ky_fingerprint :: string
  ky_algorithm :: string

record pty_config =
  pty_term :: string
  pty_cols :: nat
  pty_rows :: nat
  pty_pix_width :: nat
  pty_pix_height :: nat

definition default_pty_config :: pty_config where
  "default_pty_config = \<lparr>pty_term = ''xterm-256color'', pty_cols = 80, pty_rows = 24, pty_pix_width = 0, pty_pix_height = 0\<rparr>"

datatype ssh_request =
    KeyExchange string "16 word"
  | ReadStore
  | FinishHandshake nat "string + bool"
  | AuthPassword nat string string
  | KeyboardStart nat string
  | KeyboardRespond nat "string list"
  | RsaHash nat
  | AuthKey nat string string string
  | Disconnect nat
  | OpenSession nat
  | DirectTcpip nat string nat
  | BindBridge
  | AbortBridge "16 word"
  | RequestPty nat pty_config
  | RequestShell nat
  | RequestSubsystem nat string
  | ExecRequest nat string
  | WaitMessage nat
  | ChannelData nat string
  | WindowChange nat nat nat
  | ChannelEof nat
  | ChannelClose nat
  | IsClosed nat

datatype connect_outcome = TimedOut | Refused string | Ready

datatype keyboard_response = KbSuccess | KbFailure | KbPrompts "(string \<times> bool) list"

datatype channel_message =
    MsgSuccess | MsgFailure | MsgClose | MsgEof | MsgData string | MsgExitStatus nat | MsgExitSignal | MsgOther

type_synonym ssh_log = "ssh_request list"

text \<open>\<open>pr_presented\<close> answers the key exchange: it ends without calling the handler, or the handler is called
  with a key.  \<open>pr_patience\<close> is the number of messages that arrive within the time limit of an
  acknowledgement.\<close>

record ssh_peer =
  pr_presented :: "ssh_log \<Rightarrow> connect_outcome + server_key_info"
  pr_file :: "ssh_log \<Rightarrow> store_file"
  pr_established :: "ssh_log \<Rightarrow> connect_outcome"
  pr_auth :: "ssh_log \<Rightarrow> string + bool"
  pr_keyboard :: "ssh_log \<Rightarrow> string + keyboard_response"
  pr_rsa_hash :: "ssh_log \<Rightarrow> string + string option option"
  pr_done :: "ssh_log \<Rightarrow> string + unit"
  pr_message :: "ssh_log \<Rightarrow> string + channel_message option"
  pr_closed :: "ssh_log \<Rightarrow> bool"
  pr_bridge :: "ssh_log \<Rightarrow> string + 16 word"
  pr_patience :: nat

record ssh_env =
  se_uni :: "string \<Rightarrow> string"
  se_codec :: codec
  se_decode_key :: "string \<Rightarrow> string option \<Rightarrow> string + string"

record ssh_client =
  sc_session :: "nat option"
  sc_channel :: "nat option"
  sc_shell_channel_id :: "nat option"
  sc_server_key :: "server_key_info option"
  sc_host_key_check :: "(string \<times> 16 word) option"
  sc_host_key_rejection :: "host_key_rejection option"

definition new_client :: ssh_client where
  "new_client = \<lparr>sc_session = None, sc_channel = None, sc_shell_channel_id = None, sc_server_key = None,
     sc_host_key_check = None, sc_host_key_rejection = None\<rparr>"

type_synonym 'a ssh = "(ssh_client \<times> ssh_log, 'a) io"

definition client :: "(ssh_client \<Rightarrow> 'a) \<Rightarrow> 'a ssh" where
  "client f w = (w, Inr (f (fst w)))"

definition set_client :: "(ssh_client \<Rightarrow> ssh_client) \<Rightarrow> unit ssh" where
  "set_client f w = (case w of (c, h) \<Rightarrow> ((f c, h), Inr ()))"

definition call :: "(ssh_log \<Rightarrow> string + 'a) \<Rightarrow> ssh_request \<Rightarrow> 'a ssh" where
  "call answer q w = (case w of (c, h) \<Rightarrow> ((c, h @ [q]), answer (h @ [q])))"

definition next_number :: "nat ssh" where
  "next_number w = (w, Inr (length (snd w)))"

section \<open>Connecting\<close>

definition clear_server_key :: "unit ssh" where
  "clear_server_key = set_client (\<lambda>c. c\<lparr>sc_server_key := None\<rparr>)"

definition set_host_key_check :: "string \<Rightarrow> 16 word \<Rightarrow> ssh_client \<Rightarrow> ssh_client" where
  "set_host_key_check host port c = c\<lparr>sc_host_key_check := Some (host, port)\<rparr>"

definition record_host_key_rejection :: "host_key_rejection \<Rightarrow> unit ssh" where
  "record_host_key_rejection rejection = set_client (\<lambda>c. c\<lparr>sc_host_key_rejection := Some rejection\<rparr>)"

text \<open>The handler; refreshing the store replaces its map by what the file holds.\<close>

definition check_server_key :: "ssh_env \<Rightarrow> ssh_peer \<Rightarrow> server_key_info \<Rightarrow> bool ssh" where
  "check_server_key env peer key =
     sbind (set_client (\<lambda>c. c\<lparr>sc_server_key := Some key\<rparr>)) (\<lambda>_.
     sbind (client sc_host_key_check) (\<lambda>check.
     case check of
       None \<Rightarrow> sbind (record_host_key_rejection Unconfigured) (\<lambda>_. sreturn False)
     | Some (host, port) \<Rightarrow>
         sbind (call (\<lambda>h. Inr (pr_file peer h)) ReadStore) (\<lambda>file.
         case read_snapshot (se_codec env) file of
           Inl e \<Rightarrow> sfail ''trust store''
         | Inr fps \<Rightarrow>
             (case evaluate_host_key (verify (se_uni env) fps host port (ky_fingerprint key) (ky_algorithm key)) of
                Inr _ \<Rightarrow> sreturn True
              | Inl rejection \<Rightarrow> sbind (record_host_key_rejection rejection) (\<lambda>_. sreturn False)))))"

definition host_key_error :: "ssh_client \<Rightarrow> host_key_rejection \<Rightarrow> string \<Rightarrow> 16 word \<Rightarrow> string" where
  "host_key_error c rejection host port =
     (case sc_host_key_check c of
        Some (h, p) \<Rightarrow> error_message rejection h p
      | None \<Rightarrow> error_message rejection host port)"

definition fail_connect :: "string \<Rightarrow> 16 word \<Rightarrow> 'a ssh" where
  "fail_connect host port =
     sbind (client (\<lambda>c. map_option (\<lambda>r. host_key_error c r host port) (sc_host_key_rejection c))) (\<lambda>rejected.
     case rejected of
       Some e \<Rightarrow> sfail e
     | None \<Rightarrow> sfail (''Failed to connect to '' @ host @ '':'' @ show_nat (unat port)))"

definition connect_timed_out :: "string \<Rightarrow> 16 word \<Rightarrow> string" where
  "connect_timed_out host port =
     ''TCP connection to '' @ host @ '':'' @ show_nat (unat port) @ '' timed out''"

definition establish_connection :: "ssh_env \<Rightarrow> ssh_peer \<Rightarrow> string \<Rightarrow> 16 word \<Rightarrow> nat ssh" where
  "establish_connection env peer host port =
     sbind (set_client (\<lambda>c. c\<lparr>sc_host_key_rejection := None\<rparr>)) (\<lambda>_.
     sbind clear_server_key (\<lambda>_.
     sbind next_number (\<lambda>i.
     sbind (call (\<lambda>h. Inr (pr_presented peer h)) (KeyExchange host port)) (\<lambda>presented.
     sbind (case presented of
              Inl outcome \<Rightarrow> sreturn outcome
            | Inr key \<Rightarrow>
                sbind (stry (check_server_key env peer key)) (\<lambda>verdict.
                call (\<lambda>h. Inr (pr_established peer h)) (FinishHandshake i verdict))) (\<lambda>outcome.
     case outcome of
       TimedOut \<Rightarrow> sfail (connect_timed_out host port)
     | Refused _ \<Rightarrow> fail_connect host port
     | Ready \<Rightarrow>
         sbind (client sc_host_key_rejection) (\<lambda>rejection.
         case rejection of
           Some _ \<Rightarrow> fail_connect host port
         | None \<Rightarrow> sreturn i))))))"

definition connect_handshake :: "ssh_env \<Rightarrow> ssh_peer \<Rightarrow> string \<Rightarrow> 16 word \<Rightarrow> server_key_info ssh" where
  "connect_handshake env peer host port =
     sbind (establish_connection env peer host port) (\<lambda>session.
     sbind (client sc_server_key) (\<lambda>key_info.
     case key_info of
       None \<Rightarrow> sfail (''Host key was not captured during the handshake with '' @ host @ '':'' @ show_nat (unat port))
     | Some key \<Rightarrow> sbind (stry (call (pr_done peer) (Disconnect session))) (\<lambda>_. sreturn key)))"

section \<open>Authentication\<close>

fun keyboard_rounds :: "ssh_peer \<Rightarrow> nat \<Rightarrow> string \<Rightarrow> nat \<Rightarrow> bool \<Rightarrow> keyboard_response \<Rightarrow> bool ssh" where
  "keyboard_rounds peer session password 0 sent_password response =
     sfail ''Too many keyboard-interactive authentication rounds''"
| "keyboard_rounds peer session password (Suc n) sent_password response =
     (case response of
        KbSuccess \<Rightarrow> sreturn True
      | KbFailure \<Rightarrow> sreturn False
      | KbPrompts prompts \<Rightarrow>
          if prompts = [] then
            sbind (call (pr_keyboard peer) (KeyboardRespond session [])) (keyboard_rounds peer session password n sent_password)
          else if \<not> sent_password \<and> length prompts = 1 \<and> \<not> snd (hd prompts) \<and>
             contains (to_ascii_lowercase (fst (hd prompts))) ''password'' then
            sbind (call (pr_keyboard peer) (KeyboardRespond session [password])) (keyboard_rounds peer session password n True)
          else sfail ''Server requires interactive authentication not supported by saved-password login'')"

definition authenticate_with_password :: "ssh_peer \<Rightarrow> nat \<Rightarrow> string \<Rightarrow> string \<Rightarrow> bool ssh" where
  "authenticate_with_password peer session username password =
     sbind (call (pr_auth peer) (AuthPassword session username password)) (\<lambda>success.
     if success then sreturn True
     else
       sbind (call (pr_keyboard peer) (KeyboardStart session username)) (\<lambda>response.
       keyboard_rounds peer session password 4 False response))"

definition connect_password :: "ssh_env \<Rightarrow> ssh_peer \<Rightarrow> string \<Rightarrow> 16 word \<Rightarrow> string \<Rightarrow> string \<Rightarrow> unit ssh" where
  "connect_password env peer host port username password =
     sbind clear_server_key (\<lambda>_.
     sbind (establish_connection env peer host port) (\<lambda>session.
     sbind (authenticate_with_password peer session username password) (\<lambda>authenticated.
     if \<not> authenticated
     then sfail (''Authentication failed: server rejected credentials for user '' @ username)
     else set_client (\<lambda>c. c\<lparr>sc_session := Some session\<rparr>))))"

definition nonempty_passphrase :: "string option \<Rightarrow> string option" where
  "nonempty_passphrase p = (case p of Some s \<Rightarrow> if s = [] then None else Some s | None \<Rightarrow> None)"

definition connect_key ::
    "ssh_env \<Rightarrow> ssh_peer \<Rightarrow> string \<Rightarrow> 16 word \<Rightarrow> string \<Rightarrow> string \<Rightarrow> string option \<Rightarrow> unit ssh" where
  "connect_key env peer host port username private_key passphrase =
     sbind clear_server_key (\<lambda>_.
     sbind (establish_connection env peer host port) (\<lambda>session.
     sbind (slift (se_decode_key env private_key (nonempty_passphrase passphrase))) (\<lambda>key_pair.
     sbind (call (pr_rsa_hash peer) (RsaHash session)) (\<lambda>best.
     let hash = (case best of Some (Some hash) \<Rightarrow> hash | _ \<Rightarrow> ''sha2-512'') in
     sbind (call (pr_auth peer) (AuthKey session username key_pair hash)) (\<lambda>success.
     if \<not> success
     then sfail (''Key authentication failed: server rejected credentials for user '' @ username)
     else set_client (\<lambda>c. c\<lparr>sc_session := Some session\<rparr>))))))"

definition is_connected :: "ssh_peer \<Rightarrow> bool ssh" where
  "is_connected peer =
     sbind (client sc_session) (\<lambda>session.
     case session of
       None \<Rightarrow> sreturn False
     | Some i \<Rightarrow> sbind (call (\<lambda>h. Inr (pr_closed peer h)) (IsClosed i)) (\<lambda>closed. sreturn (\<not> closed)))"

definition is_shell_open :: "ssh_peer \<Rightarrow> bool ssh" where
  "is_shell_open peer =
     sbind (client sc_shell_channel_id) (\<lambda>i. if i = None then sreturn False else is_connected peer)"

section \<open>Channels\<close>

definition session_channel :: "ssh_peer \<Rightarrow> nat ssh" where
  "session_channel peer =
     sbind (client sc_session) (\<lambda>session.
     case session of
       None \<Rightarrow> sfail ''SSH client not connected''
     | Some i \<Rightarrow>
         sbind next_number (\<lambda>channel.
         sbind (call (pr_done peer) (OpenSession i)) (\<lambda>_. sreturn channel)))"

fun await_reply :: "ssh_peer \<Rightarrow> nat \<Rightarrow> string \<Rightarrow> nat \<Rightarrow> unit ssh" where
  "await_reply peer channel operation 0 = sfail (''Server did not acknowledge '' @ operation)"
| "await_reply peer channel operation (Suc n) =
     sbind (call (pr_message peer) (WaitMessage channel)) (\<lambda>message.
     case message of
       Some MsgSuccess \<Rightarrow> sreturn ()
     | Some MsgFailure \<Rightarrow> sfail (''Server rejected '' @ operation)
     | Some MsgClose \<Rightarrow> sfail (''Server rejected '' @ operation)
     | None \<Rightarrow> sfail (''Server rejected '' @ operation)
     | Some _ \<Rightarrow> await_reply peer channel operation n)"

definition channel_accepted :: "ssh_peer \<Rightarrow> nat \<Rightarrow> string \<Rightarrow> unit ssh" where
  "channel_accepted peer channel operation = await_reply peer channel operation (pr_patience peer)"

definition open_shell :: "ssh_peer \<Rightarrow> pty_config option \<Rightarrow> unit ssh" where
  "open_shell peer pty =
     sbind (client sc_channel) (\<lambda>opened.
     if opened \<noteq> None then sfail ''Shell already opened''
     else
       sbind (session_channel peer) (\<lambda>channel.
       sbind (stry (
         sbind (call (pr_done peer) (RequestPty channel (case pty of Some p \<Rightarrow> p | None \<Rightarrow> default_pty_config))) (\<lambda>_.
         sbind (channel_accepted peer channel ''PTY request'') (\<lambda>_.
         sbind (call (pr_done peer) (RequestShell channel)) (\<lambda>_.
         channel_accepted peer channel ''shell request''))))) (\<lambda>setup.
       case setup of
         Inl e \<Rightarrow> sbind (stry (call (pr_done peer) (ChannelClose channel))) (\<lambda>_. sfail e)
       | Inr _ \<Rightarrow>
           set_client (\<lambda>c. c\<lparr>sc_shell_channel_id := Some channel, sc_channel := Some channel\<rparr>))))"

text \<open>The end of the task that reads the output of the shell.\<close>

definition shell_reader_ended :: "nat \<Rightarrow> ssh_client \<Rightarrow> ssh_client" where
  "shell_reader_ended channel c =
     (if sc_shell_channel_id c = Some channel then c\<lparr>sc_channel := None, sc_shell_channel_id := None\<rparr> else c)"

definition send_data :: "ssh_peer \<Rightarrow> string \<Rightarrow> unit ssh" where
  "send_data peer data =
     sbind (client sc_channel) (\<lambda>channel.
     case channel of
       None \<Rightarrow> sfail ''Shell not opened''
     | Some i \<Rightarrow> call (pr_done peer) (ChannelData i data))"

definition resize_pty :: "ssh_peer \<Rightarrow> nat \<Rightarrow> nat \<Rightarrow> unit ssh" where
  "resize_pty peer cols rows =
     sbind (client sc_channel) (\<lambda>channel.
     case channel of
       None \<Rightarrow> sfail ''Shell not opened''
     | Some i \<Rightarrow> call (pr_done peer) (WindowChange i cols rows))"

definition open_sftp_session :: "ssh_peer \<Rightarrow> nat ssh" where
  "open_sftp_session peer =
     sbind (session_channel peer) (\<lambda>channel.
     sbind (call (pr_done peer) (RequestSubsystem channel ''sftp'')) (\<lambda>_.
     sbind (channel_accepted peer channel ''SFTP subsystem'') (\<lambda>_.
     sreturn channel)))"

definition disconnect :: "ssh_peer \<Rightarrow> unit ssh" where
  "disconnect peer =
     sbind (client sc_channel) (\<lambda>channel.
     sbind (set_client (\<lambda>c. c\<lparr>sc_shell_channel_id := None, sc_channel := None\<rparr>)) (\<lambda>_.
     sbind (case channel of
              None \<Rightarrow> sreturn ()
            | Some i \<Rightarrow>
                sbind (stry (call (pr_done peer) (ChannelEof i))) (\<lambda>_.
                sbind (stry (call (pr_done peer) (ChannelClose i))) (\<lambda>_. sreturn ()))) (\<lambda>_.
     sbind (client sc_session) (\<lambda>session.
     sbind (set_client (\<lambda>c. c\<lparr>sc_session := None\<rparr>)) (\<lambda>_.
     case session of
       None \<Rightarrow> sreturn ()
     | Some i \<Rightarrow> call (pr_done peer) (Disconnect i))))))"

section \<open>Commands on a channel of their own\<close>

record command_result =
  cr_output :: string
  cr_exit_code :: int

text \<open>What the loop sees when it wakes up: the milliseconds since the start, and a message, the end of the
  channel, or nothing for the time it waited.\<close>

datatype wait_event = Got channel_message | ChannelEnded | NothingYet

record exec_state =
  ex_output :: string
  ex_exit_status :: "nat option"
  ex_last_message_at :: nat

datatype exec_outcome = RemoteClosed exec_state | ClosedLocally exec_state | ExecTimedOut | ExecFailed string

definition exec_close_drain_timeout :: nat where "exec_close_drain_timeout = 2000"
definition exec_command_timeout :: nat where "exec_command_timeout = 300000"
definition max_exec_output :: nat where "max_exec_output = 8 * 1024 * 1024"

text \<open>Each element is one pass of the loop: the clock when the pass starts, and when the wait ends with what.
  \<open>None\<close>: the events do not reach the end.\<close>

fun exec_loop :: "nat \<Rightarrow> nat \<Rightarrow> exec_state \<Rightarrow> (nat \<times> nat \<times> wait_event) list \<Rightarrow> exec_outcome option" where
  "exec_loop limit max_output s [] = None"
| "exec_loop limit max_output s ((elapsed, woken, event) # events) =
     (if limit \<le> elapsed then Some ExecTimedOut
      else
        case event of
          Got message \<Rightarrow>
            (let s = s\<lparr>ex_last_message_at := woken\<rparr> in
             case message of
               MsgData data \<Rightarrow>
                 if max_output < length (ex_output s) + length data
                 then Some (ExecFailed (''Command output exceeded the '' @ show_nat (max_output div (1024 * 1024)) @ '' MiB limit''))
                 else exec_loop limit max_output (s\<lparr>ex_output := ex_output s @ data\<rparr>) events
             | MsgFailure \<Rightarrow> Some (ExecFailed ''Server rejected the exec request'')
             | MsgExitStatus status \<Rightarrow> exec_loop limit max_output (s\<lparr>ex_exit_status := Some status\<rparr>) events
             | MsgExitSignal \<Rightarrow> exec_loop limit max_output (s\<lparr>ex_exit_status := Some 255\<rparr>) events
             | MsgClose \<Rightarrow> Some (RemoteClosed s)
             | _ \<Rightarrow> exec_loop limit max_output s events)
        | ChannelEnded \<Rightarrow> Some (RemoteClosed s)
        | NothingYet \<Rightarrow>
            if ex_exit_status s \<noteq> None \<and> exec_close_drain_timeout \<le> woken - ex_last_message_at s
            then Some (ClosedLocally s)
            else exec_loop limit max_output s events)"

definition exit_code_of :: "nat option \<Rightarrow> int" where
  "exit_code_of status = (case status of Some code \<Rightarrow> if code < 2 ^ 31 then int code else -1 | None \<Rightarrow> -1)"

text \<open>\<open>lossy\<close> is \<open>from_utf8_lossy\<close>.  The outer \<open>None\<close> is the one of the loop.\<close>

definition exec_result :: "(string \<Rightarrow> string) \<Rightarrow> exec_outcome \<Rightarrow> string + command_result" where
  "exec_result lossy outcome =
     (case outcome of
        RemoteClosed s \<Rightarrow> Inr \<lparr>cr_output = lossy (ex_output s), cr_exit_code = exit_code_of (ex_exit_status s)\<rparr>
      | ClosedLocally s \<Rightarrow> Inr \<lparr>cr_output = lossy (ex_output s), cr_exit_code = exit_code_of (ex_exit_status s)\<rparr>
      | ExecTimedOut \<Rightarrow> Inl ''Command timed out''
      | ExecFailed e \<Rightarrow> Inl e)"

definition exec_command_result_with_limits ::
    "ssh_peer \<Rightarrow> (string \<Rightarrow> string) \<Rightarrow> string \<Rightarrow> string option \<Rightarrow> nat \<Rightarrow> nat \<Rightarrow> (nat \<times> nat \<times> wait_event) list \<Rightarrow>
     command_result option ssh" where
  "exec_command_result_with_limits peer lossy command stdin_data limit max_output events =
     sbind (session_channel peer) (\<lambda>channel.
     let close_failed = (\<lambda>e. sbind (stry (call (pr_done peer) (ChannelClose channel))) (\<lambda>_. sfail e)) in
     sbind (stry (call (pr_done peer) (ExecRequest channel command))) (\<lambda>started.
     case started of
       Inl _ \<Rightarrow> close_failed ''Failed to send exec request''
     | Inr _ \<Rightarrow>
         sbind (case nonempty_passphrase stdin_data of
                  None \<Rightarrow> sreturn (Inr ())
                | Some data \<Rightarrow> stry (call (pr_done peer) (ChannelData channel (data @ [CHR 0x0A])))) (\<lambda>fed.
         case fed of
           Inl _ \<Rightarrow> close_failed ''Failed to write command stdin''
         | Inr _ \<Rightarrow>
             sbind (stry (call (pr_done peer) (ChannelEof channel))) (\<lambda>finished.
             case finished of
               Inl _ \<Rightarrow> close_failed ''Failed to finish command stdin''
             | Inr _ \<Rightarrow>
                 (case exec_loop limit max_output \<lparr>ex_output = [], ex_exit_status = None, ex_last_message_at = 0\<rparr> events of
                    None \<Rightarrow> sreturn None
                  | Some outcome \<Rightarrow>
                      sbind (case outcome of
                               RemoteClosed _ \<Rightarrow> sreturn ()
                             | ExecFailed _ \<Rightarrow> sbind (stry (call (pr_done peer) (ChannelClose channel))) (\<lambda>_. sreturn ())
                             | _ \<Rightarrow>
                                 sbind (stry (call (pr_done peer) (ChannelEof channel))) (\<lambda>_.
                                 sbind (stry (call (pr_done peer) (ChannelClose channel))) (\<lambda>_. sreturn ()))) (\<lambda>_.
                      slift (map_sum id Some (exec_result lossy outcome))))))))"

definition exec_command_result ::
    "ssh_peer \<Rightarrow> (string \<Rightarrow> string) \<Rightarrow> string \<Rightarrow> string option \<Rightarrow> (nat \<times> nat \<times> wait_event) list \<Rightarrow> command_result option ssh" where
  "exec_command_result peer lossy command stdin_data events =
     exec_command_result_with_limits peer lossy command stdin_data exec_command_timeout max_exec_output events"

definition exec_command_with_stdin ::
    "ssh_peer \<Rightarrow> (string \<Rightarrow> string) \<Rightarrow> string \<Rightarrow> string option \<Rightarrow> (nat \<times> nat \<times> wait_event) list \<Rightarrow> string option ssh" where
  "exec_command_with_stdin peer lossy command stdin_data events =
     sbind (exec_command_result peer lossy command stdin_data events) (\<lambda>result.
     case result of
       None \<Rightarrow> sreturn None
     | Some r \<Rightarrow>
         if 0 < cr_exit_code r
         then sfail (''Remote command exited with status '' @ show_int (cr_exit_code r) @ '': '' @
                concat (take 4096 (utf8_chars (cr_output r))))
         else sreturn (Some (cr_output r)))"

section \<open>Connections that were verified\<close>

definition russh_ok :: "ssh_peer \<Rightarrow> bool" where
  "russh_ok peer \<longleftrightarrow> (\<forall>h. pr_presented peer h \<noteq> Inl Ready) \<and>
     (\<forall>h i v. pr_established peer (h @ [FinishHandshake i v]) = Ready \<longrightarrow> v = Inr True)"

text \<open>Connection \<open>i\<close> presented a key that the trust file, read right then, holds for this host and port.\<close>

definition trusted_connection :: "ssh_env \<Rightarrow> ssh_peer \<Rightarrow> ssh_log \<Rightarrow> nat \<Rightarrow> string \<times> 16 word \<Rightarrow> bool" where
  "trusted_connection env peer h i identity \<longleftrightarrow> Suc i < length h \<and>
     (\<exists>host port key fps. h ! i = KeyExchange host port \<and> pr_presented peer (take (Suc i) h) = Inr key \<and>
        h ! Suc i = ReadStore \<and> read_snapshot (se_codec env) (pr_file peer (take (Suc (Suc i)) h)) = Inr fps \<and>
        (host_key (se_uni env) (fst identity) (snd identity), ky_fingerprint key) \<in> pairs fps)"

lemma trusted_connection_append:
  assumes "trusted_connection env peer h i identity"
  shows "trusted_connection env peer (h @ hs) i identity"
proof -
  have "take (Suc (Suc i)) (h @ hs) = take (Suc (Suc i)) h" "take (Suc i) (h @ hs) = take (Suc i) h"
    "(h @ hs) ! i = h ! i" "(h @ hs) ! Suc i = h ! Suc i" "Suc i < length (h @ hs)"
    using assms by (auto simp: trusted_connection_def nth_append)
  then show ?thesis using assms unfolding trusted_connection_def by metis
qed

text \<open>The calls that send a secret, with the connection they use.\<close>

definition secrets_in :: "ssh_request \<Rightarrow> (nat \<times> string) set" where
  "secrets_in q =
     (case q of
        AuthPassword i user password \<Rightarrow> {(i, password)}
      | KeyboardRespond i answers \<Rightarrow> Pair i ` set answers
      | AuthKey i user key hash \<Rightarrow> {(i, key)}
      | _ \<Rightarrow> {})"

text \<open>From position \<open>start\<close> on, secrets go only to the servers in \<open>allowed\<close>.\<close>

definition confined ::
    "ssh_env \<Rightarrow> ssh_peer \<Rightarrow> ((string \<times> 16 word) \<times> string) set \<Rightarrow> nat \<Rightarrow> ssh_log \<Rightarrow> bool" where
  "confined env peer allowed start h \<longleftrightarrow>
     (\<forall>n i secret. start \<le> n \<longrightarrow> n < length h \<longrightarrow> (i, secret) \<in> secrets_in (h ! n) \<longrightarrow>
        (\<exists>identity. (identity, secret) \<in> allowed \<and> trusted_connection env peer (take n h) i identity))"

lemma confined_start: "confined env peer allowed (length h) h"
  by (simp add: confined_def)

lemma confined_snoc:
  "confined env peer allowed start (h @ [q]) \<longleftrightarrow> confined env peer allowed start h \<and>
     (start \<le> length h \<longrightarrow> (\<forall>(i, secret) \<in> secrets_in q.
        \<exists>identity. (identity, secret) \<in> allowed \<and> trusted_connection env peer h i identity))"
proof -
  have "n < length (h @ [q]) \<longleftrightarrow> n < length h \<or> n = length h" for n by auto
  then show ?thesis unfolding confined_def by (auto simp: nth_append)
qed

lemma confined_call: "secrets_in q = {} \<Longrightarrow> confined env peer allowed start h \<Longrightarrow> confined env peer allowed start (h @ [q])"
  by (simp add: confined_snoc)

lemma confined_mono: "confined env peer A start h \<Longrightarrow> A \<subseteq> B \<Longrightarrow> confined env peer B start h"
  unfolding confined_def by blast

section \<open>Rules for the client's operations\<close>

lemma holds_client [holds_rules]: "holds (\<lambda>w. Q (f (fst w)) w) (client f) Q E"
  by (simp add: holds_def client_def)

lemma holds_set_client [holds_rules]: "holds (\<lambda>(c, h). Q () (f c, h)) (set_client f) Q E"
  by (auto simp: holds_def set_client_def)

lemma holds_next_number [holds_rules]: "holds (\<lambda>w. Q (length (snd w)) w) next_number Q E"
  by (simp add: holds_def next_number_def)

lemma holds_call [holds_rules]:
  "holds (\<lambda>(c, h). case answer (h @ [q]) of Inr a \<Rightarrow> Q a (c, h @ [q]) | Inl e \<Rightarrow> E (c, h @ [q])) (call answer q) Q E"
  by (auto simp: holds_def call_def)

text \<open>An operation that sends no secret and does not touch the policy keeps this state.\<close>

definition checked :: "ssh_env \<Rightarrow> ssh_peer \<Rightarrow> ((string \<times> 16 word) \<times> string) set \<Rightarrow> nat \<Rightarrow> string \<times> 16 word \<Rightarrow>
    ssh_client \<times> ssh_log \<Rightarrow> bool" where
  "checked env peer allowed start identity w \<longleftrightarrow>
     sc_host_key_check (fst w) = Some identity \<and> confined env peer allowed start (snd w)"

lemma checked_set_client:
  "(\<And>c. sc_host_key_check (f c) = sc_host_key_check c) \<Longrightarrow>
   holds (checked env peer A s ident) (set_client f) (\<lambda>_. checked env peer A s ident) (checked env peer A s ident)"
  by (auto simp: holds_def set_client_def checked_def)

lemma checked_call:
  "secrets_in q = {} \<Longrightarrow>
   holds (checked env peer A s ident) (call answer q) (\<lambda>_. checked env peer A s ident) (checked env peer A s ident)"
  by (auto simp: holds_def call_def checked_def confined_call split: sum.split)

definition trusted_now :: "ssh_env \<Rightarrow> ssh_peer \<Rightarrow> string \<times> 16 word \<Rightarrow> nat \<Rightarrow> ssh_client \<times> ssh_log \<Rightarrow> bool" where
  "trusted_now env peer identity i w \<longleftrightarrow> trusted_connection env peer (snd w) i identity"

lemma trusted_call:
  "holds (trusted_now env peer ident i) (call answer q) (\<lambda>_. trusted_now env peer ident i) (trusted_now env peer ident i)"
  by (auto simp: holds_def call_def trusted_now_def trusted_connection_append split: sum.split)

lemma check_server_key_run:
  assumes "sc_host_key_check c = Some (host, port)"
  shows "check_server_key env peer key (c, h) =
    (case read_snapshot (se_codec env) (pr_file peer (h @ [ReadStore])) of
       Inl e \<Rightarrow> ((c\<lparr>sc_server_key := Some key\<rparr>, h @ [ReadStore]), Inl ''trust store'')
     | Inr fps \<Rightarrow>
         (case evaluate_host_key (verify (se_uni env) fps host port (ky_fingerprint key) (ky_algorithm key)) of
            Inr _ \<Rightarrow> ((c\<lparr>sc_server_key := Some key\<rparr>, h @ [ReadStore]), Inr True)
          | Inl rejection \<Rightarrow>
              ((c\<lparr>sc_server_key := Some key, sc_host_key_rejection := Some rejection\<rparr>, h @ [ReadStore]), Inr False)))"
  using assms
  by (auto simp: check_server_key_def sbind_def set_client_def client_def call_def sfail_def sreturn_def
      record_host_key_rejection_def split: sum.splits)

lemma evaluate_trusted: "evaluate_host_key v = Inr u \<longleftrightarrow> v = Trusted"
  by (cases v) (auto simp: evaluate_host_key_def)

lemma establish_connection_run:
  "establish_connection env peer host port (c, h) =
     (let c0 = c\<lparr>sc_host_key_rejection := None, sc_server_key := None\<rparr>; h1 = h @ [KeyExchange host port];
          ((c1, h2), outcome) =
            (case pr_presented peer h1 of
               Inl outcome \<Rightarrow> ((c0, h1), outcome)
             | Inr key \<Rightarrow>
                 (case check_server_key env peer key (c0, h1) of
                    ((c1, h2), verdict) \<Rightarrow>
                      ((c1, h2 @ [FinishHandshake (length h) verdict]),
                       pr_established peer (h2 @ [FinishHandshake (length h) verdict]))))
      in ((c1, h2),
          case outcome of
            TimedOut \<Rightarrow> Inl (connect_timed_out host port)
          | _ \<Rightarrow>
              (case sc_host_key_rejection c1 of
                 Some rejection \<Rightarrow> Inl (host_key_error c1 rejection host port)
               | None \<Rightarrow> (case outcome of Ready \<Rightarrow> Inr (length h)
                        | _ \<Rightarrow> Inl (''Failed to connect to '' @ host @ '':'' @ show_nat (unat port))))))"
  by (auto simp: establish_connection_def clear_server_key_def sbind_def set_client_def next_number_def call_def stry_def
      sreturn_def sfail_def fail_connect_def client_def Let_def split: sum.splits connect_outcome.splits option.splits prod.splits)

lemma establish_connection_trusted:
  assumes "russh_ok peer"
    and "establish_connection env peer host port (c, h) = ((c', h'), r)"
    and "sc_host_key_check c = Some identity" "confined env peer A s h"
  shows "sc_host_key_check c' = Some identity \<and> confined env peer A s h' \<and> prefix h h' \<and>
    (\<forall>i. r = Inr i \<longrightarrow> trusted_connection env peer h' i identity)"
proof -
  obtain ih ip where ident: "identity = (ih, ip)" by (cases identity)
  let ?h1 = "h @ [KeyExchange host port]" let ?c0 = "c\<lparr>sc_host_key_rejection := None, sc_server_key := None\<rparr>"
  have check: "sc_host_key_check ?c0 = Some (ih, ip)" using assms(3) ident by simp
  have conf1: "confined env peer A s ?h1" by (rule confined_call [OF _ assms(4)]) (simp add: secrets_in_def)
  show ?thesis
  proof (cases "pr_presented peer ?h1")
    case (Inl outcome)
    then have "outcome \<noteq> Ready" using assms(1) unfolding russh_ok_def by metis
    with Inl assms(2,3) conf1 show ?thesis
      by (auto simp: establish_connection_run Let_def split: connect_outcome.splits)
  next
    case pres: (Inr key)
    let ?h2 = "?h1 @ [ReadStore]"
    have "snd (fst (check_server_key env peer key (?c0, ?h1))) = ?h2"
      by (simp add: check_server_key_run [OF check] split: sum.split)
    then obtain c1 verdict where v: "check_server_key env peer key (?c0, ?h1) = ((c1, ?h2), verdict)"
      by (metis surjective_pairing)
    let ?h3 = "?h2 @ [FinishHandshake (length h) verdict]"
    have c1: "sc_host_key_check c1 = Some identity"
      using v ident check by (auto simp: check_server_key_run [OF check] split: sum.splits)
    have conf3: "confined env peer A s ?h3"
      by (intro confined_call conf1) (simp_all add: secrets_in_def)
    have run: "c' = c1 \<and> h' = ?h3 \<and> (\<forall>i. r = Inr i \<longrightarrow> i = length h \<and> pr_established peer ?h3 = Ready)"
      using assms(2) pres v by (auto simp: establish_connection_run Let_def split: connect_outcome.splits option.splits)
    have "trusted_connection env peer ?h3 (length h) identity" if "pr_established peer ?h3 = Ready"
    proof -
      have "verdict = Inr True" using assms(1) that unfolding russh_ok_def by blast
      with v obtain fps where fps: "read_snapshot (se_codec env) (pr_file peer ?h2) = Inr fps"
        "verify (se_uni env) fps ih ip (ky_fingerprint key) (ky_algorithm key) = Trusted"
        by (auto simp: check_server_key_run [OF check] evaluate_trusted split: sum.splits)
      have t: "take (Suc (length h)) ?h3 = ?h1" "take (Suc (Suc (length h))) ?h3 = ?h2" "?h3 ! length h = KeyExchange host port"
        "?h3 ! Suc (length h) = ReadStore" by (simp_all add: nth_append)
      from fps(2) have "(host_key (se_uni env) ih ip, ky_fingerprint key) \<in> pairs fps" by (simp add: verify_Trusted_iff)
      with fps(1) pres show ?thesis unfolding trusted_connection_def t ident by auto
    qed
    with run c1 conf3 show ?thesis by (auto simp: prefix_def)
  qed
qed

definition authenticating :: "ssh_env \<Rightarrow> ssh_peer \<Rightarrow> ((string \<times> 16 word) \<times> string) set \<Rightarrow> nat \<Rightarrow> string \<times> 16 word \<Rightarrow>
    nat \<Rightarrow> ssh_client \<times> ssh_log \<Rightarrow> bool" where
  "authenticating env peer A s identity i w \<longleftrightarrow> checked env peer A s identity w \<and> trusted_now env peer identity i w"

lemma stays_client: "stays P (client f)"
  by (simp add: holds_def client_def)

lemma authenticating_call:
  assumes "secrets_in q \<subseteq> {(i, secret)}" "secrets_in q = {} \<or> (identity, secret) \<in> A"
  shows "stays (authenticating env peer A s identity i) (call answer q)"
proof -
  have "confined env peer A s (h @ [q])" if "confined env peer A s h" "trusted_connection env peer h i identity" for h
    unfolding confined_snoc
  proof (intro conjI that(1) impI ballI, clarify)
    fix j secret'
    assume "(j, secret') \<in> secrets_in q"
    with assms have "j = i" "(identity, secret') \<in> A" by auto
    with that(2) show "\<exists>identity. (identity, secret') \<in> A \<and> trusted_connection env peer h j identity" by blast
  qed
  then show ?thesis
    by (auto simp: holds_def authenticating_def checked_def trusted_now_def call_def trusted_connection_append split: sum.split)
qed

lemma authenticating_set_client:
  "(\<And>c. sc_host_key_check (f c) = sc_host_key_check c) \<Longrightarrow> stays (authenticating env peer A s identity i) (set_client f)"
  by (auto simp: holds_def authenticating_def checked_def trusted_now_def set_client_def)

lemma keyboard_rounds_confined:
  assumes "(identity, password) \<in> A"
  shows "stays (authenticating env peer A s identity i) (keyboard_rounds peer i password n sent response)"
proof (induction n arbitrary: sent response)
  case 0
  then show ?case by (simp add: stays_leaves stays_client)
next
  case (Suc n)
  then show ?case using assms
    by (cases response) (auto intro!: stays_bind stays_leaves stays_client authenticating_call [of _ _ password] simp: secrets_in_def)
qed

lemma establish_connection_holds:
  assumes "russh_ok peer"
  shows "holds (checked env peer A s identity) (establish_connection env peer host port)
    (authenticating env peer A s identity) (checked env peer A s identity)"
  unfolding holds_def
proof (intro allI impI, goal_cases)
  case (1 w w' r)
  obtain c h c' h' where w: "w = (c, h)" "w' = (c', h')" by fastforce
  from 1(1) w have "sc_host_key_check c = Some identity" "confined env peer A s h" by (simp_all add: checked_def)
  from establish_connection_trusted [OF assms 1(2) [unfolded w] this] w show ?case
    by (simp add: checked_def authenticating_def trusted_now_def split: sum.split)
qed

lemma clear_server_key_checked: "stays (checked env peer A s identity) clear_server_key"
  unfolding clear_server_key_def by (rule checked_set_client) simp

lemma connect_password_confined:
  assumes "russh_ok peer" "(identity, password) \<in> A"
  shows "stays (checked env peer A s identity) (connect_password env peer host port username password)"
proof -
  let ?auth = "authenticating env peer A s identity" let ?checked = "checked env peer A s identity"
  have "holds (?auth i)
      (sbind (authenticate_with_password peer i username password) (\<lambda>authenticated.
         if \<not> authenticated
         then sfail (''Authentication failed: server rejected credentials for user '' @ username)
         else set_client (\<lambda>c. c\<lparr>sc_session := Some i\<rparr>))) (\<lambda>_. ?checked) ?checked" for i
    by (rule holds_conseq [where P = "?auth i" and Q = "\<lambda>_. ?auth i" and E = "?auth i"])
      (auto intro!: stays_bind stays_leaves stays_client authenticating_call [of _ _ password] authenticating_set_client
        keyboard_rounds_confined assms(2) simp: authenticate_with_password_def secrets_in_def authenticating_def)
  from holds_bind [OF this establish_connection_holds [OF assms(1)]] show ?thesis
    unfolding connect_password_def by (rule stays_bind [OF clear_server_key_checked])
qed

lemma connect_key_confined:
  assumes "russh_ok peer"
    and "\<And>key. se_decode_key env private_key (nonempty_passphrase passphrase) = Inr key \<Longrightarrow> (identity, key) \<in> A"
  shows "stays (checked env peer A s identity) (connect_key env peer host port username private_key passphrase)"
proof -
  let ?auth = "authenticating env peer A s identity" let ?checked = "checked env peer A s identity"
  let ?decoded = "se_decode_key env private_key (nonempty_passphrase passphrase)"
  let ?rest = "\<lambda>i key_pair. sbind (call (pr_rsa_hash peer) (RsaHash i)) (\<lambda>best.
     let hash = (case best of Some (Some hash) \<Rightarrow> hash | _ \<Rightarrow> ''sha2-512'') in
     sbind (call (pr_auth peer) (AuthKey i username key_pair hash)) (\<lambda>success.
     if \<not> success
     then sfail (''Key authentication failed: server rejected credentials for user '' @ username)
     else set_client (\<lambda>c. c\<lparr>sc_session := Some i\<rparr>)))"
  have rest: "stays (?auth i) (?rest i key)" if "?decoded = Inr key" for i key
    using assms(2) [OF that]
    by (auto intro!: stays_bind stays_leaves stays_client authenticating_call [of _ _ key] authenticating_set_client
        simp: secrets_in_def Let_def)
  have "holds (?auth i) (sbind (slift ?decoded) (?rest i)) (\<lambda>_. ?checked) ?checked" for i
  proof (cases ?decoded)
    case (Inl e)
    then show ?thesis by (auto simp: slift_bind holds_def authenticating_def)
  next
    case (Inr key)
    have "sbind (slift ?decoded) (?rest i) = ?rest i key" by (simp only: slift_bind Inr sum.case)
    then show ?thesis
      by (simp only:) (rule holds_conseq [OF rest [OF Inr]], simp_all add: authenticating_def)
  qed
  from holds_bind [OF this establish_connection_holds [OF assms(1)]] show ?thesis
    unfolding connect_key_def by (rule stays_bind [OF clear_server_key_checked])
qed

end
