(* ===== verification/Session_Services.thy ===== *)
theory Session_Services
  imports Prelude "HOL-Library.AList" "HOL-Library.Sublist" "HOL-Library.Word"
begin

text \<open>
  What a session keeps besides its connection: the replay buffer (\<^verbatim>\<open>src-tauri/src/replay.rs\<close>), the table of
  tunnels (\<^verbatim>\<open>tunnel/manager.rs\<close>) and the recordings (\<^verbatim>\<open>logging/session_logger.rs\<close>).  The tasks that
  forward and write bytes are not modelled: what starting one yields is a parameter.  A \<open>HashMap\<close> is an
  association list in arbitrary order.
\<close>

section \<open>The replay buffer\<close>

definition output_replay_limit_bytes :: nat where "output_replay_limit_bytes = 64 * 1024"

record replay_buffer =
  rb_chunks :: "string list"
  rb_total_bytes :: nat

definition empty_replay :: replay_buffer where
  "empty_replay = \<lparr>rb_chunks = [], rb_total_bytes = 0\<rparr>"

fun evict :: "string list \<Rightarrow> nat \<Rightarrow> replay_buffer" where
  "evict [] sum_bytes = \<lparr>rb_chunks = [], rb_total_bytes = (if output_replay_limit_bytes < sum_bytes then 0 else sum_bytes)\<rparr>"
| "evict (removed # chunks) sum_bytes =
     (if output_replay_limit_bytes < sum_bytes then evict chunks (sum_bytes - length removed)
      else \<lparr>rb_chunks = removed # chunks, rb_total_bytes = sum_bytes\<rparr>)"

definition push :: "string \<Rightarrow> replay_buffer \<Rightarrow> replay_buffer" where
  "push data b =
     (if data = [] then b
      else
        let stored = (if output_replay_limit_bytes < length data
                      then drop (length data - output_replay_limit_bytes) data else data)
        in evict (rb_chunks b @ [stored]) (rb_total_bytes b + length stored))"

definition snapshot :: "replay_buffer \<Rightarrow> string list" where
  "snapshot b = rb_chunks b"

text \<open>The buffer counts its bytes, stays within the limit, and holds the end of the output; it only
  drops output when there is more than the limit.\<close>

definition replay_inv :: "string \<Rightarrow> replay_buffer \<Rightarrow> bool" where
  "replay_inv output b \<longleftrightarrow> rb_total_bytes b = length (concat (rb_chunks b)) \<and>
     rb_total_bytes b \<le> output_replay_limit_bytes \<and> suffix (concat (rb_chunks b)) output \<and>
     list_all (\<lambda>c. c \<noteq> []) (rb_chunks b) \<and>
     (length output \<le> output_replay_limit_bytes \<longrightarrow> concat (rb_chunks b) = output)"

lemma evict_suffix:
  "sum_bytes = length (concat chunks) \<Longrightarrow>
   rb_total_bytes (evict chunks sum_bytes) = length (concat (rb_chunks (evict chunks sum_bytes))) \<and>
   rb_total_bytes (evict chunks sum_bytes) \<le> output_replay_limit_bytes \<and>
   suffix (rb_chunks (evict chunks sum_bytes)) chunks \<and>
   (sum_bytes \<le> output_replay_limit_bytes \<longrightarrow> rb_chunks (evict chunks sum_bytes) = chunks)"
proof (induction chunks arbitrary: sum_bytes)
  case Nil
  then show ?case by (simp add: output_replay_limit_bytes_def)
next
  case (Cons removed chunks)
  show ?case
  proof (cases "output_replay_limit_bytes < sum_bytes")
    case True
    with Cons.prems Cons.IH [of "sum_bytes - length removed"] show ?thesis by (auto intro: suffix_ConsI)
  next
    case False
    with Cons.prems show ?thesis by simp
  qed
qed

lemma concat_suffix: "suffix xs ys \<Longrightarrow> suffix (concat xs) (concat ys)"
  by (auto simp: suffix_def)

lemma push_inv:
  assumes "replay_inv output b"
  shows "replay_inv (output @ data) (push data b)"
proof (cases "data = []")
  case True
  with assms show ?thesis by (simp add: push_def)
next
  case False
  let ?stored = "if output_replay_limit_bytes < length data then drop (length data - output_replay_limit_bytes) data else data"
  let ?chunks = "rb_chunks b @ [?stored]" let ?b = "push data b"
  have b: "?b = evict ?chunks (length (concat ?chunks))"
    using False assms by (simp add: push_def replay_inv_def Let_def)
  note e = evict_suffix [OF refl, of ?chunks, folded b]
  have nonempty: "?stored \<noteq> []" using False by (auto simp: output_replay_limit_bytes_def)
  have large: "suffix (concat (rb_chunks ?b)) ?stored" if "output_replay_limit_bytes < length data"
  proof -
    have s: "suffix (concat (rb_chunks ?b)) (concat ?chunks)" using e concat_suffix by blast
    have len: "length (concat (rb_chunks ?b)) \<le> length ?stored" using e that by simp
    have "suffix ?stored (concat ?chunks)" by (simp add: suffix_def)
    from suffix_length_suffix [OF s this len] show ?thesis .
  qed
  have "suffix (concat (rb_chunks ?b)) (output @ data)"
  proof (cases "output_replay_limit_bytes < length data")
    case True
    moreover have "suffix (drop (length data - output_replay_limit_bytes) data) (output @ data)"
      by (simp add: suffix_appendI suffix_drop)
    ultimately show ?thesis using large suffix_order.trans by fastforce
  next
    case False
    have "suffix (concat (rb_chunks b) @ data) (output @ data)" using assms by (auto simp: replay_inv_def suffix_def)
    with e False concat_suffix [of "rb_chunks ?b" ?chunks] show ?thesis by (auto intro: suffix_order.trans)
  qed
  moreover have "list_all (\<lambda>c. c \<noteq> []) (rb_chunks ?b)"
  proof -
    have "set (rb_chunks ?b) \<subseteq> set ?chunks" using e by (meson set_mono_suffix)
    with assms nonempty show ?thesis unfolding replay_inv_def list_all_iff by fastforce
  qed
  moreover have "concat (rb_chunks ?b) = output @ data" if "length (output @ data) \<le> output_replay_limit_bytes"
    using that assms e by (auto simp: replay_inv_def)
  ultimately show ?thesis using e by (simp add: replay_inv_def)
qed

lemma replay_inv_empty: "replay_inv [] empty_replay"
  by (simp add: replay_inv_def empty_replay_def)

lemma push_all_inv: "replay_inv output b \<Longrightarrow> replay_inv (output @ concat ds) (fold push ds b)"
proof (induction ds arbitrary: "output" b)
  case (Cons d ds)
  from Cons.IH [OF push_inv [OF Cons.prems]] show ?case by simp
qed simp

section \<open>Tunnels\<close>

datatype tunnel_type = LocalForward | RemoteForward | DynamicForward

datatype tunnel_status = Starting | Active | Stopped | TunnelError

record tunnel_config =
  tc_id :: string
  tc_server_id :: string
  tc_tunnel_type :: tunnel_type
  tc_local_host :: string
  tc_local_port :: "16 word"
  tc_remote_host :: "string option"
  tc_remote_port :: "16 word option"
  tc_auto_start :: bool
  tc_enabled :: bool

record tunnel_stats =
  ts_bytes_in :: nat
  ts_bytes_out :: nat
  ts_active_connections :: nat

record tunnel_handle =
  th_id :: string
  th_config :: tunnel_config
  th_session_id :: string
  th_status :: tunnel_status
  th_stats :: tunnel_stats

record tunnel_info =
  ti_id :: string
  ti_config :: tunnel_config
  ti_session_id :: string
  ti_status :: tunnel_status
  ti_stats :: tunnel_stats
  ti_error_message :: "string option"

type_synonym tunnels = "(string \<times> tunnel_handle) list"

text \<open>\<open>started\<close> is the port the worker reports within its time limit; \<open>ended\<close> the status it has set by the time
  the tunnel is entered, if it has already ended.\<close>

definition create_tunnel ::
    "bool \<Rightarrow> string \<Rightarrow> string + 16 word \<Rightarrow> tunnel_status option \<Rightarrow> string \<Rightarrow> tunnel_config \<Rightarrow> tunnels \<Rightarrow>
     tunnels \<times> (string + tunnel_info)" where
  "create_tunnel connected uuid started ended session_id config tunnels =
     (if \<not> connected then (tunnels, Inl ''SSH session not connected'')
      else if tc_local_host config = [] then (tunnels, Inl ''Local host must not be empty'')
      else if tc_tunnel_type config = LocalForward \<and> (tc_remote_port config = None \<or> tc_remote_port config = Some 0)
      then (tunnels, Inl ''Remote destination port must be nonzero'')
      else if tc_tunnel_type config = RemoteForward \<and> tc_local_port config = 0
      then (tunnels, Inl ''Local destination port must be nonzero'')
      else
        let tunnel_id = (if tc_id config = [] then uuid else tc_id config) in
        if map_of tunnels tunnel_id \<noteq> None then (tunnels, Inl (''Tunnel is already running: '' @ tunnel_id))
        else
          (case started of
             Inl e \<Rightarrow> (tunnels, Inl (''Tunnel did not start: '' @ e))
           | Inr actual_port \<Rightarrow>
               (let config = (if tc_tunnel_type config = RemoteForward
                              then config\<lparr>tc_remote_port := Some actual_port\<rparr>
                              else config\<lparr>tc_local_port := actual_port\<rparr>);
                    status = (case ended of Some s \<Rightarrow> s | None \<Rightarrow> Active);
                    stats = \<lparr>ts_bytes_in = 0, ts_bytes_out = 0, ts_active_connections = 0\<rparr> in
                (AList.update tunnel_id \<lparr>th_id = tunnel_id, th_config = config, th_session_id = session_id,
                   th_status = status, th_stats = stats\<rparr> tunnels,
                 Inr \<lparr>ti_id = tunnel_id, ti_config = config, ti_session_id = session_id, ti_status = status,
                   ti_stats = stats, ti_error_message = None\<rparr>))))"

definition stop_tunnel :: "string \<Rightarrow> tunnels \<Rightarrow> tunnels \<times> (string + unit)" where
  "stop_tunnel tunnel_id tunnels =
     (if map_of tunnels tunnel_id = None then (tunnels, Inl (''Tunnel '' @ tunnel_id @ '' not found''))
      else (AList.delete tunnel_id tunnels, Inr ()))"

definition tunnel_info_of :: "tunnel_handle \<Rightarrow> tunnel_info" where
  "tunnel_info_of h =
     \<lparr>ti_id = th_id h, ti_config = th_config h, ti_session_id = th_session_id h, ti_status = th_status h,
      ti_stats = th_stats h,
      ti_error_message = (if th_status h = TunnelError then Some ''Tunnel encountered an error'' else None)\<rparr>"

definition list_tunnels :: "string option \<Rightarrow> tunnels \<Rightarrow> tunnel_info list" where
  "list_tunnels session_id tunnels =
     map tunnel_info_of
       (filter (\<lambda>h. \<not> (case session_id of Some i \<Rightarrow> th_session_id h \<noteq> i | None \<Rightarrow> False)) (map snd tunnels))"

definition stop_all_for_session :: "string \<Rightarrow> tunnels \<Rightarrow> tunnels" where
  "stop_all_for_session session_id tunnels =
     fold AList.delete (map fst (filter (\<lambda>(_, h). th_session_id h = session_id) tunnels)) tunnels"

definition stop_all_tunnels :: "tunnels \<Rightarrow> tunnels" where
  "stop_all_tunnels tunnels = []"

section \<open>Recordings\<close>

record recording =
  rc_id :: string
  rc_session_id :: string
  rc_server_id :: string
  rc_started_at :: int
  rc_ended_at :: "int option"
  rc_file_path :: string

record session_logger =
  lg_active :: "(string \<times> string) list"
  lg_rows :: "recording list"

definition is_recording :: "string \<Rightarrow> session_logger \<Rightarrow> bool" where
  "is_recording session_id l = list_ex (\<lambda>(_, s). s = session_id) (lg_active l)"

definition get_recording_id :: "string \<Rightarrow> session_logger \<Rightarrow> string option" where
  "get_recording_id session_id l = map_option fst (List.find (\<lambda>(_, s). s = session_id) (lg_active l))"

text \<open>\<open>made_dir\<close> is the creation of the directory, \<open>path\<close> the file in it, and \<open>added\<close> whether the row could be
  inserted.\<close>

definition start_recording ::
    "string \<Rightarrow> int \<Rightarrow> string + unit \<Rightarrow> string \<Rightarrow> string + unit \<Rightarrow> string \<Rightarrow> string \<Rightarrow> session_logger \<Rightarrow>
     session_logger \<times> (string + string)" where
  "start_recording uuid now made_dir path added session_id server_id l =
     (if is_recording session_id l then (l, Inl (''Session '' @ session_id @ '' is already being recorded''))
      else
        case made_dir of
          Inl e \<Rightarrow> (l, Inl e)
        | Inr _ \<Rightarrow>
            (case added of
               Inl e \<Rightarrow> (l, Inl e)
             | Inr _ \<Rightarrow>
                 (l\<lparr>lg_rows := lg_rows l @ [\<lparr>rc_id = uuid, rc_session_id = session_id, rc_server_id = server_id,
                      rc_started_at = now, rc_ended_at = None, rc_file_path = path\<rparr>],
                    lg_active := AList.update uuid session_id (lg_active l)\<rparr>,
                  Inr uuid)))"

definition update_ended :: "string \<Rightarrow> int \<Rightarrow> recording list \<Rightarrow> recording list" where
  "update_ended recording_id now rows = map (\<lambda>r. if rc_id r = recording_id then r\<lparr>rc_ended_at := Some now\<rparr> else r) rows"

text \<open>\<open>updated\<close> is whether the update of the row succeeds.\<close>

definition stop_recording :: "int \<Rightarrow> string + unit \<Rightarrow> string \<Rightarrow> session_logger \<Rightarrow> session_logger \<times> (string + unit)" where
  "stop_recording now updated recording_id l =
     (if map_of (lg_active l) recording_id = None then (l, Inl (''Recording '' @ recording_id @ '' not found''))
      else
        let l = l\<lparr>lg_active := AList.delete recording_id (lg_active l)\<rparr> in
        case updated of
          Inl e \<Rightarrow> (l, Inl e)
        | Inr _ \<Rightarrow> (l\<lparr>lg_rows := update_ended recording_id now (lg_rows l)\<rparr>, Inr ()))"

definition stop_one :: "int \<Rightarrow> (string \<Rightarrow> bool) \<Rightarrow> string \<Rightarrow> session_logger \<Rightarrow> session_logger" where
  "stop_one now updated i l =
     (if map_of (lg_active l) i = None then l
      else l\<lparr>lg_active := AList.delete i (lg_active l),
             lg_rows := (if updated i then update_ended i now (lg_rows l) else lg_rows l)\<rparr>)"

definition stop_for_session :: "int \<Rightarrow> (string \<Rightarrow> bool) \<Rightarrow> string \<Rightarrow> session_logger \<Rightarrow> session_logger" where
  "stop_for_session now updated session_id l =
     fold (stop_one now updated) (map fst (filter (\<lambda>(_, s). s = session_id) (lg_active l))) l"

definition stop_all_recordings :: "int \<Rightarrow> (string \<Rightarrow> bool) \<Rightarrow> session_logger \<Rightarrow> session_logger" where
  "stop_all_recordings now updated l =
     l\<lparr>lg_active := [], lg_rows := fold (\<lambda>(i, _). if updated i then update_ended i now else id) (lg_active l) (lg_rows l)\<rparr>"

section \<open>Closing a session's services\<close>

lemma fold_delete: "fold AList.delete ids xs = filter (\<lambda>(k, _). k \<notin> set ids) xs"
  by (induction ids arbitrary: xs) (auto simp: AList.delete_eq filter_filter intro!: filter_cong)

lemma stop_all_for_session_eq:
  assumes "distinct (map fst ts)"
  shows "stop_all_for_session session_id ts = filter (\<lambda>(_, h). th_session_id h \<noteq> session_id) ts"
  unfolding stop_all_for_session_def fold_delete
  by (rule filter_cong) (auto simp: image_iff dest: eq_key_imp_eq_value [OF assms])

lemma update_ended_same [simp]: "length (update_ended i now rows) = length rows"
  by (simp add: update_ended_def)

lemma fold_stop_one_active:
  "lg_active (fold (stop_one now updated) ids l) = filter (\<lambda>(k, _). k \<notin> set ids) (lg_active l)"
proof (induction ids arbitrary: l)
  case (Cons i ids)
  have "lg_active (stop_one now updated i l) = AList.delete i (lg_active l)"
    by (cases "map_of (lg_active l) i")
      (auto simp: stop_one_def AList.delete_eq map_of_eq_None_iff image_iff split_beta' intro!: filter_True [symmetric])
  with Cons show ?case by (auto simp: AList.delete_eq filter_filter intro!: filter_cong)
qed (simp add: case_prod_beta')

lemma stop_for_session_active:
  assumes "distinct (map fst (lg_active l))"
  shows "lg_active (stop_for_session now updated session_id l) = filter (\<lambda>(_, s). s \<noteq> session_id) (lg_active l)"
  unfolding stop_for_session_def fold_stop_one_active
  by (rule filter_cong) (auto simp: image_iff dest: eq_key_imp_eq_value [OF assms])

end
