(* ===== verification/Sessions.thy ===== *)
theory Sessions
  imports Ssh_Client Session_Services Sync_Store
begin

text \<open>
  Sessions and their manager, \<^verbatim>\<open>src-tauri/src/session/session.rs\<close> and \<^verbatim>\<open>session/manager.rs\<close>: connecting
  directly or through a jump host, the state of a session, resolving references, closing sessions with their
  tunnels and recordings, and reaping idle ones.  The world of an operation is the session (or the manager)
  and the calls made on the SSH library so far.  The tasks that pass bytes between the channels are not
  modelled; \<open>now\<close> is the clock in milliseconds.
\<close>

section \<open>A session\<close>

datatype session_state = Connecting | Connected | Disconnected | SessionError

record session =
  sn_id :: string
  sn_server_id :: string
  sn_server_name :: string
  sn_state :: session_state
  sn_created_at :: int
  sn_ssh_client :: "ssh_client option"
  sn_output_replay :: replay_buffer
  sn_output_forwarder_started :: bool
  sn_client_count :: nat
  sn_last_activity :: nat

record session_info =
  si_id :: string
  si_server_id :: string
  si_server_name :: string
  si_state :: session_state
  si_created_at :: int
  si_clients :: nat

type_synonym 'a on_session = "(session \<times> ssh_log, 'a) io"

definition new_session :: "string \<Rightarrow> int \<Rightarrow> nat \<Rightarrow> string \<Rightarrow> string \<Rightarrow> session" where
  "new_session uuid created_at now server_id server_name =
     \<lparr>sn_id = uuid, sn_server_id = server_id, sn_server_name = server_name, sn_state = Connecting,
      sn_created_at = created_at, sn_ssh_client = None, sn_output_replay = empty_replay,
      sn_output_forwarder_started = False, sn_client_count = 0, sn_last_activity = now\<rparr>"

definition mark_activity :: "nat \<Rightarrow> session \<Rightarrow> session" where
  "mark_activity now s = s\<lparr>sn_last_activity := now\<rparr>"

definition idle_for :: "nat \<Rightarrow> session \<Rightarrow> nat" where
  "idle_for now s = now - sn_last_activity s"

definition should_reap :: "nat \<Rightarrow> nat \<Rightarrow> session \<Rightarrow> bool" where
  "should_reap now max_idle s \<longleftrightarrow> sn_client_count s = 0 \<and> max_idle \<le> idle_for now s"

definition set_ssh_client :: "ssh_client \<Rightarrow> session \<Rightarrow> session" where
  "set_ssh_client c s = s\<lparr>sn_ssh_client := Some c\<rparr>"

definition set_state :: "session_state \<Rightarrow> session \<Rightarrow> session" where
  "set_state state s = s\<lparr>sn_state := state\<rparr>"

definition replay_output :: "session \<Rightarrow> string list" where
  "replay_output s = snapshot (sn_output_replay s)"

definition publish_output :: "nat \<Rightarrow> string \<Rightarrow> session \<Rightarrow> session" where
  "publish_output now data s = mark_activity now (s\<lparr>sn_output_replay := push data (sn_output_replay s)\<rparr>)"

definition try_start_output_forwarder :: "session \<Rightarrow> session \<times> bool" where
  "try_start_output_forwarder s =
     (if sn_output_forwarder_started s then (s, False) else (s\<lparr>sn_output_forwarder_started := True\<rparr>, True))"

definition attach :: "nat \<Rightarrow> session \<Rightarrow> session" where
  "attach now s = mark_activity now (s\<lparr>sn_client_count := sn_client_count s + 1\<rparr>)"

definition detach :: "nat \<Rightarrow> session \<Rightarrow> session" where
  "detach now s =
     mark_activity now (if 0 < sn_client_count s then s\<lparr>sn_client_count := sn_client_count s - 1\<rparr> else s)"

definition with_ssh_client :: "'a ssh \<Rightarrow> 'a on_session" where
  "with_ssh_client m w =
     (case w of (s, h) \<Rightarrow>
       case sn_ssh_client s of
         None \<Rightarrow> ((s, h), Inl ''SSH client not connected'')
       | Some c \<Rightarrow> (case m (c, h) of ((c, h), r) \<Rightarrow> ((s\<lparr>sn_ssh_client := Some c\<rparr>, h), r)))"

definition update_session :: "(session \<Rightarrow> session) \<Rightarrow> unit on_session" where
  "update_session f w = (case w of (s, h) \<Rightarrow> ((f s, h), Inr ()))"

definition get_state :: "ssh_peer \<Rightarrow> session_state on_session" where
  "get_state peer w =
     (if sn_state (fst w) = Connected \<and> sn_ssh_client (fst w) \<noteq> None
      then sbind (with_ssh_client (is_shell_open peer)) (\<lambda>shell_open.
             sreturn (if shell_open then Connected else Disconnected)) w
      else (w, Inr (sn_state (fst w))))"

definition get_info :: "ssh_peer \<Rightarrow> session_info on_session" where
  "get_info peer w =
     sbind (get_state peer) (\<lambda>state w.
       (w, Inr \<lparr>si_id = sn_id (fst w), si_server_id = sn_server_id (fst w), si_server_name = sn_server_name (fst w),
          si_state = state, si_created_at = sn_created_at (fst w), si_clients = sn_client_count (fst w)\<rparr>)) w"

definition write_to_ssh :: "ssh_peer \<Rightarrow> nat \<Rightarrow> string \<Rightarrow> unit on_session" where
  "write_to_ssh peer now data =
     sbind (with_ssh_client (send_data peer data)) (\<lambda>_. update_session (mark_activity now))"

definition resize_session_pty :: "ssh_peer \<Rightarrow> nat \<Rightarrow> nat \<Rightarrow> nat \<Rightarrow> unit on_session" where
  "resize_session_pty peer now cols rows =
     sbind (with_ssh_client (resize_pty peer cols rows)) (\<lambda>_. update_session (mark_activity now))"

definition disconnect_session :: "ssh_peer \<Rightarrow> unit on_session" where
  "disconnect_session peer w =
     (case w of (s, h) \<Rightarrow>
       let s' = set_state Disconnected (s\<lparr>sn_ssh_client := None\<rparr>) in
       case sn_ssh_client s of
         None \<Rightarrow> ((s', h), Inr ())
       | Some c \<Rightarrow> (case disconnect peer (c, h) of ((_, h), r) \<Rightarrow> ((s', h), r)))"

text \<open>A failed command marks the session only when the connection itself is gone.\<close>

definition note_failure :: "ssh_peer \<Rightarrow> string \<Rightarrow> 'a on_session" where
  "note_failure peer e =
     sbind (with_ssh_client (is_connected peer)) (\<lambda>connected.
     sbind (if connected then sreturn () else update_session (set_state SessionError)) (\<lambda>_. sfail e))"

definition exec_command_in_session ::
    "ssh_peer \<Rightarrow> (string \<Rightarrow> string) \<Rightarrow> nat \<Rightarrow> string \<Rightarrow> string option \<Rightarrow> (nat \<times> nat \<times> wait_event) list \<Rightarrow> string option on_session" where
  "exec_command_in_session peer lossy now command stdin_data events w =
     (if sn_ssh_client (fst w) = None then (w, Inl ''SSH client not connected'')
      else
        sbind (stry (with_ssh_client (exec_command_with_stdin peer lossy command stdin_data events))) (\<lambda>result.
        case result of
          Inr r \<Rightarrow> sbind (update_session (mark_activity now)) (\<lambda>_. sreturn r)
        | Inl e \<Rightarrow> note_failure peer e) w)"

definition exec_quick_command ::
    "ssh_peer \<Rightarrow> (string \<Rightarrow> string) \<Rightarrow> nat \<Rightarrow> string \<Rightarrow> (nat \<times> nat \<times> wait_event) list \<Rightarrow> command_result option on_session" where
  "exec_quick_command peer lossy now command events w =
     (if sn_ssh_client (fst w) = None then (w, Inl ''SSH client not connected'')
      else
        sbind (stry (with_ssh_client (exec_command_result_with_limits peer lossy command None 10000 (1024 * 1024) events))) (\<lambda>result.
        sbind (update_session (mark_activity now)) (\<lambda>_.
        case result of
          Inr r \<Rightarrow> sreturn r
        | Inl e \<Rightarrow> note_failure peer e)) w)"

definition open_sftp_in_session :: "ssh_peer \<Rightarrow> nat on_session" where
  "open_sftp_in_session peer w =
     (if sn_ssh_client (fst w) = None then (w, Inl ''SSH client not connected'')
      else
        sbind (stry (with_ssh_client (open_sftp_session peer))) (\<lambda>result.
        case result of Inr sftp \<Rightarrow> sreturn sftp | Inl e \<Rightarrow> note_failure peer e) w)"

section \<open>Credentials\<close>

record stored_credential =
  cd_server_name :: string
  cd_auth_type :: string
  cd_credential :: string
  cd_passphrase :: "string option"
  cd_key_path :: "string option"

datatype ssh_credential = Password string | PrivateKey string "string option"

text \<open>\<open>sx_store\<close> is the opening of the trust store, \<open>sx_credential\<close> the lookup of a saved credential by
  server name, decrypted.\<close>

record session_env =
  sx_ssh :: ssh_env
  sx_store :: "string + unit"
  sx_credential :: "string \<Rightarrow> string + stored_credential option"
  sx_read_file :: "string \<Rightarrow> string + string"

definition from_stored :: "session_env \<Rightarrow> stored_credential \<Rightarrow> string + ssh_credential" where
  "from_stored env credential =
     (if cd_auth_type credential = ''password'' then Inr (Password (cd_credential credential))
      else if cd_auth_type credential = ''key'' \<or> cd_auth_type credential = ''key_with_passphrase'' then
        rbind (if trim (cd_credential credential) = [] then
                 rbind (ok_or (cd_key_path credential)
                          (''Private-key credential for '' @ cd_server_name credential @ '' has neither key data nor a key path''))
                   (sx_read_file env)
               else Inr (cd_credential credential)) (\<lambda>key.
        Inr (PrivateKey key (nonempty_passphrase (cd_passphrase credential))))
      else Inl (''Unknown auth type '' @ cd_auth_type credential @ '' for server '' @ cd_server_name credential))"

section \<open>Connecting\<close>

definition run_client :: "ssh_client \<Rightarrow> 'a ssh \<Rightarrow> (ssh_log, ssh_client \<times> 'a) io" where
  "run_client c m h = (case m (c, h) of ((c', h'), r) \<Rightarrow> (h', map_sum id (Pair c') r))"

definition log_call :: "(ssh_log \<Rightarrow> string + 'a) \<Rightarrow> ssh_request \<Rightarrow> (ssh_log, 'a) io" where
  "log_call answer q = ask answer q"

definition connect_with :: "ssh_env \<Rightarrow> ssh_peer \<Rightarrow> string \<Rightarrow> 16 word \<Rightarrow> string \<Rightarrow> ssh_credential \<Rightarrow> unit ssh" where
  "connect_with env peer host port username credential =
     (case credential of
        Password password \<Rightarrow> connect_password env peer host port username password
      | PrivateKey key passphrase \<Rightarrow> connect_key env peer host port username key passphrase)"

text \<open>A client that verifies host keys for the server, connected at \<open>host\<close> and \<open>port\<close>.\<close>

definition verified_client :: "session_env \<Rightarrow> server_row \<Rightarrow> string + ssh_client" where
  "verified_client env server =
     rbind (sx_store env) (\<lambda>_. Inr (set_host_key_check (sr_host server) (sr_port server) new_client))"

definition connect_target ::
    "session_env \<Rightarrow> ssh_peer \<Rightarrow> string \<Rightarrow> 16 word \<Rightarrow> server_row \<Rightarrow> ssh_credential \<Rightarrow> pty_config option \<Rightarrow>
     (ssh_log, ssh_client) io" where
  "connect_target env peer host port server credential pty =
     sbind (slift (verified_client env server)) (\<lambda>ssh.
     sbind (run_client ssh (
       sbind (connect_with (sx_ssh env) peer host port (sr_username server) credential) (\<lambda>_. open_shell peer pty))) (\<lambda>(ssh, _).
     sreturn ssh))"

definition server_get :: "sync_db \<Rightarrow> string \<Rightarrow> server_row option" where
  "server_get db i = map_of (db_servers db) i"

definition server_get_by_name :: "sync_db \<Rightarrow> string \<Rightarrow> (string \<times> server_row) option" where
  "server_get_by_name db name = List.find (\<lambda>(_, r). sr_name r = name) (db_servers db)"

text \<open>The jump host: connect to it, open a channel to the target, and bridge a local port to the channel.\<close>

definition open_jump_bridge ::
    "session_env \<Rightarrow> ssh_peer \<Rightarrow> sync_db \<Rightarrow> server_row \<Rightarrow> string \<Rightarrow> (ssh_log, 16 word) io" where
  "open_jump_bridge env peer db server jump_id =
     sbind (slift (ok_or (server_get db jump_id) (''Jump host server not found: '' @ jump_id))) (\<lambda>jump_server.
     sbind (slift (rbind (sx_credential env (sr_name jump_server)) (\<lambda>c.
              ok_or c (''No saved credentials for jump host '' @ sr_name jump_server)))) (\<lambda>jump_cred.
     sbind (slift (verified_client env jump_server)) (\<lambda>jump_ssh.
     sbind (slift (from_stored env jump_cred)) (\<lambda>credential.
     sbind (run_client jump_ssh (
       connect_with (sx_ssh env) peer (sr_host jump_server) (sr_port jump_server) (sr_username jump_server) credential))
       (\<lambda>(jump_ssh, _).
     sbind (slift (ok_or (sc_session jump_ssh) ''Jump host SSH session not available'')) (\<lambda>handle.
     sbind (log_call (pr_done peer) (DirectTcpip handle (sr_host server) (unat (sr_port server)))) (\<lambda>_.
     log_call (pr_bridge peer) BindBridge)))))))"

text \<open>The guard aborts the bridge unless the session is set up.\<close>

definition connect_server ::
    "session_env \<Rightarrow> ssh_peer \<Rightarrow> sync_db \<Rightarrow> server_row \<Rightarrow> ssh_credential \<Rightarrow> pty_config option \<Rightarrow> (ssh_log, ssh_client) io" where
  "connect_server env peer db server credential pty =
     (case sr_jump_host_id server of
        Some jump_id \<Rightarrow>
          sbind (open_jump_bridge env peer db server jump_id) (\<lambda>bridge_port.
          sbind (stry (connect_target env peer ''127.0.0.1'' bridge_port server credential pty)) (\<lambda>connected.
          case connected of
            Inl e \<Rightarrow> sbind (log_call (\<lambda>_. Inr ()) (AbortBridge bridge_port)) (\<lambda>_. sfail e)
          | Inr ssh \<Rightarrow> sreturn ssh))
      | None \<Rightarrow> connect_target env peer (sr_host server) (sr_port server) server credential pty)"

section \<open>The manager\<close>

record session_manager =
  sm_sessions :: "(string \<times> session) list"
  sm_database :: sync_db
  sm_tunnels :: "tunnels option"
  sm_logger :: "session_logger option"

type_synonym 'a managing = "(session_manager \<times> ssh_log, 'a) io"

definition run_lifecycle_cleanup :: "int \<Rightarrow> (string \<Rightarrow> bool) \<Rightarrow> string \<Rightarrow> session_manager \<Rightarrow> session_manager" where
  "run_lifecycle_cleanup now updated session_id m =
     m\<lparr>sm_tunnels := map_option (stop_all_for_session session_id) (sm_tunnels m),
       sm_logger := map_option (stop_for_session now updated session_id) (sm_logger m)\<rparr>"

fun list_infos :: "ssh_peer \<Rightarrow> session list \<Rightarrow> (ssh_log, session_info list) io" where
  "list_infos peer [] = sreturn []"
| "list_infos peer (s # ss) =
     sbind (\<lambda>h. case get_info peer (s, h) of ((_, h), r) \<Rightarrow> (h, r)) (\<lambda>info.
     sbind (list_infos peer ss) (\<lambda>infos. sreturn (info # infos)))"

definition list_sessions :: "ssh_peer \<Rightarrow> session_manager \<Rightarrow> (ssh_log, session_info list) io" where
  "list_sessions peer m = list_infos peer (map snd (sm_sessions m))"

definition get_session :: "string \<Rightarrow> session_manager \<Rightarrow> session option" where
  "get_session i m = map_of (sm_sessions m) i"

definition resolve :: "string \<Rightarrow> session_manager \<Rightarrow> string + session" where
  "resolve i m =
     (case map_of (sm_sessions m) i of
        Some s \<Rightarrow> Inr s
      | None \<Rightarrow>
          (let needle = to_ascii_lowercase (trim i) in
           if length needle < 4 then Inl (''Session reference '' @ i @ '' is too short'')
           else
             (case filter (\<lambda>s. starts_with (to_ascii_lowercase (sn_id s)) needle) (map snd (sm_sessions m)) of
                [s] \<Rightarrow> Inr s
              | [] \<Rightarrow> Inl (''Session not found: '' @ i)
              | _ \<Rightarrow> Inl (''Ambiguous session reference: '' @ i))))"

fun collect_reusable :: "ssh_peer \<Rightarrow> string \<Rightarrow> int \<Rightarrow> session list \<Rightarrow> (ssh_log, session list) io" where
  "collect_reusable peer server_name server_updated_at [] = sreturn []"
| "collect_reusable peer server_name server_updated_at (s # ss) =
     (if sn_server_name s \<noteq> server_name \<or> sn_created_at s < server_updated_at
      then collect_reusable peer server_name server_updated_at ss
      else
        sbind (\<lambda>h. case get_state peer (s, h) of ((_, h), r) \<Rightarrow> (h, r)) (\<lambda>state.
        sbind (collect_reusable peer server_name server_updated_at ss) (\<lambda>reusable.
        sreturn (if state = Connected then s # reusable else reusable))))"

fun min_by_created :: "session list \<Rightarrow> session option" where
  "min_by_created [] = None"
| "min_by_created (s # ss) =
     (case min_by_created ss of
        None \<Rightarrow> Some s
      | Some t \<Rightarrow> Some (if sn_created_at s \<le> sn_created_at t then s else t))"

definition find_reusable_by_server_name :: "ssh_peer \<Rightarrow> string \<Rightarrow> session_manager \<Rightarrow> (ssh_log, session option) io" where
  "find_reusable_by_server_name peer server_name m =
     (let server_updated_at = (case server_get_by_name (sm_database m) server_name of
        Some (_, r) \<Rightarrow> sr_updated_at r | None \<Rightarrow> 0) in
      sbind (collect_reusable peer server_name server_updated_at (map snd (sm_sessions m))) (\<lambda>reusable.
      sreturn (min_by_created reusable)))"

definition insert_session :: "session \<Rightarrow> session_manager \<Rightarrow> session_manager" where
  "insert_session s m = m\<lparr>sm_sessions := AList.update (sn_id s) s (sm_sessions m)\<rparr>"

definition create_for_server :: "string \<Rightarrow> int \<Rightarrow> nat \<Rightarrow> string \<Rightarrow> server_row \<Rightarrow> session_manager \<Rightarrow> session_manager \<times> session" where
  "create_for_server uuid created_at now server_id server m =
     (let s = new_session uuid created_at now server_id (sr_name server) in (insert_session s m, s))"

definition create :: "string \<Rightarrow> int \<Rightarrow> nat \<Rightarrow> string \<Rightarrow> session_manager \<Rightarrow> session_manager \<times> (string + session)" where
  "create uuid created_at now server_id m =
     (case server_get (sm_database m) server_id of
        None \<Rightarrow> (m, Inl (''Server not found: '' @ server_id))
      | Some server \<Rightarrow> (case create_for_server uuid created_at now server_id server m of (m, s) \<Rightarrow> (m, Inr s)))"

definition create_by_name :: "string \<Rightarrow> int \<Rightarrow> nat \<Rightarrow> string \<Rightarrow> session_manager \<Rightarrow> session_manager \<times> (string + session)" where
  "create_by_name uuid created_at now server_name m =
     (case server_get_by_name (sm_database m) server_name of
        None \<Rightarrow> (m, Inl (''Server not found: '' @ server_name))
      | Some (server_id, server) \<Rightarrow>
          (case create_for_server uuid created_at now server_id server m of (m, s) \<Rightarrow> (m, Inr s)))"

text \<open>What the task for the post-login command writes to the shell.\<close>

definition post_login_input :: "server_row \<Rightarrow> string option" where
  "post_login_input server =
     (case sr_post_login_command server of
        Some cmd \<Rightarrow> if trim cmd = [] then None else Some (cmd @ [CHR 0x0A])
      | None \<Rightarrow> None)"

definition create_with_credentials ::
    "session_env \<Rightarrow> ssh_peer \<Rightarrow> string \<Rightarrow> int \<Rightarrow> nat \<Rightarrow> string \<Rightarrow> ssh_credential \<Rightarrow> pty_config option \<Rightarrow> session managing" where
  "create_with_credentials env peer uuid created_at now server_name credential pty w =
     (case w of (m, h) \<Rightarrow>
       case server_get_by_name (sm_database m) server_name of
         None \<Rightarrow> ((m, h), Inl (''Server not found: '' @ server_name))
       | Some (server_id, server) \<Rightarrow>
           (case connect_server env peer (sm_database m) server credential pty h of
              (h, Inl e) \<Rightarrow> ((m, h), Inl e)
            | (h, Inr ssh) \<Rightarrow>
                (let s = set_state Connected (set_ssh_client ssh (new_session uuid created_at now server_id (sr_name server)))
                 in ((insert_session s m, h), Inr s))))"

text \<open>Connecting an existing session does not go through a jump host.\<close>

definition connect_session ::
    "session_env \<Rightarrow> ssh_peer \<Rightarrow> string \<Rightarrow> ssh_credential \<Rightarrow> pty_config option \<Rightarrow> unit managing" where
  "connect_session env peer session_id credential pty w =
     (case w of (m, h) \<Rightarrow>
       case map_of (sm_sessions m) session_id of
         None \<Rightarrow> ((m, h), Inl (''Session not found: '' @ session_id))
       | Some s \<Rightarrow>
           (case server_get (sm_database m) (sn_server_id s) of
              None \<Rightarrow> ((m, h), Inl ''Server not found for session'')
            | Some server \<Rightarrow>
                (case connect_target env peer (sr_host server) (sr_port server) server credential pty h of
                   (h, Inl e) \<Rightarrow> ((m, h), Inl e)
                 | (h, Inr ssh) \<Rightarrow>
                     ((m\<lparr>sm_sessions := AList.update session_id (set_state Connected (set_ssh_client ssh s)) (sm_sessions m)\<rparr>, h),
                      Inr ()))))"

section \<open>Closing sessions\<close>

definition kill :: "ssh_peer \<Rightarrow> int \<Rightarrow> (string \<Rightarrow> bool) \<Rightarrow> string \<Rightarrow> unit managing" where
  "kill peer now updated i w =
     (case w of (m, h) \<Rightarrow>
       case map_of (sm_sessions m) i of
         None \<Rightarrow> ((m, h), Inr ())
       | Some s \<Rightarrow>
           (let m = run_lifecycle_cleanup now updated i (m\<lparr>sm_sessions := AList.delete i (sm_sessions m)\<rparr>) in
            case disconnect_session peer (s, h) of ((_, h), _) \<Rightarrow> ((m, h), Inr ())))"

fun kill_each :: "ssh_peer \<Rightarrow> int \<Rightarrow> (string \<Rightarrow> bool) \<Rightarrow> string list \<Rightarrow> unit managing" where
  "kill_each peer now updated [] = sreturn ()"
| "kill_each peer now updated (i # ids) = sbind (kill peer now updated i) (\<lambda>_. kill_each peer now updated ids)"

definition kill_by_server_id :: "ssh_peer \<Rightarrow> int \<Rightarrow> (string \<Rightarrow> bool) \<Rightarrow> string \<Rightarrow> string list managing" where
  "kill_by_server_id peer now updated server_id w =
     (let session_ids = map sn_id (filter (\<lambda>s. sn_server_id s = server_id) (map snd (sm_sessions (fst w)))) in
      sbind (kill_each peer now updated session_ids) (\<lambda>_. sreturn session_ids) w)"

definition reap_inactive_sessions :: "ssh_peer \<Rightarrow> int \<Rightarrow> nat \<Rightarrow> (string \<Rightarrow> bool) \<Rightarrow> nat \<Rightarrow> string list managing" where
  "reap_inactive_sessions peer now clock updated max_idle w =
     (let stale_ids = map sn_id (filter (should_reap clock max_idle) (map snd (sm_sessions (fst w)))) in
      sbind (kill_each peer now updated stale_ids) (\<lambda>_. sreturn stale_ids) w)"

fun close_all :: "ssh_peer \<Rightarrow> int \<Rightarrow> (string \<Rightarrow> bool) \<Rightarrow> (string \<times> session) list \<Rightarrow> unit managing" where
  "close_all peer now updated [] w = (w, Inr ())"
| "close_all peer now updated ((i, s) # ss) (m, h) =
     (let m = run_lifecycle_cleanup now updated i m in
      case disconnect_session peer (s, h) of ((_, h), _) \<Rightarrow> close_all peer now updated ss (m, h))"

definition kill_all :: "ssh_peer \<Rightarrow> int \<Rightarrow> (string \<Rightarrow> bool) \<Rightarrow> unit managing" where
  "kill_all peer now updated w =
     (case w of (m, h) \<Rightarrow> close_all peer now updated (sm_sessions m) (m\<lparr>sm_sessions := []\<rparr>, h))"

end
