(* ===== verification/Database.thy ===== *)
theory Database
  imports Sync_Local Sessions
begin

text \<open>
  The tables of the application, \<^verbatim>\<open>src-tauri/src/storage/database.rs\<close>: the operations of the user on the
  synchronised tables of \<open>Sync_Store\<close>, the credentials with their encryption and its introduction in old
  databases, and the tables that stay on the device.  A table is a list of rows in the order of their
  insertion, a transaction a function to an error or the new tables.  The credentials are the join of
  \<open>db_credentials\<close>, from the server's name to the row's identifier, and \<open>dt_secrets\<close>, from the
  identifier to the other columns.  Foreign keys are enforced, as the connection is set up.
\<close>

section \<open>Tables\<close>

record server =
  se_id :: string
  se_name :: string
  se_host :: string
  se_port :: "16 word"
  se_username :: string
  se_auth_type :: auth_type
  se_credential_id :: "string option"
  se_group_id :: "string option"
  se_tags :: "string list"
  se_created_at :: int
  se_updated_at :: int
  se_jump_host_id :: "string option"
  se_post_login_command :: "string option"
  se_agent_forwarding :: bool

record credential_row =
  cw_auth_type :: string
  cw_credential :: string
  cw_passphrase :: "string option"
  cw_key_path :: "string option"
  cw_created_at :: int

record credential_update =
  cu_credential :: "string option"
  cu_passphrase :: "string option"
  cu_key_path :: "string option"

record history_entry =
  he_id :: string
  he_server_id :: string
  he_command :: string
  he_is_favorite :: bool
  he_use_count :: int
  he_last_used_at :: int
  he_created_at :: int

datatype sync_status = SyncLocal | Syncing | Synced

record recording_row =
  rr_id :: string
  rr_session_id :: string
  rr_server_id :: string
  rr_started_at :: int
  rr_ended_at :: "int option"
  rr_file_path :: string
  rr_sync_status :: sync_status

record database_connection =
  dc_id :: string
  dc_name :: string
  dc_engine :: string
  dc_host :: string
  dc_port :: "16 word"
  dc_username :: string
  dc_password_encrypted :: string
  dc_default_database :: "string option"
  dc_created_at :: int
  dc_updated_at :: int
  dc_last_connected_at :: "int option"

record database =
  dt_sync :: sync_db
  dt_secrets :: "(string \<times> credential_row) list"
  dt_tunnels :: "tunnel_config list"
  dt_history :: "history_entry list"
  dt_recordings :: "recording_row list"
  dt_activity :: "(int \<times> string) list"
  dt_settings :: "(string \<times> string) list"
  dt_connections :: "database_connection list"

datatype db_error = SyncFailed sync_error | Refused string

text \<open>What one operation takes from outside: the clock, a fresh identifier, the device's cipher (which may be
  unavailable) with the encoding in base64, the check of a private key, and the codec of the audit events.\<close>

record 'v database_env =
  de_sync :: "'v sync_env"
  de_now :: int
  de_uuid :: string
  de_device :: "string + unit"
  de_encrypt :: "string \<Rightarrow> string + string"
  de_decrypt :: "string \<Rightarrow> string + string"
  de_key_valid :: "string \<Rightarrow> string option \<Rightarrow> bool"

definition lift_sync :: "sync_error + 'a \<Rightarrow> db_error + 'a" where
  "lift_sync r = map_sum SyncFailed id r"

section \<open>Servers\<close>

text \<open>A stored \<open>key\<close> is read as a key that may have a passphrase.\<close>

definition row_auth_type :: "string \<Rightarrow> auth_type" where
  "row_auth_type s =
     (if s = ''password'' then auth_type.Password
      else if s = ''key'' \<or> s = ''key_with_passphrase'' then KeyWithPassphrase
      else auth_type.Password)"

definition row_to_server :: "string \<times> server_row \<Rightarrow> server" where
  "row_to_server row =
     (case row of (i, r) \<Rightarrow>
       \<lparr>se_id = i, se_name = sr_name r, se_host = sr_host r, se_port = sr_port r, se_username = sr_username r,
        se_auth_type = row_auth_type (sr_auth_type r), se_credential_id = sr_credential_id r, se_group_id = sr_group_id r,
        se_tags = sr_tags r, se_created_at = sr_created_at r, se_updated_at = sr_updated_at r,
        se_jump_host_id = sr_jump_host_id r, se_post_login_command = sr_post_login_command r,
        se_agent_forwarding = sr_agent_forwarding r\<rparr>)"

definition row_of_server :: "server \<Rightarrow> server_row" where
  "row_of_server s =
     \<lparr>sr_name = se_name s, sr_host = se_host s, sr_port = se_port s, sr_username = se_username s,
      sr_auth_type = auth_type_to_string (se_auth_type s), sr_credential_id = se_credential_id s,
      sr_group_id = se_group_id s, sr_tags = se_tags s, sr_created_at = se_created_at s, sr_updated_at = se_updated_at s,
      sr_jump_host_id = se_jump_host_id s, sr_post_login_command = se_post_login_command s,
      sr_agent_forwarding = se_agent_forwarding s\<rparr>"

text \<open>The payload of a server, with the times it is recorded with.\<close>

definition server_payload :: "server \<Rightarrow> int \<Rightarrow> int \<Rightarrow> server_sync_payload" where
  "server_payload s created_at updated_at =
     \<lparr>sp_name = se_name s, sp_host = se_host s, sp_port = se_port s, sp_username = se_username s,
      sp_auth_type = se_auth_type s, sp_group_id = se_group_id s, sp_tags = se_tags s, sp_created_at = created_at,
      sp_updated_at = updated_at, sp_jump_host_id = se_jump_host_id s,
      sp_post_login_command = se_post_login_command s, sp_agent_forwarding = se_agent_forwarding s\<rparr>"

definition server_list :: "string option \<Rightarrow> string list option \<Rightarrow> sync_db \<Rightarrow> server list" where
  "server_list group_id tag_filter db =
     (let servers = map row_to_server
            (filter (\<lambda>(_, r). case group_id of Some g \<Rightarrow> sr_group_id r = Some g | None \<Rightarrow> True) (db_servers db)) in
      case tag_filter of
        None \<Rightarrow> servers
      | Some wanted \<Rightarrow> filter (\<lambda>s. list_ex (\<lambda>t. List.member (se_tags s) t) wanted) servers)"

definition server_find :: "string \<Rightarrow> sync_db \<Rightarrow> server option" where
  "server_find i db = map_option (\<lambda>r. row_to_server (i, r)) (map_of (db_servers db) i)"

definition server_find_by_name :: "string \<Rightarrow> sync_db \<Rightarrow> server option" where
  "server_find_by_name name db = map_option row_to_server (List.find (\<lambda>(_, r). sr_name r = name) (db_servers db))"

definition name_taken :: "string \<Rightarrow> string \<Rightarrow> sync_db \<Rightarrow> bool" where
  "name_taken i name db \<longleftrightarrow> list_ex (\<lambda>(j, r). j \<noteq> i \<and> sr_name r = name) (db_servers db)"

definition server_add :: "'v database_env \<Rightarrow> server \<Rightarrow> sync_db \<Rightarrow> db_error + server \<times> sync_db" where
  "server_add env s db =
     (let s = s\<lparr>se_id := (if se_id s = [] then de_uuid env else se_id s), se_created_at := de_now env, se_updated_at := de_now env\<rparr>;
          i = se_id s in
      if map_of (db_servers db) i \<noteq> None then Inl (SyncFailed PrimaryKeyViolation)
      else if name_taken i (se_name s) db then Inl (SyncFailed UniqueNameViolation)
      else
        rbind (lift_sync (record_server_upsert (de_sync env) i (server_payload s (se_created_at s) (se_updated_at s))
                (db\<lparr>db_servers := db_servers db @ [(i, row_of_server s)]\<rparr>))) (\<lambda>db'.
        Inr (s, db')))"

section \<open>Credentials\<close>

definition enc_prefix :: string where "enc_prefix = ''enc:v1:''"

definition encrypt_credential_value :: "'v database_env \<Rightarrow> string \<Rightarrow> db_error + string" where
  "encrypt_credential_value env v =
     (if v = [] then Inr []
      else rbind (map_sum Refused id (de_device env)) (\<lambda>_.
           rbind (map_sum Refused id (de_encrypt env v)) (\<lambda>c. Inr (enc_prefix @ c))))"

definition decrypt_credential_value :: "'v database_env \<Rightarrow> string \<Rightarrow> db_error + string" where
  "decrypt_credential_value env stored =
     (case strip_prefix enc_prefix stored of
        None \<Rightarrow> Inr stored
      | Some encoded \<Rightarrow>
          rbind (map_sum Refused id (de_device env)) (\<lambda>_.
          rbind (map_sum (\<lambda>_. Refused ''Stored credential could not be decrypted on this device'') id (de_decrypt env encoded)) (\<lambda>plain.
          ok_or (from_utf8 plain) (Refused ''Stored credential is not valid UTF-8''))))"

definition on_option :: "('a \<Rightarrow> 'e + 'b) \<Rightarrow> 'a option \<Rightarrow> 'e + 'b option" where
  "on_option f x = (case x of None \<Rightarrow> Inr None | Some a \<Rightarrow> rbind (f a) (\<lambda>b. Inr (Some b)))"

definition credential_names :: "database \<Rightarrow> (string \<times> string) list" where
  "credential_names db = (case db_credentials (dt_sync db) of None \<Rightarrow> [] | Some t \<Rightarrow> t)"

definition with_names :: "(string \<times> string) list \<Rightarrow> database \<Rightarrow> database" where
  "with_names t db = db\<lparr>dt_sync := (dt_sync db)\<lparr>db_credentials := Some t\<rparr>\<rparr>"

definition credential_row_of :: "string \<Rightarrow> database \<Rightarrow> credential_row option" where
  "credential_row_of name db = Option.bind (map_of (credential_names db) name) (map_of (dt_secrets db))"

definition credential_save ::
    "'v database_env \<Rightarrow> string \<Rightarrow> string \<Rightarrow> string \<Rightarrow> string option \<Rightarrow> string option \<Rightarrow> database \<Rightarrow> db_error + string \<times> database" where
  "credential_save env name auth_type credential passphrase key_path db =
     (let db = with_names (credential_names db) db in
      rbind (encrypt_credential_value env credential) (\<lambda>stored_credential.
      rbind (on_option (encrypt_credential_value env) passphrase) (\<lambda>stored_passphrase.
      case map_of (credential_names db) name of
        Some i \<Rightarrow>
          Inr (i, db\<lparr>dt_secrets := AList.map_entry i (\<lambda>r. r\<lparr>cw_auth_type := auth_type, cw_credential := stored_credential,
                     cw_passphrase := stored_passphrase, cw_key_path := key_path\<rparr>) (dt_secrets db)\<rparr>)
      | None \<Rightarrow>
          (let i = de_uuid env in
           if map_of (dt_secrets db) i \<noteq> None then Inl (SyncFailed PrimaryKeyViolation)
           else
             Inr (i, with_names (credential_names db @ [(name, i)])
               (db\<lparr>dt_secrets := dt_secrets db @ [(i, \<lparr>cw_auth_type = auth_type, cw_credential = stored_credential,
                     cw_passphrase = stored_passphrase, cw_key_path = key_path, cw_created_at = de_now env\<rparr>)]\<rparr>))))))"

definition credential_get :: "'v database_env \<Rightarrow> string \<Rightarrow> database \<Rightarrow> db_error + stored_credential option" where
  "credential_get env name db =
     (case credential_row_of name db of
        None \<Rightarrow> Inr None
      | Some r \<Rightarrow>
          rbind (decrypt_credential_value env (cw_credential r)) (\<lambda>credential.
          rbind (on_option (decrypt_credential_value env) (cw_passphrase r)) (\<lambda>passphrase.
          Inr (Some \<lparr>cd_server_name = name, cd_auth_type = cw_auth_type r, cd_credential = credential,
                     cd_passphrase = passphrase, cd_key_path = cw_key_path r\<rparr>))))"

definition credential_delete :: "string \<Rightarrow> database \<Rightarrow> database" where
  "credential_delete name db =
     (let db = with_names (credential_names db) db in
      case map_of (credential_names db) name of
        None \<Rightarrow> db
      | Some i \<Rightarrow> with_names (filter (\<lambda>(n, _). n \<noteq> name) (credential_names db)) (db\<lparr>dt_secrets := AList.delete i (dt_secrets db)\<rparr>))"

definition rename_key :: "string \<Rightarrow> string \<Rightarrow> (string \<times> string) list \<Rightarrow> (string \<times> string) list" where
  "rename_key old_name new_name t = map (\<lambda>(n, i). (if n = old_name then new_name else n, i)) t"

definition credential_rename_server :: "string \<Rightarrow> string \<Rightarrow> database \<Rightarrow> database" where
  "credential_rename_server old_name new_name db =
     (let db = credential_delete new_name db in with_names (rename_key old_name new_name (credential_names db)) db)"


section \<open>Changing a server\<close>

text \<open>The secret, the passphrase and the key path after an edit: what is not given is kept, unless the kind of
  authentication has changed.\<close>

definition patched_credential ::
    "'v database_env \<Rightarrow> bool \<Rightarrow> credential_row option \<Rightarrow> credential_update \<Rightarrow>
     db_error + string \<times> string option \<times> string option" where
  "patched_credential env same_auth_family previous patch =
     (let (old_secret, old_phrase, old_path) =
        (case (same_auth_family, previous) of
           (True, Some r) \<Rightarrow> (cw_credential r, cw_passphrase r, cw_key_path r)
         | _ \<Rightarrow> ([], None, None)) in
      rbind (case cu_credential patch of Some v \<Rightarrow> Inr v | None \<Rightarrow> decrypt_credential_value env old_secret) (\<lambda>secret.
      rbind (case cu_passphrase patch of
               Some v \<Rightarrow> Inr (Some v)
             | None \<Rightarrow> on_option (decrypt_credential_value env) old_phrase) (\<lambda>phrase.
      Inr (secret, Option.bind phrase (\<lambda>v. if v = [] then None else Some v),
           Option.bind (case cu_key_path patch of Some p \<Rightarrow> Some p | None \<Rightarrow> old_path) (\<lambda>v. if v = [] then None else Some v)))))"

definition check_credential :: "'v database_env \<Rightarrow> bool \<Rightarrow> string \<times> string option \<times> string option \<Rightarrow> db_error + unit" where
  "check_credential env is_password c =
     (case c of (secret, phrase, key_path) \<Rightarrow>
        if is_password then
          ensure (secret \<noteq> []) (Refused ''A non-empty password is required; existing credentials were not changed'')
        else
          rbind (ensure (\<not> (trim secret = [] \<and> key_path = None)) (Refused ''A private key or key path is required'')) (\<lambda>_.
          ensure (trim secret = [] \<or> de_key_valid env secret phrase)
            (Refused ''Private key or passphrase is invalid; existing credentials were not changed'')))"

definition store_credential ::
    "'v database_env \<Rightarrow> string \<Rightarrow> auth_type \<Rightarrow> string \<times> string option \<times> string option \<Rightarrow> database \<Rightarrow> db_error + database" where
  "store_credential env name auth c db =
     (case c of (secret, phrase, key_path) \<Rightarrow>
        let is_password = (auth = auth_type.Password) in
        rbind (encrypt_credential_value env secret) (\<lambda>encrypted.
        rbind (if is_password then Inr None else on_option (encrypt_credential_value env) phrase) (\<lambda>encrypted_phrase.
        let key_path = (if is_password then None else key_path); names = credential_names db in
        case map_of names name of
          Some i \<Rightarrow>
            Inr (db\<lparr>dt_secrets := AList.map_entry i (\<lambda>r. r\<lparr>cw_auth_type := auth_type_to_string auth, cw_credential := encrypted,
                    cw_passphrase := encrypted_phrase, cw_key_path := key_path\<rparr>) (dt_secrets db)\<rparr>)
        | None \<Rightarrow>
            if map_of (dt_secrets db) (de_uuid env) \<noteq> None then Inl (SyncFailed PrimaryKeyViolation)
            else
              Inr (with_names (names @ [(name, de_uuid env)])
                (db\<lparr>dt_secrets := dt_secrets db @ [(de_uuid env, \<lparr>cw_auth_type = auth_type_to_string auth,
                      cw_credential = encrypted, cw_passphrase = encrypted_phrase, cw_key_path = key_path,
                      cw_created_at = de_now env\<rparr>)]\<rparr>)))))"

definition update_credential ::
    "'v database_env \<Rightarrow> server \<Rightarrow> bool \<Rightarrow> credential_update \<Rightarrow> database \<Rightarrow> db_error + database" where
  "update_credential env s same_auth_family patch db =
     rbind (patched_credential env same_auth_family (credential_row_of (se_name s) db) patch) (\<lambda>c.
     rbind (check_credential env (se_auth_type s = auth_type.Password) c) (\<lambda>_.
     store_credential env (se_name s) (se_auth_type s) c db))"

definition write_server :: "'v database_env \<Rightarrow> server \<Rightarrow> sync_db \<Rightarrow> db_error + sync_db" where
  "write_server env s db =
     (case map_of (db_servers db) (se_id s) of
        None \<Rightarrow> Inr db
      | Some old \<Rightarrow>
          if name_taken (se_id s) (se_name s) db then Inl (SyncFailed UniqueNameViolation)
          else
            lift_sync (record_server_upsert (de_sync env) (se_id s) (server_payload s (se_created_at s) (de_now env))
              (db\<lparr>db_servers := AList.update (se_id s)
                 ((row_of_server s)\<lparr>sr_created_at := sr_created_at old, sr_updated_at := de_now env\<rparr>) (db_servers db)\<rparr>)))"

definition server_update_with_credentials ::
    "'v database_env \<Rightarrow> server \<Rightarrow> credential_update option \<Rightarrow> database \<Rightarrow> db_error + database" where
  "server_update_with_credentials env s patch db =
     rbind (ok_or (map_of (db_servers (dt_sync db)) (se_id s)) (Refused ''Query returned no rows'')) (\<lambda>old.
     let same_auth_family = ((sr_auth_type old = ''password'') = (auth_type_to_string (se_auth_type s) = ''password'')) in
     rbind (ensure (\<not> (\<not> same_auth_family \<and> patch = None))
       (Refused ''Changing authentication requires a new password or private key; existing credentials were not changed'')) (\<lambda>_.
     rbind (if sr_name old \<noteq> se_name s
            then lift_sync (move_server_credential_key (sr_name old) (se_name s) (dt_sync db)) else Inr (dt_sync db)) (\<lambda>moved.
     let db1 = db\<lparr>dt_sync := moved\<rparr> in
     rbind (case patch of None \<Rightarrow> Inr db1 | Some u \<Rightarrow> update_credential env s same_auth_family u db1) (\<lambda>db2.
     rbind (write_server env s (dt_sync db2)) (\<lambda>written. Inr (db2\<lparr>dt_sync := written\<rparr>))))))"

definition server_update :: "'v database_env \<Rightarrow> server \<Rightarrow> database \<Rightarrow> db_error + database" where
  "server_update env s db = server_update_with_credentials env s None db"

text \<open>The foreign keys take the tunnels and the history of the server with it.\<close>

definition server_delete :: "'v database_env \<Rightarrow> string \<Rightarrow> database \<Rightarrow> db_error + database" where
  "server_delete env i db =
     rbind (lift_sync (detach_server_references (de_sync env) i True (dt_sync db))) (\<lambda>detached.
     rbind (lift_sync (record_local_delete (de_sync env) Server i
              (detached\<lparr>db_servers := AList.delete i (db_servers detached)\<rparr>))) (\<lambda>recorded.
     Inr (db\<lparr>dt_sync := recorded, dt_tunnels := filter (\<lambda>c. tc_server_id c \<noteq> i) (dt_tunnels db),
             dt_history := filter (\<lambda>h. he_server_id h \<noteq> i) (dt_history db)\<rparr>)))"

section \<open>Groups and snippets\<close>

definition group_list :: "sync_db \<Rightarrow> (string \<times> group_sync_payload) list" where
  "group_list db = db_groups db"

definition group_add :: "'v database_env \<Rightarrow> string \<Rightarrow> group_sync_payload \<Rightarrow> sync_db \<Rightarrow> db_error + string \<times> sync_db" where
  "group_add env given g db =
     (let i = (if given = [] then de_uuid env else given) in
      if map_of (db_groups db) i \<noteq> None then Inl (SyncFailed PrimaryKeyViolation)
      else if list_ex (\<lambda>(j, h). j \<noteq> i \<and> gp_name h = gp_name g) (db_groups db) then Inl (SyncFailed UniqueNameViolation)
      else
        rbind (lift_sync (record_group_upsert (de_sync env) i g (db\<lparr>db_groups := db_groups db @ [(i, g)]\<rparr>))) (\<lambda>db'.
        Inr (i, db')))"

definition group_delete :: "'v database_env \<Rightarrow> string \<Rightarrow> sync_db \<Rightarrow> db_error + sync_db" where
  "group_delete env i db =
     rbind (lift_sync (detach_group_references (de_sync env) i True db)) (\<lambda>detached.
     lift_sync (record_local_delete (de_sync env) Group i
       (detached\<lparr>db_groups := AList.delete i (db_groups detached)\<rparr>)))"

definition newest_first :: "('a \<Rightarrow> int) \<Rightarrow> 'a list \<Rightarrow> 'a list" where
  "newest_first time xs = sort_key (\<lambda>x. - time x) xs"

definition snippet_list :: "string option \<Rightarrow> sync_db \<Rightarrow> (string \<times> snippet_sync_payload) list" where
  "snippet_list category db =
     newest_first (\<lambda>(_, s). np_updated_at s)
       (filter (\<lambda>(_, s). case category of Some c \<Rightarrow> np_category s = c | None \<Rightarrow> True) (db_snippets db))"

definition snippet_add ::
    "'v database_env \<Rightarrow> string \<Rightarrow> snippet_sync_payload \<Rightarrow> sync_db \<Rightarrow> db_error + (string \<times> snippet_sync_payload) \<times> sync_db" where
  "snippet_add env given snippet db =
     (let i = (if given = [] then de_uuid env else given);
          snippet = snippet\<lparr>np_created_at := de_now env, np_updated_at := de_now env\<rparr> in
      if map_of (db_snippets db) i \<noteq> None then Inl (SyncFailed PrimaryKeyViolation)
      else
        rbind (lift_sync (record_snippet_upsert (de_sync env) i snippet (db\<lparr>db_snippets := db_snippets db @ [(i, snippet)]\<rparr>))) (\<lambda>db'.
        Inr ((i, snippet), db')))"

definition snippet_update :: "'v database_env \<Rightarrow> string \<Rightarrow> snippet_sync_payload \<Rightarrow> sync_db \<Rightarrow> db_error + sync_db" where
  "snippet_update env i snippet db =
     (case map_of (db_snippets db) i of
        None \<Rightarrow> Inr db
      | Some old \<Rightarrow>
          lift_sync (record_snippet_upsert (de_sync env) i (snippet\<lparr>np_updated_at := de_now env\<rparr>)
            (db\<lparr>db_snippets := AList.update i (snippet\<lparr>np_created_at := np_created_at old, np_updated_at := de_now env\<rparr>)
               (db_snippets db)\<rparr>)))"

definition snippet_delete :: "'v database_env \<Rightarrow> string \<Rightarrow> sync_db \<Rightarrow> db_error + sync_db" where
  "snippet_delete env i db =
     lift_sync (record_local_delete (de_sync env) CommandSnippet i (db\<lparr>db_snippets := AList.delete i (db_snippets db)\<rparr>))"


section \<open>Encrypting the credentials of an old database\<close>

definition plain_value :: "string \<Rightarrow> bool" where
  "plain_value v \<longleftrightarrow> v \<noteq> [] \<and> \<not> starts_with v enc_prefix"

definition has_plaintext :: "credential_row \<Rightarrow> bool" where
  "has_plaintext r \<longleftrightarrow> plain_value (cw_credential r) \<or>
     (case cw_passphrase r of Some p \<Rightarrow> plain_value p | None \<Rightarrow> False)"

definition migrate_field :: "'v database_env \<Rightarrow> string \<Rightarrow> db_error + string" where
  "migrate_field env v = (if starts_with v enc_prefix then Inr v else encrypt_credential_value env v)"

definition migrate_row :: "'v database_env \<Rightarrow> credential_row \<Rightarrow> db_error + credential_row" where
  "migrate_row env r =
     rbind (migrate_field env (cw_credential r)) (\<lambda>credential.
     rbind (on_option (migrate_field env) (cw_passphrase r)) (\<lambda>passphrase.
     Inr (r\<lparr>cw_credential := credential, cw_passphrase := passphrase\<rparr>)))"

text \<open>A row is only replaced while it is what was read; a row that cannot be encrypted is left as it is.\<close>

definition migrate_one :: "'v database_env \<Rightarrow> (string \<times> credential_row) list \<Rightarrow> string \<times> credential_row \<Rightarrow> (string \<times> credential_row) list" where
  "migrate_one env rows pending =
     (case pending of (i, r) \<Rightarrow>
        (case migrate_row env r of
           Inl _ \<Rightarrow> rows
         | Inr new \<Rightarrow>
             AList.map_entry i (\<lambda>now. if cw_credential now = cw_credential r \<and> cw_passphrase now = cw_passphrase r
               then now\<lparr>cw_credential := cw_credential new, cw_passphrase := cw_passphrase new\<rparr> else now) rows))"

definition migrate_plaintext_credentials :: "'v database_env \<Rightarrow> database \<Rightarrow> database" where
  "migrate_plaintext_credentials env db =
     (let db = with_names (credential_names db) db;
          pending = filter (\<lambda>(_, r). has_plaintext r) (dt_secrets db) in
      if pending = [] \<or> \<not> is_ok (de_device env) then db
      else db\<lparr>dt_secrets := foldl (migrate_one env) (dt_secrets db) pending\<rparr>)"

section \<open>Matching of texts\<close>

text \<open>\<^verbatim>\<open>LIKE\<close> of SQLite on the characters of the texts: a percent sign stands for any characters, an underscore
  for one, the escape character for the next one itself; letters of ASCII are compared without their case.\<close>

fun like_chars :: "string option \<Rightarrow> string list \<Rightarrow> string list \<Rightarrow> bool" where
  "like_chars escape [] text = (text = [])"
| "like_chars escape (p # ps) text =
     (if Some p = escape then
        (case ps of
           [] \<Rightarrow> False
         | q # qs \<Rightarrow> (case text of [] \<Rightarrow> False | t # ts \<Rightarrow> to_ascii_lowercase t = to_ascii_lowercase q \<and> like_chars escape qs ts))
      else if p = ''%'' then
        like_chars escape ps text \<or> (case text of [] \<Rightarrow> False | _ # ts \<Rightarrow> like_chars escape (p # ps) ts)
      else
        (case text of
           [] \<Rightarrow> False
         | t # ts \<Rightarrow> (p = ''_'' \<or> to_ascii_lowercase t = to_ascii_lowercase p) \<and> like_chars escape ps ts))"

definition sql_like :: "string option \<Rightarrow> string \<Rightarrow> string \<Rightarrow> bool" where
  "sql_like escape pattern text \<longleftrightarrow> like_chars escape (utf8_chars pattern) (utf8_chars text)"

definition replace_char :: "char \<Rightarrow> string \<Rightarrow> string \<Rightarrow> string" where
  "replace_char c by s = concat (map (\<lambda>d. if d = c then by else [d]) s)"

definition backslash :: char where "backslash = CHR 0x5C"

definition escape_like :: "string \<Rightarrow> string" where
  "escape_like search =
     replace_char (CHR ''_'') [backslash, CHR ''_'']
       (replace_char (CHR ''%'') [backslash, CHR ''%''] (replace_char backslash [backslash, backslash] search))"

definition within :: "string \<Rightarrow> string" where
  "within s = ''%'' @ s @ ''%''"

text \<open>\<open>tags_json\<close> is the text the tags of a snippet are stored as.\<close>

definition snippet_search :: "(string list \<Rightarrow> string) \<Rightarrow> string \<Rightarrow> sync_db \<Rightarrow> (string \<times> snippet_sync_payload) list" where
  "snippet_search tags_json query db =
     newest_first (\<lambda>(_, s). np_updated_at s)
       (filter (\<lambda>(_, s). sql_like None (within query) (np_name s) \<or> sql_like None (within query) (np_command s) \<or>
            sql_like None (within query) (np_description s) \<or> sql_like None (within query) (tags_json (np_tags s)))
          (db_snippets db))"

section \<open>Command history\<close>

definition clamp :: "int \<Rightarrow> int \<Rightarrow> int \<Rightarrow> int" where
  "clamp lo hi x = max lo (min hi x)"

definition page_size :: "nat \<Rightarrow> nat" where
  "page_size limit = nat (clamp 1 500 (int limit))"

definition history_list :: "string \<Rightarrow> string option \<Rightarrow> bool \<Rightarrow> nat \<Rightarrow> database \<Rightarrow> history_entry list" where
  "history_list server_id query favorites_only limit db =
     (let matching = (case query of
            Some search \<Rightarrow> if trim search = [] then (\<lambda>_. True)
              else (\<lambda>h. sql_like (Some [backslash]) (within (escape_like search)) (he_command h))
          | None \<Rightarrow> (\<lambda>_. True)) in
      take (page_size limit)
        (sort_key (\<lambda>h. \<not> he_is_favorite h)
          (newest_first he_last_used_at
            (filter (\<lambda>h. he_server_id h = server_id \<and> (favorites_only \<longrightarrow> he_is_favorite h) \<and> matching h) (dt_history db)))))"

definition history_record :: "'v database_env \<Rightarrow> string \<Rightarrow> string \<Rightarrow> database \<Rightarrow> db_error + history_entry \<times> database" where
  "history_record env server_id command db =
     (let command = trim command in
      if command = [] then Inl (Refused ''Cannot record an empty command'')
      else if map_of (db_servers (dt_sync db)) server_id = None then Inl (Refused ''FOREIGN KEY constraint failed'')
      else
        (case List.find (\<lambda>h. he_server_id h = server_id \<and> he_command h = command) (dt_history db) of
           Some h \<Rightarrow>
             (let h' = h\<lparr>he_use_count := he_use_count h + 1, he_last_used_at := de_now env\<rparr> in
              Inr (h', db\<lparr>dt_history := map (\<lambda>e. if e = h then h' else e) (dt_history db)\<rparr>))
         | None \<Rightarrow>
             if list_ex (\<lambda>h. he_id h = de_uuid env) (dt_history db) then Inl (SyncFailed PrimaryKeyViolation)
             else
               (let h = \<lparr>he_id = de_uuid env, he_server_id = server_id, he_command = command, he_is_favorite = False,
                         he_use_count = 1, he_last_used_at = de_now env, he_created_at = de_now env\<rparr> in
                Inr (h, db\<lparr>dt_history := dt_history db @ [h]\<rparr>))))"

definition history_set_favorite :: "string \<Rightarrow> bool \<Rightarrow> database \<Rightarrow> database" where
  "history_set_favorite i is_favorite db =
     db\<lparr>dt_history := map (\<lambda>h. if he_id h = i then h\<lparr>he_is_favorite := is_favorite\<rparr> else h) (dt_history db)\<rparr>"

definition history_delete :: "string \<Rightarrow> database \<Rightarrow> database" where
  "history_delete i db = db\<lparr>dt_history := filter (\<lambda>h. he_id h \<noteq> i) (dt_history db)\<rparr>"

definition history_clear :: "string \<Rightarrow> bool \<Rightarrow> database \<Rightarrow> database" where
  "history_clear server_id include_favorites db =
     db\<lparr>dt_history := filter (\<lambda>h. \<not> (he_server_id h = server_id \<and> (include_favorites \<or> \<not> he_is_favorite h))) (dt_history db)\<rparr>"

section \<open>The audit trail\<close>

text \<open>The trail numbers its rows upwards; an event is stored encrypted.\<close>

definition activity_insert :: "'v database_env \<Rightarrow> string \<Rightarrow> database \<Rightarrow> db_error + database" where
  "activity_insert env event_json db =
     rbind (encrypt_credential_value env event_json) (\<lambda>payload.
     Inr (db\<lparr>dt_activity := dt_activity db @
       [(if dt_activity db = [] then 1 else fst (last (dt_activity db)) + 1, payload)]\<rparr>))"

definition activity_page :: "int option \<Rightarrow> int option \<Rightarrow> nat \<Rightarrow> (int \<times> string) list \<Rightarrow> (int \<times> string) list" where
  "activity_page after before limit rows =
     (let found = filter (\<lambda>(n, _). (case after of Some a \<Rightarrow> a < n | None \<Rightarrow> True) \<and> (case before of Some b \<Rightarrow> n < b | None \<Rightarrow> True)) rows in
      take (page_size limit) (if after \<noteq> None then sort_key fst found else sort_key (\<lambda>r. - fst r) found))"

definition agent_activity_list ::
    "'v database_env \<Rightarrow> (string \<Rightarrow> string + 'e) \<Rightarrow> int option \<Rightarrow> int option \<Rightarrow> nat \<Rightarrow> database \<Rightarrow> db_error + (int \<times> 'e) list" where
  "agent_activity_list env decode after before limit db =
     traverse (\<lambda>(n, payload). rbind (decrypt_credential_value env payload) (\<lambda>json.
         rbind (map_sum Refused id (decode json)) (\<lambda>event. Inr (n, event))))
       (activity_page after before limit (dt_activity db))"

section \<open>The other tables of the device\<close>

definition get_setting :: "string \<Rightarrow> database \<Rightarrow> string option" where
  "get_setting key db = map_of (dt_settings db) key"

definition set_setting :: "string \<Rightarrow> string \<Rightarrow> database \<Rightarrow> database" where
  "set_setting key v db = db\<lparr>dt_settings := AList.update key v (dt_settings db)\<rparr>"

definition tunnel_config_list :: "string \<Rightarrow> database \<Rightarrow> tunnel_config list" where
  "tunnel_config_list server_id db = filter (\<lambda>c. tc_server_id c = server_id) (dt_tunnels db)"

definition tunnel_config_add :: "'v database_env \<Rightarrow> tunnel_config \<Rightarrow> database \<Rightarrow> db_error + tunnel_config \<times> database" where
  "tunnel_config_add env config db =
     (let config = (if tc_id config = [] then config\<lparr>tc_id := de_uuid env\<rparr> else config) in
      if list_ex (\<lambda>c. tc_id c = tc_id config) (dt_tunnels db) then Inl (SyncFailed PrimaryKeyViolation)
      else if map_of (db_servers (dt_sync db)) (tc_server_id config) = None then Inl (Refused ''FOREIGN KEY constraint failed'')
      else Inr (config, db\<lparr>dt_tunnels := dt_tunnels db @ [config]\<rparr>))"

definition tunnel_config_update :: "tunnel_config \<Rightarrow> database \<Rightarrow> database" where
  "tunnel_config_update config db =
     db\<lparr>dt_tunnels := map (\<lambda>c. if tc_id c = tc_id config then config\<lparr>tc_server_id := tc_server_id c\<rparr> else c) (dt_tunnels db)\<rparr>"

definition tunnel_config_delete :: "string \<Rightarrow> database \<Rightarrow> database" where
  "tunnel_config_delete i db = db\<lparr>dt_tunnels := filter (\<lambda>c. tc_id c \<noteq> i) (dt_tunnels db)\<rparr>"

definition tunnel_config_delete_for_server :: "string \<Rightarrow> database \<Rightarrow> database" where
  "tunnel_config_delete_for_server server_id db =
     db\<lparr>dt_tunnels := filter (\<lambda>c. tc_server_id c \<noteq> server_id) (dt_tunnels db)\<rparr>"

definition recording_list :: "string option \<Rightarrow> database \<Rightarrow> recording_row list" where
  "recording_list server_id db =
     newest_first rr_started_at
       (filter (\<lambda>r. case server_id of Some i \<Rightarrow> rr_server_id r = i | None \<Rightarrow> True) (dt_recordings db))"

definition recording_add :: "'v database_env \<Rightarrow> recording_row \<Rightarrow> database \<Rightarrow> db_error + recording_row \<times> database" where
  "recording_add env row db =
     (let row = (if rr_id row = [] then row\<lparr>rr_id := de_uuid env\<rparr> else row) in
      if list_ex (\<lambda>r. rr_id r = rr_id row) (dt_recordings db) then Inl (SyncFailed PrimaryKeyViolation)
      else Inr (row, db\<lparr>dt_recordings := dt_recordings db @ [row]\<rparr>))"

definition recording_end :: "string \<Rightarrow> int \<Rightarrow> database \<Rightarrow> database" where
  "recording_end i ended_at db =
     db\<lparr>dt_recordings := map (\<lambda>r. if rr_id r = i then r\<lparr>rr_ended_at := Some ended_at\<rparr> else r) (dt_recordings db)\<rparr>"

definition recording_delete :: "string \<Rightarrow> database \<Rightarrow> database" where
  "recording_delete i db = db\<lparr>dt_recordings := filter (\<lambda>r. rr_id r \<noteq> i) (dt_recordings db)\<rparr>"

definition recording_get :: "string \<Rightarrow> database \<Rightarrow> recording_row option" where
  "recording_get i db = List.find (\<lambda>r. rr_id r = i) (dt_recordings db)"

definition database_connection_list :: "database \<Rightarrow> database_connection list" where
  "database_connection_list db = sort_key (\<lambda>c. map byte (to_ascii_lowercase (dc_name c))) (dt_connections db)"

definition database_connection_get :: "string \<Rightarrow> database \<Rightarrow> database_connection option" where
  "database_connection_get i db = List.find (\<lambda>c. dc_id c = i) (dt_connections db)"

definition database_connection_upsert :: "database_connection \<Rightarrow> database \<Rightarrow> database" where
  "database_connection_upsert c db =
     (case database_connection_get (dc_id c) db of
        None \<Rightarrow> db\<lparr>dt_connections := dt_connections db @ [c]\<rparr>
      | Some _ \<Rightarrow>
          db\<lparr>dt_connections := map (\<lambda>old. if dc_id old = dc_id c
            then c\<lparr>dc_created_at := dc_created_at old, dc_last_connected_at := dc_last_connected_at old\<rparr> else old)
              (dt_connections db)\<rparr>)"

definition database_connection_touch :: "string \<Rightarrow> int \<Rightarrow> database \<Rightarrow> database" where
  "database_connection_touch i connected_at db =
     db\<lparr>dt_connections := map (\<lambda>c. if dc_id c = i then c\<lparr>dc_last_connected_at := Some connected_at\<rparr> else c) (dt_connections db)\<rparr>"

definition database_connection_delete :: "string \<Rightarrow> database \<Rightarrow> database" where
  "database_connection_delete i db = db\<lparr>dt_connections := filter (\<lambda>c. dc_id c \<noteq> i) (dt_connections db)\<rparr>"

end
