(* ===== verification/Database_Facts.thy ===== *)
theory Database_Facts
  imports Database
begin

text \<open>
  What the operations of \<open>Database\<close> keep and return: the edits of the user keep the synchronised tables
  consistent, credentials follow their server, encryption is invisible to the reader, and listings are complete.
\<close>

section \<open>Edits of the synchronised tables\<close>

definition clock_bounded :: "'v database_env \<Rightarrow> bool" where
  "clock_bounded env \<longleftrightarrow> (\<forall>n. env_now (de_sync env) n \<le> i64_max)"

lemma lift_sync_Inr [simp]: "lift_sync r = Inr x \<longleftrightarrow> r = Inr x"
  by (cases r) (simp_all add: lift_sync_def)

lemma lift_sync_simps [simp]: "lift_sync (Inr x) = Inr x" "lift_sync (Inl e) = Inl (SyncFailed e)"
  by (simp_all add: lift_sync_def)

lemma record_upsert_Inr:
  "record_server_upsert env i p db = Inr db' \<longleftrightarrow> (\<exists>rv. record_local_change env Server i False (Some (ServerPayload p)) db = Inr (rv, db'))"
  "record_group_upsert env i g db = Inr db' \<longleftrightarrow> (\<exists>rv. record_local_change env Group i False (Some (GroupPayload g)) db = Inr (rv, db'))"
  "record_snippet_upsert env i s db = Inr db' \<longleftrightarrow> (\<exists>rv. record_local_change env CommandSnippet i False (Some (SnippetPayload s)) db = Inr (rv, db'))"
  "record_local_delete env k i db = Inr db' \<longleftrightarrow> (\<exists>rv. record_local_change env k i True None db = Inr (rv, db'))"
  by (auto simp: record_server_upsert_def record_group_upsert_def record_snippet_upsert_def record_local_delete_def
      record_local_upsert_def map_sum_def split: sum.splits)

lemma sync_inv_parts:
  assumes "sync_inv db"
  shows "tables_inv db" "refs_avoid (tombstones db) db" "outbox_inv db" "clock_inv db"
    "\<And>e. e \<in> present db \<longleftrightarrow> (\<exists>st. map_of (db_states db) e = Some st \<and> \<not> es_deleted st)"
  using assms unfolding sync_inv_def tracked_iff by blast+

text \<open>A change of the domain tables that concerns one entity, followed by its record.\<close>

lemma edit_then_record:
  assumes "sync_inv db" "clock_bounded env"
    and "record_local_change (de_sync env) k i deleted payload db1 = Inr (rv, db')"
    and same: "db_states db1 = db_states db" "db_outbox db1 = db_outbox db" "db_metadata db1 = db_metadata db"
    and "tables_inv db1" "refs_avoid (tombstones db) db1" "deleted \<Longrightarrow> refs_avoid {(k, i)} db1"
    and pres: "\<And>e. e \<noteq> (k, i) \<Longrightarrow> e \<in> present db1 \<longleftrightarrow> e \<in> present db" "(k, i) \<in> present db1 \<longleftrightarrow> \<not> deleted"
  shows "sync_inv db'"
proof (rule record_local_change_inv [OF assms(7) _ _ _ assms(3)])
  note inv = sync_inv_parts [OF assms(1)]
  have t: "tombstones db1 = tombstones db" and r: "revision_of db1 = revision_of db"
    using same by (simp_all add: tombstones_def revision_of_def fun_eq_iff)
  show "refs_avoid (tombstones db1) db1" using assms(8) t by simp
  show "outbox_inv db1" using inv(3) same r by (simp add: outbox_inv_def)
  show "clock_inv db1" using inv(4) same r by (simp add: clock_inv_def)
  show "env_now (de_sync env) (db_draws db1) \<le> i64_max" using assms(2) by (simp add: clock_bounded_def)
  show "e \<in> present db1 \<longleftrightarrow> (\<exists>st. map_of (db_states db1) e = Some st \<and> \<not> es_deleted st)" if "e \<noteq> (k, i)" for e
    using pres(1) [OF that] inv(5) same by simp
qed (use assms(9) pres(2) in simp_all)

definition references_live :: "string option \<Rightarrow> string option \<Rightarrow> sync_db \<Rightarrow> bool" where
  "references_live g_ref j_ref db \<longleftrightarrow>
     (\<forall>g. g_ref = Some g \<longrightarrow> (Group, g) \<notin> tombstones db) \<and> (\<forall>j. j_ref = Some j \<longrightarrow> (Server, j) \<notin> tombstones db)"

lemma not_name_taken: "\<not> name_taken i n db \<Longrightarrow> (j, r) \<in> set (db_servers db) \<Longrightarrow> j \<noteq> i \<Longrightarrow> sr_name r \<noteq> n"
  by (auto simp: name_taken_def list_ex_iff)

lemma server_add_inv:
  assumes "sync_inv db" "clock_bounded env" "server_add env s db = Inr (s', db')"
    and "references_live (se_group_id s) (se_jump_host_id s) db"
  shows "sync_inv db'"
proof -
  let ?s = "s\<lparr>se_id := (if se_id s = [] then de_uuid env else se_id s), se_created_at := de_now env, se_updated_at := de_now env\<rparr>"
  let ?i = "se_id ?s" let ?db = "db\<lparr>db_servers := db_servers db @ [(?i, row_of_server ?s)]\<rparr>"
  from assms(3) have new: "map_of (db_servers db) ?i = None" and name: "\<not> name_taken ?i (se_name ?s) db"
    unfolding server_add_def Let_def by (auto split: if_split_asm)
  with assms(3) obtain rv p where rec: "record_local_change (de_sync env) Server ?i False (Some p) ?db = Inr (rv, db')"
    unfolding server_add_def Let_def by (force simp: record_upsert_Inr elim!: rbind_InrE)
  note inv = sync_inv_parts [OF assms(1)]
  have fresh: "?i \<notin> fst ` set (db_servers db)" using new by (simp add: map_of_eq_None_iff)
  have "sr_name r \<noteq> se_name s" if "(j, r) \<in> set (db_servers db)" for j r
    using not_name_taken [OF name that] that fresh by force
  then have "tables_inv ?db" using inv(1) fresh by (force simp: tables_inv_def row_of_server_def)
  moreover have "refs_avoid (tombstones db) ?db"
    using inv(2) assms(4) by (auto simp: refs_avoid_def row_of_server_def references_live_def)
  moreover have "e \<in> present ?db \<longleftrightarrow> e \<in> present db" if "e \<noteq> (Server, ?i)" for e
    using that by (cases e; cases "fst e") (auto simp: present_simps map_add_def split: option.splits if_splits)
  moreover have "(Server, ?i) \<in> present ?db" using new by (simp add: present_simps map_add_def)
  ultimately show ?thesis by (intro edit_then_record [OF assms(1,2) rec]) simp_all
qed

lemma set_update_subset: "set (AList.update k v xs) \<subseteq> insert (k, v) (set xs)"
  by (induction xs) auto

lemma write_server_inv:
  assumes "sync_inv db" "clock_bounded env" "write_server env s db = Inr db'"
    and "references_live (se_group_id s) (se_jump_host_id s) db"
  shows "sync_inv db'"
proof (cases "map_of (db_servers db) (se_id s)")
  case None
  with assms(1,3) show ?thesis by (simp add: write_server_def)
next
  case (Some old)
  let ?row = "(row_of_server s)\<lparr>sr_created_at := sr_created_at old, sr_updated_at := de_now env\<rparr>"
  let ?db = "db\<lparr>db_servers := AList.update (se_id s) ?row (db_servers db)\<rparr>"
  from assms(3) Some have name: "\<not> name_taken (se_id s) (se_name s) db"
    by (auto simp: write_server_def split: if_split_asm)
  with assms(3) Some obtain rv p where rec: "record_local_change (de_sync env) Server (se_id s) False (Some p) ?db = Inr (rv, db')"
    by (force simp: write_server_def record_upsert_Inr)
  note inv = sync_inv_parts [OF assms(1)]
  have d: "distinct (map fst (db_servers db))" "distinct (map (sr_name \<circ> snd) (db_servers db))"
    using inv(1) by (simp_all add: tables_inv_def)
  have n: "\<not> list_ex (\<lambda>(j, r). j \<noteq> se_id s \<and> sr_name r = sr_name ?row) (db_servers db)"
    using name by (simp add: name_taken_def row_of_server_def)
  have "tables_inv ?db"
    using inv(1) distinct_names_update [OF d n] by (simp add: tables_inv_def distinct_update)
  moreover have "refs_avoid (tombstones db) ?db"
    using inv(2) assms(4) set_update_subset [of "se_id s" ?row "db_servers db"]
    unfolding refs_avoid_def by (fastforce simp: row_of_server_def references_live_def)
  moreover have "e \<in> present ?db \<longleftrightarrow> e \<in> present db" if "e \<noteq> (Server, se_id s)" for e
    using that by (cases e; cases "fst e") (auto simp: present_simps update_conv')
  moreover have "(Server, se_id s) \<in> present ?db" by (simp add: present_simps update_conv')
  ultimately show ?thesis by (intro edit_then_record [OF assms(1,2) rec]) simp_all
qed


text \<open>Detaching the references to an entity, and recording the rows that held one.\<close>

lemma sync_inv_domain:
  assumes "sync_inv db" "db_states db' = db_states db" "db_outbox db' = db_outbox db" "db_metadata db' = db_metadata db"
    and "tables_inv db'" "refs_avoid (tombstones db) db'" "present db' = present db"
  shows "sync_inv db'"
  using assms unfolding sync_inv_def tracked_iff
  by (simp add: outbox_inv_def clock_inv_def revision_of_def tombstones_def)

lemma record_current_step:
  assumes "record_current_upsert env k i db = Inr db'"
  shows "same_domain db db'"
  using assms by (auto simp: record_current_upsert_def record_local_upsert_def map_sum_def
      dest!: record_local_change_step elim!: rbind_InrE split: sum.splits)

lemma record_all_inv:
  assumes "foldm (\<lambda>d i. record_current_upsert (de_sync env) k i d) db ids = Inr db'" "sync_inv db" "clock_bounded env"
  shows "sync_inv db' \<and> same_domain db db'"
  using foldm_invariant [OF assms(1), of "\<lambda>d. sync_inv d \<and> same_domain db d"] assms(2,3)
  by (metis clock_bounded_def record_current_step record_current_upsert_inv same_domain_def same_domain_trans)

lemma refs_avoid_same_domain: "same_domain db db' \<Longrightarrow> refs_avoid D db' = refs_avoid D db"
  by (simp add: same_domain_def refs_avoid_def)

lemma detach_server_inv:
  assumes "detach_server_references (de_sync env) i True db = Inr db'" "sync_inv db" "clock_bounded env"
  shows "sync_inv db'" "refs_avoid {(Server, i)} db'"
proof -
  let ?f = "\<lambda>s. if sr_jump_host_id s = Some i then s\<lparr>sr_jump_host_id := None\<rparr> else s"
  let ?db = "db\<lparr>db_servers := map (\<lambda>(j, s). (j, ?f s)) (db_servers db)\<rparr>"
  from assms(1) obtain ids where r: "foldm (\<lambda>d i. record_current_upsert (de_sync env) Server i d) ?db ids = Inr db'"
    by (auto simp: detach_server_references_def Let_def)
  note inv = sync_inv_parts [OF assms(2)]
  have "map (sr_name \<circ> snd) (db_servers ?db) = map (sr_name \<circ> snd) (db_servers db)" by (auto split: prod.splits)
  then have "tables_inv ?db" using inv(1) by (simp add: tables_inv_def map_values_simps del: map_map)
  moreover have "refs_avoid (tombstones db) ?db" using inv(2) by (fastforce simp: refs_avoid_def split: if_splits)
  moreover have "present ?db = present db"
  proof (rule present_eqI)
    show "(k, j) \<in> present ?db \<longleftrightarrow> (k, j) \<in> present db" for k j by (cases k) (simp_all add: present_simps map_values_simps)
  qed
  ultimately have "sync_inv ?db" by (intro sync_inv_domain [OF assms(2)]) simp_all
  from record_all_inv [OF r this assms(3)] have all: "sync_inv db'" "same_domain ?db db'" by auto
  have "refs_avoid {(Server, i)} ?db" by (auto simp: refs_avoid_def split: if_splits)
  with all refs_avoid_same_domain [OF all(2)] show "sync_inv db'" "refs_avoid {(Server, i)} db'" by simp_all
qed

lemma detach_group_inv:
  assumes "detach_group_references (de_sync env) i True db = Inr db'" "sync_inv db" "clock_bounded env"
  shows "sync_inv db'" "refs_avoid {(Group, i)} db'"
proof -
  let ?f = "\<lambda>s. if sr_group_id s = Some i then s\<lparr>sr_group_id := None\<rparr> else s"
  let ?h = "\<lambda>g. if gp_parent_id g = Some i then g\<lparr>gp_parent_id := None\<rparr> else g"
  let ?db = "db\<lparr>db_groups := map (\<lambda>(j, g). (j, ?h g)) (db_groups db), db_servers := map (\<lambda>(j, s). (j, ?f s)) (db_servers db)\<rparr>"
  from assms(1) obtain ids ids' db2 where
    r: "foldm (\<lambda>d i. record_current_upsert (de_sync env) Group i d) ?db ids = Inr db2"
      "foldm (\<lambda>d i. record_current_upsert (de_sync env) Server i d) db2 ids' = Inr db'"
    by (auto simp: detach_group_references_def Let_def elim!: rbind_InrE)
  note inv = sync_inv_parts [OF assms(2)]
  have "map (sr_name \<circ> snd) (db_servers ?db) = map (sr_name \<circ> snd) (db_servers db)"
    "map (gp_name \<circ> snd) (db_groups ?db) = map (gp_name \<circ> snd) (db_groups db)" by (auto split: prod.splits)
  then have "tables_inv ?db" using inv(1) by (simp add: tables_inv_def map_values_simps del: map_map)
  moreover have "refs_avoid (tombstones db) ?db" using inv(2) by (fastforce simp: refs_avoid_def split: if_splits)
  moreover have "present ?db = present db"
  proof (rule present_eqI)
    show "(k, j) \<in> present ?db \<longleftrightarrow> (k, j) \<in> present db" for k j by (cases k) (simp_all add: present_simps map_values_simps)
  qed
  ultimately have "sync_inv ?db" by (intro sync_inv_domain [OF assms(2)]) simp_all
  from record_all_inv [OF r(1) this assms(3)] have 2: "sync_inv db2" "same_domain ?db db2" by auto
  from record_all_inv [OF r(2) 2(1) assms(3)] have 3: "sync_inv db'" "same_domain ?db db'"
    using same_domain_trans [OF 2(2)] by auto
  have "refs_avoid {(Group, i)} ?db" by (auto simp: refs_avoid_def split: if_splits)
  with 3 refs_avoid_same_domain [OF 3(2)] show "sync_inv db'" "refs_avoid {(Group, i)} db'" by simp_all
qed

lemma map_values_id: "(\<And>j r. (j, r) \<in> set xs \<Longrightarrow> f r = r) \<Longrightarrow> map (\<lambda>(j, r). (j, f r)) xs = xs"
  by (induction xs) auto

lemma delete_detached:
  assumes "refs_avoid {(k, i)} db"
  shows "k = Server \<Longrightarrow> delete_domain_entity env k i db = Inr (db\<lparr>db_servers := AList.delete i (db_servers db)\<rparr>)"
    "k = Group \<Longrightarrow> delete_domain_entity env k i db = Inr (db\<lparr>db_groups := AList.delete i (db_groups db)\<rparr>)"
proof -
  assume k: "k = Server"
  have "map (\<lambda>(j, s). (j, if sr_jump_host_id s = Some i then s\<lparr>sr_jump_host_id := None\<rparr> else s)) (db_servers db) = db_servers db"
    using assms k by (intro map_values_id) (force simp: refs_avoid_def)
  then show "delete_domain_entity env k i db = Inr (db\<lparr>db_servers := AList.delete i (db_servers db)\<rparr>)"
    using k by (simp add: delete_domain_entity_def detach_server_references_def Let_def)
next
  assume k: "k = Group"
  have "map (\<lambda>(j, s). (j, if sr_group_id s = Some i then s\<lparr>sr_group_id := None\<rparr> else s)) (db_servers db) = db_servers db"
    "map (\<lambda>(j, g). (j, if gp_parent_id g = Some i then g\<lparr>gp_parent_id := None\<rparr> else g)) (db_groups db) = db_groups db"
    using assms k by (auto intro!: map_values_id simp: refs_avoid_def split: if_splits) force+
  then show "delete_domain_entity env k i db = Inr (db\<lparr>db_groups := AList.delete i (db_groups db)\<rparr>)"
    using k by (simp add: delete_domain_entity_def detach_group_references_def Let_def)
qed

lemma delete_then_record:
  assumes "sync_inv db" "clock_bounded env" "delete_domain_entity e k i db = Inr db1"
    and "record_local_delete (de_sync env) k i db1 = Inr db'"
  shows "sync_inv db'"
proof -
  note inv = sync_inv_parts [OF assms(1)]
  note d = delete_domain_entity_inv [OF inv(1,2) assms(3)]
  from assms(4) obtain rv where r: "record_local_change (de_sync env) k i True None db1 = Inr (rv, db')"
    by (auto simp: record_upsert_Inr)
  have "same_sync db db1" by (rule delete_domain_entity_frame [OF assms(3)])
  with d show ?thesis
    by (intro edit_then_record [OF assms(1,2) r]) (auto simp: same_sync_def intro: refs_avoid_mono)
qed

lemma server_delete_inv:
  assumes "sync_inv (dt_sync db)" "clock_bounded env" "server_delete env i db = Inr db'"
  shows "sync_inv (dt_sync db')"
proof -
  from assms(3) obtain d where d: "detach_server_references (de_sync env) i True (dt_sync db) = Inr d"
    "record_local_delete (de_sync env) Server i (d\<lparr>db_servers := AList.delete i (db_servers d)\<rparr>) = Inr (dt_sync db')"
    by (auto simp: server_delete_def elim!: rbind_InrE)
  note i = detach_server_inv [OF d(1) assms(1,2)]
  show ?thesis by (rule delete_then_record [OF i(1) assms(2) delete_detached(1) [OF i(2) refl, of "de_sync env"] d(2)])
qed

lemma group_delete_inv:
  assumes "sync_inv db" "clock_bounded env" "group_delete env i db = Inr db'"
  shows "sync_inv db'"
proof -
  from assms(3) obtain d where d: "detach_group_references (de_sync env) i True db = Inr d"
    "record_local_delete (de_sync env) Group i (d\<lparr>db_groups := AList.delete i (db_groups d)\<rparr>) = Inr db'"
    by (auto simp: group_delete_def elim!: rbind_InrE)
  note i = detach_group_inv [OF d(1) assms(1,2)]
  show ?thesis by (rule delete_then_record [OF i(1) assms(2) delete_detached(2) [OF i(2) refl, of "de_sync env"] d(2)])
qed


lemma group_add_inv:
  assumes "sync_inv db" "clock_bounded env" "group_add env given g db = Inr (i, db')"
    and "references_live (gp_parent_id g) None db"
  shows "sync_inv db'"
proof -
  let ?db = "db\<lparr>db_groups := db_groups db @ [(i, g)]\<rparr>"
  from assms(3) have i: "i = (if given = [] then de_uuid env else given)"
    by (auto simp: group_add_def Let_def elim!: rbind_InrE split: if_split_asm)
  from assms(3) have new: "map_of (db_groups db) i = None"
    and name: "\<not> list_ex (\<lambda>(j, h). j \<noteq> i \<and> gp_name h = gp_name g) (db_groups db)"
    unfolding group_add_def Let_def i [symmetric] by (auto split: if_split_asm)
  with assms(3) obtain rv p where rec: "record_local_change (de_sync env) Group i False (Some p) ?db = Inr (rv, db')"
    unfolding group_add_def Let_def i [symmetric] by (force simp: record_upsert_Inr elim!: rbind_InrE)
  note inv = sync_inv_parts [OF assms(1)]
  have fresh: "i \<notin> fst ` set (db_groups db)" using new by (simp add: map_of_eq_None_iff)
  then have "gp_name h \<noteq> gp_name g" if "(j, h) \<in> set (db_groups db)" for j h
    using that name by (force simp: list_ex_iff)
  then have "tables_inv ?db" using inv(1) fresh by (force simp: tables_inv_def)
  moreover have "refs_avoid (tombstones db) ?db" using inv(2) assms(4) by (auto simp: refs_avoid_def references_live_def)
  moreover have "e \<in> present ?db \<longleftrightarrow> e \<in> present db" if "e \<noteq> (Group, i)" for e
    using that by (cases e; cases "fst e") (auto simp: present_simps map_add_def split: option.splits if_splits)
  moreover have "(Group, i) \<in> present ?db" using new by (simp add: present_simps map_add_def)
  ultimately show ?thesis by (intro edit_then_record [OF assms(1,2) rec]) simp_all
qed

text \<open>Snippets have no references and no unique name.\<close>

lemma snippet_edit_inv:
  assumes "sync_inv db" "clock_bounded env"
    and "record_local_change (de_sync env) CommandSnippet i deleted payload (db\<lparr>db_snippets := t\<rparr>) = Inr (rv, db')"
    and "distinct (map fst t)" "\<And>j. j \<noteq> i \<Longrightarrow> map_of t j = map_of (db_snippets db) j" "map_of t i \<noteq> None \<longleftrightarrow> \<not> deleted"
  shows "sync_inv db'"
proof -
  note inv = sync_inv_parts [OF assms(1)]
  have "e \<in> present (db\<lparr>db_snippets := t\<rparr>) \<longleftrightarrow> e \<in> present db" if "e \<noteq> (CommandSnippet, i)" for e
    using that assms(5) by (cases e; cases "fst e") (auto simp: present_simps)
  moreover have "refs_avoid D (db\<lparr>db_snippets := t\<rparr>) = refs_avoid D db" for D by (simp add: refs_avoid_def)
  moreover have "refs_avoid {(CommandSnippet, i)} db" by (simp add: refs_avoid_def)
  ultimately show ?thesis
    using inv(1,2) assms(4,6)
    by (intro edit_then_record [OF assms(1,2,3)]) (simp_all add: tables_inv_def present_simps)
qed

lemma snippet_add_inv:
  assumes "sync_inv db" "clock_bounded env" "snippet_add env given s db = Inr (r, db')"
  shows "sync_inv db'"
proof -
  obtain i s' where r: "r = (i, s')" by (cases r)
  from assms(3) r have i: "i = (if given = [] then de_uuid env else given)"
    by (auto simp: snippet_add_def Let_def elim!: rbind_InrE split: if_split_asm)
  from assms(3) r have new: "map_of (db_snippets db) i = None"
    unfolding snippet_add_def Let_def i [symmetric] by (auto split: if_split_asm)
  with assms(3) r obtain rv p where rec:
    "record_local_change (de_sync env) CommandSnippet i False (Some p) (db\<lparr>db_snippets := db_snippets db @ [(i, s')]\<rparr>) = Inr (rv, db')"
    unfolding snippet_add_def Let_def i [symmetric] by (force simp: record_upsert_Inr elim!: rbind_InrE)
  have "i \<notin> fst ` set (db_snippets db)" using new by (simp add: map_of_eq_None_iff)
  with new sync_inv_parts(1) [OF assms(1)] show ?thesis
    by (intro snippet_edit_inv [OF assms(1,2) rec]) (auto simp: tables_inv_def map_add_def split: option.splits)
qed

lemma snippet_update_inv:
  assumes "sync_inv db" "clock_bounded env" "snippet_update env i s db = Inr db'"
  shows "sync_inv db'"
proof (cases "map_of (db_snippets db) i")
  case None
  with assms show ?thesis by (simp add: snippet_update_def)
next
  case (Some old)
  with assms(3) obtain rv p where "record_local_change (de_sync env) CommandSnippet i False (Some p)
      (db\<lparr>db_snippets := AList.update i (s\<lparr>np_created_at := np_created_at old, np_updated_at := de_now env\<rparr>) (db_snippets db)\<rparr>) = Inr (rv, db')"
    by (force simp: snippet_update_def record_upsert_Inr)
  from snippet_edit_inv [OF assms(1,2) this] sync_inv_parts(1) [OF assms(1)] show ?thesis
    by (simp add: tables_inv_def distinct_update update_conv')
qed

lemma snippet_delete_inv:
  assumes "sync_inv db" "clock_bounded env" "snippet_delete env i db = Inr db'"
  shows "sync_inv db'"
proof -
  from assms(3) obtain rv where "record_local_change (de_sync env) CommandSnippet i True None
      (db\<lparr>db_snippets := AList.delete i (db_snippets db)\<rparr>) = Inr (rv, db')"
    by (auto simp: snippet_delete_def record_upsert_Inr)
  from snippet_edit_inv [OF assms(1,2) this] sync_inv_parts(1) [OF assms(1)] show ?thesis
    by (simp add: tables_inv_def distinct_delete delete_conv')
qed

section \<open>Credentials\<close>

text \<open>The names and the rows of the credentials are in bijection.\<close>

definition credentials_inv :: "database \<Rightarrow> bool" where
  "credentials_inv db \<longleftrightarrow>
     distinct (map fst (credential_names db)) \<and> distinct (map snd (credential_names db)) \<and>
     distinct (map fst (dt_secrets db)) \<and> set (map snd (credential_names db)) = set (map fst (dt_secrets db))"

lemma with_names_simps [simp]:
  "credential_names (with_names t db) = t" "dt_secrets (with_names t db) = dt_secrets db"
  "dt_tunnels (with_names t db) = dt_tunnels db" "dt_history (with_names t db) = dt_history db"
  "db_servers (dt_sync (with_names t db)) = db_servers (dt_sync db)" "dt_activity (with_names t db) = dt_activity db"
  by (simp_all add: with_names_def credential_names_def)

lemma credential_names_sync [simp]:
  "credential_names (db\<lparr>dt_secrets := x\<rparr>) = credential_names db" "credential_names (db\<lparr>dt_sync := y, dt_secrets := x\<rparr>) = credential_names (db\<lparr>dt_sync := y\<rparr>)"
  by (simp_all add: credential_names_def)

lemma sync_inv_with_names [simp]: "sync_inv (dt_sync (with_names t db)) = sync_inv (dt_sync db)"
  using sync_inv_cong [of "dt_sync db" "dt_sync (with_names t db)"] sync_inv_cong [of "dt_sync (with_names t db)" "dt_sync db"]
  by (auto simp: with_names_def)

lemma map_fst_map_entry [simp]: "map fst (AList.map_entry k f xs) = map fst xs"
  by (induction xs) auto

lemma keys_map_entry [simp]: "fst ` set (AList.map_entry k f xs) = fst ` set xs"
  by (metis map_fst_map_entry set_map)

lemma map_of_map_entry: "map_of (AList.map_entry k f xs) j = (if j = k then map_option f (map_of xs j) else map_of xs j)"
  by (induction xs) auto

lemma inv_on_names:
  assumes "credentials_inv db" "map_of (credential_names db) a = Some i" "map_of (credential_names db) b = Some i"
  shows "a = b"
proof -
  from assms(2,3) have "(a, i) \<in> set (credential_names db)" "(b, i) \<in> set (credential_names db)" by (simp_all add: map_of_SomeD)
  with assms(1) show ?thesis unfolding credentials_inv_def by (metis distinct_map fst_conv inj_onD snd_conv)
qed

lemma credential_row_present:
  assumes "credentials_inv db" "map_of (credential_names db) n = Some i"
  shows "\<exists>r. map_of (dt_secrets db) i = Some r"
proof -
  have "i \<in> set (map snd (credential_names db))" using map_of_SomeD [OF assms(2)] by force
  with assms(1) show ?thesis by (auto simp: credentials_inv_def map_of_eq_None_iff dest: weak_map_of_SomeI)
qed

text \<open>Writing the row of one name.\<close>

definition put_credential :: "string \<Rightarrow> string \<Rightarrow> (credential_row \<Rightarrow> credential_row) \<Rightarrow> credential_row \<Rightarrow> database \<Rightarrow> database" where
  "put_credential name uuid f new db =
     (case map_of (credential_names db) name of
        Some i \<Rightarrow> db\<lparr>dt_secrets := AList.map_entry i f (dt_secrets db)\<rparr>
      | None \<Rightarrow> with_names (credential_names db @ [(name, uuid)]) (db\<lparr>dt_secrets := dt_secrets db @ [(uuid, new)]\<rparr>))"

lemma put_credential_inv:
  assumes "credentials_inv db" "map_of (credential_names db) name = None \<longrightarrow> map_of (dt_secrets db) uuid = None"
  shows "credentials_inv (put_credential name uuid f new db)"
  using assms by (auto simp: put_credential_def credentials_inv_def map_of_eq_None_iff split: option.splits)

lemma put_credential_row:
  assumes "credentials_inv db" "map_of (credential_names db) name = None \<longrightarrow> map_of (dt_secrets db) uuid = None"
  shows "credential_row_of n (put_credential name uuid f new db) =
    (if n = name then Some (case credential_row_of name db of Some r \<Rightarrow> f r | None \<Rightarrow> new) else credential_row_of n db)"
proof (cases "map_of (credential_names db) name")
  case None
  with assms have u: "map_of (dt_secrets db) uuid = None" by simp
  then have fresh: "map_of (credential_names db) n \<noteq> Some uuid" for n using credential_row_present [OF assms(1)] by force
  from None have p: "put_credential name uuid f new db =
      with_names (credential_names db @ [(name, uuid)]) (db\<lparr>dt_secrets := dt_secrets db @ [(uuid, new)]\<rparr>)"
    by (simp add: put_credential_def)
  show ?thesis
  proof (cases "n = name")
    case True
    with None u show ?thesis by (simp add: p credential_row_of_def map_add_def)
  next
    case False
    with fresh [of n] show ?thesis
      by (cases "map_of (credential_names db) n") (auto simp: p credential_row_of_def map_add_def split: option.split)
  qed
next
  case (Some i)
  from credential_row_present [OF assms(1) Some] obtain r where "map_of (dt_secrets db) i = Some r" by blast
  note r = this
  show ?thesis
  proof (cases "n = name")
    case True
    with Some r show ?thesis by (simp add: put_credential_def credential_row_of_def map_of_map_entry)
  next
    case False
    with inv_on_names [OF assms(1) Some, of n] have "map_of (credential_names db) n \<noteq> Some i" by blast
    with Some False show ?thesis
      by (cases "map_of (credential_names db) n") (auto simp: put_credential_def credential_row_of_def map_of_map_entry)
  qed
qed


lemma credential_save_Inr:
  assumes "credential_save env name auth credential passphrase path db = Inr (i, db')"
  obtains ec ep where "encrypt_credential_value env credential = Inr ec"
    "on_option (encrypt_credential_value env) passphrase = Inr ep"
    "db' = put_credential name (de_uuid env) (\<lambda>r. r\<lparr>cw_auth_type := auth, cw_credential := ec, cw_passphrase := ep, cw_key_path := path\<rparr>)
       \<lparr>cw_auth_type = auth, cw_credential = ec, cw_passphrase = ep, cw_key_path = path, cw_created_at = de_now env\<rparr>
       (with_names (credential_names db) db)"
    "map_of (credential_names db) name = None \<longrightarrow> map_of (dt_secrets db) (de_uuid env) = None"
  using assms unfolding credential_save_def Let_def
  by (elim rbind_InrE) (auto simp: put_credential_def split: option.splits if_splits)

lemma store_credential_Inr:
  assumes "store_credential env name auth (secret, phrase, path) db = Inr db'"
  obtains ec ep kp where "encrypt_credential_value env secret = Inr ec"
    "(if auth = auth_type.Password then Inr None else on_option (encrypt_credential_value env) phrase) = Inr ep"
    "kp = (if auth = auth_type.Password then None else path)"
    "db' = put_credential name (de_uuid env)
       (\<lambda>r. r\<lparr>cw_auth_type := auth_type_to_string auth, cw_credential := ec, cw_passphrase := ep, cw_key_path := kp\<rparr>)
       \<lparr>cw_auth_type = auth_type_to_string auth, cw_credential = ec, cw_passphrase = ep, cw_key_path = kp, cw_created_at = de_now env\<rparr> db"
    "map_of (credential_names db) name = None \<longrightarrow> map_of (dt_secrets db) (de_uuid env) = None"
  using assms unfolding store_credential_def Let_def prod.case
  by (elim rbind_InrE) (auto simp: put_credential_def split: option.splits if_splits)

lemma update_credential_Inr:
  assumes "update_credential env s same edit db = Inr db'"
  obtains f new where "db' = put_credential (se_name s) (de_uuid env) f new db"
    "map_of (credential_names db) (se_name s) = None \<longrightarrow> map_of (dt_secrets db) (de_uuid env) = None"
proof -
  from assms obtain c where "store_credential env (se_name s) (se_auth_type s) c db = Inr db'"
    by (auto simp: update_credential_def elim!: rbind_InrE)
  then obtain secret phrase path where "store_credential env (se_name s) (se_auth_type s) (secret, phrase, path) db = Inr db'"
    by (cases c) auto
  from store_credential_Inr [OF this] that show thesis by metis
qed

lemma put_credential_sync [simp]:
  "sync_inv (dt_sync (put_credential name uuid f new db)) = sync_inv (dt_sync db)"
  "db_servers (dt_sync (put_credential name uuid f new db)) = db_servers (dt_sync db)"
  "dt_tunnels (put_credential name uuid f new db) = dt_tunnels db" "dt_history (put_credential name uuid f new db) = dt_history db"
  "dt_activity (put_credential name uuid f new db) = dt_activity db"
  by (auto simp: put_credential_def split: option.splits)

lemma map_of_rename:
  assumes "map_of t a \<noteq> None" "a = b \<or> map_of t b = None" "distinct (map fst t)"
  shows "map_of (rename_key a b t) n = (if n = b then map_of t a else if n = a then None else map_of t n)"
  using assms
proof (induction t)
  case (Cons p t)
  obtain x i where p: "p = (x, i)" by (cases p)
  show ?case
  proof (cases "x = a")
    case True
    with Cons.prems(3) p have "map_of t a = None" by (simp add: map_of_eq_None_iff)
    moreover have "map_of (rename_key a b t) n = map_of t n" if "map_of t a = None" for n
      using that by (induction t) (auto simp: rename_key_def split: if_splits)
    ultimately show ?thesis using True p by (auto simp: rename_key_def)
  next
    case False
    with Cons p have "map_of (rename_key a b t) n = (if n = b then map_of t a else if n = a then None else map_of t n)"
      by (auto split: if_splits)
    moreover have "x \<noteq> b" using Cons.prems(2) False p by (auto split: if_splits)
    ultimately show ?thesis using False p by (auto simp: rename_key_def)
  qed
qed simp

lemma rename_key_snd [simp]: "map snd (rename_key a b t) = map snd t" "snd ` set (rename_key a b t) = snd ` set t"
  by (induction t) (auto simp: rename_key_def)

lemma rename_key_distinct:
  assumes "distinct (map fst t)" "a = b \<or> map_of t b = None"
  shows "distinct (map fst (rename_key a b t))"
proof -
  have "map fst (rename_key a b t) = map (\<lambda>n. if n = a then b else n) (map fst t)" by (auto simp: rename_key_def)
  moreover have "inj_on (\<lambda>n. if n = a then b else n) (set (map fst t))"
    using assms(2) by (auto simp: inj_on_def map_of_eq_None_iff image_iff)
  ultimately show ?thesis using assms(1) by (simp add: distinct_map comp_inj_on)
qed

lemma move_key_names:
  assumes "move_server_credential_key a b (dt_sync db) = Inr moved"
  shows "credential_names (db\<lparr>dt_sync := moved\<rparr>) =
      (if map_of (credential_names db) a = None then credential_names db else rename_key a b (credential_names db))"
    "map_of (credential_names db) a = None \<or> a = b \<or> map_of (credential_names db) b = None"
    "moved = (dt_sync db)\<lparr>db_credentials := db_credentials moved\<rparr>"
  using assms by (auto simp: move_server_credential_key_def credential_names_def rename_key_def split: option.splits if_splits)

lemma rename_credentials:
  assumes "credentials_inv db" "move_server_credential_key a b (dt_sync db) = Inr moved"
  shows "credentials_inv (db\<lparr>dt_sync := moved\<rparr>)"
    "credential_row_of n (db\<lparr>dt_sync := moved\<rparr>) =
      (if credential_row_of a db = None then credential_row_of n db
       else if n = b then credential_row_of a db else if n = a then None else credential_row_of n db)"
proof -
  note m = move_key_names [OF assms(2)]
  note c = assms(1) [unfolded credentials_inv_def]
  show "credentials_inv (db\<lparr>dt_sync := moved\<rparr>)"
    using c m(2) by (auto simp: credentials_inv_def m(1) rename_key_distinct)
  show "credential_row_of n (db\<lparr>dt_sync := moved\<rparr>) =
      (if credential_row_of a db = None then credential_row_of n db
       else if n = b then credential_row_of a db else if n = a then None else credential_row_of n db)"
  proof (cases "map_of (credential_names db) a")
    case None
    then show ?thesis by (simp add: credential_row_of_def m(1))
  next
    case (Some i)
    from credential_row_present [OF assms(1) Some] obtain r where "map_of (dt_secrets db) i = Some r" by blast
    with Some m(2) c show ?thesis by (auto simp: credential_row_of_def m(1) map_of_rename)
  qed
qed


lemma record_keeps_credentials:
  "record_local_change env k i deleted payload db = Inr (rv, db') \<Longrightarrow> db_credentials db' = db_credentials db"
  by (erule record_local_change_Inr) simp

lemma write_server_frame:
  assumes "write_server env s db = Inr db'" "map_of (db_servers db) (se_id s) \<noteq> None"
  shows "db_credentials db' = db_credentials db" "fst ` set (db_servers db') = fst ` set (db_servers db)"
proof -
  from assms(2) obtain old where old: "map_of (db_servers db) (se_id s) = Some old" by blast
  let ?db = "db\<lparr>db_servers := AList.update (se_id s)
      ((row_of_server s)\<lparr>sr_created_at := sr_created_at old, sr_updated_at := de_now env\<rparr>) (db_servers db)\<rparr>"
  from assms(1) old obtain rv p where r: "record_local_change (de_sync env) Server (se_id s) False (Some p) ?db = Inr (rv, db')"
    by (auto simp: write_server_def record_upsert_Inr split: if_split_asm)
  from record_keeps_credentials [OF r] show "db_credentials db' = db_credentials db" by simp
  from record_local_change_step [OF r] have "db_servers db' = db_servers ?db" by (simp add: same_domain_def)
  moreover have "se_id s \<in> fst ` set (db_servers db)" using map_of_SomeD [OF old] by force
  ultimately show "fst ` set (db_servers db') = fst ` set (db_servers db)"
    by (simp add: dom_update dom_map_of_conv_image_fst [symmetric] update_conv' insert_absorb)
qed

lemma credential_cong:
  "db_credentials (dt_sync db') = db_credentials (dt_sync db) \<Longrightarrow> dt_secrets db' = dt_secrets db \<Longrightarrow>
     credential_row_of n db' = credential_row_of n db \<and> credentials_inv db' = credentials_inv db"
  by (simp add: credential_row_of_def credentials_inv_def credential_names_def)

lemma server_update_cases:
  assumes "server_update_with_credentials env s edit db = Inr db'"
  obtains old moved db2 same where "map_of (db_servers (dt_sync db)) (se_id s) = Some old"
    "if sr_name old = se_name s then moved = dt_sync db else move_server_credential_key (sr_name old) (se_name s) (dt_sync db) = Inr moved"
    "case edit of None \<Rightarrow> db2 = db\<lparr>dt_sync := moved\<rparr>
       | Some u \<Rightarrow> update_credential env s same u (db\<lparr>dt_sync := moved\<rparr>) = Inr db2"
    "write_server env s (dt_sync db2) = Inr (dt_sync db')" "db' = db2\<lparr>dt_sync := dt_sync db'\<rparr>"
  using assms unfolding server_update_with_credentials_def Let_def
  by (elim rbind_InrE) (auto split: if_split_asm option.split_asm)

section \<open>Encryption\<close>

text \<open>\<open>env'\<close> opens what \<open>env\<close> has sealed.\<close>

definition opens :: "'v database_env \<Rightarrow> 'w database_env \<Rightarrow> bool" where
  "opens env env' \<longleftrightarrow> de_device env' = Inr () \<and> (\<forall>v c. de_encrypt env v = Inr c \<longrightarrow> de_decrypt env' c = Inr v)"

lemma decrypt_encrypted:
  assumes "opens env env'" "encrypt_credential_value env v = Inr c" "utf8_valid v"
  shows "decrypt_credential_value env' c = Inr v"
  using assms
  by (auto simp: encrypt_credential_value_def decrypt_credential_value_def opens_def from_utf8_def strip_prefix_Some enc_prefix_def
      strip_prefix_def starts_with_iff_prefix map_sum_def rbind_Inr_iff split: if_split_asm sum.split_asm)

end
