(* ===== verification/Database_Results.thy ===== *)
theory Database_Results
  imports Database_Facts
begin

text \<open>
  The properties of \<open>Database\<close>: every edit of the application keeps all tables consistent, credentials stay with
  their server and are returned as they were saved, encrypting an old database is invisible, and the listings
  of the history and of the audit trail are exact.
\<close>

definition trail_inv :: "database \<Rightarrow> bool" where
  "trail_inv db \<longleftrightarrow> sorted_wrt (<) (map fst (dt_activity db))"

lemma activity_insert_inv: "trail_inv db \<Longrightarrow> activity_insert env json db = Inr db' \<Longrightarrow> trail_inv db'"
  by (cases "dt_activity db" rule: rev_cases)
     (force simp: trail_inv_def activity_insert_def sorted_wrt_append elim!: rbind_InrE)+

section \<open>The edits of the application\<close>

datatype edit =
    AddServer server
  | UpdateServer server "credential_update option"
  | DeleteServer string
  | AddGroup string group_sync_payload
  | DeleteGroup string
  | AddSnippet string snippet_sync_payload
  | UpdateSnippet string snippet_sync_payload
  | DeleteSnippet string
  | SaveCredential string string string "string option" "string option"
  | DeleteCredential string
  | MigrateCredentials
  | RecordCommand string string
  | SetFavorite string bool
  | DeleteCommand string
  | ClearHistory string bool
  | AddTunnel tunnel_config
  | UpdateTunnel tunnel_config
  | DeleteTunnel string
  | LogActivity string

definition on_sync :: "(sync_db \<Rightarrow> db_error + sync_db) \<Rightarrow> database \<Rightarrow> db_error + database" where
  "on_sync f db = map_sum id (\<lambda>s. db\<lparr>dt_sync := s\<rparr>) (f (dt_sync db))"

fun run_edit :: "'v database_env \<Rightarrow> edit \<Rightarrow> database \<Rightarrow> db_error + database" where
  "run_edit env (AddServer s) db = on_sync (\<lambda>d. map_sum id snd (server_add env s d)) db"
| "run_edit env (UpdateServer s patch) db = server_update_with_credentials env s patch db"
| "run_edit env (DeleteServer i) db = server_delete env i db"
| "run_edit env (AddGroup i g) db = on_sync (\<lambda>d. map_sum id snd (group_add env i g d)) db"
| "run_edit env (DeleteGroup i) db = on_sync (group_delete env i) db"
| "run_edit env (AddSnippet i s) db = on_sync (\<lambda>d. map_sum id snd (snippet_add env i s d)) db"
| "run_edit env (UpdateSnippet i s) db = on_sync (snippet_update env i s) db"
| "run_edit env (DeleteSnippet i) db = on_sync (snippet_delete env i) db"
| "run_edit env (SaveCredential name auth secret phrase path) db = map_sum id snd (credential_save env name auth secret phrase path db)"
| "run_edit env (DeleteCredential name) db = Inr (credential_delete name db)"
| "run_edit env MigrateCredentials db = Inr (migrate_plaintext_credentials env db)"
| "run_edit env (RecordCommand i command) db = map_sum id snd (history_record env i command db)"
| "run_edit env (SetFavorite i favorite) db = Inr (history_set_favorite i favorite db)"
| "run_edit env (DeleteCommand i) db = Inr (history_delete i db)"
| "run_edit env (ClearHistory i favorites) db = Inr (history_clear i favorites db)"
| "run_edit env (AddTunnel config) db = map_sum id snd (tunnel_config_add env config db)"
| "run_edit env (UpdateTunnel config) db = Inr (tunnel_config_update config db)"
| "run_edit env (DeleteTunnel i) db = Inr (tunnel_config_delete i db)"
| "run_edit env (LogActivity json) db = activity_insert env json db"

text \<open>An edit refers to groups and servers that have not been deleted.\<close>

fun edit_refs_live :: "edit \<Rightarrow> sync_db \<Rightarrow> bool" where
  "edit_refs_live (AddServer s) db = references_live (se_group_id s) (se_jump_host_id s) db"
| "edit_refs_live (UpdateServer s _) db = references_live (se_group_id s) (se_jump_host_id s) db"
| "edit_refs_live (AddGroup _ g) db = references_live (gp_parent_id g) None db"
| "edit_refs_live _ _ = True"

definition server_ids :: "sync_db \<Rightarrow> string set" where
  "server_ids db = fst ` set (db_servers db)"

text \<open>The tables of the device refer to servers that exist; a command is in the history of a server once.\<close>

definition device_inv :: "database \<Rightarrow> bool" where
  "device_inv db \<longleftrightarrow>
     tc_server_id ` set (dt_tunnels db) \<subseteq> server_ids (dt_sync db) \<and>
     he_server_id ` set (dt_history db) \<subseteq> server_ids (dt_sync db) \<and>
     distinct (map (\<lambda>h. (he_server_id h, he_command h)) (dt_history db)) \<and>
     distinct (map tc_id (dt_tunnels db))"

definition database_inv :: "database \<Rightarrow> bool" where
  "database_inv db \<longleftrightarrow> sync_inv (dt_sync db) \<and> credentials_inv db \<and> device_inv db \<and> trail_inv db"

text \<open>What a change of the synchronised tables leaves alone.\<close>

definition keeps :: "sync_db \<Rightarrow> sync_db \<Rightarrow> bool" where
  "keeps d d' \<longleftrightarrow> db_credentials d' = db_credentials d \<and> server_ids d \<subseteq> server_ids d'"

lemma record_keeps: "record_local_change env k i deleted payload d = Inr (rv, d') \<Longrightarrow> keeps d d' \<and> server_ids d' = server_ids d"
  using record_keeps_credentials [of env k i deleted payload d rv d'] record_local_change_step [of env k i deleted payload d rv d']
  by (simp add: keeps_def server_ids_def same_domain_def)

lemma record_upsert_keeps:
  "record_server_upsert env i p d = Inr d' \<Longrightarrow> keeps d d' \<and> server_ids d' = server_ids d"
  "record_group_upsert env i g d = Inr d' \<Longrightarrow> keeps d d' \<and> server_ids d' = server_ids d"
  "record_snippet_upsert env i s d = Inr d' \<Longrightarrow> keeps d d' \<and> server_ids d' = server_ids d"
  "record_local_delete env k i d = Inr d' \<Longrightarrow> keeps d d' \<and> server_ids d' = server_ids d"
  by (auto simp: record_upsert_Inr dest: record_keeps)

lemma keeps_trans: "keeps a b \<Longrightarrow> keeps b c \<Longrightarrow> keeps a c"
  by (auto simp: keeps_def)

lemma record_current_keeps: "record_current_upsert env k i d = Inr d' \<Longrightarrow> keeps d d' \<and> server_ids d' = server_ids d"
  by (auto simp: record_current_upsert_def record_local_upsert_def map_sum_def
      dest!: record_keeps elim!: rbind_InrE split: sum.splits)

lemma record_all_keeps:
  assumes "foldm (\<lambda>d i. record_current_upsert env k i d) d ids = Inr d'"
  shows "keeps d d' \<and> server_ids d' = server_ids d"
  by (rule foldm_invariant [OF assms, of "\<lambda>e. keeps d e \<and> server_ids e = server_ids d"])
     (auto simp: keeps_def dest: record_current_keeps)

lemma server_ids_simps [simp]:
  "server_ids (d\<lparr>db_servers := t\<rparr>) = fst ` set t" "server_ids (d\<lparr>db_groups := g\<rparr>) = server_ids d"
  "server_ids (d\<lparr>db_groups := g, db_servers := t\<rparr>) = fst ` set t" "server_ids (d\<lparr>db_snippets := n\<rparr>) = server_ids d"
  by (simp_all add: server_ids_def)

lemma map_values_keys: "fst ` (\<lambda>(j, r). (j, f r)) ` S = fst ` S"
  by force

lemma keepsI:
  "keeps d1 d' \<and> server_ids d' = server_ids d1 \<Longrightarrow> db_credentials d1 = db_credentials d \<Longrightarrow> server_ids d \<subseteq> server_ids d1 \<Longrightarrow> keeps d d'"
  by (simp add: keeps_def)

lemma keeps_refl: "keeps d d"
  by (simp add: keeps_def)

lemma detach_keeps:
  "detach_server_references env i True d = Inr d' \<Longrightarrow> keeps d d' \<and> server_ids d' = server_ids d"
  "detach_group_references env i True d = Inr d' \<Longrightarrow> keeps d d' \<and> server_ids d' = server_ids d"
proof -
  let ?f = "\<lambda>s. if sr_jump_host_id s = Some i then s\<lparr>sr_jump_host_id := None\<rparr> else s"
  let ?db = "d\<lparr>db_servers := map (\<lambda>(j, s). (j, ?f s)) (db_servers d)\<rparr>"
  assume "detach_server_references env i True d = Inr d'"
  then obtain ids where r: "foldm (\<lambda>d i. record_current_upsert env Server i d) ?db ids = Inr d'"
    by (auto simp: detach_server_references_def Let_def)
  have "server_ids ?db = server_ids d" by (simp add: map_values_keys) (simp add: server_ids_def)
  with record_all_keeps [OF r] show "keeps d d' \<and> server_ids d' = server_ids d" by (simp add: keeps_def)
next
  let ?f = "\<lambda>s. if sr_group_id s = Some i then s\<lparr>sr_group_id := None\<rparr> else s"
  let ?h = "\<lambda>g. if gp_parent_id g = Some i then g\<lparr>gp_parent_id := None\<rparr> else g"
  let ?db = "d\<lparr>db_groups := map (\<lambda>(j, g). (j, ?h g)) (db_groups d), db_servers := map (\<lambda>(j, s). (j, ?f s)) (db_servers d)\<rparr>"
  assume "detach_group_references env i True d = Inr d'"
  then obtain ids ids' db2 where
    r: "foldm (\<lambda>d i. record_current_upsert env Group i d) ?db ids = Inr db2"
      "foldm (\<lambda>d i. record_current_upsert env Server i d) db2 ids' = Inr d'"
    by (auto simp: detach_group_references_def Let_def elim!: rbind_InrE)
  have "server_ids ?db = server_ids d" by (simp add: map_values_keys) (simp add: server_ids_def)
  with record_all_keeps [OF r(1)] record_all_keeps [OF r(2)] show "keeps d d' \<and> server_ids d' = server_ids d"
    by (simp add: keeps_def)
qed

lemma sync_edits_keep:
  "server_add env s d = Inr (s', d') \<Longrightarrow> keeps d d'"
  "group_add env i g d = Inr (j, d') \<Longrightarrow> keeps d d'"
  "snippet_add env i n d = Inr (r, d') \<Longrightarrow> keeps d d'"
  "snippet_update env i n d = Inr d' \<Longrightarrow> keeps d d'"
  "snippet_delete env i d = Inr d' \<Longrightarrow> keeps d d'"
  "group_delete env i d = Inr d' \<Longrightarrow> keeps d d'"
proof -
  show "keeps d d'" if "server_add env s d = Inr (s', d')"
    using that by (auto simp: server_add_def Let_def server_ids_def [of d] split: if_split_asm elim!: rbind_InrE
        intro: keepsI [OF record_upsert_keeps(1)])
  show "keeps d d'" if "group_add env i g d = Inr (j, d')"
    using that by (auto simp: group_add_def Let_def split: if_split_asm elim!: rbind_InrE intro: keepsI [OF record_upsert_keeps(2)])
  show "keeps d d'" if "snippet_add env i n d = Inr (r, d')"
    using that by (auto simp: snippet_add_def Let_def split: if_split_asm elim!: rbind_InrE intro: keepsI [OF record_upsert_keeps(3)])
  show "keeps d d'" if "snippet_update env i n d = Inr d'"
    using that by (auto simp: snippet_update_def split: option.split_asm intro: keepsI [OF record_upsert_keeps(3)] keeps_refl)
  show "keeps d d'" if "snippet_delete env i d = Inr d'"
    using that by (auto simp: snippet_delete_def intro: keepsI [OF record_upsert_keeps(4)])
  show "keeps d d'" if "group_delete env i d = Inr d'"
    using that by (auto simp: group_delete_def elim!: rbind_InrE dest!: detach_keeps(2) record_upsert_keeps(4)) (auto simp: keeps_def)
qed

lemma on_sync_inv:
  assumes "on_sync f db = Inr db'" "database_inv db"
    and "\<And>d. f (dt_sync db) = Inr d \<Longrightarrow> keeps (dt_sync db) d \<and> sync_inv d"
  shows "database_inv db'"
proof -
  from assms(1) obtain d where d: "f (dt_sync db) = Inr d" "db' = db\<lparr>dt_sync := d\<rparr>"
    by (auto simp: on_sync_def map_sum_def split: sum.splits)
  with assms(3) [OF d(1)] assms(2) show ?thesis
    by (auto simp: database_inv_def device_inv_def trail_inv_def credentials_inv_def credential_names_def keeps_def)
qed

lemma device_inv_cong:
  "device_inv db \<Longrightarrow> dt_tunnels db' = dt_tunnels db \<Longrightarrow> dt_history db' = dt_history db \<Longrightarrow>
     server_ids (dt_sync db) \<subseteq> server_ids (dt_sync db') \<Longrightarrow> device_inv db'"
  by (auto simp: device_inv_def)

lemma with_names_ids [simp]: "server_ids (dt_sync (with_names t db)) = server_ids (dt_sync db)"
  by (simp add: server_ids_def)

lemma put_credential_keeps:
  "device_inv (put_credential name uuid f new db) = device_inv db" "trail_inv (put_credential name uuid f new db) = trail_inv db"
  "references_live g j (dt_sync (put_credential name uuid f new db)) = references_live g j (dt_sync db)"
  by (auto simp: put_credential_def device_inv_def trail_inv_def references_live_def tombstones_def with_names_def
      server_ids_def split: option.splits)

lemma put_credential_database_inv:
  assumes "database_inv db" "map_of (credential_names db) name = None \<longrightarrow> map_of (dt_secrets db) uuid = None"
  shows "database_inv (put_credential name uuid f new db)"
  using assms put_credential_inv [OF _ assms(2), of f new] by (simp add: database_inv_def put_credential_keeps)

lemma with_names_inv: "database_inv (with_names (credential_names db) db) = database_inv db"
  by (simp add: database_inv_def credentials_inv_def device_inv_def trail_inv_def)

lemma credential_save_inv:
  assumes "database_inv db" "credential_save env name auth c phrase path db = Inr (i, db')"
  shows "database_inv db'"
  using assms(2)
proof (rule credential_save_Inr)
  fix ec ep
  let ?db = "with_names (credential_names db) db"
  assume d: "db' = put_credential name (de_uuid env)
       (\<lambda>r. r\<lparr>cw_auth_type := auth, cw_credential := ec, cw_passphrase := ep, cw_key_path := path\<rparr>)
       \<lparr>cw_auth_type = auth, cw_credential = ec, cw_passphrase = ep, cw_key_path = path, cw_created_at = de_now env\<rparr> ?db"
    and "map_of (credential_names db) name = None \<longrightarrow> map_of (dt_secrets db) (de_uuid env) = None"
  then have "map_of (credential_names ?db) name = None \<longrightarrow> map_of (dt_secrets ?db) (de_uuid env) = None" by simp
  then show "database_inv db'" unfolding d using assms(1) by (intro put_credential_database_inv) (simp_all add: with_names_inv)
qed

lemma credential_delete_inv:
  assumes "database_inv db"
  shows "database_inv (credential_delete name db)"
proof (cases "map_of (credential_names db) name")
  case None
  then show ?thesis using assms by (simp add: credential_delete_def with_names_inv)
next
  case (Some i)
  let ?names = "filter (\<lambda>(n, _). n \<noteq> name) (credential_names db)"
  let ?db = "with_names ?names (db\<lparr>dt_secrets := AList.delete i (dt_secrets db)\<rparr>)"
  have e: "credential_delete name db = ?db" using Some by (simp add: credential_delete_def Let_def) (simp add: with_names_def)
  have c: "credentials_inv db" using assms by (simp add: database_inv_def)
  have others: "j \<noteq> i" if "(n, j) \<in> set (credential_names db)" "n \<noteq> name" for n j
  proof -
    have "map_of (credential_names db) n = Some j" using that(1) c by (simp add: credentials_inv_def)
    with inv_on_names [OF c Some] that(2) show ?thesis by blast
  qed
  have "i \<notin> snd ` set ?names" by (auto dest: others)
  moreover have "snd ` set (credential_names db) \<subseteq> insert i (snd ` set ?names)"
  proof
    fix j assume "j \<in> snd ` set (credential_names db)"
    then obtain n where n: "(n, j) \<in> set (credential_names db)" by auto
    show "j \<in> insert i (snd ` set ?names)"
    proof (cases "n = name")
      case True
      with n c have "map_of (credential_names db) name = Some j" by (simp add: credentials_inv_def)
      with Some show ?thesis by simp
    next
      case False
      with n have "(n, j) \<in> set ?names" by simp
      then show ?thesis by force
    qed
  qed
  ultimately have "snd ` set ?names = snd ` set (credential_names db) - {i}" by auto
  moreover have "distinct (map fst ?names)" "distinct (map snd ?names)"
    using c by (auto simp: credentials_inv_def intro: distinct_map_filter)
  ultimately have "credentials_inv ?db"
    using c by (simp add: credentials_inv_def distinct_delete delete_keys distinct_removeAll)
  then show ?thesis using assms unfolding e by (simp add: database_inv_def device_inv_def trail_inv_def)
qed

lemma migrate_all_keys: "map fst (foldl (migrate_one env) rows pending) = map fst rows"
proof (induction pending arbitrary: rows)
  case (Cons p pending)
  have "map fst (migrate_one env rows p) = map fst rows" by (auto simp: migrate_one_def split: prod.splits sum.splits)
  with Cons show ?case by simp
qed simp

lemma migrate_inv:
  assumes "database_inv db"
  shows "database_inv (migrate_plaintext_credentials env db)"
proof -
  let ?db = "with_names (credential_names db) db"
  have db: "database_inv ?db" using assms by (simp add: with_names_inv)
  obtain t where t: "migrate_plaintext_credentials env db = ?db\<lparr>dt_secrets := t\<rparr>" "map fst t = map fst (dt_secrets db)"
  proof (cases "filter (\<lambda>(_, r). has_plaintext r) (dt_secrets db) = [] \<or> \<not> is_ok (de_device env)")
    case True
    then have "migrate_plaintext_credentials env db = ?db\<lparr>dt_secrets := dt_secrets db\<rparr>"
      by (auto simp: migrate_plaintext_credentials_def Let_def with_names_def)
    then show thesis by (intro that) simp_all
  next
    case False
    then have "migrate_plaintext_credentials env db =
        ?db\<lparr>dt_secrets := foldl (migrate_one env) (dt_secrets db) (filter (\<lambda>(_, r). has_plaintext r) (dt_secrets db))\<rparr>"
      by (auto simp: migrate_plaintext_credentials_def Let_def)
    then show thesis by (rule that) (rule migrate_all_keys)
  qed
  have "fst ` set t = fst ` set (dt_secrets db)" using arg_cong [OF t(2), of set] by simp
  with db t(2) show ?thesis
    unfolding t(1) by (simp add: database_inv_def credentials_inv_def device_inv_def trail_inv_def)
qed

lemma credentials_change:
  "database_inv db \<Longrightarrow> credentials_inv (db\<lparr>dt_sync := moved\<rparr>) \<Longrightarrow>
     moved = (dt_sync db)\<lparr>db_credentials := cs\<rparr> \<Longrightarrow> database_inv (db\<lparr>dt_sync := moved\<rparr>)"
  using sync_inv_cong [of "dt_sync db" moved] by (simp add: database_inv_def device_inv_def trail_inv_def server_ids_def)

lemma server_update_inv:
  assumes "database_inv db" "clock_bounded env" "server_update_with_credentials env s patch db = Inr db'"
    and "references_live (se_group_id s) (se_jump_host_id s) (dt_sync db)"
  shows "database_inv db'"
proof -
  from assms(3) obtain old moved db2 same where u: "map_of (db_servers (dt_sync db)) (se_id s) = Some old"
    "if sr_name old = se_name s then moved = dt_sync db else move_server_credential_key (sr_name old) (se_name s) (dt_sync db) = Inr moved"
    "case patch of None \<Rightarrow> db2 = db\<lparr>dt_sync := moved\<rparr>
       | Some u \<Rightarrow> update_credential env s same u (db\<lparr>dt_sync := moved\<rparr>) = Inr db2"
    "write_server env s (dt_sync db2) = Inr (dt_sync db')" "db' = db2\<lparr>dt_sync := dt_sync db'\<rparr>"
    by (elim server_update_cases)
  have db1: "database_inv (db\<lparr>dt_sync := moved\<rparr>) \<and> db_servers moved = db_servers (dt_sync db) \<and> db_states moved = db_states (dt_sync db)"
  proof (cases "sr_name old = se_name s")
    case False
    with u(2) have m: "move_server_credential_key (sr_name old) (se_name s) (dt_sync db) = Inr moved" by simp
    have c: "credentials_inv db" using assms(1) by (simp add: database_inv_def)
    note eq = move_key_names(3) [OF m]
    from credentials_change [OF assms(1) rename_credentials(1) [OF c m] eq] credentials_only(5,7) [OF eq] show ?thesis by simp
  qed (use u(2) assms(1) in simp)
  have db2: "database_inv db2 \<and> map_of (db_servers (dt_sync db2)) (se_id s) \<noteq> None \<and>
      references_live (se_group_id s) (se_jump_host_id s) (dt_sync db2)"
  proof (cases patch)
    case None
    with u(1,3) db1 assms(4) show ?thesis by (simp add: references_live_def tombstones_def)
  next
    case (Some p)
    with u(3) have "update_credential env s same p (db\<lparr>dt_sync := moved\<rparr>) = Inr db2" by simp
    then show ?thesis
    proof (rule update_credential_Inr)
      fix f new
      assume p: "db2 = put_credential (se_name s) (de_uuid env) f new (db\<lparr>dt_sync := moved\<rparr>)"
        "map_of (credential_names (db\<lparr>dt_sync := moved\<rparr>)) (se_name s) = None \<longrightarrow> map_of (dt_secrets (db\<lparr>dt_sync := moved\<rparr>)) (de_uuid env) = None"
      from put_credential_database_inv [OF _ p(2), of f new] db1 u(1) assms(4) show ?thesis
        by (simp add: p(1) put_credential_keeps) (simp add: references_live_def tombstones_def)
    qed
  qed
  have "sync_inv (dt_sync db')" using write_server_inv [OF _ assms(2) u(4)] db2 by (simp add: database_inv_def)
  moreover have frame: "db_credentials (dt_sync db') = db_credentials (dt_sync db2)" "server_ids (dt_sync db') = server_ids (dt_sync db2)"
    using write_server_frame [OF u(4)] db2 by (simp_all add: server_ids_def)
  moreover have "dt_secrets db' = dt_secrets db2" "dt_tunnels db' = dt_tunnels db2" "dt_history db' = dt_history db2"
    "dt_activity db' = dt_activity db2" by (subst u(5), simp)+
  ultimately show ?thesis using db2 credential_cong [of db' db2]
    by (auto simp: database_inv_def trail_inv_def intro: device_inv_cong)
qed

lemma delete_ids: "fst ` set (AList.delete i xs) = fst ` set xs - {i}"
  by (induction xs) auto

lemma server_delete_database_inv:
  assumes "database_inv db" "clock_bounded env" "server_delete env i db = Inr db'"
  shows "database_inv db'"
proof -
  from assms(3) obtain d where d: "detach_server_references (de_sync env) i True (dt_sync db) = Inr d"
    "record_local_delete (de_sync env) Server i (d\<lparr>db_servers := AList.delete i (db_servers d)\<rparr>) = Inr (dt_sync db')"
    "db' = db\<lparr>dt_sync := dt_sync db', dt_tunnels := filter (\<lambda>c. tc_server_id c \<noteq> i) (dt_tunnels db),
       dt_history := filter (\<lambda>h. he_server_id h \<noteq> i) (dt_history db)\<rparr>"
    by (auto simp: server_delete_def elim!: rbind_InrE)
  have same: "dt_secrets db' = dt_secrets db" "dt_activity db' = dt_activity db"
    "dt_tunnels db' = filter (\<lambda>c. tc_server_id c \<noteq> i) (dt_tunnels db)"
    "dt_history db' = filter (\<lambda>h. he_server_id h \<noteq> i) (dt_history db)" by (subst d(3), simp)+
  have "db_credentials (dt_sync db') = db_credentials (dt_sync db)"
    and ids: "server_ids (dt_sync db') = server_ids (dt_sync db) - {i}"
    using detach_keeps(1) [OF d(1)] record_upsert_keeps(4) [OF d(2)]
    by (simp_all add: keeps_def delete_ids server_ids_def [of d])
  then have "credentials_inv db'" using credential_cong [of db' db] same assms(1) by (simp add: database_inv_def)
  moreover have "sync_inv (dt_sync db')" using server_delete_inv [OF _ assms(2,3)] assms(1) by (simp add: database_inv_def)
  moreover have "device_inv db'" using assms(1) ids same
    by (auto simp: database_inv_def device_inv_def intro: distinct_map_filter)
  ultimately show ?thesis using assms(1) same by (simp add: database_inv_def trail_inv_def)
qed

lemma device_edit_inv:
  assumes "database_inv db" "device_inv db'" "dt_sync db' = dt_sync db" "dt_secrets db' = dt_secrets db" "dt_activity db' = dt_activity db"
  shows "database_inv db'"
  using assms credential_cong [of db' db] by (simp add: database_inv_def trail_inv_def)

lemma known_server: "map_of (db_servers d) i \<noteq> None \<Longrightarrow> i \<in> server_ids d"
  by (force simp: server_ids_def dest: map_of_SomeD)

lemma device_inv_history:
  assumes "device_inv db" "map (\<lambda>h. (he_server_id h, he_command h)) t = map (\<lambda>h. (he_server_id h, he_command h)) (dt_history db)"
  shows "device_inv (db\<lparr>dt_history := t\<rparr>)"
proof -
  have "he_server_id ` set t = he_server_id ` set (dt_history db)"
    using arg_cong [OF assms(2), of "\<lambda>ks. set (map fst ks)"] by (simp add: image_image)
  with assms show ?thesis by (simp add: device_inv_def)
qed

lemma history_record_inv:
  assumes "database_inv db" "history_record env i command db = Inr (h, db')"
  shows "database_inv db'"
proof -
  let ?c = "trim command" and ?same = "\<lambda>h. he_server_id h = i \<and> he_command h = trim command"
  from assms(2) have known: "i \<in> server_ids (dt_sync db)"
    by (auto simp: history_record_def Let_def intro: known_server split: if_split_asm)
  show ?thesis
  proof (cases "List.find ?same (dt_history db)")
    case (Some old)
    let ?key = "\<lambda>h. (he_server_id h, he_command h)"
    from assms(2) Some have d: "db' = db\<lparr>dt_history := map (\<lambda>e. if e = old then h else e) (dt_history db)\<rparr>"
      "?key h = ?key old"
      by (auto simp: history_record_def Let_def split: if_split_asm)
    have "device_inv db'" using assms(1) d(2) by (auto simp: d(1) database_inv_def intro!: device_inv_history)
    then show ?thesis by (intro device_edit_inv [OF assms(1)]) (simp_all add: d(1))
  next
    case None
    with assms(2) have d: "db' = db\<lparr>dt_history := dt_history db @ [h]\<rparr>" "he_server_id h = i" "he_command h = ?c"
      by (auto simp: history_record_def Let_def split: if_split_asm)
    have "(i, ?c) \<noteq> (he_server_id e, he_command e)" if "e \<in> set (dt_history db)" for e
      using None that by (auto simp: find_None_iff)
    then show ?thesis using assms(1) known d
      by (intro device_edit_inv [OF assms(1)]) (auto simp: device_inv_def database_inv_def)
  qed
qed

lemma history_keeps:
  assumes "device_inv db"
  shows "device_inv (history_set_favorite i favorite db)" "device_inv (history_delete i db)" "device_inv (history_clear j favorites db)"
proof -
  show "device_inv (history_set_favorite i favorite db)"
    using device_inv_history [OF assms] by (simp add: history_set_favorite_def if_distrib cong: if_cong)
  show "device_inv (history_delete i db)" "device_inv (history_clear j favorites db)"
    using assms by (auto simp: history_delete_def history_clear_def device_inv_def intro: distinct_map_filter)
qed

lemma tunnels_keep:
  assumes "device_inv db"
  shows "device_inv (tunnel_config_update c db)" "device_inv (tunnel_config_delete i db)"
    "tunnel_config_add env c db = Inr (c', db') \<Longrightarrow> device_inv db'"
proof -
  let ?db = "tunnel_config_update c db"
  have "map tc_server_id (dt_tunnels ?db) = map tc_server_id (dt_tunnels db)" by (auto simp: tunnel_config_update_def)
  from arg_cong [OF this, of set] have "tc_server_id ` set (dt_tunnels ?db) = tc_server_id ` set (dt_tunnels db)" by simp
  moreover have "map tc_id (dt_tunnels ?db) = map tc_id (dt_tunnels db)" by (auto simp: tunnel_config_update_def)
  ultimately show "device_inv ?db" using assms by (simp add: device_inv_def) (simp add: tunnel_config_update_def)
  show "device_inv (tunnel_config_delete i db)"
    using assms by (auto simp: tunnel_config_delete_def device_inv_def intro: distinct_map_filter)
  show "device_inv db'" if "tunnel_config_add env c db = Inr (c', db')"
    using that assms by (force simp: tunnel_config_add_def device_inv_def Let_def list_ex_iff intro: known_server split: if_split_asm)
qed


section \<open>Credentials follow their server\<close>

text \<open>C20: a change of a server that gives no new secret keeps the saved credentials with the server: under its new name
  they are what they were under the old one, nobody else's are touched, and a change whose new name is that
  of other saved credentials fails as a whole instead of replacing them.\<close>

theorem credentials_follow_their_server:
  assumes "credentials_inv db" "map_of (db_servers (dt_sync db)) (se_id s) = Some old" "server_update env s db = Inr db'"
  shows "credentials_inv db' \<and>
    (\<forall>n. credential_row_of n db' =
      (if credential_row_of (sr_name old) db = None then credential_row_of n db
       else if n = se_name s then credential_row_of (sr_name old) db
       else if n = sr_name old then None else credential_row_of n db)) \<and>
    (sr_name old \<noteq> se_name s \<longrightarrow> credential_row_of (sr_name old) db \<noteq> None \<longrightarrow> credential_row_of (se_name s) db = None)"
proof -
  from assms(2,3) obtain moved where m:
    "if sr_name old = se_name s then moved = dt_sync db else move_server_credential_key (sr_name old) (se_name s) (dt_sync db) = Inr moved"
    "write_server env s moved = Inr (dt_sync db')" "db' = (db\<lparr>dt_sync := moved\<rparr>)\<lparr>dt_sync := dt_sync db'\<rparr>"
    unfolding server_update_def by (elim server_update_cases) auto
  have "db_servers moved = db_servers (dt_sync db)"
    using m(1) move_key_names(3) [of "sr_name old" "se_name s" db moved]
    by (cases "sr_name old = se_name s") (auto dest: credentials_only(7))
  with write_server_frame(1) [OF m(2)] assms(2) have "db_credentials (dt_sync db') = db_credentials moved" by simp
  moreover have "dt_secrets db' = dt_secrets db" by (subst m(3)) simp
  ultimately have cong: "credential_row_of n db' = credential_row_of n (db\<lparr>dt_sync := moved\<rparr>) \<and>
      credentials_inv db' = credentials_inv (db\<lparr>dt_sync := moved\<rparr>)" for n
    by (intro credential_cong) simp_all
  show ?thesis
  proof (cases "sr_name old = se_name s")
    case True
    with m(1) assms(1) cong show ?thesis by simp
  next
    case False
    with m(1) have mv: "move_server_credential_key (sr_name old) (se_name s) (dt_sync db) = Inr moved" by simp
    have "credential_row_of (se_name s) db = None" if "credential_row_of (sr_name old) db \<noteq> None"
      using move_key_names(2) [OF mv] that False by (auto simp: credential_row_of_def)
    with rename_credentials [OF assms(1) mv] False cong show ?thesis by simp
  qed
qed

section \<open>Saved credentials\<close>

lemma on_option_decrypt:
  assumes "opens env env'" "on_option (encrypt_credential_value env) v = Inr c" "\<forall>x. v = Some x \<longrightarrow> utf8_valid x"
  shows "on_option (decrypt_credential_value env') c = Inr v"
  using assms by (cases v) (auto simp: on_option_def rbind_Inr_iff decrypt_encrypted)

definition read_row :: "'v database_env \<Rightarrow> string \<Rightarrow> credential_row \<Rightarrow> db_error + stored_credential option" where
  "read_row env name r =
     rbind (decrypt_credential_value env (cw_credential r)) (\<lambda>credential.
     rbind (on_option (decrypt_credential_value env) (cw_passphrase r)) (\<lambda>passphrase.
     Inr (Some \<lparr>cd_server_name = name, cd_auth_type = cw_auth_type r, cd_credential = credential,
                cd_passphrase = passphrase, cd_key_path = cw_key_path r\<rparr>)))"

lemma credential_get_row:
  "credential_get env name db = (case credential_row_of name db of None \<Rightarrow> Inr None | Some r \<Rightarrow> read_row env name r)"
  by (simp add: credential_get_def read_row_def split: option.split)

text \<open>C35: what is saved for a server is what is read for it, and nothing else that is saved changes: whatever the
  secret is, also when it is empty or looks like a stored one.\<close>

theorem saved_credential_is_returned:
  assumes "credentials_inv db" "credential_save env name auth credential passphrase path db = Inr (i, db')"
    and "opens env env'" "utf8_valid credential" "\<forall>p. passphrase = Some p \<longrightarrow> utf8_valid p"
  shows "credentials_inv db' \<and>
    credential_get env' name db' = Inr (Some \<lparr>cd_server_name = name, cd_auth_type = auth, cd_credential = credential,
      cd_passphrase = passphrase, cd_key_path = path\<rparr>) \<and>
    (\<forall>n. n \<noteq> name \<longrightarrow> credential_get env' n db' = credential_get env' n db)"
  using assms(2)
proof (rule credential_save_Inr)
  let ?db = "with_names (credential_names db) db"
  fix ec ep
  assume e: "encrypt_credential_value env credential = Inr ec" "on_option (encrypt_credential_value env) passphrase = Inr ep"
    and db': "db' = put_credential name (de_uuid env)
       (\<lambda>r. r\<lparr>cw_auth_type := auth, cw_credential := ec, cw_passphrase := ep, cw_key_path := path\<rparr>)
       \<lparr>cw_auth_type = auth, cw_credential = ec, cw_passphrase = ep, cw_key_path = path, cw_created_at = de_now env\<rparr> ?db"
    and fresh: "map_of (credential_names db) name = None \<longrightarrow> map_of (dt_secrets db) (de_uuid env) = None"
  have inv: "credentials_inv ?db" and row: "credential_row_of n ?db = credential_row_of n db" for n
    using assms(1) by (simp_all add: credentials_inv_def credential_row_of_def)
  have f: "map_of (credential_names ?db) name = None \<longrightarrow> map_of (dt_secrets ?db) (de_uuid env) = None" using fresh by simp
  note p = put_credential_inv [OF inv f] put_credential_row [OF inv f]
  have "credential_row_of name db' \<noteq> None" by (simp add: db' p(2))
  then obtain r where r: "credential_row_of name db' = Some r" by blast
  then have fields: "cw_auth_type r = auth" "cw_credential r = ec" "cw_passphrase r = ep" "cw_key_path r = path"
    by (auto simp: db' p(2) split: option.splits)
  have "credential_get env' name db' = Inr (Some \<lparr>cd_server_name = name, cd_auth_type = auth, cd_credential = credential,
      cd_passphrase = passphrase, cd_key_path = path\<rparr>)"
    using decrypt_encrypted [OF assms(3) e(1) assms(4)] on_option_decrypt [OF assms(3) e(2) assms(5)]
    by (simp add: credential_get_row r read_row_def fields)
  moreover have "credential_get env' n db' = credential_get env' n db" if "n \<noteq> name" for n
    using that by (simp add: credential_get_row db' p(2) row)
  ultimately show ?thesis using p(1) db' by simp
qed

section \<open>Migration\<close>

definition migrated :: "'v database_env \<Rightarrow> credential_row \<Rightarrow> credential_row" where
  "migrated env r = (case migrate_row env r of Inr new \<Rightarrow> new | Inl _ \<Rightarrow> r)"

lemma migrate_row_fields:
  "migrate_row env r = Inr new \<Longrightarrow> new = r\<lparr>cw_credential := cw_credential new, cw_passphrase := cw_passphrase new\<rparr>"
  by (auto simp: migrate_row_def elim!: rbind_InrE)

lemma migrate_one_row:
  assumes "map_of rows i = Some r"
  shows "map_of (migrate_one env rows (i, r)) j = (if j = i then Some (migrated env r) else map_of rows j)"
  using assms migrate_row_fields [of env r]
  by (auto simp: migrate_one_def migrated_def map_of_map_entry split: sum.splits)

lemma migrate_one_keys [simp]: "map fst (migrate_one env rows p) = map fst rows"
  by (auto simp: migrate_one_def split: prod.splits sum.splits)

lemma map_of_filter_rows:
  assumes "distinct (map fst xs)"
  shows "map_of (filter (\<lambda>(_, r). P r) xs) j = (case map_of xs j of Some r \<Rightarrow> if P r then Some r else None | None \<Rightarrow> None)"
  using assms by (induction xs) (auto simp: map_of_eq_None_iff split: option.splits)

lemma migrate_all:
  assumes "distinct (map fst pending)" "\<forall>(i, r) \<in> set pending. map_of rows i = Some r"
  shows "map_of (foldl (migrate_one env) rows pending) j =
      (case map_of pending j of None \<Rightarrow> map_of rows j | Some r \<Rightarrow> Some (migrated env r))"
    "map fst (foldl (migrate_one env) rows pending) = map fst rows"
proof -
  show "map_of (foldl (migrate_one env) rows pending) j =
      (case map_of pending j of None \<Rightarrow> map_of rows j | Some r \<Rightarrow> Some (migrated env r))"
    using assms
  proof (induction pending arbitrary: rows)
    case (Cons p pending)
    obtain i r where p: "p = (i, r)" by (cases p)
    have i: "map_of rows i = Some r" "i \<notin> fst ` set pending" using Cons.prems p by auto
    have "\<forall>(i', r') \<in> set pending. map_of (migrate_one env rows p) i' = Some r'"
      using Cons.prems i by (force simp: p migrate_one_row)
    with Cons.prems Cons.IH [of "migrate_one env rows p"] have
      "map_of (foldl (migrate_one env) rows (p # pending)) j =
        (case map_of pending j of None \<Rightarrow> map_of (migrate_one env rows p) j | Some r \<Rightarrow> Some (migrated env r))" by simp
    moreover have "map_of pending i = None" using i(2) by (simp add: map_of_eq_None_iff)
    ultimately show ?case using migrate_one_row [OF i(1), of env] by (auto simp: p split: option.splits)
  qed simp
  show "map fst (foldl (migrate_one env) rows pending) = map fst rows"
    by (induction pending arbitrary: rows) simp_all
qed

lemma decrypt_plain: "\<not> starts_with v enc_prefix \<Longrightarrow> decrypt_credential_value env v = Inr v"
  by (simp add: decrypt_credential_value_def strip_prefix_def)

lemma migrate_field_invisible:
  assumes "opens env env'" "migrate_field env v = Inr w" "starts_with v enc_prefix \<or> utf8_valid v"
  shows "decrypt_credential_value env' w = decrypt_credential_value env' v"
  using assms decrypt_encrypted [OF assms(1), of v w] decrypt_plain [of v env']
  by (auto simp: migrate_field_def split: if_splits)

lemma migrate_field_enc: "migrate_field env v = Inr w \<Longrightarrow> \<not> plain_value w"
  by (auto simp: migrate_field_def encrypt_credential_value_def plain_value_def starts_with_iff_prefix elim!: rbind_InrE split: if_splits)

definition row_text_ok :: "credential_row \<Rightarrow> bool" where
  "row_text_ok r \<longleftrightarrow> utf8_valid (cw_credential r) \<and> (\<forall>p. cw_passphrase r = Some p \<longrightarrow> utf8_valid p)"

lemma migrated_invisible:
  assumes "opens env env'" "row_text_ok r"
  shows "read_row env' n (migrated env r) = read_row env' n r"
proof (cases "migrate_row env r")
  case (Inr new)
  then obtain c p where m: "migrate_field env (cw_credential r) = Inr c"
    "on_option (migrate_field env) (cw_passphrase r) = Inr p" "new = r\<lparr>cw_credential := c, cw_passphrase := p\<rparr>"
    by (auto simp: migrate_row_def elim!: rbind_InrE)
  have "decrypt_credential_value env' c = decrypt_credential_value env' (cw_credential r)"
    using migrate_field_invisible [OF assms(1) m(1)] assms(2) by (simp add: row_text_ok_def)
  moreover have "on_option (decrypt_credential_value env') p = on_option (decrypt_credential_value env') (cw_passphrase r)"
    using m(2) assms(2) migrate_field_invisible [OF assms(1)]
    by (cases "cw_passphrase r") (auto simp: on_option_def row_text_ok_def elim!: rbind_InrE)
  ultimately show ?thesis using Inr m(3) by (simp add: migrated_def read_row_def)
qed (simp add: migrated_def)

lemma migrated_encrypted:
  assumes "de_device env = Inr ()" "\<And>v. is_ok (de_encrypt env v)"
  shows "\<not> has_plaintext (migrated env r)"
proof -
  have f: "\<exists>w. migrate_field env v = Inr w" for v
    using assms(1) assms(2) [of v] by (cases "de_encrypt env v") (auto simp: migrate_field_def encrypt_credential_value_def)
  then obtain c where c: "migrate_field env (cw_credential r) = Inr c" by blast
  obtain p where p: "on_option (migrate_field env) (cw_passphrase r) = Inr p"
    using f by (cases "cw_passphrase r") (auto simp: on_option_def, metis rbind_simps(2))
  have "migrated env r = r\<lparr>cw_credential := c, cw_passphrase := p\<rparr>" using c p by (simp add: migrated_def migrate_row_def)
  moreover have "\<not> plain_value q" if "p = Some q" for q
    using p that by (cases "cw_passphrase r") (auto simp: on_option_def migrate_field_enc elim!: rbind_InrE)
  ultimately show ?thesis using migrate_field_enc [OF c] by (auto simp: has_plaintext_def split: option.splits)
qed


section \<open>Searching the history\<close>

section \<open>Searching the history\<close>

definition char_ok :: "string \<Rightarrow> bool" where
  "char_ok g \<longleftrightarrow> wf_char g \<and> (byte (hd g) < 128 \<longrightarrow> length g = 1)"

lemma utf8_width_char:
  assumes "utf8_width s = Some n"
  shows "char_ok (take n s)"
  using assms
  by (auto simp: utf8_width_def char_ok_def wf_char_def is_cont_def Let_def map_eq_Cons_conv split: list.splits if_splits)

lemma utf8_valid_chars: "utf8_valid s \<Longrightarrow> at_boundary s \<and> list_all char_ok (utf8_chars s)"
proof (induction s rule: utf8_valid.induct)
  case (1 s)
  show ?case
  proof (cases "s = []")
    case False
    with 1(2) obtain n where n: "utf8_width s = Some n" "utf8_valid (drop n s)"
      by (subst (asm) utf8_valid.simps) (auto split: option.splits)
    note c = utf8_width_char [OF n(1)]
    have r: "at_boundary (drop n s)" "list_all char_ok (utf8_chars (drop n s))" using 1(1) [OF n] by simp_all
    have "utf8_chars (take n s @ drop n s) = take n s # utf8_chars (drop n s)"
      using c r by (intro utf8_chars_wf_Cons) (simp_all add: char_ok_def)
    moreover have "at_boundary (take n s @ drop n s)"
      using c by (cases n) (auto simp: char_ok_def wf_char_def at_boundary_def split: list.splits)
    ultimately show ?thesis using c r by simp
  qed simp
qed

definition escaped :: "string \<Rightarrow> string list" where
  "escaped g = (if g = [backslash] \<or> g = ''%'' \<or> g = ''_'' then [[backslash], g] else [g])"

lemma replace_char_concat: "replace_char c by (concat gs) = concat (map (replace_char c by) gs)"
  by (induction gs) (simp_all add: replace_char_def)

lemma replace_char_absent: "c \<notin> set g \<Longrightarrow> replace_char c by g = g"
  by (induction g) (auto simp: replace_char_def)

lemma escape_char:
  assumes "char_ok g"
  shows "escape_like g = concat (escaped g)"
proof (cases "byte (hd g) < 128")
  case True
  with assms obtain c where "g = [c]" by (auto simp: char_ok_def length_Suc_conv)
  then show ?thesis by (auto simp: escape_like_def replace_char_def escaped_def backslash_def)
next
  case False
  with assms have "128 \<le> byte d" if "d \<in> set g" for d
    using that by (auto simp: char_ok_def wf_char_def is_cont_def list_all_iff split: list.splits)
  then have "backslash \<notin> set g" "CHR ''%'' \<notin> set g" "CHR ''_'' \<notin> set g" by (force simp: backslash_def byte_def)+
  then show ?thesis by (auto simp: escape_like_def replace_char_absent escaped_def)
qed

lemma escape_chars: "list_all char_ok gs \<Longrightarrow> escape_like (concat gs) = concat (concat (map escaped gs))"
proof (induction gs)
  case (Cons g gs)
  then have "escape_like (concat (g # gs)) = escape_like g @ escape_like (concat gs)"
    by (simp add: escape_like_def replace_char_def)
  with Cons show ?case by (simp add: escape_char)
qed (simp add: escape_like_def replace_char_def)

lemma escaped_wf: "char_ok g \<Longrightarrow> list_all wf_char (escaped g)"
  by (auto simp: escaped_def char_ok_def wf_char_def backslash_def is_cont_def byte_def)

lemma pattern_chars:
  assumes "utf8_valid search"
  shows "utf8_chars (within (escape_like search)) = ''%'' # concat (map escaped (utf8_chars search)) @ [''%'']"
proof -
  let ?gs = "utf8_chars search"
  have ok: "list_all char_ok ?gs" using utf8_valid_chars [OF assms] by simp
  have "within (escape_like search) = concat (''%'' # concat (map escaped ?gs) @ [''%''])"
    using escape_chars [OF ok] by (simp add: within_def)
  moreover have "list_all wf_char (''%'' # concat (map escaped ?gs) @ [''%''])"
    using ok escaped_wf by (auto simp: list_all_iff wf_char_def is_cont_def byte_def)
  ultimately show ?thesis by (simp only: utf8_chars_concat)
qed

abbreviation "folded \<equiv> map to_ascii_lowercase"

lemma like_percent_end: "e \<noteq> Some ''%'' \<Longrightarrow> like_chars e [''%''] text"
  by (induction "text") auto

lemma like_percent: "e \<noteq> Some ''%'' \<Longrightarrow> like_chars e (''%'' # ps) text \<longleftrightarrow> (\<exists>rest. suffix rest text \<and> like_chars e ps rest)"
  by (induction "text") (auto simp: suffix_Cons)

lemma like_literal:
  "like_chars (Some [backslash]) (concat (map escaped gs) @ [''%'']) text \<longleftrightarrow> prefix (folded gs) (folded text)"
proof (induction gs arbitrary: "text")
  case Nil
  show ?case using like_percent_end [of "Some [backslash]" "text"] by (simp add: backslash_def)
next
  case (Cons g gs)
  then show ?case by (cases "text") (auto simp: escaped_def backslash_def)
qed

lemma sublist_suffix_prefix: "sublist xs ys \<longleftrightarrow> (\<exists>rest. suffix rest ys \<and> prefix xs rest)"
  by (auto simp: sublist_def suffix_def prefix_def)

lemma suffix_folded: "(\<exists>rest. suffix rest text \<and> prefix xs (folded rest)) \<longleftrightarrow> sublist xs (folded text)"
proof
  assume "\<exists>rest. suffix rest text \<and> prefix xs (folded rest)"
  then obtain zs rest where "text = zs @ rest" "prefix xs (folded rest)" by (auto simp: suffix_def)
  then show "sublist xs (folded text)" unfolding sublist_suffix_prefix
    by (intro exI [of _ "folded rest"]) (simp add: suffix_def)
next
  assume "sublist xs (folded text)"
  then obtain ps ss where "folded text = ps @ xs @ ss" by (auto simp: sublist_def)
  then have "folded (drop (length ps) text) = xs @ ss" by (metis append_eq_conv_conj drop_map)
  then show "\<exists>rest. suffix rest text \<and> prefix xs (folded rest)" by (intro exI [of _ "drop (length ps) text"]) (auto simp: suffix_drop)
qed

lemma sql_like_literal:
  assumes "utf8_valid search"
  shows "sql_like (Some [backslash]) (within (escape_like search)) text \<longleftrightarrow>
    sublist (folded (utf8_chars search)) (folded (utf8_chars text))"
  using like_percent [of "Some [backslash]"] like_literal suffix_folded
  by (simp add: sql_like_def pattern_chars [OF assms] backslash_def del: like_chars.simps)

text \<open>Sorting by two keys, one after the other.\<close>

lemma sorted_two_keys:
  assumes "sorted (map f xs)" "\<And>k. sorted (map g (filter (\<lambda>y. f y = k) xs))"
  shows "sorted_wrt (\<lambda>a b. f a < f b \<or> f a = f b \<and> g a \<le> g b) xs"
  using assms
proof (induction xs)
  case (Cons x xs)
  have "f x < f y \<or> f x = f y \<and> g x \<le> g y" if "y \<in> set xs" for y
  proof (cases "f x = f y")
    case True
    with Cons.prems(2) [of "f x"] that show ?thesis by simp
  next
    case False
    moreover have "f x \<le> f y" using Cons.prems(1) that by simp
    ultimately show ?thesis by simp
  qed
  moreover have "sorted (map g (filter (\<lambda>y. f y = k) xs))" for k
    using Cons.prems(2) [of k] by (simp split: if_splits)
  ultimately show ?case using Cons by simp
qed simp

lemma sort_two_keys:
  "sorted_wrt (\<lambda>a b. f a < f b \<or> f a = f b \<and> g a \<le> g b) (sort_key f (sort_key g xs))"
proof (rule sorted_two_keys)
  have "sorted (map g (filter P (sort_key g xs)))" for P by (rule sorted_filter) simp
  then show "sorted (map g (filter (\<lambda>y. f y = k) (sort_key f (sort_key g xs))))" for k by (simp add: sort_key_stable)
qed simp

text \<open>Supporting result: a search of the command history finds exactly the commands of the server that contain the text as it was
  typed, letters of ASCII in either case: percent signs, underscores and backslashes stand for themselves.  The
  favorites come first, then the most recent, and no more than the limit are returned.\<close>

theorem history_search_is_literal:
  assumes "utf8_valid search" "trim search \<noteq> []"
  shows "set (history_list server_id (Some search) favorites_only limit db) \<subseteq>
      {h \<in> set (dt_history db). he_server_id h = server_id \<and> (favorites_only \<longrightarrow> he_is_favorite h) \<and>
         sublist (folded (utf8_chars search)) (folded (utf8_chars (he_command h)))} \<and>
    length (history_list server_id (Some search) favorites_only limit db) \<le> 500 \<and>
    sorted_wrt (\<lambda>a b. (he_is_favorite b \<longrightarrow> he_is_favorite a) \<and>
        (he_is_favorite a = he_is_favorite b \<longrightarrow> he_last_used_at b \<le> he_last_used_at a))
      (history_list server_id (Some search) favorites_only limit db) \<and>
    (length (history_list server_id (Some search) favorites_only limit db) < page_size limit \<longrightarrow>
      set (history_list server_id (Some search) favorites_only limit db) =
      {h \<in> set (dt_history db). he_server_id h = server_id \<and> (favorites_only \<longrightarrow> he_is_favorite h) \<and>
         sublist (folded (utf8_chars search)) (folded (utf8_chars (he_command h)))})"
proof -
  let ?found = "filter (\<lambda>h. he_server_id h = server_id \<and> (favorites_only \<longrightarrow> he_is_favorite h) \<and>
      sql_like (Some [backslash]) (within (escape_like search)) (he_command h)) (dt_history db)"
  let ?sorted = "sort_key (\<lambda>h. \<not> he_is_favorite h) (sort_key (\<lambda>h. - he_last_used_at h) ?found)"
  have h: "history_list server_id (Some search) favorites_only limit db = take (page_size limit) ?sorted"
    using assms(2) by (simp add: history_list_def newest_first_def)
  have s: "set ?sorted = {h \<in> set (dt_history db). he_server_id h = server_id \<and> (favorites_only \<longrightarrow> he_is_favorite h) \<and>
         sublist (folded (utf8_chars search)) (folded (utf8_chars (he_command h)))}"
    by (auto simp: sql_like_literal [OF assms(1)])
  have "sorted_wrt (\<lambda>a b. (he_is_favorite b \<longrightarrow> he_is_favorite a) \<and>
        (he_is_favorite a = he_is_favorite b \<longrightarrow> he_last_used_at b \<le> he_last_used_at a)) ?sorted"
    by (rule sorted_wrt_mono_rel [OF _ sort_two_keys]) auto
  moreover have "page_size limit \<le> 500" by (simp add: page_size_def clamp_def)
  moreover have "take (page_size limit) ?sorted = ?sorted" if "length (take (page_size limit) ?sorted) < page_size limit"
    using that by simp
  ultimately show ?thesis unfolding h s [symmetric] by (auto intro: sorted_wrt_take dest: in_set_takeD)
qed


section \<open>Reading the audit trail\<close>

lemma rbind_cong [fundef_cong]: "r = r' \<Longrightarrow> (\<And>a. r' = Inr a \<Longrightarrow> f a = f' a) \<Longrightarrow> rbind r f = rbind r' f'"
  by (cases r') simp_all

lemma activity_traverse_keys:
  assumes "traverse (\<lambda>(n, payload). rbind (dec payload) (\<lambda>json. rbind (decode json) (\<lambda>event. Inr (n, event)))) rows = Inr page"
  shows "map fst page = map fst rows"
  using assms by (induction rows arbitrary: page) (auto elim!: rbind_InrE split: prod.splits)

lemma agent_activity_keys:
  assumes "agent_activity_list env decode a b limit db = Inr page"
  shows "map fst page = map fst (activity_page a b limit (dt_activity db))"
  using activity_traverse_keys assms by (auto simp: agent_activity_list_def)

lemma last_of_page:
  assumes "agent_activity_list env decode (Some after) None limit db = Inr page" "page \<noteq> []"
  shows "after < fst (last page) \<and> fst (last page) \<in> fst ` set (dt_activity db)"
proof -
  have "fst (last page) \<in> set (map fst page)" using assms(2) by simp
  then show ?thesis unfolding agent_activity_keys [OF assms(1)] by (auto simp: activity_page_def dest!: in_set_takeD)
qed

text \<open>A reader that asks for what follows the last event it has, until there is nothing more.\<close>

function read_trail :: "'v database_env \<Rightarrow> (string \<Rightarrow> string + 'e) \<Rightarrow> nat \<Rightarrow> database \<Rightarrow> int \<Rightarrow> db_error + (int \<times> 'e) list" where
  "read_trail env decode limit db after =
     rbind (agent_activity_list env decode (Some after) None limit db) (\<lambda>page.
     if page = [] then Inr []
     else rbind (read_trail env decode limit db (fst (last page))) (\<lambda>rest. Inr (page @ rest)))"
  by pat_completeness auto
termination
proof (relation "measure (\<lambda>(env, decode, limit, db, after). length (filter (\<lambda>r. after < fst r) (dt_activity db)))", goal_cases)
  case (2 env decode limit db after page)
  note l = last_of_page [OF 2(1,2)]
  then obtain r where r: "r \<in> set (dt_activity db)" "fst r = fst (last page)" by auto
  have "length (filter (\<lambda>r. fst (last page) < fst r) xs) < length (filter (\<lambda>r. after < fst r) xs)" if "r \<in> set xs" for xs
    using that
  proof (induction xs)
    case (Cons x xs)
    have le: "length (filter (\<lambda>r. fst (last page) < fst r) xs) \<le> length (filter (\<lambda>r. after < fst r) xs)"
      using l by (induction xs) auto
    with Cons l r(2) show ?case by (cases "r = x") (auto simp: less_Suc_eq_le)
  qed simp
  from this [OF r(1)] show ?case by simp
qed simp

declare read_trail.simps [simp del]

definition readable :: "'v database_env \<Rightarrow> (string \<Rightarrow> string + 'e) \<Rightarrow> int \<times> string \<Rightarrow> int \<times> 'e \<Rightarrow> bool" where
  "readable env decode row event \<longleftrightarrow> fst row = fst event \<and>
     (\<exists>json. decrypt_credential_value env (snd row) = Inr json \<and> decode json = Inr (snd event))"

lemma traverse_readable:
  assumes "list_all2 (readable env decode) rows events"
  shows "traverse (\<lambda>(n, payload). rbind (decrypt_credential_value env payload) (\<lambda>json.
         rbind (map_sum Refused id (decode json)) (\<lambda>event. Inr (n, event)))) rows = Inr events"
  using assms by (induction rows events rule: list_all2_induct) (auto simp: readable_def split: prod.splits)

lemma filter_after_sorted:
  assumes "sorted_wrt (<) (map fst xs)" "k < length (filter (\<lambda>r. a < fst r) xs)"
  shows "filter (\<lambda>r. (fst (filter (\<lambda>r. a < fst r) xs ! k) :: int) < fst r) xs = drop (Suc k) (filter (\<lambda>r. a < fst r) xs)"
  using assms
proof (induction xs arbitrary: k)
  case (Cons x xs)
  note found = nth_mem [of _ "filter (\<lambda>r. a < fst r) xs"]
  show ?case
  proof (cases "a < fst x")
    case False
    then show ?thesis using Cons found [of k] by auto
  next
    case True
    then have later: "filter (\<lambda>r. fst x < fst r) xs = xs" "filter (\<lambda>r. a < fst r) xs = xs"
      using Cons.prems(1) by (auto intro!: filter_True)
    show ?thesis
    proof (cases k)
      case 0
      then show ?thesis using True later by simp
    next
      case (Suc j)
      then show ?thesis using True Cons found [of j] by auto
    qed
  qed
qed simp

lemma readable_filter:
  "list_all2 (readable env decode) rows events \<Longrightarrow>
   list_all2 (readable env decode) (filter (\<lambda>r. a < fst r) rows) (filter (\<lambda>e. a < fst e) events)"
  by (induction rows events rule: list_all2_induct) (auto simp: readable_def)

lemma readable_keys: "list_all2 (readable env decode) rows events \<Longrightarrow> map fst rows = map fst events"
  by (induction rows events rule: list_all2_induct) (auto simp: readable_def)

lemma activity_page_after:
  assumes "trail_inv db"
  shows "activity_page (Some a) None limit (dt_activity db) = take (page_size limit) (filter (\<lambda>r. a < fst r) (dt_activity db))"
proof -
  have "sorted_wrt (\<lambda>x y. fst x < fst y) (dt_activity db)" using assms by (simp add: trail_inv_def sorted_wrt_map)
  then have "sorted_wrt (\<lambda>x y. fst x < fst y) (filter (\<lambda>r. a < fst r) (dt_activity db))" by (rule sorted_wrt_filter)
  then have "sorted (map fst (filter (\<lambda>r. a < fst r) (dt_activity db)))"
    unfolding sorted_map by (rule sorted_wrt_mono_rel [rotated]) simp
  then show ?thesis by (simp add: activity_page_def split_beta' sort_key_id_if_sorted)
qed

lemma page_size_positive: "0 < page_size limit"
  by (simp add: page_size_def clamp_def)

text \<open>C37: however the trail is cut into pages, a reader that asks for what follows the last event it has seen
  receives every event after its start exactly once and in order, and comes to the end.\<close>

theorem audit_is_read_without_gaps:
  assumes "trail_inv db" "list_all2 (readable env decode) (dt_activity db) events"
  shows "read_trail env decode limit db after = Inr (filter (\<lambda>e. after < fst e) events)"
  using assms
proof (induction env decode limit db after rule: read_trail.induct)
  case (1 env decode limit db after)
  let ?n = "page_size limit" and ?todo = "filter (\<lambda>e. after < fst e) events"
  have page: "agent_activity_list env decode (Some after) None limit db = Inr (take ?n ?todo)"
    unfolding agent_activity_list_def activity_page_after [OF 1(2)]
    by (rule traverse_readable) (intro list_all2_takeI readable_filter 1(3))
  have sorted: "sorted_wrt (<) (map fst events)"
    using 1(2) readable_keys [OF 1(3)] by (simp add: trail_inv_def)
  show ?case
  proof (cases "?todo = []")
    case True
    then show ?thesis using page by (subst read_trail.simps) simp
  next
    case False
    define k where "k = min ?n (length ?todo) - 1"
    have k: "k < length ?todo" "take ?n ?todo = take (Suc k) ?todo" "take ?n ?todo \<noteq> []"
      using False page_size_positive [of limit] by (auto simp: k_def min_def)
    have l: "last (take ?n ?todo) = ?todo ! k" using k(1) unfolding k(2) by (simp add: take_Suc_conv_app_nth)
    have "read_trail env decode limit db (fst (last (take ?n ?todo))) = Inr (filter (\<lambda>e. fst (last (take ?n ?todo)) < fst e) events)"
      by (rule 1(1) [OF page k(3) 1(2,3)])
    also have "filter (\<lambda>e. fst (last (take ?n ?todo)) < fst e) events = drop (Suc k) ?todo"
      unfolding l by (rule filter_after_sorted [OF sorted k(1)])
    finally show ?thesis using page k(3) unfolding k(2) by (subst read_trail.simps) simp
  qed
qed

section \<open>The properties at work\<close>

definition sample_storage :: "sync_payload database_env" where
  "sample_storage =
     \<lparr>de_sync = sample_env, de_now = 9, de_uuid = ''u'', de_device = Inr (), de_encrypt = (\<lambda>v. Inr (rev v)),
      de_decrypt = (\<lambda>c. Inr (rev c)), de_key_valid = (\<lambda>_ _. True)\<rparr>"

definition sample_server :: server where
  "sample_server =
     \<lparr>se_id = ''s1'', se_name = ''web'', se_host = ''h'', se_port = 22, se_username = ''root'',
      se_auth_type = auth_type.Password, se_credential_id = None, se_group_id = None, se_tags = [],
      se_created_at = 1, se_updated_at = 1, se_jump_host_id = None, se_post_login_command = None,
      se_agent_forwarding = False\<rparr>"

definition empty_tables :: database where
  "empty_tables =
     \<lparr>dt_sync = sample_db, dt_secrets = [], dt_tunnels = [], dt_history = [], dt_recordings = [], dt_activity = [],
      dt_settings = [], dt_connections = []\<rparr>"

definition sample_credential :: credential_row where
  "sample_credential =
     \<lparr>cw_auth_type = ''password'', cw_credential = ''secret'', cw_passphrase = None, cw_key_path = None, cw_created_at = 1\<rparr>"

definition one_server :: database where
  "one_server = empty_tables\<lparr>
     dt_sync := sample_db\<lparr>db_servers := [(''s1'', row_of_server sample_server)], db_credentials := Some [(''web'', ''c1'')]\<rparr>,
     dt_secrets := [(''c1'', sample_credential)]\<rparr>"

lemma sample_opens: "opens sample_storage sample_storage"
  by (simp add: opens_def sample_storage_def)

lemma sample_credentials: "credentials_inv one_server"
  by (simp add: credentials_inv_def one_server_def credential_names_def)

lemma empty_tables_inv: "database_inv empty_tables"
  using sample_inv
  by (simp add: database_inv_def empty_tables_def credentials_inv_def device_inv_def trail_inv_def credential_names_def)
     (simp add: sample_db_def)


theorem credentials_follow_their_server_witness:
  "\<exists>db'. server_update sample_storage (sample_server\<lparr>se_name := ''www''\<rparr>) one_server = Inr db' \<and>
     credential_row_of ''www'' db' = Some sample_credential \<and> credential_row_of ''web'' db' = None"
proof -
  have "is_ok (server_update sample_storage (sample_server\<lparr>se_name := ''www''\<rparr>) one_server)" by code_simp
  then obtain db' where r: "server_update sample_storage (sample_server\<lparr>se_name := ''www''\<rparr>) one_server = Inr db'"
    by (auto elim: is_ok_obtain)
  have s: "map_of (db_servers (dt_sync one_server)) (se_id (sample_server\<lparr>se_name := ''www''\<rparr>)) = Some (row_of_server sample_server)"
    by (simp add: one_server_def sample_server_def)
  have "credential_row_of ''web'' one_server = Some sample_credential"
    by (simp add: credential_row_of_def one_server_def credential_names_def)
  with credentials_follow_their_server [OF sample_credentials s r] r show ?thesis
    by (simp add: row_of_server_def sample_server_def)
qed

theorem saved_credential_is_returned_witness:
  "\<exists>i db'. credential_save sample_storage ''db'' ''password'' ''enc:v1:x'' None None one_server = Inr (i, db') \<and>
     credential_get sample_storage ''db'' db' = Inr (Some \<lparr>cd_server_name = ''db'', cd_auth_type = ''password'',
       cd_credential = ''enc:v1:x'', cd_passphrase = None, cd_key_path = None\<rparr>)"
proof -
  have "is_ok (credential_save sample_storage ''db'' ''password'' ''enc:v1:x'' None None one_server)" by code_simp
  then obtain i db' where r: "credential_save sample_storage ''db'' ''password'' ''enc:v1:x'' None None one_server = Inr (i, db')"
    by (auto elim: is_ok_obtain)
  have "utf8_valid ''enc:v1:x''" by code_simp
  with saved_credential_is_returned [OF sample_credentials r sample_opens] r show ?thesis by simp
qed


definition typed :: "string \<Rightarrow> history_entry" where
  "typed command = \<lparr>he_id = command, he_server_id = ''s1'', he_command = command, he_is_favorite = False, he_use_count = 1,
     he_last_used_at = 1, he_created_at = 1\<rparr>"

theorem history_search_is_literal_witness:
  "he_command ` set (history_list ''s1'' (Some ''_p%'') False 50 (one_server\<lparr>dt_history := [typed ''cut -d_P%'', typed ''cp x'']\<rparr>)) =
     {''cut -d_P%''}"
proof -
  have found: "{h \<in> {typed a, typed b}. he_server_id h = ''s1'' \<and> P (he_command h)} = {typed a}" if "P a" "\<not> P b" for P a b
    using that by (auto simp: typed_def)
  have 1: "utf8_valid ''_p%''" "trim ''_p%'' \<noteq> []" by code_simp+
  have "length (history_list i q f n db) \<le> length (dt_history db)" for i q f n db
    by (simp add: history_list_def newest_first_def Let_def) (intro min.coboundedI1 length_filter_le)
  from this [of "''s1''" "Some ''_p%''" False 50 "one_server\<lparr>dt_history := [typed ''cut -d_P%'', typed ''cp x'']\<rparr>"]
  have 2: "length (history_list ''s1'' (Some ''_p%'') False 50 (one_server\<lparr>dt_history := [typed ''cut -d_P%'', typed ''cp x'']\<rparr>)) < page_size 50"
    by (simp add: page_size_def clamp_def)
  have "folded (utf8_chars ''_p%'') = [''_'', ''p'', ''%'']" "folded (utf8_chars ''cp x'') = [''c'', ''p'', '' '', ''x'']"
    "folded (utf8_chars ''cut -d_P%'') = [''c'', ''u'', ''t'', '' '', ''-'', ''d'', ''_'', ''p'', ''%'']" by code_simp+
  then have 3: "sublist (folded (utf8_chars ''_p%'')) (folded (utf8_chars ''cut -d_P%''))"
    "\<not> sublist (folded (utf8_chars ''_p%'')) (folded (utf8_chars ''cp x''))" by (simp_all add: sublist_Cons_right)
  have "set (history_list ''s1'' (Some ''_p%'') False 50 (one_server\<lparr>dt_history := [typed ''cut -d_P%'', typed ''cp x'']\<rparr>)) =
      {h \<in> {typed ''cut -d_P%'', typed ''cp x''}. he_server_id h = ''s1'' \<and>
        sublist (folded (utf8_chars ''_p%'')) (folded (utf8_chars (he_command h)))}"
    using history_search_is_literal [OF 1, of "''s1''" False 50 "one_server\<lparr>dt_history := [typed ''cut -d_P%'', typed ''cp x'']\<rparr>"] 2 by simp
  also have "\<dots> = {typed ''cut -d_P%''}"
    by (rule found [of "\<lambda>c. sublist (folded (utf8_chars ''_p%'')) (folded (utf8_chars c))", OF 3])
  finally show ?thesis by (simp add: typed_def)
qed

theorem audit_is_read_without_gaps_witness:
  "read_trail sample_storage (\<lambda>json. Inr json) 1 (one_server\<lparr>dt_activity := [(1, ''a''), (3, ''b''), (4, ''enc:v1:c'')]\<rparr>) 1 =
     Inr [(3, ''b''), (4, ''c'')]"
proof -
  let ?db = "one_server\<lparr>dt_activity := [(1, ''a''), (3, ''b''), (4, ''enc:v1:c'')]\<rparr>"
  have "trail_inv ?db" by (simp add: trail_inv_def)
  moreover have "decrypt_credential_value sample_storage ''a'' = Inr ''a'' \<and> decrypt_credential_value sample_storage ''b'' = Inr ''b'' \<and>
      decrypt_credential_value sample_storage ''enc:v1:c'' = Inr ''c''" by code_simp
  then have "list_all2 (readable sample_storage (\<lambda>json. Inr json :: string + string)) (dt_activity ?db) [(1, ''a''), (3, ''b''), (4, ''c'')]"
    by (simp add: readable_def)
  ultimately show ?thesis using audit_is_read_without_gaps [of ?db sample_storage _ "[(1, ''a''), (3, ''b''), (4, ''c'')]" 1 1] by simp
qed

end
