(* ===== verification/Ipc_Messages.thy ===== *)
theory Ipc_Messages
  imports Session_Services Sessions Sftp_Client Plugin_Host
begin

text \<open>
  The messages between the command line, the daemon and the application, \<^verbatim>\<open>IpcMessage\<close> of
  \<^verbatim>\<open>src-tauri/src/ipc/socket.rs\<close> and \<^verbatim>\<open>RuntimeRequest\<close> of \<^verbatim>\<open>ipc/runtime_services.rs\<close>, and what of a
  message is written to the log.  The requests on files share the session they carry; the JSON the plugin
  requests are answered with is represented by the data it renders.
\<close>

section \<open>Requests\<close>

datatype runtime_request =
    TunnelStart string tunnel_config
  | TunnelStop string
  | TunnelList "string option"
  | TunnelStopSession string
  | RecordingStart string string
  | RecordingStop string
  | RecordingStatus string

datatype sftp_op =
    SftpInit
  | SftpListDir string bool
  | SftpDownloadFile string string
  | SftpUploadFile string string
  | SftpUploadDirectory string string transfer_mode bool "bool option" "string list"
  | SftpMkdir string
  | SftpDelete string bool
  | SftpRename string string
  | SftpPwd
  | SftpStat string
  | SftpReadFile string "nat option" "bool option"
  | SftpWriteFile string string
  | SftpAddFile string string bool bool

datatype ipc_request =
    ListServers
  | ListSessions
  | SessionService runtime_request
  | PluginList bool
  | PluginDescribe string bool
  | PluginExecute plugin_request
  | CreateSession string
  | CreateSessionWithCredentials string string string "string option" "nat option" "nat option"
  | AttachSession string
  | DetachSession string
  | KillSession string
  | SendInput string string
  | SendUserInput string string
  | SendSensitiveInput string string
  | Resize string nat nat
  | ExecCommand string string "string option"
  | ExecQuickCommand string string
  | SftpRequest string sftp_op

section \<open>Responses\<close>

record ipc_server_info =
  is_id :: string
  is_name :: string
  is_host :: string
  is_port :: "16 word"
  is_username :: string
  is_auth_type :: string
  is_group_id :: "string option"
  is_jump_host_id :: "string option"
  is_tags :: "string list"

record ipc_session_info =
  ii_id :: string
  ii_server_id :: string
  ii_server_name :: string
  ii_state :: string
  ii_created_at :: int
  ii_clients :: nat

record sftp_entry =
  en_name :: string
  en_path :: string
  en_is_directory :: bool
  en_size :: nat
  en_modified_at :: int
  en_permissions :: string

record sftp_file_content =
  fc_content :: string
  fc_is_binary :: bool
  fc_size :: nat
  fc_truncated :: bool
  fc_mime_type :: string

datatype transfer_status = TransferPending | TransferInProgress | TransferCompleted | TransferFailed | TransferCancelled

record transfer_progress =
  tp_id :: string
  tp_filename :: string
  tp_total_bytes :: nat
  tp_transferred_bytes :: nat
  tp_status :: transfer_status

definition new_progress :: "string \<Rightarrow> string \<Rightarrow> nat \<Rightarrow> transfer_progress" where
  "new_progress uuid name total_bytes =
     \<lparr>tp_id = uuid, tp_filename = name, tp_total_bytes = total_bytes, tp_transferred_bytes = 0, tp_status = TransferPending\<rparr>"

datatype service_value =
    NoValue
  | TunnelValue tunnel_info
  | TunnelValues "tunnel_info list"
  | RecordingValue string
  | RecordingStatusValue "string option"

datatype plugin_data =
    PluginRecords "plugin_record list"
  | PluginDescription plugin_record
  | PluginReference plugin_manifest
  | PluginResult plugin_result

datatype ipc_reply =
    ServiceResult service_value
  | PluginData plugin_data
  | ServerList "ipc_server_info list"
  | SessionList "ipc_session_info list"
  | SessionCreated string
  | SessionOutput string string
  | SessionEnded string
  | CommandOutput string
  | CommandResult string int
  | SftpEntries "sftp_entry list"
  | SftpPath string
  | SftpStatResult sftp_entry
  | SftpFileContent sftp_file_content
  | SftpTransfer transfer_progress
  | SftpDirectoryTransfer transfer_summary
  | IpcError string
  | IpcOk

datatype ipc_message = Request ipc_request | Response ipc_reply

section \<open>The log\<close>

definition redacted_text :: string where "redacted_text = ''[REDACTED]''"

definition redact_sftp :: "sftp_op \<Rightarrow> sftp_op" where
  "redact_sftp operation =
     (case operation of
        SftpWriteFile path _ \<Rightarrow> SftpWriteFile path redacted_text
      | SftpAddFile path _ overwrite parents \<Rightarrow> SftpAddFile path redacted_text overwrite parents
      | other \<Rightarrow> other)"

definition redact_request :: "ipc_request \<Rightarrow> ipc_request" where
  "redact_request request =
     (case request of
        CreateSessionWithCredentials server_name auth_type _ passphrase cols rows \<Rightarrow>
          CreateSessionWithCredentials server_name auth_type redacted_text (map_option (\<lambda>_. redacted_text) passphrase) cols rows
      | ExecCommand session_id _ stdin \<Rightarrow> ExecCommand session_id redacted_text (map_option (\<lambda>_. redacted_text) stdin)
      | ExecQuickCommand session_id _ \<Rightarrow> ExecQuickCommand session_id redacted_text
      | SendInput session_id _ \<Rightarrow> SendInput session_id []
      | SendUserInput session_id _ \<Rightarrow> SendInput session_id []
      | SendSensitiveInput session_id _ \<Rightarrow> SendInput session_id []
      | SftpRequest session_id operation \<Rightarrow> SftpRequest session_id (redact_sftp operation)
      | other \<Rightarrow> other)"

definition redact_for_log :: "ipc_message \<Rightarrow> ipc_message" where
  "redact_for_log message = (case message of Request request \<Rightarrow> Request (redact_request request) | other \<Rightarrow> other)"

text \<open>\<^verbatim>\<open>Debug\<close> of a plugin request prints neither its inputs nor the password.\<close>

definition debug_plugin_request :: "plugin_request \<Rightarrow> string \<times> string \<times> string" where
  "debug_plugin_request request = (rq_plugin_id request, rq_action_id request, rq_session_id request)"

end
