(* ===== verification/Local_Paths.thy ===== *)
theory Local_Paths
  imports Sftp_Paths
begin

text \<open>
  Paths of the machine the application runs on, with \<^verbatim>\<open>/\<close> as the separator, as \<^verbatim>\<open>std::path\<close> takes them apart,
  and the confinement of download targets of \<^verbatim>\<open>src-tauri/src/mcp/server.rs\<close>.  A target is the list of its
  components, the root directory first.  What the file system says is a parameter: the current directory,
  the allowed directories and the resolution of symbolic links.
\<close>

definition quoted :: "string \<Rightarrow> string" where
  "quoted s = CHR 0x27 # s @ [CHR 0x27]"

section \<open>Components\<close>

definition local_components :: "string \<Rightarrow> string list" where
  "local_components p =
     (if starts_with p [slash] then [[slash]] else if hd (path_parts p) = ''.'' then [''.''] else []) @
     filter (\<lambda>c. c \<noteq> [] \<and> c \<noteq> ''.'') (path_parts p)"

definition display_path :: "string list \<Rightarrow> string" where
  "display_path cs =
     (case cs of [] \<Rightarrow> [] | c # rest \<Rightarrow> if c = [slash] then slash # join [slash] rest else join [slash] cs)"

definition local_parent :: "string list \<Rightarrow> string list option" where
  "local_parent cs = (if cs = [] \<or> cs = [[slash]] then None else Some (butlast cs))"

definition file_name :: "string \<Rightarrow> string option" where
  "file_name p =
     (case rev (local_components p) of
        [] \<Rightarrow> None
      | c # _ \<Rightarrow> if c = [slash] \<or> c = ''.'' \<or> c = ''..'' then None else Some c)"

definition file_extension :: "string \<Rightarrow> string option" where
  "file_extension p =
     (case Option.bind (file_name p) (rsplit_once (CHR ''.'')) of
        Some (before, after) \<Rightarrow> if before = [] then None else Some after
      | None \<Rightarrow> None)"

definition mime_type :: "string \<Rightarrow> string" where
  "mime_type path =
     (let ext = to_ascii_lowercase (case file_extension path of Some e \<Rightarrow> e | None \<Rightarrow> []) in
      if List.member [''txt'', ''md'', ''rs'', ''ts'', ''tsx'', ''js'', ''json'', ''toml'', ''yaml'', ''yml''] ext then ''text/plain''
      else if ext = ''png'' then ''image/png''
      else if ext = ''jpg'' \<or> ext = ''jpeg'' then ''image/jpeg''
      else if ext = ''gif'' then ''image/gif''
      else if ext = ''pdf'' then ''application/pdf''
      else ''application/octet-stream'')"

section \<open>Download targets\<close>

record local_paths =
  lp_cwd :: "string + string"
  lp_roots :: "string list"
  lp_canonicalize :: "string list \<Rightarrow> string + string list"

definition lexical_step :: "string list \<Rightarrow> string \<Rightarrow> string list" where
  "lexical_step acc c =
     (if c = ''.'' then acc
      else if c = ''..'' then (case local_parent acc of Some parent \<Rightarrow> parent | None \<Rightarrow> acc)
      else acc @ [c])"

definition confine_download_target :: "local_paths \<Rightarrow> string \<Rightarrow> string + string list" where
  "confine_download_target env local_path =
     (if local_path = [] then Inl ''Local download path is empty''
      else if List.member (local_components local_path) ''..'' then
        Inl (''Rejected local download path '' @ quoted local_path @ '': '..' traversal is not allowed'')
      else
        rbind (if starts_with local_path [slash] then Inr (local_components local_path)
               else rbind (map_sum ((@) ''Failed to resolve relative download path: '') id (lp_cwd env)) (\<lambda>cwd.
                    Inr (local_components cwd @ local_components local_path))) (\<lambda>absolute.
        let normalized = foldl lexical_step [] absolute in
        if \<not> list_ex (\<lambda>root. prefix (local_components root) normalized) (lp_roots env) then
          Inl (''Rejected local download path '' @ quoted local_path @ '': downloads are limited to the Downloads folder '' @
            ''and the VibeShell data directory (allowed: '' @ join '', '' (lp_roots env) @ '')'')
        else Inr normalized))"

definition ensure_parent_within_allowlist :: "local_paths \<Rightarrow> string list \<Rightarrow> string + unit" where
  "ensure_parent_within_allowlist env target =
     rbind (ok_or (local_parent target) (''Download path '' @ quoted (display_path target) @ '' has no parent directory'')) (\<lambda>parent.
     rbind (map_sum (\<lambda>e. ''Failed to resolve download directory '' @ display_path parent @ '': '' @ e) id
              (lp_canonicalize env parent)) (\<lambda>canonical_parent.
     let canonical_roots = List.map_filter (\<lambda>root. case lp_canonicalize env (local_components root) of
           Inr r \<Rightarrow> Some r | Inl _ \<Rightarrow> None) (lp_roots env) in
     ensure (list_ex (\<lambda>root. prefix root canonical_parent) canonical_roots)
       (''Rejected local download path '' @ quoted (display_path target) @ '': resolves outside the allowed download directories'')))"

section \<open>What is accepted\<close>

lemma lexical_no_dots: "\<forall>c \<in> set acc. c \<noteq> ''.'' \<and> c \<noteq> ''..'' \<Longrightarrow> c \<in> set (foldl lexical_step acc cs) \<Longrightarrow> c \<noteq> ''.'' \<and> c \<noteq> ''..''"
proof (induction cs arbitrary: acc)
  case (Cons x cs)
  have "\<forall>c \<in> set (lexical_step acc x). c \<noteq> ''.'' \<and> c \<noteq> ''..''"
    using Cons.prems(1) by (auto simp: lexical_step_def local_parent_def dest: in_set_butlastD split: option.splits if_splits)
  with Cons show ?case by simp
qed simp

lemma lexical_id: "\<forall>c \<in> set cs. c \<noteq> ''.'' \<and> c \<noteq> ''..'' \<Longrightarrow> foldl lexical_step acc cs = acc @ cs"
  by (induction cs arbitrary: acc) (auto simp: lexical_step_def)

lemma local_components_absolute:
  assumes "starts_with p [slash]"
  shows "''.'' \<notin> set (local_components p)"
  using assms by (auto simp: local_components_def slash_def)

lemma map_sum_Inr: "map_sum f id r = Inr x \<longleftrightarrow> r = Inr x"
  by (cases r) simp_all

lemma confine_accepts:
  assumes "confine_download_target env p = Inr target"
  shows "\<exists>root \<in> set (lp_roots env). prefix (local_components root) target"
    "c \<in> set target \<Longrightarrow> c \<noteq> ''.'' \<and> c \<noteq> ''..''"
    "starts_with p [slash] \<Longrightarrow> target = local_components p"
proof -
  from assms obtain a where a: "target = foldl lexical_step [] a" "\<not> List.member (local_components p) ''..''"
    "\<exists>root \<in> set (lp_roots env). prefix (local_components root) target" "starts_with p [slash] \<Longrightarrow> a = local_components p"
    by (auto simp: confine_download_target_def rbind_Inr_iff map_sum_Inr Let_def list_ex_iff split: if_splits)
  then show "\<exists>root \<in> set (lp_roots env). prefix (local_components root) target" by blast
  show "c \<in> set target \<Longrightarrow> c \<noteq> ''.'' \<and> c \<noteq> ''..''" using a(1) lexical_no_dots [of "[]" c a] by simp
  show "starts_with p [slash] \<Longrightarrow> target = local_components p"
  proof -
    assume s: "starts_with p [slash]"
    with a(2) local_components_absolute have "\<forall>c \<in> set (local_components p). c \<noteq> ''.'' \<and> c \<noteq> ''..''"
      by (auto simp: List.member_iff)
    with a(1,4) s lexical_id [of "local_components p" "[]"] show ?thesis by simp
  qed
qed

lemma allowlist_accepts:
  assumes "ensure_parent_within_allowlist env target = Inr ()"
  obtains parent canonical root r where "local_parent target = Some parent" "lp_canonicalize env parent = Inr canonical"
    "root \<in> set (lp_roots env)" "lp_canonicalize env (local_components root) = Inr r" "prefix r canonical"
proof -
  from assms obtain parent canonical where p: "local_parent target = Some parent" "lp_canonicalize env parent = Inr canonical"
    "list_ex (\<lambda>root. prefix root canonical) (List.map_filter (\<lambda>root. case lp_canonicalize env (local_components root) of
           Inr r \<Rightarrow> Some r | Inl _ \<Rightarrow> None) (lp_roots env))"
    by (auto simp: ensure_parent_within_allowlist_def rbind_Inr_iff Let_def map_sum_Inr)
  then obtain root r where "root \<in> set (lp_roots env)" "lp_canonicalize env (local_components root) = Inr r" "prefix r canonical"
    by (auto simp: list_ex_iff map_filter_def split: sum.splits) (metis old.sum.exhaust)
  with p that show thesis by blast
qed

end
