(* ===== verification/Ipc_Server.thy ===== *)
theory Ipc_Server
  imports Ipc_Messages Local_Paths Database
begin

text \<open>
  The server of the inter-process interface, \<^verbatim>\<open>IpcServer\<close> of \<^verbatim>\<open>src-tauri/src/ipc/socket.rs\<close> with
  \<^verbatim>\<open>ipc/runtime_services.rs\<close>: one message from the command line or another window is one step of the world,
  which holds the session manager with the calls on the SSH library, the input tracker, the SFTP contexts, the
  requests to SFTP servers, what is written to local files, and the audit trail.  The lock of a session makes the
  inputs to one terminal sequential.  An operation fails with the text of its \<open>IpcError\<close>, or returns the
  response; \<open>None\<close> says that the wake-ups of a remote command given in the environment do not reach its end.
\<close>

section \<open>World and environment\<close>

record sftp_context =
  cx_home_dir :: string
  cx_current_path :: string

record audit_event =
  au_tool :: string
  au_session_id :: "string option"
  au_summary :: string
  au_status :: activity_status

datatype local_change = MadeDirs "string list" | WroteFile "string list" string | RanLocally string

record ipc_world =
  iw_manager :: session_manager
  iw_calls :: ssh_log
  iw_tracker :: input_tracker
  iw_contexts :: "string \<rightharpoonup> sftp_context"
  iw_sftp :: "(string \<times> sftp_request) list"
  iw_local :: "local_change list"
  iw_audit :: "audit_event list"

text \<open>\<open>ie_audit\<close> is the insertion of a row after the rows so far, \<open>ie_sftp\<close> the server a session's SFTP channel
  reaches after the requests so far, \<open>ie_tree\<close> what the walk of a local directory, its files and its ignore rules
  are.  The texts of the standard library (\<^verbatim>\<open>from_utf8_lossy\<close>, \<^verbatim>\<open>escape_debug\<close>, \<^verbatim>\<open>to_lowercase\<close>, \<^verbatim>\<open>{:?}\<close> of
  a list) and base64 are functions.\<close>

record ipc_env =
  ie_session :: session_env
  ie_peer :: ssh_peer
  ie_uuid :: string
  ie_now :: nat
  ie_timestamp :: int
  ie_events :: "(nat \<times> nat \<times> wait_event) list"
  ie_lossy :: "string \<Rightarrow> string"
  ie_escape_debug :: "string \<Rightarrow> string"
  ie_debug_list :: "string list \<Rightarrow> string"
  ie_lowercase :: "string \<Rightarrow> string"
  ie_base64 :: "string \<Rightarrow> string"
  ie_setting :: "string + string option"
  ie_decode_guard :: "string \<Rightarrow> guard_config option"
  ie_audit :: "audit_event list \<Rightarrow> audit_event \<Rightarrow> string + unit"
  ie_sftp :: "(string \<times> sftp_request) list \<Rightarrow> string \<Rightarrow> sftp_server"
  ie_paths :: local_paths
  ie_make_dirs :: "string list \<Rightarrow> string + unit"
  ie_write_file :: "string list \<Rightarrow> string + unit"
  ie_read_file :: "string \<Rightarrow> string + string"
  ie_tree :: "string \<Rightarrow> directory_transfer_options \<Rightarrow>
    ignore_rules \<times> (string \<Rightarrow> local_file) \<times> string option \<times> (string + walk_entry) list"
  ie_ignore_config :: "string + upload_ignore_config option"
  ie_env_excludes :: "string option"
  ie_plugin :: plugin_env
  ie_plugins :: plugin_table
  ie_plugin_rows :: "string + plugin_installation list"
  ie_tunnel_started :: "string + 16 word"
  ie_tunnel_ended :: "tunnel_status option"
  ie_recording_dir :: "string + unit"
  ie_recording_path :: string
  ie_recording_added :: "string + unit"
  ie_recording_updated :: "string + unit"
  ie_updated :: "string \<Rightarrow> bool"

type_synonym 'a ipc = "(ipc_world, 'a) io"

definition guard_of :: "ipc_env \<Rightarrow> guard_config" where
  "guard_of env = load_guard_config (ie_decode_guard env) (ie_setting env)"

definition agent_activity_record :: "ipc_env \<Rightarrow> audit_event \<Rightarrow> unit ipc" where
  "agent_activity_record env event w =
     (if 256 * 1024 < length (au_summary event) then (w, Inl ''Agent command exceeds the 256 KiB audit limit'')
      else (case ie_audit env (iw_audit w) event of
              Inl e \<Rightarrow> (w, Inl e)
            | Inr _ \<Rightarrow> (w\<lparr>iw_audit := iw_audit w @ [event]\<rparr>, Inr ())))"

section \<open>Reaching the sessions\<close>

definition on_session :: "string \<Rightarrow> string \<Rightarrow> 'a on_session \<Rightarrow> 'a ipc" where
  "on_session missing i m w =
     (case get_session i (iw_manager w) of
        None \<Rightarrow> (w, Inl missing)
      | Some s \<Rightarrow>
          (case m (s, iw_calls w) of ((s', h'), r) \<Rightarrow>
             (w\<lparr>iw_manager := (iw_manager w)\<lparr>sm_sessions := AList.update i s' (sm_sessions (iw_manager w))\<rparr>,
                iw_calls := h'\<rparr>, r)))"

definition on_manager :: "'a managing \<Rightarrow> 'a ipc" where
  "on_manager m w =
     (case m (iw_manager w, iw_calls w) of ((m', h'), r) \<Rightarrow> (w\<lparr>iw_manager := m', iw_calls := h'\<rparr>, r))"

definition not_found :: "string \<Rightarrow> string" where
  "not_found i = ''Session not found: '' @ i"

definition with_sftp :: "ipc_env \<Rightarrow> string \<Rightarrow> (sftp_server \<Rightarrow> 'a sftp) \<Rightarrow> 'a ipc" where
  "with_sftp env i operation =
     sbind (on_session (not_found i) i
       (smap_err ((@) ''Failed to open SFTP subsystem: '') (open_sftp_in_session (ie_peer env)))) (\<lambda>_ w.
     case operation (ie_sftp env (iw_sftp w) i) [] of (requests, r) \<Rightarrow>
       (w\<lparr>iw_sftp := iw_sftp w @ map (Pair i) requests\<rparr>, r))"

definition respond :: "('a \<Rightarrow> ipc_reply) \<Rightarrow> 'a ipc \<Rightarrow> ipc_reply option ipc" where
  "respond f m = sbind m (\<lambda>x. sreturn (Some (f x)))"

section \<open>Tunnels and recordings\<close>

definition on_tunnels :: "(tunnels \<Rightarrow> tunnels \<times> (string + 'a)) \<Rightarrow> 'a ipc" where
  "on_tunnels f w =
     (case sm_tunnels (iw_manager w) of
        None \<Rightarrow> (w, Inl ''Tunnel service is unavailable'')
      | Some ts \<Rightarrow> (case f ts of (ts', r) \<Rightarrow>
          (w\<lparr>iw_manager := (iw_manager w)\<lparr>sm_tunnels := Some ts'\<rparr>\<rparr>, r)))"

definition on_logger :: "(session_logger \<Rightarrow> session_logger \<times> (string + 'a)) \<Rightarrow> 'a ipc" where
  "on_logger f w =
     (case sm_logger (iw_manager w) of
        None \<Rightarrow> (w, Inl ''Recording service is unavailable'')
      | Some l \<Rightarrow> (case f l of (l', r) \<Rightarrow>
          (w\<lparr>iw_manager := (iw_manager w)\<lparr>sm_logger := Some l'\<rparr>\<rparr>, r)))"

definition tunnel_start :: "ipc_env \<Rightarrow> string \<Rightarrow> tunnel_config \<Rightarrow> tunnel_info ipc" where
  "tunnel_start env session_id config w =
     on_tunnels (\<lambda>ts.
       case rbind (ok_or (get_session session_id (iw_manager w)) ''Session not found'') (\<lambda>s.
            rbind (ensure (sn_server_id s = tc_server_id config) ''Tunnel server does not match the session'') (\<lambda>_.
            ok_or (sn_ssh_client s) ''SSH session not connected'')) of
         Inl e \<Rightarrow> (ts, Inl e)
       | Inr ssh \<Rightarrow>
           create_tunnel (sc_session ssh \<noteq> None) (ie_uuid env) (ie_tunnel_started env) (ie_tunnel_ended env)
             session_id config ts) w"

definition recording_start :: "ipc_env \<Rightarrow> string \<Rightarrow> string \<Rightarrow> string ipc" where
  "recording_start env session_id server_id w =
     on_logger (\<lambda>l.
       case rbind (ok_or (get_session session_id (iw_manager w)) ''Session not found'') (\<lambda>s.
            rbind (ensure (sn_server_id s = server_id) ''Recording server does not match the session'') (\<lambda>_. Inr s)) of
         Inl e \<Rightarrow> (l, Inl e)
       | Inr s \<Rightarrow>
           start_recording (ie_uuid env) (ie_timestamp env) (ie_recording_dir env) (ie_recording_path env)
             (ie_recording_added env) (sn_id s) server_id l) w"

definition service_dispatch :: "ipc_env \<Rightarrow> runtime_request \<Rightarrow> service_value ipc" where
  "service_dispatch env request =
     (case request of
        TunnelStart session_id config \<Rightarrow> sbind (tunnel_start env session_id config) (\<lambda>info. sreturn (TunnelValue info))
      | TunnelStop tunnel_id \<Rightarrow> sbind (on_tunnels (stop_tunnel tunnel_id)) (\<lambda>_. sreturn NoValue)
      | TunnelList session_id \<Rightarrow> on_tunnels (\<lambda>ts. (ts, Inr (TunnelValues (list_tunnels session_id ts))))
      | TunnelStopSession session_id \<Rightarrow> on_tunnels (\<lambda>ts. (stop_all_for_session session_id ts, Inr NoValue))
      | RecordingStart session_id server_id \<Rightarrow>
          sbind (recording_start env session_id server_id) (\<lambda>i. sreturn (RecordingValue i))
      | RecordingStop recording_id \<Rightarrow>
          sbind (on_logger (stop_recording (ie_timestamp env) (ie_recording_updated env) recording_id)) (\<lambda>_. sreturn NoValue)
      | RecordingStatus session_id \<Rightarrow>
          on_logger (\<lambda>l. (l, Inr (RecordingStatusValue (get_recording_id session_id l)))))"

section \<open>Plugins\<close>

definition plugin_env_of :: "ipc_env \<Rightarrow> plugin_env" where
  "plugin_env_of env = (ie_plugin env)\<lparr>pe_guard_setting := ie_setting env, pe_guard_decode := ie_decode_guard env\<rparr>"

definition plugin_list :: "ipc_env \<Rightarrow> bool \<Rightarrow> string + plugin_record list" where
  "plugin_list env installed_only =
     rbind (list_plugins (plugin_env_of env) (ie_plugin_rows env)) (\<lambda>records.
     Inr (filter (\<lambda>r. \<not> installed_only \<or> rec_installed r) records))"

definition plugin_describe :: "ipc_env \<Rightarrow> string \<Rightarrow> bool \<Rightarrow> string + plugin_data" where
  "plugin_describe env i reference =
     rbind (list_plugins (plugin_env_of env) (ie_plugin_rows env)) (\<lambda>records.
     rbind (ok_or (List.find (\<lambda>r. pm_id (rec_manifest r) = i) records) (''Plugin not found: '' @ i)) (\<lambda>record.
     Inr (if reference then PluginReference (rec_manifest record) else PluginDescription record)))"

definition exec_on :: "ipc_env \<Rightarrow> string \<Rightarrow> string \<Rightarrow> string \<Rightarrow> string option \<Rightarrow> string option ipc" where
  "exec_on env missing i command stdin_data =
     on_session missing i
       (exec_command_in_session (ie_peer env) (ie_lossy env) (ie_now env) command stdin_data (ie_events env))"

definition run_locally :: "ipc_env \<Rightarrow> prepared_action \<Rightarrow> string ipc" where
  "run_locally env p w =
     (w\<lparr>iw_local := iw_local w @ [RanLocally (pr_command p)]\<rparr>, pe_run_local (plugin_env_of env) (pr_command p) (pr_stdin p))"

definition run_action :: "ipc_env \<Rightarrow> plugin_request \<Rightarrow> bool \<Rightarrow> prepared_action \<Rightarrow> string option ipc" where
  "run_action env request is_local p =
     (if is_local then
        if pr_native_status p then slift (map_sum id Some (pe_local_status (plugin_env_of env)))
        else sbind (run_locally env p) (\<lambda>out. sreturn (Some out))
      else
        sbind (exec_on env ''Session not found'' (rq_session_id request) (pr_command p) (pr_stdin p)) (\<lambda>output.
        case output of
          None \<Rightarrow> sreturn None
        | Some out \<Rightarrow>
            if pr_native_status p then slift (map_sum id Some (pe_parse_status (plugin_env_of env) out)) else sreturn (Some out)))"

definition plugin_event :: "plugin_request \<Rightarrow> prepared_action \<Rightarrow> string \<Rightarrow> activity_status \<Rightarrow> audit_event" where
  "plugin_event request p source progress =
     \<lparr>au_tool = source, au_session_id = Some (rq_session_id request),
      au_summary = rq_plugin_id request @ ''/'' @ rq_action_id request @ [CHR 0x0A] @
        (if pr_native_status p then ''Read performance snapshot'' else pr_command p),
      au_status = progress\<rparr>"

definition plugin_execute :: "ipc_env \<Rightarrow> plugin_request \<Rightarrow> string \<Rightarrow> string option \<Rightarrow> plugin_result option ipc" where
  "plugin_execute env request source reviewed_command =
     (let is_local = pe_is_local (plugin_env_of env) (rq_session_id request) in
      sbind (slift (prepare (plugin_env_of env) (ie_plugins env) request is_local)) (\<lambda>p.
      sbind (slift (ensure (\<not> (case reviewed_command of Some reviewed \<Rightarrow> reviewed \<noteq> pr_command p | None \<Rightarrow> False))
         ''Plugin changed while approval was pending; review the current action again'')) (\<lambda>_.
      sbind (slift (ensure (\<not> (pr_requires_confirmation p \<and> \<not> rq_confirmed request))
         ''This plugin action requires explicit approval; request human confirmation before using --confirm'')) (\<lambda>_.
      sbind (agent_activity_record env (plugin_event request p source Started)) (\<lambda>_.
      sbind (stry (run_action env request is_local p)) (\<lambda>outcome.
      if outcome = Inr None then sreturn None
      else
        sbind (stry (agent_activity_record env
          (plugin_event request p source (if is_ok outcome then Succeeded else Failed)))) (\<lambda>_.
        sbind (slift outcome) (\<lambda>out.
        let (text, truncated) = truncate_output (case out of Some t \<Rightarrow> t | None \<Rightarrow> []) in
        sreturn (Some \<lparr>res_plugin_id = rq_plugin_id request, res_action_id = rq_action_id request,
          res_output = text, res_truncated = truncated\<rparr>)))))))))"

section \<open>Files\<close>

definition get_sftp_context :: "string \<Rightarrow> sftp_context ipc" where
  "get_sftp_context session_id w =
     (w, ok_or (iw_contexts w session_id) (''SFTP not initialized for session '' @ session_id))"

definition set_sftp_context :: "string \<Rightarrow> sftp_context \<Rightarrow> unit ipc" where
  "set_sftp_context session_id context w = (w\<lparr>iw_contexts := (iw_contexts w)(session_id \<mapsto> context)\<rparr>, Inr ())"

definition clear_sftp_context :: "string \<Rightarrow> unit ipc" where
  "clear_sftp_context session_id w = (w\<lparr>iw_contexts := (iw_contexts w)(session_id := None)\<rparr>, Inr ())"

definition resolved_in :: "sftp_context \<Rightarrow> string \<Rightarrow> string" where
  "resolved_in context path = resolve_remote_path path (cx_home_dir context) (cx_current_path context)"

definition modified_seconds :: "int option \<Rightarrow> int" where
  "modified_seconds modified = (case modified of Some t \<Rightarrow> if 0 \<le> t then t else 0 | None \<Rightarrow> 0)"

definition attrs_len :: "file_attrs \<Rightarrow> nat" where
  "attrs_len a = (case fa_size a of Some n \<Rightarrow> n | None \<Rightarrow> 0)"

definition entry_with :: "string \<Rightarrow> string \<Rightarrow> bool \<Rightarrow> file_attrs \<Rightarrow> sftp_entry" where
  "entry_with name path is_directory a =
     \<lparr>en_name = name, en_path = path, en_is_directory = is_directory, en_size = (if is_directory then 0 else attrs_len a),
      en_modified_at = modified_seconds (fa_modified a),
      en_permissions = (if is_directory then ''d'' else ''-'') @ fa_permissions a\<rparr>"

definition listed_entry :: "string \<Rightarrow> dir_entry \<Rightarrow> sftp_entry" where
  "listed_entry resolved e =
     entry_with (de_name e) (if ends_with resolved [slash] then resolved @ de_name e else resolved @ slash # de_name e)
       (de_is_dir e) (de_attrs e)"

text \<open>Directories first, then by name; a stable sort by the name followed by one by the kind.\<close>

definition sort_listing :: "(string \<Rightarrow> string) \<Rightarrow> sftp_entry list \<Rightarrow> sftp_entry list" where
  "sort_listing lowercase entries =
     sort_key (\<lambda>e. \<not> en_is_directory e) (sort_key (\<lambda>e. lowercase (en_name e)) entries)"

definition list_directory :: "(string \<Rightarrow> string) \<Rightarrow> string \<Rightarrow> sftp_server \<Rightarrow> sftp_entry list sftp" where
  "list_directory lowercase resolved srv =
     sbind (smap_err (\<lambda>e. ''Failed to list directory '' @ resolved @ '': '' @ e) (ask (sv_entries srv) (ReadDir resolved))) (\<lambda>found.
     sbind (slift (traverse (\<lambda>e. rbind (validate_remote_entry_name (de_name e)) (\<lambda>_. Inr (listed_entry resolved e)))
         (filter (\<lambda>e. de_name e \<noteq> ''.'' \<and> de_name e \<noteq> ''..'') found))) (\<lambda>entries.
     sreturn (sort_listing lowercase entries)))"

definition sftp_init :: "ipc_env \<Rightarrow> string \<Rightarrow> ipc_reply option ipc" where
  "sftp_init env session_id =
     sbind (with_sftp env session_id (\<lambda>srv.
       smap_err ((@) ''Failed to resolve home directory: '') (ask (sv_data srv) (Canonicalize ''.'')))) (\<lambda>home_dir.
     sbind (set_sftp_context session_id \<lparr>cx_home_dir = home_dir, cx_current_path = home_dir\<rparr>) (\<lambda>_. sreturn (Some IpcOk)))"

definition sftp_list_dir :: "ipc_env \<Rightarrow> string \<Rightarrow> string \<Rightarrow> bool \<Rightarrow> ipc_reply option ipc" where
  "sftp_list_dir env session_id path preserve_cwd =
     sbind (get_sftp_context session_id) (\<lambda>context.
     let resolved = resolved_in context path in
     sbind (with_sftp env session_id (list_directory (ie_lowercase env) resolved)) (\<lambda>entries.
     if preserve_cwd then sreturn (Some (SftpEntries entries))
     else
       sbind (set_sftp_context session_id (context\<lparr>cx_current_path := resolved\<rparr>)) (\<lambda>_.
       sreturn (Some (SftpEntries entries)))))"

definition sftp_stat :: "ipc_env \<Rightarrow> string \<Rightarrow> string \<Rightarrow> ipc_reply option ipc" where
  "sftp_stat env session_id path =
     sbind (get_sftp_context session_id) (\<lambda>context.
     let resolved = resolved_in context path in
     respond SftpStatResult (with_sftp env session_id (\<lambda>srv.
       sbind (smap_err (\<lambda>e. ''Failed to stat '' @ resolved @ '': '' @ e) (ask (sv_attrs srv) (Metadata resolved))) (\<lambda>a.
       sreturn (entry_with (case file_name resolved of Some n \<Rightarrow> n | None \<Rightarrow> resolved) resolved (fa_is_dir a) a)))))"

text \<open>A limit of zero asks for nothing; the server may send more than it is asked for.\<close>

definition take_file :: "sftp_server \<Rightarrow> string \<Rightarrow> nat \<Rightarrow> string sftp" where
  "take_file srv resolved limit =
     (if limit = 0 then sreturn []
      else
        sbind (smap_err (\<lambda>e. ''Failed to read file '' @ resolved @ '': '' @ e) (ask (sv_data srv) (Read resolved limit))) (\<lambda>received.
        sreturn (take limit received)))"

definition read_preview ::
    "(string \<Rightarrow> string) \<Rightarrow> (string \<Rightarrow> string) \<Rightarrow> string \<Rightarrow> nat option \<Rightarrow> bool option \<Rightarrow> sftp_server \<Rightarrow> sftp_file_content sftp" where
  "read_preview base64 lossy resolved max_size_arg as_binary srv =
     sbind (smap_err (\<lambda>e. ''Failed to stat '' @ resolved @ '': '' @ e) (ask (sv_attrs srv) (Metadata resolved))) (\<lambda>a.
     if fa_is_dir a then sfail (''Cannot read directory as file: '' @ resolved)
     else
       let binary = (as_binary = Some True);
           max_size = (case max_size_arg of Some n \<Rightarrow> n | None \<Rightarrow> if binary then 10 * 1024 * 1024 else 1024 * 1024);
           file_size = attrs_len a in
       if max_size < file_size \<and> binary then
         sfail (''File too large for preview: '' @ show_nat file_size @ '' bytes (max: '' @ show_nat max_size @ '' bytes)'')
       else
         sbind (smap_err (\<lambda>e. ''Failed to open file '' @ resolved @ '': '' @ e) (ask (sv_unit srv) (OpenRead resolved))) (\<lambda>_.
         sbind (take_file srv resolved (if binary then file_size else min max_size file_size)) (\<lambda>bytes.
         sreturn \<lparr>fc_content = (if binary then base64 bytes else lossy bytes), fc_is_binary = binary, fc_size = file_size,
           fc_truncated = (\<not> binary \<and> length bytes < file_size), fc_mime_type = mime_type resolved\<rparr>)))"

definition sftp_read_file :: "ipc_env \<Rightarrow> string \<Rightarrow> string \<Rightarrow> nat option \<Rightarrow> bool option \<Rightarrow> ipc_reply option ipc" where
  "sftp_read_file env session_id path max_size as_binary =
     sbind (get_sftp_context session_id) (\<lambda>context.
     respond SftpFileContent (with_sftp env session_id
       (read_preview (ie_base64 env) (ie_lossy env) (resolved_in context path) max_size as_binary)))"

text \<open>The changes that answer \<open>IpcOk\<close>.\<close>

definition sftp_change :: "ipc_env \<Rightarrow> string \<Rightarrow> (sftp_context \<Rightarrow> sftp_server \<Rightarrow> unit sftp) \<Rightarrow> ipc_reply option ipc" where
  "sftp_change env session_id change =
     sbind (get_sftp_context session_id) (\<lambda>context.
     respond (\<lambda>_. IpcOk) (with_sftp env session_id (change context)))"

definition completed_transfer :: "ipc_env \<Rightarrow> string \<Rightarrow> string \<Rightarrow> transfer_progress" where
  "completed_transfer env filename content =
     (new_progress (ie_uuid env) filename (length content))
       \<lparr>tp_transferred_bytes := length content, tp_status := TransferCompleted\<rparr>"

definition name_or_unknown :: "string \<Rightarrow> string" where
  "name_or_unknown path = (case file_name path of Some n \<Rightarrow> n | None \<Rightarrow> ''unknown'')"

definition make_local_dirs :: "ipc_env \<Rightarrow> string list \<Rightarrow> unit ipc" where
  "make_local_dirs env parent w =
     (w\<lparr>iw_local := iw_local w @ [MadeDirs parent]\<rparr>,
      map_sum (\<lambda>e. ''Failed to create parent directory '' @ display_path parent @ '': '' @ e) id (ie_make_dirs env parent))"

definition write_local_file :: "ipc_env \<Rightarrow> string list \<Rightarrow> string \<Rightarrow> unit ipc" where
  "write_local_file env target content w =
     (w\<lparr>iw_local := iw_local w @ [WroteFile target content]\<rparr>,
      map_sum (\<lambda>e. ''Failed to write local file '' @ display_path target @ '': '' @ e) id (ie_write_file env target))"

definition save_download :: "ipc_env \<Rightarrow> string list \<Rightarrow> string \<Rightarrow> unit ipc" where
  "save_download env target content =
     sbind (case local_parent target of None \<Rightarrow> sreturn () | Some parent \<Rightarrow> make_local_dirs env parent) (\<lambda>_.
     sbind (slift (ensure_parent_within_allowlist (ie_paths env) target)) (\<lambda>_.
     write_local_file env target content))"

definition sftp_download_file :: "ipc_env \<Rightarrow> string \<Rightarrow> string \<Rightarrow> string \<Rightarrow> ipc_reply option ipc" where
  "sftp_download_file env session_id remote_path local_path =
     sbind (get_sftp_context session_id) (\<lambda>context.
     let resolved = resolved_in context remote_path in
     sbind (slift (confine_download_target (ie_paths env) local_path)) (\<lambda>target.
     sbind (with_sftp env session_id (\<lambda>srv.
       smap_err (\<lambda>e. ''Failed to read remote file '' @ resolved @ '': '' @ e) (ask (sv_data srv) (ReadAll resolved)))) (\<lambda>content.
     sbind (save_download env target content) (\<lambda>_.
     sreturn (Some (SftpTransfer (completed_transfer env (name_or_unknown resolved) content)))))))"

definition sftp_upload_file :: "ipc_env \<Rightarrow> string \<Rightarrow> string \<Rightarrow> string \<Rightarrow> ipc_reply option ipc" where
  "sftp_upload_file env session_id local_path remote_path =
     sbind (get_sftp_context session_id) (\<lambda>context.
     respond SftpTransfer (with_sftp env session_id (\<lambda>srv.
       sbind (slift (map_sum (\<lambda>e. ''Failed to read local file '' @ local_path @ '': '' @ e) id (ie_read_file env local_path))) (\<lambda>content.
       let filename = name_or_unknown local_path in
       sbind (resolve_remote_upload_path srv (resolved_in context remote_path) filename) (\<lambda>resolved.
       sbind (write_remote_file srv resolved content) (\<lambda>_.
       sreturn (completed_transfer env filename content)))))))"

definition sftp_upload_directory ::
    "ipc_env \<Rightarrow> string \<Rightarrow> string \<Rightarrow> string \<Rightarrow> transfer_mode \<Rightarrow> bool \<Rightarrow> bool option \<Rightarrow> string list \<Rightarrow> ipc_reply option ipc" where
  "sftp_upload_directory env session_id local_path remote_path mode delete_extra respect_gitignore excluded_paths =
     sbind (get_sftp_context session_id) (\<lambda>context.
     let options = effective_directory_transfer_options (ie_ignore_config env) (ie_env_excludes env)
           (Some excluded_paths) respect_gitignore delete_extra in
     respond SftpDirectoryTransfer (with_sftp env session_id (\<lambda>srv.
       case ie_tree env local_path options of (rules, files, name, walk) \<Rightarrow>
         transfer_directory_to_sftp srv rules files (build_directory_transfer_plan local_path name walk)
           (resolved_in context remote_path) mode options)))"

definition sftp_dispatch :: "ipc_env \<Rightarrow> string \<Rightarrow> sftp_op \<Rightarrow> ipc_reply option ipc" where
  "sftp_dispatch env session_id operation =
     (case operation of
        SftpInit \<Rightarrow> sftp_init env session_id
      | SftpListDir path preserve_cwd \<Rightarrow> sftp_list_dir env session_id path preserve_cwd
      | SftpPwd \<Rightarrow> respond (\<lambda>context. SftpPath (cx_current_path context)) (get_sftp_context session_id)
      | SftpStat path \<Rightarrow> sftp_stat env session_id path
      | SftpReadFile path max_size as_binary \<Rightarrow> sftp_read_file env session_id path max_size as_binary
      | SftpWriteFile path content \<Rightarrow>
          sftp_change env session_id (\<lambda>context srv. write_remote_file srv (resolved_in context path) content)
      | SftpAddFile path content overwrite parents \<Rightarrow>
          sftp_change env session_id (\<lambda>context srv.
            write_remote_file_with_options srv (resolved_in context path) content parents overwrite)
      | SftpDownloadFile remote_path local_path \<Rightarrow> sftp_download_file env session_id remote_path local_path
      | SftpUploadFile local_path remote_path \<Rightarrow> sftp_upload_file env session_id local_path remote_path
      | SftpUploadDirectory local_path remote_path mode delete_extra respect_gitignore excluded_paths \<Rightarrow>
          sftp_upload_directory env session_id local_path remote_path mode delete_extra respect_gitignore excluded_paths
      | SftpMkdir path \<Rightarrow> sftp_change env session_id (\<lambda>context srv. sftp_mkdir_recursive srv (resolved_in context path))
      | SftpDelete path recursive \<Rightarrow>
          sftp_change env session_id (\<lambda>context srv. sftp_delete_path srv (resolved_in context path) recursive)
      | SftpRename old_path new_path \<Rightarrow>
          sftp_change env session_id (\<lambda>context srv.
            let old_resolved = resolved_in context old_path; new_resolved = resolved_in context new_path in
            smap_err (\<lambda>e. ''Failed to rename '' @ old_resolved @ '' to '' @ new_resolved @ '': '' @ e)
              (ask (sv_unit srv) (Rename old_resolved new_resolved))))"

section \<open>Sessions\<close>

definition server_info :: "server \<Rightarrow> ipc_server_info" where
  "server_info s =
     \<lparr>is_id = se_id s, is_name = se_name s, is_host = se_host s, is_port = se_port s, is_username = se_username s,
      is_auth_type = auth_type_to_string (se_auth_type s), is_group_id = se_group_id s,
      is_jump_host_id = se_jump_host_id s, is_tags = se_tags s\<rparr>"

definition list_servers :: "ipc_reply option ipc" where
  "list_servers w = (w, Inr (Some (ServerList (map server_info (server_list None None (sm_database (iw_manager w)))))))"

definition state_text :: "session_state \<Rightarrow> string" where
  "state_text s =
     (case s of Connecting \<Rightarrow> ''connecting'' | Connected \<Rightarrow> ''connected'' | Disconnected \<Rightarrow> ''disconnected'' | SessionError \<Rightarrow> ''error'')"

definition ipc_session_info_of :: "session_info \<Rightarrow> ipc_session_info" where
  "ipc_session_info_of s =
     \<lparr>ii_id = si_id s, ii_server_id = si_server_id s, ii_server_name = si_server_name s, ii_state = state_text (si_state s),
      ii_created_at = si_created_at s, ii_clients = si_clients s\<rparr>"

definition list_ipc_sessions :: "ipc_env \<Rightarrow> ipc_reply option ipc" where
  "list_ipc_sessions env =
     respond (\<lambda>infos. SessionList (map ipc_session_info_of infos))
       (on_manager (\<lambda>(m, h). case list_sessions (ie_peer env) m h of (h, r) \<Rightarrow> ((m, h), r)))"

definition ipc_pty :: "nat option \<Rightarrow> nat option \<Rightarrow> pty_config" where
  "ipc_pty cols rows =
     default_pty_config\<lparr>pty_cols := (case cols of Some n \<Rightarrow> n | None \<Rightarrow> 80), pty_rows := (case rows of Some n \<Rightarrow> n | None \<Rightarrow> 24)\<rparr>"

definition create_ipc_session :: "ipc_env \<Rightarrow> string \<Rightarrow> ssh_credential \<Rightarrow> pty_config \<Rightarrow> ipc_reply option ipc" where
  "create_ipc_session env server_name credential pty =
     respond (\<lambda>s. SessionCreated (sn_id s)) (smap_err (\<lambda>e. ''Failed to connect to '' @ quoted server_name @ '': '' @ e)
       (on_manager (create_with_credentials (ie_session env) (ie_peer env) (ie_uuid env) (ie_timestamp env) (ie_now env)
          server_name credential (Some pty))))"

definition create_saved_session :: "ipc_env \<Rightarrow> string \<Rightarrow> ipc_reply option ipc" where
  "create_saved_session env server_name =
     sbind (slift (map_sum (\<lambda>e. ''Failed to look up credentials for '' @ quoted server_name @ '': '' @ e) id
              (sx_credential (ie_session env) server_name))) (\<lambda>found.
     sbind (slift (ok_or found (''No saved credentials for server '' @ quoted server_name @
              ''. Save the password or private key in VibeShell, or connect through the GUI. No SSH connection was created.''))) (\<lambda>cred.
     sbind (slift (map_sum (\<lambda>e. ''Failed to load credentials for '' @ quoted server_name @ '': '' @ e) id
              (from_stored (ie_session env) cred))) (\<lambda>credential.
     create_ipc_session env server_name credential (ipc_pty None None))))"

definition given_credential :: "string \<Rightarrow> string \<Rightarrow> string \<Rightarrow> string option \<Rightarrow> string + ssh_credential" where
  "given_credential server_name auth_type credential passphrase =
     (if auth_type = ''password'' then Inr (Password credential)
      else if auth_type = ''key'' \<or> auth_type = ''key_with_passphrase'' then Inr (PrivateKey credential passphrase)
      else Inl (''Unknown auth type '' @ quoted auth_type @ '' for server '' @ quoted server_name))"

definition kill_ipc_session :: "ipc_env \<Rightarrow> string \<Rightarrow> ipc_reply option ipc" where
  "kill_ipc_session env session_id =
     sbind (clear_sftp_context session_id) (\<lambda>_.
     respond (\<lambda>_. IpcOk) (smap_err ((@) ''Failed to kill session: '')
       (on_manager (kill (ie_peer env) (ie_timestamp env) (ie_updated env) session_id))))"

definition send_ipc_input :: "ipc_env \<Rightarrow> string \<Rightarrow> string \<Rightarrow> ipc_reply option ipc" where
  "send_ipc_input env session_id data =
     respond (\<lambda>_. IpcOk) (on_session (not_found session_id) session_id
       (smap_err ((@) ''Failed to send input: '') (write_to_ssh (ie_peer env) (ie_now env) data)))"

definition blocked_command :: "string list \<Rightarrow> string" where
  "blocked_command reasons =
     ''Command requires user approval, but no approval UI is available over IPC. Blocked for safety: '' @ join ''; '' reasons"

definition exec_ipc_command :: "ipc_env \<Rightarrow> bool \<Rightarrow> string \<Rightarrow> string \<Rightarrow> string option \<Rightarrow> ipc_reply option ipc" where
  "exec_ipc_command env quick session_id command stdin =
     (let config = guard_of env; decision = classify_command command config in
      if gc_enabled config \<and> gc_require_for_exec config \<and> rd_requires_approval decision
      then sfail (blocked_command (rd_reasons decision))
      else if quick then
        sbind (on_session (not_found session_id) session_id (smap_err ((@) ''Failed to execute command: '')
                 (exec_quick_command (ie_peer env) (ie_lossy env) (ie_now env) command (ie_events env)))) (\<lambda>result.
        sreturn (map_option (\<lambda>r. CommandResult (cr_output r) (cr_exit_code r)) result))
      else
        sbind (on_session (not_found session_id) session_id (smap_err ((@) ''Failed to execute command: '')
                 (exec_command_in_session (ie_peer env) (ie_lossy env) (ie_now env) command stdin (ie_events env)))) (\<lambda>output.
        sreturn (map_option CommandOutput output)))"

section \<open>Dispatch\<close>

definition dispatch_request :: "ipc_env \<Rightarrow> ipc_request \<Rightarrow> ipc_reply option ipc" where
  "dispatch_request env request =
     (case request of
        SessionService service \<Rightarrow> respond ServiceResult (service_dispatch env service)
      | PluginList installed_only \<Rightarrow> respond (\<lambda>rs. PluginData (PluginRecords rs)) (slift (plugin_list env installed_only))
      | PluginDescribe plugin_id reference \<Rightarrow> respond PluginData (slift (plugin_describe env plugin_id reference))
      | PluginExecute plugin \<Rightarrow>
          sbind (plugin_execute env plugin ''cli.plugin'' None) (\<lambda>r. sreturn (map_option (\<lambda>res. PluginData (PluginResult res)) r))
      | ListServers \<Rightarrow> list_servers
      | ListSessions \<Rightarrow> list_ipc_sessions env
      | CreateSession server_name \<Rightarrow> create_saved_session env server_name
      | CreateSessionWithCredentials server_name auth_type credential passphrase cols rows \<Rightarrow>
          sbind (slift (given_credential server_name auth_type credential passphrase)) (\<lambda>c.
          create_ipc_session env server_name c (ipc_pty cols rows))
      | KillSession session_id \<Rightarrow> kill_ipc_session env session_id
      | DetachSession session_id \<Rightarrow>
          respond (\<lambda>_. IpcOk) (on_session (not_found session_id) session_id (update_session (detach (ie_now env))))
      | SendInput session_id data \<Rightarrow> send_ipc_input env session_id data
      | Resize session_id cols rows \<Rightarrow>
          respond (\<lambda>_. IpcOk) (on_session (not_found session_id) session_id
            (smap_err ((@) ''Failed to resize: '') (resize_session_pty (ie_peer env) (ie_now env) cols rows)))
      | ExecCommand session_id command stdin \<Rightarrow> exec_ipc_command env False session_id command stdin
      | ExecQuickCommand session_id command \<Rightarrow> exec_ipc_command env True session_id command None
      | SftpRequest session_id operation \<Rightarrow> sftp_dispatch env session_id operation
      | _ \<Rightarrow> sfail ''Unexpected message type'')"

definition dispatch_message :: "ipc_env \<Rightarrow> ipc_message \<Rightarrow> ipc_reply option ipc" where
  "dispatch_message env message =
     (case message of Request request \<Rightarrow> dispatch_request env request | Response _ \<Rightarrow> sfail ''Unexpected message type'')"

section \<open>Handling a message\<close>

definition arrow :: string where
  "arrow = '' '' @ [CHR 0xE2, CHR 0x86, CHR 0x92] @ '' ''"

definition show_flag :: "bool \<Rightarrow> string" where
  "show_flag b = (if b then ''true'' else ''false'')"

definition mode_debug :: "transfer_mode \<Rightarrow> string" where
  "mode_debug mode = (case mode of Upload \<Rightarrow> ''Upload'' | Sync \<Rightarrow> ''Sync'')"

definition describe_sftp :: "ipc_env \<Rightarrow> sftp_op \<Rightarrow> (string \<times> string) list" where
  "describe_sftp env operation =
     (case operation of
        SftpWriteFile path _ \<Rightarrow> [(''cli.sftp_write'', ''Write '' @ path @ '' (contents omitted)'')]
      | SftpAddFile path _ _ _ \<Rightarrow> [(''cli.sftp_write'', ''Write '' @ path @ '' (contents omitted)'')]
      | SftpReadFile path _ _ \<Rightarrow> [(''cli.sftp_read'', path)]
      | SftpListDir path _ \<Rightarrow> [(''cli.sftp_list'', path)]
      | SftpMkdir path \<Rightarrow> [(''cli.sftp_mkdir'', path)]
      | SftpDelete path recursive \<Rightarrow> [(''cli.sftp_delete'', path @ '' (recursive='' @ show_flag recursive @ '')'')]
      | SftpRename old_path new_path \<Rightarrow> [(''cli.sftp_rename'', old_path @ arrow @ new_path)]
      | SftpDownloadFile remote_path local_path \<Rightarrow> [(''cli.sftp_download'', remote_path @ arrow @ local_path)]
      | SftpUploadFile local_path remote_path \<Rightarrow> [(''cli.sftp_upload'', local_path @ arrow @ remote_path)]
      | SftpUploadDirectory local_path remote_path mode delete_extra _ excluded_paths \<Rightarrow>
          [(''cli.sftp_directory'', mode_debug mode @ '': '' @ local_path @ arrow @ remote_path @ ''; delete_extra='' @
            show_flag delete_extra @ ''; excludes='' @ ie_debug_list env excluded_paths)]
      | _ \<Rightarrow> [])"

definition describe_request :: "ipc_env \<Rightarrow> ipc_request \<Rightarrow> (string \<times> string option \<times> string) list" where
  "describe_request env request =
     (case request of
        ExecCommand session_id command _ \<Rightarrow> [(''cli.exec'', Some session_id, command)]
      | CreateSession server_name \<Rightarrow> [(''cli.session_create'', None, server_name)]
      | CreateSessionWithCredentials server_name _ _ _ _ _ \<Rightarrow> [(''cli.session_create'', None, server_name)]
      | SftpRequest session_id operation \<Rightarrow>
          map (\<lambda>(tool, summary). (tool, Some session_id, summary)) (describe_sftp env operation)
      | PluginExecute plugin \<Rightarrow>
          [(''cli.plugin_request'', Some (rq_session_id plugin), rq_plugin_id plugin @ ''/'' @ rq_action_id plugin)]
      | KillSession session_id \<Rightarrow> [(''cli.session_kill'', Some session_id, ''Close session'')]
      | _ \<Rightarrow> [])"

definition input_descriptions ::
    "ipc_env \<Rightarrow> string \<Rightarrow> string \<Rightarrow> tracked_command list \<Rightarrow> bool \<Rightarrow> (string \<times> string option \<times> string) list" where
  "input_descriptions env session_id data commands redact =
     (if commands = [] \<and> data \<noteq> []
      then [(''cli.input_pending'', Some session_id, redacted redact (ie_escape_debug env (ie_lossy env data)))] else []) @
     map (\<lambda>c. (''cli.input'', Some session_id, redacted redact (tc_command c))) commands"

definition input_denied :: "guard_config \<Rightarrow> tracked_command list \<Rightarrow> bool" where
  "input_denied config commands =
     list_ex (\<lambda>c. gc_enabled config \<and>
       (\<not> tc_verifiable c \<or> rd_requires_approval (classify_command (tc_command c) config))) commands"

definition denied_text :: string where
  "denied_text = ''Terminal command requires approval in the VibeShell Agent Gateway; no input was sent''"

text \<open>What is known of a message before it is dispatched: the checkpoint of its input, how it is recorded, and
  whether it is refused.\<close>

record intake =
  it_request :: ipc_message
  it_checkpoint :: "input_checkpoint option"
  it_descriptions :: "(string \<times> string option \<times> string) list"
  it_denied :: bool

definition normalise_message :: "ipc_message \<Rightarrow> ipc_message" where
  "normalise_message message =
     (case message of
        Request (SendUserInput session_id data) \<Rightarrow> Request (SendInput session_id data)
      | Request (SendSensitiveInput session_id data) \<Rightarrow> Request (SendInput session_id data)
      | other \<Rightarrow> other)"

definition take_input :: "ipc_env \<Rightarrow> bool \<Rightarrow> bool \<Rightarrow> string \<Rightarrow> string \<Rightarrow> ipc_world \<Rightarrow> ipc_world \<times> intake" where
  "take_input env user_input sensitive session_id data w =
     (case checkpoint_and_observe_sensitive (iw_tracker w) session_id (ie_lossy env data) [] False sensitive of
        (tracker, saved, commands, redact) \<Rightarrow>
          (w\<lparr>iw_tracker := tracker\<rparr>,
           \<lparr>it_request = Request (SendInput session_id data), it_checkpoint = Some saved,
            it_descriptions = (if user_input then [] else input_descriptions env session_id data commands redact),
            it_denied = (\<not> user_input \<and> input_denied (guard_of env) commands)\<rparr>))"

definition take_message :: "ipc_env \<Rightarrow> ipc_message \<Rightarrow> ipc_world \<Rightarrow> ipc_world \<times> intake" where
  "take_message env message w =
     (let user_input = (case message of Request (SendUserInput _ _) \<Rightarrow> True | _ \<Rightarrow> False);
          sensitive = (case message of Request (SendSensitiveInput _ _) \<Rightarrow> True | _ \<Rightarrow> False) in
      case normalise_message message of
        Request (SendInput session_id data) \<Rightarrow> take_input env user_input sensitive session_id data w
      | m \<Rightarrow>
          (w, \<lparr>it_request = m, it_checkpoint = None,
               it_descriptions = (case m of Request request \<Rightarrow> describe_request env request | Response _ \<Rightarrow> []),
               it_denied = False\<rparr>))"

definition audit_event_of :: "activity_status \<Rightarrow> string \<times> string option \<times> string \<Rightarrow> audit_event" where
  "audit_event_of progress description =
     (case description of (tool, session_id, summary) \<Rightarrow>
       \<lparr>au_tool = tool, au_session_id = session_id, au_summary = summary, au_status = progress\<rparr>)"

fun record_started :: "ipc_env \<Rightarrow> audit_event list \<Rightarrow> unit ipc" where
  "record_started env [] = sreturn ()"
| "record_started env (event # events) = sbind (agent_activity_record env event) (\<lambda>_. record_started env events)"

text \<open>A completion that cannot be recorded is only logged.\<close>

fun record_completed :: "ipc_env \<Rightarrow> audit_event list \<Rightarrow> ipc_world \<Rightarrow> ipc_world" where
  "record_completed env [] w = w"
| "record_completed env (event # events) w = record_completed env events (fst (agent_activity_record env event w))"

definition completed_event :: "ipc_reply \<Rightarrow> audit_event \<Rightarrow> audit_event" where
  "completed_event response event =
     (let event = event\<lparr>au_status := (case response of IpcError _ \<Rightarrow> Failed | _ \<Rightarrow> Succeeded)\<rparr> in
      case response of SessionCreated session_id \<Rightarrow> event\<lparr>au_session_id := Some session_id\<rparr> | _ \<Rightarrow> event)"

definition rollback :: "input_checkpoint option \<Rightarrow> ipc_world \<Rightarrow> ipc_world" where
  "rollback saved w = (case saved of Some cp \<Rightarrow> w\<lparr>iw_tracker := restore (iw_tracker w) cp\<rparr> | None \<Rightarrow> w)"

definition finish_message :: "ipc_env \<Rightarrow> intake \<Rightarrow> audit_event list \<Rightarrow> ipc_world \<times> (string + ipc_reply option) \<Rightarrow>
    ipc_world \<times> ipc_reply option" where
  "finish_message env taken events result =
     (case result of
        (w, Inl e) \<Rightarrow>
          (record_completed env (map (completed_event (IpcError e)) events) (rollback (it_checkpoint taken) w), Some (IpcError e))
      | (w, Inr None) \<Rightarrow> (w, None)
      | (w, Inr (Some response)) \<Rightarrow> (record_completed env (map (completed_event response) events) w, Some response))"

definition handle_message :: "ipc_env \<Rightarrow> ipc_message \<Rightarrow> ipc_world \<Rightarrow> ipc_world \<times> ipc_reply option" where
  "handle_message env message w =
     (case take_message env message w of (w1, taken) \<Rightarrow>
       let events = map (audit_event_of Started) (it_descriptions taken) in
       case record_started env events w1 of
         (w2, Inl e) \<Rightarrow>
           (rollback (it_checkpoint taken) w2,
            Some (IpcError (''Operation was not executed because its audit record could not be saved: '' @ e)))
       | (w2, Inr _) \<Rightarrow>
           finish_message env taken events
             ((if it_denied taken then sfail denied_text else dispatch_message env (it_request taken)) w2))"

section \<open>Reaping\<close>

definition session_idle_ttl :: nat where "session_idle_ttl = 30 * 60 * 1000"

definition reap_tick :: "ipc_env \<Rightarrow> ipc_world \<Rightarrow> ipc_world" where
  "reap_tick env w =
     (case on_manager (reap_inactive_sessions (ie_peer env) (ie_timestamp env) (ie_now env) (ie_updated env) session_idle_ttl) w of
        (w', Inr reaped_ids) \<Rightarrow> w'\<lparr>iw_contexts := fold (\<lambda>i c. c(i := None)) reaped_ids (iw_contexts w')\<rparr>
      | (w', Inl _) \<Rightarrow> w')"

section \<open>Streaming\<close>

text \<open>What the receiver of the output yields; \<open>accepts\<close> tells whether the connection takes the last of the
  messages sent so far.  \<open>None\<close>: the output goes on.\<close>

datatype received = OutputData string | OutputLagged nat | OutputClosed

fun stream_replay :: "(ipc_reply list \<Rightarrow> bool) \<Rightarrow> string \<Rightarrow> ipc_reply list \<Rightarrow> string list \<Rightarrow> ipc_reply list \<times> bool" where
  "stream_replay accepts i sent [] = (sent, True)"
| "stream_replay accepts i sent (data # rest) =
     (if accepts (sent @ [SessionOutput i data]) then stream_replay accepts i (sent @ [SessionOutput i data]) rest
      else (sent, False))"

fun stream_output :: "(ipc_reply list \<Rightarrow> bool) \<Rightarrow> string \<Rightarrow> ipc_reply list \<Rightarrow> received list \<Rightarrow> ipc_reply list option" where
  "stream_output accepts i sent [] = None"
| "stream_output accepts i sent (OutputData data # events) =
     (if accepts (sent @ [SessionOutput i data]) then stream_output accepts i (sent @ [SessionOutput i data]) events
      else Some sent)"
| "stream_output accepts i sent (OutputLagged n # events) = stream_output accepts i sent events"
| "stream_output accepts i sent (OutputClosed # events) =
     (let sent' = sent @ [SessionEnded ''Session closed''] in Some (if accepts sent' then sent' else sent))"

definition modify_session :: "string \<Rightarrow> (session \<Rightarrow> session) \<Rightarrow> ipc_world \<Rightarrow> ipc_world" where
  "modify_session i f w = fst (on_session [] i (update_session f) w)"

definition handle_streaming_attach ::
    "ipc_env \<Rightarrow> (ipc_reply list \<Rightarrow> bool) \<Rightarrow> received list \<Rightarrow> string \<Rightarrow> ipc_world \<Rightarrow>
     ipc_world \<times> (string + ipc_reply list option)" where
  "handle_streaming_attach env accepts events i w =
     (case get_session i (iw_manager w) of
        None \<Rightarrow> (w, Inl (not_found i))
      | Some s \<Rightarrow>
          (let attached = modify_session i (attach (ie_now env)) w;
               detached = modify_session i (detach (ie_now env)) attached in
           if \<not> accepts [IpcOk] then (attached, Inl ''Failed to send response'')
           else
             (case stream_replay accepts i [IpcOk] (replay_output s) of
                (sent, False) \<Rightarrow> (detached, Inr (Some sent))
              | (sent, True) \<Rightarrow>
                  (case stream_output accepts i sent events of
                     None \<Rightarrow> (attached, Inr None)
                   | Some sent \<Rightarrow> (detached, Inr (Some sent))))))"

text \<open>A connection carries one message; \<open>parsed\<close> is what serde makes of its line.\<close>

definition handle_connection ::
    "ipc_env \<Rightarrow> (ipc_reply list \<Rightarrow> bool) \<Rightarrow> received list \<Rightarrow> string + ipc_message \<Rightarrow> ipc_world \<Rightarrow>
     ipc_world \<times> (string + ipc_reply list option)" where
  "handle_connection env accepts events parsed w =
     (case parsed of
        Inl e \<Rightarrow> (w, Inl (''Failed to parse IPC message: '' @ e))
      | Inr (Request (AttachSession i)) \<Rightarrow> handle_streaming_attach env accepts events i w
      | Inr message \<Rightarrow>
          (case handle_message env message w of
             (w', None) \<Rightarrow> (w', Inr None)
           | (w', Some response) \<Rightarrow>
               (w', if accepts [response] then Inr (Some [response]) else Inl ''Failed to send response'')))"

end
