(* ===== verification/Remote_Search.thy ===== *)
theory Remote_Search
  imports Plugin_Manifest
begin

text \<open>
  The search in remote files, \<^verbatim>\<open>src-tauri/src/remote_tools.rs\<close>: the command that runs \<^verbatim>\<open>rg\<close> on the server, or
  \<^verbatim>\<open>grep\<close> where there is none.  What the remote shell makes of it is read with the lexer of
  \<open>Plugin_Manifest\<close>, what \<^verbatim>\<open>rg\<close> makes of its arguments with the conventions its manual gives.
\<close>

section \<open>The command\<close>

record search_options =
  so_pattern :: string
  so_path :: string
  so_ignore_case :: bool
  so_fixed_strings :: bool
  so_hidden :: bool
  so_globs :: "string list"
  so_max_results :: nat

definition new_search :: "string \<Rightarrow> string \<Rightarrow> search_options" where
  "new_search pattern path =
     \<lparr>so_pattern = pattern, so_path = path, so_ignore_case = False, so_fixed_strings = False, so_hidden = False,
      so_globs = [], so_max_results = 200\<rparr>"

definition join_shell_args :: "string list \<Rightarrow> string" where
  "join_shell_args args = join '' '' (map shell_quote args)"

definition search_path :: "search_options \<Rightarrow> string" where
  "search_path options = (if trim (so_path options) = [] then ''.'' else so_path options)"

definition rg_args :: "search_options \<Rightarrow> string list" where
  "rg_args options =
     [''rg'', ''--line-number'', ''--column'', ''--color'', ''never'', ''--heading'', ''never'', ''--no-messages''] @
     (if so_ignore_case options then [''--ignore-case''] else []) @
     (if so_fixed_strings options then [''--fixed-strings''] else []) @
     (if so_hidden options then [''--hidden''] else []) @
     concat (map (\<lambda>glob. [''--glob'', glob]) (so_globs options)) @
     [''--'', so_pattern options, search_path options]"

definition grep_args :: "search_options \<Rightarrow> string list" where
  "grep_args options =
     [''grep'', ''-RIn'', ''--binary-files=without-match'', ''--exclude-dir=.git''] @
     (if so_ignore_case options then [''-i''] else []) @
     (if so_fixed_strings options then [''-F''] else []) @
     [''--'', so_pattern options, search_path options]"

definition search_script :: "string \<Rightarrow> string \<Rightarrow> nat \<Rightarrow> string" where
  "search_script rg grep max_results =
     ''if command -v rg >/dev/null 2>&1; then '' @ rg @ ''; else '' @ grep @ ''; fi | head -n '' @ show_nat max_results"

definition build_remote_rg_command :: "search_options \<Rightarrow> string" where
  "build_remote_rg_command options =
     ''sh -lc '' @ shell_quote (search_script (join_shell_args (rg_args options)) (join_shell_args (grep_args options))
       (max 1 (so_max_results options)))"

section \<open>What the shell and the search make of it\<close>

definition no_nul :: "string \<Rightarrow> bool" where
  "no_nul s \<longleftrightarrow> CHR 0x00 \<notin> set s"

definition search_texts_ok :: "search_options \<Rightarrow> bool" where
  "search_texts_ok options \<longleftrightarrow> no_nul (so_pattern options) \<and> no_nul (so_path options) \<and> list_all no_nul (so_globs options)"

lemma no_nul_append [simp]: "no_nul (a @ b) \<longleftrightarrow> no_nul a \<and> no_nul b"
  by (auto simp: no_nul_def)

lemma no_nul_shell_quote: "no_nul w \<Longrightarrow> no_nul (shell_quote w)"
  by (auto simp: shell_quote_def no_nul_def)

lemma no_nul_show_nat: "no_nul (show_nat n)"
  using show_nat_digits [of n] by (auto simp: no_nul_def list_all_iff is_digit_def byte_def)

lemma no_nul_join: "list_all no_nul ws \<Longrightarrow> no_nul (join '' '' ws)"
  by (induction ws rule: induct_list012) (auto simp: no_nul_def)

lemma no_nul_args:
  assumes "search_texts_ok options"
  shows "list_all no_nul (rg_args options)" "list_all no_nul (grep_args options)"
  using assms
  by (auto simp: search_texts_ok_def rg_args_def grep_args_def search_path_def list_all_iff no_nul_def)

lemma join_shell_args_words:
  assumes "list_all no_nul ws"
  shows "shell_words (join_shell_args ws) = Some ws \<and> no_nul (join_shell_args ws)"
proof
  show "shell_words (join_shell_args ws) = Some ws"
    using assms unfolding join_shell_args_def by (intro shell_words_join) (simp add: list_all_iff no_nul_def)
  show "no_nul (join_shell_args ws)"
    using assms unfolding join_shell_args_def by (intro no_nul_join) (auto simp: list_all_iff intro: no_nul_shell_quote)
qed


definition sample_search :: search_options where
  "sample_search = (new_search ''a; rm -rf $HOME'' ''--pre=sh'')\<lparr>so_globs := [''*.rs'']\<rparr>"


section \<open>What is searched for\<close>

text \<open>The positional arguments of a command line: the words that are neither options nor the values of options that take
  one (\<open>takes_value\<close>), and all words after the end of the options.  The first one of \<^verbatim>\<open>rg\<close> is its pattern.\<close>

fun positionals :: "(string \<Rightarrow> bool) \<Rightarrow> string list \<Rightarrow> string list" where
  "positionals takes_value [] = []"
| "positionals takes_value (w # ws) =
     (if w = ''--'' then ws
      else if takes_value w then (case ws of [] \<Rightarrow> [] | _ # rest \<Rightarrow> positionals takes_value rest)
      else if starts_with w ''-'' then positionals takes_value ws
      else w # positionals takes_value ws)"

lemma positionals_globs:
  "takes_value ''--glob'' \<Longrightarrow>
     positionals takes_value (concat (map (\<lambda>glob. [''--glob'', glob]) globs) @ rest) = positionals takes_value rest"
  by (induction globs) simp_all

text \<open>Supporting result: the option \<^verbatim>\<open>--heading\<close> of \<^verbatim>\<open>rg\<close> takes no value, so the word after it is the pattern: on a
  server with \<^verbatim>\<open>rg\<close> every search looks for the text \<^verbatim>\<open>never\<close>, in files named by the requested pattern and path.\<close>

theorem rg_searches_for_never:
  assumes "takes_value ''--color''" "takes_value ''--glob''"
    "list_all (\<lambda>w. \<not> takes_value w)
       [''--line-number'', ''--column'', ''--heading'', ''never'', ''--no-messages'', ''--ignore-case'', ''--fixed-strings'', ''--hidden'']"
  shows "positionals takes_value (tl (rg_args options)) = [''never'', so_pattern options, search_path options]"
  using assms by (simp add: rg_args_def positionals_globs)

theorem rg_searches_for_never_witness:
  "positionals (\<lambda>w. w \<in> {''--color'', ''--glob''}) (tl (rg_args sample_search)) = [''never'', ''a; rm -rf $HOME'', ''--pre=sh'']"
proof -
  have "positionals (\<lambda>w. w \<in> {''--color'', ''--glob''}) (tl (rg_args sample_search)) =
      [''never'', so_pattern sample_search, search_path sample_search]"
    by (rule rg_searches_for_never) simp_all
  moreover have "so_pattern sample_search = ''a; rm -rf $HOME''" "search_path sample_search = ''--pre=sh''" by code_simp+
  ultimately show ?thesis by simp
qed

end
