(* ===== verification/Tool_Definitions.thy ===== *)
theory Tool_Definitions
  imports Plugin_Manifest
begin

text \<open>
  The definitions of the tools of the agent gateway, \<^verbatim>\<open>src-tauri/src/mcp/tools.rs\<close>: name, description and the
  schema of the arguments, and their compact form, which \<^verbatim>\<open>tools/list\<close> returns.  A JSON object is the list of its
  members.
\<close>

record tool_definition =
  td_name :: string
  td_description :: string
  td_input_schema :: json

definition new_tool :: "string \<Rightarrow> string \<Rightarrow> json \<Rightarrow> tool_definition" where
  "new_tool name description input_schema =
     \<lparr>td_name = name, td_description = description, td_input_schema = input_schema\<rparr>"

section \<open>Schemas\<close>

definition plugin_list_tool :: tool_definition where
  "plugin_list_tool =
     new_tool ''plugin_list''
       ''Discover current plugin installation, enablement and reference commands. No settings or secrets are returned.''
      (JObject [
        (''type'', JString ''object''),
        (''properties'', JObject [(''installed_only'', JObject [(''type'', JString ''boolean''), (''default'', JBool True)])]),
        (''additionalProperties'', JBool False)])"

definition plugin_describe_tool :: tool_definition where
  "plugin_describe_tool =
     new_tool ''plugin_describe''
       ''Read a plugin's exact action schemas, or its current Markdown usage reference. Works for native and imported plugins.''
      (JObject [
        (''type'', JString ''object''),
        (''properties'', JObject [
          (''plugin_id'', JObject [(''type'', JString ''string'')]),
          (''reference'', JObject [(''type'', JString ''boolean''), (''default'', JBool False)])]),
        (''required'', JArray [JString ''plugin_id'']),
        (''additionalProperties'', JBool False)])"

definition plugin_execute_tool :: tool_definition where
  "plugin_execute_tool =
     new_tool ''plugin_execute''
       ''Run one installed/enabled plugin action on an existing session. Read plugin_describe first. Risky actions require approval in the human UI; the model cannot grant itself approval. No passwords in inputs.''
      (JObject [
        (''type'', JString ''object''),
        (''properties'', JObject [
          (''pluginId'', JObject [(''type'', JString ''string'')]),
          (''actionId'', JObject [(''type'', JString ''string'')]),
          (''sessionId'', JObject [(''type'', JString ''string'')]),
          (''inputs'', JObject [
            (''type'', JString ''object''),
            (''description'', JString ''Must match this action's inputSchema from plugin_describe'')]),
          (''trySudo'', JObject [(''type'', JString ''boolean''), (''default'', JBool False)])]),
        (''required'', JArray [JString ''pluginId'', JString ''actionId'', JString ''sessionId'']),
        (''additionalProperties'', JBool False)])"

definition server_list_tool :: tool_definition where
  "server_list_tool =
     new_tool ''server_list''
       ''List all configured SSH servers. Optionally filter by group or tags.''
      (JObject [
        (''type'', JString ''object''),
        (''properties'', JObject [
          (''group_id'', JObject [(''type'', JString ''string''), (''description'', JString ''Filter servers by group ID'')]),
          (''tags'', JObject [
            (''type'', JString ''array''),
            (''items'', JObject [(''type'', JString ''string'')]),
            (''description'', JString ''Filter servers that have any of these tags'')])]),
        (''additionalProperties'', JBool False)])"

definition server_add_tool :: tool_definition where
  "server_add_tool =
     new_tool ''server_add''
       ''Add a new SSH server configuration.''
      (JObject [
        (''type'', JString ''object''),
        (''properties'', JObject [
          (''name'', JObject [(''type'', JString ''string''), (''description'', JString ''Unique name for the server'')]),
          (''host'', JObject [(''type'', JString ''string''), (''description'', JString ''Hostname or IP address'')]),
          (''port'', JObject [
            (''type'', JString ''integer''),
            (''description'', JString ''SSH port (default: 22)''),
            (''default'', JInt 22)]),
          (''username'', JObject [(''type'', JString ''string''), (''description'', JString ''SSH username'')]),
          (''auth_type'', JObject [
            (''type'', JString ''string''),
            (''enum'', JArray [JString ''password'', JString ''key'', JString ''key_with_passphrase'']),
            (''description'', JString ''Authentication type'')]),
          (''group_id'', JObject [
            (''type'', JString ''string''),
            (''description'', JString ''Optional group ID to organize servers'')]),
          (''tags'', JObject [
            (''type'', JString ''array''),
            (''items'', JObject [(''type'', JString ''string'')]),
            (''description'', JString ''Tags for organizing and filtering servers'')])]),
        (''required'', JArray [JString ''name'', JString ''host'', JString ''username'', JString ''auth_type'']),
        (''additionalProperties'', JBool False)])"

definition server_get_tool :: tool_definition where
  "server_get_tool =
     new_tool ''server_get''
       ''Get details of a specific SSH server by ID or name.''
      (JObject [
        (''type'', JString ''object''),
        (''properties'', JObject [
          (''id'', JObject [(''type'', JString ''string''), (''description'', JString ''Server ID'')]),
          (''name'', JObject [
            (''type'', JString ''string''),
            (''description'', JString ''Server name (used if id not provided)'')])]),
        (''additionalProperties'', JBool False)])"

definition server_update_tool :: tool_definition where
  "server_update_tool =
     new_tool ''server_update''
       ''Update an existing SSH server configuration.''
      (JObject [
        (''type'', JString ''object''),
        (''properties'', JObject [
          (''id'', JObject [(''type'', JString ''string''), (''description'', JString ''Server ID to update'')]),
          (''name'', JObject [(''type'', JString ''string''), (''description'', JString ''New name for the server'')]),
          (''host'', JObject [(''type'', JString ''string''), (''description'', JString ''New hostname or IP address'')]),
          (''port'', JObject [(''type'', JString ''integer''), (''description'', JString ''New SSH port'')]),
          (''username'', JObject [(''type'', JString ''string''), (''description'', JString ''New SSH username'')]),
          (''auth_type'', JObject [
            (''type'', JString ''string''),
            (''enum'', JArray [JString ''password'', JString ''key'', JString ''key_with_passphrase'']),
            (''description'', JString ''New authentication type'')]),
          (''group_id'', JObject [(''type'', JString ''string''), (''description'', JString ''New group ID'')]),
          (''tags'', JObject [
            (''type'', JString ''array''),
            (''items'', JObject [(''type'', JString ''string'')]),
            (''description'', JString ''New tags'')])]),
        (''required'', JArray [JString ''id'']),
        (''additionalProperties'', JBool False)])"

definition server_delete_tool :: tool_definition where
  "server_delete_tool =
     new_tool ''server_delete''
       ''Delete an SSH server configuration.''
      (JObject [
        (''type'', JString ''object''),
        (''properties'', JObject [
          (''id'', JObject [(''type'', JString ''string''), (''description'', JString ''Server ID to delete'')])]),
        (''required'', JArray [JString ''id'']),
        (''additionalProperties'', JBool False)])"

definition session_list_tool :: tool_definition where
  "session_list_tool =
     new_tool ''session_list''
       ''List all active SSH sessions.''
      (JObject [(''type'', JString ''object''), (''properties'', JObject []), (''additionalProperties'', JBool False)])"

definition session_create_tool :: tool_definition where
  "session_create_tool =
     new_tool ''session_create''
       ''Connect to a configured server using saved credentials and return a shared GUI session. Reuses the earliest connected session unless force_new is true.''
      (JObject [
        (''type'', JString ''object''),
        (''properties'', JObject [
          (''server_id'', JObject [(''type'', JString ''string''), (''description'', JString ''Server ID to connect to'')]),
          (''server_name'', JObject [
            (''type'', JString ''string''),
            (''description'', JString ''Server name to connect to (used if server_id not provided)'')]),
          (''force_new'', JObject [
            (''type'', JString ''boolean''),
            (''description'', JString ''Create a parallel session instead of reusing a connected session''),
            (''default'', JBool False)])]),
        (''additionalProperties'', JBool False)])"

definition session_attach_tool :: tool_definition where
  "session_attach_tool =
     new_tool ''session_attach''
       ''Attach to an existing SSH session to receive output.''
      (JObject [
        (''type'', JString ''object''),
        (''properties'', JObject [
          (''session_id'', JObject [(''type'', JString ''string''), (''description'', JString ''Session ID to attach to'')])]),
        (''required'', JArray [JString ''session_id'']),
        (''additionalProperties'', JBool False)])"

definition session_detach_tool :: tool_definition where
  "session_detach_tool =
     new_tool ''session_detach''
       ''Detach from an SSH session.''
      (JObject [
        (''type'', JString ''object''),
        (''properties'', JObject [
          (''session_id'', JObject [(''type'', JString ''string''), (''description'', JString ''Session ID to detach from'')])]),
        (''required'', JArray [JString ''session_id'']),
        (''additionalProperties'', JBool False)])"

definition session_kill_tool :: tool_definition where
  "session_kill_tool =
     new_tool ''session_kill''
       ''Terminate an SSH session.''
      (JObject [
        (''type'', JString ''object''),
        (''properties'', JObject [
          (''session_id'', JObject [(''type'', JString ''string''), (''description'', JString ''Session ID to terminate'')]),
          (''all'', JObject [
            (''type'', JString ''boolean''),
            (''description'', JString ''Terminate all sessions''),
            (''default'', JBool False)])]),
        (''additionalProperties'', JBool False)])"

definition session_send_input_tool :: tool_definition where
  "session_send_input_tool =
     new_tool ''session_send_input''
       ''Send text or named keys to the shared terminal PTY. Prefer this for collaborative work: the human sees the AI command in a distinct color and shares the same shell state, working directory, environment, and output.''
      (JObject [
        (''type'', JString ''object''),
        (''properties'', JObject [
          (''session_id'', JObject [
            (''type'', JString ''string''),
            (''description'', JString ''Session ID receiving terminal input'')]),
          (''data'', JObject [(''type'', JString ''string''), (''description'', JString ''Literal terminal input'')]),
          (''sensitive'', JObject [
            (''type'', JString ''boolean''),
            (''description'', JString ''Redact secret/password input from UI command notices and audit. Persists across split calls until Enter. Does not bypass approval.'')]),
          (''keys'', JObject [
            (''type'', JString ''array''),
            (''items'', JObject [
              (''type'', JString ''string''),
              (''enum'', JArray [JString ''enter'', JString ''tab'', JString ''escape'', JString ''backspace'', JString ''ctrl-c'', JString ''ctrl-d'', JString ''ctrl-z'', JString ''up'', JString ''down'', JString ''left'', JString ''right''])]),
            (''description'', JString ''Named terminal keys appended after data'')]),
          (''append_enter'', JObject [
            (''type'', JString ''boolean''),
            (''description'', JString ''Append Enter after data and named keys''),
            (''default'', JBool False)])]),
        (''required'', JArray [JString ''session_id'']),
        (''additionalProperties'', JBool False)])"

definition session_read_tool :: tool_definition where
  "session_read_tool =
     new_tool ''session_read''
       ''Read the latest buffered output from the shared terminal. Returns at most 64 KiB and does not consume the GUI output.''
      (JObject [
        (''type'', JString ''object''),
        (''properties'', JObject [
          (''session_id'', JObject [(''type'', JString ''string''), (''description'', JString ''Session ID to inspect'')]),
          (''max_bytes'', JObject [
            (''type'', JString ''integer''),
            (''minimum'', JInt 1),
            (''maximum'', JInt 65536),
            (''default'', JInt 65536),
            (''description'', JString ''Maximum number of trailing output bytes'')])]),
        (''required'', JArray [JString ''session_id'']),
        (''additionalProperties'', JBool False)])"

definition session_resize_tool :: tool_definition where
  "session_resize_tool =
     new_tool ''session_resize''
       ''Resize the shared terminal PTY.''
      (JObject [
        (''type'', JString ''object''),
        (''properties'', JObject [
          (''session_id'', JObject [(''type'', JString ''string''), (''description'', JString ''Session ID to resize'')]),
          (''cols'', JObject [(''type'', JString ''integer''), (''minimum'', JInt 1)]),
          (''rows'', JObject [(''type'', JString ''integer''), (''minimum'', JInt 1)])]),
        (''required'', JArray [JString ''session_id'', JString ''cols'', JString ''rows'']),
        (''additionalProperties'', JBool False)])"

definition exec_tool :: tool_definition where
  "exec_tool =
     new_tool ''exec''
       ''Execute a command on a separate SSH exec channel and return stdout+stderr. This command is not written to the shared terminal. For normal collaborative work, use session_send_input instead; only use exec when the user explicitly asks for isolated or background execution. It does not change the interactive shell's cwd or environment.''
      (JObject [
        (''type'', JString ''object''),
        (''properties'', JObject [
          (''session_id'', JObject [(''type'', JString ''string''), (''description'', JString ''Session ID to execute command in'')]),
          (''command'', JObject [(''type'', JString ''string''), (''description'', JString ''Command to execute'')]),
          (''timeout_ms'', JObject [
            (''type'', JString ''integer''),
            (''description'', JString ''Command timeout in milliseconds (default: 30000)''),
            (''default'', JInt 30000)])]),
        (''required'', JArray [JString ''session_id'', JString ''command'']),
        (''additionalProperties'', JBool False)])"

definition remote_rg_tool :: tool_definition where
  "remote_rg_tool =
     new_tool ''rg''
       ''Search remote files with ripgrep-style output. Uses rg on the server when available and falls back to grep. Returns matching lines with path and line numbers.''
      (JObject [
        (''type'', JString ''object''),
        (''properties'', JObject [
          (''session_id'', JObject [
            (''type'', JString ''string''),
            (''description'', JString ''Session ID with active SSH connection'')]),
          (''pattern'', JObject [(''type'', JString ''string''), (''description'', JString ''Pattern to search for'')]),
          (''path'', JObject [
            (''type'', JString ''string''),
            (''description'', JString ''Remote file or directory to search''),
            (''default'', JString ''.'')]),
          (''ignore_case'', JObject [
            (''type'', JString ''boolean''),
            (''description'', JString ''Case-insensitive search''),
            (''default'', JBool False)]),
          (''fixed_strings'', JObject [
            (''type'', JString ''boolean''),
            (''description'', JString ''Treat pattern as a literal string''),
            (''default'', JBool False)]),
          (''hidden'', JObject [
            (''type'', JString ''boolean''),
            (''description'', JString ''Include hidden files when rg is available''),
            (''default'', JBool False)]),
          (''globs'', JObject [
            (''type'', JString ''array''),
            (''items'', JObject [(''type'', JString ''string'')]),
            (''description'', JString ''rg-style glob filters such as *.rs or !target/'')]),
          (''max_results'', JObject [
            (''type'', JString ''integer''),
            (''description'', JString ''Maximum output lines to return''),
            (''default'', JInt 200)]),
          (''timeout_ms'', JObject [
            (''type'', JString ''integer''),
            (''description'', JString ''Command timeout in milliseconds''),
            (''default'', JInt 30000)])]),
        (''required'', JArray [JString ''session_id'', JString ''pattern'']),
        (''additionalProperties'', JBool False)])"

definition sftp_ls_tool :: tool_definition where
  "sftp_ls_tool =
     new_tool ''sftp_ls''
       ''List files and directories at a remote path.''
      (JObject [
        (''type'', JString ''object''),
        (''properties'', JObject [
          (''session_id'', JObject [
            (''type'', JString ''string''),
            (''description'', JString ''Session ID with active SFTP connection'')]),
          (''path'', JObject [
            (''type'', JString ''string''),
            (''description'', JString ''Remote path to list''),
            (''default'', JString ''.'')]),
          (''show_hidden'', JObject [
            (''type'', JString ''boolean''),
            (''description'', JString ''Include hidden files (starting with .)''),
            (''default'', JBool False)])]),
        (''required'', JArray [JString ''session_id'']),
        (''additionalProperties'', JBool False)])"

definition sftp_upload_tool :: tool_definition where
  "sftp_upload_tool =
     new_tool ''sftp_upload''
       ''Upload a file to the remote server.''
      (JObject [
        (''type'', JString ''object''),
        (''properties'', JObject [
          (''session_id'', JObject [
            (''type'', JString ''string''),
            (''description'', JString ''Session ID with active SFTP connection'')]),
          (''local_path'', JObject [(''type'', JString ''string''), (''description'', JString ''Local file path to upload'')]),
          (''remote_path'', JObject [(''type'', JString ''string''), (''description'', JString ''Remote destination path'')]),
          (''overwrite'', JObject [
            (''type'', JString ''boolean''),
            (''description'', JString ''Overwrite existing file if present''),
            (''default'', JBool False)])]),
        (''required'', JArray [JString ''session_id'', JString ''local_path'', JString ''remote_path'']),
        (''additionalProperties'', JBool False)])"

definition sftp_directory_transfer_schema :: "bool \<Rightarrow> json" where
  "sftp_directory_transfer_schema include_delete =
     (let properties = [
     (''session_id'', JObject [(''type'', JString ''string''), (''description'', JString ''Session ID with active SFTP connection'')]),
     (''local_path'', JObject [(''type'', JString ''string''), (''description'', JString ''Local directory path to upload or sync'')]),
     (''remote_path'', JObject [(''type'', JString ''string''), (''description'', JString ''Remote destination directory'')]),
     (''respect_gitignore'', JObject [
       (''type'', JString ''boolean''),
       (''description'', JString ''Respect .gitignore files under the uploaded directory''),
       (''default'', JBool True)]),
     (''excluded_paths'', JObject [
       (''type'', JString ''array''),
       (''items'', JObject [(''type'', JString ''string'')]),
       (''description'', JString ''Additional exclude patterns such as node_modules/ or .venv/'')])];
          properties = (if include_delete then properties @ [(''delete_extra'', JObject [
        (''type'', JString ''boolean''),
        (''description'', JString ''Delete remote entries that are absent locally. Excluded paths are protected.''),
        (''default'', JBool False)])]
            else properties) in
      JObject [
        (''type'', JString ''object''),
        (''properties'', JObject properties),
        (''required'', JArray [JString ''session_id'', JString ''local_path'', JString ''remote_path'']),
        (''additionalProperties'', JBool False)])"

definition sftp_upload_directory_tool :: tool_definition where
  "sftp_upload_directory_tool =
     new_tool ''sftp_upload_directory''
       ''Upload a local directory recursively. Default excludes are configurable globally and .gitignore is respected by default.''
      (sftp_directory_transfer_schema False)"

definition sftp_sync_directory_tool :: tool_definition where
  "sftp_sync_directory_tool =
     new_tool ''sftp_sync_directory''
       ''Synchronize a local directory to a remote directory, skipping unchanged files. Set delete_extra=true only when remote extras should be removed.''
      (sftp_directory_transfer_schema True)"

definition sftp_download_tool :: tool_definition where
  "sftp_download_tool =
     new_tool ''sftp_download''
       ''Download a file from the remote server.''
      (JObject [
        (''type'', JString ''object''),
        (''properties'', JObject [
          (''session_id'', JObject [
            (''type'', JString ''string''),
            (''description'', JString ''Session ID with active SFTP connection'')]),
          (''remote_path'', JObject [(''type'', JString ''string''), (''description'', JString ''Remote file path to download'')]),
          (''local_path'', JObject [(''type'', JString ''string''), (''description'', JString ''Local destination path'')]),
          (''overwrite'', JObject [
            (''type'', JString ''boolean''),
            (''description'', JString ''Overwrite existing file if present''),
            (''default'', JBool False)])]),
        (''required'', JArray [JString ''session_id'', JString ''remote_path'', JString ''local_path'']),
        (''additionalProperties'', JBool False)])"

definition sftp_mkdir_tool :: tool_definition where
  "sftp_mkdir_tool =
     new_tool ''sftp_mkdir''
       ''Create a directory on the remote server.''
      (JObject [
        (''type'', JString ''object''),
        (''properties'', JObject [
          (''session_id'', JObject [
            (''type'', JString ''string''),
            (''description'', JString ''Session ID with active SFTP connection'')]),
          (''path'', JObject [(''type'', JString ''string''), (''description'', JString ''Remote directory path to create'')]),
          (''recursive'', JObject [
            (''type'', JString ''boolean''),
            (''description'', JString ''Create parent directories as needed''),
            (''default'', JBool False)])]),
        (''required'', JArray [JString ''session_id'', JString ''path'']),
        (''additionalProperties'', JBool False)])"

definition sftp_rm_tool :: tool_definition where
  "sftp_rm_tool =
     new_tool ''sftp_rm''
       ''Remove a file or directory on the remote server.''
      (JObject [
        (''type'', JString ''object''),
        (''properties'', JObject [
          (''session_id'', JObject [
            (''type'', JString ''string''),
            (''description'', JString ''Session ID with active SFTP connection'')]),
          (''path'', JObject [(''type'', JString ''string''), (''description'', JString ''Remote path to remove'')]),
          (''recursive'', JObject [
            (''type'', JString ''boolean''),
            (''description'', JString ''Remove directories recursively''),
            (''default'', JBool False)])]),
        (''required'', JArray [JString ''session_id'', JString ''path'']),
        (''additionalProperties'', JBool False)])"

definition sftp_mv_tool :: tool_definition where
  "sftp_mv_tool =
     new_tool ''sftp_mv''
       ''Move or rename a file or directory on the remote server.''
      (JObject [
        (''type'', JString ''object''),
        (''properties'', JObject [
          (''session_id'', JObject [
            (''type'', JString ''string''),
            (''description'', JString ''Session ID with active SFTP connection'')]),
          (''source'', JObject [(''type'', JString ''string''), (''description'', JString ''Source path'')]),
          (''destination'', JObject [(''type'', JString ''string''), (''description'', JString ''Destination path'')])]),
        (''required'', JArray [JString ''session_id'', JString ''source'', JString ''destination'']),
        (''additionalProperties'', JBool False)])"

definition sftp_read_tool :: tool_definition where
  "sftp_read_tool =
     new_tool ''sftp_read''
       ''Read the content of a remote text file and return it as a string. Suitable for config files, scripts, logs, etc. For binary files, use sftp_download instead.''
      (JObject [
        (''type'', JString ''object''),
        (''properties'', JObject [
          (''session_id'', JObject [
            (''type'', JString ''string''),
            (''description'', JString ''Session ID with active SSH connection'')]),
          (''path'', JObject [(''type'', JString ''string''), (''description'', JString ''Remote file path to read'')]),
          (''max_bytes'', JObject [
            (''type'', JString ''integer''),
            (''description'', JString ''Maximum bytes to read (default: 1048576 = 1MB). Prevents accidentally reading huge files.''),
            (''default'', JInt 1048576)])]),
        (''required'', JArray [JString ''session_id'', JString ''path'']),
        (''additionalProperties'', JBool False)])"

definition sftp_write_tool :: tool_definition where
  "sftp_write_tool =
     new_tool ''sftp_write''
       ''Write text content to a remote file. Creates the file if it doesn't exist, overwrites if it does. For binary files, use sftp_upload instead.''
      (JObject [
        (''type'', JString ''object''),
        (''properties'', JObject [
          (''session_id'', JObject [
            (''type'', JString ''string''),
            (''description'', JString ''Session ID with active SSH connection'')]),
          (''path'', JObject [(''type'', JString ''string''), (''description'', JString ''Remote file path to write'')]),
          (''content'', JObject [(''type'', JString ''string''), (''description'', JString ''Text content to write to the file'')])]),
        (''required'', JArray [JString ''session_id'', JString ''path'', JString ''content'']),
        (''additionalProperties'', JBool False)])"

definition get_content_tool :: tool_definition where
  "get_content_tool =
     new_tool ''get_content''
       ''Read a remote text file. Agent-friendly alias for sftp_read.''
      (JObject [
        (''type'', JString ''object''),
        (''properties'', JObject [
          (''session_id'', JObject [
            (''type'', JString ''string''),
            (''description'', JString ''Session ID with active SSH connection'')]),
          (''path'', JObject [(''type'', JString ''string''), (''description'', JString ''Remote file path to read'')]),
          (''max_bytes'', JObject [
            (''type'', JString ''integer''),
            (''description'', JString ''Maximum bytes to read before truncating''),
            (''default'', JInt 1048576)])]),
        (''required'', JArray [JString ''session_id'', JString ''path'']),
        (''additionalProperties'', JBool False)])"

definition edit_file_tool :: tool_definition where
  "edit_file_tool =
     new_tool ''edit_file''
       ''Edit an existing remote text file. Provide content for a full-file replacement, or old_text/new_text for exact replacement.''
      (JObject [
        (''type'', JString ''object''),
        (''properties'', JObject [
          (''session_id'', JObject [
            (''type'', JString ''string''),
            (''description'', JString ''Session ID with active SSH connection'')]),
          (''path'', JObject [(''type'', JString ''string''), (''description'', JString ''Remote file path to edit'')]),
          (''content'', JObject [(''type'', JString ''string''), (''description'', JString ''Full replacement content'')]),
          (''old_text'', JObject [(''type'', JString ''string''), (''description'', JString ''Exact text to replace'')]),
          (''new_text'', JObject [
            (''type'', JString ''string''),
            (''description'', JString ''Replacement text used with old_text'')]),
          (''replace_all'', JObject [
            (''type'', JString ''boolean''),
            (''description'', JString ''Replace every occurrence instead of only the first''),
            (''default'', JBool False)])]),
        (''required'', JArray [JString ''session_id'', JString ''path'']),
        (''additionalProperties'', JBool False)])"

definition add_file_tool :: tool_definition where
  "add_file_tool =
     new_tool ''add_file''
       ''Create a remote text file. Fails if the file already exists unless overwrite=true.''
      (JObject [
        (''type'', JString ''object''),
        (''properties'', JObject [
          (''session_id'', JObject [
            (''type'', JString ''string''),
            (''description'', JString ''Session ID with active SSH connection'')]),
          (''path'', JObject [(''type'', JString ''string''), (''description'', JString ''Remote file path to create'')]),
          (''content'', JObject [(''type'', JString ''string''), (''description'', JString ''Text content to write'')]),
          (''overwrite'', JObject [
            (''type'', JString ''boolean''),
            (''description'', JString ''Replace the file if it already exists''),
            (''default'', JBool False)]),
          (''parents'', JObject [
            (''type'', JString ''boolean''),
            (''description'', JString ''Create parent directories if needed''),
            (''default'', JBool False)])]),
        (''required'', JArray [JString ''session_id'', JString ''path'', JString ''content'']),
        (''additionalProperties'', JBool False)])"

section \<open>Lists\<close>

definition get_tool_definitions :: "tool_definition list" where
  "get_tool_definitions =
    [plugin_list_tool, plugin_describe_tool, plugin_execute_tool, server_list_tool, server_add_tool,
     server_get_tool, server_update_tool, server_delete_tool, session_list_tool, session_create_tool,
     session_attach_tool, session_detach_tool, session_kill_tool, session_send_input_tool, session_read_tool,
     session_resize_tool, exec_tool, remote_rg_tool, sftp_ls_tool, sftp_upload_tool,
     sftp_upload_directory_tool, sftp_sync_directory_tool, sftp_download_tool, sftp_mkdir_tool, sftp_rm_tool,
     sftp_mv_tool, sftp_read_tool, sftp_write_tool, get_content_tool, edit_file_tool, add_file_tool]"

definition compact_description :: "string \<Rightarrow> string" where
  "compact_description name =
     (if name = ''session_send_input'' then ''Send visible terminal input (approval-gated).''
      else if name = ''session_read'' then ''Read recent visible terminal output.''
      else if name = ''plugin_list'' then ''List installed plugins and live reference commands.''
      else if name = ''plugin_describe'' then ''Read action input schemas; reference=true returns usage documentation.''
      else if name = ''plugin_execute'' then
        ''Run an installed/enabled plugin action on a session; human approval is enforced.''
      else if name = ''exec'' then ''Run isolated SSH command (approval-gated).''
      else if name = ''server_list'' then ''List saved servers.''
      else if name = ''session_list'' then ''List sessions.''
      else map (\<lambda>c. if c = CHR ''_'' then CHR '' '' else c) name)"

text \<open>Every object loses these members, also one that maps the names of arguments to their schemas.\<close>

definition dropped_member :: "string \<Rightarrow> bool" where
  "dropped_member key \<longleftrightarrow> key = ''description'' \<or> key = ''default'' \<or> key = ''title''"

fun compact_schema :: "json \<Rightarrow> json" where
  "compact_schema (JObject members) =
     JObject (map (\<lambda>(key, child). (key, compact_schema child)) (filter (\<lambda>(key, _). \<not> dropped_member key) members))"
| "compact_schema (JArray items) = JArray (map compact_schema items)"
| "compact_schema v = v"

definition get_compact_tool_definitions :: "tool_definition list" where
  "get_compact_tool_definitions =
     map (\<lambda>t. t\<lparr>td_description := compact_description (td_name t), td_input_schema := compact_schema (td_input_schema t)\<rparr>)
       get_tool_definitions"

text \<open>How a definition is serialised.\<close>

definition tool_definition_json :: "tool_definition \<Rightarrow> json" where
  "tool_definition_json t =
     JObject [(''name'', JString (td_name t)), (''description'', JString (td_description t)),
       (''inputSchema'', td_input_schema t)]"

end
