(* ===== verification/Gateway_Tools.thy ===== *)
theory Gateway_Tools
  imports Ipc_Server Remote_Search Tool_Definitions
begin

text \<open>
  The tools of the agent gateway, \<^verbatim>\<open>src-tauri/src/mcp/server.rs\<close>: a call of a tool is recorded, executed and its end
  recorded.  The tools act on the world of \<open>Ipc_Server\<close>, with the database's tables beside it (\<open>tl_tables\<close>, whose
  synchronised part is the one of the session manager) and the effects of \<open>Gateway\<close>: the questions to the
  user and the events for the terminals.  Arguments are JSON values; the printing of JSON and what the plugin
  interface prints are functions of the environment.
\<close>

section \<open>Arguments\<close>

definition arg :: "string \<Rightarrow> json \<Rightarrow> json option" where
  "arg name args = (case args of JObject members \<Rightarrow> map_of members name | _ \<Rightarrow> None)"

definition arg_str :: "string \<Rightarrow> json \<Rightarrow> string option" where
  "arg_str name args = Option.bind (arg name args) as_str"

definition arg_flag :: "string \<Rightarrow> json \<Rightarrow> bool" where
  "arg_flag name args = (Option.bind (arg name args) as_bool = Some True)"

definition as_u64 :: "json \<Rightarrow> nat option" where
  "as_u64 v = (case v of JInt n \<Rightarrow> if 0 \<le> n \<and> n < 2 ^ 64 then Some (nat n) else None | _ \<Rightarrow> None)"

definition arg_nat :: "string \<Rightarrow> json \<Rightarrow> nat option" where
  "arg_nat name args = Option.bind (arg name args) as_u64"

definition json_strings :: "json \<Rightarrow> string list option" where
  "json_strings v =
     (case v of JArray vs \<Rightarrow> if list_all (\<lambda>x. as_str x \<noteq> None) vs then Some (map (\<lambda>x. the (as_str x)) vs) else None | _ \<Rightarrow> None)"

definition some_strings :: "json \<Rightarrow> string list option" where
  "some_strings v = (case v of JArray vs \<Rightarrow> Some (List.map_filter as_str vs) | _ \<Rightarrow> None)"

section \<open>World\<close>

record tool_world =
  tl_base :: ipc_world
  tl_tables :: database
  tl_effects :: "effect list"

type_synonym 'a tool = "(tool_world, 'a) io"

record json_rpc_request =
  jr_jsonrpc :: string
  jr_id :: "json option"
  jr_method :: string
  jr_params :: "json option"

record json_rpc_response =
  jp_id :: "json option"
  jp_result :: "(int \<times> string) + json"

text \<open>\<open>te_later\<close> is the outside when a plugin action that had to be approved is executed.\<close>

record 'v tool_env =
  te_ipc :: ipc_env
  te_later :: ipc_env
  te_approvals :: "(nat \<Rightarrow> approval_outcome) option"
  te_record :: "nat \<Rightarrow> string + unit"
  te_storage :: "'v database_env"
  te_error_text :: "db_error \<Rightarrow> string"
  te_to_string :: "json \<Rightarrow> string + string"
  te_parse :: "string \<Rightarrow> json option"
  te_tags_error :: string
  te_plugin_request :: "json \<Rightarrow> string + plugin_request"
  te_plugin_text :: "plugin_data \<Rightarrow> string + string"
  te_version :: string
  te_parse_request :: "string \<Rightarrow> string + json_rpc_request"

definition in_base :: "'a ipc \<Rightarrow> 'a tool" where
  "in_base m w = (case m (tl_base w) of (b, r) \<Rightarrow> (w\<lparr>tl_base := b\<rparr>, r))"

definition manager_of :: "tool_world \<Rightarrow> session_manager" where
  "manager_of w = iw_manager (tl_base w)"

definition database_of :: "tool_world \<Rightarrow> database" where
  "database_of w = (tl_tables w)\<lparr>dt_sync := sm_database (manager_of w)\<rparr>"

definition set_database :: "database \<Rightarrow> tool_world \<Rightarrow> tool_world" where
  "set_database db w =
     w\<lparr>tl_tables := db, tl_base := (tl_base w)\<lparr>iw_manager := (iw_manager (tl_base w))\<lparr>sm_database := dt_sync db\<rparr>\<rparr>\<rparr>"

definition change_database :: "'v tool_env \<Rightarrow> (database \<Rightarrow> db_error + 'a \<times> database) \<Rightarrow> 'a tool" where
  "change_database env f w =
     (case f (database_of w) of
        Inl e \<Rightarrow> (w, Inl (te_error_text env e))
      | Inr (a, db) \<Rightarrow> (set_database db w, Inr a))"

definition resolve_session :: "string \<Rightarrow> session tool" where
  "resolve_session reference w = (w, Sessions.resolve reference (manager_of w))"

definition required :: "string \<Rightarrow> json \<Rightarrow> string tool" where
  "required name args = slift (ok_or (arg_str name args) (''Missing required field: '' @ name))"

section \<open>The handlers of the terminal\<close>

text \<open>The view the handlers of \<open>Gateway\<close> have of the world, and what they leave in it.\<close>

definition gateway_env_of :: "'v tool_env \<Rightarrow> tool_world \<Rightarrow> gateway_env" where
  "gateway_env_of env w =
     \<lparr>ge_config = guard_of (te_ipc env), ge_resolve = (\<lambda>i. map_sum id sn_id (Sessions.resolve i (manager_of w))),
      ge_approvals = te_approvals env, ge_record_activity = te_record env, ge_write = Inr (), ge_exec = Inr [],
      ge_replay = [], ge_from_utf8_lossy = ie_lossy (te_ipc env), ge_resize = Inr ()\<rparr>"

definition gateway_view :: "tool_world \<Rightarrow> gateway_state" where
  "gateway_view w = \<lparr>gs_tracker = iw_tracker (tl_base w), gs_effects = tl_effects w\<rparr>"

definition activities :: "effect list \<Rightarrow> audit_event list" where
  "activities es =
     List.map_filter (\<lambda>e. case e of
         Activity tool summary progress session_id \<Rightarrow>
           Some \<lparr>au_tool = tool, au_session_id = Some session_id, au_summary = summary, au_status = progress\<rparr>
       | _ \<Rightarrow> None) es"

definition leave_gateway :: "gateway_state \<Rightarrow> tool_world \<Rightarrow> tool_world" where
  "leave_gateway st w =
     w\<lparr>tl_base := (tl_base w)\<lparr>iw_tracker := gs_tracker st,
         iw_audit := iw_audit (tl_base w) @ activities (drop (length (tl_effects w)) (gs_effects st))\<rparr>,
       tl_effects := gs_effects st\<rparr>"

definition in_gateway :: "(gateway_state \<Rightarrow> gateway_state \<times> (string + 'a)) \<Rightarrow> 'a tool" where
  "in_gateway f w = (case f (gateway_view w) of (st, r) \<Rightarrow> (leave_gateway st w, r))"

definition send_args_of :: "json \<Rightarrow> send_args" where
  "send_args_of args =
     \<lparr>sa_session_id = arg_str ''session_id'' args, sa_data = arg_str ''data'' args,
      sa_keys = (case arg ''keys'' args of Some (JArray vs) \<Rightarrow> Some (map as_str vs) | _ \<Rightarrow> None),
      sa_append_enter = Option.bind (arg ''append_enter'' args) as_bool,
      sa_sensitive = Option.bind (arg ''sensitive'' args) as_bool\<rparr>"

text \<open>What the handler would write if the terminal took it is what is written; its answer decides how the handler
  ends.\<close>

definition written_by :: "'v tool_env \<Rightarrow> send_args \<Rightarrow> tool_world \<Rightarrow> (string \<times> string) option" where
  "written_by env args w =
     (case tool_session_send_input (gateway_env_of env w) args (gateway_view w) of (st, _) \<Rightarrow>
        List.find (\<lambda>_. True) (List.map_filter (\<lambda>e. case e of Wrote i bytes \<Rightarrow> Some (i, bytes) | _ \<Rightarrow> None)
          (drop (length (tl_effects w)) (gs_effects st))))"

definition run_send_input :: "'v tool_env \<Rightarrow> json \<Rightarrow> string tool" where
  "run_send_input env args w =
     (let given = send_args_of args in
      case written_by env given w of
        None \<Rightarrow> in_gateway (tool_session_send_input (gateway_env_of env w) given) w
      | Some (i, bytes) \<Rightarrow>
          (case in_base (on_session (not_found i) i (write_to_ssh (ie_peer (te_ipc env)) (ie_now (te_ipc env)) bytes)) w of
             (w', answer) \<Rightarrow>
               in_gateway (tool_session_send_input ((gateway_env_of env w)\<lparr>ge_write := answer\<rparr>) given) w'))"

definition run_session_read :: "'v tool_env \<Rightarrow> json \<Rightarrow> string tool" where
  "run_session_read env args w =
     (let reference = arg_str ''session_id'' args;
          replay = (case reference of
              Some i \<Rightarrow> (case Sessions.resolve i (manager_of w) of Inr s \<Rightarrow> replay_output s | Inl _ \<Rightarrow> [])
            | None \<Rightarrow> []) in
      (w, tool_session_read ((gateway_env_of env w)\<lparr>ge_replay := replay\<rparr>) reference (arg_nat ''max_bytes'' args)))"

definition run_session_resize :: "'v tool_env \<Rightarrow> json \<Rightarrow> string tool" where
  "run_session_resize env args w =
     (let reference = arg_str ''session_id'' args;
          cols = map_option of_nat (arg_nat ''cols'' args) :: 64 word option;
          rows = map_option of_nat (arg_nat ''rows'' args) :: 64 word option;
          answer = (\<lambda>resized. tool_session_resize ((gateway_env_of env w)\<lparr>ge_resize := resized\<rparr>) reference cols rows) in
      case answer (Inr ()) of
        Inl e \<Rightarrow> (w, Inl e)
      | Inr _ \<Rightarrow>
          (case Sessions.resolve (the reference) (manager_of w) of
             Inl e \<Rightarrow> (w, Inl e)
           | Inr s \<Rightarrow>
               (case in_base (on_session (not_found (sn_id s)) (sn_id s)
                        (resize_session_pty (ie_peer (te_ipc env)) (ie_now (te_ipc env))
                          (unat (ucast (the cols) :: 32 word)) (unat (ucast (the rows) :: 32 word)))) w of
                  (w', resized) \<Rightarrow> (w', answer resized))))"

section \<open>Commands\<close>

text \<open>\<open>None\<close> of the command is the time limit of the tool: the wake-ups given do not reach its end.\<close>

definition run_command :: "'v tool_env \<Rightarrow> string \<Rightarrow> string \<Rightarrow> nat \<Rightarrow> string tool" where
  "run_command env i command timeout_ms =
     sbind (smap_err ((@) ''Command execution failed: '') (in_base (exec_on (te_ipc env) (not_found i) i command None))) (\<lambda>output.
     slift (ok_or output (''Command timed out after '' @ show_nat timeout_ms @ ''ms'')))"

definition timeout_of :: "json \<Rightarrow> nat" where
  "timeout_of args = (case arg_nat ''timeout_ms'' args of Some t \<Rightarrow> t | None \<Rightarrow> 30000)"

definition approved_by_user :: "'v tool_env \<Rightarrow> string \<Rightarrow> string \<Rightarrow> string \<Rightarrow> string list \<Rightarrow> unit tool" where
  "approved_by_user env tool i command reasons w =
     in_gateway (require_approval (gateway_env_of env w) 0 tool (Some i) command reasons) w"

definition run_exec :: "'v tool_env \<Rightarrow> json \<Rightarrow> string tool" where
  "run_exec env args =
     sbind (required ''session_id'' args) (\<lambda>reference.
     sbind (required ''command'' args) (\<lambda>command.
     sbind (resolve_session reference) (\<lambda>s.
     let cfg = guard_of (te_ipc env); decision = classify_command command cfg in
     sbind (if gc_enabled cfg \<and> gc_require_for_exec cfg \<and> rd_requires_approval decision
            then approved_by_user env ''exec'' (sn_id s) command (rd_reasons decision)
            else sreturn ()) (\<lambda>_.
     sbind (in_gateway (\<lambda>st. (perform (TerminalInput (sn_id s) command KindExec) st, Inr ()))) (\<lambda>_.
     run_command env (sn_id s) command (timeout_of args))))))"

definition search_options_of :: "string \<Rightarrow> json \<Rightarrow> search_options" where
  "search_options_of pattern args =
     (new_search pattern (case arg_str ''path'' args of Some p \<Rightarrow> p | None \<Rightarrow> ''.''))
       \<lparr>so_ignore_case := arg_flag ''ignore_case'' args, so_fixed_strings := arg_flag ''fixed_strings'' args,
        so_hidden := arg_flag ''hidden'' args,
        so_globs := (case Option.bind (arg ''globs'' args) some_strings of Some globs \<Rightarrow> globs | None \<Rightarrow> []),
        so_max_results := (case arg_nat ''max_results'' args of Some n \<Rightarrow> n | None \<Rightarrow> 200)\<rparr>"

definition tool_remote_rg :: "'v tool_env \<Rightarrow> json \<Rightarrow> string tool" where
  "tool_remote_rg env args =
     sbind (required ''session_id'' args) (\<lambda>reference.
     sbind (required ''pattern'' args) (\<lambda>pattern.
     sbind (resolve_session reference) (\<lambda>s.
     run_command env (sn_id s) (build_remote_rg_command (search_options_of pattern args)) (timeout_of args))))"

text \<open>A claim of the model that the user has confirmed is dropped.\<close>

definition run_plugin :: "'v tool_env \<Rightarrow> json \<Rightarrow> string option tool" where
  "run_plugin env args =
     (let local = pe_is_local (plugin_env_of (te_ipc env)) in
      sbind (slift (map_sum ((@) ''Invalid plugin request: '') id (te_plugin_request env args))) (\<lambda>given.
      let unconfirmed = given\<lparr>rq_confirmed := False\<rparr> in
      sbind (if local (rq_session_id unconfirmed) then sreturn unconfirmed
             else sbind (resolve_session (rq_session_id unconfirmed)) (\<lambda>s. sreturn (unconfirmed\<lparr>rq_session_id := sn_id s\<rparr>))) (\<lambda>request.
      sbind (slift (prepare (plugin_env_of (te_ipc env)) (ie_plugins (te_ipc env)) request (local (rq_session_id request)))) (\<lambda>p.
      sbind (if pr_requires_confirmation p then
               sbind (approved_by_user env ''plugin_execute'' (rq_session_id request)
                 (pr_command p) [''Plugin action '' @ rq_plugin_id request @ ''/'' @ rq_action_id request @ '' requires approval'']) (\<lambda>_.
               in_base (plugin_execute (te_later env) (request\<lparr>rq_confirmed := True\<rparr>) ''mcp.plugin'' (Some (pr_command p))))
             else in_base (plugin_execute (te_ipc env) request ''mcp.plugin'' (Some (pr_command p)))) (\<lambda>result.
      case result of
        None \<Rightarrow> sreturn None
      | Some res \<Rightarrow> slift (map_sum id Some (te_plugin_text env (PluginResult res))))))))"

section \<open>Servers\<close>

text \<open>\<^verbatim>\<open>id.get(..8)\<close> falls back to the whole identifier.\<close>

definition short_id :: "string \<Rightarrow> string" where
  "short_id i = (if 8 \<le> length i \<and> is_char_boundary i 8 then take 8 i else i)"

text \<open>\<open>others\<close> are the listed identifiers that are not \<open>i\<close>; a slice off a character boundary panics, which is \<open>None\<close>.\<close>

function unique_from :: "string \<Rightarrow> string list \<Rightarrow> nat \<Rightarrow> string option" where
  "unique_from i others n =
     (if n < length i \<and> others \<noteq> [] then
        if \<not> is_char_boundary i n then None
        else if list_ex (\<lambda>j. starts_with j (take n i)) others then unique_from i others (n + 1)
        else Some (take n i)
      else if is_char_boundary i n then Some (take n i) else None)"
  by pat_completeness auto
termination
  by (relation "measure (\<lambda>(i, _, n). length i - n)") auto

declare unique_from.simps [simp del]

definition unique_short_id :: "string \<Rightarrow> string list \<Rightarrow> string option" where
  "unique_short_id i ids = unique_from i (filter (\<lambda>j. j \<noteq> i) ids) (min (length i) 8)"

definition resolve_server_id :: "string \<Rightarrow> sync_db \<Rightarrow> string + string" where
  "resolve_server_id reference db =
     (if server_find reference db \<noteq> None then Inr reference
      else (case server_find_by_name reference db of
        Some s \<Rightarrow> Inr (se_id s)
      | None \<Rightarrow>
          (let needle = to_ascii_lowercase reference in
           if length needle < 4 then Inl (''Server reference '' @ quoted reference @ '' is too short'')
           else
             (case filter (\<lambda>s. starts_with (to_ascii_lowercase (se_id s)) needle) (server_list None None db) of
                [s] \<Rightarrow> Inr (se_id s)
              | [] \<Rightarrow> Inl (''Server not found: '' @ reference)
              | _ \<Rightarrow> Inl (''Ambiguous server reference: '' @ reference)))))"

definition resolve_server :: "string \<Rightarrow> string tool" where
  "resolve_server reference w = (w, resolve_server_id reference (sm_database (manager_of w)))"

definition parse_auth_type :: "string \<Rightarrow> string + auth_type" where
  "parse_auth_type s =
     (if s = ''password'' then Inr auth_type.Password
      else if s = ''key'' then Inr auth_type.Key
      else if s = ''key_with_passphrase'' then Inr KeyWithPassphrase
      else Inl (''Invalid auth_type: '' @ s))"

definition server_json :: "string \<Rightarrow> server \<Rightarrow> json" where
  "server_json shown s =
     JObject [(''id'', JString shown), (''name'', JString (se_name s)), (''host'', JString (se_host s)),
       (''port'', JInt (uint (se_port s))), (''user'', JString (se_username s)),
       (''auth'', JString (auth_type_to_string (se_auth_type s)))]"

text \<open>A panic ends the task of the request; the caller sees an error of the transport.\<close>

definition tool_server_list :: "'v tool_env \<Rightarrow> json \<Rightarrow> string tool" where
  "tool_server_list env args w =
     (let servers = server_list (arg_str ''group_id'' args) (Option.bind (arg ''tags'' args) json_strings) (sm_database (manager_of w));
          ids = map se_id servers in
      (w, rbind (traverse (\<lambda>s. rbind (ok_or (unique_short_id (se_id s) ids) ''panic'') (\<lambda>i. Inr (server_json i s))) servers)
            (\<lambda>compact. te_to_string env (JArray compact))))"

definition port_of_arg :: "json \<Rightarrow> 16 word option" where
  "port_of_arg args = map_option of_nat (arg_nat ''port'' args)"

definition tool_server_add :: "'v tool_env \<Rightarrow> json \<Rightarrow> string tool" where
  "tool_server_add env args =
     sbind (required ''name'' args) (\<lambda>name.
     sbind (required ''host'' args) (\<lambda>host.
     sbind (required ''username'' args) (\<lambda>username.
     sbind (required ''auth_type'' args) (\<lambda>auth_text.
     sbind (slift (parse_auth_type auth_text)) (\<lambda>auth.
     sbind (change_database env (\<lambda>db. map_sum id (\<lambda>(s, d). (s, db\<lparr>dt_sync := d\<rparr>))
       (server_add (te_storage env)
         \<lparr>se_id = [], se_name = name, se_host = host, se_port = (case port_of_arg args of Some p \<Rightarrow> p | None \<Rightarrow> 22),
          se_username = username, se_auth_type = auth, se_credential_id = None, se_group_id = arg_str ''group_id'' args,
          se_tags = (case Option.bind (arg ''tags'' args) json_strings of Some tags \<Rightarrow> tags | None \<Rightarrow> []),
          se_created_at = 0, se_updated_at = 0, se_jump_host_id = None, se_post_login_command = None,
          se_agent_forwarding = False\<rparr> (dt_sync db)))) (\<lambda>s.
     sreturn (''Server '' @ quoted (se_name s) @ '' added successfully with ID: '' @ short_id (se_id s))))))))"

definition tool_server_get :: "'v tool_env \<Rightarrow> json \<Rightarrow> string tool" where
  "tool_server_get env args =
     sbind (case arg_str ''id'' args of
              Some i \<Rightarrow> sbind (resolve_server i) (\<lambda>j w. (w, Inr (server_find j (sm_database (manager_of w)))))
            | None \<Rightarrow>
                (case arg_str ''name'' args of
                   Some name \<Rightarrow> (\<lambda>w. (w, Inr (server_find_by_name name (sm_database (manager_of w)))))
                 | None \<Rightarrow> sfail ''Either 'id' or 'name' must be provided'')) (\<lambda>found.
     case found of
       None \<Rightarrow> sfail ''Server not found''
     | Some s \<Rightarrow> slift (te_to_string env (server_json (short_id (se_id s)) s)))"

definition given_or :: "'a option \<Rightarrow> 'a \<Rightarrow> 'a" where
  "given_or x old = (case x of Some v \<Rightarrow> v | None \<Rightarrow> old)"

definition patched_server :: "'v tool_env \<Rightarrow> json \<Rightarrow> server \<Rightarrow> string + server" where
  "patched_server env args s =
     rbind (case arg_str ''auth_type'' args of Some t \<Rightarrow> parse_auth_type t | None \<Rightarrow> Inr (se_auth_type s)) (\<lambda>auth.
     rbind (case arg ''tags'' args of Some v \<Rightarrow> ok_or (json_strings v) (te_tags_error env) | None \<Rightarrow> Inr (se_tags s)) (\<lambda>tags.
     Inr (s\<lparr>se_name := given_or (arg_str ''name'' args) (se_name s), se_host := given_or (arg_str ''host'' args) (se_host s),
            se_port := given_or (port_of_arg args) (se_port s), se_username := given_or (arg_str ''username'' args) (se_username s),
            se_auth_type := auth,
            se_group_id := (case arg ''group_id'' args of Some v \<Rightarrow> as_str v | None \<Rightarrow> se_group_id s), se_tags := tags\<rparr>)))"

definition tool_server_update :: "'v tool_env \<Rightarrow> json \<Rightarrow> string tool" where
  "tool_server_update env args =
     sbind (required ''id'' args) (\<lambda>reference.
     sbind (resolve_server reference) (\<lambda>i w.
     sbind (slift (ok_or (server_find i (sm_database (manager_of w))) ''Server not found'')) (\<lambda>s.
     sbind (slift (patched_server env args s)) (\<lambda>s'.
     sbind (change_database env (\<lambda>db. map_sum id (Pair ()) (server_update (te_storage env) s' db))) (\<lambda>_.
     sreturn (''Server '' @ quoted (se_name s') @ '' updated successfully'')))) w))"

definition tool_server_delete :: "'v tool_env \<Rightarrow> json \<Rightarrow> string tool" where
  "tool_server_delete env args =
     sbind (required ''id'' args) (\<lambda>reference.
     sbind (resolve_server reference) (\<lambda>i.
     sbind (smap_err ((@) ''Failed to close sessions for server: '')
       (in_base (on_manager (kill_by_server_id (ie_peer (te_ipc env)) (ie_timestamp (te_ipc env)) (ie_updated (te_ipc env)) i)))) (\<lambda>killed.
     sbind (change_database env (\<lambda>db. map_sum id (Pair ()) (server_delete (te_storage env) i db))) (\<lambda>_.
     sreturn (''Server '' @ quoted (short_id i) @ '' deleted successfully'' @
       (if killed = [] then [] else '' (stopped '' @ show_nat (length killed) @ '' active session(s))''))))))"

section \<open>Sessions\<close>

definition session_json :: "string \<Rightarrow> session_info \<Rightarrow> json" where
  "session_json shown s =
     JObject [(''id'', JString shown), (''server'', JString (si_server_name s)), (''state'', JString (state_text (si_state s))),
       (''clients'', JInt (int (si_clients s)))]"

definition tool_session_list :: "'v tool_env \<Rightarrow> string tool" where
  "tool_session_list env =
     sbind (in_base (on_manager (\<lambda>(m, h). case list_sessions (ie_peer (te_ipc env)) m h of (h, r) \<Rightarrow> ((m, h), r)))) (\<lambda>infos.
     slift (rbind (traverse (\<lambda>s. rbind (ok_or (unique_short_id (si_id s) (map si_id infos)) ''panic'') (\<lambda>i. Inr (session_json i s))) infos)
       (\<lambda>compact. te_to_string env (JArray compact))))"

definition reused_session :: "'v tool_env \<Rightarrow> string \<Rightarrow> session option tool" where
  "reused_session env server_name =
     in_base (on_manager (\<lambda>(m, h). case find_reusable_by_server_name (ie_peer (te_ipc env)) server_name m h of (h, r) \<Rightarrow> ((m, h), r)))"

definition session_summary :: "'v tool_env \<Rightarrow> string \<Rightarrow> string tool" where
  "session_summary env i =
     sbind (in_base (on_session (not_found i) i (get_info (ie_peer (te_ipc env))))) (\<lambda>info.
     slift (te_to_string env (session_json (short_id (si_id info)) info)))"

text \<open>Credentials, also those of a jump host, are looked up in the database.\<close>

definition credential_lookup :: "'v tool_env \<Rightarrow> tool_world \<Rightarrow> string \<Rightarrow> string + stored_credential option" where
  "credential_lookup env w name = map_sum (te_error_text env) id (credential_get (te_storage env) name (database_of w))"

definition server_name_of :: "json \<Rightarrow> string tool" where
  "server_name_of args =
     (case arg_str ''server_name'' args of
        Some name \<Rightarrow> sreturn name
      | None \<Rightarrow>
          (case arg_str ''server_id'' args of
             Some reference \<Rightarrow>
               sbind (resolve_server reference) (\<lambda>i w.
                 (w, map_sum id se_name (ok_or (server_find i (sm_database (manager_of w))) (''Server not found: '' @ reference))))
           | None \<Rightarrow> sfail ''Either 'server_id' or 'server_name' must be provided''))"

definition connect_tool :: "'v tool_env \<Rightarrow> string \<Rightarrow> string tool" where
  "connect_tool env server_name w =
     (let denv = (ie_session (te_ipc env))\<lparr>sx_credential := credential_lookup env w\<rparr> in
      sbind (slift (map_sum ((@) ''Failed to look up credentials: '') id (credential_lookup env w server_name))) (\<lambda>found.
      sbind (slift (ok_or found (''No saved credentials for server '' @ quoted server_name @
        ''. Please save credentials in the VibeShell GUI first.''))) (\<lambda>stored.
      sbind (slift (map_sum (\<lambda>e. ''Failed to load credentials for '' @ quoted server_name @ '': '' @ e) id (from_stored denv stored))) (\<lambda>credential.
      sbind (smap_err (\<lambda>e. ''Failed to connect to '' @ quoted server_name @ '': '' @ e)
        (in_base (on_manager (create_with_credentials denv (ie_peer (te_ipc env)) (ie_uuid (te_ipc env)) (ie_timestamp (te_ipc env))
           (ie_now (te_ipc env)) server_name credential (Some default_pty_config))))) (\<lambda>s.
      session_summary env (sn_id s))))) w)"

definition tool_session_create :: "'v tool_env \<Rightarrow> json \<Rightarrow> string tool" where
  "tool_session_create env args =
     sbind (server_name_of args) (\<lambda>server_name.
     sbind (if arg_flag ''force_new'' args then sreturn None else reused_session env server_name) (\<lambda>reused.
     case reused of
       Some s \<Rightarrow> session_summary env (sn_id s)
     | None \<Rightarrow> connect_tool env server_name))"

definition client_change :: "string \<Rightarrow> string \<Rightarrow> (session \<Rightarrow> session) \<Rightarrow> json \<Rightarrow> string tool" where
  "client_change before after change args =
     sbind (required ''session_id'' args) (\<lambda>reference.
     sbind (resolve_session reference) (\<lambda>s.
     sbind (in_base (on_session (not_found (sn_id s)) (sn_id s)
       (sbind (update_session change) (\<lambda>_ (s, h). ((s, h), Inr (sn_client_count s)))))) (\<lambda>clients.
     sreturn (before @ quoted reference @ after @ show_nat clients))))"

definition tool_session_attach :: "'v tool_env \<Rightarrow> json \<Rightarrow> string tool" where
  "tool_session_attach env = client_change ''Attached to session '' ''. Client count: '' (attach (ie_now (te_ipc env)))"

definition tool_session_detach :: "'v tool_env \<Rightarrow> json \<Rightarrow> string tool" where
  "tool_session_detach env = client_change ''Detached from session '' ''. Client count: '' (detach (ie_now (te_ipc env)))"

definition tool_session_kill :: "'v tool_env \<Rightarrow> json \<Rightarrow> string tool" where
  "tool_session_kill env args =
     (if arg_flag ''all'' args then
        sbind (in_base (on_manager (kill_all (ie_peer (te_ipc env)) (ie_timestamp (te_ipc env)) (ie_updated (te_ipc env))))) (\<lambda>_.
        sreturn ''All sessions terminated'')
      else
        sbind (slift (ok_or (arg_str ''session_id'' args) ''Missing 'session_id' or 'all' parameter'')) (\<lambda>reference.
        sbind (resolve_session reference) (\<lambda>s.
        sbind (in_base (on_manager (kill (ie_peer (te_ipc env)) (ie_timestamp (te_ipc env)) (ie_updated (te_ipc env)) (sn_id s)))) (\<lambda>_.
        sreturn (''Session '' @ quoted reference @ '' terminated'')))))"

section \<open>Files\<close>

definition on_sftp :: "'v tool_env \<Rightarrow> string \<Rightarrow> (sftp_server \<Rightarrow> 'a sftp) \<Rightarrow> 'a tool" where
  "on_sftp env i operation w =
     (case operation (ie_sftp (te_ipc env) (iw_sftp (tl_base w)) i) [] of (requests, r) \<Rightarrow>
       (w\<lparr>tl_base := (tl_base w)\<lparr>iw_sftp := iw_sftp (tl_base w) @ map (Pair i) requests\<rparr>\<rparr>, r))"

text \<open>The session's channel and the home directory of the server.\<close>

definition open_sftp_for_session :: "'v tool_env \<Rightarrow> string \<Rightarrow> (string \<times> string) tool" where
  "open_sftp_for_session env reference =
     sbind (resolve_session reference) (\<lambda>s.
     sbind (smap_err ((@) ''Failed to open SFTP session: '')
       (in_base (on_session (not_found (sn_id s)) (sn_id s) (open_sftp_in_session (ie_peer (te_ipc env)))))) (\<lambda>_.
     sbind (smap_err ((@) ''Failed to resolve home directory: '')
       (on_sftp env (sn_id s) (\<lambda>srv. ask (sv_data srv) (Canonicalize ''.'')))) (\<lambda>home_dir.
     sreturn (sn_id s, home_dir))))"

definition at_home :: "string \<Rightarrow> string \<Rightarrow> string" where
  "at_home home_dir path = resolve_remote_path path home_dir home_dir"

definition in_remote :: "'v tool_env \<Rightarrow> string \<Rightarrow> string \<Rightarrow> (string \<Rightarrow> sftp_server \<Rightarrow> 'a sftp) \<Rightarrow> (string \<Rightarrow> 'a \<Rightarrow> string) \<Rightarrow> string tool" where
  "in_remote env reference path operation answer =
     sbind (open_sftp_for_session env reference) (\<lambda>(i, home_dir).
     sbind (on_sftp env i (operation (at_home home_dir path))) (\<lambda>x. sreturn (answer (at_home home_dir path) x)))"

text \<open>One decimal of \<open>n / unit_size\<close>, rounded half to even, which is what is printed for every size below \<open>2 ^ 53\<close>.\<close>

definition show_tenths :: "nat \<Rightarrow> nat \<Rightarrow> string" where
  "show_tenths n unit_size =
     (let t = 10 * n; q = t div unit_size; r = t mod unit_size;
          tenths = (if unit_size < 2 * r \<or> unit_size = 2 * r \<and> odd q then q + 1 else q) in
      show_nat (tenths div 10) @ ''.'' @ show_nat (tenths mod 10))"

definition format_file_size :: "nat \<Rightarrow> string" where
  "format_file_size n =
     (if n < 1024 then show_nat n @ ''B''
      else if n < 1024 * 1024 then show_tenths n 1024 @ ''K''
      else if n < 1024 * 1024 * 1024 then show_tenths n (1024 * 1024) @ ''M''
      else show_tenths n (1024 * 1024 * 1024) @ ''G'')"

definition pad_left :: "nat \<Rightarrow> string \<Rightarrow> string" where
  "pad_left n s = replicate (n - length s) (CHR '' '') @ s"

definition listing_line :: "dir_entry \<Rightarrow> string" where
  "listing_line e =
     (if de_is_dir e then ''d'' else ''-'') @ fa_permissions (de_attrs e) @ '' '' @
     pad_left 8 (if de_is_dir e then ''-'' else format_file_size (attrs_len (de_attrs e))) @ '' '' @ de_name e @
     (if de_is_dir e then ''/'' else [])"

definition listing_text :: "(string \<Rightarrow> string) \<Rightarrow> bool \<Rightarrow> string \<Rightarrow> dir_entry list \<Rightarrow> string" where
  "listing_text lowercase show_hidden path found =
     (let shown = filter (\<lambda>e. de_name e \<noteq> ''.'' \<and> de_name e \<noteq> ''..'' \<and> (show_hidden \<or> \<not> starts_with (de_name e) ''.'')) found;
          sorted_entries = sort_key (\<lambda>e. \<not> de_is_dir e) (sort_key (\<lambda>e. lowercase (de_name e)) shown) in
      join [CHR 0x0A] ([''Directory: '' @ path, []] @ map listing_line sorted_entries @
        [[], ''Total: '' @ show_nat (length sorted_entries) @ '' entries'']))"

definition tool_sftp_ls :: "'v tool_env \<Rightarrow> json \<Rightarrow> string tool" where
  "tool_sftp_ls env args =
     sbind (required ''session_id'' args) (\<lambda>reference.
     in_remote env reference (given_or (arg_str ''path'' args) ''.'')
       (\<lambda>path srv. smap_err (\<lambda>e. ''Failed to list directory '' @ path @ '': '' @ e) (ask (sv_entries srv) (ReadDir path)))
       (listing_text (ie_lowercase (te_ipc env)) (arg_flag ''show_hidden'' args)))"

definition tool_sftp_upload :: "'v tool_env \<Rightarrow> json \<Rightarrow> string tool" where
  "tool_sftp_upload env args =
     sbind (required ''session_id'' args) (\<lambda>reference.
     sbind (required ''local_path'' args) (\<lambda>local_path.
     sbind (required ''remote_path'' args) (\<lambda>remote_path.
     sbind (slift (map_sum (\<lambda>e. ''Failed to read local file '' @ quoted local_path @ '': '' @ e) id
       (ie_read_file (te_ipc env) local_path))) (\<lambda>content.
     in_remote env reference remote_path
       (\<lambda>path srv. sbind (resolve_remote_upload_path srv path (name_or_unknown local_path)) (\<lambda>resolved.
          sbind (write_remote_file srv resolved content) (\<lambda>_. sreturn resolved)))
       (\<lambda>_ resolved. ''Uploaded '' @ quoted local_path @ '' -> '' @ quoted resolved @ '' ('' @ show_nat (length content) @ '' bytes)'')))))"

definition transfer_text :: "transfer_summary \<Rightarrow> string" where
  "transfer_text summary =
     (if ts_mode summary = ''sync'' then ''Synced '' else ''Uploaded '') @ quoted (ts_local_root summary) @ '' -> '' @
     quoted (ts_remote_root summary) @ '' ('' @ show_nat (ts_uploaded_files summary) @ '' uploaded, '' @
     show_nat (ts_skipped_files summary) @ '' skipped, '' @ show_nat (ts_deleted_entries summary) @ '' deleted, '' @
     show_nat (ts_transferred_bytes summary) @ '' bytes)''"

definition tool_sftp_upload_directory :: "'v tool_env \<Rightarrow> json \<Rightarrow> transfer_mode \<Rightarrow> string tool" where
  "tool_sftp_upload_directory env args mode =
     sbind (required ''session_id'' args) (\<lambda>reference.
     sbind (required ''local_path'' args) (\<lambda>local_path.
     sbind (required ''remote_path'' args) (\<lambda>remote_path.
     let options = effective_directory_transfer_options (ie_ignore_config (te_ipc env)) (ie_env_excludes (te_ipc env))
           (Option.bind (arg ''excluded_paths'' args) some_strings) (Option.bind (arg ''respect_gitignore'' args) as_bool)
           (arg_flag ''delete_extra'' args) in
     in_remote env reference remote_path
       (\<lambda>path srv. case ie_tree (te_ipc env) local_path options of (rules, files, name, walk) \<Rightarrow>
          transfer_directory_to_sftp srv rules files (build_directory_transfer_plan local_path name walk) path mode options)
       (\<lambda>_. transfer_text))))"

definition save_to_target :: "ipc_env \<Rightarrow> string list \<Rightarrow> string \<Rightarrow> unit ipc" where
  "save_to_target env target content =
     sbind (case local_parent target of
              None \<Rightarrow> sreturn ()
            | Some parent \<Rightarrow>
                (\<lambda>w. (w\<lparr>iw_local := iw_local w @ [MadeDirs parent]\<rparr>,
                     map_sum ((@) ''Failed to create local directory: '') id (ie_make_dirs env parent)))) (\<lambda>_.
     sbind (slift (ensure_parent_within_allowlist (ie_paths env) target)) (\<lambda>_.
     (\<lambda>w. (w\<lparr>iw_local := iw_local w @ [WroteFile target content]\<rparr>,
       map_sum (\<lambda>e. ''Failed to write local file '' @ quoted (display_path target) @ '': '' @ e) id (ie_write_file env target)))))"

definition tool_sftp_download :: "'v tool_env \<Rightarrow> json \<Rightarrow> string tool" where
  "tool_sftp_download env args =
     sbind (required ''session_id'' args) (\<lambda>reference.
     sbind (required ''remote_path'' args) (\<lambda>remote_path.
     sbind (required ''local_path'' args) (\<lambda>local_path.
     sbind (slift (confine_download_target (ie_paths (te_ipc env)) local_path)) (\<lambda>target.
     sbind (open_sftp_for_session env reference) (\<lambda>(i, home_dir).
     sbind (on_sftp env i (\<lambda>srv. smap_err (\<lambda>e. ''Failed to read remote file '' @ quoted (at_home home_dir remote_path) @ '': '' @ e)
       (ask (sv_data srv) (ReadAll (at_home home_dir remote_path))))) (\<lambda>content.
     sbind (in_base (save_to_target (te_ipc env) target content)) (\<lambda>_.
     sreturn (''Downloaded '' @ quoted (at_home home_dir remote_path) @ '' -> '' @ quoted (display_path target) @ '' ('' @
       show_nat (length content) @ '' bytes)''))))))))"

definition tool_sftp_mkdir :: "'v tool_env \<Rightarrow> json \<Rightarrow> string tool" where
  "tool_sftp_mkdir env args =
     sbind (required ''session_id'' args) (\<lambda>reference.
     sbind (required ''path'' args) (\<lambda>path.
     in_remote env reference path
       (\<lambda>path srv. if arg_flag ''recursive'' args then sftp_mkdir_recursive srv path
          else smap_err (\<lambda>e. ''Failed to create directory '' @ quoted path @ '': '' @ e) (ask (sv_unit srv) (CreateDir path)))
       (\<lambda>path _. ''Created directory '' @ quoted path)))"

definition tool_sftp_rm :: "'v tool_env \<Rightarrow> json \<Rightarrow> string tool" where
  "tool_sftp_rm env args =
     sbind (required ''session_id'' args) (\<lambda>reference.
     sbind (required ''path'' args) (\<lambda>path.
     in_remote env reference path (\<lambda>path srv. sftp_delete_path srv path (arg_flag ''recursive'' args))
       (\<lambda>path _. ''Removed '' @ quoted path)))"

definition tool_sftp_mv :: "'v tool_env \<Rightarrow> json \<Rightarrow> string tool" where
  "tool_sftp_mv env args =
     sbind (required ''session_id'' args) (\<lambda>reference.
     sbind (required ''source'' args) (\<lambda>source.
     sbind (required ''destination'' args) (\<lambda>destination.
     sbind (open_sftp_for_session env reference) (\<lambda>(i, home_dir).
     let resolved_source = at_home home_dir source; resolved_dest = at_home home_dir destination in
     sbind (on_sftp env i (\<lambda>srv. smap_err (\<lambda>e. ''Failed to move '' @ quoted resolved_source @ '' to '' @ quoted resolved_dest @ '': '' @ e)
       (ask (sv_unit srv) (Rename resolved_source resolved_dest)))) (\<lambda>_.
     sreturn (''Moved '' @ quoted resolved_source @ '' -> '' @ quoted resolved_dest))))))"

definition read_text :: "(string \<Rightarrow> string) \<Rightarrow> nat \<Rightarrow> string \<Rightarrow> string \<Rightarrow> string + string" where
  "read_text lossy max_bytes path content =
     (if max_bytes < length content then
        Inr (''[Truncated: showing '' @ show_nat max_bytes @ ''/'' @ show_nat (length content) @ '' bytes]'' @ [CHR 0x0A] @
          lossy (take max_bytes content))
      else ok_or (from_utf8 content)
        (''File '' @ quoted path @ '' contains non-UTF-8 binary content. Use sftp_download instead.''))"

definition tool_sftp_read :: "'v tool_env \<Rightarrow> json \<Rightarrow> string tool" where
  "tool_sftp_read env args =
     sbind (required ''session_id'' args) (\<lambda>reference.
     sbind (required ''path'' args) (\<lambda>path.
     in_remote env reference path
       (\<lambda>path srv. sbind (smap_err (\<lambda>e. ''Failed to read '' @ quoted path @ '': '' @ e) (ask (sv_data srv) (ReadAll path))) (\<lambda>content.
          slift (read_text (ie_lossy (te_ipc env)) (given_or (arg_nat ''max_bytes'' args) 1048576) path content)))
       (\<lambda>_ shown. shown)))"

definition tool_sftp_write :: "'v tool_env \<Rightarrow> json \<Rightarrow> string tool" where
  "tool_sftp_write env args =
     sbind (required ''session_id'' args) (\<lambda>reference.
     sbind (required ''path'' args) (\<lambda>path.
     sbind (required ''content'' args) (\<lambda>content.
     in_remote env reference path (\<lambda>path srv. write_remote_file srv path content)
       (\<lambda>path _. ''Written '' @ show_nat (length content) @ '' bytes to '' @ quoted path))))"

definition tool_add_file :: "'v tool_env \<Rightarrow> json \<Rightarrow> string tool" where
  "tool_add_file env args =
     sbind (required ''session_id'' args) (\<lambda>reference.
     sbind (required ''path'' args) (\<lambda>path.
     sbind (required ''content'' args) (\<lambda>content.
     in_remote env reference path
       (\<lambda>path srv. write_remote_file_with_options srv path content (arg_flag ''parents'' args) (arg_flag ''overwrite'' args))
       (\<lambda>path _. ''Added '' @ show_nat (length content) @ '' bytes to '' @ quoted path))))"

section \<open>Editing a file\<close>

definition replace_text :: "string \<Rightarrow> string \<Rightarrow> string \<Rightarrow> bool \<Rightarrow> string + string \<times> nat" where
  "replace_text content old_text new_text replace_all =
     (if old_text = [] then Inl ''old_text cannot be empty''
      else if replace_all then
        (let replacements = length (pieces old_text content) - 1 in
         if replacements = 0 then Inl ''old_text was not found''
         else Inr (join new_text (pieces old_text content), replacements))
      else (case str_find old_text content of
              None \<Rightarrow> Inl ''old_text was not found''
            | Some i \<Rightarrow> Inr (take i content @ new_text @ drop (i + length old_text) content, 1)))"

definition max_edit_bytes :: nat where "max_edit_bytes = 10 * 1024 * 1024"

definition edit_remote_file ::
    "string option \<Rightarrow> string option \<Rightarrow> string option \<Rightarrow> bool \<Rightarrow> string \<Rightarrow> sftp_server \<Rightarrow> nat option sftp" where
  "edit_remote_file content old_text new_text replace_all path srv =
     sbind (smap_err (\<lambda>e. ''Remote file does not exist '' @ quoted path @ '': '' @ e) (ask (sv_attrs srv) (Metadata path))) (\<lambda>a.
     if fa_is_dir a then sfail (''Remote path is a directory, not a file: '' @ path)
     else (case content of
       Some c \<Rightarrow> sbind (write_remote_file srv path c) (\<lambda>_. sreturn None)
     | None \<Rightarrow>
         sbind (slift (ok_or old_text ''Missing content or old_text/new_text'')) (\<lambda>old.
         sbind (slift (ok_or new_text ''Missing required field: new_text'')) (\<lambda>new.
         if max_edit_bytes < attrs_len a then
           sfail (''Refusing to edit '' @ quoted path @ '' because it is '' @ show_nat (attrs_len a) @ '' bytes (max: '' @
             show_nat max_edit_bytes @ '' bytes)'')
         else
           sbind (smap_err (\<lambda>e. ''Failed to read '' @ quoted path @ '': '' @ e) (ask (sv_data srv) (ReadAll path))) (\<lambda>bytes.
           sbind (slift (ok_or (from_utf8 bytes)
             (''File '' @ quoted path @ '' contains non-UTF-8 binary content. Use sftp_download/upload instead.''))) (\<lambda>current.
           sbind (slift (replace_text current old new replace_all)) (\<lambda>(updated, replacements).
           sbind (write_remote_file srv path updated) (\<lambda>_. sreturn (Some replacements)))))))))"

definition tool_edit_file :: "'v tool_env \<Rightarrow> json \<Rightarrow> string tool" where
  "tool_edit_file env args =
     sbind (required ''session_id'' args) (\<lambda>reference.
     sbind (required ''path'' args) (\<lambda>path.
     let content = arg_str ''content'' args; old_text = arg_str ''old_text'' args; new_text = arg_str ''new_text'' args in
     if content \<noteq> None \<and> (old_text \<noteq> None \<or> new_text \<noteq> None) then sfail ''Use either content or old_text/new_text, not both''
     else
       in_remote env reference path
         (edit_remote_file content old_text new_text (arg_flag ''replace_all'' args))
         (\<lambda>path edited. ''Edited '' @ quoted path @ '' ('' @
            (case edited of
               None \<Rightarrow> show_nat (length (given_or content [])) @ '' bytes)''
             | Some replacements \<Rightarrow> show_nat replacements @ '' replacement(s))''))))"

section \<open>Calling a tool\<close>

definition always :: "string tool \<Rightarrow> string option tool" where
  "always m = sbind m (\<lambda>x. sreturn (Some x))"

definition run_plugin_list :: "'v tool_env \<Rightarrow> json \<Rightarrow> string tool" where
  "run_plugin_list env args =
     slift (rbind (plugin_list (te_ipc env) (given_or (Option.bind (arg ''installed_only'' args) as_bool) True)) (\<lambda>records.
       te_plugin_text env (PluginRecords records)))"

definition run_plugin_describe :: "'v tool_env \<Rightarrow> json \<Rightarrow> string tool" where
  "run_plugin_describe env args =
     slift (rbind (ok_or (arg_str ''plugin_id'' args) ''Missing plugin_id'') (\<lambda>i.
       rbind (plugin_describe (te_ipc env) i (arg_flag ''reference'' args)) (te_plugin_text env)))"

definition execute_tool :: "'v tool_env \<Rightarrow> string \<Rightarrow> json \<Rightarrow> string option tool" where
  "execute_tool env name args =
     (if name = ''plugin_execute'' then run_plugin env args
      else always
       (if name = ''plugin_list'' then run_plugin_list env args
        else if name = ''plugin_describe'' then run_plugin_describe env args
        else if name = ''server_list'' then tool_server_list env args
        else if name = ''server_add'' then tool_server_add env args
        else if name = ''server_get'' then tool_server_get env args
        else if name = ''server_update'' then tool_server_update env args
        else if name = ''server_delete'' then tool_server_delete env args
        else if name = ''session_list'' then tool_session_list env
        else if name = ''session_create'' then tool_session_create env args
        else if name = ''session_attach'' then tool_session_attach env args
        else if name = ''session_detach'' then tool_session_detach env args
        else if name = ''session_kill'' then tool_session_kill env args
        else if name = ''session_send_input'' then run_send_input env args
        else if name = ''session_read'' then run_session_read env args
        else if name = ''session_resize'' then run_session_resize env args
        else if name = ''exec'' then run_exec env args
        else if name = ''rg'' then tool_remote_rg env args
        else if name = ''sftp_ls'' then tool_sftp_ls env args
        else if name = ''sftp_upload'' then tool_sftp_upload env args
        else if name = ''sftp_upload_directory'' then tool_sftp_upload_directory env args Upload
        else if name = ''sftp_sync_directory'' then tool_sftp_upload_directory env args Sync
        else if name = ''sftp_download'' then tool_sftp_download env args
        else if name = ''sftp_mkdir'' then tool_sftp_mkdir env args
        else if name = ''sftp_rm'' then tool_sftp_rm env args
        else if name = ''sftp_mv'' then tool_sftp_mv env args
        else if name = ''sftp_read'' \<or> name = ''get_content'' then tool_sftp_read env args
        else if name = ''sftp_write'' then tool_sftp_write env args
        else if name = ''edit_file'' then tool_edit_file env args
        else if name = ''add_file'' then tool_add_file env args
        else sfail (''Unknown tool: '' @ name)))"

definition spaced :: "string \<Rightarrow> string" where
  "spaced name = map (\<lambda>c. if c = CHR ''_'' then CHR '' '' else c) name"

definition first_arg :: "string list \<Rightarrow> json \<Rightarrow> string option" where
  "first_arg names args =
     (case List.map_filter (\<lambda>n. arg n args) names of v # _ \<Rightarrow> as_str v | [] \<Rightarrow> None)"

definition activity_detail :: "string \<Rightarrow> json \<Rightarrow> string option" where
  "activity_detail name args =
     (if name = ''exec'' then arg_str ''command'' args
      else if name = ''session_create'' then first_arg [''server_name'', ''server_id''] args
      else if name = ''session_send_input'' then Some ''Terminal input submission; complete commands are recorded separately''
      else if name = ''plugin_execute'' then arg_str ''actionId'' args
      else if List.member [''sftp_ls'', ''sftp_mkdir'', ''sftp_rm'', ''sftp_read'', ''sftp_write'', ''get_content'', ''edit_file'', ''add_file''] name
        then arg_str ''path'' args
      else if List.member [''sftp_upload'', ''sftp_upload_directory'', ''sftp_sync_directory'', ''sftp_download''] name
        then first_arg [''remote_path'', ''local_path''] args
      else if name = ''sftp_mv'' then arg_str ''source'' args
      else if name = ''rg'' then arg_str ''pattern'' args
      else arg_str ''session_id'' args)"

definition activity_summary :: "string \<Rightarrow> json \<Rightarrow> string" where
  "activity_summary name args =
     (case activity_detail name args of
        None \<Rightarrow> spaced name
      | Some detail \<Rightarrow>
          if name = ''exec'' then detail
          else
            (let line = map (\<lambda>c. if c = CHR 0x0D \<or> c = CHR 0x0A then CHR '' '' else c) detail;
                 shown = (if 160 < length (utf8_chars line) then concat (take 157 (utf8_chars line)) @ ''...'' else line) in
             spaced name @ '': '' @ shown))"

definition tool_event :: "string \<Rightarrow> json \<Rightarrow> string option \<Rightarrow> activity_status \<Rightarrow> audit_event" where
  "tool_event name args session_id progress =
     \<lparr>au_tool = name, au_session_id = session_id, au_summary = activity_summary name args, au_status = progress\<rparr>"

definition record_event :: "'v tool_env \<Rightarrow> audit_event \<Rightarrow> unit tool" where
  "record_event env event =
     smap_err ((@) ''Agent activity could not be recorded: '') (in_base (agent_activity_record (te_ipc env) event))"

definition invalid_request :: int where "invalid_request = -32600"
definition method_not_found :: int where "method_not_found = -32601"
definition invalid_params :: int where "invalid_params = -32602"
definition internal_error :: int where "internal_error = -32603"

definition text_result :: "string + string \<Rightarrow> json" where
  "text_result r =
     (case r of
        Inr content \<Rightarrow> JObject [(''content'', JArray [JObject [(''type'', JString ''text''), (''text'', JString content)]])]
      | Inl e \<Rightarrow> JObject [(''content'', JArray [JObject [(''type'', JString ''text''), (''text'', JString (''Error: '' @ e))]]),
                          (''isError'', JBool True)])"

definition created_session :: "'v tool_env \<Rightarrow> string \<Rightarrow> string \<Rightarrow> string option \<Rightarrow> string option" where
  "created_session env name content session_id =
     (if name = ''session_create'' then Option.bind (te_parse env content) (arg_str ''id'') else session_id)"

text \<open>\<open>None\<close> while a plugin's command is still running when the wake-ups given end.\<close>

definition run_tool :: "'v tool_env \<Rightarrow> string \<Rightarrow> json \<Rightarrow> tool_world \<Rightarrow> tool_world \<times> json option" where
  "run_tool env name args w =
     (let session_id = arg_str ''session_id'' args in
      case execute_tool env name args w of
        (w', Inr None) \<Rightarrow> (w', None)
      | (w', Inr (Some content)) \<Rightarrow>
          (fst (record_event env (tool_event name args (created_session env name content session_id) Succeeded) w'),
           Some (text_result (Inr content)))
      | (w', Inl e) \<Rightarrow>
          (fst (record_event env (tool_event name args session_id Failed) w'), Some (text_result (Inl e))))"

definition handle_tools_call ::
    "'v tool_env \<Rightarrow> json option \<Rightarrow> tool_world \<Rightarrow> tool_world \<times> ((int \<times> string) + json) option" where
  "handle_tools_call env params w =
     (case params of
        None \<Rightarrow> (w, Some (Inl (invalid_params, ''Missing params'')))
      | Some p \<Rightarrow>
          (case arg_str ''name'' p of
             None \<Rightarrow> (w, Some (Inl (invalid_params, ''Missing tool name'')))
           | Some name \<Rightarrow>
               (let args = given_or (arg ''arguments'' p) (JObject []) in
                case record_event env (tool_event name args (arg_str ''session_id'' args) Started) w of
                  (w', Inl e) \<Rightarrow> (w', Some (Inl (internal_error, e)))
                | (w', Inr _) \<Rightarrow> (case run_tool env name args w' of (w'', r) \<Rightarrow> (w'', map_option Inr r)))))"

text \<open>The other transport calls the same function and takes its answer apart.\<close>

definition execute_tool_public :: "'v tool_env \<Rightarrow> string \<Rightarrow> json \<Rightarrow> tool_world \<Rightarrow> tool_world \<times> (string + string) option" where
  "execute_tool_public env name args w =
     (case handle_tools_call env (Some (JObject [(''name'', JString name), (''arguments'', args)])) w of
        (w', None) \<Rightarrow> (w', None)
      | (w', Some (Inl (_, message))) \<Rightarrow> (w', Some (Inl message))
      | (w', Some (Inr response)) \<Rightarrow>
          (let content = (case arg ''content'' response of
                 Some (JArray (c # _)) \<Rightarrow> given_or (arg_str ''text'' c) [] | _ \<Rightarrow> []) in
           (w', Some (if arg_flag ''isError'' response then Inl content else Inr content))))"

section \<open>JSON-RPC\<close>

definition initialize_result :: "'v tool_env \<Rightarrow> json" where
  "initialize_result env =
     JObject [(''protocolVersion'', JString ''2024-11-05''), (''capabilities'', JObject [(''tools'', JObject [])]),
       (''serverInfo'', JObject [(''name'', JString ''vibeshell''), (''version'', JString (te_version env))])]"

definition tools_list_result :: json where
  "tools_list_result = JObject [(''tools'', JArray (map tool_definition_json get_compact_tool_definitions))]"

definition handle_jsonrpc :: "'v tool_env \<Rightarrow> json_rpc_request \<Rightarrow> tool_world \<Rightarrow> tool_world \<times> json_rpc_response option" where
  "handle_jsonrpc env request w =
     (let answer = (\<lambda>r. Some \<lparr>jp_id = jr_id request, jp_result = r\<rparr>) in
      if jr_jsonrpc request \<noteq> ''2.0'' then (w, answer (Inl (invalid_request, ''Invalid JSON-RPC version'')))
      else if jr_method request = ''initialize'' then (w, answer (Inr (initialize_result env)))
      else if jr_method request = ''notifications/initialized'' \<or> jr_method request = ''ping'' then (w, answer (Inr (JObject [])))
      else if jr_method request = ''tools/list'' then (w, answer (Inr (tools_list_result)))
      else if jr_method request = ''tools/call'' then
        (case handle_tools_call env (jr_params request) w of (w', r) \<Rightarrow> (w', Option.bind r answer))
      else (w, answer (Inl (method_not_found, ''Unknown method: '' @ jr_method request))))"

text \<open>The HTTP transport: every route is behind the token; a body that is no request and an unknown route are refused by
  the web framework.\<close>

datatype http_answer = Unauthorized | HealthReply json | RpcReply "json_rpc_response option" | Refused_By_Framework

definition health_reply :: "'v tool_env \<Rightarrow> json" where
  "health_reply env =
     JObject [(''status'', JString ''ok''), (''server'', JString ''vibeshell''), (''version'', JString (te_version env)),
       (''protocolVersion'', JString ''2024-11-05'')]"

definition gateway_http ::
    "'v tool_env \<Rightarrow> string \<Rightarrow> string option \<Rightarrow> string \<Rightarrow> string \<Rightarrow> string \<Rightarrow> tool_world \<Rightarrow> tool_world \<times> http_answer" where
  "gateway_http env token authorization verb route body w =
     (if \<not> bearer_authorized token authorization then (w, Unauthorized)
      else if verb = ''GET'' \<and> route = ''/health'' then (w, HealthReply (health_reply env))
      else if verb = ''POST'' \<and> (route = ''/'' \<or> route = ''/mcp'') then
        (case te_parse_request env body of
           Inl _ \<Rightarrow> (w, Refused_By_Framework)
         | Inr request \<Rightarrow> (case handle_jsonrpc env request w of (w', r) \<Rightarrow> (w', RpcReply r)))
      else (w, Refused_By_Framework))"

section \<open>The transport over standard input and output\<close>

text \<open>\<^verbatim>\<open>src-tauri/src/mcp/stdio.rs\<close>: one request per line, one response per request that has an identifier.\<close>

definition handle_tool_call :: "'v tool_env \<Rightarrow> json option \<Rightarrow> tool_world \<Rightarrow> tool_world \<times> (string + json) option" where
  "handle_tool_call env params w =
     (case params of
        None \<Rightarrow> (w, Some (Inl ''Missing params''))
      | Some p \<Rightarrow>
          (case arg_str ''name'' p of
             None \<Rightarrow> (w, Some (Inl ''Missing tool name''))
           | Some name \<Rightarrow>
               (case execute_tool_public env name (given_or (arg ''arguments'' p) (JObject [])) w of
                  (w', r) \<Rightarrow> (w', map_option (\<lambda>x. Inr (text_result x)) r))))"

definition handle_request :: "'v tool_env \<Rightarrow> json_rpc_request \<Rightarrow> tool_world \<Rightarrow> tool_world \<times> json_rpc_response option" where
  "handle_request env request w =
     (let answer = (\<lambda>r. \<lparr>jp_id = jr_id request, jp_result = r\<rparr>) in
      if jr_jsonrpc request \<noteq> ''2.0'' then (w, Some (answer (Inl (invalid_request, ''Invalid JSON-RPC version''))))
      else if jr_method request = ''initialize'' then (w, Some (answer (Inr (initialize_result env))))
      else if jr_method request = ''notifications/initialized'' then (w, Some (answer (Inr (JObject []))))
      else if jr_method request = ''tools/list'' then (w, Some (answer (Inr (tools_list_result))))
      else if jr_method request = ''tools/call'' then
        (case handle_tool_call env (jr_params request) w of
           (w', r) \<Rightarrow> (w', map_option (\<lambda>x. answer (map_sum (Pair invalid_params) id x)) r))
      else if jr_method request = ''ping'' then (w, Some (answer (Inr (JObject []))))
      else (w, Some (answer (Inl (method_not_found, ''Unknown method: '' @ jr_method request)))))"

definition parse_error :: int where "parse_error = -32700"

text \<open>What one line gives: \<open>None\<close> while a command is still running.\<close>

definition stdio_line :: "'v tool_env \<Rightarrow> string \<Rightarrow> tool_world \<Rightarrow> tool_world \<times> json_rpc_response list option" where
  "stdio_line env line w =
     (let line = trim line in
      if line = [] then (w, Some [])
      else (case te_parse_request env line of
              Inl e \<Rightarrow> (w, Some [\<lparr>jp_id = None, jp_result = Inl (parse_error, ''Parse error: '' @ e)\<rparr>])
            | Inr request \<Rightarrow>
                (case handle_request env request w of
                   (w', None) \<Rightarrow> (w', None)
                 | (w', Some response) \<Rightarrow> (w', Some (if jr_id request = None then [] else [response])))))"

fun run_stdio :: "'v tool_env \<Rightarrow> string list \<Rightarrow> tool_world \<Rightarrow> tool_world \<times> json_rpc_response list" where
  "run_stdio env [] w = (w, [])"
| "run_stdio env (line # lines) w =
     (case stdio_line env line w of
        (w', None) \<Rightarrow> (w', [])
      | (w', Some responses) \<Rightarrow> (case run_stdio env lines w' of (w'', rest) \<Rightarrow> (w'', responses @ rest)))"

end
