(* ===== verification/Session_Safety.thy ===== *)
theory Session_Safety
  imports Sessions
begin

text \<open>
  What the session manager guarantees: secrets are only sent to the server they belong to, over a
  connection whose host key the trust store holds; a connection attempt that fails leaves no bridge and no
  session behind; closing a session closes its connection, tunnels and recordings and no others; and the
  manager's tables stay consistent over every sequence of its operations (\<open>manager_step\<close>).
\<close>

section \<open>Secrets and bridges while connecting\<close>

definition material :: "ssh_env \<Rightarrow> ssh_credential \<Rightarrow> string set" where
  "material env credential =
     (case credential of
        Password password \<Rightarrow> {password}
      | PrivateKey key passphrase \<Rightarrow> {k. se_decode_key env key (nonempty_passphrase passphrase) = Inr k})"

text \<open>What may be sent where: the credential given to the server, the saved one of its jump host to that.\<close>

definition allowed_secrets ::
    "session_env \<Rightarrow> sync_db \<Rightarrow> server_row \<Rightarrow> ssh_credential \<Rightarrow> ((string \<times> 16 word) \<times> string) set" where
  "allowed_secrets env db server credential =
     Pair (sr_host server, sr_port server) ` material (sx_ssh env) credential \<union>
     {((sr_host jump, sr_port jump), secret) | jump secret.
        \<exists>jump_id stored cred. sr_jump_host_id server = Some jump_id \<and> server_get db jump_id = Some jump \<and>
          sx_credential env (sr_name jump) = Inr (Some stored) \<and> from_stored env stored = Inr cred \<and>
          secret \<in> material (sx_ssh env) cred}"

lemma connect_with_confined:
  assumes "russh_ok peer" "Pair identity ` material env credential \<subseteq> A"
  shows "stays (checked env peer A s identity) (connect_with env peer host port username credential)"
  using assms
  by (cases credential)
    (auto simp: connect_with_def material_def intro!: connect_password_confined connect_key_confined)

lemma await_reply_checked: "stays (checked env peer A s identity) (await_reply peer channel operation n)"
proof (induction n)
  case (Suc n)
  then show ?case
    by (auto intro!: stays_bind stays_leaves stays_client checked_call split: option.splits channel_message.splits simp: secrets_in_def)
qed (simp add: stays_leaves stays_client)

lemma next_number_stays: "stays P next_number"
  by (simp add: holds_def next_number_def)

lemma session_channel_checked: "stays (checked env peer A s identity) (session_channel peer)"
  unfolding session_channel_def
  by (auto intro!: stays_bind stays_leaves stays_client next_number_stays checked_call split: option.splits simp: secrets_in_def)

lemma open_shell_checked: "stays (checked env peer A s identity) (open_shell peer pty)"
  unfolding open_shell_def channel_accepted_def
  by (auto intro!: stays_bind stays_leaves stays_client stays_try session_channel_checked checked_call checked_set_client
      await_reply_checked split: sum.splits simp: secrets_in_def)

lemma run_client_confined:
  assumes "stays (checked env peer A s identity) m" "sc_host_key_check c = Some identity"
  shows "stays (confined env peer A s) (run_client c m)"
  unfolding holds_def
proof (intro allI impI, goal_cases)
  case (1 h h' r)
  obtain c' r' where run: "m (c, h) = ((c', h'), r')"
    using 1(2) by (auto simp: run_client_def split: prod.splits)
  have "checked env peer A s identity (c, h)" using 1(1) assms(2) by (simp add: checked_def)
  from holdsD [OF assms(1) this run] show ?case by (simp add: checked_def split: sum.splits)
qed

lemma log_call_confined: "secrets_in q = {} \<Longrightarrow> stays (confined env peer A s) (log_call answer q)"
  by (auto simp: holds_def log_call_def confined_call split: sum.split)

lemma verified_client_check:
  "verified_client env server = Inr c \<Longrightarrow> sc_host_key_check c = Some (sr_host server, sr_port server)"
  by (auto simp: verified_client_def rbind_Inr_iff set_host_key_check_def)

lemma connect_target_confined:
  assumes "russh_ok peer" "Pair (sr_host server, sr_port server) ` material (sx_ssh env) credential \<subseteq> A"
  shows "stays (confined (sx_ssh env) peer A s) (connect_target env peer host port server credential pty)"
  unfolding connect_target_def
proof (rule stays_lift_bind)
  fix c
  assume "verified_client env server = Inr c"
  from verified_client_check [OF this] show "stays (confined (sx_ssh env) peer A s)
      (sbind (run_client c (sbind (connect_with (sx_ssh env) peer host port (sr_username server) credential)
         (\<lambda>_. open_shell peer pty))) (\<lambda>(ssh, _). sreturn ssh))"
    by (intro stays_bind run_client_confined [of _ _ _ _ "(sr_host server, sr_port server)"] connect_with_confined assms open_shell_checked)
      (auto simp: stays_leaves stays_client)
qed

lemma open_jump_bridge_confined:
  assumes "russh_ok peer" "sr_jump_host_id server = Some jump_id"
    and "allowed_secrets env db server credential \<subseteq> A"
  shows "stays (confined (sx_ssh env) peer A s) (open_jump_bridge env peer db server jump_id)"
  unfolding open_jump_bridge_def
proof (intro stays_lift_bind)
  fix jump stored c cred
  assume a: "ok_or (server_get db jump_id) (''Jump host server not found: '' @ jump_id) = Inr jump"
    "rbind (sx_credential env (sr_name jump)) (\<lambda>c. ok_or c (''No saved credentials for jump host '' @ sr_name jump)) = Inr stored"
    "verified_client env jump = Inr c" "from_stored env stored = Inr cred"
  then have "Pair (sr_host jump, sr_port jump) ` material (sx_ssh env) cred \<subseteq> A"
    using assms(2,3) by (auto simp: allowed_secrets_def rbind_Inr_iff ok_or_def split: option.splits)
  then show "stays (confined (sx_ssh env) peer A s)
      (sbind (run_client c (connect_with (sx_ssh env) peer (sr_host jump) (sr_port jump) (sr_username jump) cred))
        (\<lambda>(jump_ssh, _).
           sbind (slift (ok_or (sc_session jump_ssh) ''Jump host SSH session not available''))
            (\<lambda>handle. sbind (log_call (pr_done peer) (DirectTcpip handle (sr_host server) (unat (sr_port server))))
              (\<lambda>_. log_call (pr_bridge peer) BindBridge))))"
    using verified_client_check [OF a(3)]
    by (auto intro!: stays_bind stays_leaves stays_client run_client_confined connect_with_confined assms(1) log_call_confined
        simp: secrets_in_def)
qed

lemma connect_server_confined:
  assumes "russh_ok peer" "allowed_secrets env db server credential \<subseteq> A"
  shows "stays (confined (sx_ssh env) peer A s) (connect_server env peer db server credential pty)"
proof -
  have "Pair (sr_host server, sr_port server) ` material (sx_ssh env) credential \<subseteq> A"
    using assms(2) unfolding allowed_secrets_def by blast
  then show ?thesis unfolding connect_server_def using open_jump_bridge_confined [OF assms(1) _ assms(2)]
    by (auto intro!: stays_bind stays_leaves stays_client stays_try connect_target_confined assms(1) log_call_confined
        split: option.splits sum.splits simp: secrets_in_def)
qed

text \<open>What the calls that set up a connection keep, if every single one keeps it: all but those on bridges, and
  but the commands and data sent over a channel.\<close>

fun setup_call :: "ssh_request \<Rightarrow> bool" where
  "setup_call BindBridge = False"
| "setup_call (AbortBridge _) = False"
| "setup_call (ExecRequest _ _) = False"
| "setup_call (ChannelData _ _) = False"
| "setup_call _ = True"

locale client_calls =
  fixes I :: "ssh_log \<Rightarrow> bool"
  assumes call_keeps: "I h \<Longrightarrow> setup_call q \<Longrightarrow> I (h @ [q])"
begin

abbreviation kept :: "ssh_client \<times> ssh_log \<Rightarrow> bool" where
  "kept \<equiv> (\<lambda>w. I (snd w))"

lemma call: "setup_call q \<Longrightarrow> stays kept (call answer q)"
  by (auto simp: holds_def call_def intro: call_keeps split: sum.split)

lemma set: "stays kept (set_client f)"
  by (auto simp: holds_def set_client_def)

lemmas leaves = stays_leaves stays_client next_number_stays set call

lemma connection: "stays kept (establish_connection env peer host port)"
  unfolding establish_connection_def clear_server_key_def check_server_key_def record_host_key_rejection_def fail_connect_def
  by (auto intro!: stays_bind stays_try leaves split: sum.splits option.splits connect_outcome.splits)

lemma keyboard: "stays kept (keyboard_rounds peer i password n sent response)"
proof (induction n arbitrary: sent response)
  case (Suc n)
  then show ?case by (cases response) (auto intro!: stays_bind leaves)
qed (simp add: stays_fail)

lemma connecting: "stays kept (connect_with env peer host port username credential)"
  unfolding connect_with_def connect_password_def connect_key_def authenticate_with_password_def clear_server_key_def Let_def
  by (auto intro!: stays_bind leaves connection keyboard split: ssh_credential.split)

lemma await: "stays kept (await_reply peer channel operation n)"
  by (induction n) (auto intro!: stays_bind leaves split: option.splits channel_message.splits)

lemma shell: "stays kept (open_shell peer pty)"
  unfolding open_shell_def channel_accepted_def session_channel_def
  by (auto intro!: stays_bind stays_try leaves await split: sum.splits option.splits)

lemma running: "stays kept m \<Longrightarrow> stays I (run_client c m)"
  unfolding holds_def run_client_def by (fastforce split: prod.splits sum.splits)

lemma target: "stays I (connect_target env peer host port server credential pty)"
  unfolding connect_target_def
  by (auto intro!: stays_bind stays_leaves running connecting shell)

end

text \<open>Every bridge opened from \<open>start\<close> on has been aborted, but for the one at \<open>live\<close>.\<close>

definition bridges_closed :: "ssh_peer \<Rightarrow> nat \<Rightarrow> nat option \<Rightarrow> ssh_log \<Rightarrow> bool" where
  "bridges_closed peer start live h \<longleftrightarrow>
     (\<forall>n port. start \<le> n \<longrightarrow> n < length h \<longrightarrow> h ! n = BindBridge \<longrightarrow> pr_bridge peer (take (Suc n) h) = Inr port \<longrightarrow>
        live \<noteq> Some n \<longrightarrow> AbortBridge port \<in> set (drop n h))"

lemma bridges_closed_snoc:
  assumes "bridges_closed peer start live h" "q = BindBridge \<Longrightarrow> live = Some (length h) \<or> (\<forall>p. pr_bridge peer (h @ [q]) \<noteq> Inr p)"
  shows "bridges_closed peer start live (h @ [q])"
  unfolding bridges_closed_def
proof (intro allI impI, goal_cases)
  case (1 n port)
  then show ?case using assms unfolding bridges_closed_def
    by (cases "n = length h") (auto simp: nth_append)
qed

interpretation bridges: client_calls "bridges_closed peer start live"
  by unfold_locales (rule bridges_closed_snoc, auto)

lemma bridges_closed_abort:
  assumes "bridges_closed peer start (Some k) h" "k < length h" "pr_bridge peer (take (Suc k) h) = Inr port"
  shows "bridges_closed peer start None (h @ [AbortBridge port])"
  unfolding bridges_closed_def
proof (intro allI impI, goal_cases)
  case (1 n p)
  then have n: "n < length h" "h ! n = BindBridge" "pr_bridge peer (take (Suc n) h) = Inr p"
    by (auto simp: nth_append less_Suc_eq split: if_splits)
  show ?case
  proof (cases "n = k")
    case True
    with n assms(3) have "p = port" by simp
    with n(1) show ?thesis by simp
  next
    case False
    with n 1(1) assms(1) have "AbortBridge p \<in> set (drop n h)" unfolding bridges_closed_def by blast
    then show ?thesis by simp
  qed
qed

text \<open>A bridge that has been set up, with its position and port.\<close>

definition bridge_at :: "ssh_peer \<Rightarrow> nat \<Rightarrow> nat \<Rightarrow> 16 word \<Rightarrow> ssh_log \<Rightarrow> bool" where
  "bridge_at peer start k port h \<longleftrightarrow> bridges_closed peer start (Some k) h \<and> k < length h \<and>
     pr_bridge peer (take (Suc k) h) = Inr port"

interpretation bridge_kept: client_calls "bridge_at peer start k port"
  by unfold_locales (auto simp: bridge_at_def intro: bridges_closed_snoc)

lemma open_jump_bridge_closed:
  "holds (bridges_closed peer start None) (open_jump_bridge env peer db server jump_id)
     (\<lambda>port h. \<exists>k. bridge_at peer start k port h) (bridges_closed peer start None)"
proof -
  have bind: "holds (bridges_closed peer start None) (log_call (pr_bridge peer) BindBridge)
      (\<lambda>port h. \<exists>k. bridge_at peer start k port h) (bridges_closed peer start None)"
    unfolding holds_def
  proof (intro allI impI, goal_cases)
    case (1 h h' r)
    then have h': "h' = h @ [BindBridge]" "r = pr_bridge peer h'" by (simp_all add: log_call_def)
    show ?case
    proof (cases r)
      case (Inl e)
      then have "bridges_closed peer start None h'" unfolding h'(1) using 1(1) h' by (intro bridges_closed_snoc) auto
      with Inl show ?thesis by simp
    next
      case (Inr port)
      have "bridges_closed peer start (Some (length h)) h" using 1(1) unfolding bridges_closed_def by blast
      then have "bridge_at peer start (length h) port h'"
        using h' Inr by (auto simp: bridge_at_def intro: bridges_closed_snoc)
      with Inr show ?thesis by auto
    qed
  qed
  have tcp: "stays (bridges_closed peer start None) (log_call (pr_done peer) (DirectTcpip i host port))" for i host port
    by (auto simp: holds_def log_call_def intro: bridges_closed_snoc split: sum.split)
  show ?thesis unfolding open_jump_bridge_def
    by (rule holds_bind [OF _ stays_lift] holds_bind [OF _ bridges.running [OF bridges.connecting]] holds_bind [OF _ tcp] bind
        | simp only: split_beta)+
qed

lemma connect_server_closed:
  "holds (bridges_closed peer start None) (connect_server env peer db server credential pty)
     (\<lambda>_ _. True) (bridges_closed peer start None)"
proof (cases "sr_jump_host_id server")
  case None
  then show ?thesis unfolding connect_server_def by (auto intro: holds_conseq [OF bridges.target])
next
  case (Some jump_id)
  have rest: "holds (\<lambda>h. \<exists>k. bridge_at peer start k port h)
      (sbind (stry (connect_target env peer ''127.0.0.1'' port server credential pty)) (\<lambda>connected.
         case connected of
           Inl e \<Rightarrow> sbind (log_call (\<lambda>_. Inr ()) (AbortBridge port)) (\<lambda>_. sfail e)
         | Inr ssh \<Rightarrow> sreturn ssh)) (\<lambda>_ _. True) (bridges_closed peer start None)" for port
    unfolding holds_def
  proof (intro allI impI, goal_cases)
    case (1 h h' r)
    from 1(1) obtain k where k: "bridge_at peer start k port h" by blast
    obtain h1 r1 where run: "connect_target env peer ''127.0.0.1'' port server credential pty h = (h1, r1)" by fastforce
    from holdsD [OF bridge_kept.target k run] have "bridge_at peer start k port h1" by (auto split: sum.splits)
    then have "bridges_closed peer start None (h1 @ [AbortBridge port])"
      unfolding bridge_at_def by (blast intro: bridges_closed_abort)
    with 1(2) run show ?case
      by (cases r1) (auto simp: sbind_def stry_def log_call_def ask_def sfail_def sreturn_def)
  qed
  from holds_bind [OF this open_jump_bridge_closed] Some show ?thesis unfolding connect_server_def by simp
qed

section \<open>The manager's state\<close>

definition sessions_inv :: "session_manager \<Rightarrow> bool" where
  "sessions_inv m \<longleftrightarrow> distinct (map fst (sm_sessions m)) \<and>
     (\<forall>(i, s) \<in> set (sm_sessions m). sn_id s = i \<and> (sn_state s = Connected \<longrightarrow> sn_ssh_client s \<noteq> None))"

definition services_inv :: "session_manager \<Rightarrow> bool" where
  "services_inv m \<longleftrightarrow>
     (\<forall>ts. sm_tunnels m = Some ts \<longrightarrow> distinct (map fst ts)) \<and>
     (\<forall>l. sm_logger m = Some l \<longrightarrow> distinct (map fst (lg_active l)))"

definition manager_inv :: "session_manager \<Rightarrow> bool" where
  "manager_inv m \<longleftrightarrow> sessions_inv m \<and> services_inv m"

lemma cleanup_services:
  assumes "services_inv m"
  shows "sm_tunnels (run_lifecycle_cleanup now updated i m) = map_option (filter (\<lambda>(_, t). th_session_id t \<noteq> i)) (sm_tunnels m)"
    "map_option lg_active (sm_logger (run_lifecycle_cleanup now updated i m)) =
       map_option (filter (\<lambda>(_, s). s \<noteq> i)) (map_option lg_active (sm_logger m))"
    "sm_sessions (run_lifecycle_cleanup now updated i m) = sm_sessions m"
    "services_inv (run_lifecycle_cleanup now updated i m)"
proof -
  show t: "sm_tunnels (run_lifecycle_cleanup now updated i m) = map_option (filter (\<lambda>(_, t). th_session_id t \<noteq> i)) (sm_tunnels m)"
    using assms by (cases "sm_tunnels m") (auto simp: run_lifecycle_cleanup_def services_inv_def stop_all_for_session_eq)
  show l: "map_option lg_active (sm_logger (run_lifecycle_cleanup now updated i m)) =
       map_option (filter (\<lambda>(_, s). s \<noteq> i)) (map_option lg_active (sm_logger m))"
    using assms by (cases "sm_logger m") (auto simp: run_lifecycle_cleanup_def services_inv_def stop_for_session_active)
  show "sm_sessions (run_lifecycle_cleanup now updated i m) = sm_sessions m" by (simp add: run_lifecycle_cleanup_def)
  show "services_inv (run_lifecycle_cleanup now updated i m)"
    using t l assms unfolding services_inv_def by (cases "sm_logger m"; cases "sm_tunnels m") (auto simp: distinct_map_filter)
qed

lemma sessions_inv_cong: "sm_sessions m' = sm_sessions m \<Longrightarrow> sessions_inv m' = sessions_inv m"
  by (simp add: sessions_inv_def)

lemma sessions_inv_insert:
  assumes "sessions_inv m" "sn_id s = i" "sn_state s = Connected \<longrightarrow> sn_ssh_client s \<noteq> None"
  shows "sessions_inv (m\<lparr>sm_sessions := AList.update i s (sm_sessions m)\<rparr>)"
  using assms set_AList_update [of "sm_sessions m" i s] by (auto simp: sessions_inv_def distinct_update)

lemma disconnect_calls:
  assumes "disconnect peer (c, h) = ((c', h'), r)"
  shows "\<exists>hs. h' = h @ hs \<and> (\<forall>i. sc_session c = Some i \<longrightarrow> Disconnect i \<in> set hs)"
proof (cases "sc_channel c")
  case None
  with assms show ?thesis
    by (cases "sc_session c") (auto simp: disconnect_def sbind_def client_def set_client_def sreturn_def call_def)
next
  case (Some k)
  with assms show ?thesis
    by (cases "sc_session c") (auto simp: disconnect_def sbind_def client_def set_client_def sreturn_def call_def stry_def)
qed

lemma disconnect_session_effect:
  assumes "disconnect_session peer (s, h) = ((s', h'), r)"
  shows "s' = set_state Disconnected (s\<lparr>sn_ssh_client := None\<rparr>) \<and>
    (\<exists>hs. h' = h @ hs \<and> (\<forall>c i. sn_ssh_client s = Some c \<longrightarrow> sc_session c = Some i \<longrightarrow> Disconnect i \<in> set hs))"
proof (cases "sn_ssh_client s")
  case None
  with assms show ?thesis by (auto simp: disconnect_session_def Let_def)
next
  case (Some c)
  obtain c' h1 r1 where d: "disconnect peer (c, h) = ((c', h1), r1)" by (metis surj_pair)
  with assms Some have "s' = set_state Disconnected (s\<lparr>sn_ssh_client := None\<rparr>)" "h' = h1"
    by (auto simp: disconnect_session_def Let_def)
  with disconnect_calls [OF d] Some show ?thesis by auto
qed

lemma sessions_inv_filter:
  "sessions_inv m \<Longrightarrow> sm_sessions m' = filter P (sm_sessions m) \<Longrightarrow> sessions_inv m'"
  by (auto simp: sessions_inv_def distinct_map_filter)

text \<open>Closing one session.\<close>

lemma kill_effect:
  assumes "manager_inv m" "kill peer now updated i (m, h) = ((m', h'), r)"
  shows "r = Inr () \<and> manager_inv m' \<and> sm_database m' = sm_database m \<and>
    sm_sessions m' = filter (\<lambda>(k, _). k \<noteq> i) (sm_sessions m) \<and>
    (map_of (sm_sessions m) i = None \<longrightarrow> m' = m \<and> h' = h) \<and>
    (\<forall>s. map_of (sm_sessions m) i = Some s \<longrightarrow>
       sm_tunnels m' = map_option (filter (\<lambda>(_, t). th_session_id t \<noteq> i)) (sm_tunnels m) \<and>
       map_option lg_active (sm_logger m') = map_option (filter (\<lambda>(_, s). s \<noteq> i)) (map_option lg_active (sm_logger m)) \<and>
       (\<exists>hs. h' = h @ hs \<and> (\<forall>c k. sn_ssh_client s = Some c \<longrightarrow> sc_session c = Some k \<longrightarrow> Disconnect k \<in> set hs)))"
proof (cases "map_of (sm_sessions m) i")
  case None
  then have "filter (\<lambda>(k, _). k \<noteq> i) (sm_sessions m) = sm_sessions m"
    by (intro filter_True) (auto simp: map_of_eq_None_iff image_iff)
  with None assms show ?thesis by (simp add: kill_def)
next
  case (Some s)
  let ?m = "m\<lparr>sm_sessions := AList.delete i (sm_sessions m)\<rparr>"
  have serv: "services_inv ?m" "sm_tunnels ?m = sm_tunnels m" "sm_logger ?m = sm_logger m"
    using assms(1) by (simp_all add: manager_inv_def services_inv_def)
  note clean = cleanup_services [OF serv(1), of now updated i, unfolded serv(2,3)]
  obtain s' h1 r1 where d: "disconnect_session peer (s, h) = ((s', h1), r1)" by (metis surj_pair)
  with assms(2) Some have run: "m' = run_lifecycle_cleanup now updated i ?m" "h' = h1" "r = Inr ()"
    by (auto simp: kill_def Let_def)
  have sess: "sm_sessions m' = filter (\<lambda>(k, _). k \<noteq> i) (sm_sessions m)"
    using clean(3) by (simp add: run(1) AList.delete_eq eq_commute [of i])
  then have "manager_inv m'" using clean(4) assms(1) sessions_inv_filter by (auto simp: manager_inv_def run(1))
  moreover have "sm_database m' = sm_database m" by (simp add: run(1) run_lifecycle_cleanup_def)
  ultimately show ?thesis using Some run sess clean(1,2) disconnect_session_effect [OF d] by auto
qed

lemma kill_each_effect:
  assumes "manager_inv m" "kill_each peer now updated ids (m, h) = ((m', h'), r)"
  shows "r = Inr () \<and> manager_inv m' \<and> sm_database m' = sm_database m \<and> prefix h h' \<and>
    sm_sessions m' = filter (\<lambda>(k, _). k \<notin> set ids) (sm_sessions m) \<and>
    (\<forall>i \<in> set ids. \<forall>s c k. map_of (sm_sessions m) i = Some s \<longrightarrow> sn_ssh_client s = Some c \<longrightarrow> sc_session c = Some k \<longrightarrow>
       Disconnect k \<in> set (drop (length h) h'))"
  using assms
proof (induction ids arbitrary: m h)
  case Nil
  then show ?case by (auto simp: case_prod_beta')
next
  case (Cons i ids)
  obtain m1 h1 r1 where k: "kill peer now updated i (m, h) = ((m1, h1), r1)" by (metis surj_pair)
  note eff = kill_effect [OF Cons.prems(1) k]
  then have rest: "kill_each peer now updated ids (m1, h1) = ((m', h'), r)"
    using Cons.prems(2) k by (simp add: sbind_def)
  have "manager_inv m1" using eff by blast
  note IH = Cons.IH [OF this rest]
  have pre: "prefix h h1" using eff by (cases "map_of (sm_sessions m) i") (auto simp: prefix_def)
  have sess: "sm_sessions m' = filter (\<lambda>(k, _). k \<notin> set (i # ids)) (sm_sessions m)"
    using eff IH by (auto simp: filter_filter intro!: filter_cong)
  have "Disconnect k \<in> set (drop (length h) h')"
    if j: "j \<in> set (i # ids)" "map_of (sm_sessions m) j = Some s" "sn_ssh_client s = Some c" "sc_session c = Some k" for j s c k
  proof (cases "j = i")
    case True
    with eff j obtain hs where "h1 = h @ hs" "Disconnect k \<in> set hs" by blast
    with IH eff show ?thesis by (auto simp: prefix_def)
  next
    case False
    then have "map_of (sm_sessions m1) j = Some s" using eff j(2)
      by (auto simp: map_of_filter_in)
    with IH eff j False have "Disconnect k \<in> set (drop (length h1) h')" by auto
    moreover have "set (drop (length h1) h') \<subseteq> set (drop (length h) h')"
      using pre by (intro set_drop_subset_set_drop) (auto simp: prefix_def)
    ultimately show ?thesis by blast
  qed
  moreover have "prefix h h'" using IH pre by (metis prefix_order.trans)
  moreover have "sm_database m' = sm_database m" using IH eff by (cases "map_of (sm_sessions m) i") auto
  ultimately show ?case using IH sess by blast
qed

section \<open>What can happen to the manager\<close>

inductive session_use :: "ssh_peer \<Rightarrow> session \<times> ssh_log \<Rightarrow> session \<times> ssh_log \<Rightarrow> bool" for peer where
  attached: "session_use peer (s, h) (attach now s, h)"
| detached: "session_use peer (s, h) (detach now s, h)"
| published: "session_use peer (s, h) (publish_output now data s, h)"
| forwarder: "session_use peer (s, h) (fst (try_start_output_forwarder s), h)"
| state_read: "get_info peer w = (w', r) \<Longrightarrow> session_use peer w w'"
| written: "write_to_ssh peer now data w = (w', r) \<Longrightarrow> session_use peer w w'"
| resized: "resize_session_pty peer now cols rows w = (w', r) \<Longrightarrow> session_use peer w w'"
| executed: "exec_command_in_session peer lossy now command stdin_data events w = (w', r) \<Longrightarrow> session_use peer w w'"
| quick: "exec_quick_command peer lossy now command events w = (w', r) \<Longrightarrow> session_use peer w w'"
| sftp: "open_sftp_in_session peer w = (w', r) \<Longrightarrow> session_use peer w w'"

inductive manager_step ::
    "session_env \<Rightarrow> ssh_peer \<Rightarrow> session_manager \<times> ssh_log \<Rightarrow> session_manager \<times> ssh_log \<Rightarrow> bool" for env peer where
  created: "create uuid at now server_id m = (m', r) \<Longrightarrow> manager_step env peer (m, h) (m', h)"
| created_by_name: "create_by_name uuid at now server_name m = (m', r) \<Longrightarrow> manager_step env peer (m, h) (m', h)"
| created_connected: "create_with_credentials env peer uuid at now server_name credential pty w = (w', r) \<Longrightarrow> manager_step env peer w w'"
| connected: "connect_session env peer i credential pty w = (w', r) \<Longrightarrow> manager_step env peer w w'"
| used: "map_of (sm_sessions m) i = Some s \<Longrightarrow> session_use peer (s, h) (s', h') \<Longrightarrow>
    manager_step env peer (m, h) (m\<lparr>sm_sessions := AList.update i s' (sm_sessions m)\<rparr>, h')"
| tunnel_opened: "sm_tunnels m = Some ts \<Longrightarrow> create_tunnel up uuid started ended i config ts = (ts', r) \<Longrightarrow>
    manager_step env peer (m, h) (m\<lparr>sm_tunnels := Some ts'\<rparr>, h)"
| tunnel_stopped: "sm_tunnels m = Some ts \<Longrightarrow> stop_tunnel i ts = (ts', r) \<Longrightarrow>
    manager_step env peer (m, h) (m\<lparr>sm_tunnels := Some ts'\<rparr>, h)"
| recording_started: "sm_logger m = Some l \<Longrightarrow> start_recording uuid at dir path added i server l = (l', r') \<Longrightarrow>
    manager_step env peer (m, h) (m\<lparr>sm_logger := Some l'\<rparr>, h)"
| recording_stopped: "sm_logger m = Some l \<Longrightarrow> stop_recording at upd i l = (l', r) \<Longrightarrow>
    manager_step env peer (m, h) (m\<lparr>sm_logger := Some l'\<rparr>, h)"
| database_changed: "manager_step env peer (m, h) (m\<lparr>sm_database := db\<rparr>, h)"
| killed: "kill peer at updated i w = (w', r) \<Longrightarrow> manager_step env peer w w'"
| server_deleted: "kill_by_server_id peer at updated i w = (w', ids) \<Longrightarrow> manager_step env peer w w'"
| reaped: "reap_inactive_sessions peer at clock updated max_idle w = (w', ids) \<Longrightarrow> manager_step env peer w w'"
| all_killed: "kill_all peer at updated w = (w', r) \<Longrightarrow> manager_step env peer w w'"

definition session_ok :: "string \<Rightarrow> session \<times> ssh_log \<Rightarrow> bool" where
  "session_ok i w \<longleftrightarrow> sn_id (fst w) = i \<and> (sn_state (fst w) = Connected \<longrightarrow> sn_ssh_client (fst w) \<noteq> None)"

lemma with_ssh_client_ok: "stays (session_ok i) (with_ssh_client m)"
  by (auto simp: holds_def with_ssh_client_def session_ok_def split: option.splits prod.splits sum.splits)

lemma update_session_ok:
  "(\<And>s. session_ok i (s, []) \<Longrightarrow> session_ok i (f s, [])) \<Longrightarrow> stays (session_ok i) (update_session f)"
  by (auto simp: holds_def update_session_def session_ok_def)

lemma update_session_fields:
  assumes "\<And>s. sn_id (f s) = sn_id s" "\<And>s. sn_state (f s) \<noteq> Connected \<or> sn_state (f s) = sn_state s"
    "\<And>s. sn_ssh_client (f s) = sn_ssh_client s"
  shows "stays (session_ok i) (update_session f)"
proof (rule update_session_ok)
  fix s
  assume "session_ok i (s, [])"
  with assms(1,3) [of s] assms(2) [of s] show "session_ok i (f s, [])" by (auto simp: session_ok_def)
qed

lemma mark_activity_ok: "stays (session_ok i) (update_session (mark_activity now))"
  by (rule update_session_fields) (simp_all add: mark_activity_def)

lemma note_failure_ok: "stays (session_ok i) (note_failure peer e)"
proof -
  have "stays (session_ok i) (update_session (set_state SessionError))"
    by (rule update_session_fields) (simp_all add: set_state_def)
  then show ?thesis unfolding note_failure_def
    by (intro stays_bind with_ssh_client_ok) (simp_all add: stays_leaves)
qed

lemmas session_ok_rules = stays_bind stays_try stays_leaves with_ssh_client_ok mark_activity_ok note_failure_ok

lemma stays_at:
  assumes "stays P m" "m w = (w', r)" "P w"
  shows "P w'"
  using holdsD [OF assms(1,3,2)] by (cases r) simp_all

lemma stays_cond:
  assumes "stays P m" "stays P n"
  shows "stays P (\<lambda>w. if b w then m w else n w)"
  unfolding holds_def
proof (intro allI impI, goal_cases)
  case (1 w w' r)
  then show ?case using holdsD [OF assms(1) 1(1), of w' r] holdsD [OF assms(2) 1(1), of w' r]
    by (cases "b w") simp_all
qed

lemma stays_read: "stays P (\<lambda>w. (w, Inr (f w)))"
  by (simp add: holds_def)

lemma get_state_ok: "stays (session_ok i) (get_state peer)"
proof -
  have "get_state peer = (\<lambda>w. if sn_state (fst w) = Connected \<and> sn_ssh_client (fst w) \<noteq> None
      then sbind (with_ssh_client (is_shell_open peer)) (\<lambda>shell_open. sreturn (if shell_open then Connected else Disconnected)) w
      else (w, Inr (sn_state (fst w))))" by (rule ext) (simp only: get_state_def)
  then show ?thesis by (simp only:) (intro stays_cond session_ok_rules stays_read)
qed

lemma get_info_ok: "stays (session_ok i) (get_info peer)"
proof -
  have "get_info peer = sbind (get_state peer) (\<lambda>state w.
       (w, Inr \<lparr>si_id = sn_id (fst w), si_server_id = sn_server_id (fst w), si_server_name = sn_server_name (fst w),
          si_state = state, si_created_at = sn_created_at (fst w), si_clients = sn_client_count (fst w)\<rparr>))"
    by (rule ext) (simp only: get_info_def)
  then show ?thesis by (simp only:) (intro stays_bind get_state_ok stays_read)
qed

lemma session_use_ok:
  assumes "session_use peer w w'" "session_ok i w"
  shows "session_ok i w'"
  using assms
proof (cases rule: session_use.cases)
  case (state_read r)
  from stays_at [OF get_info_ok state_read assms(2)] show ?thesis .
next
  case (written now data r)
  have "stays (session_ok i) (write_to_ssh peer now data)" unfolding write_to_ssh_def
    by (intro session_ok_rules)
  from stays_at [OF this written assms(2)] show ?thesis .
next
  case (resized now cols rows r)
  have "stays (session_ok i) (resize_session_pty peer now cols rows)" unfolding resize_session_pty_def
    by (intro session_ok_rules)
  from stays_at [OF this resized assms(2)] show ?thesis .
next
  case (executed lossy now command stdin_data events r)
  have "stays (session_ok i) (sbind (stry (with_ssh_client (exec_command_with_stdin peer lossy command stdin_data events))) (\<lambda>result.
        case result of
          Inr r \<Rightarrow> sbind (update_session (mark_activity now)) (\<lambda>_. sreturn r)
        | Inl e \<Rightarrow> note_failure peer e))"
    by (intro stays_bind stays_try with_ssh_client_ok) (auto intro!: session_ok_rules split: sum.split)
  from stays_at [OF this _ assms(2)] executed assms(2) show ?thesis
    by (auto simp: exec_command_in_session_def split: if_splits)
next
  case (quick lossy now command events r)
  have "stays (session_ok i) (sbind (stry (with_ssh_client (exec_command_result_with_limits peer lossy command None 10000 (1024 * 1024) events))) (\<lambda>result.
        sbind (update_session (mark_activity now)) (\<lambda>_.
        case result of Inr r \<Rightarrow> sreturn r | Inl e \<Rightarrow> note_failure peer e)))"
    by (intro stays_bind stays_try with_ssh_client_ok) (auto intro!: session_ok_rules split: sum.split)
  from stays_at [OF this _ assms(2)] quick assms(2) show ?thesis
    by (auto simp: exec_quick_command_def split: if_splits)
next
  case (sftp r)
  have "stays (session_ok i) (sbind (stry (with_ssh_client (open_sftp_session peer))) (\<lambda>result.
        case result of Inr sftp \<Rightarrow> sreturn sftp | Inl e \<Rightarrow> note_failure peer e))"
    by (intro stays_bind stays_try with_ssh_client_ok) (auto intro!: session_ok_rules split: sum.split)
  from stays_at [OF this _ assms(2)] sftp assms(2) show ?thesis
    by (auto simp: open_sftp_in_session_def split: if_splits)
qed (auto simp: session_ok_def attach_def detach_def publish_output_def mark_activity_def try_start_output_forwarder_def)

lemma sessions_inv_ok: "sessions_inv m \<Longrightarrow> map_of (sm_sessions m) i = Some s \<Longrightarrow> session_ok i (s, h)"
  by (auto simp: sessions_inv_def session_ok_def dest: map_of_SomeD)

lemma session_ok_insert:
  assumes "manager_inv m" "session_ok i (s, h)"
  shows "manager_inv (m\<lparr>sm_sessions := AList.update i s (sm_sessions m)\<rparr>)"
  using assms sessions_inv_insert [of m s i] by (auto simp: manager_inv_def services_inv_def session_ok_def)

lemma close_all_inv:
  "services_inv m \<Longrightarrow> close_all peer now updated ss (m, h) = ((m', h'), r) \<Longrightarrow>
     services_inv m' \<and> sm_sessions m' = sm_sessions m"
proof (induction ss arbitrary: m h)
  case (Cons x ss)
  obtain i s where x: "x = (i, s)" by (cases x)
  obtain s1 h1 r1 where d: "disconnect_session peer (s, h) = ((s1, h1), r1)" by (metis surj_pair)
  with Cons.prems(2) x have "close_all peer now updated ss (run_lifecycle_cleanup now updated i m, h1) = ((m', h'), r)"
    by (simp add: Let_def)
  from Cons.IH [OF cleanup_services(4) [OF Cons.prems(1)] this] cleanup_services(3) [OF Cons.prems(1)] show ?case by simp
qed auto

lemma create_for_server_inv:
  assumes "manager_inv m" "create_for_server uuid at now server_id server m = (m', s)"
  shows "manager_inv m'"
proof -
  let ?s = "new_session uuid at now server_id (sr_name server)"
  have "session_ok uuid (?s, [])" by (simp add: session_ok_def new_session_def)
  from session_ok_insert [OF assms(1) this] assms(2) show ?thesis
    by (auto simp: create_for_server_def insert_session_def new_session_def Let_def)
qed

lemma manager_step_inv:
  assumes "manager_inv (fst w)" "manager_step env peer w w'"
  shows "manager_inv (fst w')"
  using assms(2)
proof (cases rule: manager_step.cases)
  case (created uuid at now server_id m m' r h)
  with assms(1) create_for_server_inv show ?thesis
    by (auto simp: create_def split: option.splits prod.splits)
next
  case (created_by_name uuid at now server_name m m' r h)
  with assms(1) create_for_server_inv show ?thesis
    by (auto simp: create_by_name_def split: option.splits prod.splits)
next
  case (created_connected uuid at now server_name credential pty r)
  obtain m h where w: "w = (m, h)" by (cases w)
  have ok: "session_ok uuid (set_state Connected (set_ssh_client ssh (new_session uuid at now sid name)), [])" for ssh sid name
    by (simp add: session_ok_def set_state_def set_ssh_client_def new_session_def)
  have id: "sn_id (set_state Connected (set_ssh_client ssh (new_session uuid at now sid name))) = uuid" for ssh sid name
    by (simp add: set_state_def set_ssh_client_def new_session_def)
  from created_connected assms(1) w session_ok_insert [OF _ ok, of m] show ?thesis
    by (auto simp: create_with_credentials_def insert_session_def id Let_def split: option.splits prod.splits sum.splits)
next
  case (connected i credential pty r)
  obtain m h where w: "w = (m, h)" by (cases w)
  with assms(1) have inv: "manager_inv m" by simp
  have "session_ok i (set_state Connected (set_ssh_client ssh s), [])" if "map_of (sm_sessions m) i = Some s" for ssh s
    using sessions_inv_ok [OF _ that] inv by (auto simp: manager_inv_def session_ok_def set_state_def set_ssh_client_def)
  with connected inv w session_ok_insert [OF inv, where h = "[]"] show ?thesis
    by (auto simp: connect_session_def split: option.splits prod.splits sum.splits)
next
  case (used m i s h s' h')
  with assms(1) have "session_ok i (s, h)" using sessions_inv_ok by (auto simp: manager_inv_def)
  from session_use_ok [OF used(4) this] session_ok_insert used assms(1) show ?thesis by auto
next
  case (tunnel_opened m ts up uuid started ended i config ts' r h)
  then have "distinct (map fst ts)" using assms(1) by (auto simp: manager_inv_def services_inv_def)
  then have "distinct (map fst ts')" using tunnel_opened(4)
    by (auto simp: create_tunnel_def Let_def distinct_update split: if_splits sum.splits)
  with tunnel_opened assms(1) show ?thesis by (auto simp: manager_inv_def services_inv_def sessions_inv_def)
next
  case (tunnel_stopped m ts i ts' r h)
  then have "distinct (map fst ts)" using assms(1) by (auto simp: manager_inv_def services_inv_def)
  then have "distinct (map fst ts')" using tunnel_stopped(4)
    by (auto simp: stop_tunnel_def distinct_delete split: if_splits)
  with tunnel_stopped assms(1) show ?thesis by (auto simp: manager_inv_def services_inv_def sessions_inv_def)
next
  case (recording_started m l uuid at dir path added i server l' r' h)
  then have "distinct (map fst (lg_active l))" using assms(1) by (auto simp: manager_inv_def services_inv_def)
  then have "distinct (map fst (lg_active l'))" using recording_started(4)
    by (auto simp: start_recording_def distinct_update split: if_splits sum.splits)
  with recording_started assms(1) show ?thesis by (auto simp: manager_inv_def services_inv_def sessions_inv_def)
next
  case (recording_stopped m l at upd i l' r h)
  then have "distinct (map fst (lg_active l))" using assms(1) by (auto simp: manager_inv_def services_inv_def)
  then have "distinct (map fst (lg_active l'))" using recording_stopped(4)
    by (auto simp: stop_recording_def Let_def distinct_delete split: if_splits sum.splits)
  with recording_stopped assms(1) show ?thesis by (auto simp: manager_inv_def services_inv_def sessions_inv_def)
next
  case (database_changed m h db)
  with assms(1) show ?thesis by (simp add: manager_inv_def services_inv_def sessions_inv_def)
next
  case (killed at updated i r)
  obtain m h m' h' where w: "w = (m, h)" "w' = (m', h')" by fastforce
  from kill_effect [OF _ killed [unfolded w]] assms(1) w show ?thesis by simp
next
  case (server_deleted at updated i ids)
  obtain m h m' h' where w: "w = (m, h)" "w' = (m', h')" by fastforce
  then obtain r' where "kill_each peer at updated (map sn_id (filter (\<lambda>s. sn_server_id s = i) (map snd (sm_sessions m)))) (m, h) = ((m', h'), r')"
    using server_deleted by (auto simp: kill_by_server_id_def Let_def sbind_def sreturn_def split: prod.splits sum.splits)
  from kill_each_effect [OF _ this] assms(1) w show ?thesis by simp
next
  case (reaped at clock updated max_idle ids)
  obtain m h m' h' where w: "w = (m, h)" "w' = (m', h')" by fastforce
  then obtain r' where "kill_each peer at updated (map sn_id (filter (should_reap clock max_idle) (map snd (sm_sessions m)))) (m, h) = ((m', h'), r')"
    using reaped by (auto simp: reap_inactive_sessions_def Let_def sbind_def sreturn_def split: prod.splits sum.splits)
  from kill_each_effect [OF _ this] assms(1) w show ?thesis by simp
next
  case (all_killed at updated r)
  obtain m h m' h' where w: "w = (m, h)" "w' = (m', h')" by fastforce
  have "services_inv (m\<lparr>sm_sessions := []\<rparr>)" using assms(1) w by (simp add: manager_inv_def services_inv_def)
  from close_all_inv [OF this, of peer at updated "sm_sessions m" h m' h' r] all_killed w show ?thesis
    by (auto simp: kill_all_def manager_inv_def sessions_inv_def)
qed

definition manager_start :: "session_manager \<times> ssh_log \<Rightarrow> bool" where
  "manager_start w \<longleftrightarrow> sm_sessions (fst w) = [] \<and> (\<forall>ts. sm_tunnels (fst w) = Some ts \<longrightarrow> ts = []) \<and>
     (\<forall>l. sm_logger (fst w) = Some l \<longrightarrow> lg_active l = [])"

lemma manager_start_inv: "manager_start w \<Longrightarrow> manager_inv (fst w)"
  by (auto simp: manager_start_def manager_inv_def sessions_inv_def services_inv_def)

interpretation managers: inductive_invariant manager_start "manager_step env peer" "\<lambda>w. manager_inv (fst w)"
  by unfold_locales (auto intro: manager_step_inv manager_start_inv)

section \<open>Auxiliary facts\<close>

lemma filter_singleton:
  "distinct xs \<Longrightarrow> filter P xs = [s] \<longleftrightarrow> s \<in> set xs \<and> P s \<and> (\<forall>t \<in> set xs. P t \<longrightarrow> t = s)"
proof (induction xs)
  case (Cons x xs)
  have "filter P xs = [] \<longleftrightarrow> (\<forall>t \<in> set xs. \<not> P t)" by (simp add: filter_empty_conv)
  with Cons show ?case by auto
qed simp

lemma sessions_distinct:
  assumes "sessions_inv m"
  shows "distinct (map snd (sm_sessions m))"
proof -
  have "map sn_id (map snd (sm_sessions m)) = map fst (sm_sessions m)"
    using assms by (auto simp: sessions_inv_def)
  moreover have "distinct (map fst (sm_sessions m))" using assms by (simp add: sessions_inv_def)
  ultimately have "distinct (map sn_id (map snd (sm_sessions m)))" by (simp only:)
  then show ?thesis by (simp only: distinct_map)
qed

lemma keyboard_rounds_answers:
  "keyboard_rounds peer i password n sent response (c, h) = ((c', h'), r) \<Longrightarrow> pr_keyboard peer h = Inr response \<Longrightarrow>
    c' = c \<and> (\<exists>hs. h' = h @ hs \<and> length hs \<le> n \<and>
      length (filter (\<lambda>q. q \<noteq> KeyboardRespond i []) hs) \<le> (if sent then 0 else 1) \<and>
      (\<forall>k < length hs. hs ! k \<noteq> KeyboardRespond i [] \<longrightarrow> hs ! k = KeyboardRespond i [password] \<and>
         (\<exists>prompt. pr_keyboard peer (h @ take k hs) = Inr (KbPrompts [(prompt, False)]) \<and>
            contains (to_ascii_lowercase prompt) ''password'')))"
proof (induction n arbitrary: sent response h)
  case 0
  then show ?case by auto
next
  case (Suc n)
  have respond: ?case if "q = KeyboardRespond i [] \<and> sent' = sent \<or> q = KeyboardRespond i [password] \<and> sent' \<and> \<not> sent \<and>
      (\<exists>prompt. response = KbPrompts [(prompt, False)] \<and> contains (to_ascii_lowercase prompt) ''password'')"
    and run: "sbind (call (pr_keyboard peer) q) (keyboard_rounds peer i password n sent') (c, h) = ((c', h'), r)" for q sent'
  proof (cases "pr_keyboard peer (h @ [q])")
    case (Inl e)
    with run have "c' = c" "h' = h @ [q]" by (auto simp: sbind_def call_def)
    with that(1) Suc.prems(2) show ?thesis by (intro conjI exI [of _ "[q]"]) auto
  next
    case (Inr reply)
    with run have "keyboard_rounds peer i password n sent' reply (c, h @ [q]) = ((c', h'), r)" by (simp add: sbind_def call_def)
    from Suc.IH [OF this Inr] obtain hs where hs: "c' = c" "h' = (h @ [q]) @ hs" "length hs \<le> n"
      "length (filter (\<lambda>q. q \<noteq> KeyboardRespond i []) hs) \<le> (if sent' then 0 else 1)"
      "\<And>k. k < length hs \<Longrightarrow> hs ! k \<noteq> KeyboardRespond i [] \<Longrightarrow> hs ! k = KeyboardRespond i [password] \<and>
         (\<exists>prompt. pr_keyboard peer ((h @ [q]) @ take k hs) = Inr (KbPrompts [(prompt, False)]) \<and>
            contains (to_ascii_lowercase prompt) ''password'')" by blast
    have all: "(q # hs) ! k = KeyboardRespond i [password] \<and>
         (\<exists>prompt. pr_keyboard peer (h @ take k (q # hs)) = Inr (KbPrompts [(prompt, False)]) \<and>
            contains (to_ascii_lowercase prompt) ''password'')"
      if "k < length (q # hs)" "(q # hs) ! k \<noteq> KeyboardRespond i []" for k
      using that hs(5) [of "k - 1"] \<open>q = _ \<and> _ \<or> _\<close> Suc.prems(2) by (cases k) auto
    show ?thesis
      using hs(1-4) all that(1) by (intro conjI exI [of _ "q # hs"]) (auto split: if_splits)
  qed
  show ?case
  proof (cases response)
    case KbSuccess
    with Suc.prems show ?thesis by auto
  next
    case KbFailure
    with Suc.prems show ?thesis by auto
  next
    case (KbPrompts prompts)
    consider (none) "prompts = []" | (ask) "prompts \<noteq> []" "\<not> sent \<and> length prompts = 1 \<and> \<not> snd (hd prompts) \<and>
        contains (to_ascii_lowercase (fst (hd prompts))) ''password''"
      | (other) "prompts \<noteq> []" "\<not> (\<not> sent \<and> length prompts = 1 \<and> \<not> snd (hd prompts) \<and>
        contains (to_ascii_lowercase (fst (hd prompts))) ''password'')" by blast
    then show ?thesis
    proof cases
      case none
      with Suc.prems(1) KbPrompts respond [of "KeyboardRespond i []" sent] show ?thesis by simp
    next
      case ask
      then obtain prompt where "prompts = [(prompt, False)]" by (cases prompts) auto
      with ask Suc.prems(1) KbPrompts respond [of "KeyboardRespond i [password]" True] show ?thesis by simp
    next
      case other
      with Suc.prems(1) KbPrompts show ?thesis by auto
    qed
  qed
qed

text \<open>What the loop of a command has read and the last exit status it has seen.\<close>

definition data_of :: "(nat \<times> nat \<times> wait_event) list \<Rightarrow> string" where
  "data_of events = concat (map (\<lambda>(_, _, e). case e of Got (MsgData d) \<Rightarrow> d | _ \<Rightarrow> []) events)"

definition status_of :: "nat option \<Rightarrow> (nat \<times> nat \<times> wait_event) list \<Rightarrow> nat option" where
  "status_of = foldl (\<lambda>st (_, _, e). case e of Got (MsgExitStatus n) \<Rightarrow> Some n | Got MsgExitSignal \<Rightarrow> Some 255 | _ \<Rightarrow> st)"

lemma exec_loop_reads:
  "exec_loop limit max_output s events = Some outcome \<Longrightarrow> length (ex_output s) \<le> max_output \<Longrightarrow>
   outcome = RemoteClosed s' \<or> outcome = ClosedLocally s' \<Longrightarrow>
   \<exists>k \<le> length events. ex_output s' = ex_output s @ data_of (take k events) \<and> length (ex_output s') \<le> max_output \<and>
     ex_exit_status s' = status_of (ex_exit_status s) (take k events)"
proof (induction events arbitrary: s)
  case Nil
  then show ?case by simp
next
  case (Cons x events)
  obtain elapsed woken event where x: "x = (elapsed, woken, event)" by (cases x)
  have step: ?case if "exec_loop limit max_output s1 events = Some outcome" "length (ex_output s1) \<le> max_output"
    "ex_output s1 = ex_output s @ data_of [x]" "ex_exit_status s1 = status_of (ex_exit_status s) [x]" for s1
  proof -
    from Cons.IH [OF that(1,2) Cons.prems(3)] obtain k where "k \<le> length events"
      "ex_output s' = ex_output s1 @ data_of (take k events)" "length (ex_output s') \<le> max_output"
      "ex_exit_status s' = status_of (ex_exit_status s1) (take k events)" by blast
    with that(3,4) show ?thesis by (intro exI [of _ "Suc k"]) (simp add: data_of_def status_of_def)
  qed
  have stop: ?case if "ex_output s' = ex_output s" "ex_exit_status s' = ex_exit_status s"
    using that Cons.prems(2) by (intro exI [of _ 0]) (simp add: data_of_def status_of_def)
  show ?case
  proof (cases "limit \<le> elapsed")
    case True
    with Cons.prems x show ?thesis by auto
  next
    case False
    note run = Cons.prems(1) [unfolded x exec_loop.simps if_not_P [OF False]]
    let ?s = "s\<lparr>ex_last_message_at := woken\<rparr>"
    show ?thesis
    proof (cases event)
      case ChannelEnded
      with run Cons.prems(3) show ?thesis by (intro stop) auto
    next
      case NothingYet
      show ?thesis
      proof (cases "ex_exit_status s \<noteq> None \<and> exec_close_drain_timeout \<le> woken - ex_last_message_at s")
        case True
        with NothingYet run Cons.prems(3) show ?thesis by (intro stop) auto
      next
        case False
        with NothingYet run Cons.prems(2) x show ?thesis
          by (intro step [of s]) (simp_all only: data_of_def status_of_def, auto)
      qed
    next
      case (Got message)
      then show ?thesis using run Cons.prems(2,3) x
      proof (cases message)
        case MsgClose
        with Got run Cons.prems(3) show ?thesis by (intro stop) auto
      next
        case MsgFailure
        with Got run Cons.prems(3) show ?thesis by auto
      next
        case (MsgData d)
        show ?thesis
        proof (cases "max_output < length (ex_output s) + length d")
          case True
          with Got MsgData run Cons.prems(3) show ?thesis by (auto simp: Let_def)
        next
          case False
          with Got MsgData run x show ?thesis
            by (intro step [of "?s\<lparr>ex_output := ex_output s @ d\<rparr>"]) (auto simp: Let_def data_of_def status_of_def)
        qed
      next
        case (MsgExitStatus n)
        with Got run x Cons.prems(2) show ?thesis
          by (intro step [of "?s\<lparr>ex_exit_status := Some n\<rparr>"]) (auto simp: Let_def data_of_def status_of_def)
      next
        case MsgExitSignal
        with Got run x Cons.prems(2) show ?thesis
          by (intro step [of "?s\<lparr>ex_exit_status := Some 255\<rparr>"]) (auto simp: Let_def data_of_def status_of_def)
      qed (rule step [of ?s]; use Got run x Cons.prems(2) in \<open>simp add: Let_def data_of_def status_of_def\<close>)+
    qed
  qed
qed

lemma exec_loop_time_limit:
  "list_ex (\<lambda>(elapsed, _). limit \<le> elapsed) events \<Longrightarrow> exec_loop limit max_output s events \<noteq> None"
  by (induction limit max_output s events rule: exec_loop.induct)
    (auto simp: Let_def split: wait_event.splits channel_message.splits)

end
