(* ===== verification/Ipc_Safety.thy ===== *)
theory Ipc_Safety
  imports Ipc_Server Session_Safety
begin

text \<open>
  What every message of the inter-process interface keeps.  \<open>ssh_step\<close> says which commands a call may hand to a
  server; the locale \<open>ipc_invariant\<close> states what a property of the world has to tolerate, and proves once that
  the dispatch of any message then keeps it.  Its interpretations give the invariant of the manager, the commands
  a message may run, and the parts of the world a message leaves alone.
\<close>

section \<open>Commands handed to a server\<close>

definition ssh_step :: "(string \<Rightarrow> bool) \<Rightarrow> ssh_log \<Rightarrow> ssh_log \<Rightarrow> bool" where
  "ssh_step runs h h' \<longleftrightarrow> (\<exists>hs. h' = h @ hs \<and> (\<forall>k c. ExecRequest k c \<in> set hs \<longrightarrow> runs c))"

lemma ssh_step_refl [simp]: "ssh_step runs h h"
  by (simp add: ssh_step_def)

lemma ssh_step_snoc: "ssh_step runs h0 h \<Longrightarrow> (\<And>k c. q = ExecRequest k c \<Longrightarrow> runs c) \<Longrightarrow> ssh_step runs h0 (h @ [q])"
  by (auto simp: ssh_step_def)

lemma ssh_step_trans: "ssh_step runs h0 h \<Longrightarrow> ssh_step runs h h' \<Longrightarrow> ssh_step runs h0 h'"
  by (auto simp: ssh_step_def)

lemma ssh_step_mono: "ssh_step runs h h' \<Longrightarrow> (\<And>c. runs c \<Longrightarrow> runs' c) \<Longrightarrow> ssh_step runs' h h'"
  by (auto simp: ssh_step_def)

interpretation steps: client_calls "ssh_step runs h0"
  by unfold_locales (rule ssh_step_snoc, auto)

abbreviation ssh_kept :: "(string \<Rightarrow> bool) \<Rightarrow> ssh_log \<Rightarrow> 's \<times> ssh_log \<Rightarrow> bool" where
  "ssh_kept runs h0 \<equiv> (\<lambda>w. ssh_step runs h0 (snd w))"

lemma call_steps: "(\<And>k c. q = ExecRequest k c \<Longrightarrow> runs c) \<Longrightarrow> stays (ssh_kept runs h0) (call answer q)"
  by (auto simp: holds_def call_def intro: ssh_step_snoc split: sum.split)

lemmas step_leaves = stays_leaves stays_client next_number_stays steps.set call_steps

lemma session_channel_steps: "stays (ssh_kept runs h0) (session_channel peer)"
  unfolding session_channel_def by (auto intro!: stays_bind step_leaves split: option.split)

lemma exec_steps:
  assumes "runs command"
  shows "stays (ssh_kept runs h0) (exec_command_result_with_limits peer lossy command stdin limit n events)"
  unfolding exec_command_result_with_limits_def Let_def
  using assms
  by (auto intro!: stays_bind stays_try step_leaves session_channel_steps split: sum.split option.split exec_outcome.split)

lemma with_client_steps: "stays (ssh_kept runs h0) m \<Longrightarrow> stays (ssh_kept runs h0) (with_ssh_client m)"
  unfolding holds_def with_ssh_client_def by (fastforce split: option.splits prod.splits sum.splits)

lemma update_steps: "stays (ssh_kept runs h0) (update_session f)"
  by (auto simp: holds_def update_session_def)

lemma connected_steps: "stays (ssh_kept runs h0) (is_connected peer)"
  unfolding is_connected_def by (auto intro!: stays_bind step_leaves split: option.split)

lemma note_failure_steps: "stays (ssh_kept runs h0) (note_failure peer e)"
  unfolding note_failure_def by (auto intro!: stays_bind stays_leaves with_client_steps update_steps connected_steps)

lemma stays_stop: "stays P (\<lambda>w. (w, Inl e))"
  by (simp add: holds_def)

lemma exec_command_steps:
  assumes "runs command"
  shows "stays (ssh_kept runs h0) (exec_command_in_session peer lossy now command stdin events)"
proof -
  have "stays (ssh_kept runs h0) (exec_command_with_stdin peer lossy command stdin events)"
    unfolding exec_command_with_stdin_def exec_command_result_def
    by (auto intro!: exec_steps assms stays_bind stays_leaves split: option.split)
  then show ?thesis
    unfolding exec_command_in_session_def [abs_def]
    by (intro stays_cond stays_stop stays_bind stays_try with_client_steps)
      (auto intro!: stays_bind stays_leaves update_steps note_failure_steps split: sum.split)
qed

lemma quick_command_steps:
  assumes "runs command"
  shows "stays (ssh_kept runs h0) (exec_quick_command peer lossy now command events)"
  unfolding exec_quick_command_def [abs_def]
  by (intro stays_cond stays_stop stays_bind stays_try with_client_steps exec_steps assms update_steps)
    (auto intro!: stays_bind stays_leaves note_failure_steps split: sum.split)

lemma open_sftp_steps: "stays (ssh_kept runs h0) (open_sftp_in_session peer)"
proof -
  have "stays (ssh_kept runs h0) (open_sftp_session peer)"
    unfolding open_sftp_session_def channel_accepted_def
    by (auto intro!: stays_bind step_leaves session_channel_steps steps.await)
  then show ?thesis
    unfolding open_sftp_in_session_def [abs_def]
    by (intro stays_cond stays_stop stays_bind stays_try with_client_steps)
      (auto intro!: stays_leaves note_failure_steps split: sum.split)
qed

lemma terminal_steps:
  "stays (ssh_kept runs h0) (write_to_ssh peer now data)"
  "stays (ssh_kept runs h0) (resize_session_pty peer now cols rows)"
proof -
  have "stays (ssh_kept runs h0) (send_data peer data)" "stays (ssh_kept runs h0) (resize_pty peer cols rows)"
    unfolding send_data_def resize_pty_def by (auto intro!: stays_bind step_leaves split: option.split)
  then show "stays (ssh_kept runs h0) (write_to_ssh peer now data)"
    "stays (ssh_kept runs h0) (resize_session_pty peer now cols rows)"
    unfolding write_to_ssh_def resize_session_pty_def by (auto intro!: stays_bind with_client_steps update_steps)
qed

lemma info_steps: "stays (ssh_kept runs h0) (get_info peer)"
proof -
  have "stays (ssh_kept runs h0) (is_shell_open peer)"
    unfolding is_shell_open_def by (auto intro!: stays_bind step_leaves connected_steps)
  then show ?thesis
    unfolding get_info_def [abs_def] get_state_def [abs_def]
    by (intro stays_bind stays_cond stays_read with_client_steps) (auto intro!: stays_leaves)
qed

lemma disconnect_steps: "stays (ssh_kept runs h0) (disconnect_session peer)"
proof -
  have d: "stays (ssh_kept runs h0) (disconnect peer)"
    unfolding disconnect_def by (auto intro!: stays_bind stays_try step_leaves split: option.split)
  show ?thesis
    unfolding holds_def
  proof (intro allI impI, goal_cases)
    case (1 w w' r)
    obtain s h where w: "w = (s, h)" by (cases w)
    show ?case
    proof (cases "sn_ssh_client s")
      case None
      with 1 w show ?thesis by (auto simp: disconnect_session_def Let_def split: sum.split)
    next
      case (Some c)
      obtain c' h' r' where "disconnect peer (c, h) = ((c', h'), r')" by (metis surj_pair)
      with 1 w Some holdsD [OF d, of "(c, h)"] show ?thesis
        by (cases r') (auto simp: disconnect_session_def Let_def)
    qed
  qed
qed

section \<open>Operations of the manager\<close>

lemma target_steps: "stays (ssh_step runs h0) (connect_target env peer host port server credential pty)"
  by (rule steps.target)

lemma log_call_steps: "(\<And>k c. q = ExecRequest k c \<Longrightarrow> runs c) \<Longrightarrow> stays (ssh_step runs h0) (log_call answer q)"
  by (auto simp: holds_def log_call_def intro: ssh_step_snoc split: sum.split)

lemma connect_server_steps: "stays (ssh_step runs h0) (connect_server env peer db server credential pty)"
  unfolding connect_server_def open_jump_bridge_def
  by (auto intro!: stays_bind stays_try stays_leaves target_steps log_call_steps steps.running steps.connecting
      split: option.split sum.split prod.split)

lemma create_steps: "stays (ssh_kept runs h0) (create_with_credentials env peer uuid at now name credential pty)"
  unfolding holds_def
proof (intro allI impI, goal_cases)
  case (1 w w' r)
  obtain m h where w: "w = (m, h)" by (cases w)
  show ?case
  proof (cases "server_get_by_name (sm_database m) name")
    case None
    with 1 w show ?thesis by (auto simp: create_with_credentials_def split: sum.split)
  next
    case (Some found)
    obtain sid server where f: "found = (sid, server)" by (cases found)
    obtain h' r' where c: "connect_server env peer (sm_database m) server credential pty h = (h', r')" by fastforce
    have "ssh_step runs h0 h'"
      using holdsD [OF connect_server_steps _ c, of runs h0] 1(1) w by (cases r') simp_all
    with 1(2) w Some f c show ?thesis
      by (cases r') (auto simp: create_with_credentials_def Let_def)
  qed
qed

lemma kill_steps: "stays (ssh_kept runs h0) (kill peer now updated i)"
  unfolding holds_def
proof (intro allI impI, goal_cases)
  case (1 w w' r)
  obtain m h where w: "w = (m, h)" by (cases w)
  show ?case
  proof (cases "map_of (sm_sessions m) i")
    case None
    with 1 w show ?thesis by (auto simp: kill_def)
  next
    case (Some s)
    obtain s' h' r' where d: "disconnect_session peer (s, h) = ((s', h'), r')" by (metis surj_pair)
    have "ssh_step runs h0 h'" using holdsD [OF disconnect_steps _ d, of runs h0] 1(1) w by (cases r') simp_all
    with 1(2) w Some d show ?thesis by (auto simp: kill_def Let_def)
  qed
qed

lemma list_infos_steps: "stays (ssh_step runs h0) (list_infos peer ss)"
proof (induction ss)
  case (Cons s ss)
  have "stays (ssh_step runs h0) (\<lambda>h. case get_info peer (s, h) of ((_, h), r) \<Rightarrow> (h, r))"
    using info_steps [of runs h0 peer] unfolding holds_def by (fastforce split: prod.splits sum.splits)
  with Cons show ?case by (auto intro!: stays_bind stays_leaves)
qed (simp add: stays_return)

section \<open>Properties every message keeps\<close>

text \<open>The commands a message may run over SSH.\<close>

definition runnable :: "ipc_env \<Rightarrow> ipc_message \<Rightarrow> string \<Rightarrow> bool" where
  "runnable env message command \<longleftrightarrow>
     (let unflagged = (\<lambda>c. \<not> (gc_enabled (guard_of env) \<and> gc_require_for_exec (guard_of env) \<and>
            rd_requires_approval (classify_command c (guard_of env)))) in
      case message of
        Request (ExecCommand _ c _) \<Rightarrow> command = c \<and> unflagged c
      | Request (ExecQuickCommand _ c) \<Rightarrow> command = c \<and> unflagged c
      | Request (PluginExecute q) \<Rightarrow>
          (case prepare (plugin_env_of env) (ie_plugins env) q (pe_is_local (plugin_env_of env) (rq_session_id q)) of
             Inr p \<Rightarrow> command = pr_command p \<and> (pr_requires_confirmation p \<longrightarrow> rq_confirmed q)
           | Inl _ \<Rightarrow> False)
      | _ \<Rightarrow> False)"

lemma smap_err_any: "smap_err f m w = (w', r) \<Longrightarrow> \<exists>r'. m w = (w', r')"
  by (auto simp: smap_err_def split: prod.splits sum.splits)

lemma same_calls [simp]: "w\<lparr>iw_manager := m, iw_calls := iw_calls w\<rparr> = w\<lparr>iw_manager := m\<rparr>"
  by (cases w) simp

text \<open>A local file that a download may write.\<close>

definition confined_target :: "local_paths \<Rightarrow> string list \<Rightarrow> bool" where
  "confined_target paths target \<longleftrightarrow> (\<exists>local_path. confine_download_target paths local_path = Inr target) \<and>
     ensure_parent_within_allowlist paths target = Inr ()"

locale ipc_invariant =
  fixes env :: ipc_env and P :: "ipc_world \<Rightarrow> bool" and runs :: "string \<Rightarrow> bool"
  assumes managed: "P w \<Longrightarrow> manager_step (ie_session env) (ie_peer env) (iw_manager w, iw_calls w) (m', h') \<Longrightarrow>
      ssh_step runs (iw_calls w) h' \<Longrightarrow> P (w\<lparr>iw_manager := m', iw_calls := h'\<rparr>)"
    and called: "P w \<Longrightarrow> ssh_step (\<lambda>_. False) (iw_calls w) h' \<Longrightarrow> P (w\<lparr>iw_calls := h'\<rparr>)"
    and untunnelled: "P w \<Longrightarrow> sm_tunnels (iw_manager w) = Some ts \<Longrightarrow>
      P (w\<lparr>iw_manager := (iw_manager w)\<lparr>sm_tunnels := Some (stop_all_for_session i ts)\<rparr>\<rparr>)"
    and in_context: "P w \<Longrightarrow> P (w\<lparr>iw_contexts := c\<rparr>)"
    and requested: "P w \<Longrightarrow> P (w\<lparr>iw_sftp := iw_sftp w @ requests\<rparr>)"
    and changed_locally: "P w \<Longrightarrow> (\<And>target content. change = WroteFile target content \<Longrightarrow> confined_target (ie_paths env) target) \<Longrightarrow>
      P (w\<lparr>iw_local := iw_local w @ [change]\<rparr>)"
    and audited: "P w \<Longrightarrow> P (w\<lparr>iw_audit := iw_audit w @ events\<rparr>)"
begin

lemma session_stays:
  assumes "\<And>w w' r. m w = (w', r) \<Longrightarrow> session_use (ie_peer env) w w'" "\<And>h0. stays (ssh_kept runs h0) m"
  shows "stays P (on_session missing i m)"
  unfolding holds_def
proof (intro allI impI, goal_cases)
  case (1 w w' r)
  show ?case
  proof (cases "get_session i (iw_manager w)")
    case None
    with 1 show ?thesis by (auto simp: on_session_def)
  next
    case (Some s)
    obtain s' h' r' where m: "m (s, iw_calls w) = ((s', h'), r')" by (metis surj_pair)
    have "ssh_step runs (iw_calls w) h'"
      using holdsD [OF assms(2) _ m, of "iw_calls w"] by (cases r') simp_all
    moreover have "manager_step (ie_session env) (ie_peer env) (iw_manager w, iw_calls w)
        ((iw_manager w)\<lparr>sm_sessions := AList.update i s' (sm_sessions (iw_manager w))\<rparr>, h')"
      using Some assms(1) [OF m] by (intro manager_step.used) (simp_all add: get_session_def)
    ultimately show ?thesis using managed [OF 1(1)] 1(2) Some m by (auto simp: on_session_def split: sum.split)
  qed
qed

lemma session_err_stays:
  assumes "\<And>w w' r. m w = (w', r) \<Longrightarrow> session_use (ie_peer env) w w'" "\<And>h0. stays (ssh_kept runs h0) m"
  shows "stays P (on_session missing i (smap_err f m))"
proof (rule session_stays)
  show "session_use (ie_peer env) w w'" if "smap_err f m w = (w', r)" for w w' r
    using smap_err_any [OF that] assms(1) by blast
  show "stays (ssh_kept runs h0) (smap_err f m)" for h0 by (rule holds_map_err [OF assms(2)])
qed

lemma manager_stays:
  assumes "\<And>w w' r. m w = (w', r) \<Longrightarrow> manager_step (ie_session env) (ie_peer env) w w'" "\<And>h0. stays (ssh_kept runs h0) m"
  shows "stays P (on_manager m)"
  unfolding holds_def
proof (intro allI impI, goal_cases)
  case (1 w w' r)
  obtain m' h' r' where m: "m (iw_manager w, iw_calls w) = ((m', h'), r')" by (metis surj_pair)
  have "ssh_step runs (iw_calls w) h'" using holdsD [OF assms(2) _ m, of "iw_calls w"] by (cases r') simp_all
  with managed [OF 1(1)] assms(1) [OF m] 1(2) m show ?case by (auto simp: on_manager_def split: sum.split)
qed

lemma tunnels_stay:
  assumes "\<And>ts ts' r. f ts = (ts', r) \<Longrightarrow> ts' = ts \<or> (\<exists>i. ts' = stop_all_for_session i ts) \<or>
      (\<exists>up uuid started ended i config q. create_tunnel up uuid started ended i config ts = (ts', q)) \<or>
      (\<exists>i q. stop_tunnel i ts = (ts', q))"
  shows "stays P (on_tunnels f)"
  unfolding holds_def
proof (intro allI impI, goal_cases)
  case (1 w w' r)
  show ?case
  proof (cases "sm_tunnels (iw_manager w)")
    case None
    with 1 show ?thesis by (auto simp: on_tunnels_def)
  next
    case (Some ts)
    obtain ts' r' where f: "f ts = (ts', r')" by fastforce
    let ?w = "w\<lparr>iw_manager := (iw_manager w)\<lparr>sm_tunnels := Some ts'\<rparr>\<rparr>"
    have same: "w\<lparr>iw_manager := (iw_manager w)\<lparr>sm_tunnels := Some ts\<rparr>\<rparr> = w"
      using Some by (cases w, cases "iw_manager w") simp
    have step: "P ?w" if "manager_step (ie_session env) (ie_peer env) (iw_manager w, iw_calls w)
        ((iw_manager w)\<lparr>sm_tunnels := Some ts'\<rparr>, iw_calls w)"
      using managed [OF 1(1) that] by simp
    have "P ?w" using assms [OF f] 1(1) same
      by (elim disjE exE) (simp_all add: untunnelled [OF 1(1) Some] step manager_step.tunnel_opened [OF Some]
          manager_step.tunnel_stopped [OF Some])
    with 1(2) Some f show ?thesis by (auto simp: on_tunnels_def split: sum.split)
  qed
qed

lemma logger_stays:
  assumes "\<And>l l' r. f l = (l', r) \<Longrightarrow> l' = l \<or>
      (\<exists>uuid at dir path added i server q. start_recording uuid at dir path added i server l = (l', q)) \<or>
      (\<exists>at upd i q. stop_recording at upd i l = (l', q))"
  shows "stays P (on_logger f)"
  unfolding holds_def
proof (intro allI impI, goal_cases)
  case (1 w w' r)
  show ?case
  proof (cases "sm_logger (iw_manager w)")
    case None
    with 1 show ?thesis by (auto simp: on_logger_def)
  next
    case (Some l)
    obtain l' r' where f: "f l = (l', r')" by fastforce
    let ?w = "w\<lparr>iw_manager := (iw_manager w)\<lparr>sm_logger := Some l'\<rparr>\<rparr>"
    have same: "w\<lparr>iw_manager := (iw_manager w)\<lparr>sm_logger := Some l\<rparr>\<rparr> = w"
      using Some by (cases w, cases "iw_manager w") simp
    have step: "P ?w" if "manager_step (ie_session env) (ie_peer env) (iw_manager w, iw_calls w)
        ((iw_manager w)\<lparr>sm_logger := Some l'\<rparr>, iw_calls w)"
      using managed [OF 1(1) that] by simp
    have "P ?w" using assms [OF f] 1(1) same
      by (elim disjE exE) (simp_all add: step manager_step.recording_started [OF Some] manager_step.recording_stopped [OF Some])
    with 1(2) Some f show ?thesis by (auto simp: on_logger_def split: sum.split)
  qed
qed

lemma service_stays: "stays P (service_dispatch env request)"
proof -
  have start: "stays P (tunnel_start env i config)" for i config
    unfolding tunnel_start_def [abs_def] holds_def
  proof (intro allI impI, goal_cases)
    case (1 w w' r)
    show ?case by (rule holdsD [OF tunnels_stay 1]) (auto split: sum.splits)
  qed
  have rec: "stays P (recording_start env i server_id)" for i server_id
    unfolding recording_start_def [abs_def] holds_def
  proof (intro allI impI, goal_cases)
    case (1 w w' r)
    show ?case by (rule holdsD [OF logger_stays 1]) (auto split: sum.splits)
  qed
  show ?thesis
    unfolding service_dispatch_def
    by (cases request) (auto intro!: stays_bind stays_leaves start rec tunnels_stay logger_stays)
qed

end
context ipc_invariant
begin

lemma record_stays: "stays P (agent_activity_record env event)"
  by (auto simp: holds_def agent_activity_record_def audited split: sum.splits)

lemma sftp_opened: "stays P (on_session missing i (smap_err f (open_sftp_in_session (ie_peer env))))"
  by (rule session_err_stays) (auto intro: session_use.sftp open_sftp_steps)

lemma with_sftp_stays: "stays P (with_sftp env i operation)"
proof -
  have "stays P (\<lambda>w. case operation (ie_sftp env (iw_sftp w) i) [] of (requests, r) \<Rightarrow>
       (w\<lparr>iw_sftp := iw_sftp w @ map (Pair i) requests\<rparr>, r))"
    by (auto simp: holds_def requested split: prod.splits sum.split)
  then show ?thesis unfolding with_sftp_def by (intro stays_bind sftp_opened)
qed

lemma context_stays:
  "stays P (get_sftp_context i)" "stays P (set_sftp_context i c)" "stays P (clear_sftp_context i)"
  by (auto simp: holds_def get_sftp_context_def set_sftp_context_def clear_sftp_context_def in_context split: sum.split)

lemma local_stays: "stays P (make_local_dirs env parent)" "stays P (run_locally env p)"
  by (auto simp: holds_def make_local_dirs_def run_locally_def intro!: changed_locally split: sum.split)

lemma write_stays: "confined_target (ie_paths env) target \<Longrightarrow> stays P (write_local_file env target content)"
  by (auto simp: holds_def write_local_file_def intro!: changed_locally split: sum.split)

lemma respond_stays: "stays P m \<Longrightarrow> stays P (respond f m)"
  unfolding respond_def by (intro stays_bind stays_return)

lemmas leaves = stays_bind stays_leaves respond_stays with_sftp_stays context_stays local_stays

lemma download_stays: "stays P (sftp_download_file env i remote_path local_path)"
proof -
  have "stays P (save_download env target content)" if "confine_download_target (ie_paths env) local_path = Inr target"
    for target content
    unfolding save_download_def using that
    by (intro stays_bind stays_lift_bind write_stays) (auto intro: local_stays stays_return simp: confined_target_def split: option.split)
  then show ?thesis
    unfolding sftp_download_file_def Let_def
    by (intro stays_bind stays_lift_bind) (auto intro!: leaves)
qed

lemma sftp_stays: "stays P (sftp_dispatch env i operation)"
  unfolding sftp_dispatch_def sftp_init_def sftp_list_dir_def sftp_stat_def sftp_read_file_def sftp_change_def
    sftp_upload_file_def sftp_upload_directory_def Let_def
  by (auto intro!: leaves download_stays split: sftp_op.split option.split)

lemma exec_stays: "runs command \<Longrightarrow> stays P (exec_on env missing i command stdin)"
  unfolding exec_on_def by (rule session_stays) (auto intro: session_use.executed exec_command_steps)

lemma plugin_stays:
  assumes "\<And>c. runnable env (Request (PluginExecute q)) c \<Longrightarrow> runs c"
  shows "stays P (plugin_execute env q source reviewed)"
proof -
  have run: "stays P (run_action env q is_local p)" if "runs (pr_command p)" for is_local p
    using that unfolding run_action_def by (auto intro!: leaves exec_stays split: option.split)
  show ?thesis
    unfolding plugin_execute_def Let_def
  proof (rule stays_lift_bind, rule stays_lift_bind, rule stays_lift_bind, goal_cases)
    case (1 p u v)
    then have "runs (pr_command p)" by (intro assms) (auto simp: runnable_def)
    then show ?case by (auto intro!: leaves stays_try record_stays run split: prod.split)
  qed
qed

lemma exec_message_stays:
  assumes "\<And>c. runnable env (Request (if quick then ExecQuickCommand i command else ExecCommand i command stdin)) c \<Longrightarrow> runs c"
  shows "stays P (exec_ipc_command env quick i command stdin)"
proof (cases "gc_enabled (guard_of env) \<and> gc_require_for_exec (guard_of env) \<and>
    rd_requires_approval (classify_command command (guard_of env))")
  case True
  then show ?thesis by (simp add: exec_ipc_command_def Let_def stays_fail)
next
  case False
  then have "runs command" by (intro assms) (auto simp: runnable_def)
  with False show ?thesis
    unfolding exec_ipc_command_def Let_def
    by (auto intro!: stays_bind stays_leaves session_err_stays exec_command_steps quick_command_steps
        intro: session_use.executed session_use.quick)
qed

lemma create_stays: "stays P (create_ipc_session env name credential pty)"
  unfolding create_ipc_session_def
  by (intro respond_stays holds_map_err manager_stays) (auto intro: manager_step.created_connected create_steps)

lemma list_stays: "stays P (list_ipc_sessions env)"
proof -
  have "stays P (on_manager (\<lambda>(m, h). case list_sessions (ie_peer env) m h of (h, r) \<Rightarrow> ((m, h), r)))"
    unfolding holds_def
  proof (intro allI impI, goal_cases)
    case (1 w w' r)
    obtain h' r' where l: "list_sessions (ie_peer env) (iw_manager w) (iw_calls w) = (h', r')" by fastforce
    then have "ssh_step (\<lambda>_. False) (iw_calls w) h'"
      using holdsD [OF list_infos_steps [of "\<lambda>_. False" "iw_calls w"] _ l [unfolded list_sessions_def]] by (cases r') simp_all
    from called [OF 1(1) this] have "P (w\<lparr>iw_manager := iw_manager w, iw_calls := h'\<rparr>)" by (cases w) simp
    with 1(2) l show ?case by (auto simp: on_manager_def split: sum.split)
  qed
  then show ?thesis unfolding list_ipc_sessions_def by (rule respond_stays)
qed

lemma dispatch_stays:
  assumes "\<And>c. runnable env message c \<Longrightarrow> runs c"
  shows "stays P (dispatch_message env message)"
proof (cases message)
  case (Request request)
  have listed: "stays P list_servers" by (auto simp: holds_def list_servers_def)
  have killed: "stays P (kill_ipc_session env i)" for i
    unfolding kill_ipc_session_def
    by (intro stays_bind context_stays respond_stays holds_map_err manager_stays) (auto intro: manager_step.killed kill_steps)
  have detached: "stays P (respond f (on_session missing i (update_session (detach now))))" for f missing i now
    by (intro respond_stays session_stays) (auto simp: update_session_def intro: session_use.detached update_steps)
  have written: "stays P (send_ipc_input env i data)" for i data
    unfolding send_ipc_input_def
    by (intro respond_stays session_err_stays) (auto intro: session_use.written terminal_steps)
  have resized: "stays P (respond g (on_session missing i (smap_err f (resize_session_pty (ie_peer env) now cols rows))))"
    for f g missing i now cols rows
    by (intro respond_stays session_err_stays) (auto intro: session_use.resized terminal_steps)
  have saved: "stays P (create_saved_session env name)" for name
    unfolding create_saved_session_def by (intro stays_bind stays_lift create_stays)
  show ?thesis
    using assms unfolding Request dispatch_message_def ipc_message.case
    by (cases request)
      (auto simp: dispatch_request_def intro!: stays_fail listed killed detached written resized saved list_stays create_stays
        exec_message_stays plugin_stays sftp_stays service_stays respond_stays stays_bind stays_leaves)
next
  case (Response r)
  then show ?thesis by (simp add: dispatch_message_def stays_fail)
qed

end
section \<open>Handling keeps them too\<close>

lemma stays_if: "stays P m \<Longrightarrow> stays P n \<Longrightarrow> stays P (if b then m else n)"
  by simp

locale ipc_message_invariant = ipc_invariant +
  assumes tracked: "P w \<Longrightarrow> P (w\<lparr>iw_tracker := t\<rparr>)"
begin

lemma started_stays: "stays P (record_started env events)"
  by (induction events) (auto intro!: stays_bind stays_return record_stays)

lemma completed_stays: "P w \<Longrightarrow> P (record_completed env events w)"
proof (induction events arbitrary: w)
  case (Cons event events)
  obtain w1 r where "agent_activity_record env event w = (w1, r)" by fastforce
  with stays_at [OF record_stays this Cons.prems] Cons.IH show ?case by simp
qed simp

lemma rollback_stays: "P w \<Longrightarrow> P (rollback saved w)"
  by (cases saved) (simp_all add: rollback_def tracked)

lemma handle_stays:
  assumes "handle_message env message w = (w', r)" "P w" "\<And>c. runnable env message c \<Longrightarrow> runs c"
  shows "P w'"
proof -
  obtain w1 taken where t: "take_message env message w = (w1, taken)" by fastforce
  let ?events = "map (audit_event_of Started) (it_descriptions taken)"
  have request: "it_request taken = normalise_message message"
    using t by (auto simp: take_message_def take_input_def Let_def split: ipc_message.splits ipc_request.splits prod.splits)
  have "runnable env (normalise_message message) c \<Longrightarrow> runnable env message c" for c
    by (auto simp: normalise_message_def runnable_def Let_def split: ipc_message.splits ipc_request.splits)
  with assms(3) have runs: "\<And>c. runnable env (it_request taken) c \<Longrightarrow> runs c" unfolding request by blast
  have "P w1" using t assms(2)
    by (auto simp: take_message_def take_input_def Let_def tracked split: ipc_message.splits ipc_request.splits prod.splits)
  moreover obtain w2 q where s: "record_started env ?events w1 = (w2, q)" by fastforce
  ultimately have "P w2" using stays_at [OF started_stays] by blast
  show ?thesis
  proof (cases q)
    case (Inl e)
    with assms(1) t s \<open>P w2\<close> show ?thesis by (auto simp: handle_message_def Let_def rollback_stays)
  next
    case (Inr u)
    obtain w3 d where d: "(if it_denied taken then sfail denied_text else dispatch_message env (it_request taken)) w2 = (w3, d)"
      by fastforce
    have "stays P (if it_denied taken then sfail denied_text else dispatch_message env (it_request taken))"
      by (intro stays_if stays_fail dispatch_stays runs)
    from stays_at [OF this d \<open>P w2\<close>] have "P w3" .
    with assms(1) t s Inr d show ?thesis
      by (auto simp: handle_message_def finish_message_def Let_def completed_stays rollback_stays
          split: sum.splits option.splits)
  qed
qed

end

section \<open>The parts of the world\<close>

interpretation ipc_manager: ipc_message_invariant env "\<lambda>w. manager_inv (iw_manager w)" "\<lambda>_. True"
proof (unfold_locales, goal_cases)
  case (1 w m' h')
  from manager_step_inv [OF _ 1(2)] 1(1) show ?case by simp
next
  case (3 w ts i)
  then have "distinct (map fst (stop_all_for_session i ts))"
    by (auto simp: stop_all_for_session_eq manager_inv_def services_inv_def intro!: distinct_map_filter)
  with 3 show ?case by (auto simp: manager_inv_def services_inv_def sessions_inv_def)
qed simp_all

interpretation ipc_calls: ipc_message_invariant env "\<lambda>w. ssh_step runs h0 (iw_calls w)" runs
  by unfold_locales (auto intro: ssh_step_trans ssh_step_mono [of "\<lambda>_. False"])

interpretation ipc_audit: ipc_message_invariant env "\<lambda>w. prefix rows (iw_audit w)" "\<lambda>_. True"
  by unfold_locales auto

interpretation ipc_files: ipc_message_invariant env
  "\<lambda>w. \<forall>target content. WroteFile target content \<in> set (drop n (iw_local w)) \<longrightarrow> confined_target (ie_paths env) target" "\<lambda>_. True"
  by unfold_locales (auto dest!: in_set_dropD [of _ "_ - _"])

interpretation ipc_tracker: ipc_invariant env "\<lambda>w. iw_tracker w = t" "\<lambda>_. True"
  by unfold_locales simp_all

section \<open>The tracker\<close>

lemma started_tracker: "record_started env events w = (w', r) \<Longrightarrow> iw_tracker w' = iw_tracker w"
proof (induction events arbitrary: w)
  case (Cons event events)
  obtain w1 r1 where 1: "agent_activity_record env event w = (w1, r1)" by fastforce
  from stays_at [OF ipc_tracker.record_stays 1 refl] have "iw_tracker w1 = iw_tracker w" .
  with Cons 1 show ?case by (cases r1) (auto simp: sbind_def)
qed simp

lemma completed_tracker: "iw_tracker (record_completed env events w) = iw_tracker w"
proof (induction events arbitrary: w)
  case (Cons event events)
  obtain w1 r1 where 1: "agent_activity_record env event w = (w1, r1)" by fastforce
  from stays_at [OF ipc_tracker.record_stays 1 refl] Cons 1 show ?case by simp
qed simp

text \<open>An operation fails, or answers with something else than an error.\<close>

lemma sftp_no_error: "sftp_dispatch env i operation w \<noteq> (w', Inr (Some (IpcError e)))"
  by (cases operation) (auto simp: sftp_dispatch_def respond_def sbind_Inr sftp_init_def sftp_list_dir_def sftp_stat_def
      sftp_read_file_def sftp_change_def sftp_download_file_def sftp_upload_file_def sftp_upload_directory_def Let_def
      split: if_splits)

lemma Some_eq_map_option: "Some y = map_option f x \<longleftrightarrow> (\<exists>z. x = Some z \<and> y = f z)"
  by (cases x) auto

lemma dispatch_no_error: "dispatch_message env message w \<noteq> (w', Inr (Some (IpcError e)))"
proof (cases message)
  case (Request request)
  show ?thesis unfolding Request dispatch_message_def ipc_message.case
    by (cases request) (auto simp: dispatch_request_def respond_def sbind_Inr list_servers_def list_ipc_sessions_def
        create_saved_session_def create_ipc_session_def kill_ipc_session_def send_ipc_input_def exec_ipc_command_def
        sftp_no_error Some_eq_map_option Let_def split: if_splits)
qed (simp add: dispatch_message_def)

text \<open>A message that is answered with an error leaves the tracker as it was; another one leaves what it observed.\<close>

lemma handle_tracker:
  assumes "handle_message env message w = (w', r)" "take_message env message w = (w1, taken)"
  shows "iw_tracker w' = (case r of Some (IpcError _) \<Rightarrow> iw_tracker w | _ \<Rightarrow> iw_tracker w1)"
proof -
  let ?events = "map (audit_event_of Started) (it_descriptions taken)"
  have undone: "iw_tracker (rollback (it_checkpoint taken) v) = iw_tracker w" if "iw_tracker v = iw_tracker w1" for v
    using assms(2) that restore_after_observe
    by (auto simp: take_message_def take_input_def rollback_def Let_def split: ipc_message.splits ipc_request.splits prod.splits)
  obtain w2 q where s: "record_started env ?events w1 = (w2, q)" by fastforce
  note w2 = started_tracker [OF s]
  show ?thesis
  proof (cases q)
    case (Inl e)
    with assms s w2 undone [of w2] show ?thesis by (auto simp: handle_message_def Let_def)
  next
    case (Inr u)
    let ?run = "if it_denied taken then sfail denied_text else dispatch_message env (it_request taken)"
    obtain w3 d where d: "?run w2 = (w3, d)" by fastforce
    have "stays (\<lambda>w. iw_tracker w = iw_tracker w1) ?run"
      by (intro stays_if stays_fail ipc_tracker.dispatch_stays) simp
    from stays_at [OF this d w2] have w3: "iw_tracker w3 = iw_tracker w1" .
    have response: "response \<noteq> IpcError e" if "d = Inr (Some response)" for response e
      using d that dispatch_no_error [of env "it_request taken" w2] by (auto split: if_splits)
    with assms s Inr d w3 undone [of w3] show ?thesis
      by (auto simp: handle_message_def finish_message_def Let_def completed_tracker split: sum.splits option.splits ipc_reply.splits)
  qed
qed
end
