(* ===== verification/Gateway_Tools_Facts.thy ===== *)
theory Gateway_Tools_Facts
  imports Gateway_Tools Ipc_Safety
begin

text \<open>
  What every tool of \<open>Gateway_Tools\<close> keeps: the invariants of the world of the inter-process interface carry over, by
  the lemmas of \<open>Ipc_Safety\<close>, and the commands a call may start are those of \<open>tool_command\<close>.
\<close>

section \<open>Tools and the world below them\<close>

abbreviation over :: "(ipc_world \<Rightarrow> bool) \<Rightarrow> tool_world \<Rightarrow> bool" where
  "over P \<equiv> (\<lambda>w. P (tl_base w))"

lemma in_base_stays: "stays P m \<Longrightarrow> stays (over P) (in_base m)"
  by (fastforce simp: holds_def in_base_def split: prod.splits sum.splits)

lemma same_world_stays: "(\<And>w. fst (m w) = w) \<Longrightarrow> stays P m"
proof -
  assume same: "\<And>w. fst (m w) = w"
  have "w' = w" if "m w = (w', r)" for w w' r
    using same [of w] that by simp
  then show "stays P m" by (auto simp: holds_def split: sum.split)
qed

lemma pure_stays [simp]:
  "stays P (resolve_session i)" "stays P (resolve_server i)" "stays P (required n a)"
  by (rule same_world_stays; simp add: resolve_session_def resolve_server_def required_def slift_def)+

lemma read_stays: "stays P (\<lambda>w. (w, f w))"
  by (rule same_world_stays) simp

lemma stays_branch: "(b \<Longrightarrow> stays P m) \<Longrightarrow> (\<not> b \<Longrightarrow> stays P n) \<Longrightarrow> stays P (if b then m else n)"
  by simp

lemma always_stays: "stays P m \<Longrightarrow> stays P (always m)"
  unfolding always_def by (intro stays_bind stays_return)

lemma sbind_sbind: "sbind (sbind m f) g = sbind m (\<lambda>x. sbind (f x) g)"
  by (rule ext) (simp add: sbind_def split: prod.split sum.split)

lemma required_bind:
  "(\<And>x. arg_str n args = Some x \<Longrightarrow> stays P (k x)) \<Longrightarrow> stays P (sbind (required n args) k)"
  unfolding required_def by (rule stays_lift_bind) (auto simp: ok_or_def split: option.splits)

lemma stays_world: "(\<And>w. stays P (k w)) \<Longrightarrow> stays P (\<lambda>w. k w w)"
  by (simp add: holds_def)

lemma stays_option: "stays P n \<Longrightarrow> (\<And>x. stays P (k x)) \<Longrightarrow> stays P (case v of None \<Rightarrow> n | Some x \<Rightarrow> k x)"
  by (cases v) simp_all

lemma kill_each_steps: "stays (ssh_kept runs h0) (kill_each peer at updated ids)"
  by (induction ids) (auto intro!: stays_bind stays_return kill_steps)

lemma kill_by_server_steps: "stays (ssh_kept runs h0) (kill_by_server_id peer at updated i)"
  unfolding kill_by_server_id_def [abs_def] Let_def
  by (rule stays_world) (intro stays_bind stays_return kill_each_steps)

lemma close_all_steps: "stays (ssh_kept runs h0) (close_all peer at updated ss)"
proof (induction ss)
  case (Cons x ss)
  obtain i s where x: "x = (i, s)" by (cases x)
  show ?case
    unfolding holds_def
  proof (intro allI impI, goal_cases)
    case (1 w w' r)
    obtain m h where w: "w = (m, h)" by (cases w)
    obtain s1 h1 r1 where d: "disconnect_session peer (s, h) = ((s1, h1), r1)" by (metis surj_pair)
    have "ssh_step runs h0 h1" using holdsD [OF disconnect_steps _ d, of runs h0] 1(1) w by (cases r1) simp_all
    with 1(2) w x d have "close_all peer at updated ss (run_lifecycle_cleanup at updated i m, h1) = (w', r)"
      by (simp add: Let_def)
    from stays_at [OF Cons this] \<open>ssh_step runs h0 h1\<close> show ?case by (cases r) simp_all
  qed
qed (simp add: holds_def)

lemma kill_all_steps: "stays (ssh_kept runs h0) (kill_all peer at updated)"
  using holdsD [OF close_all_steps [of runs h0 peer at updated]] by (force simp: holds_def kill_all_def)

lemma list_sessions_steps: "list_sessions peer m h = (h', r) \<Longrightarrow> ssh_step runs h h'"
  using holdsD [OF list_infos_steps [of runs h peer "map snd (sm_sessions m)"], of h h' r]
  by (cases r) (simp_all add: list_sessions_def)

lemma state_steps: "stays (ssh_kept runs h0) (get_state peer)"
proof -
  have "stays (ssh_kept runs h0) (is_shell_open peer)"
    unfolding is_shell_open_def by (auto intro!: stays_bind step_leaves connected_steps)
  then show ?thesis
    unfolding get_state_def [abs_def]
    by (intro stays_bind stays_cond stays_read with_client_steps) (auto intro!: stays_leaves)
qed

lemma collect_steps: "stays (ssh_step runs h0) (collect_reusable peer name at ss)"
proof (induction ss)
  case (Cons s ss)
  have "stays (ssh_step runs h0) (\<lambda>h. case get_state peer (s, h) of ((_, h), r) \<Rightarrow> (h, r))"
    using state_steps [of runs h0 peer] unfolding holds_def by (fastforce split: prod.splits sum.splits)
  with Cons show ?case by (auto intro!: stays_bind stays_leaves)
qed (simp add: stays_return)

lemma reusable_steps: "find_reusable_by_server_name peer name m h = (h', r) \<Longrightarrow> ssh_step runs h h'"
proof -
  have "stays (ssh_step runs h) (find_reusable_by_server_name peer name m)"
    unfolding find_reusable_by_server_name_def Let_def by (intro stays_bind stays_return collect_steps)
  then show "find_reusable_by_server_name peer name m h = (h', r) \<Longrightarrow> ssh_step runs h h'"
    by (auto dest: stays_at)
qed

locale tool_invariant =
  now: ipc_message_invariant "te_ipc env" P runs + later: ipc_invariant "te_later env" P runs
  for env :: "'v tool_env" and P :: "ipc_world \<Rightarrow> bool" and runs :: "string \<Rightarrow> bool" +
  assumes connected: "P w \<Longrightarrow> manager_step senv (ie_peer (te_ipc env)) (iw_manager w, iw_calls w) (m', h') \<Longrightarrow>
      ssh_step runs (iw_calls w) h' \<Longrightarrow> P (w\<lparr>iw_manager := m', iw_calls := h'\<rparr>)"
begin

lemma database_stays: "stays (over P) (change_database env f)"
proof -
  have "P (b\<lparr>iw_manager := (iw_manager b)\<lparr>sm_database := d\<rparr>\<rparr>)" if "P b" for b d
    using now.managed [OF that manager_step.database_changed, of d] by simp
  then show ?thesis by (auto simp: holds_def change_database_def set_database_def split: sum.splits prod.splits)
qed

lemma gateway_stays: "stays (over P) (in_gateway f)"
proof -
  have "P (b\<lparr>iw_tracker := t, iw_audit := iw_audit b @ es\<rparr>)" if "P b" for b t es
    using now.audited [OF now.tracked [OF that, of t], of es] by simp
  then show ?thesis by (auto simp: holds_def in_gateway_def leave_gateway_def split: prod.splits sum.split)
qed

lemma approved_stays: "stays (over P) (approved_by_user env tool i command reasons)"
  unfolding approved_by_user_def [abs_def] by (rule stays_world) (rule gateway_stays)

lemma sftp_request_stays: "stays (over P) (on_sftp env i operation)"
  by (auto simp: holds_def on_sftp_def now.requested split: prod.splits sum.split)

lemma open_stays: "stays (over P) (open_sftp_for_session env i)"
  unfolding open_sftp_for_session_def
  by (intro stays_bind holds_map_err in_base_stays now.session_stays sftp_request_stays stays_leaves pure_stays)
    (auto intro: session_use.sftp open_sftp_steps)

lemma remote_stays: "stays (over P) (in_remote env reference path operation answer)"
  unfolding in_remote_def
  by (auto intro!: stays_bind open_stays sftp_request_stays stays_leaves split: prod.split)

lemmas tool_leaves = stays_bind stays_leaves stays_option pure_stays remote_stays open_stays sftp_request_stays database_stays

lemma file_tools_stay:
  "stays (over P) (tool_sftp_ls env args)" "stays (over P) (tool_sftp_upload env args)"
  "stays (over P) (tool_sftp_upload_directory env args mode)" "stays (over P) (tool_sftp_mkdir env args)"
  "stays (over P) (tool_sftp_rm env args)" "stays (over P) (tool_sftp_mv env args)" "stays (over P) (tool_sftp_read env args)"
  "stays (over P) (tool_sftp_write env args)" "stays (over P) (tool_add_file env args)" "stays (over P) (tool_edit_file env args)"
  unfolding tool_sftp_ls_def tool_sftp_upload_def tool_sftp_upload_directory_def tool_sftp_mkdir_def tool_sftp_rm_def
    tool_sftp_mv_def tool_sftp_read_def tool_sftp_write_def tool_add_file_def tool_edit_file_def Let_def
  by (auto intro!: tool_leaves split: prod.split)

lemma download_tool_stays: "stays (over P) (tool_sftp_download env args)"
proof -
  have dirs: "stays P (\<lambda>w. (w\<lparr>iw_local := iw_local w @ [MadeDirs parent]\<rparr>, r))" for parent and r :: "string + unit"
    by (auto simp: holds_def intro!: now.changed_locally split: sum.split)
  have written: "stays P (\<lambda>w. (w\<lparr>iw_local := iw_local w @ [WroteFile target content]\<rparr>, r))"
    if "confined_target (ie_paths (te_ipc env)) target" for target content and r :: "string + unit"
    using that by (auto simp: holds_def intro!: now.changed_locally split: sum.split)
  have "stays P (save_to_target (te_ipc env) target content)"
    if "confine_download_target (ie_paths (te_ipc env)) local_path = Inr target" for local_path target content
    unfolding save_to_target_def using that
    by (intro stays_bind stays_lift_bind written stays_option stays_return dirs) (auto simp: confined_target_def)
  then show ?thesis
    unfolding tool_sftp_download_def
    by (intro stays_bind stays_lift_bind) (auto intro!: tool_leaves in_base_stays split: prod.split)
qed

lemma server_tools_stay:
  "stays (over P) (tool_server_list env args)" "stays (over P) (tool_server_add env args)"
  "stays (over P) (tool_server_get env args)" "stays (over P) (tool_server_update env args)"
proof -
  show "stays (over P) (tool_server_list env args)"
    by (rule same_world_stays) (simp add: tool_server_list_def Let_def)
  show "stays (over P) (tool_server_add env args)" "stays (over P) (tool_server_get env args)"
    unfolding tool_server_add_def tool_server_get_def
    by (auto intro!: tool_leaves read_stays)
  show "stays (over P) (tool_server_update env args)"
    unfolding tool_server_update_def
    by (auto intro!: tool_leaves stays_world [where k = "\<lambda>w. sbind (slift (ok_or (server_find _ (sm_database (manager_of w))) _)) _"])
qed

lemma deleting_stays: "stays (over P) (tool_server_delete env args)"
proof -
  have "stays P (on_manager (kill_by_server_id (ie_peer (te_ipc env)) at updated i))" for at updated i
    by (rule now.manager_stays) (auto intro: manager_step.server_deleted kill_by_server_steps)
  then show ?thesis
    unfolding tool_server_delete_def by (intro stays_bind holds_map_err in_base_stays) (auto intro!: tool_leaves)
qed

lemma log_read_stays:
  assumes "\<And>m h h' r. read m h = (h', r) \<Longrightarrow> ssh_step (\<lambda>_. False) h h'"
  shows "stays (over P) (in_base (on_manager (\<lambda>(m, h). case read m h of (h, r) \<Rightarrow> ((m, h), r))))"
proof (rule in_base_stays, unfold holds_def, intro allI impI, goal_cases)
  case (1 w w' r)
  obtain h' r' where l: "read (iw_manager w) (iw_calls w) = (h', r')" by fastforce
  from now.called [OF 1(1) assms [OF l]] have "P (w\<lparr>iw_manager := iw_manager w, iw_calls := h'\<rparr>)" by (cases w) simp
  with 1(2) l show ?case by (auto simp: on_manager_def split: sum.split)
qed

lemma summary_stays: "stays (over P) (session_summary env i)"
  unfolding session_summary_def
  by (intro stays_bind in_base_stays now.session_stays stays_leaves) (auto intro: session_use.state_read info_steps)

lemma connect_tool_stays: "stays (over P) (connect_tool env server_name)"
proof -
  have create: "stays P (on_manager (create_with_credentials denv (ie_peer (te_ipc env)) uuid at clock server_name credential pty))"
    for denv uuid at clock credential pty
    unfolding holds_def
  proof (intro allI impI, goal_cases)
    case (1 w w' r)
    obtain m' h' r' where m: "create_with_credentials denv (ie_peer (te_ipc env)) uuid at clock server_name credential pty
        (iw_manager w, iw_calls w) = ((m', h'), r')"
      by (metis surj_pair)
    have "ssh_step runs (iw_calls w) h'"
      using holdsD [OF create_steps _ m, of runs "iw_calls w"] by (cases r') simp_all
    with connected [OF 1(1) manager_step.created_connected [OF m]] 1(2) m show ?case
      by (auto simp: on_manager_def split: sum.split)
  qed
  show ?thesis
    unfolding connect_tool_def [abs_def] Let_def
    by (rule stays_world) (intro stays_bind stays_leaves holds_map_err in_base_stays create summary_stays)
qed

lemma session_tools_stay:
  "stays (over P) (tool_session_list env)" "stays (over P) (tool_session_create env args)"
  "stays (over P) (tool_session_attach env args)" "stays (over P) (tool_session_detach env args)"
  "stays (over P) (tool_session_kill env args)"
proof -
  show "stays (over P) (tool_session_list env)"
    unfolding tool_session_list_def
    by (intro stays_bind log_read_stays stays_leaves) (rule list_sessions_steps)
  have "stays (over P) (reused_session env server_name)" for server_name
    unfolding reused_session_def by (rule log_read_stays) (rule reusable_steps)
  moreover have "stays (over P) (server_name_of args)"
    unfolding server_name_of_def by (intro stays_option stays_bind stays_leaves pure_stays read_stays)
  ultimately show "stays (over P) (tool_session_create env args)"
    unfolding tool_session_create_def
    by (auto intro!: tool_leaves summary_stays connect_tool_stays)
  have change: "stays (over P) (in_base (on_session missing i (sbind (update_session change) (\<lambda>_ (s, h). ((s, h), Inr (sn_client_count s))))))"
    if "\<And>s h. session_use (ie_peer (te_ipc env)) (s, h) (change s, h)" for missing i change
    by (intro in_base_stays now.session_stays)
      (auto simp: sbind_def update_session_def holds_def that)
  show "stays (over P) (tool_session_attach env args)" "stays (over P) (tool_session_detach env args)"
    unfolding tool_session_attach_def tool_session_detach_def client_change_def
    by (intro stays_bind stays_leaves pure_stays change session_use.attached session_use.detached)+
  have "stays P (on_manager (kill (ie_peer (te_ipc env)) at updated i))" "stays P (on_manager (kill_all (ie_peer (te_ipc env)) at updated))"
    for at updated i
    by (rule now.manager_stays; auto intro: manager_step.killed kill_steps manager_step.all_killed kill_all_steps)+
  then show "stays (over P) (tool_session_kill env args)"
    unfolding tool_session_kill_def
    by (auto intro!: tool_leaves in_base_stays)
qed

lemma terminal_tools_stay:
  "stays (over P) (run_send_input env args)" "stays (over P) (run_session_read env args)"
  "stays (over P) (run_session_resize env args)"
proof -
  have written: "stays (over P) (in_base (on_session missing i (write_to_ssh (ie_peer (te_ipc env)) clock bytes)))"
    and resized: "stays (over P) (in_base (on_session missing i (resize_session_pty (ie_peer (te_ipc env)) clock cols rows)))"
    for missing i clock bytes cols rows
    by (intro in_base_stays now.session_stays; auto intro: session_use.written session_use.resized terminal_steps)+
  show "stays (over P) (run_session_read env args)"
    by (rule same_world_stays) (simp add: run_session_read_def Let_def)
  show "stays (over P) (run_session_resize env args)"
    unfolding holds_def run_session_resize_def Let_def
    by (auto split: sum.splits prod.splits dest: stays_at [OF resized])
  show "stays (over P) (run_send_input env args)"
    unfolding holds_def run_send_input_def Let_def
    by (auto split: option.splits prod.splits simp: split_paired_all dest: stays_at [OF written] stays_at [OF gateway_stays])
qed

lemma run_command_stays: "runs command \<Longrightarrow> stays (over P) (run_command env i command timeout_ms)"
  unfolding run_command_def
  by (intro stays_bind holds_map_err in_base_stays now.exec_stays stays_leaves)

end

text \<open>The commands a call of a tool may start over SSH.\<close>

definition tool_command :: "'v tool_env \<Rightarrow> string \<Rightarrow> json \<Rightarrow> string \<Rightarrow> bool" where
  "tool_command env name args c \<longleftrightarrow>
     name = ''exec'' \<and> arg_str ''command'' args = Some c \<or>
     name = ''rg'' \<and> (\<exists>p. arg_str ''pattern'' args = Some p \<and> c = build_remote_rg_command (search_options_of p args)) \<or>
     name = ''plugin_execute'' \<and> (\<exists>q i. te_plugin_request env args = Inr q \<and>
       (runnable (te_ipc env) (Request (PluginExecute (q\<lparr>rq_session_id := i, rq_confirmed := False\<rparr>))) c \<or>
        runnable (te_later env) (Request (PluginExecute (q\<lparr>rq_session_id := i, rq_confirmed := True\<rparr>))) c))"

context tool_invariant
begin

lemma run_exec_stays:
  assumes "\<And>c. tool_command env ''exec'' args c \<Longrightarrow> runs c"
  shows "stays (over P) (run_exec env args)"
  unfolding run_exec_def Let_def
proof (rule required_bind, rule required_bind, rule stays_bind [OF pure_stays(1)], goal_cases)
  case (1 reference command s)
  then have "runs command" by (intro assms) (simp add: tool_command_def)
  then show ?case by (intro stays_bind stays_if approved_stays gateway_stays run_command_stays stays_return)
qed

lemma rg_stays:
  assumes "\<And>c. tool_command env ''rg'' args c \<Longrightarrow> runs c"
  shows "stays (over P) (tool_remote_rg env args)"
  unfolding tool_remote_rg_def
proof (rule required_bind, rule required_bind, rule stays_bind [OF pure_stays(1)], goal_cases)
  case (1 reference pattern s)
  then show ?case by (intro run_command_stays assms) (simp add: tool_command_def)
qed

lemma run_plugin_stays:
  assumes "\<And>c. tool_command env ''plugin_execute'' args c \<Longrightarrow> runs c"
  shows "stays (over P) (run_plugin env args)"
proof -
  have run: "stays (over P) (in_base (plugin_execute (te_ipc env) (q\<lparr>rq_session_id := i, rq_confirmed := False\<rparr>) source reviewed))"
    "stays (over P) (in_base (plugin_execute (te_later env) (q\<lparr>rq_session_id := i, rq_confirmed := True\<rparr>) source reviewed))"
    if "te_plugin_request env args = Inr q" for q i source reviewed
    using that
    by (auto intro!: in_base_stays now.plugin_stays later.plugin_stays assms simp: tool_command_def)
  have lifted: "stays (over P) (case result of None \<Rightarrow> sreturn None | Some res \<Rightarrow> slift (f res))" for result and f :: "_ \<Rightarrow> string + string option"
    by (intro stays_option stays_leaves)
  show ?thesis
    unfolding run_plugin_def Let_def
  proof (rule stays_lift_bind, goal_cases)
    case (1 q)
    then have q: "te_plugin_request env args = Inr q" by (cases "te_plugin_request env args") auto
    have same: "q\<lparr>rq_confirmed := b\<rparr> = q\<lparr>rq_session_id := rq_session_id q, rq_confirmed := b\<rparr>"
      "q\<lparr>rq_confirmed := b, rq_session_id := i\<rparr> = q\<lparr>rq_session_id := i, rq_confirmed := b\<rparr>" for b i by (cases q; simp)+
    note both = run [OF q] run [OF q, folded same(2)] run [OF q, of "rq_session_id q", folded same(1)]
    show ?case
      by (cases "pe_is_local (plugin_env_of (te_ipc env)) (rq_session_id q)")
        (auto intro!: stays_bind stays_leaves stays_if approved_stays pure_stays both lifted simp: sreturn_bind sbind_sbind)
  qed
qed

lemma record_event_stays: "stays (over P) (record_event env event)"
  unfolding record_event_def by (intro holds_map_err in_base_stays now.record_stays)

lemma plugin_queries_stay: "stays P' (run_plugin_list env args)" "stays P' (run_plugin_describe env args)"
  unfolding run_plugin_list_def run_plugin_describe_def by (rule stays_lift)+

lemma execute_tool_stays:
  assumes "\<And>c. tool_command env name args c \<Longrightarrow> runs c"
  shows "stays (over P) (execute_tool env name args)"
  unfolding execute_tool_def
  by (intro stays_branch always_stays plugin_queries_stay server_tools_stay deleting_stays session_tools_stay terminal_tools_stay
      file_tools_stay download_tool_stays stays_fail run_exec_stays rg_stays run_plugin_stays) (simp_all add: assms)

lemma run_tool_stays:
  assumes "run_tool env name args w = (w', r)" "P (tl_base w)" "\<And>c. tool_command env name args c \<Longrightarrow> runs c"
  shows "P (tl_base w')"
proof -
  obtain w1 q where e: "execute_tool env name args w = (w1, q)" by fastforce
  from stays_at [OF execute_tool_stays [OF assms(3)] e assms(2)] have "P (tl_base w1)" .
  then have "P (tl_base (fst (record_event env event w1)))" for event
    by (rule stays_at [OF record_event_stays surjective_pairing])
  with assms(1) e \<open>P (tl_base w1)\<close> show ?thesis
    by (auto simp: run_tool_def Let_def split: sum.splits option.splits)
qed

lemma call_stays:
  assumes "handle_tools_call env params w = (w', r)" "P (tl_base w)"
    "\<And>p name c. params = Some p \<Longrightarrow> arg_str ''name'' p = Some name \<Longrightarrow>
       tool_command env name (given_or (arg ''arguments'' p) (JObject [])) c \<Longrightarrow> runs c"
  shows "P (tl_base w')"
proof (cases "\<exists>p name. params = Some p \<and> arg_str ''name'' p = Some name")
  case False
  with assms(1,2) show ?thesis by (auto simp: handle_tools_call_def split: option.splits)
next
  case True
  then obtain p name where p: "params = Some p" "arg_str ''name'' p = Some name" by blast
  let ?args = "given_or (arg ''arguments'' p) (JObject [])"
  obtain w1 q where s: "record_event env (tool_event name ?args (arg_str ''session_id'' ?args) Started) w = (w1, q)" by fastforce
  from stays_at [OF record_event_stays this assms(2)] have w1: "P (tl_base w1)" .
  obtain w2 t where t: "run_tool env name ?args w1 = (w2, t)" by fastforce
  from run_tool_stays [OF this w1 assms(3) [OF p]] assms(1) p s w1 t show ?thesis
    by (auto simp: handle_tools_call_def Let_def split: sum.splits)
qed

end

section \<open>The parts of the world\<close>

interpretation tools_calls: tool_invariant env "\<lambda>w. ssh_step runs h0 (iw_calls w)" runs
  by unfold_locales (auto intro: ssh_step_trans ssh_step_mono [of "\<lambda>_. False"])

interpretation tools_manager: tool_invariant env "\<lambda>w. manager_inv (iw_manager w)" "\<lambda>_. True"
  by unfold_locales (use manager_step_inv in \<open>force intro: ipc_manager.untunnelled\<close>)+

interpretation tools_audit: tool_invariant env "\<lambda>w. prefix rows (iw_audit w)" "\<lambda>_. True"
  by unfold_locales auto

end
