(* ===== verification/Session_Results.thy ===== *)
theory Session_Results
  imports Session_Safety
begin

text \<open>
  The properties of sessions: what reaches a server and when, what a failed connection leaves, what closing
  and resolving do, what the manager keeps over every sequence of operations, and what a command returns.
  The facts they rest on are in \<^verbatim>\<open>Session_Safety\<close>.
\<close>

section \<open>A concrete peer\<close>

text \<open>For the witnesses: a server behind a jump host, a trust file that holds both keys, and a peer that
  presents one key everywhere and accepts what the handler has accepted.\<close>

definition sample_peer :: "channel_message \<Rightarrow> ssh_peer" where
  "sample_peer reply =
     \<lparr>pr_presented = (\<lambda>_. Inr \<lparr>ky_fingerprint = ''SHA256:abc'', ky_algorithm = ''ssh-ed25519''\<rparr>),
      pr_file = (\<lambda>_. Content ''store''),
      pr_established = (\<lambda>h. case last h of FinishHandshake _ (Inr True) \<Rightarrow> Ready | _ \<Rightarrow> Refused []),
      pr_auth = (\<lambda>_. Inr True), pr_keyboard = (\<lambda>_. Inr KbFailure), pr_rsa_hash = (\<lambda>_. Inr None), pr_done = (\<lambda>_. Inr ()),
      pr_message = (\<lambda>_. Inr (Some reply)), pr_closed = (\<lambda>_. False), pr_bridge = (\<lambda>_. Inr 4022), pr_patience = 3\<rparr>"

lemma sample_peer_ok: "russh_ok (sample_peer reply)"
  by (auto simp: russh_ok_def sample_peer_def split: sum.splits bool.splits)

definition sample_codec :: codec where
  "sample_codec =
     \<lparr>from_str = (\<lambda>_. Some [(''db:22'', sample_key), (''gw:22'', sample_key\<lparr>sf_host := ''gw''\<rparr>)]), to_pretty = (\<lambda>_. ''store'')\<rparr>"

definition sample_session_env :: session_env where
  "sample_session_env =
     \<lparr>sx_ssh = \<lparr>se_uni = id, se_codec = sample_codec, se_decode_key = (\<lambda>key _. Inr key)\<rparr>, sx_store = Inr (),
      sx_credential = (\<lambda>name. Inr (Some \<lparr>cd_server_name = name, cd_auth_type = ''password'', cd_credential = ''gate'',
        cd_passphrase = None, cd_key_path = None\<rparr>)),
      sx_read_file = (\<lambda>_. Inl ''missing'')\<rparr>"

definition sample_server :: "string \<Rightarrow> string option \<Rightarrow> server_row" where
  "sample_server host jump =
     \<lparr>sr_name = host, sr_host = host, sr_port = 22, sr_username = ''root'', sr_auth_type = ''password'', sr_credential_id = None,
      sr_group_id = None, sr_tags = [], sr_created_at = 0, sr_updated_at = 0, sr_jump_host_id = jump,
      sr_post_login_command = None, sr_agent_forwarding = False\<rparr>"

definition sample_manager :: session_manager where
  "sample_manager =
     \<lparr>sm_sessions = [],
      sm_database = \<lparr>db_metadata = undefined, db_states = [], db_outbox = [], db_vaults = Map.empty, db_uploads = Map.empty,
        db_servers = [(''s1'', sample_server ''db'' (Some ''s2'')), (''s2'', sample_server ''gw'' None)], db_groups = [], db_snippets = [],
        db_plugins = [], db_credentials = None, db_draws = 0\<rparr>,
      sm_tunnels = None, sm_logger = None\<rparr>"

lemma sample_gateway [simp]: "host_key id ''gw'' 22 = ''gw:22''"
proof -
  have "ascii ''gw''" "to_ascii_lowercase ''gw'' = ''gw''" "show_nat 22 = ''22''" by code_simp+
  then show ?thesis by (simp add: host_key_def to_lowercase_def)
qed

lemmas client_ops = sbind_def set_client_def client_def call_def next_number_def stry_def sreturn_def sfail_def slift_def ask_def

lemma sample_establish:
  assumes "sc_host_key_check c = Some (target, 22)" "target = ''db'' \<or> target = ''gw''"
  shows "establish_connection (sx_ssh sample_session_env) (sample_peer reply) host port (c, h) =
    ((c\<lparr>sc_host_key_rejection := None, sc_server_key := Some \<lparr>ky_fingerprint = ''SHA256:abc'', ky_algorithm = ''ssh-ed25519''\<rparr>\<rparr>,
      h @ [KeyExchange host port, ReadStore, FinishHandshake (length h) (Inr True)]), Inr (length h))"
proof -
  let ?key = "\<lparr>ky_fingerprint = ''SHA256:abc'', ky_algorithm = ''ssh-ed25519''\<rparr>"
  have "read_snapshot (se_codec (sx_ssh sample_session_env)) (Content ''store'') =
      Inr [(''db:22'', sample_key), (''gw:22'', sample_key\<lparr>sf_host := ''gw''\<rparr>)]"
    by (simp add: sample_session_env_def sample_codec_def read_snapshot_def ok_or_def)
  moreover have "verify (se_uni (sx_ssh sample_session_env)) [(''db:22'', sample_key), (''gw:22'', sample_key\<lparr>sf_host := ''gw''\<rparr>)]
      target 22 ''SHA256:abc'' ''ssh-ed25519'' = Trusted"
    using assms(2) by (auto simp: sample_session_env_def verify_def decide_host_key_def sample_key_def)
  ultimately show ?thesis using assms(1)
    by (simp add: establish_connection_run check_server_key_run Let_def sample_peer_def evaluate_host_key_def)
qed

lemmas sample_setup = connect_server_def open_jump_bridge_def connect_target_def run_client_def verified_client_def connect_with_def
  connect_password_def clear_server_key_def client_ops authenticate_with_password_def from_stored_def log_call_def set_host_key_check_def
  open_shell_def session_channel_def channel_accepted_def server_get_def rbind_def ok_or_def new_client_def Let_def

lemma sample_fields:
  "sr_host (sample_server host jump) = host" "sr_port (sample_server host jump) = 22" "sr_username (sample_server host jump) = ''root''"
  "sr_name (sample_server host jump) = host" "sr_jump_host_id (sample_server host jump) = jump"
  "sx_store sample_session_env = Inr ()"
  "sx_credential sample_session_env name = Inr (Some \<lparr>cd_server_name = name, cd_auth_type = ''password'', cd_credential = ''gate'',
     cd_passphrase = None, cd_key_path = None\<rparr>)"
  "db_servers (sm_database sample_manager) = [(''s1'', sample_server ''db'' (Some ''s2'')), (''s2'', sample_server ''gw'' None)]"
  "sm_sessions sample_manager = []"
  by (simp_all add: sample_server_def sample_session_env_def sample_manager_def)

lemma sample_answers:
  "pr_auth (sample_peer reply) h = Inr True" "pr_done (sample_peer reply) h = Inr ()" "pr_bridge (sample_peer reply) h = Inr 4022"
  "pr_message (sample_peer reply) h = Inr (Some reply)" "pr_patience (sample_peer reply) = Suc (Suc (Suc 0))"
  by (simp_all add: sample_peer_def numeral_3_eq_3)

lemma sample_connected:
  "\<exists>c. connect_server sample_session_env (sample_peer MsgSuccess) (sm_database sample_manager) (sample_server ''db'' (Some ''s2''))
     (Password ''hunter2'') None [] =
     ([KeyExchange ''gw'' 22, ReadStore, FinishHandshake 0 (Inr True), AuthPassword 0 ''root'' ''gate'', DirectTcpip 0 ''db'' 22, BindBridge,
       KeyExchange ''127.0.0.1'' 4022, ReadStore, FinishHandshake 6 (Inr True), AuthPassword 6 ''root'' ''hunter2'', OpenSession 6,
       RequestPty 10 default_pty_config, WaitMessage 10, RequestShell 10, WaitMessage 10], Inr c) \<and> sc_session c = Some 6"
  by (simp add: sample_setup sample_establish sample_fields sample_answers)

lemma sample_not_connected:
  "connect_server sample_session_env (sample_peer MsgFailure) (sm_database sample_manager) (sample_server ''db'' (Some ''s2''))
     (Password ''hunter2'') None [] =
     ([KeyExchange ''gw'' 22, ReadStore, FinishHandshake 0 (Inr True), AuthPassword 0 ''root'' ''gate'', DirectTcpip 0 ''db'' 22, BindBridge,
       KeyExchange ''127.0.0.1'' 4022, ReadStore, FinishHandshake 6 (Inr True), AuthPassword 6 ''root'' ''hunter2'', OpenSession 6,
       RequestPty 10 default_pty_config, WaitMessage 10, ChannelClose 10, AbortBridge 4022], Inl ''Server rejected PTY request'')"
  by (simp add: sample_setup sample_establish sample_fields sample_answers)

section \<open>Connecting\<close>

lemma length_filter_mono: "(\<And>x. P x \<Longrightarrow> Q x) \<Longrightarrow> length (filter P xs) \<le> length (filter Q xs)"
  by (induction xs) auto

lemma create_run:
  assumes "create_with_credentials env peer uuid at now server_name credential pty (m, h) = ((m', h'), r)"
    and "server_get_by_name (sm_database m) server_name = Some (sid, server)"
  shows "\<exists>r'. connect_server env peer (sm_database m) server credential pty h = (h', r') \<and>
    (\<forall>e. r = Inl e \<longrightarrow> r' = Inl e \<and> m' = m)"
proof -
  obtain h1 r1 where run: "connect_server env peer (sm_database m) server credential pty h = (h1, r1)" by fastforce
  with assms show ?thesis by (cases r1) (auto simp: create_with_credentials_def Let_def)
qed

text \<open>C3: a secret is only ever sent over a connection whose host key the trust file, read during that
  very handshake, holds for the server the secret belongs to: the given credential for the server that is
  connected, the saved credential of its jump host for the jump host, and neither for the other.  In
  particular the target behind a jump host is checked under its own name and port, not under those of the
  local bridge.  This holds whatever the servers answer; of the SSH library it is used that a connection
  is handed out only if the handler accepted its key.\<close>

theorem secrets_reach_only_their_server:
  assumes "russh_ok peer"
    and "create_with_credentials env peer uuid at now server_name credential pty (m, h) = ((m', h'), r)"
    and "server_get_by_name (sm_database m) server_name = Some (sid, server)"
    and "length h \<le> n" "n < length h'" "(i, secret) \<in> secrets_in (h' ! n)"
  shows "\<exists>identity. (identity, secret) \<in> allowed_secrets env (sm_database m) server credential \<and>
    trusted_connection (sx_ssh env) peer (take n h') i identity"
proof -
  from create_run [OF assms(2,3)] obtain r' where
    run: "connect_server env peer (sm_database m) server credential pty h = (h', r')" by blast
  from stays_at [OF connect_server_confined [OF assms(1) subset_refl] run confined_start] assms(4-6)
  show ?thesis unfolding confined_def by blast
qed

theorem secrets_reach_only_their_server_witness:
  "\<exists>s' h' r. create_with_credentials sample_session_env (sample_peer MsgSuccess) ''u'' 0 0 ''db'' (Password ''hunter2'') None
       (sample_manager, []) = ((s', h'), r) \<and> (6, ''hunter2'') \<in> secrets_in (h' ! 9) \<and>
     (\<exists>identity. (identity, ''hunter2'') \<in> allowed_secrets sample_session_env (sm_database sample_manager)
          (sample_server ''db'' (Some ''s2'')) (Password ''hunter2'') \<and>
        trusted_connection (sx_ssh sample_session_env) (sample_peer MsgSuccess) (take 9 h') 6 identity)"
proof -
  have found: "server_get_by_name (sm_database sample_manager) ''db'' = Some (''s1'', sample_server ''db'' (Some ''s2''))"
    by (simp add: server_get_by_name_def sample_fields)
  obtain s' h' r where run: "create_with_credentials sample_session_env (sample_peer MsgSuccess) ''u'' 0 0 ''db'' (Password ''hunter2'') None
       (sample_manager, []) = ((s', h'), r)" by (metis surj_pair)
  with sample_connected found have h: "length h' = 15" "h' ! 9 = AuthPassword 6 ''root'' ''hunter2''"
    by (auto simp: create_with_credentials_def Let_def)
  have "(6, ''hunter2'') \<in> secrets_in (h' ! 9)" by (simp add: h secrets_in_def)
  with secrets_reach_only_their_server [OF sample_peer_ok run found _ _ this] h run show ?thesis by auto
qed

text \<open>C27: a connection attempt that fails leaves nothing behind: the manager is unchanged, and every
  local bridge to a jump host that was opened during the attempt has been aborted.\<close>

theorem failed_session_leaves_nothing:
  assumes "create_with_credentials env peer uuid at now server_name credential pty (m, h) = ((m', h'), Inl e)"
  shows "m' = m \<and> (\<forall>n port. length h \<le> n \<longrightarrow> n < length h' \<longrightarrow> h' ! n = BindBridge \<longrightarrow>
    pr_bridge peer (take (Suc n) h') = Inr port \<longrightarrow> AbortBridge port \<in> set (drop n h'))"
proof (cases "server_get_by_name (sm_database m) server_name")
  case None
  with assms show ?thesis by (simp add: create_with_credentials_def)
next
  case (Some found)
  obtain sid server where found: "found = (sid, server)" by (cases found)
  from create_run [OF assms Some [unfolded found]] have
    run: "connect_server env peer (sm_database m) server credential pty h = (h', Inl e)" and same: "m' = m" by auto
  have "bridges_closed peer (length h) None h" by (simp add: bridges_closed_def)
  from holdsD [OF connect_server_closed this run] have "bridges_closed peer (length h) None h'" by simp
  with same show ?thesis unfolding bridges_closed_def by auto
qed

theorem failed_session_leaves_nothing_witness:
  "\<exists>h' e. create_with_credentials sample_session_env (sample_peer MsgFailure) ''u'' 0 0 ''db'' (Password ''hunter2'') None
       (sample_manager, []) = ((sample_manager, h'), Inl e) \<and> AbortBridge 4022 \<in> set (drop 5 h')"
proof -
  have found: "server_get_by_name (sm_database sample_manager) ''db'' = Some (''s1'', sample_server ''db'' (Some ''s2''))"
    by (simp add: server_get_by_name_def sample_fields)
  obtain s' h' e where run: "create_with_credentials sample_session_env (sample_peer MsgFailure) ''u'' 0 0 ''db'' (Password ''hunter2'') None
       (sample_manager, []) = ((s', h'), Inl e)" and h: "length h' = 15" "h' ! 5 = BindBridge"
    using found by (simp add: create_with_credentials_def sample_not_connected)
  from failed_session_leaves_nothing [OF run] h sample_answers(3) run show ?thesis by auto
qed

text \<open>Supporting result: a saved password is sent at most once, at most to one of the four rounds of prompts of
  keyboard-interactive authentication, and only in answer to a single hidden prompt that asks for a
  password: never as a one-time code, never where it would be echoed.  All other rounds are answered
  with nothing.\<close>

theorem password_answers_password_prompts:
  assumes "authenticate_with_password peer i username password (c, h) = ((c', h'), r)"
  shows "c' = c \<and> (\<exists>hs. h' = h @ AuthPassword i username password # hs \<and>
    (\<forall>k < length hs. (\<exists>answers. hs ! k = KeyboardRespond i answers \<and> answers \<noteq> []) \<longrightarrow>
       hs ! k = KeyboardRespond i [password] \<and>
       (\<exists>prompt. pr_keyboard peer (h @ AuthPassword i username password # take k hs) = Inr (KbPrompts [(prompt, False)]) \<and>
          contains (to_ascii_lowercase prompt) ''password'')) \<and>
    length (filter (\<lambda>q. \<exists>answers. q = KeyboardRespond i answers) hs) \<le> 4 \<and>
    length (filter (\<lambda>q. \<exists>answers. q = KeyboardRespond i answers \<and> answers \<noteq> []) hs) \<le> 1)"
proof -
  let ?h0 = "h @ [AuthPassword i username password]" let ?h1 = "?h0 @ [KeyboardStart i username]"
  show ?thesis
  proof (cases "pr_auth peer ?h0 = Inr False")
    case False
    with assms have "c' = c" "h' = ?h0"
      by (auto simp: authenticate_with_password_def client_ops split: sum.splits bool.splits)
    then show ?thesis by auto
  next
    case rejected: True
    show ?thesis
    proof (cases "pr_keyboard peer ?h1")
      case (Inl e)
      with assms rejected have "c' = c" "h' = ?h1" by (auto simp: authenticate_with_password_def client_ops)
      then show ?thesis by (intro conjI exI [of _ "[KeyboardStart i username]"]) auto
    next
      case (Inr response)
      with assms rejected have "keyboard_rounds peer i password 4 False response (c, ?h1) = ((c', h'), r)"
        by (simp add: authenticate_with_password_def client_ops)
      from keyboard_rounds_answers [OF this Inr] obtain hs where hs: "c' = c" "h' = ?h1 @ hs" "length hs \<le> 4"
        "length (filter (\<lambda>q. q \<noteq> KeyboardRespond i []) hs) \<le> 1"
        "\<And>k. k < length hs \<Longrightarrow> hs ! k \<noteq> KeyboardRespond i [] \<Longrightarrow> hs ! k = KeyboardRespond i [password] \<and>
           (\<exists>prompt. pr_keyboard peer (?h1 @ take k hs) = Inr (KbPrompts [(prompt, False)]) \<and>
              contains (to_ascii_lowercase prompt) ''password'')" by auto
      have "length (filter (\<lambda>q. \<exists>answers. q = KeyboardRespond i answers) hs) \<le> 4"
        using length_filter_le hs(3) by (rule order_trans)
      moreover have "length (filter (\<lambda>q. \<exists>answers. q = KeyboardRespond i answers \<and> answers \<noteq> []) hs) \<le>
          length (filter (\<lambda>q. q \<noteq> KeyboardRespond i []) hs)"
        by (rule length_filter_mono) auto
      moreover have "(KeyboardStart i username # hs) ! k = KeyboardRespond i [password] \<and>
           (\<exists>prompt. pr_keyboard peer (h @ AuthPassword i username password # take k (KeyboardStart i username # hs)) =
                Inr (KbPrompts [(prompt, False)]) \<and> contains (to_ascii_lowercase prompt) ''password'')"
        if "k < length (KeyboardStart i username # hs)"
          "\<exists>answers. (KeyboardStart i username # hs) ! k = KeyboardRespond i answers \<and> answers \<noteq> []" for k
        using that hs(5) [of "k - 1"] by (cases k) auto
      ultimately show ?thesis
        using hs(1,2,4) by (intro conjI exI [of _ "KeyboardStart i username # hs"]) auto
    qed
  qed
qed

theorem password_answers_password_prompts_witness:
  "\<exists>w' r. authenticate_with_password ((sample_peer MsgSuccess)\<lparr>pr_auth := \<lambda>_. Inr False\<rparr>) 0 ''root'' ''hunter2'' (new_client, []) =
     (w', r) \<and> length (filter (\<lambda>q. \<exists>answers. q = KeyboardRespond 0 answers) (snd w')) \<le> 4"
proof -
  obtain c' h' r where run: "authenticate_with_password ((sample_peer MsgSuccess)\<lparr>pr_auth := \<lambda>_. Inr False\<rparr>) 0 ''root'' ''hunter2''
      (new_client, []) = ((c', h'), r)" by (metis surj_pair)
  from password_answers_password_prompts [OF run] run show ?thesis by auto
qed

section \<open>The manager\<close>

lemma map_of_filter_keys: "map_of (filter (\<lambda>(k, _). P k) xs) i = (if P i then map_of xs i else None)"
  by (induction xs) auto

text \<open>A manager with one session, for the witnesses.\<close>

definition sample_managed :: session_manager where
  "sample_managed = fst (create ''u7f3'' 0 0 ''s1'' (sample_manager\<lparr>sm_tunnels := Some [], sm_logger := Some \<lparr>lg_active = [], lg_rows = []\<rparr>\<rparr>))"

lemma sample_managed_eq:
  "sample_managed = sample_manager\<lparr>sm_tunnels := Some [], sm_logger := Some \<lparr>lg_active = [], lg_rows = []\<rparr>,
     sm_sessions := [(''u7f3'', new_session ''u7f3'' 0 0 ''s1'' ''db'')]\<rparr>"
  by (simp add: sample_managed_def create_def server_get_def create_for_server_def insert_session_def new_session_def
      sample_manager_def sample_server_def Let_def)

lemma sample_managed_reachable: "reachable_from manager_start (manager_step env peer) (sample_managed, [])"
proof -
  let ?m = "sample_manager\<lparr>sm_tunnels := Some [], sm_logger := Some \<lparr>lg_active = [], lg_rows = []\<rparr>\<rparr>"
  have start: "reachable_from manager_start (manager_step env peer) (?m, [])"
    by (rule reachable_from.intros) (simp add: manager_start_def sample_manager_def)
  have "manager_step env peer (?m, []) (sample_managed, [])"
    unfolding sample_managed_def by (rule manager_step.created) (rule prod.collapse [symmetric])
  with start show ?thesis by (rule reachable_from.intros)
qed



lemma reachable_manager_inv: "reachable_from manager_start (manager_step env peer) (m, h) \<Longrightarrow> manager_inv m"
  using managers.reachable_inv by fastforce

text \<open>Supporting result: a session reference resolves to a session exactly if it is its identifier, or if it is no
  session's identifier, has at least four characters and is, up to letter case and surrounding white space,
  a prefix of the identifier of this session and of no other.  So a reference never picks one of several.\<close>

theorem resolve_is_unambiguous:
  assumes "reachable_from manager_start (manager_step env peer) (m, h)"
  shows "resolve reference m = Inr s \<longleftrightarrow>
    map_of (sm_sessions m) reference = Some s \<or>
    map_of (sm_sessions m) reference = None \<and> 4 \<le> length (trim reference) \<and> s \<in> snd ` set (sm_sessions m) \<and>
    (\<forall>(i, t) \<in> set (sm_sessions m). starts_with (to_ascii_lowercase i) (to_ascii_lowercase (trim reference)) \<longleftrightarrow> t = s)"
proof (cases "map_of (sm_sessions m) reference")
  case (Some t)
  then show ?thesis by (auto simp: resolve_def)
next
  case None
  note inv = reachable_manager_inv [OF assms]
  then have sess: "sessions_inv m" by (simp add: manager_inv_def)
  let ?P = "\<lambda>s. starts_with (to_ascii_lowercase (sn_id s)) (to_ascii_lowercase (trim reference))"
  let ?ss = "map snd (sm_sessions m)"
  have len: "length (to_ascii_lowercase (trim reference)) = length (trim reference)" by (simp add: to_ascii_lowercase_def)
  have "resolve reference m = Inr s \<longleftrightarrow> 4 \<le> length (trim reference) \<and> filter ?P ?ss = [s]"
    using None by (auto simp: resolve_def Let_def len not_less split: list.splits)
  also have "\<dots> \<longleftrightarrow> 4 \<le> length (trim reference) \<and> s \<in> set ?ss \<and> ?P s \<and> (\<forall>t \<in> set ?ss. ?P t \<longrightarrow> t = s)"
    by (simp only: filter_singleton [OF sessions_distinct [OF sess]])
  also have "\<dots> \<longleftrightarrow> 4 \<le> length (trim reference) \<and> s \<in> snd ` set (sm_sessions m) \<and>
      (\<forall>(i, t) \<in> set (sm_sessions m). starts_with (to_ascii_lowercase i) (to_ascii_lowercase (trim reference)) \<longleftrightarrow> t = s)"
  proof -
    have "(\<forall>(i, t) \<in> set (sm_sessions m). starts_with (to_ascii_lowercase i) (to_ascii_lowercase (trim reference)) \<longleftrightarrow> t = s) \<longleftrightarrow>
        (\<forall>p \<in> set (sm_sessions m). ?P (snd p) \<longleftrightarrow> snd p = s)"
      using sess unfolding sessions_inv_def by (intro ball_cong) auto
    then show ?thesis by (simp only: set_map) blast
  qed
  finally show ?thesis using None by simp
qed

theorem resolve_is_unambiguous_witness:
  "resolve ''U7F3'' sample_managed = Inr (new_session ''u7f3'' 0 0 ''s1'' ''db'')"
proof -
  have "trim ''U7F3'' = ''U7F3''" "to_ascii_lowercase ''U7F3'' = ''u7f3''" "to_ascii_lowercase ''u7f3'' = ''u7f3''"
    "starts_with ''u7f3'' ''u7f3''" by code_simp+
  then show ?thesis unfolding resolve_is_unambiguous [OF sample_managed_reachable] by (simp add: sample_managed_eq)
qed

text \<open>Supporting result: closing a session always succeeds and takes exactly what belongs to it: the session leaves the
  table and every other stays as it is, its tunnels and its recordings end and those of other sessions do
  not, and its connection, if it has one, is closed.\<close>

theorem killed_session_is_closed:
  assumes "reachable_from manager_start (manager_step env peer) (m, h)" "map_of (sm_sessions m) i = Some s"
    and "kill peer now updated i (m, h) = ((m', h'), r)"
  shows "r = Inr () \<and> map_of (sm_sessions m') = (map_of (sm_sessions m))(i := None) \<and>
    sm_tunnels m' = map_option (filter (\<lambda>(_, t). th_session_id t \<noteq> i)) (sm_tunnels m) \<and>
    map_option lg_active (sm_logger m') = map_option (filter (\<lambda>(_, s). s \<noteq> i)) (map_option lg_active (sm_logger m)) \<and>
    (\<forall>c k. sn_ssh_client s = Some c \<longrightarrow> sc_session c = Some k \<longrightarrow> Disconnect k \<in> set (drop (length h) h'))"
proof -
  note eff = kill_effect [OF reachable_manager_inv [OF assms(1)] assms(3)]
  then have "sm_sessions m' = AList.delete i (sm_sessions m)" by (simp add: AList.delete_eq eq_commute [of i])
  then have "map_of (sm_sessions m') = (map_of (sm_sessions m))(i := None)" by (simp add: delete_conv')
  with eff assms(2) show ?thesis by auto
qed

theorem killed_session_is_closed_witness:
  "\<exists>m' h' r. kill (sample_peer MsgSuccess) 5 (\<lambda>_. True) ''u7f3'' (sample_managed, []) = ((m', h'), r) \<and>
     map_of (sm_sessions m') ''u7f3'' = None"
proof -
  obtain m' h' r where run: "kill (sample_peer MsgSuccess) 5 (\<lambda>_. True) ''u7f3'' (sample_managed, []) = ((m', h'), r)"
    by (metis surj_pair)
  from killed_session_is_closed [OF sample_managed_reachable _ run] run show ?thesis by (auto simp: sample_managed_eq)
qed

text \<open>Supporting result: reaping closes exactly the sessions that no client is attached to and that have been idle for
  long enough, and reports their identifiers; all other sessions stay as they are.\<close>

theorem reap_spares_used_sessions:
  assumes "reachable_from manager_start (manager_step env peer) (m, h)"
    and "reap_inactive_sessions peer now clock updated max_idle (m, h) = ((m', h'), r)"
  shows "\<exists>ids. r = Inr ids \<and> (\<forall>i. i \<in> set ids \<longleftrightarrow>
      (\<exists>s. map_of (sm_sessions m) i = Some s \<and> sn_client_count s = 0 \<and> max_idle \<le> clock - sn_last_activity s)) \<and>
    (\<forall>i. map_of (sm_sessions m') i = (if i \<in> set ids then None else map_of (sm_sessions m) i))"
proof -
  let ?ids = "map sn_id (filter (should_reap clock max_idle) (map snd (sm_sessions m)))"
  note inv = reachable_manager_inv [OF assms(1)]
  obtain r' where run: "kill_each peer now updated ?ids (m, h) = ((m', h'), r')"
    using assms(2) by (auto simp: reap_inactive_sessions_def Let_def sbind_def sreturn_def split: prod.splits sum.splits)
  note eff = kill_each_effect [OF inv run]
  with assms(2) run have "r = Inr ?ids" by (auto simp: reap_inactive_sessions_def Let_def sbind_def)
  moreover have ids: "i \<in> set ?ids \<longleftrightarrow>
      (\<exists>s. map_of (sm_sessions m) i = Some s \<and> sn_client_count s = 0 \<and> max_idle \<le> clock - sn_last_activity s)" for i
  proof -
    have "sessions_inv m" using inv by (simp add: manager_inv_def)
    then have "map_of (sm_sessions m) i = Some s \<longleftrightarrow> s \<in> snd ` set (sm_sessions m) \<and> sn_id s = i" for s
      by (force simp: sessions_inv_def dest: map_of_SomeD)
    then show ?thesis by (auto simp: should_reap_def idle_for_def)
  qed
  moreover have "map_of (sm_sessions m') i = (if i \<in> set ?ids then None else map_of (sm_sessions m) i)" for i
  proof -
    have "sm_sessions m' = filter (\<lambda>(k, _). k \<notin> set ?ids) (sm_sessions m)" using eff by blast
    then show ?thesis by (simp only: map_of_filter_keys) simp
  qed
  ultimately show ?thesis by blast
qed

theorem reap_spares_used_sessions_witness:
  "\<exists>w'. reap_inactive_sessions (sample_peer MsgSuccess) 5 1000 (\<lambda>_. True) 900 (sample_managed, []) = (w', Inr [''u7f3''])"
proof -
  obtain m' h' r where run: "reap_inactive_sessions (sample_peer MsgSuccess) 5 1000 (\<lambda>_. True) 900 (sample_managed, []) = ((m', h'), r)"
    by (metis surj_pair)
  from reap_spares_used_sessions [OF sample_managed_reachable run] obtain ids where r: "r = Inr ids" by blast
  with run have "ids = [''u7f3'']"
    by (auto simp: reap_inactive_sessions_def Let_def sbind_def sample_managed_eq should_reap_def idle_for_def new_session_def
        split: prod.splits sum.splits)
  with run r show ?thesis by auto
qed

section \<open>Output\<close>

text \<open>Supporting result: the replay buffer of a session holds the end of its output: at most the last 64 KiB, and all of
  it while the output is no longer than that.\<close>

theorem replay_keeps_latest_output:
  "suffix (concat (snapshot (fold push ds empty_replay))) (concat ds) \<and>
   length (concat (snapshot (fold push ds empty_replay))) \<le> 64 * 1024 \<and>
   (length (concat ds) \<le> 64 * 1024 \<longrightarrow> concat (snapshot (fold push ds empty_replay)) = concat ds)"
  using push_all_inv [OF replay_inv_empty, of ds] by (simp add: replay_inv_def snapshot_def output_replay_limit_bytes_def)

theorem replay_keeps_latest_output_witness:
  "concat (snapshot (fold push [''ls'', [], ''a b''] empty_replay)) = ''lsa b''"
  using replay_keeps_latest_output [of "[''ls'', [], ''a b'']"] by simp

text \<open>Supporting result: the result of a command is what its channel has delivered up to some point, and nothing else, at
  most the limit; its exit code is the last status seen, 255 for a signal, and -1 if there was none or one
  that does not fit 31 bits.\<close>

theorem command_result_is_what_was_read:
  assumes "exec_command_result_with_limits peer lossy command stdin_data limit max_output events (c, h) = (w', Inr (Some result))"
  shows "\<exists>k \<le> length events.
    cr_output result = lossy (data_of (take k events)) \<and> length (data_of (take k events)) \<le> max_output \<and>
    cr_exit_code result = exit_code_of (status_of None (take k events))"
proof -
  let ?s = "\<lparr>ex_output = [], ex_exit_status = None, ex_last_message_at = 0\<rparr>"
  obtain outcome where run: "exec_loop limit max_output ?s events = Some outcome" and res: "exec_result lossy outcome = Inr result"
    using assms
    by (auto simp: exec_command_result_with_limits_def client_ops Let_def map_sum_def
        split: prod.splits sum.splits option.splits exec_outcome.splits)
  then obtain s' where s': "outcome = RemoteClosed s' \<or> outcome = ClosedLocally s'"
    "result = \<lparr>cr_output = lossy (ex_output s'), cr_exit_code = exit_code_of (ex_exit_status s')\<rparr>"
    by (cases outcome) (auto simp: exec_result_def)
  from exec_loop_reads [OF run _ s'(1)] s'(2) show ?thesis by auto
qed

theorem command_result_is_what_was_read_witness:
  "\<exists>w'. exec_command_result_with_limits (sample_peer MsgSuccess) id ''ls'' None 1000 100
      [(0, 1, Got (MsgData ''a'')), (1, 2, Got (MsgExitStatus 3)), (2, 3, Got MsgEof), (3, 4, ChannelEnded)]
      (new_client\<lparr>sc_session := Some 0\<rparr>, []) = (w', Inr (Some \<lparr>cr_output = ''a'', cr_exit_code = 3\<rparr>)) \<and>
    (\<exists>k. ''a'' = data_of (take k [(0, 1, Got (MsgData ''a'')), (1, 2, Got (MsgExitStatus 3)), (2, 3, Got MsgEof), (3, 4, ChannelEnded)]))"
proof -
  let ?events = "[(0, 1, Got (MsgData ''a'')), (1, 2, Got (MsgExitStatus 3)), (2, 3, Got MsgEof), (3, 4, ChannelEnded)]"
  have "\<exists>w'. exec_command_result_with_limits (sample_peer MsgSuccess) id ''ls'' None 1000 100 ?events
      (new_client\<lparr>sc_session := Some 0\<rparr>, []) = (w', Inr (Some \<lparr>cr_output = ''a'', cr_exit_code = 3\<rparr>))"
    by (simp add: exec_command_result_with_limits_def client_ops Let_def session_channel_def sample_answers nonempty_passphrase_def
        exec_result_def exit_code_of_def)
  then obtain w' where run: "exec_command_result_with_limits (sample_peer MsgSuccess) id ''ls'' None 1000 100 ?events
      (new_client\<lparr>sc_session := Some 0\<rparr>, []) = (w', Inr (Some \<lparr>cr_output = ''a'', cr_exit_code = 3\<rparr>))" by blast
  from command_result_is_what_was_read [OF run] run show ?thesis by auto
qed



end
