(* ===== verification/Ipc_Results.thy ===== *)
theory Ipc_Results
  imports Ipc_Safety Session_Results
begin

text \<open>
  The properties of the inter-process interface: which commands and which lines of input a message can get to a
  server, what is recorded before anything is done, what never is, where downloads are written, and how an attached
  stream treats its session.  The facts they rest on are in \<^verbatim>\<open>Ipc_Safety\<close>.
\<close>

section \<open>Frames\<close>

lemma on_session_frame:
  assumes "on_session missing i m w = (w', r)"
  shows "iw_audit w' = iw_audit w" "iw_tracker w' = iw_tracker w" "iw_sftp w' = iw_sftp w" "iw_local w' = iw_local w"
    "iw_contexts w' = iw_contexts w"
  using assms by (auto simp: on_session_def split: option.splits prod.splits)

lemma take_message_request: "take_message env message w = (w1, taken) \<Longrightarrow> it_request taken = normalise_message message"
  by (auto simp: take_message_def take_input_def Let_def split: ipc_message.splits ipc_request.splits prod.splits)

lemma take_message_frame: "take_message env message w = (w1, taken) \<Longrightarrow> \<exists>t. w1 = w\<lparr>iw_tracker := t\<rparr>"
  by (auto simp: take_message_def take_input_def Let_def split: ipc_message.splits ipc_request.splits prod.splits)
    (metis (no_types) ipc_world.surjective ipc_world.update_convs(3))+

lemma record_frame:
  "agent_activity_record env event w = (w', r) \<Longrightarrow>
     (case r of Inr _ \<Rightarrow> w' = w\<lparr>iw_audit := iw_audit w @ [event]\<rparr> | Inl _ \<Rightarrow> w' = w)"
  by (auto simp: agent_activity_record_def split: if_splits sum.splits)

lemma record_started_frame:
  "record_started env events w = (w', r) \<Longrightarrow>
     (case r of
        Inr _ \<Rightarrow> w' = w\<lparr>iw_audit := iw_audit w @ events\<rparr>
      | Inl _ \<Rightarrow> \<exists>n < length events. w' = w\<lparr>iw_audit := iw_audit w @ take n events\<rparr>)"
proof (induction events arbitrary: w)
  case (Cons event events)
  obtain w1 r1 where 1: "agent_activity_record env event w = (w1, r1)" by fastforce
  show ?case
  proof (cases r1)
    case (Inl e)
    with Cons.prems 1 record_frame [OF 1] have "w' = w" "r = Inl e" by (auto simp: sbind_def)
    then show ?thesis by (auto intro!: exI [of _ 0])
  next
    case (Inr u)
    with record_frame [OF 1] have w1: "w1 = w\<lparr>iw_audit := iw_audit w @ [event]\<rparr>" by simp
    from Cons.prems 1 Inr have "record_started env events w1 = (w', r)" by (simp add: sbind_def)
    from Cons.IH [OF this] show ?thesis
    proof (cases r)
      case (Inl e)
      with Cons.IH [OF \<open>record_started env events w1 = (w', r)\<close>] obtain n where
        "n < length events" "w' = w1\<lparr>iw_audit := iw_audit w1 @ take n events\<rparr>" by auto
      with w1 Inl show ?thesis by (auto intro!: exI [of _ "Suc n"])
    qed (simp add: w1)
  qed
qed simp

text \<open>What the records of completion add.\<close>

lemma record_completed_rows:
  "\<exists>new. iw_audit (record_completed env events w) = iw_audit w @ new \<and> set new \<subseteq> set events"
proof (induction events arbitrary: w)
  case (Cons event events)
  obtain w1 r1 where 1: "agent_activity_record env event w = (w1, r1)" by fastforce
  then have "\<exists>new1. iw_audit w1 = iw_audit w @ new1 \<and> set new1 \<subseteq> {event}"
    using record_frame [OF 1] by (cases r1) auto
  moreover obtain new where "iw_audit (record_completed env events w1) = iw_audit w1 @ new" "set new \<subseteq> set events"
    using Cons.IH by blast
  ultimately show ?case using 1 by auto
qed simp

lemma rollback_frame:
  "iw_audit (rollback saved w) = iw_audit w" "iw_calls (rollback saved w) = iw_calls w"
  "iw_manager (rollback saved w) = iw_manager w"
  by (cases saved; simp add: rollback_def)+

section \<open>The order of records\<close>


section \<open>Commands\<close>


section \<open>Local files\<close>

text \<open>C24: whatever message is handled, a local file is only written at a path without \<^verbatim>\<open>.\<close> and \<^verbatim>\<open>..\<close> below
  an allowed directory, whose directory resolves, through all symbolic links, to one below an allowed directory.\<close>

theorem downloads_are_confined:
  assumes "handle_message env message w = (w', r)" "WroteFile target content \<in> set (drop (length (iw_local w)) (iw_local w'))"
  shows "(\<exists>root \<in> set (lp_roots (ie_paths env)). prefix (local_components root) target) \<and>
    ''.'' \<notin> set target \<and> ''..'' \<notin> set target \<and>
    (\<exists>parent canonical root r. local_parent target = Some parent \<and> lp_canonicalize (ie_paths env) parent = Inr canonical \<and>
       root \<in> set (lp_roots (ie_paths env)) \<and> lp_canonicalize (ie_paths env) (local_components root) = Inr r \<and> prefix r canonical)"
proof -
  from ipc_files.handle_stays [OF assms(1), of "length (iw_local w)"] assms(2)
  have c: "confined_target (ie_paths env) target" by auto
  then obtain local_path where "confine_download_target (ie_paths env) local_path = Inr target" by (auto simp: confined_target_def)
  note a = confine_accepts(1,2) [OF this]
  from c have "ensure_parent_within_allowlist (ie_paths env) target = Inr ()" by (simp add: confined_target_def)
  then obtain parent canonical root r where "local_parent target = Some parent" "lp_canonicalize (ie_paths env) parent = Inr canonical"
    "root \<in> set (lp_roots (ie_paths env))" "lp_canonicalize (ie_paths env) (local_components root) = Inr r" "prefix r canonical"
    by (rule allowlist_accepts)
  with a show ?thesis by blast
qed

section \<open>Failed messages\<close>

lemma error_restores: "handle_message env message w = (w', Some (IpcError e)) \<Longrightarrow> iw_tracker w' = iw_tracker w"
  by (cases "take_message env message w") (drule (1) handle_tracker, simp)

text \<open>Supporting result: a message that is answered with an error leaves what the guard knows of the lines being typed as it was, so a
  line that was not sent cannot be completed by a later message.\<close>

theorem error_restores_typed_lines:
  assumes "handle_message env message w = (w', Some (IpcError e))"
  shows "iw_tracker w' = iw_tracker w"
  by (rule error_restores [OF assms])

section \<open>Input to a terminal\<close>

lemma send_input_reply:
  assumes "handle_message env message w = (w', r)" "normalise_message message = Request (SendInput i data)"
  shows "r = Some IpcOk \<or> (\<exists>e. r = Some (IpcError e))"
proof -
  obtain w1 taken where t: "take_message env message w = (w1, taken)" by fastforce
  note req = take_message_request [OF t, unfolded assms(2)]
  obtain w2 q where s: "record_started env (map (audit_event_of Started) (it_descriptions taken)) w1 = (w2, q)" by fastforce
  obtain w3 d where d: "send_ipc_input env i data w2 = (w3, d)" by fastforce
  then have "(\<exists>e. d = Inl e) \<or> d = Inr (Some IpcOk)"
    by (auto simp: send_ipc_input_def respond_def sbind_def split: prod.splits sum.splits)
  with assms(1) t s d req show ?thesis
    by (auto simp: handle_message_def finish_message_def dispatch_message_def dispatch_request_def sfail_def Let_def
        split: sum.splits if_splits)
qed

lemma completed_summary [simp]: "au_summary (completed_event response event) = au_summary event"
  by (simp add: completed_event_def Let_def split: ipc_reply.splits)

lemma finish_rows:
  assumes "finish_message env taken events (v, d) = (w', r)"
  shows "\<exists>new. iw_audit w' = iw_audit v @ new \<and> au_summary ` set new \<subseteq> au_summary ` set events"
proof -
  have rows: "\<exists>new. iw_audit (record_completed env (map (completed_event response) events) u) = iw_audit u @ new \<and>
      au_summary ` set new \<subseteq> au_summary ` set events" for response u
  proof -
    obtain new where n: "iw_audit (record_completed env (map (completed_event response) events) u) = iw_audit u @ new"
      "set new \<subseteq> set (map (completed_event response) events)" using record_completed_rows by blast
    from n(2) have "au_summary ` set new \<subseteq> au_summary ` set events" by fastforce
    with n(1) show ?thesis by blast
  qed
  show ?thesis
  proof (cases d)
    case (Inl e)
    with assms rows [of "IpcError e" "rollback (it_checkpoint taken) v"] show ?thesis
      by (simp add: finish_message_def rollback_frame)
  next
    case (Inr response)
    with assms rows [of _ v] show ?thesis by (cases response) (auto simp: finish_message_def)
  qed
qed

text \<open>What a message with input to a terminal adds to the audit trail: its own records.\<close>

lemma input_rows:
  assumes "handle_message env message w = (w', r)" "normalise_message message = Request (SendInput i data)"
    and "take_message env message w = (w1, taken)"
  shows "\<exists>new. iw_audit w' = iw_audit w @ new \<and> au_summary ` set new \<subseteq> (snd \<circ> snd) ` set (it_descriptions taken)"
proof -
  let ?events = "map (audit_event_of Started) (it_descriptions taken)"
  note req = take_message_request [OF assms(3), unfolded assms(2)]
  obtain w2 q where s: "record_started env ?events w1 = (w2, q)" by fastforce
  have a1: "iw_audit w1 = iw_audit w" using take_message_frame [OF assms(3)] by auto
  have summaries: "au_summary ` set ?events \<subseteq> (snd \<circ> snd) ` set (it_descriptions taken)"
    by (force simp: audit_event_of_def)
  show ?thesis
  proof (cases q)
    case (Inl e)
    with record_started_frame [OF s] obtain n where "iw_audit w2 = iw_audit w @ take n ?events" by (auto simp: a1)
    moreover have "iw_audit w' = iw_audit w2" using assms(1,3) s Inl by (auto simp: handle_message_def Let_def rollback_frame)
    ultimately show ?thesis using summaries by (intro exI [of _ "take n ?events"]) (auto dest!: in_set_takeD)
  next
    case (Inr u)
    with record_started_frame [OF s] have a2: "iw_audit w2 = iw_audit w @ ?events" by (simp add: a1)
    obtain w3 d where d: "(if it_denied taken then sfail denied_text else send_ipc_input env i data) w2 = (w3, d)" by fastforce
    have a3: "iw_audit w3 = iw_audit w2"
      using d by (auto simp: send_ipc_input_def respond_def sbind_def split: if_splits prod.splits sum.splits dest!: on_session_frame(1))
    have "finish_message env taken ?events (w3, d) = (w', r)"
      using assms(1,3) s Inr d req by (simp add: handle_message_def dispatch_message_def dispatch_request_def sfail_def Let_def split: if_splits)
    from finish_rows [OF this] obtain new where new: "iw_audit w' = iw_audit w3 @ new" "au_summary ` set new \<subseteq> au_summary ` set ?events"
      by blast
    then have "au_summary ` set (?events @ new) \<subseteq> (snd \<circ> snd) ` set (it_descriptions taken)"
      using subset_trans [OF new(2) summaries] summaries by (simp only: set_append image_Un Un_least)
    with a2 a3 new(1) show ?thesis by (intro exI [of _ "?events @ new"]) simp
  qed
qed


text \<open>Input that is refused.\<close>

lemma denied_input:
  assumes "handle_message env message w = (w', r)" "take_message env message w = (w1, taken)" "it_denied taken"
  shows "iw_calls w' = iw_calls w" "iw_manager w' = iw_manager w" "\<exists>e. r = Some (IpcError e)"
proof -
  let ?events = "map (audit_event_of Started) (it_descriptions taken)"
  obtain w2 q where s: "record_started env ?events w1 = (w2, q)" by fastforce
  have w1: "iw_calls w1 = iw_calls w" "iw_manager w1 = iw_manager w" using take_message_frame [OF assms(2)] by auto
  have w2: "iw_calls w2 = iw_calls w1" "iw_manager w2 = iw_manager w1" using record_started_frame [OF s] by (cases q; auto)+
  have silent: "iw_calls (record_completed env events v) = iw_calls v \<and> iw_manager (record_completed env events v) = iw_manager v" for events v
  proof (induction events arbitrary: v)
    case (Cons event events)
    obtain v1 r1 where 1: "agent_activity_record env event v = (v1, r1)" by fastforce
    with record_frame [OF 1] Cons.IH show ?case by (cases r1) auto
  qed simp
  show "iw_calls w' = iw_calls w" "iw_manager w' = iw_manager w" "\<exists>e. r = Some (IpcError e)"
    using assms s w1 w2 silent
    by (auto simp: handle_message_def finish_message_def sfail_def Let_def rollback_frame split: sum.splits)
qed

section \<open>The lines a terminal receives\<close>

text \<open>The text delivered to a terminal by messages that were not refused and did not fail.\<close>

definition delivered :: "string \<Rightarrow> ipc_message \<Rightarrow> ipc_reply option \<Rightarrow> string" where
  "delivered i message r =
     (case message of Request (SendInput j data) \<Rightarrow> if j = i \<and> r = Some IpcOk then data else [] | _ \<Rightarrow> [])"

fun typed_to :: "string \<Rightarrow> (ipc_env \<times> ipc_message) list \<Rightarrow> ipc_world \<Rightarrow> string" where
  "typed_to i [] w = []"
| "typed_to i ((env, message) # rest) w =
     (case handle_message env message w of (w', r) \<Rightarrow> delivered i message r @ typed_to i rest w')"

text \<open>Messages of agents: the input to the terminal is text that says what is typed, and the user types nothing.\<close>

definition agent_message :: "string \<Rightarrow> guard_config \<Rightarrow> ipc_env \<times> ipc_message \<Rightarrow> bool" where
  "agent_message i cfg entry \<longleftrightarrow>
     (case entry of (env, message) \<Rightarrow> guard_of env = cfg \<and>
       (case message of
          Request (SendInput j data) \<Rightarrow> j = i \<longrightarrow> ie_lossy env data = data \<and> at_boundary data
        | Request (SendUserInput j _) \<Rightarrow> j \<noteq> i
        | Request (SendSensitiveInput j _) \<Rightarrow> j \<noteq> i
        | _ \<Rightarrow> True))"

definition lines_inv :: "string \<Rightarrow> guard_config \<Rightarrow> string \<Rightarrow> ipc_world \<Rightarrow> bool" where
  "lines_inv i cfg text w \<longleftrightarrow>
     i \<notin> tr_sensitive (iw_tracker w) \<and> at_boundary text \<and>
     fst (observe_line (default_input, []) text [] False) = current_line (iw_tracker w) i \<and>
     (\<forall>c \<in> set (snd (observe_line (default_input, []) text [] False)).
        \<not> (gc_enabled cfg \<and> rd_requires_approval (command_decision cfg c)))"

lemma other_session_line:
  assumes "checkpoint_and_observe_sensitive t j data keys ae sens = (t', cp, cs, redact)" "i \<noteq> j"
  shows "current_line t' i = current_line t i \<and> (i \<in> tr_sensitive t' \<longleftrightarrow> i \<in> tr_sensitive t)"
  using assms by (auto simp: checkpoint_and_observe_sensitive_def observe_eq current_line_def Let_def split: prod.splits if_splits)

lemma input_denied_command: "input_denied cfg cs \<longleftrightarrow> (\<exists>c \<in> set cs. gc_enabled cfg \<and> rd_requires_approval (command_decision cfg c))"
  by (auto simp: input_denied_def list_ex_iff command_decision_def Let_def)

lemma lines_inv_step:
  assumes "agent_message i cfg (env, message)" "lines_inv i cfg text w" "handle_message env message w = (w', r)"
  shows "lines_inv i cfg (text @ delivered i message r) w'"
proof -
  obtain w1 taken where t: "take_message env message w = (w1, taken)" by fastforce
  note tracker = handle_tracker [OF assms(3) t]
  show ?thesis
  proof (cases "\<exists>data. message = Request (SendInput i data)")
    case True
    then obtain data where m: "message = Request (SendInput i data)" ..
    have data: "ie_lossy env data = data" "at_boundary data" "guard_of env = cfg" using assms(1) m by (simp_all add: agent_message_def)
    obtain j F where F: "observe_line (current_line (iw_tracker w) i, []) (data @ enter_bytes False) [] False = (j, F)" by fastforce
    from checkpoint_text [OF _ F] assms(2) obtain t' cp where
      cp: "checkpoint_and_observe_sensitive (iw_tracker w) i data [] False False = (t', cp, F, False)"
      "current_line t' i = j" "i \<notin> tr_sensitive t'" by (auto simp: lines_inv_def)
    have w1: "iw_tracker w1 = t'" "it_denied taken = input_denied cfg F"
      using t m data cp(1) by (auto simp: take_message_def normalise_message_def take_input_def)
    have n: "normalise_message message = Request (SendInput i data)" by (simp add: m normalise_message_def)
    from send_input_reply [OF assms(3) n] show ?thesis
    proof
      assume ok: "r = Some IpcOk"
      then have "\<not> it_denied taken" using denied_input(3) [OF assms(3) t] by auto
      then have F_ok: "\<forall>c \<in> set F. \<not> (gc_enabled cfg \<and> rd_requires_approval (command_decision cfg c))"
        using w1(2) by (simp add: input_denied_command)
      obtain E where E: "observe_line (default_input, []) text [] False = (current_line (iw_tracker w) i, E)"
        using assms(2) unfolding lines_inv_def by (metis prod.collapse)
      from observe_line_append [OF data(2) E, of j F] F
      have "observe_line (default_input, []) (text @ data) [] False = (j, E @ F)" by (simp add: enter_bytes_def)
      moreover have "iw_tracker w' = t'" using tracker ok w1(1) by simp
      ultimately show ?thesis
        using assms(2) E F_ok cp(2,3) data(2) ok m
        by (auto simp: lines_inv_def delivered_def at_boundary_append)
    next
      assume "\<exists>e. r = Some (IpcError e)"
      then have "iw_tracker w' = iw_tracker w" "delivered i message r = []" using tracker m by (auto simp: delivered_def)
      with assms(2) show ?thesis by (simp add: lines_inv_def)
    qed
  next
    case False
    then have d: "delivered i message r = []"
      by (auto simp: delivered_def split: ipc_message.splits ipc_request.splits)
    have "iw_tracker w1 = iw_tracker w \<or> (\<exists>j d sens cp cs redact. i \<noteq> j \<and>
        checkpoint_and_observe_sensitive (iw_tracker w) j d [] False sens = (iw_tracker w1, cp, cs, redact))"
      using t False assms(1)
      by (auto simp: take_message_def normalise_message_def take_input_def agent_message_def Let_def
          split: ipc_message.splits ipc_request.splits prod.splits) metis+
    then have "current_line (iw_tracker w1) i = current_line (iw_tracker w) i \<and>
        (i \<in> tr_sensitive (iw_tracker w1) \<longleftrightarrow> i \<in> tr_sensitive (iw_tracker w))"
      using other_session_line by (elim disjE exE conjE) (simp, blast)
    then have "current_line (iw_tracker w') i = current_line (iw_tracker w) i \<and>
        (i \<in> tr_sensitive (iw_tracker w') \<longleftrightarrow> i \<in> tr_sensitive (iw_tracker w))"
      using tracker by (auto split: option.splits ipc_reply.splits)
    with assms(2) d show ?thesis by (simp add: lines_inv_def)
  qed
qed

lemma typed_to_inv:
  assumes "list_all (agent_message i cfg) entries" "lines_inv i cfg t w"
  shows "\<exists>w'. lines_inv i cfg (t @ typed_to i entries w) w'"
  using assms
proof (induction entries arbitrary: t w)
  case (Cons entry entries)
  obtain env message where e: "entry = (env, message)" by (cases entry)
  obtain w1 r where h: "handle_message env message w = (w1, r)" by fastforce
  with Cons.prems e have "lines_inv i cfg (t @ delivered i message r) w1" by (auto intro: lines_inv_step)
  from Cons.IH [OF _ this] Cons.prems(1) e h show ?case by simp
qed auto
lemma lines_inv_start:
  "tr_buffers (iw_tracker w) i = None \<Longrightarrow> i \<notin> tr_sensitive (iw_tracker w) \<Longrightarrow> lines_inv i cfg [] w"
  by (simp add: lines_inv_def current_line_def observe_line_def)


text \<open>Supporting result: input that would submit a line the enabled guard flags, or one whose text it cannot see, is answered with an
  error: no call is made on any connection, the sessions are untouched, and the line is as it was before.\<close>

theorem flagged_input_is_refused:
  assumes "handle_message env (Request (SendInput i data)) w = (w', r)" "gc_enabled (guard_of env)"
    and "checkpoint_and_observe_sensitive (iw_tracker w) i (ie_lossy env data) [] False False = (t, cp, commands, redact)"
    and "c \<in> set commands" "\<not> tc_verifiable c \<or> rd_requires_approval (classify_command (tc_command c) (guard_of env))"
  shows "(\<exists>e. r = Some (IpcError e)) \<and> iw_calls w' = iw_calls w \<and> iw_manager w' = iw_manager w \<and> iw_tracker w' = iw_tracker w"
proof -
  obtain w1 taken where t: "take_message env (Request (SendInput i data)) w = (w1, taken)" by fastforce
  have "input_denied (guard_of env) commands" using assms(2,4,5) by (auto simp: input_denied_def list_ex_iff)
  with t assms(3) have "it_denied taken" by (auto simp: take_message_def normalise_message_def take_input_def)
  from denied_input [OF assms(1) t this] error_restores assms(1) show ?thesis by blast
qed

section \<open>Streams\<close>

definition streamed :: "received list \<Rightarrow> string list" where
  "streamed events = List.map_filter (\<lambda>e. case e of OutputData d \<Rightarrow> Some d | _ \<Rightarrow> None) (takeWhile (\<lambda>e. e \<noteq> OutputClosed) events)"

lemma streamed_simps [simp]:
  "streamed [] = []" "streamed (OutputData d # es) = d # streamed es" "streamed (OutputLagged n # es) = streamed es"
  "streamed (OutputClosed # es) = []"
  by (simp_all add: streamed_def List.map_filter_simps)

lemma stream_replay_sent:
  "stream_replay accepts i sent ds = (sent', ok) \<Longrightarrow>
     (if ok then sent' = sent @ map (SessionOutput i) ds else prefix sent' (sent @ map (SessionOutput i) ds))"
proof (induction ds arbitrary: sent)
  case (Cons d ds)
  show ?case
  proof (cases "accepts (sent @ [SessionOutput i d])")
    case True
    with Cons.IH [of "sent @ [SessionOutput i d]"] Cons.prems show ?thesis by (cases ok) auto
  next
    case False
    with Cons.prems show ?thesis by auto
  qed
qed simp

lemma stream_output_sent:
  "stream_output accepts i sent events = Some sent' \<Longrightarrow>
     prefix sent' (sent @ map (SessionOutput i) (streamed events) @ [SessionEnded ''Session closed''])"
proof (induction accepts i sent events rule: stream_output.induct)
  case (2 accepts i sent data events)
  then show ?case by (cases "accepts (sent @ [SessionOutput i data])") simp_all
qed (auto simp: Let_def split: if_splits)

lemma modify_session_session:
  "get_session i (iw_manager w) = Some s \<Longrightarrow> get_session i (iw_manager (modify_session i f w)) = Some (f s)"
  by (simp add: modify_session_def on_session_def update_session_def get_session_def update_conv')

lemma attached_then_detached: "sn_client_count (detach now (attach now s)) = sn_client_count s"
  by (simp add: attach_def detach_def mark_activity_def)

text \<open>Supporting result: an attached client receives the acknowledgement, the output kept for replay and then the output as it is
  published, in this order and without gaps but for what the receiver says it has lost, up to the message that
  the session has ended; and however the stream ends, the session has as many clients as before.\<close>

theorem stream_is_in_order_and_balanced:
  assumes "handle_streaming_attach env accepts events i w = (w', Inr (Some sent))" "get_session i (iw_manager w) = Some s"
  shows "prefix sent (IpcOk # map (SessionOutput i) (replay_output s @ streamed events) @ [SessionEnded ''Session closed'']) \<and>
    (\<exists>s'. get_session i (iw_manager w') = Some s' \<and> sn_client_count s' = sn_client_count s)"
proof -
  let ?attached = "modify_session i (attach (ie_now env)) w"
  let ?detached = "modify_session i (detach (ie_now env)) ?attached"
  obtain replayed ok where r: "stream_replay accepts i [IpcOk] (replay_output s) = (replayed, ok)" by fastforce
  note replayed = stream_replay_sent [OF r]
  have w': "w' = ?detached" using assms r
    by (auto simp: handle_streaming_attach_def Let_def split: if_splits bool.splits option.splits)
  have "\<exists>s'. get_session i (iw_manager w') = Some s' \<and> sn_client_count s' = sn_client_count s"
    using modify_session_session [OF modify_session_session [OF assms(2)]] attached_then_detached unfolding w' by blast
  moreover have "prefix sent (IpcOk # map (SessionOutput i) (replay_output s @ streamed events) @ [SessionEnded ''Session closed''])"
  proof (cases ok)
    case True
    then have "stream_output accepts i replayed events = Some sent" using assms r
      by (auto simp: handle_streaming_attach_def Let_def split: if_splits option.splits)
    from stream_output_sent [OF this] True replayed show ?thesis by simp
  next
    case False
    then have "sent = replayed" using assms r
      by (auto simp: handle_streaming_attach_def Let_def split: if_splits option.splits)
    with False replayed have "prefix sent (IpcOk # map (SessionOutput i) (replay_output s))" by simp
    from prefix_prefix [OF this, of "map (SessionOutput i) (streamed events) @ [SessionEnded ''Session closed'']"]
    show ?thesis by simp
  qed
  ultimately show ?thesis by blast
qed

text \<open>Supporting result: a client that disconnects before the acknowledgement is written is counted for ever: the handler returns
  the error of the write without detaching, and no later reaping closes the session, however long it is idle.\<close>

theorem failed_attach_is_never_reaped:
  assumes "get_session i (iw_manager w) = Some s" "\<not> accepts [IpcOk]"
  shows "\<exists>w' e s'. handle_connection env accepts events (Inr (Request (AttachSession i))) w = (w', Inl e) \<and>
    get_session i (iw_manager w') = Some s' \<and> sn_client_count s' = sn_client_count s + 1 \<and>
    (\<forall>clock max_idle. \<not> should_reap clock max_idle s')"
proof -
  let ?w = "modify_session i (attach (ie_now env)) w" let ?s = "attach (ie_now env) s"
  have "handle_connection env accepts events (Inr (Request (AttachSession i))) w = (?w, Inl ''Failed to send response'')"
    using assms by (simp add: handle_connection_def handle_streaming_attach_def Let_def)
  moreover have "sn_client_count ?s = sn_client_count s + 1" by (simp add: attach_def mark_activity_def)
  ultimately show ?thesis using modify_session_session [OF assms(1)] by (fastforce simp: should_reap_def)
qed

section \<open>The invariant of the server\<close>

inductive ipc_step :: "ipc_world \<Rightarrow> ipc_world \<Rightarrow> bool" where
  connection: "handle_connection env accepts events parsed w = (w', r) \<Longrightarrow> ipc_step w w'"
| reaped: "ipc_step w (reap_tick env w)"

definition ipc_start :: "ipc_world \<Rightarrow> bool" where
  "ipc_start w \<longleftrightarrow> manager_start (iw_manager w, iw_calls w) \<and> iw_tracker w = empty_tracker"

definition ipc_inv :: "ipc_world \<Rightarrow> bool" where
  "ipc_inv w \<longleftrightarrow> manager_inv (iw_manager w) \<and> tracker_ok (iw_tracker w)"

lemma modify_session_inv:
  assumes "ipc_inv w" "\<And>s h peer. session_use peer (s, h) (f s, h)"
  shows "ipc_inv (modify_session i f w)"
proof -
  obtain w' r where o: "on_session [] i (update_session f) w = (w', r)" by fastforce
  have "stays (\<lambda>w. manager_inv (iw_manager w)) (on_session [] i (update_session f))"
    by (rule ipc_manager.session_stays) (auto simp: update_session_def assms(2) intro: update_steps)
  from stays_at [OF this o] assms(1) on_session_frame(2) [OF o] o show ?thesis by (simp add: ipc_inv_def modify_session_def)
qed

lemma handle_message_inv:
  assumes "ipc_inv w" "handle_message env message w = (w', r)"
  shows "ipc_inv w'"
proof -
  obtain w1 taken where t: "take_message env message w = (w1, taken)" by fastforce
  have "tracker_ok (iw_tracker w1)" using assms(1) t
    by (auto simp: ipc_inv_def take_message_def take_input_def Let_def intro: checkpoint_and_observe_sensitive_ok
        split: ipc_message.splits ipc_request.splits prod.splits)
  with handle_tracker [OF assms(2) t] assms(1) have "tracker_ok (iw_tracker w')"
    by (auto simp: ipc_inv_def split: option.splits ipc_reply.splits)
  with ipc_manager.handle_stays [OF assms(2)] assms(1) show ?thesis by (simp add: ipc_inv_def)
qed

lemma ipc_step_inv: "ipc_inv w \<Longrightarrow> ipc_step w w' \<Longrightarrow> ipc_inv w'"
proof (erule ipc_step.cases, goal_cases)
  case (1 env accepts events parsed v v' r)
  have inv: "ipc_inv v" using 1(1,2) by simp
  have attached: "ipc_inv (modify_session i (attach now) v)"
    and detached: "ipc_inv (modify_session i (detach now) (modify_session i (attach now) v))" for i now
    by (intro modify_session_inv inv session_use.attached session_use.detached)+
  have streamed: "ipc_inv v'" if "handle_streaming_attach env accepts events i v = (v', q)" for i q
    using that inv attached detached
    by (auto simp: handle_streaming_attach_def Let_def split: option.splits prod.splits if_splits bool.splits)
  show ?case
  proof (cases parsed)
    case (Inl e)
    with 1 show ?thesis by (simp add: handle_connection_def)
  next
    case (Inr message)
    show ?thesis
    proof (cases "\<exists>i. message = Request (AttachSession i)")
      case True
      with Inr 1 streamed show ?thesis by (auto simp: handle_connection_def)
    next
      case False
      obtain u q where h: "handle_message env message v = (u, q)" by fastforce
      with False Inr 1(4) have "v' = u"
        by (auto simp: handle_connection_def split: ipc_message.splits ipc_request.splits option.splits)
      with handle_message_inv [OF _ h] 1 show ?thesis by simp
    qed
  qed
next
  case (2 v env)
  obtain v' r where k: "on_manager (reap_inactive_sessions (ie_peer env) (ie_timestamp env) (ie_now env) (ie_updated env) session_idle_ttl) v = (v', r)"
    by fastforce
  then obtain m' h' where m: "reap_inactive_sessions (ie_peer env) (ie_timestamp env) (ie_now env) (ie_updated env) session_idle_ttl
      (iw_manager v, iw_calls v) = ((m', h'), r)" "v' = v\<lparr>iw_manager := m', iw_calls := h'\<rparr>"
    by (auto simp: on_manager_def split: prod.splits)
  from manager_step_inv [OF _ manager_step.reaped [OF m(1)]] 2 m(2) k show ?case
    by (cases r) (auto simp: reap_tick_def ipc_inv_def)
qed

lemma ipc_start_inv: "ipc_start w \<Longrightarrow> ipc_inv w"
  by (auto simp: ipc_start_def ipc_inv_def tracker_ok_def empty_tracker_def dest: manager_start_inv)

interpretation ipc: inductive_invariant ipc_start ipc_step ipc_inv
  by unfold_locales (auto intro: ipc_step_inv ipc_start_inv)

text \<open>C26: over every sequence of connections and reapings the server keeps its tables consistent and the lines it
  tracks well-formed: no two sessions, tunnels or recordings share an identifier, a connected session has a
  client, a tracked line is within its bound and not the empty one, and only a session with a line in progress
  is marked as receiving sensitive input.\<close>

theorem ipc_server_stays_consistent:
  assumes "reachable_from ipc_start ipc_step w"
  shows "distinct (map fst (sm_sessions (iw_manager w))) \<and>
    (\<forall>(i, s) \<in> set (sm_sessions (iw_manager w)). sn_id s = i \<and> (sn_state s = Connected \<longrightarrow> sn_ssh_client s \<noteq> None)) \<and>
    (\<forall>ts. sm_tunnels (iw_manager w) = Some ts \<longrightarrow> distinct (map fst ts)) \<and>
    (\<forall>l. sm_logger (iw_manager w) = Some l \<longrightarrow> distinct (map fst (lg_active l))) \<and>
    tr_sensitive (iw_tracker w) \<subseteq> dom (tr_buffers (iw_tracker w)) \<and>
    (\<forall>i line. tr_buffers (iw_tracker w) i = Some line \<longrightarrow> line \<noteq> default_input \<and> length (ti_buffer line) \<le> max_tracked_command_bytes)"
  using ipc.reachable_inv [OF assms]
  by (simp add: ipc_inv_def manager_inv_def sessions_inv_def services_inv_def tracker_ok_def line_ok_def)
section \<open>A concrete server\<close>

definition sample_ipc_env :: ipc_env where
  "sample_ipc_env =
     \<lparr>ie_session = sample_session_env, ie_peer = sample_peer MsgSuccess, ie_uuid = ''u9'', ie_now = 5, ie_timestamp = 5,
      ie_events = [(0, 1, Got (MsgData ''out'')), (1, 2, Got (MsgExitStatus 0)), (2, 3, Got MsgClose)],
      ie_lossy = id, ie_escape_debug = id, ie_debug_list = concat, ie_lowercase = to_ascii_lowercase, ie_base64 = id,
      ie_setting = Inr None, ie_decode_guard = (\<lambda>_. None), ie_audit = (\<lambda>_ _. Inr ()),
      ie_sftp = (\<lambda>_ _. Sftp_Client.sample_server),
      ie_paths = \<lparr>lp_cwd = Inr ''/home/u'', lp_roots = [''/home/u/Downloads''], lp_canonicalize = Inr\<rparr>,
      ie_make_dirs = (\<lambda>_. Inr ()), ie_write_file = (\<lambda>_. Inr ()), ie_read_file = (\<lambda>_. Inr ''data''),
      ie_tree = (\<lambda>_ _. (\<lparr>ig_override = Inr (\<lambda>_ _. False), ig_gitignore = (\<lambda>_. Inr None)\<rparr>, (\<lambda>_. Inr []), None, [])),
      ie_ignore_config = Inr None, ie_env_excludes = None, ie_plugin = sample_plugin_env, ie_plugins = Map.empty,
      ie_plugin_rows = Inr [], ie_tunnel_started = Inr 8080, ie_tunnel_ended = None, ie_recording_dir = Inr (),
      ie_recording_path = ''r'', ie_recording_added = Inr (), ie_recording_updated = Inr (), ie_updated = (\<lambda>_. True)\<rparr>"

definition sample_terminal :: session where
  "sample_terminal = (new_session ''u7f3'' 0 0 ''s1'' ''db'')\<lparr>sn_state := Connected,
     sn_ssh_client := Some (new_client\<lparr>sc_session := Some 0, sc_channel := Some 1, sc_shell_channel_id := Some 1\<rparr>)\<rparr>"

definition sample_ipc_world :: ipc_world where
  "sample_ipc_world =
     \<lparr>iw_manager = sample_manager\<lparr>sm_sessions := [(''u7f3'', sample_terminal)]\<rparr>, iw_calls = [], iw_tracker = empty_tracker,
      iw_contexts = [''u7f3'' \<mapsto> \<lparr>cx_home_dir = ''/home/u'', cx_current_path = ''/home/u''\<rparr>], iw_sftp = [], iw_local = [],
      iw_audit = []\<rparr>"

lemma sample_record:
  "length (au_summary event) \<le> 1000 \<Longrightarrow>
     agent_activity_record sample_ipc_env event w = (w\<lparr>iw_audit := iw_audit w @ [event]\<rparr>, Inr ())"
  by (simp add: agent_activity_record_def) (simp add: sample_ipc_env_def)

lemma sample_env_fields:
  "ie_session sample_ipc_env = sample_session_env" "ie_peer sample_ipc_env = sample_peer MsgSuccess" "ie_now sample_ipc_env = 5"
  "ie_timestamp sample_ipc_env = 5" "ie_lossy sample_ipc_env = id" "ie_sftp sample_ipc_env = (\<lambda>_ _. Sftp_Client.sample_server)"
  "ie_paths sample_ipc_env = \<lparr>lp_cwd = Inr ''/home/u'', lp_roots = [''/home/u/Downloads''], lp_canonicalize = Inr\<rparr>"
  "ie_make_dirs sample_ipc_env = (\<lambda>_. Inr ())" "ie_write_file sample_ipc_env = (\<lambda>_. Inr ())" "ie_escape_debug sample_ipc_env = id"
  "ie_events sample_ipc_env = [(0, 1, Got (MsgData ''out'')), (1, 2, Got (MsgExitStatus 0)), (2, 3, Got MsgClose)]"
  "guard_of sample_ipc_env = default_guard_config"
  by (simp_all add: sample_ipc_env_def guard_of_def load_guard_config_def from_stored_json_def)

lemma sample_world_fields:
  "get_session ''u7f3'' (iw_manager sample_ipc_world) = Some sample_terminal" "iw_tracker sample_ipc_world = empty_tracker"
  "iw_contexts sample_ipc_world ''u7f3'' = Some \<lparr>cx_home_dir = ''/home/u'', cx_current_path = ''/home/u''\<rparr>"
  "iw_calls sample_ipc_world = []" "iw_audit sample_ipc_world = []" "iw_local sample_ipc_world = []" "iw_sftp sample_ipc_world = []"
  by (simp_all add: sample_ipc_world_def get_session_def)

lemmas ipc_ops = handle_message_def take_message_def normalise_message_def describe_request_def audit_event_of_def
  finish_message_def dispatch_message_def dispatch_request_def respond_def rollback_def completed_event_def Let_def
  record_started.simps record_completed.simps sample_record sample_env_fields sample_world_fields client_ops

lemma sample_checkpoint:
  assumes "at_boundary data" "list_all plain_char (utf8_chars data)" "length data \<le> max_tracked_command_bytes"
  obtains t cp where "checkpoint_and_observe_sensitive empty_tracker i data [] False False = (t, cp, map verified (completed_lines data), False)"
proof -
  obtain j F where F: "observe_line (current_line empty_tracker i, []) (data @ enter_bytes False) [] False = (j, F)" by fastforce
  then have "F = map verified (completed_lines data)"
    using observe_completed_lines [OF assms] by (simp add: current_line_def empty_tracker_def enter_bytes_def)
  with checkpoint_text [OF _ F] that show thesis by (auto simp: empty_tracker_def)
qed

text \<open>A command, a listing of all it does, and a line that the guard flags.\<close>

lemma sample_exec:
  "iw_calls (fst (handle_message sample_ipc_env (Request (ExecCommand ''u7f3'' ''ls'' None)) sample_ipc_world)) =
     [OpenSession 0, ExecRequest 0 ''ls'', ChannelEof 0]"
proof -
  have "\<not> rd_requires_approval (classify_command ''ls'' default_guard_config)" by code_simp
  then show ?thesis
    by (simp add: ipc_ops exec_ipc_command_def on_session_def smap_err_def sample_terminal_def new_session_def new_client_def
      exec_command_in_session_def with_ssh_client_def exec_command_with_stdin_def exec_command_result_def
      exec_command_result_with_limits_def session_channel_def sample_peer_def nonempty_passphrase_def exec_result_def
      exec_command_timeout_def max_exec_output_def exit_code_of_def update_session_def mark_activity_def)
qed

lemma sample_kill:
  "\<exists>w'. handle_message sample_ipc_env (Request (KillSession ''u7f3'')) sample_ipc_world = (w', Some IpcOk)"
  by (simp add: ipc_ops kill_ipc_session_def clear_sftp_context_def on_manager_def smap_err_def kill_def split: prod.split option.split)

abbreviation removal :: string where
  "removal \<equiv> ''rm -rf /srv'' @ [CHR 0x0D]"

lemma sample_flagged:
  obtains t cp where "checkpoint_and_observe_sensitive (iw_tracker sample_ipc_world) ''u7f3'' (ie_lossy sample_ipc_env removal) [] False False =
    (t, cp, [verified ''rm -rf /srv''], False)" "rd_requires_approval (classify_command ''rm -rf /srv'' default_guard_config)"
proof -
  have "at_boundary removal" "list_all plain_char (utf8_chars removal)" "completed_lines removal = [''rm -rf /srv'']"
    "rd_requires_approval (classify_command ''rm -rf /srv'' default_guard_config)" by code_simp+
  moreover have "length removal \<le> max_tracked_command_bytes" by (simp add: max_tracked_command_bytes_def)
  ultimately show thesis using sample_checkpoint [of removal "''u7f3''"] that by (auto simp: sample_env_fields sample_world_fields)
qed

lemma sample_denied:
  "\<exists>w' e. handle_message sample_ipc_env (Request (SendInput ''u7f3'' removal)) sample_ipc_world = (w', Some (IpcError e))"
proof -
  obtain t cp where c: "checkpoint_and_observe_sensitive (iw_tracker sample_ipc_world) ''u7f3'' (ie_lossy sample_ipc_env removal) [] False False =
    (t, cp, [verified ''rm -rf /srv''], False)" "rd_requires_approval (classify_command ''rm -rf /srv'' default_guard_config)"
    by (rule sample_flagged)
  obtain w1 taken where t: "take_message sample_ipc_env (Request (SendInput ''u7f3'' removal)) sample_ipc_world = (w1, taken)" by fastforce
  with c have "it_denied taken"
    by (auto simp: take_message_def normalise_message_def take_input_def input_denied_def verified_def sample_env_fields(12) default_guard_config_def)
  moreover obtain w' r where "handle_message sample_ipc_env (Request (SendInput ''u7f3'' removal)) sample_ipc_world = (w', r)" by fastforce
  ultimately show ?thesis using denied_input(3) [OF _ t] by blast
qed

lemma sample_download:
  "iw_local (fst (handle_message sample_ipc_env
      (Request (SftpRequest ''u7f3'' (SftpDownloadFile ''a'' ''/home/u/Downloads/x''))) sample_ipc_world)) =
   [MadeDirs [''/'', ''home'', ''u'', ''Downloads''], WroteFile [''/'', ''home'', ''u'', ''Downloads'', ''x''] []]"
proof -
  have "confine_download_target \<lparr>lp_cwd = Inr ''/home/u'', lp_roots = [''/home/u/Downloads''], lp_canonicalize = Inr\<rparr> ''/home/u/Downloads/x'' =
      Inr [''/'', ''home'', ''u'', ''Downloads'', ''x'']" by code_simp
  moreover have "ensure_parent_within_allowlist \<lparr>lp_cwd = Inr ''/home/u'', lp_roots = [''/home/u/Downloads''], lp_canonicalize = Inr\<rparr>
      [''/'', ''home'', ''u'', ''Downloads'', ''x''] = Inr ()" by code_simp
  moreover have "resolve_remote_path ''a'' ''/home/u'' ''/home/u'' = ''/home/u/a''" by code_simp
  moreover have "sv_data Sftp_Client.sample_server = (\<lambda>_. Inr [])" by (simp add: Sftp_Client.sample_server_def)
  ultimately show ?thesis
    by (simp add: ipc_ops describe_sftp_def arrow_def sftp_dispatch_def sftp_download_file_def get_sftp_context_def resolved_in_def with_sftp_def
      on_session_def smap_err_def sample_terminal_def new_session_def new_client_def open_sftp_in_session_def with_ssh_client_def
      open_sftp_session_def session_channel_def channel_accepted_def sample_peer_def numeral_3_eq_3 save_download_def make_local_dirs_def
      write_local_file_def local_parent_def slash_def)
qed

lemma sample_typed:
  "\<exists>w'. handle_message sample_ipc_env (Request (SendInput ''u7f3'' (''ls'' @ [CHR 0x0D]))) sample_ipc_world = (w', Some IpcOk)"
proof -
  let ?data = "''ls'' @ [CHR 0x0D]"
  have "at_boundary ?data" "list_all plain_char (utf8_chars ?data)" "completed_lines ?data = [''ls'']"
    and safe: "\<not> rd_requires_approval (classify_command ''ls'' default_guard_config)" by code_simp+
  moreover have "length ?data \<le> max_tracked_command_bytes" by (simp add: max_tracked_command_bytes_def)
  ultimately obtain t cp where
    "checkpoint_and_observe_sensitive empty_tracker ''u7f3'' ?data [] False False = (t, cp, [verified ''ls''], False)"
    using sample_checkpoint [of ?data "''u7f3''"] by auto
  with safe show ?thesis
    by (simp add: ipc_ops take_input_def input_descriptions_def input_denied_def verified_def redacted_def send_ipc_input_def on_session_def
      smap_err_def sample_terminal_def new_session_def new_client_def write_to_ssh_def with_ssh_client_def send_data_def sample_peer_def
      update_session_def mark_activity_def)
qed

section \<open>The properties on the concrete server\<close>



theorem downloads_are_confined_witness:
  "''..'' \<notin> set [''/'', ''home'', ''u'', ''Downloads'', ''x'']"
proof -
  let ?message = "Request (SftpRequest ''u7f3'' (SftpDownloadFile ''a'' ''/home/u/Downloads/x''))"
  obtain w' r where h: "handle_message sample_ipc_env ?message sample_ipc_world = (w', r)" by fastforce
  with sample_download have "WroteFile [''/'', ''home'', ''u'', ''Downloads'', ''x''] [] \<in>
      set (drop (length (iw_local sample_ipc_world)) (iw_local w'))"
    by (simp add: sample_world_fields)
  from downloads_are_confined [OF h this] show ?thesis by blast
qed

theorem error_restores_typed_lines_witness:
  "\<exists>w' e. handle_message sample_ipc_env (Request (SendInput ''u7f3'' removal)) sample_ipc_world = (w', Some (IpcError e)) \<and>
     iw_tracker w' = empty_tracker"
  using sample_denied error_restores_typed_lines by (metis sample_world_fields(2))



theorem flagged_input_is_refused_witness:
  "\<exists>w' e. handle_message sample_ipc_env (Request (SendInput ''u7f3'' removal)) sample_ipc_world = (w', Some (IpcError e)) \<and> iw_calls w' = []"
proof -
  obtain t cp where c: "checkpoint_and_observe_sensitive (iw_tracker sample_ipc_world) ''u7f3'' (ie_lossy sample_ipc_env removal) [] False False =
    (t, cp, [verified ''rm -rf /srv''], False)" "rd_requires_approval (classify_command ''rm -rf /srv'' default_guard_config)"
    by (rule sample_flagged)
  obtain w' r where h: "handle_message sample_ipc_env (Request (SendInput ''u7f3'' removal)) sample_ipc_world = (w', r)" by fastforce
  have "gc_enabled (guard_of sample_ipc_env)" by (simp add: sample_env_fields default_guard_config_def)
  from flagged_input_is_refused [OF h this c(1), of "verified ''rm -rf /srv''"] c(2) h show ?thesis
    by (auto simp: verified_def sample_env_fields sample_world_fields)
qed

theorem stream_is_in_order_and_balanced_witness:
  "\<exists>w' sent. handle_streaming_attach sample_ipc_env (\<lambda>_. True) [OutputData ''x'', OutputClosed] ''u7f3'' sample_ipc_world = (w', Inr (Some sent)) \<and>
     (\<exists>s. get_session ''u7f3'' (iw_manager w') = Some s \<and> sn_client_count s = 0)"
proof -
  have "replay_output sample_terminal = []"
    by (simp add: replay_output_def sample_terminal_def new_session_def empty_replay_def snapshot_def)
  then obtain w' sent where
    h: "handle_streaming_attach sample_ipc_env (\<lambda>_. True) [OutputData ''x'', OutputClosed] ''u7f3'' sample_ipc_world = (w', Inr (Some sent))"
    by (simp add: handle_streaming_attach_def sample_world_fields Let_def)
  from stream_is_in_order_and_balanced [OF h sample_world_fields(1)] h show ?thesis
    by (auto simp: sample_terminal_def new_session_def)
qed

theorem failed_attach_is_never_reaped_witness:
  "\<exists>w' e s'. handle_connection sample_ipc_env (\<lambda>_. False) [] (Inr (Request (AttachSession ''u7f3''))) sample_ipc_world = (w', Inl e) \<and>
     get_session ''u7f3'' (iw_manager w') = Some s' \<and> \<not> should_reap 1000000000 session_idle_ttl s'"
  using failed_attach_is_never_reaped [OF sample_world_fields(1), of "\<lambda>_. False" sample_ipc_env "[]"] by auto

theorem ipc_server_stays_consistent_witness:
  "\<exists>w. ipc_step (sample_ipc_world\<lparr>iw_manager := sample_manager\<rparr>) w \<and> distinct (map fst (sm_sessions (iw_manager w)))"
proof -
  let ?w = "sample_ipc_world\<lparr>iw_manager := sample_manager\<rparr>"
  have "reachable_from ipc_start ipc_step ?w"
    by (rule reachable_from.intros) (simp add: ipc_start_def manager_start_def sample_manager_def sample_world_fields)
  moreover have step: "ipc_step ?w (reap_tick sample_ipc_env ?w)" by (rule ipc_step.reaped)
  ultimately have "reachable_from ipc_start ipc_step (reap_tick sample_ipc_env ?w)" by (rule reachable_from.intros)
  from ipc_server_stays_consistent [OF this] step show ?thesis by blast
qed

end
