(* ===== verification/Gateway_Tools_Results.thy ===== *)
theory Gateway_Tools_Results
  imports Gateway_Tools_Facts Ipc_Results Database_Results
begin

text \<open>
  The properties of the tools of the agent gateway: calls are recorded before they act, commands are checked, the
  identifiers a list shows are understood, an edit writes the replacement and nothing else, the sessions of a
  deleted server end, and both transports do the same.
\<close>

section \<open>What is advertised\<close>

definition parameters_of :: "tool_definition \<Rightarrow> string list" where
  "parameters_of t = (case arg ''properties'' (td_input_schema t) of Some (JObject members) \<Rightarrow> map fst members | _ \<Rightarrow> [])"

definition required_of :: "tool_definition \<Rightarrow> string list" where
  "required_of t = given_or (Option.bind (arg ''required'' (td_input_schema t)) json_strings) []"

definition type_of_parameter :: "tool_definition \<Rightarrow> string \<Rightarrow> json option" where
  "type_of_parameter t name =
     Option.bind (arg ''properties'' (td_input_schema t)) (\<lambda>p. Option.bind (arg name p) (arg ''type''))"

definition tool_names :: "string list" where
  "tool_names = map td_name get_tool_definitions"

lemma tool_names_list: "tool_names =
    [''plugin_list'', ''plugin_describe'', ''plugin_execute'', ''server_list'', ''server_add'', ''server_get'', ''server_update'',
     ''server_delete'', ''session_list'', ''session_create'', ''session_attach'', ''session_detach'', ''session_kill'',
     ''session_send_input'', ''session_read'', ''session_resize'', ''exec'', ''rg'', ''sftp_ls'', ''sftp_upload'',
     ''sftp_upload_directory'', ''sftp_sync_directory'', ''sftp_download'', ''sftp_mkdir'', ''sftp_rm'', ''sftp_mv'', ''sftp_read'',
     ''sftp_write'', ''get_content'', ''edit_file'', ''add_file'']"
  by code_simp

lemma schemas_kept:
  "distinct tool_names" "map td_name get_compact_tool_definitions = tool_names"
  "map parameters_of get_compact_tool_definitions = map parameters_of get_tool_definitions"
  "map required_of get_compact_tool_definitions = map required_of get_tool_definitions"
  "list_all (\<lambda>t. list_all (\<lambda>f. List.member (parameters_of t) f) (required_of t)) get_tool_definitions"
  by code_simp+

lemma types_kept:
  "map (\<lambda>t. map (type_of_parameter t) (parameters_of t)) get_compact_tool_definitions =
   map (\<lambda>t. map (type_of_parameter t) (parameters_of t)) get_tool_definitions"
  by code_simp


text \<open>A call that fails and leaves the world alone.\<close>

definition refused :: "'a tool \<Rightarrow> bool" where
  "refused m \<longleftrightarrow> (\<forall>w. \<exists>e. m w = (w, Inl e))"

lemma refused_required: "arg n args = None \<Longrightarrow> refused (sbind (required n args) k)"
  by (simp add: refused_def required_def arg_str_def ok_or_def slift_bind sfail_def)

lemma refused_later: "(\<And>x. refused (k x)) \<Longrightarrow> refused (sbind (required n args) k)"
  by (auto simp: refused_def required_def slift_bind sfail_def split: sum.split)

lemma refused_always: "refused m \<Longrightarrow> refused (always m)"
proof -
  assume m: "refused m"
  have "\<exists>e. always m w = (w, Inl e)" for w
  proof -
    obtain e where "m w = (w, Inl e)" using m by (auto simp: refused_def)
    then show ?thesis by (simp add: always_def sbind_def)
  qed
  then show "refused (always m)" by (simp add: refused_def)
qed

lemma send_input_missing:
  "sa_session_id given = None \<Longrightarrow> tool_session_send_input genv given st = (st, Inl ''Missing required field: session_id'')"
  by (simp add: tool_session_send_input_def ok_or_def Let_def)

lemma same_after_gateway: "leave_gateway (gateway_view w) w = w"
  by (simp add: leave_gateway_def gateway_view_def activities_def)

lemma refused_terminal:
  "arg ''session_id'' args = None \<Longrightarrow> refused (run_send_input env args)"
  "arg ''session_id'' args = None \<Longrightarrow> refused (run_session_read env args)"
  "arg ''session_id'' args = None \<or> arg ''cols'' args = None \<or> arg ''rows'' args = None \<Longrightarrow> refused (run_session_resize env args)"
proof -
  show "arg ''session_id'' args = None \<Longrightarrow> refused (run_send_input env args)"
    by (simp add: refused_def run_send_input_def written_by_def in_gateway_def send_input_missing send_args_of_def arg_str_def
        Let_def same_after_gateway [unfolded gateway_view_def] gateway_view_def List.map_filter_simps)
  show "arg ''session_id'' args = None \<Longrightarrow> refused (run_session_read env args)"
    by (simp add: refused_def run_session_read_def tool_session_read_def arg_str_def ok_or_def Let_def)
  show "arg ''session_id'' args = None \<or> arg ''cols'' args = None \<or> arg ''rows'' args = None \<Longrightarrow> refused (run_session_resize env args)"
    by (auto simp: refused_def run_session_resize_def tool_session_resize_def arg_str_def arg_nat_def ok_or_def Let_def split: option.splits)
qed

lemma required_fields: "map (\<lambda>t. (td_name t, required_of t)) get_compact_tool_definitions =
    [(''plugin_list'', []), (''plugin_describe'', [''plugin_id'']), (''plugin_execute'', [''pluginId'', ''actionId'', ''sessionId'']),
     (''server_list'', []), (''server_add'', [''name'', ''host'', ''username'', ''auth_type'']), (''server_get'', []),
     (''server_update'', [''id'']), (''server_delete'', [''id'']), (''session_list'', []), (''session_create'', []),
     (''session_attach'', [''session_id'']), (''session_detach'', [''session_id'']), (''session_kill'', []),
     (''session_send_input'', [''session_id'']), (''session_read'', [''session_id'']),
     (''session_resize'', [''session_id'', ''cols'', ''rows'']), (''exec'', [''session_id'', ''command'']),
     (''rg'', [''session_id'', ''pattern'']), (''sftp_ls'', [''session_id'']),
     (''sftp_upload'', [''session_id'', ''local_path'', ''remote_path'']),
     (''sftp_upload_directory'', [''session_id'', ''local_path'', ''remote_path'']),
     (''sftp_sync_directory'', [''session_id'', ''local_path'', ''remote_path'']),
     (''sftp_download'', [''session_id'', ''remote_path'', ''local_path'']), (''sftp_mkdir'', [''session_id'', ''path'']),
     (''sftp_rm'', [''session_id'', ''path'']), (''sftp_mv'', [''session_id'', ''source'', ''destination'']),
     (''sftp_read'', [''session_id'', ''path'']), (''sftp_write'', [''session_id'', ''path'', ''content'']),
     (''get_content'', [''session_id'', ''path'']), (''edit_file'', [''session_id'', ''path'']),
     (''add_file'', [''session_id'', ''path'', ''content''])]"
  by code_simp

lemma describe_missing: "arg ''plugin_id'' args = None \<Longrightarrow> refused (run_plugin_describe env args)"
  by (simp add: refused_def run_plugin_describe_def arg_str_def ok_or_def)

lemma refused_sessions:
  "arg ''session_id'' args = None \<Longrightarrow> refused (tool_session_attach env args)"
  "arg ''session_id'' args = None \<Longrightarrow> refused (tool_session_detach env args)"
  "arg ''session_id'' args = None \<or> arg ''command'' args = None \<Longrightarrow> refused (run_exec env args)"
  "arg ''session_id'' args = None \<or> arg ''pattern'' args = None \<Longrightarrow> refused (tool_remote_rg env args)"
  unfolding tool_session_attach_def tool_session_detach_def client_change_def run_exec_def tool_remote_rg_def
  by (blast intro: refused_required refused_later)+

lemma refused_servers:
  "arg ''name'' args = None \<or> arg ''host'' args = None \<or> arg ''username'' args = None \<or> arg ''auth_type'' args = None \<Longrightarrow> refused (tool_server_add env args)"
  "arg ''id'' args = None \<Longrightarrow> refused (tool_server_update env args)"
  "arg ''id'' args = None \<Longrightarrow> refused (tool_server_delete env args)"
  unfolding tool_server_add_def tool_server_update_def tool_server_delete_def
  by (blast intro: refused_required refused_later)+

lemma refused_files:
  "arg ''session_id'' args = None \<Longrightarrow> refused (tool_sftp_ls env args)"
  "arg ''session_id'' args = None \<or> arg ''local_path'' args = None \<or> arg ''remote_path'' args = None \<Longrightarrow> refused (tool_sftp_upload env args)"
  "arg ''session_id'' args = None \<or> arg ''local_path'' args = None \<or> arg ''remote_path'' args = None \<Longrightarrow> refused (tool_sftp_upload_directory env args mode)"
  "arg ''session_id'' args = None \<or> arg ''local_path'' args = None \<or> arg ''remote_path'' args = None \<Longrightarrow> refused (tool_sftp_download env args)"
  "arg ''session_id'' args = None \<or> arg ''path'' args = None \<Longrightarrow> refused (tool_sftp_mkdir env args)"
  "arg ''session_id'' args = None \<or> arg ''path'' args = None \<Longrightarrow> refused (tool_sftp_rm env args)"
  "arg ''session_id'' args = None \<or> arg ''source'' args = None \<or> arg ''destination'' args = None \<Longrightarrow> refused (tool_sftp_mv env args)"
  "arg ''session_id'' args = None \<or> arg ''path'' args = None \<Longrightarrow> refused (tool_sftp_read env args)"
  "arg ''session_id'' args = None \<or> arg ''path'' args = None \<or> arg ''content'' args = None \<Longrightarrow> refused (tool_sftp_write env args)"
  "arg ''session_id'' args = None \<or> arg ''path'' args = None \<or> arg ''content'' args = None \<Longrightarrow> refused (tool_add_file env args)"
  "arg ''session_id'' args = None \<or> arg ''path'' args = None \<Longrightarrow> refused (tool_edit_file env args)"
  unfolding tool_sftp_ls_def tool_sftp_upload_def tool_sftp_upload_directory_def tool_sftp_download_def tool_sftp_mkdir_def
    tool_sftp_rm_def tool_sftp_mv_def tool_sftp_read_def tool_sftp_write_def tool_add_file_def tool_edit_file_def
  by (blast intro: refused_required refused_later)+


text \<open>Supporting result: the schemas of the upload and the download advertise \<open>overwrite\<close>, false by default, but the tools do not
  read it: whatever is given for it, they do the same, which is to replace what is there.\<close>

theorem overwrite_is_ignored:
  shows "list_all (\<lambda>t. List.member (parameters_of t) ''overwrite'') [sftp_upload_tool, sftp_download_tool] \<and>
    tool_sftp_upload env (JObject (members @ [(''overwrite'', v)])) = tool_sftp_upload env (JObject members) \<and>
    tool_sftp_download env (JObject (members @ [(''overwrite'', v)])) = tool_sftp_download env (JObject members)"
proof -
  have same: "arg n (JObject (members @ [(''overwrite'', v)])) = arg n (JObject members)" if "n \<noteq> ''overwrite''" for n
    using that by (simp add: arg_def map_add_def split: option.split)
  have "list_all (\<lambda>t. List.member (parameters_of t) ''overwrite'') [sftp_upload_tool, sftp_download_tool]" by code_simp
  then show ?thesis
    by (simp add: tool_sftp_upload_def tool_sftp_download_def required_def arg_str_def same)
qed

text \<open>Supporting result: over HTTP nothing is done for a request that does not carry the token of the gateway.\<close>

theorem gateway_needs_the_token:
  assumes "authorization \<noteq> Some (''Bearer '' @ token)"
  shows "gateway_http env token authorization verb route body w = (w, Unauthorized)"
proof -
  have "\<not> bearer_authorized token authorization"
    using assms by (cases authorization) (auto simp: bearer_authorized_def strip_prefix_def starts_with_iff_prefix prefix_def split: option.splits if_splits)
  then show ?thesis by (simp add: gateway_http_def)
qed

section \<open>Recording\<close>

lemma record_event_cases:
  obtains (recorded) "ie_audit (te_ipc env) (iw_audit (tl_base w)) event = Inr ()" "length (au_summary event) \<le> 256 * 1024"
    "record_event env event w =
      (w\<lparr>tl_base := (tl_base w)\<lparr>iw_audit := iw_audit (tl_base w) @ [event]\<rparr>\<rparr>, Inr ())"
  | (failed) e where "record_event env event w = (w, Inl (''Agent activity could not be recorded: '' @ e))"
  by (cases "256 * 1024 < length (au_summary event)"; cases "ie_audit (te_ipc env) (iw_audit (tl_base w)) event")
    (auto simp: record_event_def smap_err_def in_base_def agent_activity_record_def)

lemma record_event_prefix: "prefix rows (iw_audit (tl_base w)) \<Longrightarrow> prefix rows (iw_audit (tl_base (fst (record_event env event w))))"
  by (rule record_event_cases [of env w event]) auto

lemma execute_tool_prefix:
  "execute_tool env name args w = (w', r) \<Longrightarrow> prefix (iw_audit (tl_base w)) (iw_audit (tl_base w'))"
  by (rule stays_at [OF tools_audit.execute_tool_stays]) auto

abbreviation called_tool :: "json \<Rightarrow> string \<Rightarrow> json \<Rightarrow> bool" where
  "called_tool p name args \<equiv> arg_str ''name'' p = Some name \<and> args = given_or (arg ''arguments'' p) (JObject [])"

lemma handle_call_run:
  "called_tool p name args \<Longrightarrow> handle_tools_call env (Some p) w =
     (case record_event env (tool_event name args (arg_str ''session_id'' args) Started) w of
        (w', Inl e) \<Rightarrow> (w', Some (Inl (internal_error, e)))
      | (w', Inr _) \<Rightarrow> (case run_tool env name args w' of (w'', r) \<Rightarrow> (w'', map_option Inr r)))"
  by (auto simp: handle_tools_call_def Let_def)

text \<open>C22: A call of a tool is recorded before the tool acts: if its row cannot be written, nothing happens and the call is
  answered with that error.  Otherwise the rows written so far stay, the row of the start is the first new one, and the
  answer is the text the tool gave in the world with that row.  The row of \<open>exec\<close> holds the whole command.\<close>

theorem tool_calls_are_recorded:
  assumes "called_tool p name args" "handle_tools_call env (Some p) w = (w', r)"
  defines "started \<equiv> tool_event name args (arg_str ''session_id'' args) Started"
  shows "w' = w \<and> (\<exists>e. r = Some (Inl (internal_error, ''Agent activity could not be recorded: '' @ e))) \<or>
    (\<exists>w1 answer. prefix (iw_audit (tl_base w) @ [started]) (iw_audit (tl_base w')) \<and>
       execute_tool env name args (w\<lparr>tl_base := (tl_base w)\<lparr>iw_audit := iw_audit (tl_base w) @ [started]\<rparr>\<rparr>) = (w1, answer) \<and>
       iw_calls (tl_base w') = iw_calls (tl_base w1) \<and> iw_manager (tl_base w') = iw_manager (tl_base w1) \<and>
       r = (case answer of Inl e \<Rightarrow> Some (Inr (text_result (Inl e)))
            | Inr content \<Rightarrow> map_option (\<lambda>x. Inr (text_result (Inr x))) content) \<and>
       (name = ''exec'' \<and> arg_str ''command'' args = Some c \<longrightarrow> au_summary started = c))"
proof (rule record_event_cases [of env w started])
  assume rec: "record_event env started w =
      (w\<lparr>tl_base := (tl_base w)\<lparr>iw_audit := iw_audit (tl_base w) @ [started]\<rparr>\<rparr>, Inr ())"
  let ?w = "w\<lparr>tl_base := (tl_base w)\<lparr>iw_audit := iw_audit (tl_base w) @ [started]\<rparr>\<rparr>"
  obtain w1 answer where run: "execute_tool env name args ?w = (w1, answer)" by fastforce
  from execute_tool_prefix [OF run] have old: "prefix (iw_audit (tl_base w) @ [started]) (iw_audit (tl_base w1))" by simp
  have same: "iw_calls (tl_base (fst (record_event env event w1))) = iw_calls (tl_base w1)"
    "iw_manager (tl_base (fst (record_event env event w1))) = iw_manager (tl_base w1)" for event
    by (rule record_event_cases [of env w1 event]; simp)+
  have "name = ''exec'' \<and> arg_str ''command'' args = Some c \<longrightarrow> au_summary started = c"
    by (simp add: started_def tool_event_def activity_summary_def activity_detail_def)
  moreover have handled: "(w', r) = (case run_tool env name args ?w of (w'', r) \<Rightarrow> (w'', map_option Inr r))"
    using handle_call_run [OF assms(1), of env w] rec assms(2) by (simp add: started_def)
  have "(w' = w1 \<or> (\<exists>event. w' = fst (record_event env event w1))) \<and>
      r = (case answer of Inl e \<Rightarrow> Some (Inr (text_result (Inl e)))
            | Inr content \<Rightarrow> map_option (\<lambda>x. Inr (text_result (Inr x))) content)"
  proof (cases answer)
    case (Inl e)
    with handled run show ?thesis by (auto simp: run_tool_def Let_def)
  next
    case (Inr content)
    with handled run show ?thesis by (cases content) (auto simp: run_tool_def Let_def)
  qed
  ultimately show ?thesis
    using run old record_event_prefix [OF old, of env] same by blast
next
  fix e assume "record_event env started w = (w, Inl (''Agent activity could not be recorded: '' @ e))"
  with assms(2) handle_call_run [OF assms(1), of env w]
  have "(w', r) = (w, Some (Inl (internal_error, ''Agent activity could not be recorded: '' @ e)))"
    by (simp only: started_def prod.case sum.case)
  then show ?thesis by blast
qed

section \<open>Commands\<close>

text \<open>The user approved \<open>a\<close> after the first \<open>n\<close> effects.\<close>

definition approved_since :: "nat \<Rightarrow> approval_request \<Rightarrow> (ipc_world \<Rightarrow> bool) \<Rightarrow> tool_world \<Rightarrow> bool" where
  "approved_since n a P w \<longleftrightarrow> Asked a Approved \<in> set (drop n (tl_effects w)) \<and> P (tl_base w)"

lemma in_base_approved: "stays P m \<Longrightarrow> stays (approved_since n a P) (in_base m)"
  by (fastforce simp: holds_def in_base_def approved_since_def split: prod.splits sum.splits)

lemma performed_approved:
  "stays (approved_since n a (\<lambda>b. ssh_step runs h0 (iw_calls b))) (in_gateway (\<lambda>st. (perform e st, Inr ())))"
  by (auto simp: holds_def in_gateway_def leave_gateway_def gateway_view_def perform_def approved_since_def)

lemma approval_approves:
  "holds (\<lambda>w. n \<le> length (tl_effects w) \<and> iw_calls (tl_base w) = h0) (approved_by_user env tool i command reasons)
     (\<lambda>_. approved_since n \<lparr>ar_tool = tool, ar_command = command, ar_reasons = reasons, ar_session_id = Some i\<rparr> (\<lambda>b. ssh_step runs h0 (iw_calls b)))
     (\<lambda>w. iw_calls (tl_base w) = h0)"
  by (auto simp: holds_def approved_by_user_def in_gateway_def leave_gateway_def gateway_view_def perform_def require_approval_def
      approved_since_def Let_def split: option.splits approval_outcome.splits)

context ipc_invariant
begin

lemma reviewed_stays:
  assumes "runs reviewed"
  shows "stays P (plugin_execute env q source (Some reviewed))"
proof -
  have run: "stays P (run_action env q is_local p)" if "runs (pr_command p)" for is_local p
    using that unfolding run_action_def by (auto intro!: leaves exec_stays split: option.split)
  show ?thesis
    unfolding plugin_execute_def Let_def
  proof (rule stays_lift_bind, rule stays_lift_bind, rule stays_lift_bind, goal_cases)
    case (1 p u v)
    with assms have "runs (pr_command p)" by (auto split: if_splits)
    then show ?case by (auto intro!: leaves stays_try record_stays run split: prod.split)
  qed
qed

end

definition checked_command :: "'v tool_env \<Rightarrow> string \<Rightarrow> json \<Rightarrow> effect list \<Rightarrow> string \<Rightarrow> bool" where
  "checked_command env name args effects c \<longleftrightarrow>
     name = ''rg'' \<and> (\<exists>p. arg_str ''pattern'' args = Some p \<and> c = build_remote_rg_command (search_options_of p args)) \<or>
     name = ''exec'' \<and> \<not> (gc_enabled (guard_of (te_ipc env)) \<and> gc_require_for_exec (guard_of (te_ipc env)) \<and>
       rd_requires_approval (classify_command c (guard_of (te_ipc env)))) \<or>
     name = ''plugin_execute'' \<and> (\<exists>q i p. te_plugin_request env args = Inr q \<and> c = pr_command p \<and> \<not> pr_requires_confirmation p \<and>
       prepare (plugin_env_of (te_ipc env)) (ie_plugins (te_ipc env)) (q\<lparr>rq_confirmed := False, rq_session_id := i\<rparr>)
         (pe_is_local (plugin_env_of (te_ipc env)) i) = Inr p) \<or>
     (\<exists>tool reasons i. Asked \<lparr>ar_tool = tool, ar_command = c, ar_reasons = reasons, ar_session_id = Some i\<rparr> Approved \<in> set effects)"

abbreviation checked_since :: "'v tool_env \<Rightarrow> string \<Rightarrow> json \<Rightarrow> nat \<Rightarrow> ssh_log \<Rightarrow> tool_world \<Rightarrow> bool" where
  "checked_since env name args n h0 \<equiv>
     (\<lambda>w. ssh_step (checked_command env name args (drop n (tl_effects w))) h0 (iw_calls (tl_base w)))"

lemma approved_checked:
  "approved_since n \<lparr>ar_tool = tool, ar_command = c, ar_reasons = reasons, ar_session_id = Some i\<rparr>
     (\<lambda>b. ssh_step (\<lambda>d. d = c) h0 (iw_calls b)) w \<Longrightarrow> checked_since env name args n h0 w"
  unfolding approved_since_def checked_command_def by (elim conjE ssh_step_mono) blast

abbreviation unchanged :: "nat \<Rightarrow> ssh_log \<Rightarrow> tool_world \<Rightarrow> bool" where
  "unchanged n h0 \<equiv> (\<lambda>w. n \<le> length (tl_effects w) \<and> iw_calls (tl_base w) = h0)"

lemma approved_run:
  assumes "\<And>x. stays (approved_since n \<lparr>ar_tool = tool, ar_command = c, ar_reasons = reasons, ar_session_id = Some i\<rparr>
      (\<lambda>b. ssh_step (\<lambda>d. d = c) h0 (iw_calls b))) (k x)"
  shows "holds (unchanged n h0) (sbind (approved_by_user env tool i c reasons) k) (\<lambda>_. checked_since env name args n h0)
      (checked_since env name args n h0)"
proof (rule holds_bind)
  show "holds (unchanged n h0) (approved_by_user env tool i c reasons)
      (\<lambda>_. approved_since n \<lparr>ar_tool = tool, ar_command = c, ar_reasons = reasons, ar_session_id = Some i\<rparr> (\<lambda>b. ssh_step (\<lambda>d. d = c) h0 (iw_calls b)))
      (checked_since env name args n h0)"
    by (rule holds_conseq [OF approval_approves]) auto
  show "holds (approved_since n \<lparr>ar_tool = tool, ar_command = c, ar_reasons = reasons, ar_session_id = Some i\<rparr> (\<lambda>b. ssh_step (\<lambda>d. d = c) h0 (iw_calls b))) (k x)
      (\<lambda>_. checked_since env name args n h0) (checked_since env name args n h0)" for x
    by (rule holds_conseq [OF assms]) (auto intro: approved_checked)
qed

lemma plain_checked:
  assumes "\<And>c. runs c \<Longrightarrow> checked_command env name args [] c" "\<And>h. stays (over (\<lambda>b. ssh_step runs h (iw_calls b))) m"
  shows "holds (unchanged n h0) m (\<lambda>_. checked_since env name args n h0) (checked_since env name args n h0)"
proof (rule holds_conseq [OF assms(2) [of h0]])
  have "checked_command env name args es c" if "runs c" for es c
    using assms(1) [OF that] unfolding checked_command_def by auto
  then show "ssh_step runs h0 (iw_calls (tl_base w)) \<Longrightarrow> checked_since env name args n h0 w"
    "ssh_step runs h0 (iw_calls (tl_base w)) \<Longrightarrow> checked_since env name args n h0 w" for w
    by (auto intro: ssh_step_mono)
qed auto

lemma holds_lifted:
  "(\<And>x. r = Inr x \<Longrightarrow> holds P (k x) Q E) \<Longrightarrow> (\<And>w. P w \<Longrightarrow> E w) \<Longrightarrow> holds P (sbind (slift r) k) Q E"
  by (cases r) (auto simp: slift_bind holds_def sfail_def)

lemma holds_resolved:
  "(\<And>s. holds P (k s) Q E) \<Longrightarrow> (\<And>w. P w \<Longrightarrow> E w) \<Longrightarrow> holds P (sbind (resolve_session i) k) Q E"
  by (fastforce simp: holds_def sbind_def resolve_session_def split: sum.splits)

lemma exec_checked:
  "holds (unchanged n h0) (run_exec env args) (\<lambda>_. checked_since env ''exec'' args n h0) (checked_since env ''exec'' args n h0)"
  unfolding run_exec_def Let_def required_def
proof (rule holds_lifted, rule holds_lifted, rule holds_resolved, goal_cases)
  case (1 reference command s)
  let ?flagged = "gc_enabled (guard_of (te_ipc env)) \<and> gc_require_for_exec (guard_of (te_ipc env)) \<and>
      rd_requires_approval (classify_command command (guard_of (te_ipc env)))"
  let ?rest = "sbind (in_gateway (\<lambda>st. (perform (TerminalInput (sn_id s) command KindExec) st, Inr ()))) (\<lambda>_.
      run_command env (sn_id s) command (timeout_of args))"
  show ?case
  proof (cases ?flagged)
    case True
    have "stays (approved_since n a (\<lambda>b. ssh_step (\<lambda>d. d = command) h0 (iw_calls b))) ?rest" for a
      unfolding run_command_def
      by (intro stays_bind performed_approved holds_map_err in_base_approved ipc_calls.exec_stays stays_leaves) simp
    with True show ?thesis by (simp add: approved_run)
  next
    case False
    have "stays (over (\<lambda>b. ssh_step (\<lambda>d. d = command) h (iw_calls b))) ?rest" for h
      by (intro stays_bind tools_calls.gateway_stays tools_calls.run_command_stays) simp
    then have "holds (unchanged n h0) ?rest (\<lambda>_. checked_since env ''exec'' args n h0) (checked_since env ''exec'' args n h0)"
      using False by (intro plain_checked [where runs = "\<lambda>d. d = command"]) (auto simp: checked_command_def)
    with False show ?thesis by (simp only: if_False sreturn_bind)
  qed
qed simp_all

lemma plugin_checked:
  "holds (unchanged n h0) (run_plugin env args) (\<lambda>_. checked_since env ''plugin_execute'' args n h0)
     (checked_since env ''plugin_execute'' args n h0)"
proof -
  let ?local = "pe_is_local (plugin_env_of (te_ipc env))"
  let ?Q = "checked_since env ''plugin_execute'' args n h0"
  have result: "stays P (case result of None \<Rightarrow> sreturn None | Some res \<Rightarrow> slift (f res))"
    for result P and f :: "_ \<Rightarrow> string + string option"
    by (intro stays_option stays_leaves)
  let ?go = "\<lambda>request. sbind (slift (prepare (plugin_env_of (te_ipc env)) (ie_plugins (te_ipc env)) request (?local (rq_session_id request)))) (\<lambda>p.
      sbind (if pr_requires_confirmation p then
               sbind (approved_by_user env ''plugin_execute'' (rq_session_id request)
                 (pr_command p) [''Plugin action '' @ rq_plugin_id request @ ''/'' @ rq_action_id request @ '' requires approval'']) (\<lambda>_.
               in_base (plugin_execute (te_later env) (request\<lparr>rq_confirmed := True\<rparr>) ''mcp.plugin'' (Some (pr_command p))))
             else in_base (plugin_execute (te_ipc env) request ''mcp.plugin'' (Some (pr_command p)))) (\<lambda>result.
      case result of
        None \<Rightarrow> sreturn None
      | Some res \<Rightarrow> slift (map_sum id Some (te_plugin_text env (PluginResult res)))))"
  have go: "holds (unchanged n h0) (?go request) (\<lambda>_. ?Q) ?Q"
    if q: "te_plugin_request env args = Inr q" "request = q\<lparr>rq_confirmed := False, rq_session_id := rq_session_id request\<rparr>" for q request
  proof (rule holds_lifted, goal_cases)
    case (1 p)
    show ?case
    proof (cases "pr_requires_confirmation p")
      case True
      then show ?thesis
        by (simp only: if_True sbind_sbind)
          (intro approved_run stays_bind in_base_approved ipc_calls.reviewed_stays result refl)
    next
      case False
      have c: "checked_command env ''plugin_execute'' args [] (pr_command p)"
        unfolding checked_command_def using False q 1 by (metis plugin_request.select_convs(4) plugin_request.surjective plugin_request.update_convs(4))
      show ?thesis
        by (rule plain_checked [where runs = "\<lambda>d. d = pr_command p"])
          (use c False in \<open>auto intro!: stays_bind in_base_stays ipc_calls.reviewed_stays result\<close>)
    qed
  qed simp
  show ?thesis
    unfolding run_plugin_def Let_def
  proof (rule holds_lifted, goal_cases)
    case (1 q)
    then have q: "te_plugin_request env args = Inr q" by (cases "te_plugin_request env args") auto
    show ?case
    proof (cases "?local (rq_session_id q)")
      case True
      with go [OF q, of "q\<lparr>rq_confirmed := False\<rparr>"] show ?thesis by (simp add: sreturn_bind)
    next
      case False
      have "holds (unchanged n h0) (sbind (resolve_session (rq_session_id q)) (\<lambda>s. ?go (q\<lparr>rq_confirmed := False, rq_session_id := sn_id s\<rparr>)))
          (\<lambda>_. ?Q) ?Q"
        by (rule holds_resolved, rule go [OF q]) simp_all
      with False show ?thesis by (simp add: sbind_sbind sreturn_bind)
    qed
  qed simp
qed

lemma no_command_checked:
  assumes "\<And>h. stays (over (\<lambda>b. ssh_step (\<lambda>_. False) h (iw_calls b))) m"
  shows "holds (unchanged n h0) m (\<lambda>_. checked_since env name args n h0) (checked_since env name args n h0)"
  using assms by (rule plain_checked [rotated]) simp

lemma rg_checked:
  "holds (unchanged n h0) (tool_remote_rg env args) (\<lambda>_. checked_since env ''rg'' args n h0) (checked_since env ''rg'' args n h0)"
  by (rule plain_checked [where runs = "tool_command env ''rg'' args"])
    (auto simp: tool_command_def checked_command_def intro: tools_calls.rg_stays)

lemma always_holds: "holds P m (\<lambda>_. R) R \<Longrightarrow> holds P (always m) (\<lambda>_. R) R"
  unfolding always_def by (rule holds_bind [OF stays_return])

lemma execute_tool_checked:
  "holds (unchanged n h0) (execute_tool env name args) (\<lambda>_. checked_since env name args n h0) (checked_since env name args n h0)"
proof -
  consider "name = ''exec''" | "name = ''rg''" | "name = ''plugin_execute''" | "name \<notin> {''exec'', ''rg'', ''plugin_execute''}" by blast
  then show ?thesis
  proof cases
    case 1
    with always_holds [OF exec_checked] show ?thesis by (simp add: execute_tool_def)
  next
    case 2
    with always_holds [OF rg_checked] show ?thesis by (simp add: execute_tool_def)
  next
    case 3
    with plugin_checked show ?thesis by (simp add: execute_tool_def)
  next
    case 4
    then have "\<not> tool_command env name args c" for c by (simp add: tool_command_def)
    then show ?thesis by (intro no_command_checked tools_calls.execute_tool_stays) simp
  qed
qed


section \<open>Shown identifiers\<close>

lemma unique_from_Some:
  assumes "unique_from i others n = Some shown"
  shows "\<exists>m \<ge> n. shown = take m i \<and> (length i \<le> m \<or> (\<forall>j \<in> set others. \<not> prefix shown j))"
  using assms
proof (induction i others n rule: unique_from.induct)
  case (1 i others n)
  show ?case
  proof (cases "n < length i \<and> others \<noteq> []")
    case False
    with 1(2) show ?thesis by (auto simp: unique_from.simps [of i others n] split: if_splits)
  next
    case True
    then show ?thesis
    proof (cases "list_ex (\<lambda>j. starts_with j (take n i)) others")
      case ex: True
      with 1(2) True have b: "is_char_boundary i n" and r: "unique_from i others (n + 1) = Some shown"
        by (auto simp: unique_from.simps [of i others n] split: if_splits)
      from 1(1) [OF True _ ex r] b obtain m where "n + 1 \<le> m" "shown = take m i" "length i \<le> m \<or> (\<forall>j \<in> set others. \<not> prefix shown j)"
        by blast
      then show ?thesis by (intro exI [of _ m]) simp
    next
      case False
      with 1(2) True have "shown = take n i"
        by (auto simp: unique_from.simps [of i others n] split: if_splits)
      with False show ?thesis by (intro exI [of _ n]) (auto simp: list_ex_iff starts_with_iff_prefix)
    qed
  qed
qed

lemma unique_from_returns:
  "list_all (\<lambda>c. \<not> is_cont c) i \<Longrightarrow> n \<le> length i \<Longrightarrow> unique_from i others n \<noteq> None"
proof (induction i others n rule: unique_from.induct)
  case (1 i others n)
  then have "is_char_boundary i n" by (auto simp: is_char_boundary_def list_all_length)
  with 1 show ?case by (subst unique_from.simps) auto
qed

lemma filter_only: "distinct xs \<Longrightarrow> x \<in> set xs \<Longrightarrow> (\<And>y. y \<in> set xs \<Longrightarrow> Q y \<longleftrightarrow> y = x) \<Longrightarrow> filter Q xs = [x]"
proof (induction xs)
  case (Cons a xs)
  then show ?case by (cases "a = x") (auto simp: filter_empty_conv)
qed simp

text \<open>Supporting result: The identifiers that the list of all servers shows are understood by the tools that take one: each is the start of its
  server's identifier, at least eight characters long or the whole of it, and resolves to that server, provided that no
  server bears the shown text as its name.  The loop that looks for them ends.\<close>

theorem listed_ids_resolve_back:
  assumes "distinct (map fst (db_servers db))" "s \<in> set (server_list None None db)"
    "\<And>t. t \<in> set (server_list None None db) \<Longrightarrow> to_ascii_lowercase (se_id t) = se_id t \<and> list_all (\<lambda>c. \<not> is_cont c) (se_id t) \<and> 4 \<le> length (se_id t)"
  shows "\<exists>shown. unique_short_id (se_id s) (map se_id (server_list None None db)) = Some shown \<and>
    prefix shown (se_id s) \<and> min 8 (length (se_id s)) \<le> length shown \<and>
    (server_find_by_name shown db = None \<longrightarrow> resolve_server_id shown db = Inr (se_id s))"
proof -
  let ?all = "server_list None None db" and ?i = "se_id s"
  have ids: "map se_id ?all = map fst (db_servers db)"
    by (simp add: server_list_def row_to_server_def case_prod_beta' comp_def)
  obtain shown where shown: "unique_from ?i (filter (\<lambda>j. j \<noteq> ?i) (map se_id ?all)) (min (length ?i) 8) = Some shown"
    using unique_from_returns assms(2,3) by fastforce
  from unique_from_Some [OF this] obtain m where m: "min (length ?i) 8 \<le> m" "shown = take m ?i"
    "length ?i \<le> m \<or> (\<forall>j \<in> set (filter (\<lambda>j. j \<noteq> ?i) (map se_id ?all)). \<not> prefix shown j)" by blast
  have "prefix shown ?i" unfolding m(2) by (rule take_is_prefix)
  have known: "server_find ?i db \<noteq> None"
  proof -
    from assms(2) have "?i \<in> set (map fst (db_servers db))" by (simp flip: ids)
    then show ?thesis by (auto simp: server_find_def map_of_eq_None_iff)
  qed
  have "resolve_server_id shown db = Inr ?i" if unnamed: "server_find_by_name shown db = None"
  proof (cases "length ?i \<le> m")
    case True
    with m(2) known show ?thesis by (simp add: resolve_server_id_def)
  next
    case False
    have inj: "inj_on se_id (set ?all)" and dist: "distinct ?all"
      using assms(1) unfolding ids [symmetric] distinct_map by simp_all
    have only: "t = s" if "t \<in> set ?all" "prefix shown (se_id t)" for t
      using that m(3) False assms(2) inj by (auto simp: inj_on_eq_iff)
    show ?thesis
    proof (cases "server_find shown db")
      case None
      have lower: "to_ascii_lowercase shown = shown"
        using assms(3) [OF assms(2)] unfolding m(2) by (simp add: to_ascii_lowercase_def flip: take_map)
      have "starts_with (to_ascii_lowercase (se_id t)) shown \<longleftrightarrow> t = s" if t: "t \<in> set ?all" for t
      proof -
        from assms(3) [OF t] have "to_ascii_lowercase (se_id t) = se_id t" by blast
        with only [OF t] \<open>prefix shown ?i\<close> show ?thesis by (auto simp: starts_with_iff_prefix)
      qed
      with dist assms(2) have "filter (\<lambda>t. starts_with (to_ascii_lowercase (se_id t)) shown) ?all = [s]"
        by (rule filter_only)
      moreover have "\<not> length shown < 4" using m(1,2) assms(3) [OF assms(2)] by auto
      ultimately show ?thesis using None unnamed lower by (simp add: resolve_server_id_def)
    next
      case (Some t)
      then obtain r where "map_of (db_servers db) shown = Some r" by (auto simp: server_find_def)
      then have "shown \<in> set (map se_id ?all)" unfolding ids by (auto dest: map_of_SomeD intro: rev_image_eqI)
      then obtain u where "u \<in> set ?all" "se_id u = shown" by auto
      with only have "shown = ?i" by auto
      with Some show ?thesis by (simp add: resolve_server_id_def)
    qed
  qed
  with shown \<open>prefix shown ?i\<close> m show ?thesis
    by (intro exI [of _ shown]) (auto simp: unique_short_id_def)
qed

section \<open>Edits\<close>

lemma contains_take:
  assumes "str_find old s = Some i" "old \<noteq> []"
  shows "\<not> contains (take i s) old"
proof
  assume "contains (take i s) old"
  then obtain j where j: "str_find old (take i s) = Some j" by (metis not_Some_eq str_find_None)
  from str_find_Some [OF this] assms(2) have "prefix old (drop j (take i s))" by simp
  then have "prefix old (drop j s)" by (metis append_take_drop_id drop_append prefix_append)
  moreover have "j < i" using str_find_Some [OF j] assms(2) by (cases "j < i") auto
  ultimately show False using str_find_first [OF assms(1)] by blast
qed

lemma found_split: "str_find old s = Some i \<Longrightarrow> take i s @ old @ drop (i + length old) s = s"
  using str_find_Some [of old s i] by (auto simp: prefix_def) (metis append_eq_conv_conj append_take_drop_id drop_drop add.commute)

lemma pieces_split:
  "old \<noteq> [] \<Longrightarrow> pieces old s \<noteq> [] \<and> join old (pieces old s) = s \<and> (\<forall>p \<in> set (pieces old s). \<not> contains p old)"
proof (induction old s rule: pieces.induct)
  case (1 old s)
  show ?case
  proof (cases "str_find old s")
    case None
    then have "pieces old s = [s]" by (subst pieces.simps) simp
    with None show ?thesis by (simp add: str_find_None)
  next
    case (Some i)
    have p: "pieces old s = take i s # pieces old (drop (i + length old) s)"
      using Some 1(2) by (subst pieces.simps) simp
    obtain q qs where q: "pieces old (drop (i + length old) s) = q # qs"
      using 1(1) [OF Some 1(2,2)] by (cases "pieces old (drop (i + length old) s)") auto
    with 1(1) [OF Some 1(2,2)] show ?thesis
      using found_split [OF Some] contains_take [OF Some 1(2)] by (simp add: p)
  qed
qed

lemma replace_text_pieces:
  assumes "replace_text content old new all = Inr (updated, n)"
  shows "\<exists>ps. content = join old ps \<and> updated = join new ps \<and> length ps = n + 1 \<and> 1 \<le> n \<and> \<not> contains (hd ps) old \<and>
    (if all then list_all (\<lambda>p. \<not> contains p old) ps else n = 1)"
proof (cases all)
  case True
  then have old: "old \<noteq> []" "updated = join new (pieces old content)" "n = length (pieces old content) - 1" "n \<noteq> 0"
    using assms by (auto simp: replace_text_def Let_def split: if_splits)
  with pieces_split [OF old(1), of content] True show ?thesis
    by (intro exI [of _ "pieces old content"]) (auto simp: list_all_iff)
next
  case False
  then obtain i where i: "old \<noteq> []" "str_find old content = Some i" "updated = take i content @ new @ drop (i + length old) content" "n = 1"
    using assms by (auto simp: replace_text_def split: if_splits option.splits)
  with False found_split [OF i(2)] contains_take [OF i(2,1)] show ?thesis
    by (intro exI [of _ "[take i content, drop (i + length old) content]"]) simp
qed

text \<open>What writing \<open>content\<close> to \<open>path\<close> may ask of the server.\<close>

fun write_request :: "string \<Rightarrow> string \<Rightarrow> sftp_request \<Rightarrow> bool" where
  "write_request path content (Write p c) = (p = path \<and> c = content)"
| "write_request path content (OpenWrite p _) = (p = path)"
| "write_request path content (CloseFile p) = (p = path)"
| "write_request path content (RemoveFile _) = False"
| "write_request path content (RemoveDir _) = False"
| "write_request path content (Rename _ _) = False"
| "write_request path content _ = True"

lemma components_write: "emits (write_request path content) (mkdir_components srv current cs)"
proof (induction srv current cs rule: mkdir_components.induct)
  case (2 srv current c cs)
  then show ?case by (auto simp: Let_def intro!: emits_rules split: sum.split)
qed (simp add: emits_rules)

lemma write_emits: "emits (write_request path content) (write_remote_file srv path content)"
  unfolding write_remote_file_def write_remote_file_with_options_def open_with_parent_def sftp_mkdir_recursive_def
  by (auto intro!: emits_rules components_write split: sum.split option.split)

lemma write_acknowledged:
  "write_remote_file srv path content h = (h', Inr ()) \<Longrightarrow> Write path content \<in> set h'"
  by (auto simp: write_remote_file_def write_remote_file_with_options_def sbind_Inr ask_def split: if_splits)

text \<open>C19: An edit by replacement writes one thing only: the text that the file held when it was read, with the occurrences of the
  old text between its pieces replaced by the new one - all of them where the pieces no longer hold the old text, or the
  first - and the count it reports is their number.  In every other case it fails after having read, and the
  server has not been asked to change anything; the file was no directory, no larger than the limit, and text.\<close>

theorem edit_writes_the_replacement:
  assumes "edit_remote_file None (Some old) (Some new) all path srv h = (h', r)"
  shows "(\<exists>e. r = Inl e) \<and> (h' = h @ [Metadata path] \<or> h' = h @ [Metadata path, ReadAll path]) \<or>
    (\<exists>a bytes ps requests. sv_attrs srv (h @ [Metadata path]) = Inr a \<and> \<not> fa_is_dir a \<and> attrs_len a \<le> max_edit_bytes \<and>
       sv_data srv (h @ [Metadata path, ReadAll path]) = Inr bytes \<and> from_utf8 bytes = Some (join old ps) \<and>
       2 \<le> length ps \<and> \<not> contains (hd ps) old \<and> (if all then list_all (\<lambda>p. \<not> contains p old) ps else length ps = 2) \<and>
       h' = h @ [Metadata path, ReadAll path] @ requests \<and> list_all (write_request path (join new ps)) requests \<and>
       (\<forall>n. r = Inr n \<longrightarrow> n = Some (length ps - 1) \<and> Write path (join new ps) \<in> set h'))"
proof (cases "sv_attrs srv (h @ [Metadata path])")
  case (Inl e)
  with assms show ?thesis by (auto simp: edit_remote_file_def sbind_def smap_err_def ask_def)
next
  case (Inr a)
  note meta = this
  let ?h = "h @ [Metadata path, ReadAll path]"
  show ?thesis
  proof (cases "fa_is_dir a \<or> max_edit_bytes < attrs_len a")
    case True
    with assms meta show ?thesis
      by (auto simp: edit_remote_file_def sbind_def smap_err_def ask_def slift_def ok_or_def sfail_def split: if_splits)
  next
    case False
    with assms meta have rest: "(case sv_data srv ?h of Inl e \<Rightarrow> (?h, Inl (''Failed to read '' @ quoted path @ '': '' @ e))
      | Inr bytes \<Rightarrow>
          sbind (slift (ok_or (from_utf8 bytes)
             (''File '' @ quoted path @ '' contains non-UTF-8 binary content. Use sftp_download/upload instead.''))) (\<lambda>current.
           sbind (slift (replace_text current old new all)) (\<lambda>(updated, replacements).
           sbind (write_remote_file srv path updated) (\<lambda>_. sreturn (Some replacements)))) ?h) = (h', r)"
      by (cases "sv_data srv ?h") (simp_all add: edit_remote_file_def sbind_def smap_err_def ask_def slift_def ok_or_def)
    show ?thesis
    proof (cases "\<exists>bytes current updated n. sv_data srv ?h = Inr bytes \<and> from_utf8 bytes = Some current \<and>
        replace_text current old new all = Inr (updated, n)")
      case False
      with rest show ?thesis
        by (auto simp: slift_bind ok_or_def sfail_def split: sum.splits option.splits)
    next
      case True
      then obtain bytes current updated n where ok: "sv_data srv ?h = Inr bytes" "from_utf8 bytes = Some current"
        "replace_text current old new all = Inr (updated, n)" by blast
      from replace_text_pieces [OF ok(3)] obtain ps where ps: "current = join old ps" "updated = join new ps" "length ps = n + 1"
        "1 \<le> n" "\<not> contains (hd ps) old" "if all then list_all (\<lambda>p. \<not> contains p old) ps else n = 1" by blast
      obtain h1 q where w: "write_remote_file srv path updated ?h = (h1, q)" by fastforce
      from emits_run [OF write_emits w] obtain requests where requests: "h1 = ?h @ requests" "list_all (write_request path updated) requests"
        by blast
      from rest ok w have run: "h' = h1" "r = map_sum id (\<lambda>_. Some n) q"
        by (auto simp: slift_bind ok_or_def sbind_def sreturn_def split: sum.splits)
      have "n' = Some (length ps - 1) \<and> Write path (join new ps) \<in> set h'" if "r = Inr n'" for n'
        using that run ps write_acknowledged [of srv path updated ?h h1] w by (cases q) auto
      then show ?thesis
        using meta False ok ps requests run \<open>\<not> (fa_is_dir a \<or> max_edit_bytes < attrs_len a)\<close>
        by (intro disjI2 exI [of _ a] exI [of _ bytes] exI [of _ ps] exI [of _ requests]) (auto split: if_splits)
    qed
  qed
qed

section \<open>Deleting a server\<close>

lemma kill_by_server_effect:
  assumes "manager_inv m" "kill_by_server_id peer now updated i (m, h) = ((m', h'), r)"
  shows "sm_database m' = sm_database m \<and> sm_sessions m' = filter (\<lambda>(k, s). sn_server_id s \<noteq> i) (sm_sessions m) \<and>
    (\<forall>(k, s) \<in> set (sm_sessions m). \<forall>c n. sn_server_id s = i \<longrightarrow> sn_ssh_client s = Some c \<longrightarrow> sc_session c = Some n \<longrightarrow>
       Disconnect n \<in> set (drop (length h) h'))"
proof -
  let ?ids = "map sn_id (filter (\<lambda>s. sn_server_id s = i) (map snd (sm_sessions m)))"
  obtain q where run: "kill_each peer now updated ?ids (m, h) = ((m', h'), q)"
    using assms(2) by (cases "kill_each peer now updated ?ids (m, h)") (auto simp: kill_by_server_id_def sbind_def split: sum.splits)
  note effect = kill_each_effect [OF assms(1) run]
  from assms(1) have inv: "distinct (map fst (sm_sessions m))" "\<And>k s. (k, s) \<in> set (sm_sessions m) \<Longrightarrow> sn_id s = k"
    by (auto simp: manager_inv_def sessions_inv_def)
  have mine: "k \<in> set ?ids \<longleftrightarrow> sn_server_id s = i" if "(k, s) \<in> set (sm_sessions m)" for k s
    using that inv by (auto simp: image_iff) (metis Pair_inject eq_key_imp_eq_value)+
  have "filter (\<lambda>(k, _). k \<notin> set ?ids) (sm_sessions m) = filter (\<lambda>(k, s). sn_server_id s \<noteq> i) (sm_sessions m)"
    by (rule filter_cong) (use mine in auto)
  moreover have "Disconnect n \<in> set (drop (length h) h')"
    if "(k, s) \<in> set (sm_sessions m)" "sn_server_id s = i" "sn_ssh_client s = Some c" "sc_session c = Some n" for k s c n
  proof -
    have "map_of (sm_sessions m) k = Some s" using that(1) inv(1) by simp
    moreover have "k \<in> set ?ids" using mine [OF that(1)] that(2) by blast
    ultimately show ?thesis using effect that(3,4) by blast
  qed
  ultimately show ?thesis using effect by auto
qed

lemma server_delete_gone:
  assumes "server_delete env i db = Inr db'"
  shows "server_find i (dt_sync db') = None \<and> list_all (\<lambda>h. he_server_id h \<noteq> i) (dt_history db') \<and>
    list_all (\<lambda>t. tc_server_id t \<noteq> i) (dt_tunnels db')"
proof -
  from assms obtain d d' where d: "record_local_delete (de_sync env) Server i (d\<lparr>db_servers := AList.delete i (db_servers d)\<rparr>) = Inr d'"
    "db' = db\<lparr>dt_sync := d', dt_tunnels := filter (\<lambda>c. tc_server_id c \<noteq> i) (dt_tunnels db),
       dt_history := filter (\<lambda>h. he_server_id h \<noteq> i) (dt_history db)\<rparr>"
    by (auto simp: server_delete_def elim!: rbind_InrE)
  from record_upsert_keeps(4) [OF d(1)] have "i \<notin> server_ids d'" by (simp add: delete_ids)
  then show ?thesis unfolding d(2) by (auto simp: server_ids_def server_find_def map_of_eq_None_iff list_all_iff)
qed

text \<open>C18: When the tool that deletes a server succeeds, nothing of the server is left: it is not in the database, nor are its tunnels
  and its history, the sessions that remain are exactly those of other servers, and every connection of its
  sessions has been closed.\<close>

theorem deleted_server_leaves_nothing:
  assumes "manager_inv (manager_of w)" "tool_server_delete env args w = (w', Inr answer)"
  shows "\<exists>reference i. arg_str ''id'' args = Some reference \<and> resolve_server_id reference (sm_database (manager_of w)) = Inr i \<and>
    server_find i (sm_database (manager_of w')) = None \<and>
    list_all (\<lambda>h. he_server_id h \<noteq> i) (dt_history (tl_tables w')) \<and> list_all (\<lambda>t. tc_server_id t \<noteq> i) (dt_tunnels (tl_tables w')) \<and>
    sm_sessions (manager_of w') = filter (\<lambda>(k, s). sn_server_id s \<noteq> i) (sm_sessions (manager_of w)) \<and>
    (\<forall>(k, s) \<in> set (sm_sessions (manager_of w)). \<forall>c n. sn_server_id s = i \<longrightarrow> sn_ssh_client s = Some c \<longrightarrow> sc_session c = Some n \<longrightarrow>
       Disconnect n \<in> set (drop (length (iw_calls (tl_base w))) (iw_calls (tl_base w'))))"
proof -
  from assms(2) obtain reference i killed w1 where a: "arg_str ''id'' args = Some reference"
    "resolve_server_id reference (sm_database (manager_of w)) = Inr i"
    "in_base (on_manager (kill_by_server_id (ie_peer (te_ipc env)) (ie_timestamp (te_ipc env)) (ie_updated (te_ipc env)) i)) w = (w1, Inr killed)"
    "change_database env (\<lambda>db. map_sum id (Pair ()) (server_delete (te_storage env) i db)) w1 = (w', Inr ())"
    by (auto simp: tool_server_delete_def sbind_Inr resolve_server_def required_def ok_or_def split: option.splits)
  from a(3) obtain m' h' where k: "kill_by_server_id (ie_peer (te_ipc env)) (ie_timestamp (te_ipc env)) (ie_updated (te_ipc env)) i
      (manager_of w, iw_calls (tl_base w)) = ((m', h'), Inr killed)"
    "w1 = w\<lparr>tl_base := (tl_base w)\<lparr>iw_manager := m', iw_calls := h'\<rparr>\<rparr>"
    by (auto simp: in_base_def on_manager_def manager_of_def split: prod.splits)
  from a(4) obtain db' where db: "server_delete (te_storage env) i (database_of w1) = Inr db'" "w' = set_database db' w1"
    by (cases "server_delete (te_storage env) i (database_of w1)") (auto simp: change_database_def)
  have left: "manager_of w' = m'\<lparr>sm_database := dt_sync db'\<rparr>" "tl_tables w' = db'" "iw_calls (tl_base w') = h'"
    by (simp_all add: db(2) k(2) set_database_def manager_of_def)
  from kill_by_server_effect [OF assms(1) k(1)] server_delete_gone [OF db(1)] a(1,2) left show ?thesis
    by (intro exI [of _ reference] exI [of _ i]) auto
qed

section \<open>Transports\<close>

lemma arg_members [simp]: "arg name (JObject ms) = map_of ms name"
  by (simp add: arg_def)

lemma text_result_content:
  "(case arg ''content'' (text_result (Inr x)) of Some (JArray (c # _)) \<Rightarrow> given_or (arg_str ''text'' c) [] | _ \<Rightarrow> []) = x"
  "\<not> arg_flag ''isError'' (text_result (Inr x))"
  "(case arg ''content'' (text_result (Inl e)) of Some (JArray (c # _)) \<Rightarrow> given_or (arg_str ''text'' c) [] | _ \<Rightarrow> []) = ''Error: '' @ e"
  "arg_flag ''isError'' (text_result (Inl e))"
  by (simp_all add: text_result_def arg_flag_def arg_str_def given_or_def as_str_def as_bool_def)

text \<open>The answer of the standard input, made from that of the HTTP transport.\<close>

definition restated :: "(int \<times> string) + json \<Rightarrow> json" where
  "restated r =
     (case r of
        Inl (_, message) \<Rightarrow> text_result (Inl message)
      | Inr response \<Rightarrow>
          (let content = (case arg ''content'' response of Some (JArray (c # _)) \<Rightarrow> given_or (arg_str ''text'' c) [] | _ \<Rightarrow> []) in
           text_result (if arg_flag ''isError'' response then Inl content else Inr content)))"

lemma public_restates:
  assumes "called_tool p name args"
  shows "execute_tool_public env name args w =
    (case handle_tools_call env (Some p) w of
       (w', r) \<Rightarrow> (w', map_option (\<lambda>r. case r of Inl (_, message) \<Rightarrow> Inl message
         | Inr response \<Rightarrow>
             (let content = (case arg ''content'' response of Some (JArray (c # _)) \<Rightarrow> given_or (arg_str ''text'' c) [] | _ \<Rightarrow> []) in
              if arg_flag ''isError'' response then Inl content else Inr content)) r))"
proof -
  let ?p = "JObject [(''name'', JString name), (''arguments'', args)]"
  have "called_tool ?p name args" by (simp add: arg_str_def given_or_def as_str_def)
  from handle_call_run [OF this, of env w] handle_call_run [OF assms, of env w]
  have "handle_tools_call env (Some ?p) w = handle_tools_call env (Some p) w" by (simp only:)
  then show ?thesis
    by (simp add: execute_tool_public_def Let_def split: prod.split option.split sum.split)
qed

text \<open>C30: Both transports run a tool the same way: the same request leaves the same world, over the standard input the successful
  answers are the same, an error of a tool is repeated with a second ``Error: '' in front, and a call that could not be
  recorded, an error of the protocol over HTTP, is an error of the tool.\<close>

theorem transports_agree:
  assumes "jr_jsonrpc request = ''2.0''" "jr_method request = ''tools/call''" "jr_params request = Some p" "called_tool p name args"
    "handle_jsonrpc env request w = (w', Some response)"
  shows "\<exists>answer. handle_request env request w = (w', Some answer) \<and> jp_id answer = jp_id response \<and>
    (\<forall>content. jp_result response = Inr (text_result (Inr content)) \<longrightarrow> jp_result answer = jp_result response) \<and>
    (\<forall>e. jp_result response = Inr (text_result (Inl e)) \<longrightarrow> jp_result answer = Inr (text_result (Inl (''Error: '' @ e)))) \<and>
    (\<forall>code e. jp_result response = Inl (code, e) \<longrightarrow> jp_result answer = Inr (text_result (Inl e)))"
proof -
  obtain r where h: "handle_tools_call env (Some p) w = (w', Some r)" "response = \<lparr>jp_id = jr_id request, jp_result = r\<rparr>"
    using assms(1,2,3,5) by (auto simp: handle_jsonrpc_def Let_def bind_eq_Some_conv split: prod.splits)
  have "handle_request env request w = (w', Some \<lparr>jp_id = jr_id request, jp_result = Inr (restated r)\<rparr>)"
    using assms(1-4) public_restates [OF assms(4), of env w] h(1)
    by (auto simp: handle_request_def handle_tool_call_def restated_def Let_def split: sum.splits)
  then show ?thesis
    using h(2) by (auto simp: restated_def Let_def text_result_content)
qed

text \<open>The identifiers under which a line has to be answered.\<close>

definition due_ids :: "'v tool_env \<Rightarrow> string \<Rightarrow> json option list" where
  "due_ids env line =
     (if trim line = [] then []
      else (case te_parse_request env (trim line) of
              Inl _ \<Rightarrow> [None]
            | Inr request \<Rightarrow> (if jr_id request = None then [] else [jr_id request])))"

definition calls_plugin :: "'v tool_env \<Rightarrow> string \<Rightarrow> bool" where
  "calls_plugin env line \<longleftrightarrow>
     (case te_parse_request env (trim line) of
        Inl _ \<Rightarrow> False
      | Inr request \<Rightarrow> jr_method request = ''tools/call'' \<and>
          Option.bind (jr_params request) (arg_str ''name'') = Some ''plugin_execute'')"

lemma always_some: "always m w \<noteq> (w', Inr None)"
  by (auto simp: always_def sbind_def sreturn_def split: prod.splits sum.splits)

lemma call_returns:
  assumes "called_tool p name args" "name \<noteq> ''plugin_execute''"
  shows "\<exists>w' r. handle_tools_call env (Some p) w = (w', Some r)"
proof -
  have "run_tool env name args v \<noteq> (w', None)" for v w'
  proof -
    obtain w1 q where e: "execute_tool env name args v = (w1, q)" by fastforce
    with assms(2) have "q \<noteq> Inr None" unfolding execute_tool_def by (simp only: if_False) (metis always_some)
    with e show ?thesis by (auto simp: run_tool_def Let_def split: sum.splits option.splits)
  qed
  then have "\<exists>w' r. run_tool env name args v = (w', Some r)" for v by (metis not_Some_eq surj_pair)
  moreover obtain w1 q where "record_event env (tool_event name args (arg_str ''session_id'' args) Started) w = (w1, q)" by fastforce
  moreover obtain w2 r where "run_tool env name args w1 = (w2, Some r)" using calculation(1) by blast
  ultimately show ?thesis using handle_call_run [OF assms(1), of env w] by (cases q) simp_all
qed

abbreviation answered :: "tool_world \<times> json_rpc_response option \<Rightarrow> json_rpc_request \<Rightarrow> bool" where
  "answered r request \<equiv> (\<exists>w' response. r = (w', Some response) \<and> jp_id response = jr_id request)"

lemma answered_if: "(b \<Longrightarrow> answered r q) \<Longrightarrow> (\<not> b \<Longrightarrow> answered s q) \<Longrightarrow> answered (if b then r else s) q"
  by simp

lemma tool_call_returns:
  assumes "Option.bind params (arg_str ''name'') \<noteq> Some ''plugin_execute''"
  shows "\<exists>w' r. handle_tool_call env params w = (w', Some r)"
proof (cases "\<exists>p name. params = Some p \<and> arg_str ''name'' p = Some name")
  case True
  then obtain p name where p: "params = Some p" "arg_str ''name'' p = Some name" by blast
  with assms have "name \<noteq> ''plugin_execute''" by simp
  let ?args = "given_or (arg ''arguments'' p) (JObject [])"
  have called: "called_tool p name ?args" using p(2) by simp
  obtain w' r where "handle_tools_call env (Some p) w = (w', Some r)"
    using call_returns [OF called \<open>name \<noteq> ''plugin_execute''\<close>] by blast
  then have "\<exists>q. execute_tool_public env name ?args w = (w', Some q)"
    unfolding public_restates [OF called] by (simp only: prod.case option.map) blast
  with p show ?thesis by (auto simp: handle_tool_call_def)
next
  case False
  then consider "params = None" | p where "params = Some p" "arg_str ''name'' p = None" by (cases params) auto
  then show ?thesis by cases (simp_all add: handle_tool_call_def)
qed

lemma request_returns:
  assumes "jr_method request = ''tools/call'' \<Longrightarrow> Option.bind (jr_params request) (arg_str ''name'') \<noteq> Some ''plugin_execute''"
  shows "answered (handle_request env request w) request"
  unfolding handle_request_def Let_def
proof (intro answered_if, goal_cases)
  case 5
  from tool_call_returns [OF assms [OF 5(5)], of env w] show ?case by auto
qed simp_all


section \<open>Files\<close>

interpretation tools_files: tool_invariant env
  "\<lambda>w. \<forall>target content. WroteFile target content \<in> set (drop n (iw_local w)) \<longrightarrow>
     confined_target (ie_paths (te_ipc env)) target \<or> confined_target (ie_paths (te_later env)) target" "\<lambda>_. True"
  by unfold_locales (auto dest!: in_set_dropD [of _ "_ - _"])

text \<open>Supporting result: Whatever tool is called, a file it writes on this computer is a download whose target lies in the allowed
  directories, also after the links of its directory have been followed.\<close>

theorem tool_downloads_are_confined:
  assumes "handle_tools_call env params w = (w', r)"
    "WroteFile target content \<in> set (drop (length (iw_local (tl_base w))) (iw_local (tl_base w')))"
  shows "confined_target (ie_paths (te_ipc env)) target \<or> confined_target (ie_paths (te_later env)) target"
  using tools_files.call_stays [OF assms(1), of "length (iw_local (tl_base w))"] assms(2) by fastforce

section \<open>The properties at work\<close>

definition sample_tool_env :: "sync_payload tool_env" where
  "sample_tool_env =
     \<lparr>te_ipc = sample_ipc_env, te_later = sample_ipc_env, te_approvals = None, te_record = (\<lambda>_. Inr ()),
      te_storage = sample_storage, te_error_text = (\<lambda>_. ''error''), te_to_string = (\<lambda>_. Inr ''[]''), te_parse = (\<lambda>_. None),
      te_tags_error = ''tags'', te_plugin_request = (\<lambda>_. Inl ''none''), te_plugin_text = (\<lambda>_. Inr []),
      te_version = ''1'',
      te_parse_request = (\<lambda>s. if s = ''ping'' then Inr \<lparr>jr_jsonrpc = ''2.0'', jr_id = Some (JInt 7), jr_method = ''ping'', jr_params = None\<rparr>
        else Inl ''no request'')\<rparr>"

definition sample_tool_world :: tool_world where
  "sample_tool_world =
     \<lparr>tl_base = sample_ipc_world\<lparr>iw_manager := (iw_manager sample_ipc_world)\<lparr>sm_database := dt_sync one_server\<rparr>\<rparr>,
      tl_tables = one_server, tl_effects = []\<rparr>"

definition sample_exec_params :: json where
  "sample_exec_params = JObject [(''name'', JString ''exec''),
     (''arguments'', JObject [(''session_id'', JString ''u7f3''), (''command'', JString ''ls'')])]"

abbreviation sample_exec_args :: json where
  "sample_exec_args \<equiv> JObject [(''session_id'', JString ''u7f3''), (''command'', JString ''ls'')]"

lemma sample_exec_called: "called_tool sample_exec_params ''exec'' sample_exec_args"
  by (simp add: sample_exec_params_def arg_str_def as_str_def given_or_def)

lemma sample_tool_record:
  "length (au_summary event) \<le> 1000 \<Longrightarrow> record_event sample_tool_env event w =
     (w\<lparr>tl_base := (tl_base w)\<lparr>iw_audit := iw_audit (tl_base w) @ [event]\<rparr>\<rparr>, Inr ())"
  by (simp add: record_event_def smap_err_def in_base_def sample_tool_env_def sample_record)

theorem tool_calls_are_recorded_witness:
  "\<exists>w' r. handle_tools_call sample_tool_env (Some sample_exec_params) sample_tool_world = (w', r) \<and>
     prefix [tool_event ''exec'' sample_exec_args (Some ''u7f3'') Started] (iw_audit (tl_base w')) \<and>
     au_summary (tool_event ''exec'' sample_exec_args (Some ''u7f3'') Started) = ''ls''"
proof -
  obtain w' r where h: "handle_tools_call sample_tool_env (Some sample_exec_params) sample_tool_world = (w', r)" by fastforce
  have sid: "arg_str ''session_id'' sample_exec_args = Some ''u7f3''" "arg_str ''command'' sample_exec_args = Some ''ls''"
    by (simp_all add: arg_str_def as_str_def)
  have row: "au_summary (tool_event ''exec'' sample_exec_args (Some ''u7f3'') Started) = ''ls''"
    by (simp add: tool_event_def activity_summary_def activity_detail_def arg_str_def as_str_def)
  from handle_call_run [OF sample_exec_called, of sample_tool_env sample_tool_world] h
  have "r \<noteq> Some (Inl e)" for e
    by (auto simp: sid sample_tool_record row split: prod.splits)
  with tool_calls_are_recorded [OF sample_exec_called h, of "''ls''"] h row show ?thesis
    by (auto simp: sid sample_tool_world_def sample_ipc_world_def)
qed

lemma sample_base: "tl_base sample_tool_world = sample_ipc_world\<lparr>iw_manager := (iw_manager sample_ipc_world)\<lparr>sm_database := dt_sync one_server\<rparr>\<rparr>"
  "te_ipc sample_tool_env = sample_ipc_env" "tl_effects sample_tool_world = []"
  by (simp_all add: sample_tool_world_def sample_tool_env_def)

lemma sample_exec_tool:
  assumes "manager_of w = manager_of sample_tool_world" "iw_calls (tl_base w) = []"
  shows "iw_calls (tl_base (fst (run_exec sample_tool_env sample_exec_args w))) = [OpenSession 0, ExecRequest 0 ''ls'', ChannelEof 0]"
proof -
  have "\<not> rd_requires_approval (classify_command ''ls'' default_guard_config)" by code_simp
  moreover have "Sessions.resolve ''u7f3'' (manager_of w) = Inr sample_terminal" "get_session ''u7f3'' (manager_of w) = Some sample_terminal"
    unfolding assms(1) by (simp_all add: sample_tool_world_def manager_of_def sample_ipc_world_def Sessions.resolve_def get_session_def)
  ultimately show ?thesis
    using assms(2)
    by (simp add: run_exec_def required_def arg_str_def as_str_def ok_or_def slift_bind sbind_def resolve_session_def sample_base
        sample_env_fields in_gateway_def perform_def leave_gateway_def gateway_view_def run_command_def smap_err_def in_base_def
        sreturn_def exec_on_def on_session_def manager_of_def sample_terminal_def new_session_def new_client_def Let_def
        exec_command_in_session_def with_ssh_client_def exec_command_with_stdin_def exec_command_result_def
        exec_command_result_with_limits_def session_channel_def sample_peer_def nonempty_passphrase_def exec_result_def
        exec_command_timeout_def max_exec_output_def exit_code_of_def update_session_def mark_activity_def client_ops)
qed

abbreviation after_start :: "string \<Rightarrow> json \<Rightarrow> tool_world" where
  "after_start name args \<equiv> sample_tool_world\<lparr>tl_base := (tl_base sample_tool_world)\<lparr>
     iw_audit := [tool_event name args (arg_str ''session_id'' args) Started]\<rparr>\<rparr>"

text \<open>What the tool leaves in the world is what the whole call leaves, the trail of its calls apart.\<close>

lemma sample_call:
  assumes "called_tool p name args" "length (au_summary (tool_event name args (arg_str ''session_id'' args) Started)) \<le> 1000"
  obtains w' r where "handle_tools_call sample_tool_env (Some p) sample_tool_world = (w', r)"
    "iw_calls (tl_base w') = iw_calls (tl_base (fst (execute_tool sample_tool_env name args (after_start name args))))"
    "iw_local (tl_base w') = iw_local (tl_base (fst (execute_tool sample_tool_env name args (after_start name args))))"
proof -
  have rec: "record_event sample_tool_env (tool_event name args (arg_str ''session_id'' args) Started) sample_tool_world = (after_start name args, Inr ())"
    using sample_tool_record [OF assms(2), of sample_tool_world] by (simp add: sample_base sample_ipc_world_def)
  obtain w1 q where run: "execute_tool sample_tool_env name args (after_start name args) = (w1, q)" by fastforce
  have same: "iw_calls (tl_base (fst (record_event sample_tool_env event w1))) = iw_calls (tl_base w1)"
    "iw_local (tl_base (fst (record_event sample_tool_env event w1))) = iw_local (tl_base w1)" for event
    by (rule record_event_cases [of sample_tool_env w1 event]; simp)+
  obtain w2 t where t: "run_tool sample_tool_env name args (after_start name args) = (w2, t)" by fastforce
  with run have "w2 = w1 \<or> (\<exists>event. w2 = fst (record_event sample_tool_env event w1))"
    by (auto simp: run_tool_def Let_def split: sum.splits option.splits)
  moreover from handle_call_run [OF assms(1), of sample_tool_env sample_tool_world] rec t
  have "handle_tools_call sample_tool_env (Some p) sample_tool_world = (w2, map_option Inr t)" by simp
  ultimately show thesis using that run same by auto
qed

lemma execute_exec: "fst (execute_tool env ''exec'' args w) = fst (run_exec env args w)"
  by (simp add: execute_tool_def always_def sbind_def sreturn_def split: prod.split sum.split)

lemma execute_download: "fst (execute_tool env ''sftp_download'' args w) = fst (tool_sftp_download env args w)"
  by (simp add: execute_tool_def always_def sbind_def sreturn_def split: prod.split sum.split)


abbreviation sample_download_args :: json where
  "sample_download_args \<equiv> JObject [(''session_id'', JString ''u7f3''), (''remote_path'', JString ''a''), (''local_path'', JString ''/home/u/Downloads/x'')]"

definition sample_download_params :: json where
  "sample_download_params = JObject [(''name'', JString ''sftp_download''), (''arguments'', sample_download_args)]"

lemma sample_download_called: "called_tool sample_download_params ''sftp_download'' sample_download_args"
  by (simp add: sample_download_params_def arg_str_def as_str_def given_or_def)

lemma sample_download_tool:
  assumes "manager_of w = manager_of sample_tool_world" "iw_local (tl_base w) = []" "iw_sftp (tl_base w) = []"
  shows "iw_local (tl_base (fst (tool_sftp_download sample_tool_env sample_download_args w))) =
    [MadeDirs [''/'', ''home'', ''u'', ''Downloads''], WroteFile [''/'', ''home'', ''u'', ''Downloads'', ''x''] []]"
proof -
  have "confine_download_target \<lparr>lp_cwd = Inr ''/home/u'', lp_roots = [''/home/u/Downloads''], lp_canonicalize = Inr\<rparr> ''/home/u/Downloads/x'' =
      Inr [''/'', ''home'', ''u'', ''Downloads'', ''x'']" by code_simp
  moreover have "ensure_parent_within_allowlist \<lparr>lp_cwd = Inr ''/home/u'', lp_roots = [''/home/u/Downloads''], lp_canonicalize = Inr\<rparr>
      [''/'', ''home'', ''u'', ''Downloads'', ''x''] = Inr ()" by code_simp
  moreover have "sv_data Sftp_Client.sample_server = (\<lambda>_. Inr [])" by (simp add: Sftp_Client.sample_server_def)
  moreover have "Sessions.resolve ''u7f3'' (manager_of w) = Inr sample_terminal" "get_session ''u7f3'' (manager_of w) = Some sample_terminal"
    unfolding assms(1) by (simp_all add: sample_tool_world_def manager_of_def sample_ipc_world_def Sessions.resolve_def get_session_def)
  ultimately show ?thesis
    using assms(2,3)
    by (simp add: tool_sftp_download_def required_def arg_str_def as_str_def ok_or_def slift_bind sbind_def resolve_session_def sample_base
      sample_env_fields open_sftp_for_session_def on_sftp_def ask_def manager_of_def in_base_def sreturn_def
      on_session_def smap_err_def sample_terminal_def new_session_def new_client_def open_sftp_in_session_def with_ssh_client_def
      open_sftp_session_def session_channel_def channel_accepted_def sample_peer_def numeral_3_eq_3 save_to_target_def
      local_parent_def slash_def client_ops)
qed

theorem tool_downloads_are_confined_witness:
  "confined_target (ie_paths sample_ipc_env) [''/'', ''home'', ''u'', ''Downloads'', ''x'']"
proof -
  have row: "length (au_summary (tool_event ''sftp_download'' sample_download_args session_id Started)) = 16" for session_id
    by code_simp
  obtain w' r where h: "handle_tools_call sample_tool_env (Some sample_download_params) sample_tool_world = (w', r)"
    "iw_local (tl_base w') = iw_local (tl_base (fst (execute_tool sample_tool_env ''sftp_download'' sample_download_args (after_start ''sftp_download'' sample_download_args))))"
    by (rule sample_call [OF sample_download_called]) (simp_all add: row)
  have "iw_local (tl_base sample_tool_world) = []" by (simp add: sample_base sample_world_fields)
  then have "WroteFile [''/'', ''home'', ''u'', ''Downloads'', ''x''] [] \<in>
      set (drop (length (iw_local (tl_base sample_tool_world))) (iw_local (tl_base w')))"
    unfolding h(2) execute_download by (subst sample_download_tool) (simp_all add: manager_of_def sample_base sample_world_fields)
  from tool_downloads_are_confined [OF h(1) this] show ?thesis by (simp add: sample_tool_env_def)
qed

theorem listed_ids_resolve_back_witness:
  "\<exists>shown. unique_short_id ''0f3a-77'' [''0f3a-77''] = Some shown \<and> prefix shown ''0f3a-77'' \<and>
     resolve_server_id shown (sample_db\<lparr>db_servers := [(''0f3a-77'', row_of_server Database_Results.sample_server)]\<rparr>) = Inr ''0f3a-77''"
proof -
  let ?db = "sample_db\<lparr>db_servers := [(''0f3a-77'', row_of_server Database_Results.sample_server)]\<rparr>"
  obtain s where s: "server_list None None ?db = [s]" "se_id s = ''0f3a-77''" "se_name s = ''web''"
    by (simp add: server_list_def row_to_server_def row_of_server_def Database_Results.sample_server_def)
  have "to_ascii_lowercase ''0f3a-77'' = ''0f3a-77'' \<and> list_all (\<lambda>c. \<not> is_cont c) ''0f3a-77''" by code_simp
  then obtain shown where shown: "unique_short_id ''0f3a-77'' [''0f3a-77''] = Some shown" "prefix shown ''0f3a-77''"
    "7 \<le> length shown" "server_find_by_name shown ?db = None \<longrightarrow> resolve_server_id shown ?db = Inr ''0f3a-77''"
    using listed_ids_resolve_back [of ?db s] s by auto
  moreover from shown(3) have "server_find_by_name shown ?db = None"
    by (auto simp: server_find_by_name_def row_of_server_def Database_Results.sample_server_def)
  ultimately show ?thesis by blast
qed

definition sample_file_server :: sftp_server where
  "sample_file_server = Sftp_Client.sample_server\<lparr>sv_attrs := (\<lambda>_. Inr plain_attrs), sv_data := (\<lambda>_. Inr ''a=1 a=2'')\<rparr>"

theorem edit_writes_the_replacement_witness:
  "\<exists>h' ps. edit_remote_file None (Some ''a='') (Some ''b='') True ''/f'' sample_file_server [] = (h', Inr (Some 2)) \<and>
     ''a=1 a=2'' = join ''a='' ps \<and> Write ''/f'' (join ''b='' ps) \<in> set h'"
proof -
  have run: "\<exists>h'. edit_remote_file None (Some ''a='') (Some ''b='') True ''/f'' sample_file_server [] = (h', Inr (Some 2))"
  proof -
    have "replace_text ''a=1 a=2'' ''a='' ''b='' True = Inr (''b=1 b=2'', 2)" by code_simp
    moreover have "snd (write_remote_file sample_file_server ''/f'' ''b=1 b=2'' [Metadata ''/f'', ReadAll ''/f'']) = Inr ()" by code_simp
    moreover have "from_utf8 ''a=1 a=2'' = Some ''a=1 a=2''" by code_simp
    ultimately show ?thesis
      by (cases "write_remote_file sample_file_server ''/f'' ''b=1 b=2'' [Metadata ''/f'', ReadAll ''/f'']")
        (simp add: edit_remote_file_def sbind_def ask_def smap_err_def slift_def ok_or_def sreturn_def sample_file_server_def
          plain_attrs_def attrs_len_def max_edit_bytes_def)
  qed
  then obtain h' where h': "edit_remote_file None (Some ''a='') (Some ''b='') True ''/f'' sample_file_server [] = (h', Inr (Some 2))" by blast
  have "from_utf8 ''a=1 a=2'' = Some ''a=1 a=2''" by code_simp
  with edit_writes_the_replacement [OF h'] h' show ?thesis
    by (auto simp: sample_file_server_def)
qed

theorem deleted_server_leaves_nothing_witness:
  "\<exists>w' answer. tool_server_delete sample_tool_env (JObject [(''id'', JString ''s1'')]) sample_tool_world = (w', Inr answer) \<and>
     sm_sessions (manager_of w') = [] \<and> server_find ''s1'' (sm_database (manager_of w')) = None"
proof -
  have "is_ok (snd (tool_server_delete sample_tool_env (JObject [(''id'', JString ''s1'')]) sample_tool_world))" by code_simp
  then obtain w' answer where d: "tool_server_delete sample_tool_env (JObject [(''id'', JString ''s1'')]) sample_tool_world = (w', Inr answer)"
    by (cases "tool_server_delete sample_tool_env (JObject [(''id'', JString ''s1'')]) sample_tool_world"; cases "snd (tool_server_delete sample_tool_env (JObject [(''id'', JString ''s1'')]) sample_tool_world)") auto
  have inv: "manager_inv (manager_of sample_tool_world)"
    by (simp add: manager_inv_def sessions_inv_def services_inv_def manager_of_def sample_base sample_ipc_world_def sample_manager_def
        sample_terminal_def new_session_def)
  have "resolve_server_id ''s1'' (sm_database (manager_of sample_tool_world)) = Inr ''s1''"
    by (simp add: manager_of_def sample_base one_server_def resolve_server_id_def server_find_def)
  moreover have "sm_sessions (manager_of sample_tool_world) = [(''u7f3'', sample_terminal)]" "sn_server_id sample_terminal = ''s1''"
    by (simp_all add: manager_of_def sample_base sample_ipc_world_def sample_terminal_def new_session_def)
  ultimately show ?thesis using deleted_server_leaves_nothing [OF inv d] d by (auto simp: arg_str_def as_str_def)
qed

theorem transports_agree_witness:
  "\<exists>w' a b. handle_jsonrpc sample_tool_env \<lparr>jr_jsonrpc = ''2.0'', jr_id = Some (JInt 1), jr_method = ''tools/call'', jr_params = Some sample_exec_params\<rparr>
       sample_tool_world = (w', Some a) \<and>
     handle_request sample_tool_env \<lparr>jr_jsonrpc = ''2.0'', jr_id = Some (JInt 1), jr_method = ''tools/call'', jr_params = Some sample_exec_params\<rparr>
       sample_tool_world = (w', Some b) \<and> jp_id a = jp_id b"
proof -
  let ?q = "\<lparr>jr_jsonrpc = ''2.0'', jr_id = Some (JInt 1), jr_method = ''tools/call'', jr_params = Some sample_exec_params\<rparr>"
  obtain w' r where "handle_tools_call sample_tool_env (Some sample_exec_params) sample_tool_world = (w', Some r)"
    using call_returns [OF sample_exec_called] by fastforce
  then have "handle_jsonrpc sample_tool_env ?q sample_tool_world = (w', Some \<lparr>jp_id = Some (JInt 1), jp_result = r\<rparr>)"
    by (simp add: handle_jsonrpc_def Let_def)
  with transports_agree [OF _ _ _ sample_exec_called this] show ?thesis by auto
qed




theorem gateway_needs_the_token_witness:
  "gateway_http sample_tool_env ''k9'' (Some ''Bearer k8'') ''POST'' ''/mcp'' ''ping'' sample_tool_world = (sample_tool_world, Unauthorized)"
  by (rule gateway_needs_the_token) simp

end
