(* ===== verification/Socks.thy ===== *)
theory Socks
  imports Requests Decimal "HOL-Library.Word" "HOL-Library.Sublist"
begin

text \<open>
  Dynamic forwards: the SOCKS5 negotiation of \<^verbatim>\<open>src-tauri/src/tunnel/dynamic_forward.rs\<close> on the bytes of one
  connection, and the copying between two streams of \<^verbatim>\<open>tunnel/bridge.rs\<close>.  A socket holds the bytes that
  arrive before the connection ends or falls silent for longer than the time limit, and the bytes written;
  which writes fail is a parameter.  The addresses are printed as the standard library prints them.
\<close>

section \<open>Sockets\<close>

datatype input_end = EndOfFile | Silence

record socket =
  sk_in :: string
  sk_end :: input_end
  sk_out :: string
  sk_fails :: "string \<Rightarrow> bool"
  sk_timed_out :: bool

type_synonym 'a socks = "(socket, 'a) io"

definition read_exact :: "nat \<Rightarrow> string socks" where
  "read_exact n w =
     (if n \<le> length (sk_in w) then (w\<lparr>sk_in := drop n (sk_in w)\<rparr>, Inr (take n (sk_in w)))
      else (w\<lparr>sk_in := [], sk_timed_out := (sk_end w = Silence)\<rparr>, Inl ''early eof''))"

definition write_all :: "string \<Rightarrow> unit socks" where
  "write_all data w =
     (if sk_fails w (sk_out w @ data) then (w, Inl ''broken pipe'') else (w\<lparr>sk_out := sk_out w @ data\<rparr>, Inr ()))"

definition reply :: "nat \<Rightarrow> unit socks" where
  "reply code = write_all [CHR 0x05, char_of code, CHR 0x00, CHR 0x01, CHR 0x00, CHR 0x00, CHR 0x00, CHR 0x00, CHR 0x00, CHR 0x00]"

section \<open>Addresses\<close>

definition ipv4_string :: "string \<Rightarrow> string" where
  "ipv4_string bytes = join ''.'' (map (show_nat \<circ> byte) bytes)"

definition hex_digit :: "nat \<Rightarrow> char" where
  "hex_digit d = char_of (if d < 10 then 48 + d else 87 + d)"

fun show_hex :: "nat \<Rightarrow> string" where
  "show_hex n = (if n < 16 then [hex_digit n] else show_hex (n div 16) @ [hex_digit (n mod 16)])"

declare show_hex.simps [simp del]

fun segments :: "string \<Rightarrow> nat list" where
  "segments (hi # lo # rest) = (256 * byte hi + byte lo) # segments rest"
| "segments _ = []"

text \<open>The first longest run of zero segments: its start and length.\<close>

definition extend_run :: "nat \<times> nat \<times> (nat \<times> nat) \<times> (nat \<times> nat) \<Rightarrow> nat \<Rightarrow> nat \<times> nat \<times> (nat \<times> nat) \<times> (nat \<times> nat)" where
  "extend_run st segment =
     (case st of (i, _, (start, len), longest) \<Rightarrow>
       if segment = 0 then
         (let current = (if len = 0 then i else start, len + 1) in
          (i + 1, 0, current, if snd longest < snd current then current else longest))
       else (i + 1, 0, (0, 0), longest))"

definition zero_run :: "nat list \<Rightarrow> nat \<times> nat" where
  "zero_run segs = snd (snd (snd (foldl extend_run (0, 0, (0, 0), (0, 0)) segs)))"

definition ipv6_string :: "string \<Rightarrow> string" where
  "ipv6_string bytes =
     (let segs = segments bytes; (start, len) = zero_run segs; hex = (\<lambda>xs. join '':'' (map show_hex xs)) in
      if take 10 bytes = replicate 10 (CHR 0x00) \<and> take 2 (drop 10 bytes) = [CHR 0xFF, CHR 0xFF]
      then ''::ffff:'' @ ipv4_string (drop 12 bytes)
      else if 1 < len then hex (take start segs) @ ''::'' @ hex (drop (start + len) segs)
      else hex segs)"

section \<open>The request\<close>

definition port_of :: "string \<Rightarrow> 16 word" where
  "port_of bytes = of_nat (256 * byte (bytes ! 0) + byte (bytes ! 1))"

definition read_address :: "char \<Rightarrow> string socks" where
  "read_address kind =
     (if kind = CHR 0x01 then sbind (read_exact 4) (\<lambda>bytes. sreturn (ipv4_string bytes))
      else if kind = CHR 0x03 then
        sbind (read_exact 1) (\<lambda>len.
        sbind (slift (ensure (0 < byte (len ! 0)) ''Empty SOCKS5 hostname'')) (\<lambda>_.
        sbind (read_exact (byte (len ! 0))) (\<lambda>bytes.
        sbind (slift (ok_or (from_utf8 bytes) ''Invalid SOCKS5 hostname encoding'')) (\<lambda>host.
        sbind (slift (ensure (CHR 0x00 \<notin> set host) ''Invalid SOCKS5 hostname'')) (\<lambda>_. sreturn host)))))
      else if kind = CHR 0x04 then sbind (read_exact 16) (\<lambda>bytes. sreturn (ipv6_string bytes))
      else sbind (reply 8) (\<lambda>_. sfail ''Unsupported SOCKS5 address type''))"

definition read_target :: "(string \<times> 16 word) socks" where
  "read_target =
     sbind (read_exact 2) (\<lambda>header.
     sbind (slift (ensure (header ! 0 = CHR 0x05) ''Not a SOCKS5 request'')) (\<lambda>_.
     sbind (read_exact (byte (header ! 1))) (\<lambda>methods.
     if CHR 0x00 \<notin> set methods
     then sbind (write_all [CHR 0x05, CHR 0xFF]) (\<lambda>_. sfail ''No acceptable SOCKS5 authentication method'')
     else
       sbind (write_all [CHR 0x05, CHR 0x00]) (\<lambda>_.
       sbind (read_exact 4) (\<lambda>request.
       sbind (slift (ensure (request ! 0 = CHR 0x05 \<and> request ! 2 = CHR 0x00) ''Invalid SOCKS5 request header'')) (\<lambda>_.
       if request ! 1 \<noteq> CHR 0x01
       then sbind (reply 7) (\<lambda>_. sfail ''Only SOCKS5 CONNECT is supported'')
       else
         sbind (read_address (request ! 3)) (\<lambda>host.
         sbind (read_exact 2) (\<lambda>bytes.
         sbind (slift (ensure (port_of bytes \<noteq> 0) ''SOCKS5 destination port must be nonzero'')) (\<lambda>_.
         sreturn (host, port_of bytes))))))))))"

text \<open>One accepted connection up to the point where bytes are passed on; \<open>open_channel\<close> opens the channel
  of the SSH session to a target, or \<open>None\<close> if that takes longer than the time limit.\<close>

definition negotiate :: "(string \<Rightarrow> 16 word \<Rightarrow> (string + 'c) option) \<Rightarrow> 'c socks" where
  "negotiate open_channel w =
     (case read_target w of
        (w, Inl e) \<Rightarrow>
          if sk_timed_out w then (w, Inl ''SOCKS5 negotiation timed out'')
          else (fst (reply 1 w), Inl e)
      | (w, Inr (host, port)) \<Rightarrow>
          (case open_channel host port of
             None \<Rightarrow> (w, Inl ''SOCKS5 negotiation timed out'')
           | Some (Inl e) \<Rightarrow> (fst (reply 1 w), Inl e)
           | Some (Inr channel) \<Rightarrow> sbind (reply 0) (\<lambda>_. sreturn channel) w))"

section \<open>Passing bytes on\<close>

text \<open>One direction: what it still has to read in chunks, what it has written, its counter, and whether the
  writing side has been shut down.  Reading nothing is the end of the input.\<close>

record copying =
  cp_in :: string
  cp_out :: string
  cp_counter :: nat
  cp_shut :: bool

definition copy_chunk :: "nat \<Rightarrow> copying \<Rightarrow> copying" where
  "copy_chunk n c =
     (let count = min (min n 32768) (length (cp_in c)) in
      if count = 0 then c\<lparr>cp_shut := True\<rparr>
      else c\<lparr>cp_in := drop count (cp_in c), cp_out := cp_out c @ take count (cp_in c), cp_counter := cp_counter c + count\<rparr>)"

text \<open>Both directions take turns in any order until both are shut; an error ends them where they are.\<close>

datatype turn = Forward nat | Backward nat

fun bridge_turn :: "turn \<Rightarrow> copying \<times> copying \<Rightarrow> copying \<times> copying" where
  "bridge_turn (Forward n) (a, b) = (if cp_shut a \<or> n = 0 then (a, b) else (copy_chunk n a, b))"
| "bridge_turn (Backward n) (a, b) = (if cp_shut b \<or> n = 0 then (a, b) else (a, copy_chunk n b))"

definition bridge :: "turn list \<Rightarrow> copying \<times> copying \<Rightarrow> copying \<times> copying" where
  "bridge = fold bridge_turn"

section \<open>Well-formed requests\<close>

datatype address = Ipv4 string | DomainName string | Ipv6 string

definition address_ok :: "address \<Rightarrow> bool" where
  "address_ok a =
     (case a of
        Ipv4 bytes \<Rightarrow> length bytes = 4
      | DomainName name \<Rightarrow> name \<noteq> [] \<and> length name < 256 \<and> utf8_valid name \<and> CHR 0x00 \<notin> set name
      | Ipv6 bytes \<Rightarrow> length bytes = 16)"

definition host_of :: "address \<Rightarrow> string" where
  "host_of a = (case a of Ipv4 bytes \<Rightarrow> ipv4_string bytes | DomainName name \<Rightarrow> name | Ipv6 bytes \<Rightarrow> ipv6_string bytes)"

definition wire_address :: "address \<Rightarrow> string" where
  "wire_address a =
     (case a of
        Ipv4 bytes \<Rightarrow> CHR 0x01 # bytes
      | DomainName name \<Rightarrow> CHR 0x03 # char_of (length name) # name
      | Ipv6 bytes \<Rightarrow> CHR 0x04 # bytes)"

definition wire_port :: "16 word \<Rightarrow> string" where
  "wire_port port = [char_of (unat port div 256), char_of (unat port mod 256)]"

definition connect_request :: "string \<Rightarrow> address \<Rightarrow> 16 word \<Rightarrow> string" where
  "connect_request methods a port =
     CHR 0x05 # char_of (length methods) # methods @ [CHR 0x05, CHR 0x01, CHR 0x00] @ wire_address a @ wire_port port"

text \<open>What remains to be read once \<open>n\<close> bytes are taken, for a reader that succeeds.\<close>

lemma read_exact_Inr:
  "read_exact n w = (w', Inr bytes) \<longleftrightarrow>
     (\<exists>rest. sk_in w = bytes @ rest \<and> length bytes = n \<and> w' = w\<lparr>sk_in := rest\<rparr>)"
proof
  assume "read_exact n w = (w', Inr bytes)"
  then show "\<exists>rest. sk_in w = bytes @ rest \<and> length bytes = n \<and> w' = w\<lparr>sk_in := rest\<rparr>"
    by (intro exI [of _ "drop n (sk_in w)"]) (auto simp: read_exact_def split: if_splits)
qed (auto simp: read_exact_def)

lemma write_all_Inr:
  "write_all data w = (w', Inr u) \<longleftrightarrow> \<not> sk_fails w (sk_out w @ data) \<and> w' = w\<lparr>sk_out := sk_out w @ data\<rparr>"
  by (auto simp: write_all_def)

lemma byte_char: "n < 256 \<Longrightarrow> byte (char_of n) = n"
  by (simp add: byte_def)

lemma char_byte: "char_of (byte c) = c"
  by (simp add: byte_def)

lemma byte_less: "byte c < 256"
  using of_char_mod_256 [of c, where 'a = nat] unfolding byte_def by (metis mod_less_divisor zero_less_numeral)

lemma length_two: "length xs = 2 \<longleftrightarrow> (\<exists>a b. xs = [a, b])"
  by (auto simp: length_Suc_conv numeral_2_eq_2)

lemma length_four: "length xs = 4 \<longleftrightarrow> (\<exists>a b c d. xs = [a, b, c, d])"
  by (auto simp: length_Suc_conv eval_nat_numeral)

lemma length_one: "length xs = 1 \<longleftrightarrow> (\<exists>a. xs = [a])"
  by (auto simp: length_Suc_conv)

lemma port_of_wire: "port_of (wire_port port @ rest) = port"
proof -
  have "unat port div 256 < 256"
    using unsigned_less [of port, where ?'a = nat] by (simp add: less_mult_imp_div_less)
  then have "256 * byte (char_of (unat port div 256)) + byte (char_of (unat port mod 256)) = unat port"
    by (simp add: byte_char) (simp add: byte_def)
  then show ?thesis by (simp add: port_of_def wire_port_def del: of_nat_add of_nat_mult)
qed

lemma wire_port_of: "wire_port (port_of [a, b]) = [a, b]"
proof -
  have "256 * byte a + byte b < 65536" using byte_less [of a] byte_less [of b] by linarith
  then have "unat (port_of [a, b]) = 256 * byte a + byte b"
    by (simp add: port_of_def unat_of_nat take_bit_eq_mod del: of_nat_add of_nat_mult)
  moreover have "(256 * byte a + byte b) div 256 = byte a" "(256 * byte a + byte b) mod 256 = byte b"
    using byte_less [of b] by simp_all
  ultimately show ?thesis by (simp only: wire_port_def char_byte)
qed


lemma read_address_Inr:
  "read_address kind w = (w', Inr host) \<longleftrightarrow>
     (\<exists>a rest. address_ok a \<and> host = host_of a \<and> wire_address a = kind # tl (wire_address a) \<and>
        sk_in w = tl (wire_address a) @ rest \<and> w' = w\<lparr>sk_in := rest\<rparr>)"
  (is "?lhs \<longleftrightarrow> ?rhs")
proof
  assume ?lhs
  then consider (four) bytes rest where "kind = CHR 0x01" "length bytes = 4" "sk_in w = bytes @ rest" "w' = w\<lparr>sk_in := rest\<rparr>" "host = ipv4_string bytes"
    | (name) l rest where "kind = CHR 0x03" "sk_in w = l # host @ rest" "0 < byte l" "length host = byte l" "utf8_valid host"
        "CHR 0x00 \<notin> set host" "w' = w\<lparr>sk_in := rest\<rparr>"
    | (six) bytes rest where "kind = CHR 0x04" "length bytes = 16" "sk_in w = bytes @ rest" "w' = w\<lparr>sk_in := rest\<rparr>" "host = ipv6_string bytes"
    by (auto simp: read_address_def sbind_Inr read_exact_Inr length_Suc_conv ensure_def ok_or_def from_utf8_def
        split: if_splits option.splits)
  then show ?rhs
  proof cases
    case four
    then show ?thesis by (intro exI [of _ "Ipv4 bytes"]) (simp add: address_ok_def host_of_def wire_address_def)
  next
    case (name l rest)
    have "char_of (length host) = l" using name by (simp add: char_byte)
    with name byte_less [of l] show ?thesis
      by (intro exI [of _ "DomainName host"]) (auto simp: address_ok_def host_of_def wire_address_def)
  next
    case six
    then show ?thesis by (intro exI [of _ "Ipv6 bytes"]) (simp add: address_ok_def host_of_def wire_address_def)
  qed
next
  assume ?rhs
  then obtain a rest where a: "address_ok a" "host = host_of a" "wire_address a = kind # tl (wire_address a)"
    "sk_in w = tl (wire_address a) @ rest" "w' = w\<lparr>sk_in := rest\<rparr>" by blast
  show ?lhs
  proof (cases a)
    case (Ipv4 bytes)
    with a show ?thesis
      by (auto simp: read_address_def sbind_Inr read_exact_Inr wire_address_def host_of_def address_ok_def)
  next
    case (DomainName name)
    with a have "read_exact 1 w = (w\<lparr>sk_in := name @ rest\<rparr>, Inr [char_of (length name)])"
      "read_exact (length name) (w\<lparr>sk_in := name @ rest\<rparr>) = (w', Inr name)" "kind = CHR 0x03" "host = name"
      "name \<noteq> []" "length name < 256" "utf8_valid name" "CHR 0x00 \<notin> set name"
      by (auto simp: read_exact_Inr wire_address_def host_of_def address_ok_def)
    then show ?thesis
      by (simp add: read_address_def sbind_def slift_def sreturn_def byte_char from_utf8_def)
  next
    case (Ipv6 bytes)
    with a show ?thesis
      by (auto simp: read_address_def sbind_Inr read_exact_Inr wire_address_def host_of_def address_ok_def)
  qed
qed

text \<open>Supporting result: a connection is taken to ask for a target exactly if its bytes begin with a well-formed SOCKS5
  negotiation that offers no authentication and asks to CONNECT to this address and a nonzero port; then
  exactly those bytes have been read, so that what follows is passed on unchanged, and the method
  without authentication has been answered.  All three kinds of addresses are covered.\<close>

theorem socks_accepts_exactly_connect_requests:
  assumes "\<And>data. \<not> sk_fails w data"
  shows "read_target w = (w', Inr (host, port)) \<longleftrightarrow>
    (\<exists>methods a rest. length methods < 256 \<and> CHR 0x00 \<in> set methods \<and> address_ok a \<and> port \<noteq> 0 \<and> host = host_of a \<and>
       sk_in w = connect_request methods a port @ rest \<and>
       w' = w\<lparr>sk_in := rest, sk_out := sk_out w @ [CHR 0x05, CHR 0x00]\<rparr>)"
proof
  assume "read_target w = (w', Inr (host, port))"
  then obtain header w1 methods w2 w3 request w4 w5 bytes where
    r: "read_exact 2 w = (w1, Inr header)" "header ! 0 = CHR 0x05" "read_exact (byte (header ! 1)) w1 = (w2, Inr methods)"
      "CHR 0x00 \<in> set methods" "write_all [CHR 0x05, CHR 0x00] w2 = (w3, Inr ())" "read_exact 4 w3 = (w4, Inr request)"
      "request ! 0 = CHR 0x05" "request ! 2 = CHR 0x00" "request ! 1 = CHR 0x01"
      "read_address (request ! 3) w4 = (w5, Inr host)" "read_exact 2 w5 = (w', Inr bytes)" "port_of bytes \<noteq> 0" "port = port_of bytes"
    by (auto simp: read_target_def sbind_Inr ensure_def split: if_splits)
  from r(1,2) obtain l where header: "header = [CHR 0x05, l]" by (auto simp: read_exact_Inr length_two)
  from r(6-9) obtain kind where request: "request = [CHR 0x05, CHR 0x01, CHR 0x00, kind]"
    by (auto simp: read_exact_Inr length_four)
  from r(11) obtain x y where bytes: "bytes = [x, y]" by (auto simp: read_exact_Inr length_two)
  from r(10) request obtain a where a: "address_ok a" "host = host_of a" "wire_address a = kind # tl (wire_address a)"
    "\<exists>rest. sk_in w4 = tl (wire_address a) @ rest \<and> w5 = w4\<lparr>sk_in := rest\<rparr>" by (auto simp: read_address_Inr)
  have methods: "length methods = byte l" using r(3) header by (auto simp: read_exact_Inr)
  then have small: "length methods < 256" and l: "char_of (length methods) = l" by (simp_all add: byte_less char_byte)
  have "\<exists>rest. sk_in w = connect_request methods a port @ rest \<and> w' = w\<lparr>sk_in := rest, sk_out := sk_out w @ [CHR 0x05, CHR 0x00]\<rparr>"
  proof -
    from a(3) have wire: "kind # tl (wire_address a) @ zs = wire_address a @ zs" for zs by (metis append_Cons)
    from r(11) bytes obtain rest where "sk_in w5 = x # y # rest" "w' = w5\<lparr>sk_in := rest\<rparr>" by (auto simp: read_exact_Inr)
    with a(4) r(1,3,5,6) header request l methods r(13) bytes wire_port_of [of x y] show ?thesis
      by (auto simp: read_exact_Inr write_all_Inr connect_request_def wire)
  qed
  with a(1,2) r(4,12,13) small show "\<exists>methods a rest. length methods < 256 \<and> CHR 0x00 \<in> set methods \<and> address_ok a \<and> port \<noteq> 0 \<and>
      host = host_of a \<and> sk_in w = connect_request methods a port @ rest \<and>
      w' = w\<lparr>sk_in := rest, sk_out := sk_out w @ [CHR 0x05, CHR 0x00]\<rparr>" by blast
next
  assume "\<exists>methods a rest. length methods < 256 \<and> CHR 0x00 \<in> set methods \<and> address_ok a \<and> port \<noteq> 0 \<and> host = host_of a \<and>
       sk_in w = connect_request methods a port @ rest \<and> w' = w\<lparr>sk_in := rest, sk_out := sk_out w @ [CHR 0x05, CHR 0x00]\<rparr>"
  then obtain methods a rest where m: "length methods < 256" "CHR 0x00 \<in> set methods" "address_ok a" "port \<noteq> 0" "host = host_of a"
    "sk_in w = connect_request methods a port @ rest" "w' = w\<lparr>sk_in := rest, sk_out := sk_out w @ [CHR 0x05, CHR 0x00]\<rparr>" by blast
  obtain kind where kind: "wire_address a = kind # tl (wire_address a)" by (cases a) (auto simp: wire_address_def)
  let ?tail = "tl (wire_address a) @ wire_port port @ rest" let ?out = "sk_out w @ [CHR 0x05, CHR 0x00]"
  have sk_in: "sk_in w = [CHR 0x05, char_of (length methods)] @ methods @ [CHR 0x05, CHR 0x01, CHR 0x00, kind] @ ?tail"
    using m(6) kind by (simp add: connect_request_def)
  have steps: "read_exact 2 w = (w\<lparr>sk_in := methods @ [CHR 0x05, CHR 0x01, CHR 0x00, kind] @ ?tail\<rparr>, Inr [CHR 0x05, char_of (length methods)])"
    "read_exact (length methods) (w\<lparr>sk_in := methods @ [CHR 0x05, CHR 0x01, CHR 0x00, kind] @ ?tail\<rparr>) =
       (w\<lparr>sk_in := [CHR 0x05, CHR 0x01, CHR 0x00, kind] @ ?tail\<rparr>, Inr methods)"
    "write_all [CHR 0x05, CHR 0x00] (w\<lparr>sk_in := [CHR 0x05, CHR 0x01, CHR 0x00, kind] @ ?tail\<rparr>) =
       (w\<lparr>sk_in := [CHR 0x05, CHR 0x01, CHR 0x00, kind] @ ?tail, sk_out := ?out\<rparr>, Inr ())"
    "read_exact 4 (w\<lparr>sk_in := [CHR 0x05, CHR 0x01, CHR 0x00, kind] @ ?tail, sk_out := ?out\<rparr>) =
       (w\<lparr>sk_in := ?tail, sk_out := ?out\<rparr>, Inr [CHR 0x05, CHR 0x01, CHR 0x00, kind])"
    "read_exact 2 (w\<lparr>sk_in := wire_port port @ rest, sk_out := ?out\<rparr>) = (w', Inr (wire_port port))"
    using sk_in assms m(7) by (auto simp: read_exact_Inr write_all_Inr wire_port_def)
  have "read_address kind (w\<lparr>sk_in := ?tail, sk_out := ?out\<rparr>) = (w\<lparr>sk_in := wire_port port @ rest, sk_out := ?out\<rparr>, Inr host)"
    unfolding read_address_Inr using m(3,5) kind by auto
  with steps m(1,2,4) port_of_wire [of port "[]"] show "read_target w = (w', Inr (host, port))"
    by (simp add: read_target_def sbind_def slift_def sreturn_def byte_char)
qed

definition sample_socket :: "string \<Rightarrow> socket" where
  "sample_socket bytes = \<lparr>sk_in = bytes, sk_end = EndOfFile, sk_out = [], sk_fails = (\<lambda>_. False), sk_timed_out = False\<rparr>"

theorem socks_accepts_exactly_connect_requests_witness:
  "read_target (sample_socket (connect_request [CHR 0x02, CHR 0x00] (DomainName ''db.local'') 5432 @ ''hello'')) =
     ((sample_socket ''hello'')\<lparr>sk_out := [CHR 0x05, CHR 0x00]\<rparr>, Inr (''db.local'', 5432))"
proof -
  have "utf8_valid ''db.local''" by code_simp
  moreover have "\<not> sk_fails (sample_socket (connect_request [CHR 0x02, CHR 0x00] (DomainName ''db.local'') 5432 @ ''hello'')) data" for data
    by (simp add: sample_socket_def)
  ultimately show ?thesis
    by (subst socks_accepts_exactly_connect_requests)
      (auto simp: sample_socket_def address_ok_def host_of_def intro!: exI [of _ "[CHR 0x02, CHR 0x00]"] exI [of _ "DomainName ''db.local''"])
qed

text \<open>Supporting result: a client that asks for anything but CONNECT is answered twice: the reply that the command is not
  supported is followed by a second one with the code of a general failure, since the caller replies to
  every error.\<close>

theorem refused_command_is_answered_twice:
  assumes "\<And>data. \<not> sk_fails w data" "length methods < 256" "CHR 0x00 \<in> set methods" "command \<noteq> CHR 0x01"
    and "sk_in w = CHR 0x05 # char_of (length methods) # methods @ [CHR 0x05, command, CHR 0x00, kind] @ rest" "\<not> sk_timed_out w"
  shows "\<exists>w'. negotiate open_channel w = (w', Inl ''Only SOCKS5 CONNECT is supported'') \<and>
    sk_out w' = sk_out w @ [CHR 0x05, CHR 0x00] @
      [CHR 0x05, CHR 0x07, CHR 0x00, CHR 0x01, CHR 0x00, CHR 0x00, CHR 0x00, CHR 0x00, CHR 0x00, CHR 0x00] @
      [CHR 0x05, CHR 0x01, CHR 0x00, CHR 0x01, CHR 0x00, CHR 0x00, CHR 0x00, CHR 0x00, CHR 0x00, CHR 0x00]"
proof -
  let ?w1 = "w\<lparr>sk_in := rest, sk_out := sk_out w @ [CHR 0x05, CHR 0x00]\<rparr>"
  let ?body = "methods @ [CHR 0x05, command, CHR 0x00, kind] @ rest"
  have steps: "read_exact 2 w = (w\<lparr>sk_in := ?body\<rparr>, Inr [CHR 0x05, char_of (length methods)])"
    "read_exact (length methods) (w\<lparr>sk_in := ?body\<rparr>) = (w\<lparr>sk_in := [CHR 0x05, command, CHR 0x00, kind] @ rest\<rparr>, Inr methods)"
    "read_exact 4 (w\<lparr>sk_in := [CHR 0x05, command, CHR 0x00, kind] @ rest, sk_out := sk_out w @ [CHR 0x05, CHR 0x00]\<rparr>) =
       (?w1, Inr [CHR 0x05, command, CHR 0x00, kind])"
    using assms(5) by (simp_all add: read_exact_Inr)
  let ?w2 = "?w1\<lparr>sk_out := sk_out w @ [CHR 0x05, CHR 0x00] @
      [CHR 0x05, CHR 0x07, CHR 0x00, CHR 0x01, CHR 0x00, CHR 0x00, CHR 0x00, CHR 0x00, CHR 0x00, CHR 0x00], sk_timed_out := False\<rparr>"
  have codes: "char_of (7::nat) = CHR 0x07" "char_of (Suc 0) = CHR 0x01" by code_simp+
  have "read_target w = (?w2\<lparr>sk_timed_out := sk_timed_out w\<rparr>, Inl ''Only SOCKS5 CONNECT is supported'')"
    using steps assms(1-4)
    by (simp add: read_target_def sbind_def slift_def sfail_def byte_char write_all_def reply_def codes)
  then show ?thesis using assms(1,6) by (simp add: negotiate_def reply_def write_all_def codes)
qed

theorem refused_command_is_answered_twice_witness:
  "\<exists>w'. negotiate (\<lambda>_ _. Some (Inr ())) (sample_socket [CHR 0x05, CHR 0x01, CHR 0x00, CHR 0x05, CHR 0x02, CHR 0x00, CHR 0x01]) =
     (w', Inl ''Only SOCKS5 CONNECT is supported'') \<and> length (sk_out w') = 22"
proof -
  have one: "char_of (1::nat) = CHR 0x01" by code_simp
  have "\<exists>w'. negotiate (\<lambda>_ _. Some (Inr ())) (sample_socket [CHR 0x05, CHR 0x01, CHR 0x00, CHR 0x05, CHR 0x02, CHR 0x00, CHR 0x01]) =
      (w', Inl ''Only SOCKS5 CONNECT is supported'') \<and>
    sk_out w' = sk_out (sample_socket [CHR 0x05, CHR 0x01, CHR 0x00, CHR 0x05, CHR 0x02, CHR 0x00, CHR 0x01]) @ [CHR 0x05, CHR 0x00] @
      [CHR 0x05, CHR 0x07, CHR 0x00, CHR 0x01, CHR 0x00, CHR 0x00, CHR 0x00, CHR 0x00, CHR 0x00, CHR 0x00] @
      [CHR 0x05, CHR 0x01, CHR 0x00, CHR 0x01, CHR 0x00, CHR 0x00, CHR 0x00, CHR 0x00, CHR 0x00, CHR 0x00]"
    by (rule refused_command_is_answered_twice [where methods = "[CHR 0x00]" and command = "CHR 0x02" and kind = "CHR 0x01" and rest = "[]"])
      (simp_all add: sample_socket_def one [unfolded One_nat_def])
  then show ?thesis by (auto simp: sample_socket_def)
qed

section \<open>Bytes passed on\<close>

definition fresh :: "string \<Rightarrow> copying" where
  "fresh input_bytes = \<lparr>cp_in = input_bytes, cp_out = [], cp_counter = 0, cp_shut = False\<rparr>"

definition copy_inv :: "string \<Rightarrow> copying \<Rightarrow> bool" where
  "copy_inv input_bytes c \<longleftrightarrow> cp_out c @ cp_in c = input_bytes \<and> cp_counter c = length (cp_out c) \<and> (cp_shut c \<longrightarrow> cp_in c = [])"

lemma copy_chunk_inv: "copy_inv a c \<Longrightarrow> 0 < n \<Longrightarrow> copy_inv a (copy_chunk n c)"
  by (auto simp: copy_inv_def copy_chunk_def Let_def min_def)

lemma bridge_turn_inv:
  "copy_inv a c \<Longrightarrow> copy_inv b d \<Longrightarrow> bridge_turn t (c, d) = (c', d') \<Longrightarrow> copy_inv a c' \<and> copy_inv b d'"
  by (cases t) (auto simp: copy_chunk_inv split: if_splits)

lemma bridge_inv:
  "copy_inv a c \<Longrightarrow> copy_inv b d \<Longrightarrow> bridge turns (c, d) = (c', d') \<Longrightarrow> copy_inv a c' \<and> copy_inv b d'"
proof (induction turns arbitrary: c d)
  case Nil
  then show ?case by (simp add: bridge_def)
next
  case (Cons t turns)
  obtain c1 d1 where t: "bridge_turn t (c, d) = (c1, d1)" by fastforce
  then have "bridge turns (c1, d1) = (c', d')" using Cons.prems(3) by (simp add: bridge_def)
  with Cons.IH bridge_turn_inv [OF Cons.prems(1,2) t] show ?case by blast
qed

text \<open>A direction that gets enough turns is shut down, whatever happens to the other.\<close>

lemma copy_chunk_progress:
  "0 < n \<Longrightarrow> cp_shut (copy_chunk n c) \<or> length (cp_in (copy_chunk n c)) < length (cp_in c) \<and> cp_shut (copy_chunk n c) = cp_shut c"
  by (auto simp: copy_chunk_def Let_def)

definition forwards :: "turn list \<Rightarrow> nat" where
  "forwards turns = length (filter (\<lambda>t. \<exists>n > 0. t = Forward n) turns)"

lemma bridge_shut_stays: "cp_shut c \<Longrightarrow> bridge turns (c, d) = (c', d') \<Longrightarrow> cp_shut c'"
proof (induction turns arbitrary: c d)
  case (Cons t turns)
  obtain c1 d1 where t: "bridge_turn t (c, d) = (c1, d1)" by fastforce
  with Cons.prems(1) have "cp_shut c1" by (cases t) (auto split: if_splits)
  moreover have "bridge turns (c1, d1) = (c', d')" using Cons.prems(2) t by (simp add: bridge_def)
  ultimately show ?case using Cons.IH by blast
qed (simp add: bridge_def)

lemma bridge_finishes:
  "length (cp_in c) < forwards turns \<Longrightarrow> bridge turns (c, d) = (c', d') \<Longrightarrow> cp_shut c'"
proof (induction turns arbitrary: c d)
  case Nil
  then show ?case by (simp add: forwards_def)
next
  case (Cons t turns)
  obtain c1 d1 where t: "bridge_turn t (c, d) = (c1, d1)" by fastforce
  have rest: "bridge turns (c1, d1) = (c', d')" using Cons.prems(2) t by (simp add: bridge_def)
  show ?case
  proof (cases "cp_shut c1")
    case True
    with rest show ?thesis by (rule bridge_shut_stays [rotated])
  next
    case False
    have "length (cp_in c1) < forwards turns"
    proof (cases "\<exists>n > 0. t = Forward n")
      case True
      then obtain n where n: "0 < n" "t = Forward n" by blast
      with t False copy_chunk_progress [OF n(1), of c] have "length (cp_in c1) < length (cp_in c)" by (auto split: if_splits)
      with Cons.prems(1) True show ?thesis by (simp add: forwards_def)
    next
      case no: False
      with t have "c1 = c" by (cases t) (auto split: if_splits)
      with Cons.prems(1) no show ?thesis by (simp add: forwards_def)
    qed
    with Cons.IH rest show ?thesis by blast
  qed
qed

text \<open>Supporting result: a tunnel passes on exactly what it reads, in order, in both directions, and counts it; a
  direction is shut down only when its input has been passed on completely, which leaves the other
  direction running, and it is after at most one turn more than it has bytes.\<close>

theorem bridge_passes_everything_on:
  assumes "bridge turns (fresh a, fresh b) = (c, d)"
  shows "cp_out c @ cp_in c = a \<and> cp_out d @ cp_in d = b \<and> cp_counter c = length (cp_out c) \<and> cp_counter d = length (cp_out d) \<and>
    (cp_shut c \<longrightarrow> cp_out c = a) \<and> (cp_shut d \<longrightarrow> cp_out d = b) \<and> (length a < forwards turns \<longrightarrow> cp_shut c)"
proof -
  have "copy_inv a (fresh a)" "copy_inv b (fresh b)" by (simp_all add: copy_inv_def fresh_def)
  from bridge_inv [OF this assms] bridge_finishes [OF _ assms] show ?thesis by (auto simp: copy_inv_def fresh_def)
qed

theorem bridge_passes_everything_on_witness:
  "\<exists>c d. bridge [Forward 2, Forward 5, Backward 1, Forward 5, Backward 9, Forward 1, Forward 1] (fresh ''get'', fresh ''reply'') = (c, d) \<and>
     cp_shut c \<and> cp_out c = ''get''"
proof -
  obtain c d where run: "bridge [Forward 2, Forward 5, Backward 1, Forward 5, Backward 9, Forward 1, Forward 1] (fresh ''get'', fresh ''reply'') = (c, d)"
    by fastforce
  from bridge_passes_everything_on [OF run] run show ?thesis by (simp add: forwards_def)
qed

end
