(* ===== verification/Spec2Isabelle.thy ===== *)
theory Spec2Isabelle
  imports Prelude Decimal Command_Guard Input_Tracker Approval Gateway Plugin_Manifest
    Plugin_Host Trust_Store Sync_Clock Sync_Store Sync_Apply Sync_Local Requests Sync_Crypto
    Cloud_Provider Cloud_Sync Cloud_Sync_Run Sftp_Paths Sftp_Client Database Database_Facts
    Database_Results Gateway_Tools Gateway_Tools_Facts Gateway_Tools_Results Ipc_Messages
    Ipc_Results Ipc_Safety Ipc_Server Local_Paths Remote_Search Session_Results Session_Safety
    Session_Services Sessions Socks Ssh_Client Tool_Definitions
begin

text \<open>
  VibeShell, a terminal for SSH servers with an agent gateway: a model of its back end, the Rust crates
  under \<^verbatim>\<open>src-tauri\<close>, \<^verbatim>\<open>plugins\<close> and \<^verbatim>\<open>cli\<close>, and what is proved of it.

  \<^bold>\<open>The program.\<close>  The application (or a daemon in its place) keeps SSH sessions to remote servers.  An
  agent, usually a language model, works in them over the agent gateway: what it types is followed by an
  input tracker, classified by the command guard, and shown to the user for approval when it is risky.
  Plugins add commands with typed inputs to a session, files go over SFTP, and servers, groups, snippets and
  plugins are kept in a database that other devices of the user share through an encrypted file on a Gist
  or a WebDAV server.  Host keys are trusted on first use.

  \<^bold>\<open>Theories.\<close>  Each holds the definitions of one part, in the order of the code, then its lemmas.  A
  definition has the name of its function or type; the manifest gives file and lines.
    \<^item> \<^verbatim>\<open>Prelude\<close>: result types (\<open>error + 'a\<close> with \<open>rbind\<close> for the question mark operator, \<open>foldm\<close>,
      \<open>traverse\<close>), strings as byte lists with Rust's string functions, UTF-8.  \<^verbatim>\<open>Decimal\<close>: printing and
      parsing of numbers.  \<^verbatim>\<open>Requests\<close>: operations that talk to a server.
    \<^item> \<^verbatim>\<open>Command_Guard\<close>, \<^verbatim>\<open>Input_Tracker\<close> (\<^verbatim>\<open>mcp/guard.rs\<close>), \<^verbatim>\<open>Approval\<close> (\<^verbatim>\<open>mcp/approval.rs\<close>), \<^verbatim>\<open>Gateway\<close>
      (\<^verbatim>\<open>mcp/server.rs\<close>): the classifier, the line editor that reconstructs what a terminal will run, the
      approval state machine, and the handlers that send text or run a command in a session.
    \<^item> \<^verbatim>\<open>Plugin_Manifest\<close> (\<^verbatim>\<open>plugins/src/lib.rs\<close>), \<^verbatim>\<open>Plugin_Host\<close> (\<^verbatim>\<open>commands/plugin.rs\<close>,
      \<^verbatim>\<open>plugins/agent.rs\<close>): manifests and their rendering into commands; installing, granting and running.
    \<^item> \<^verbatim>\<open>Trust_Store\<close> (\<^verbatim>\<open>ssh/fingerprint.rs\<close>): the host keys and the processes that share their file.
    \<^item> \<^verbatim>\<open>Sync_Clock\<close>, \<^verbatim>\<open>Sync_Store\<close>, \<^verbatim>\<open>Sync_Apply\<close>, \<^verbatim>\<open>Sync_Local\<close> (\<^verbatim>\<open>storage/sync.rs\<close> with the parts of
      \<^verbatim>\<open>storage/database.rs\<close> it uses): revisions, the outbox, remote batches, the activation of a vault.
    \<^item> \<^verbatim>\<open>Sync_Crypto\<close> (\<^verbatim>\<open>storage/sync_crypto.rs\<close>), \<^verbatim>\<open>Cloud_Provider\<close> (\<^verbatim>\<open>cloud_sync/providers.rs\<close>),
      \<^verbatim>\<open>Cloud_Sync\<close> and \<^verbatim>\<open>Cloud_Sync_Run\<close> (\<^verbatim>\<open>cloud_sync/mod.rs\<close>, \<^verbatim>\<open>portable_file.rs\<close>): the encrypted
      batches, the two providers, and the rounds of a synchronisation.
    \<^item> \<^verbatim>\<open>Sftp_Paths\<close>, \<^verbatim>\<open>Sftp_Client\<close> (\<^verbatim>\<open>sftp/helpers.rs\<close>, \<^verbatim>\<open>sftp/sync.rs\<close>): remote paths, and transfers,
      deletions and directory synchronisation against an arbitrary server.
    \<^item> \<^verbatim>\<open>Ssh_Client\<close> (\<^verbatim>\<open>ssh/client.rs\<close>), \<^verbatim>\<open>Session_Services\<close> (\<^verbatim>\<open>replay.rs\<close>, \<^verbatim>\<open>tunnel/manager.rs\<close>,
      \<^verbatim>\<open>logging/session_logger.rs\<close>), \<^verbatim>\<open>Sessions\<close> (\<^verbatim>\<open>session/session.rs\<close>, \<^verbatim>\<open>session/manager.rs\<close>),
      \<^verbatim>\<open>Session_Safety\<close> and \<^verbatim>\<open>Session_Results\<close>: connecting with the host-key check, commands and their
      limits, what a session keeps beside its connection, and the manager of all sessions.
    \<^item> \<^verbatim>\<open>Socks\<close> (\<^verbatim>\<open>tunnel/dynamic_forward.rs\<close>, \<^verbatim>\<open>tunnel/bridge.rs\<close>): the SOCKS5 negotiation of a dynamic
      forward and the copying of both directions of a tunnel.
    \<^item> \<^verbatim>\<open>Local_Paths\<close> (\<^verbatim>\<open>mcp/server.rs\<close>), \<^verbatim>\<open>Ipc_Messages\<close>, \<^verbatim>\<open>Ipc_Server\<close> (\<^verbatim>\<open>ipc/socket.rs\<close>,
      \<^verbatim>\<open>ipc/runtime_services.rs\<close>), \<^verbatim>\<open>Ipc_Safety\<close> and \<^verbatim>\<open>Ipc_Results\<close>: download targets, and the server that
      the command line and other windows reach; each message is one step of its world.
    \<^item> \<^verbatim>\<open>Database\<close> (\<^verbatim>\<open>storage/database.rs\<close>), \<^verbatim>\<open>Database_Facts\<close>, \<^verbatim>\<open>Database_Results\<close>: the tables of the
      application, the user's edits of the synchronised tables, credentials and their encryption, command
      history and audit trail.
    \<^item> \<^verbatim>\<open>Remote_Search\<close> (\<^verbatim>\<open>remote_tools.rs\<close>), \<^verbatim>\<open>Tool_Definitions\<close> (\<^verbatim>\<open>mcp/tools.rs\<close>), \<^verbatim>\<open>Gateway_Tools\<close>
      (\<^verbatim>\<open>mcp/server.rs\<close>, \<^verbatim>\<open>mcp/stdio.rs\<close>), \<^verbatim>\<open>Gateway_Tools_Facts\<close>, \<^verbatim>\<open>Gateway_Tools_Results\<close>: the tools of the
      agent gateway on the world of \<^verbatim>\<open>Ipc_Server\<close> and the tables of \<^verbatim>\<open>Database\<close>, their schemas, and the
      JSON-RPC transports over HTTP and standard input.

  \<^bold>\<open>How the code is modelled.\<close>  State is passed explicitly as records; a \<open>HashMap\<close> is an association list
  with distinct keys, or a map where its order cannot be seen; \<open>Result\<close> is a sum and every early return is
  a branch of it.  Ports are \<open>16 word\<close>s and the revision clock checks its 64-bit additions.  Strings are
  lists of bytes.  Random numbers, UUIDs and the clock are functions of a counter in the state.  Servers are
  not trusted: a request is answered by an arbitrary function of all requests so far (\<open>ask\<close>), or, where the
  code relies on a server that honours conditional requests, by \<open>store_send\<close>.  Third-party libraries (JSON,
  base64, URL parsing, the cipher, file matching, the SSH and SFTP protocols) are parameters; what the
  properties need of them is a named hypothesis (\<open>crypto_ok\<close>, \<open>sealed_by_holders\<close>, \<open>json_codec_ok\<close> and the
  like), each with an instance in a witness.

  \<^bold>\<open>What is shown.\<close>  For the agent: every line that reaches a terminal complete and that the classifier flags
  was shown and approved, across any number of calls and splittings of the text; the tracker refines a
  plain line editor and does not depend on how the input is cut; a denial is final.  For plugins: rendered
  commands keep the argument boundaries of the manifest, and external code runs only as reviewed.  For
  the storage: remote batches keep the database consistent, devices that have seen the same changes agree
  on all revisions, local edits are newest and are never lost by a synchronisation, whatever the provider
  does; what it returns cannot forge a change; secrets are only sent to the host they belong to.  For
  SFTP: deletions stay below their directory and spare excluded files.  For host keys: a key is trusted only
  if the user approved it, also with several processes.  For
  sessions: secrets are only sent over connections whose key the trust file holds for their server, a failed
  attempt leaves nothing behind, and closing a session takes exactly what belongs to it.  A
  SOCKS5 client is served exactly for a well-formed CONNECT request, and a tunnel passes on all bytes in order.
  Over the IPC every message is recorded before it is executed, commands and typed lines the guard flags are
  refused, sensitive input is not recorded, and downloads stay in the allowed directories.
  Every edit of the database keeps all its tables consistent, credentials stay with their server and are read
  as they were saved, a search of the history is literal, and the audit trail is read without gaps.
  A call of a tool of the gateway is recorded before it acts, the commands it starts were checked or approved
  during the call, an edit writes the replacement and nothing else, a deleted server leaves nothing behind, the
  advertised schemas are those of the tools, and both transports agree.

  \<^bold>\<open>Interfaces.\<close>  Locales state what one part relies on another for; each is interpreted on the model's own
  definitions in the theory of the part that provides it.

  \<^bold>\<open>Bounds and fuel.\<close>  \<open>sync_rounds\<close> counts down from the 64 rounds of the code and \<open>gist_rounds\<close> and
  \<open>webdav_rounds\<close> from its four attempts, so the counters are the code's own.  The recursive deletion and the
  listing of a directory count down from the depth limit of the code.  \<open>fit_upload\<close> terminates because each
  round halves the batch.  Downloads read until the server ends them: their fuel is a parameter, the
  properties hold for any.  The waiting for an
  acknowledgement counts down the messages that arrive within its time limit (\<open>pr_patience\<close>, any number),
  the prompts of an authentication from the four rounds of the code; the loop of a command follows the list
  of its wake-ups, and returns on every list that reaches the time limit.  A reader of the
  audit trail (\<open>read_trail\<close>) terminates by the number of events after its position.  The search for the
  shortest identifier (\<open>unique_from\<close>) and the cutting of a text at its matches (\<open>pieces\<close>) terminate by the
  length of the text left.

  \<^bold>\<open>Not modelled.\<close>  The user interface; the wire protocols of SSH and SFTP, the cipher and the SQL engine
  (third-party); process creation, pseudo terminals, raw terminal mode, installers and logging (input and
  output of the platform); the schema migrations.  Concurrency is modelled by the steps between which other
  parts may act: the approval manager and the trust store are transition systems, other devices write
  between the requests of an exchange, and the application may capture edits during one; the mutexes of
  the code make the steps atomic.
\<close>

end
